(* ===== verification/Prelude.thy ===== *)
theory Prelude
  imports Main "HOL-Library.Word"
begin

text \<open>
  Shared vocabulary of the development: JavaScript strings, the part of the standard library that
  the frontend uses on them, array operations that HOL's list library lacks, and the generic
  lemmas on lists that the component theories rest on.

  A JavaScript string is a sequence of UTF-16 code units, so \<open>jstr\<close> is a list of 16-bit words.
  An ASCII literal of the source is written \<open>js ''literal''\<close>; the few literals outside ASCII are
  written as the list of their code units. Numbers that the frontend only counts with (sequence
  numbers, byte sizes, milliseconds) are \<open>int\<close> or \<open>nat\<close>: they stay far below \<open>2 ^ 53\<close>, where
  a double is exact.

  Three standard functions depend on tables or heuristics of the JavaScript engine and are
  arguments of the definitions that use them: \<open>Date.parse\<close> (\<open>dp\<close>, \<open>None\<close> for \<open>NaN\<close>),
  \<open>String.prototype.toLowerCase\<close> (\<open>lower\<close>) and \<open>localeCompare\<close>.
\<close>

named_theorems jstr_eval \<open>equations that evaluate string operations on literals\<close>
named_theorems reducer_defs \<open>unfoldings of the helpers that the reducers call\<close>

section \<open>Definitions\<close>

subsection \<open>Strings\<close>

type_synonym code_unit = "16 word"
type_synonym jstr = "code_unit list"

definition js :: "string \<Rightarrow> jstr" where
  "js s = map of_char s"

text \<open>The white space and line terminators of \<open>trim\<close> and of the class \<open>\s\<close> in a pattern.\<close>

definition is_space :: "code_unit \<Rightarrow> bool" where
  "is_space c \<longleftrightarrow> c \<in> set [9, 10, 11, 12, 13, 32, 0xA0, 0x1680, 0x2028, 0x2029, 0x202F, 0x205F,
     0x3000, 0xFEFF] \<or> (0x2000 \<le> c \<and> c \<le> 0x200A)"

definition js_trim :: "jstr \<Rightarrow> jstr" where
  "js_trim s = rev (dropWhile is_space (rev (dropWhile is_space s)))"

definition starts_with :: "'a list \<Rightarrow> 'a list \<Rightarrow> bool" where
  "starts_with p s \<longleftrightarrow> take (length p) s = p"

definition ends_with :: "'a list \<Rightarrow> 'a list \<Rightarrow> bool" where
  "ends_with p s \<longleftrightarrow> starts_with (rev p) (rev s)"

text \<open>\<open>indexOf\<close>: \<open>None\<close> stands for \<open>-1\<close>.\<close>

fun index_of :: "'a list \<Rightarrow> 'a list \<Rightarrow> nat option" where
  "index_of p [] = (if p = [] then Some 0 else None)"
| "index_of p (x # xs) =
     (if starts_with p (x # xs) then Some 0 else map_option Suc (index_of p xs))"

text \<open>\<open>split\<close> on one code unit, and \<open>join\<close>.\<close>

fun split_on :: "'a \<Rightarrow> 'a list \<Rightarrow> 'a list list" where
  "split_on c [] = [[]]"
| "split_on c (x # xs) =
     (if x = c then [] # split_on c xs
      else (case split_on c xs of [] \<Rightarrow> [[x]] | l # ls \<Rightarrow> (x # l) # ls))"

fun join :: "'a list \<Rightarrow> 'a list list \<Rightarrow> 'a list" where
  "join sep [] = []"
| "join sep [x] = x"
| "join sep (x # y # ys) = x @ sep @ join sep (y # ys)"

text \<open>Truthiness of \<open>string | null | undefined\<close>.\<close>

definition truthy :: "jstr option \<Rightarrow> bool" where
  "truthy x = (case x of None \<Rightarrow> False | Some s \<Rightarrow> s \<noteq> [])"

text \<open>\<open>x?.trim()\<close> used as a condition.\<close>

definition truthy_trim :: "jstr option \<Rightarrow> bool" where
  "truthy_trim x = (case x of None \<Rightarrow> False | Some s \<Rightarrow> js_trim s \<noteq> [])"

definition nullish :: "'a option \<Rightarrow> 'a \<Rightarrow> 'a" where
  "nullish x d = (case x of None \<Rightarrow> d | Some v \<Rightarrow> v)"

text \<open>\<open>x ?? y\<close> where the result may still be null.\<close>

definition orelse :: "'a option \<Rightarrow> 'a option \<Rightarrow> 'a option" where
  "orelse x y = (case x of None \<Rightarrow> y | Some v \<Rightarrow> Some v)"

subsection \<open>Dates\<close>

text \<open>
  \<open>Date.parse(a) < Date.parse(b)\<close> and \<open>>=\<close>: a comparison with \<open>NaN\<close> is false.
\<close>

type_synonym date_parse = "jstr \<Rightarrow> int option"

definition date_less :: "date_parse \<Rightarrow> jstr \<Rightarrow> jstr \<Rightarrow> bool" where
  "date_less dp a b = (case (dp a, dp b) of (Some x, Some y) \<Rightarrow> x < y | _ \<Rightarrow> False)"

definition date_ge :: "date_parse \<Rightarrow> jstr \<Rightarrow> jstr \<Rightarrow> bool" where
  "date_ge dp a b = (case (dp a, dp b) of (Some x, Some y) \<Rightarrow> x \<ge> y | _ \<Rightarrow> False)"

subsection \<open>Arrays and maps\<close>

fun find_index :: "('a \<Rightarrow> bool) \<Rightarrow> 'a list \<Rightarrow> nat option" where
  "find_index p [] = None"
| "find_index p (x # xs) = (if p x then Some 0 else map_option Suc (find_index p xs))"

text \<open>\<open>xs.splice(i, 0, x)\<close>.\<close>

definition splice_in :: "nat \<Rightarrow> 'a \<Rightarrow> 'a list \<Rightarrow> 'a list" where
  "splice_in i x xs = take i xs @ x # drop i xs"

text \<open>\<open>new Map(entries)\<close>: a later entry with the same key replaces the earlier one.\<close>

definition js_map_of :: "('k \<times> 'v) list \<Rightarrow> 'k \<Rightarrow> 'v option" where
  "js_map_of es = map_of (rev es)"

text \<open>Appending to a list of ids only when the id is new, as the reducers do with \<open>includes\<close>.\<close>

definition add_new :: "'a \<Rightarrow> 'a list \<Rightarrow> 'a list" where
  "add_new x xs = (if x \<in> set xs then xs else xs @ [x])"

section \<open>Lemmas on strings\<close>

lemma nullish_simps [simp]: "nullish None d = d" "nullish (Some v) d = v"
  by (simp_all add: nullish_def)

lemma orelse_simps [simp]: "orelse None y = y" "orelse (Some v) y = Some v" "orelse x None = x"
  by (simp_all add: orelse_def split: option.splits)

lemma of_char_code_unit_inject [simp]: "(of_char c :: code_unit) = of_char d \<longleftrightarrow> c = d"
proof
  assume "(of_char c :: code_unit) = of_char d"
  then have "unat (of_nat (of_char c) :: code_unit) = unat (of_nat (of_char d) :: code_unit)"
    by (simp only: of_nat_of_char)
  moreover have "(of_char c :: nat) < 2 ^ 16" "(of_char d :: nat) < 2 ^ 16"
    by (rule order.strict_trans [OF nat_of_char_less_256], simp)+
  ultimately have "(of_char c :: nat) = of_char d"
    by (simp only: unat_of_nat) simp
  then show "c = d" by simp
qed simp

lemma js_inject [simp]: "js a = js b \<longleftrightarrow> a = b"
  by (simp add: js_def inj_map_eq_map inj_def)

lemma js_Nil [simp]: "js [] = []"
  by (simp add: js_def)

lemma js_eq_Nil [simp]: "js s = [] \<longleftrightarrow> s = []"
  by (simp add: js_def)

lemma js_append: "js (a @ b) = js a @ js b"
  by (simp add: js_def)

lemma length_js [simp]: "length (js s) = length s"
  by (simp add: js_def)

lemma starts_with_Nil [simp]: "starts_with [] s"
  by (simp add: starts_with_def)

lemma starts_with_iff: "starts_with p s \<longleftrightarrow> (\<exists>t. s = p @ t)"
  by (metis append_eq_conv_conj append_take_drop_id starts_with_def)

lemma starts_with_append [simp]: "starts_with p (p @ t)"
  by (simp add: starts_with_def)

lemma starts_with_mono: "starts_with p s \<Longrightarrow> starts_with p (s @ t)"
  by (auto simp: starts_with_iff)

lemma starts_with_length: "starts_with p s \<Longrightarrow> length p \<le> length s"
  by (auto simp: starts_with_iff)

lemma starts_with_append_long:
  "length p \<le> length s \<Longrightarrow> starts_with p (s @ t) \<longleftrightarrow> starts_with p s"
  by (simp add: starts_with_def)

lemma index_of_Some:
  "index_of p s = Some i \<longleftrightarrow>
     i \<le> length s \<and> starts_with p (drop i s) \<and> (\<forall>j < i. \<not> starts_with p (drop j s))"
proof (induction s arbitrary: i)
  case Nil
  then show ?case by (auto simp: starts_with_def)
next
  case (Cons x xs)
  show ?case
  proof (cases i)
    case 0
    then show ?thesis by simp
  next
    case (Suc k)
    then show ?thesis
      using Cons.IH [of k] by (auto simp: less_Suc_eq_0_disj)
  qed
qed

lemma all_le_Suc_split: "(\<forall>j \<le> Suc n. P j) \<longleftrightarrow> P 0 \<and> (\<forall>j \<le> n. P (Suc j))"
  by (metis Suc_le_mono le0 not0_implies_Suc)

lemma index_of_None:
  "index_of p s = None \<longleftrightarrow> (\<forall>j \<le> length s. \<not> starts_with p (drop j s))"
proof (induction s)
  case Nil
  then show ?case by (auto simp: starts_with_def)
next
  case (Cons x xs)
  have "(\<forall>j \<le> length (x # xs). \<not> starts_with p (drop j (x # xs))) \<longleftrightarrow>
    \<not> starts_with p (x # xs) \<and> (\<forall>j \<le> length xs. \<not> starts_with p (drop j xs))"
    by (simp add: all_le_Suc_split)
  with Cons.IH show ?case by simp
qed

lemma split_on_not_Nil [simp]: "split_on c s \<noteq> []"
  by (induction s) (auto split: list.splits)

lemma join_split_on: "join [c] (split_on c s) = s"
proof (induction s)
  case Nil
  then show ?case by simp
next
  case (Cons x xs)
  obtain l ls where "split_on c xs = l # ls"
    by (cases "split_on c xs") auto
  with Cons show ?case by (cases ls) auto
qed

lemma split_on_free: "l \<in> set (split_on c s) \<Longrightarrow> c \<notin> set l"
  by (induction s arbitrary: l) (auto split: if_splits list.splits)

lemma split_on_id: "c \<notin> set s \<Longrightarrow> split_on c s = [s]"
  by (induction s) auto

lemma split_on_append_sep: "c \<notin> set a \<Longrightarrow> split_on c (a @ c # b) = a # split_on c b"
  by (induction a) auto

lemma split_on_join:
  "xs \<noteq> [] \<Longrightarrow> \<forall>x \<in> set xs. c \<notin> set x \<Longrightarrow> split_on c (join [c] xs) = xs"
  by (induction "[c]" xs rule: join.induct) (auto simp: split_on_id split_on_append_sep)

section \<open>Lemmas on arrays and maps\<close>

lemma find_index_Some:
  "find_index p xs = Some i \<longleftrightarrow> i < length xs \<and> p (xs ! i) \<and> (\<forall>j < i. \<not> p (xs ! j))"
proof (induction xs arbitrary: i)
  case Nil
  then show ?case by simp
next
  case (Cons x xs)
  show ?case
  proof (cases i)
    case 0
    then show ?thesis by simp
  next
    case (Suc k)
    then show ?thesis
      using Cons.IH [of k] by (auto simp: less_Suc_eq_0_disj)
  qed
qed

lemma find_index_None: "find_index p xs = None \<longleftrightarrow> (\<forall>x \<in> set xs. \<not> p x)"
  by (induction xs) auto

lemma set_splice_in [simp]: "set (splice_in i x xs) = insert x (set xs)"
  by (simp add: splice_in_def) (metis append_take_drop_id set_append)

lemma length_splice_in [simp]: "length (splice_in i x xs) = Suc (length xs)"
  by (simp add: splice_in_def)

lemma map_splice_in: "map f (splice_in i x xs) = splice_in i (f x) (map f xs)"
  by (simp add: splice_in_def take_map drop_map)

lemma distinct_splice_in [simp]:
  "distinct (splice_in i x xs) \<longleftrightarrow> x \<notin> set xs \<and> distinct xs"
proof -
  have "distinct (splice_in i x xs) \<longleftrightarrow> distinct (x # take i xs @ drop i xs)"
    by (auto simp add: splice_in_def simp del: append_take_drop_id)
  then show ?thesis by simp
qed

lemma js_map_of_in: "js_map_of es k = Some v \<Longrightarrow> (k, v) \<in> set es"
  by (metis js_map_of_def map_of_SomeD set_rev)

lemma js_map_of_None: "js_map_of es k = None \<longleftrightarrow> k \<notin> fst ` set es"
  by (simp add: js_map_of_def map_of_eq_None_iff)

lemma js_map_of_distinct:
  "distinct (map fst es) \<Longrightarrow> js_map_of es k = Some v \<longleftrightarrow> (k, v) \<in> set es"
  by (simp add: js_map_of_def map_of_eq_Some_iff rev_map [symmetric] flip: rev_map)

lemma set_add_new [simp]: "set (add_new x xs) = insert x (set xs)"
  by (auto simp: add_new_def)

lemma distinct_add_new [simp]: "distinct (add_new x xs) \<longleftrightarrow> distinct xs"
  by (auto simp: add_new_def)

lemma find_None: "List.find p xs = None \<longleftrightarrow> (\<forall>x \<in> set xs. \<not> p x)"
  by (auto simp: find_None_iff)

lemma find_SomeD: "List.find p xs = Some x \<Longrightarrow> x \<in> set xs \<and> p x"
  by (auto simp: find_Some_iff)

lemma find_by_key:
  assumes "distinct (map f xs)" and "x \<in> set xs"
  shows "List.find (\<lambda>y. f y = f x) xs = Some x"
proof -
  obtain y where "List.find (\<lambda>y. f y = f x) xs = Some y"
    using assms(2) by (cases "List.find (\<lambda>y. f y = f x) xs") (auto simp: find_None_iff)
  moreover from this have "y \<in> set xs" and "f y = f x"
    by (auto dest: find_SomeD)
  ultimately show ?thesis
    using assms by (metis distinct_map inj_on_def)
qed

lemma distinct_map_filterI: "distinct (map f xs) \<Longrightarrow> distinct (map f (filter p xs))"
  by (induction xs) auto

lemma sorted_wrt_filterI: "sorted_wrt r xs \<Longrightarrow> sorted_wrt r (filter p xs)"
  by (induction xs) auto

lemma dropWhile_again: "dropWhile P (dropWhile P s) = dropWhile P s"
  by (induction s) auto

lemma js_trim_again: "js_trim (js_trim s) = js_trim s"
proof -
  define d where "d = dropWhile is_space s"
  define t where "t = rev (dropWhile is_space (rev d))"
  have "dropWhile is_space t = t"
  proof (cases t)
    case (Cons c cs)
    obtain zs where "rev d = zs @ rev t" unfolding t_def by (metis takeWhile_dropWhile_id rev_rev_ident)
    then have "d = t @ rev zs" by (metis rev_append rev_rev_ident)
    then have d: "d = c # cs @ rev zs" unfolding Cons by simp
    have "\<not> is_space c" using hd_dropWhile [of is_space s] unfolding d_def [symmetric] d by simp
    then show ?thesis using Cons by simp
  qed simp
  moreover have "js_trim s = t" by (simp only: js_trim_def t_def d_def)
  moreover have "dropWhile is_space (rev t) = rev t" by (simp add: t_def dropWhile_again)
  ultimately show ?thesis by (simp add: js_trim_def [of t])
qed

end
