(* ===== verification/Api_Types.thy ===== *)
theory Api_Types
  imports Prelude
begin

text \<open>
  The data exchanged with the backend and kept by the application state
  (\<open>frontend/src/api/types.ts\<close>, \<open>frontend/src/files/types.ts\<close>, \<open>AuthSession\<close> of
  \<open>frontend/src/auth/tokenStore.ts\<close>) and the union \<open>AppAction\<close> of
  \<open>frontend/src/app/store.ts\<close>.

  A property of type \<open>T | null\<close>, \<open>T | undefined\<close> or \<open>T | null | undefined\<close> is an \<open>option\<close>:
  none of the code modelled on these records tells the two absent values apart. Property names
  carry a prefix of their record, because record selectors are global in HOL.
\<close>

section \<open>JSON values\<close>

text \<open>
  Values of type \<open>unknown\<close> that come out of \<open>JSON.parse\<close>. An object is the list of its entries.
  The numbers of the API are integers. \<open>jnum\<close> is a number that may be \<open>NaN\<close>, the result of
  \<open>Number(x)\<close>.
\<close>

datatype json = JNull | JBool bool | JNum int | JStr jstr | JArr "json list"
  | JObj "(jstr \<times> json) list"

datatype jnum = Num int | NaN

text \<open>\<open>value.key\<close> on a parsed object; \<open>None\<close> is \<open>undefined\<close>.\<close>

fun json_get :: "jstr \<Rightarrow> json \<Rightarrow> json option" where
  "json_get k (JObj es) = js_map_of es k"
| "json_get k _ = None"

fun json_string :: "json option \<Rightarrow> jstr option" where
  "json_string (Some (JStr s)) = Some s"
| "json_string _ = None"

fun json_number :: "json option \<Rightarrow> int option" where
  "json_number (Some (JNum n)) = Some n"
| "json_number _ = None"

text \<open>\<open>typeof value === "object" && value !== null\<close>.\<close>

fun json_is_object :: "json \<Rightarrow> bool" where
  "json_is_object (JObj _) = True"
| "json_is_object (JArr _) = True"
| "json_is_object _ = False"

section \<open>Users and sessions\<close>

record auth_user_response =
  user_id :: int
  user_username :: jstr
  user_nickname :: jstr
  user_email :: jstr
  user_email_verified :: bool
  user_avatar_url :: "jstr option"

record auth_token_response =
  tok_user :: auth_user_response
  tok_access_token :: jstr
  tok_refresh_token :: jstr
  tok_token_type :: jstr
  tok_expires_in :: int

record auth_session =
  ses_user :: auth_user_response
  ses_accessToken :: jstr
  ses_refreshToken :: jstr
  ses_tokenType :: jstr
  ses_expiresAt :: int

section \<open>Files\<close>

datatype attachment_origin = Upload | Paste

datatype input_kind = Document | Image

datatype file_upload_status =
  FPending | FQueued | FProcessing | FSucceeded | FRejected | FFailed | FExpired | FCancelled

record file_attachment =
  fa_id :: jstr
  fa_name :: jstr
  fa_media_type :: jstr
  fa_size_bytes :: int
  fa_category :: jstr
  fa_model_input_kind :: "input_kind option"
  fa_origin :: "attachment_origin option"
  fa_position :: "int option"
  fa_warning :: "jstr list option"
  fa_warnings :: "jstr list option"
  fa_preview_available :: bool
  fa_stats :: "(jstr \<times> json) list option"
  fa_upload_expires_at :: "jstr option"
  fa_unbound_expires_at :: "jstr option"

record file_upload_record =
  fur_upload_id :: jstr
  fur_status :: file_upload_status
  fur_error_code :: "jstr option"
  fur_message :: "jstr option"
  fur_file :: "file_attachment option"

record upload_part =
  up_part_number :: int
  up_upload_url :: jstr
  up_upload_headers :: "(jstr \<times> jstr) list"

datatype upload_method = Single | Multipart

record file_upload_session =
  fus_upload_id :: jstr
  fus_upload_method :: "upload_method option"
  fus_upload_url :: "jstr option"
  fus_upload_headers :: "(jstr \<times> jstr) list"
  fus_upload_parts :: "upload_part list option"
  fus_part_size_bytes :: "nat option"
  fus_upload_url_expires_at :: jstr
  fus_session_expires_at :: jstr

record files_capability =
  cap_enabled :: bool
  cap_allowed_extensions :: "jstr list"
  cap_category_max_bytes :: "jstr \<rightharpoonup> int"
  cap_accepts_unlisted_text :: "bool option"
  cap_max_attachments_per_message :: nat
  cap_max_message_bytes :: int
  cap_quota_bytes :: int
  cap_target_turn_tokens :: int
  cap_context_budget_tokens :: int

text \<open>\<open>DraftAttachmentStatus = FileUploadStatus | "creating" | "uploading"\<close>.\<close>

datatype draft_attachment_status = Creating | Uploading | Durable file_upload_status

record draft_attachment =
  da_client_id :: jstr
  da_upload_id :: "jstr option"
  da_status :: draft_attachment_status
  da_error_code :: "jstr option"
  da_error_message :: "jstr option"
  da_file :: "file_attachment option"
  da_name :: jstr
  da_media_type :: jstr
  da_size_bytes :: int
  da_category :: jstr
  da_model_input_kind :: "input_kind option"
  da_origin :: "attachment_origin option"
  da_progress :: "int option"
  da_local_preview_url :: "jstr option"
  da_session_expires_at :: "jstr option"

section \<open>Conversations and messages\<close>

datatype run_status =
  Queued | Started | Streaming | Succeeded | Failed | Cancelling | Cancelled

record conversation_active_run =
  car_id :: jstr
  car_status :: run_status

record conversation_response =
  conv_id :: jstr
  conv_title :: "jstr option"
  conv_activated_at :: "jstr option"
  conv_pinned_at :: "jstr option"
  conv_favorited_at :: "jstr option"
  conv_created_at :: jstr
  conv_updated_at :: jstr
  conv_deleted_at :: "jstr option"
  conv_deletion_due_at :: "jstr option"
  conv_active_run :: "conversation_active_run option"

datatype image_context_state = NoImages | VisionRequired | LegacyUpgradeRequired

record image_context =
  ic_state :: image_context_state
  ic_legacy_message_id :: "jstr option"
  ic_recommended_model :: "jstr option"

datatype message_role = User | Assistant

record message_source =
  src_id :: int
  src_title :: jstr
  src_url :: jstr
  src_snippet :: "jstr option"
  src_published_at :: "jstr option"
  src_provider :: "jstr option"

record source_anchor =
  anchor_version :: int
  anchor_start :: int
  anchor_end :: int

record reply_quote =
  rq_source_message_id :: "jstr option"
  rq_excerpt :: jstr
  rq_source_anchor :: "source_anchor option"

text \<open>\<open>ReplyQuoteDraft\<close>: a quote whose source message is known.\<close>

record reply_quote_draft =
  rqd_source_message_id :: jstr
  rqd_excerpt :: jstr
  rqd_source_anchor :: "source_anchor option"

record message_response =
  msg_id :: jstr
  msg_conversation_id :: jstr
  msg_run_id :: "jstr option"
  msg_role :: message_role
  msg_content :: jstr
  msg_reasoning :: "jstr option"
  msg_reasoning_summary :: "jstr option"
  msg_metadata :: "message_source list option option"
  msg_attachments :: "file_attachment list option"
  msg_reply_quote :: "reply_quote option"
  msg_timing :: "int option"
  msg_position :: int
  msg_created_at :: jstr

text \<open>
  \<open>ConversationDetailResponse\<close> is the conversation with two more properties; the code always
  takes it apart as \<open>{ messages, ...conversation }\<close>.
\<close>

record conversation_detail_response =
  det_conversation :: conversation_response
  det_messages :: "message_response list"
  det_image_context :: "image_context option"

section \<open>Runs\<close>

record run_response =
  run_id :: jstr
  run_conversation_id :: jstr
  run_user_message_id :: jstr
  run_status_of :: run_status
  run_provider_name :: jstr
  run_provider_model :: jstr
  run_created_at :: jstr

record send_message_response =
  smr_message :: message_response
  smr_run :: run_response
  smr_image_context :: "image_context option"

record conversation_create_with_message_response =
  ccr_conversation :: conversation_response
  ccr_response :: send_message_response

datatype run_event_type =
  RunStarted | TextDelta | ReasoningDelta | ToolCallStarted | ToolCallSucceeded
  | ToolCallFailed | RunSucceeded | RunFailed | RunCancelled

record run_event_response =
  ev_seq :: int
  ev_type :: run_event_type
  ev_payload :: json
  ev_created_at :: jstr

record run_tool_source =
  rts_id :: jnum
  rts_title :: jstr
  rts_url :: jstr
  rts_snippet :: "jstr option"
  rts_published_at :: "jstr option"

datatype tool_status = ToolRunning | ToolSucceeded | ToolFailed

record run_tool_state =
  ts_status :: tool_status
  ts_tool_name :: jstr
  ts_query :: "jstr option"
  ts_message :: "jstr option"
  ts_result_count :: "int option"
  ts_sources :: "run_tool_source list"
  ts_running_count :: "int option"
  ts_batch_source_count :: "int option"

record run_state_response =
  rs_run_id :: jstr
  rs_provider_name :: jstr
  rs_status :: run_status
  rs_latest_seq :: int
  rs_draft_text :: jstr
  rs_draft_reasoning :: jstr
  rs_draft_reasoning_summary :: "jstr option"
  rs_tool_state :: "run_tool_state option"
  rs_sources :: "run_tool_source list option"
  rs_terminal_event :: "run_event_response option"

record chat_model_capability =
  cm_id :: jstr
  cm_provider :: jstr
  cm_label :: jstr
  cm_thinking_levels :: "jstr list"
  cm_default :: bool
  cm_supports_image_input :: bool

section \<open>User interface values\<close>

record confirm_dialog_state =
  cd_conversationId :: jstr

record share_dialog_state =
  sd_conversationId :: jstr

datatype toast_tone = ToneNeutral | ToneSuccess | ToneError | ToneWarning

section \<open>Actions\<close>

datatype reasoning_kind = RawReasoning | SummaryReasoning

text \<open>The status of \<open>run/terminal\<close>.\<close>

datatype terminal_status = TSucceeded | TFailed | TCancelled

fun terminal_run_status :: "terminal_status \<Rightarrow> run_status" where
  "terminal_run_status TSucceeded = Succeeded"
| "terminal_run_status TFailed = Failed"
| "terminal_run_status TCancelled = Cancelled"

record run_restored =
  rr_runId :: jstr
  rr_conversationId :: jstr
  rr_providerName :: "jstr option"
  rr_latestSeq :: int
  rr_draftText :: jstr
  rr_draftReasoning :: jstr
  rr_draftReasoningSummary :: "jstr option"
  rr_toolState :: "run_tool_state option"
  rr_sources :: "run_tool_source list option"
  rr_status :: run_status

text \<open>Each slice declares its own actions; \<open>AppAction\<close> is their union.\<close>

datatype auth_action =
    Auth_restored "auth_session option"
  | Auth_bootstrapCompleted
  | Auth_submitStarted
  | Auth_loggedIn auth_session
  | Auth_submitFailed
  | Auth_userUpdated auth_user_response

datatype conversation_index_action =
    ListLoading
  | ListLoaded "conversation_response list" "conversation_response list option" "bool option"
  | ListLoadingMore
  | ListPageLoaded "conversation_response list" bool
  | ListError
  | ListSynced "conversation_response list" "conversation_response list option"
  | MarkerChanged conversation_response
  | ConvRunStarted conversation_response conversation_active_run jstr
  | ConvRunFinished jstr
  | ConvSelected "jstr option"
  | ConvRenamed conversation_response
  | ConvRemoved jstr
  | DraftCreated jstr
  | DraftActivated
  | TitlePending jstr
  | TitleResolved jstr

datatype conversation_detail_action =
    DetailLoading
  | DetailLoaded conversation_response "message_response list" "image_context option"
  | MessageAppended message_response "image_context option"
  | DetailForbidden
  | DetailReset

datatype pending_submission_action =
    SubmissionStarted jstr jstr "jstr option" "file_attachment list" "reply_quote_draft option"
  | SubmissionTargeted jstr
  | SubmissionCleared

datatype ui_action =
    ToggleMobileSidebar
  | SetMobileSidebar bool
  | ToggleSidebarCollapsed
  | OpenConfirm confirm_dialog_state
  | CloseConfirm
  | OpenShare share_dialog_state
  | CloseShare
  | ShowToast jstr toast_tone
  | HideToast

datatype active_run_action =
    Run_started jstr jstr "jstr option"
  | Run_restored run_restored
  | Run_reasoningDelta int jstr "reasoning_kind option"
  | Run_textDelta int jstr
  | Run_toolState int run_tool_state
  | Run_terminal terminal_status
  | Run_cancelRequested
  | Run_cancelFailed
  | Run_cleared

datatype composer_action =
    ReplyQuoteSet reply_quote_draft
  | ReplyQuoteCleared
  | ReplyQuoteRestored "reply_quote_draft option"

datatype app_action =
    AuthA auth_action
  | IndexA conversation_index_action
  | DetailA conversation_detail_action
  | SubmissionA pending_submission_action
  | UiA ui_action
  | RunA active_run_action
  | ComposerA composer_action
  | App_reset

end
