(* ===== verification/Local_Storage.thy ===== *)
theory Local_Storage
  imports Api_Types "HOL-Library.AList"
begin

text \<open>
  Browser storage and the stores built on it: \<open>tokenStore\<close> (\<open>frontend/src/auth/tokenStore.ts\<close>),
  \<open>selectionStore\<close>, \<open>attachmentDraftStore\<close> (\<open>frontend/src/files/draftStore.ts\<close>),
  \<open>replyQuoteDraftStore\<close> and \<open>modelAdminAccessKeyStore\<close>.

  A storage area is the list of its entries in the order \<open>localStorage.key\<close> enumerates them;
  \<open>setItem\<close> keeps the place of an existing key and appends a new one. \<open>JSON.parse\<close> and
  \<open>JSON.stringify\<close> are arguments of the operations that use them.

  Both draft stores scope their keys by user and conversation under a prefix of their own. The
  locale \<open>draft_keys\<close> states what such a key scheme promises and derives once what writing,
  clearing everything and clearing other users' drafts do; both stores interpret it.
\<close>

section \<open>Definitions\<close>

subsection \<open>Storage\<close>

type_synonym storage = "(jstr \<times> jstr) list"

definition get_item :: "jstr \<Rightarrow> storage \<Rightarrow> jstr option" where
  "get_item k st = map_of st k"

definition set_item :: "jstr \<Rightarrow> jstr \<Rightarrow> storage \<Rightarrow> storage" where
  "set_item k v st = AList.update k v st"

definition remove_item :: "jstr \<Rightarrow> storage \<Rightarrow> storage" where
  "remove_item k st = filter (\<lambda>e. fst e \<noteq> k) st"

definition storage_key :: "nat \<Rightarrow> storage \<Rightarrow> jstr option" where
  "storage_key i st = (if i < length st then Some (fst (st ! i)) else None)"

definition wf_storage :: "storage \<Rightarrow> bool" where
  "wf_storage st = distinct (map fst st)"

text \<open>
  The loop of \<open>clearAll\<close> and \<open>clearOtherUsers\<close>: from the last index down, the key at the index is
  removed when it satisfies the condition.
\<close>

fun remove_loop :: "(jstr \<Rightarrow> bool) \<Rightarrow> nat \<Rightarrow> storage \<Rightarrow> storage" where
  "remove_loop p 0 st = st"
| "remove_loop p (Suc i) st =
     remove_loop p i
       (case storage_key i st of
          None \<Rightarrow> st
        | Some k \<Rightarrow> if p k then remove_item k st else st)"

definition remove_matching :: "(jstr \<Rightarrow> bool) \<Rightarrow> storage \<Rightarrow> storage" where
  "remove_matching p st = remove_loop p (length st) st"

definition clear_prefix :: "jstr \<Rightarrow> storage \<Rightarrow> storage" where
  "clear_prefix prefix = remove_matching (\<lambda>k. starts_with (prefix @ js '':'') k)"

definition clear_other_users :: "jstr \<Rightarrow> jstr \<Rightarrow> storage \<Rightarrow> storage" where
  "clear_other_users prefix userId =
     remove_matching (\<lambda>k. starts_with (prefix @ js '':'') k \<and>
       \<not> starts_with (prefix @ js '':'' @ userId @ js '':'') k)"

subsection \<open>The session\<close>

definition auth_storage_key :: jstr where
  "auth_storage_key = js ''ichat.auth''"

definition createAuthSession :: "auth_token_response \<Rightarrow> int \<Rightarrow> auth_session" where
  "createAuthSession response now =
     \<lparr>ses_user = tok_user response, ses_accessToken = tok_access_token response,
      ses_refreshToken = tok_refresh_token response, ses_tokenType = tok_token_type response,
      ses_expiresAt = now + tok_expires_in response * 1000\<rparr>"

text \<open>\<open>parse\<close> gives \<open>None\<close> where \<open>JSON.parse\<close> throws. A read may remove a corrupt entry.\<close>

definition readSession ::
  "(jstr \<Rightarrow> auth_session option) \<Rightarrow> storage \<Rightarrow> auth_session option \<times> storage"
where
  "readSession parse st =
     (let raw = get_item auth_storage_key st
      in if \<not> truthy raw then (None, st)
         else (case parse (the raw) of
                 Some session \<Rightarrow> (Some session, st)
               | None \<Rightarrow> (None, remove_item auth_storage_key st)))"

definition saveSession :: "(auth_session \<Rightarrow> jstr) \<Rightarrow> auth_session \<Rightarrow> storage \<Rightarrow> storage" where
  "saveSession stringify session = set_item auth_storage_key (stringify session)"

definition clearSession :: "storage \<Rightarrow> storage" where
  "clearSession = remove_item auth_storage_key"

definition updateUser ::
  "(jstr \<Rightarrow> auth_session option) \<Rightarrow> (auth_session \<Rightarrow> jstr) \<Rightarrow> auth_user_response \<Rightarrow> storage \<Rightarrow>
   storage"
where
  "updateUser parse stringify user st =
     (case readSession parse st of
        (None, st') \<Rightarrow> st'
      | (Some session, st') \<Rightarrow>
          set_item auth_storage_key (stringify (session\<lparr>ses_user := user\<rparr>)) st')"

definition getAccessToken :: "(jstr \<Rightarrow> auth_session option) \<Rightarrow> storage \<Rightarrow> jstr option" where
  "getAccessToken parse st = map_option ses_accessToken (fst (readSession parse st))"

definition getRefreshToken :: "(jstr \<Rightarrow> auth_session option) \<Rightarrow> storage \<Rightarrow> jstr option" where
  "getRefreshToken parse st = map_option ses_refreshToken (fst (readSession parse st))"

subsection \<open>The selected conversation\<close>

definition selection_storage_key :: jstr where
  "selection_storage_key = js ''ichat.selectedConversationPublicId''"

definition readSelection :: "storage \<Rightarrow> jstr option" where
  "readSelection st =
     (let raw = get_item selection_storage_key st in if truthy raw then raw else None)"

definition saveSelection :: "jstr \<Rightarrow> storage \<Rightarrow> storage" where
  "saveSelection i = set_item selection_storage_key i"

definition clearSelection :: "storage \<Rightarrow> storage" where
  "clearSelection = remove_item selection_storage_key"

subsection \<open>The access key of the model console\<close>

text \<open>\<open>None\<close> is a browser whose session storage throws.\<close>

definition access_key_storage_key :: jstr where
  "access_key_storage_key = js ''ichat.model-management-access-key''"

definition readAccessKey :: "storage option \<Rightarrow> jstr option" where
  "readAccessKey area = (case area of None \<Rightarrow> None | Some st \<Rightarrow> get_item access_key_storage_key st)"

definition saveAccessKey :: "jstr \<Rightarrow> storage option \<Rightarrow> storage option" where
  "saveAccessKey k = map_option (set_item access_key_storage_key k)"

definition clearAccessKey :: "storage option \<Rightarrow> storage option" where
  "clearAccessKey = map_option (remove_item access_key_storage_key)"

subsection \<open>Attachment drafts\<close>

record attachment_draft =
  ad_content :: jstr
  ad_attachments :: "draft_attachment list"

definition emptyDraft :: attachment_draft where
  "emptyDraft = \<lparr>ad_content = [], ad_attachments = []\<rparr>"

definition file_draft_prefix :: jstr where
  "file_draft_prefix = js ''ichat.file-draft.v1''"

definition file_draft_key :: "jstr \<Rightarrow> jstr option \<Rightarrow> jstr" where
  "file_draft_key userId conversationId =
     file_draft_prefix @ js '':'' @ userId @ js '':'' @ nullish conversationId (js ''new'')"

text \<open>
  \<open>parse\<close> gives the two properties of the parsed value, each \<open>None\<close> when it is not a string or
  not an array; \<open>None\<close> as a whole when parsing or taking the value apart throws.
\<close>

type_synonym draft_parser = "jstr \<Rightarrow> (jstr option \<times> draft_attachment list option) option"

definition read_file_draft ::
  "draft_parser \<Rightarrow> jstr \<Rightarrow> jstr option \<Rightarrow> storage \<Rightarrow> attachment_draft \<times> storage"
where
  "read_file_draft parse userId conversationId st =
     (let k = file_draft_key userId conversationId; raw = get_item k st
      in if \<not> truthy raw then (emptyDraft, st)
         else (case parse (the raw) of
                 Some (Some content, Some attachments) \<Rightarrow>
                   (\<lparr>ad_content = content, ad_attachments = attachments\<rparr>, st)
               | _ \<Rightarrow> (emptyDraft, remove_item k st)))"

definition serializable_draft :: "attachment_draft \<Rightarrow> attachment_draft" where
  "serializable_draft draft =
     draft\<lparr>ad_attachments := map (\<lambda>a. a\<lparr>da_local_preview_url := None\<rparr>) (ad_attachments draft)\<rparr>"

definition write_file_draft ::
  "(attachment_draft \<Rightarrow> jstr) \<Rightarrow> jstr \<Rightarrow> jstr option \<Rightarrow> attachment_draft \<Rightarrow> storage \<Rightarrow> storage"
where
  "write_file_draft stringify userId conversationId draft st =
     (let k = file_draft_key userId conversationId
      in if ad_content draft = [] \<and> length (ad_attachments draft) = 0 then remove_item k st
         else set_item k (stringify (serializable_draft draft)) st)"

definition clear_file_draft :: "jstr \<Rightarrow> jstr option \<Rightarrow> storage \<Rightarrow> storage" where
  "clear_file_draft userId conversationId = remove_item (file_draft_key userId conversationId)"

definition clear_all_file_drafts :: "storage \<Rightarrow> storage" where
  "clear_all_file_drafts = clear_prefix file_draft_prefix"

definition clear_other_file_drafts :: "jstr \<Rightarrow> storage \<Rightarrow> storage" where
  "clear_other_file_drafts = clear_other_users file_draft_prefix"

subsection \<open>Reply quote drafts\<close>

definition reply_quote_prefix :: jstr where
  "reply_quote_prefix = js ''ichat.reply-quote-draft.v1''"

definition reply_quote_key :: "jstr \<Rightarrow> jstr \<Rightarrow> jstr" where
  "reply_quote_key userId conversationId =
     reply_quote_prefix @ js '':'' @ userId @ js '':'' @ conversationId"

definition is_hex :: "code_unit \<Rightarrow> bool" where
  "is_hex c \<longleftrightarrow> (48 \<le> c \<and> c \<le> 57) \<or> (97 \<le> c \<and> c \<le> 102) \<or> (65 \<le> c \<and> c \<le> 70)"

text \<open>The class of \<open>UUID_PATTERN\<close> at each position.\<close>

definition uuid_class :: "nat \<Rightarrow> code_unit \<Rightarrow> bool" where
  "uuid_class i c =
     (if i = 8 \<or> i = 13 \<or> i = 18 \<or> i = 23 then c = 45
      else if i = 14 then 49 \<le> c \<and> c \<le> 56
      else if i = 19 then c \<in> set [56, 57, 97, 98, 65, 66]
      else is_hex c)"

definition uuid_pattern :: "jstr \<Rightarrow> bool" where
  "uuid_pattern s \<longleftrightarrow> length s = 36 \<and> list_all (\<lambda>(i, c). uuid_class i c) (enumerate 0 s)"

text \<open>\<open>Array.from(s).length\<close>: a surrogate pair counts once.\<close>

fun code_points :: "jstr \<Rightarrow> nat" where
  "code_points [] = 0"
| "code_points [c] = 1"
| "code_points (c # d # s) =
     (if 0xD800 \<le> c \<and> c \<le> 0xDBFF \<and> 0xDC00 \<le> d \<and> d \<le> 0xDFFF then Suc (code_points s)
      else Suc (code_points (d # s)))"

definition safe_integer :: "json option \<Rightarrow> bool" where
  "safe_integer x =
     (case json_number x of None \<Rightarrow> False | Some n \<Rightarrow> \<bar>n\<bar> \<le> 9007199254740991)"

definition validAnchor :: "json option \<Rightarrow> bool" where
  "validAnchor value =
     (case value of
        None \<Rightarrow> True
      | Some v \<Rightarrow>
          if v = JNull then True
          else if \<not> json_is_object v then False
          else json_get (js ''version'') v = Some (JNum 1) \<and>
            safe_integer (json_get (js ''start'') v) \<and> safe_integer (json_get (js ''end'') v) \<and>
            the (json_number (json_get (js ''start'') v)) \<ge> 0 \<and>
            the (json_number (json_get (js ''end'') v)) >
              the (json_number (json_get (js ''start'') v)))"

text \<open>The conditions of \<open>valid\<close> apart from the anchor's, and \<open>valid\<close> itself.\<close>

definition valid_text :: "json \<Rightarrow> bool" where
  "valid_text value =
     (json_is_object value \<and>
      (case (json_string (json_get (js ''source_message_id'') value),
             json_string (json_get (js ''excerpt'') value)) of
         (Some i, Some excerpt) \<Rightarrow>
           uuid_pattern i \<and> length (js_trim excerpt) > 0 \<and> code_points excerpt \<le> 4000
       | _ \<Rightarrow> False))"

definition valid_quote :: "json \<Rightarrow> bool" where
  "valid_quote value \<longleftrightarrow> valid_text value \<and> validAnchor (json_get (js ''source_anchor'') value)"

definition anchor_of_json :: "json option \<Rightarrow> source_anchor option" where
  "anchor_of_json value =
     (case value of
        None \<Rightarrow> None
      | Some v \<Rightarrow>
          if v = JNull then None
          else Some \<lparr>anchor_version = the (json_number (json_get (js ''version'') v)),
                 anchor_start = the (json_number (json_get (js ''start'') v)),
                 anchor_end = the (json_number (json_get (js ''end'') v))\<rparr>)"

definition readableQuote :: "json \<Rightarrow> reply_quote_draft option" where
  "readableQuote value =
     (if \<not> valid_text value then None
      else
        let anchor = json_get (js ''source_anchor'') value
        in Some \<lparr>rqd_source_message_id =
                   the (json_string (json_get (js ''source_message_id'') value)),
                 rqd_excerpt = the (json_string (json_get (js ''excerpt'') value)),
                 rqd_source_anchor = (if validAnchor anchor then anchor_of_json anchor else None)\<rparr>)"

text \<open>A quote as the object that \<open>JSON.stringify\<close> is given.\<close>

definition anchor_json :: "source_anchor option \<Rightarrow> json" where
  "anchor_json a =
     (case a of
        None \<Rightarrow> JNull
      | Some x \<Rightarrow> JObj [(js ''version'', JNum (anchor_version x)), (js ''start'', JNum (anchor_start x)),
          (js ''end'', JNum (anchor_end x))])"

definition quote_json :: "reply_quote_draft \<Rightarrow> json" where
  "quote_json q =
     JObj [(js ''source_message_id'', JStr (rqd_source_message_id q)),
       (js ''excerpt'', JStr (rqd_excerpt q)), (js ''source_anchor'', anchor_json (rqd_source_anchor q))]"

definition read_reply_quote ::
  "(jstr \<Rightarrow> json option) \<Rightarrow> (json \<Rightarrow> jstr) \<Rightarrow> jstr \<Rightarrow> jstr option \<Rightarrow> storage \<Rightarrow>
   reply_quote_draft option \<times> storage"
where
  "read_reply_quote parse stringify userId conversationId st =
     (case conversationId of
        None \<Rightarrow> (None, st)
      | Some c \<Rightarrow>
          let k = reply_quote_key userId c; raw = get_item k st
          in if \<not> truthy raw then (None, st)
             else (case parse (the raw) of
                     None \<Rightarrow> (None, remove_item k st)
                   | Some value \<Rightarrow>
                       (case readableQuote value of
                          None \<Rightarrow> (None, remove_item k st)
                        | Some quote \<Rightarrow>
                            (Some quote,
                             if valid_quote value then st
                             else set_item k (stringify (quote_json quote)) st))))"

definition write_reply_quote ::
  "(json \<Rightarrow> jstr) \<Rightarrow> jstr \<Rightarrow> jstr option \<Rightarrow> reply_quote_draft option \<Rightarrow> storage \<Rightarrow> storage"
where
  "write_reply_quote stringify userId conversationId quote st =
     (case conversationId of
        None \<Rightarrow> st
      | Some c \<Rightarrow>
          let k = reply_quote_key userId c
          in (case quote of
                None \<Rightarrow> remove_item k st
              | Some q \<Rightarrow>
                  if \<not> valid_quote (quote_json q) then remove_item k st
                  else set_item k (stringify (quote_json q)) st))"

definition clear_reply_quote :: "jstr \<Rightarrow> jstr option \<Rightarrow> storage \<Rightarrow> storage" where
  "clear_reply_quote userId conversationId st =
     (case conversationId of None \<Rightarrow> st | Some c \<Rightarrow> remove_item (reply_quote_key userId c) st)"

definition clear_all_reply_quotes :: "storage \<Rightarrow> storage" where
  "clear_all_reply_quotes = clear_prefix reply_quote_prefix"

definition clear_other_reply_quotes :: "jstr \<Rightarrow> storage \<Rightarrow> storage" where
  "clear_other_reply_quotes = clear_other_users reply_quote_prefix"

section \<open>Lemmas on storage\<close>

lemma get_set_item: "get_item k (set_item k' v st) = (if k = k' then Some v else get_item k st)"
  by (simp add: get_item_def set_item_def update_conv')

lemma get_remove_item: "get_item k (remove_item k' st) = (if k = k' then None else get_item k st)"
  by (induction st) (auto simp: get_item_def remove_item_def)

lemma wf_set_item [simp]: "wf_storage st \<Longrightarrow> wf_storage (set_item k v st)"
  by (simp add: wf_storage_def set_item_def distinct_update)

lemma wf_remove_item [simp]: "wf_storage st \<Longrightarrow> wf_storage (remove_item k st)"
  by (simp add: wf_storage_def remove_item_def distinct_map_filterI)

lemma remove_item_mid:
  assumes "distinct (map fst (xs @ e # ys))"
  shows "remove_item (fst e) (xs @ e # ys) = xs @ ys"
proof -
  have "filter (\<lambda>x. fst x \<noteq> fst e) xs = xs" "filter (\<lambda>x. fst x \<noteq> fst e) ys = ys"
    using assms by (auto simp: filter_id_conv rev_image_eqI)
  then show ?thesis by (simp add: remove_item_def)
qed

lemma remove_item_nth:
  assumes "wf_storage st" and "i < length st"
  shows "remove_item (fst (st ! i)) st = take i st @ drop (Suc i) st"
  using remove_item_mid [of "take i st" "st ! i" "drop (Suc i) st"] assms
  by (simp add: wf_storage_def id_take_nth_drop [symmetric])

text \<open>The downward loop visits every entry once: it is a filter.\<close>

lemma remove_loop_filter:
  "wf_storage st \<Longrightarrow> i \<le> length st \<Longrightarrow>
     remove_loop p i st = filter (\<lambda>e. \<not> p (fst e)) (take i st) @ drop i st"
proof (induction i arbitrary: st)
  case 0
  then show ?case by simp
next
  case (Suc i)
  then have i: "i < length st" by simp
  have take: "take (Suc i) st = take i st @ [st ! i]" using i by (rule take_Suc_conv_app_nth)
  show ?case
  proof (cases "p (fst (st ! i))")
    case True
    let ?st = "remove_item (fst (st ! i)) st"
    have st: "?st = take i st @ drop (Suc i) st" using Suc.prems(1) i by (rule remove_item_nth)
    have "remove_loop p i ?st = filter (\<lambda>e. \<not> p (fst e)) (take i ?st) @ drop i ?st"
      using Suc.prems i by (intro Suc.IH) (simp_all add: st [symmetric], simp add: st)
    with True i take show ?thesis by (simp add: storage_key_def st)
  next
    case False
    with Suc.IH [OF Suc.prems(1)] i take show ?thesis
      by (simp add: storage_key_def Cons_nth_drop_Suc)
  qed
qed

lemma remove_matching_filter:
  "wf_storage st \<Longrightarrow> remove_matching p st = filter (\<lambda>e. \<not> p (fst e)) st"
  by (simp add: remove_matching_def remove_loop_filter)

lemma get_filter_keys:
  "get_item k (filter (\<lambda>e. p (fst e)) st) = (if p k then get_item k st else None)"
  by (induction st) (auto simp: get_item_def)

lemma get_remove_matching:
  "wf_storage st \<Longrightarrow> get_item k (remove_matching p st) = (if p k then None else get_item k st)"
  using get_filter_keys [of k "\<lambda>x. \<not> p x" st] by (simp add: remove_matching_filter)

lemma wf_remove_matching [simp]: "wf_storage st \<Longrightarrow> wf_storage (remove_matching p st)"
  by (simp add: remove_matching_filter) (simp add: wf_storage_def distinct_map_filterI)

section \<open>Keys scoped by user and conversation\<close>

definition colon_free :: "jstr \<Rightarrow> bool" where
  "colon_free s \<longleftrightarrow> 58 \<notin> set s"

lemma colon: "js '':'' = [58]"
  by (simp add: js_def)

lemma starts_with_same [simp]: "starts_with (p @ a) (p @ b) \<longleftrightarrow> starts_with a b"
  by (simp add: starts_with_def)

lemma starts_with_until:
  "c \<notin> set a \<Longrightarrow> c \<notin> set b \<Longrightarrow> starts_with (a @ [c]) (b @ c # s) \<longleftrightarrow> a = b"
proof (induction a arbitrary: b)
  case Nil
  then show ?case by (cases b) (auto simp: starts_with_def)
next
  case (Cons x a)
  then show ?case by (cases b) (auto simp: starts_with_def)
qed

lemma starts_with_Cons [simp]: "starts_with (x # a) (x # b) \<longleftrightarrow> starts_with a b"
  by (simp add: starts_with_def)

text \<open>
  What a draft store relies on: every key starts with the store's prefix, a user's prefix matches
  exactly the keys of that user, and two keys agree only for the same user and scope.
\<close>

locale draft_keys =
  fixes prefix :: jstr
    and key :: "jstr \<Rightarrow> 'c \<Rightarrow> jstr"
    and scope_ok :: "'c \<Rightarrow> bool"
  assumes key_in_prefix: "starts_with (prefix @ js '':'') (key u c)"
    and key_of_user: "colon_free u \<Longrightarrow> colon_free v \<Longrightarrow>
      starts_with (prefix @ js '':'' @ u @ js '':'') (key v c) \<longleftrightarrow> u = v"
    and key_inj: "colon_free u \<Longrightarrow> colon_free v \<Longrightarrow> scope_ok c \<Longrightarrow> scope_ok d \<Longrightarrow>
      key u c = key v d \<longleftrightarrow> u = v \<and> c = d"
begin

lemma clear_all_gone: "wf_storage st \<Longrightarrow> get_item (key u c) (clear_prefix prefix st) = None"
  by (simp add: clear_prefix_def get_remove_matching key_in_prefix)

lemma clear_all_frame:
  "wf_storage st \<Longrightarrow> \<not> starts_with (prefix @ js '':'') k \<Longrightarrow>
     get_item k (clear_prefix prefix st) = get_item k st"
  by (simp add: clear_prefix_def get_remove_matching)

lemma clear_others:
  "wf_storage st \<Longrightarrow> colon_free u \<Longrightarrow> colon_free v \<Longrightarrow>
     get_item (key v c) (clear_other_users prefix u st) =
       (if u = v then get_item (key v c) st else None)"
  by (simp add: clear_other_users_def get_remove_matching key_in_prefix key_of_user)

lemma clear_others_frame:
  "wf_storage st \<Longrightarrow> \<not> starts_with (prefix @ js '':'') k \<Longrightarrow>
     get_item k (clear_other_users prefix u st) = get_item k st"
  by (simp add: clear_other_users_def get_remove_matching)

lemma write_frame:
  "colon_free u \<Longrightarrow> colon_free v \<Longrightarrow> scope_ok c \<Longrightarrow> scope_ok d \<Longrightarrow> (u, c) \<noteq> (v, d) \<Longrightarrow>
     get_item (key v d) (set_item (key u c) x st) = get_item (key v d) st \<and>
     get_item (key v d) (remove_item (key u c) st) = get_item (key v d) st"
  using key_inj [of v u d c] by (auto simp: get_set_item get_remove_item)

end

text \<open>A conversation id is never the scope name \<open>new\<close> of the blank conversation.\<close>

definition conversation_scope :: "jstr option \<Rightarrow> bool" where
  "conversation_scope c \<longleftrightarrow> c \<noteq> Some (js ''new'')"

lemma nullish_scope_inj:
  "conversation_scope c \<Longrightarrow> conversation_scope d \<Longrightarrow>
     nullish c (js ''new'') = nullish d (js ''new'') \<longleftrightarrow> c = d"
  by (cases c; cases d) (auto simp: conversation_scope_def)

lemma scoped_key_eq:
  assumes "colon_free u" and "colon_free v"
  shows "p @ js '':'' @ u @ js '':'' @ x = p @ js '':'' @ v @ js '':'' @ y \<longleftrightarrow> u = v \<and> x = y"
proof
  assume eq: "p @ js '':'' @ u @ js '':'' @ x = p @ js '':'' @ v @ js '':'' @ y"
  then have "starts_with (u @ [58]) (v @ 58 # y)"
    by (simp add: colon) (metis append.assoc append_Cons append_Nil starts_with_append)
  then have "u = v" using assms by (simp add: starts_with_until colon_free_def)
  with eq show "u = v \<and> x = y" by simp
qed simp

interpretation file_drafts: draft_keys file_draft_prefix file_draft_key conversation_scope
proof unfold_locales
  fix u v :: jstr and c d :: "jstr option"
  show "starts_with (file_draft_prefix @ js '':'') (file_draft_key u c)"
    by (simp add: file_draft_key_def)
  show "starts_with (file_draft_prefix @ js '':'' @ u @ js '':'') (file_draft_key v c) \<longleftrightarrow> u = v"
    if "colon_free u" "colon_free v"
    using that starts_with_until [of 58 u v] by (simp add: file_draft_key_def colon_free_def colon)
  show "file_draft_key u c = file_draft_key v d \<longleftrightarrow> u = v \<and> c = d"
    if "colon_free u" "colon_free v" "conversation_scope c" "conversation_scope d"
    using that scoped_key_eq [OF that(1,2), of file_draft_prefix] nullish_scope_inj [OF that(3,4)]
    by (simp add: file_draft_key_def)
qed

interpretation reply_quotes: draft_keys reply_quote_prefix reply_quote_key "\<lambda>_. True"
proof unfold_locales
  fix u v c d :: jstr
  show "starts_with (reply_quote_prefix @ js '':'') (reply_quote_key u c)"
    by (simp add: reply_quote_key_def)
  show "starts_with (reply_quote_prefix @ js '':'' @ u @ js '':'') (reply_quote_key v c) \<longleftrightarrow> u = v"
    if "colon_free u" "colon_free v"
    using that starts_with_until [of 58 u v] by (simp add: reply_quote_key_def colon_free_def colon)
  show "reply_quote_key u c = reply_quote_key v d \<longleftrightarrow> u = v \<and> c = d"
    if "colon_free u" "colon_free v"
    using scoped_key_eq [OF that, of reply_quote_prefix] by (simp add: reply_quote_key_def)
qed

text \<open>The two stores do not reach into each other.\<close>

lemma prefixes_apart:
  "\<not> starts_with (reply_quote_prefix @ js '':'') (file_draft_key u c)"
  "\<not> starts_with (file_draft_prefix @ js '':'') (reply_quote_key u d)"
  by (simp_all add: file_draft_key_def reply_quote_key_def file_draft_prefix_def
      reply_quote_prefix_def starts_with_def js_def)

section \<open>Reply quotes\<close>

lemma json_get_Cons:
  "json_get k (JObj ((k', v) # es)) =
     (case json_get k (JObj es) of Some w \<Rightarrow> Some w | None \<Rightarrow> if k = k' then Some v else None)"
  by (simp add: js_map_of_def map_add_def split: option.splits)

lemma json_get_Nil [simp]: "json_get k (JObj []) = None"
  by (simp add: js_map_of_def)

lemma quote_json_get:
  "json_get (js ''source_message_id'') (quote_json q) = Some (JStr (rqd_source_message_id q))"
  "json_get (js ''excerpt'') (quote_json q) = Some (JStr (rqd_excerpt q))"
  "json_get (js ''source_anchor'') (quote_json q) = Some (anchor_json (rqd_source_anchor q))"
  by (simp_all only: quote_json_def json_get_Cons json_get_Nil) simp_all

lemma anchor_of_anchor_json: "anchor_of_json (Some (anchor_json a)) = a"
proof (cases a)
  case (Some x)
  let ?v = "JObj [(js ''version'', JNum (anchor_version x)), (js ''start'', JNum (anchor_start x)),
      (js ''end'', JNum (anchor_end x))]"
  have "json_get (js ''version'') ?v = Some (JNum (anchor_version x))"
    "json_get (js ''start'') ?v = Some (JNum (anchor_start x))"
    "json_get (js ''end'') ?v = Some (JNum (anchor_end x))"
    by (simp_all only: json_get_Cons json_get_Nil) simp_all
  with Some show ?thesis by (simp add: anchor_of_json_def anchor_json_def del: json_get.simps)
qed (simp add: anchor_of_json_def anchor_json_def)

lemma readableQuote_quote_json: "valid_quote (quote_json q) \<Longrightarrow> readableQuote (quote_json q) = Some q"
  by (simp add: readableQuote_def valid_quote_def quote_json_get anchor_of_anchor_json
      del: json_get.simps)

lemma readable_is_valid: "readableQuote v = Some q \<Longrightarrow> valid_quote (quote_json q)"
proof -
  assume r: "readableQuote v = Some q"
  then have vt: "valid_text v" by (auto simp: readableQuote_def split: if_splits)
  then obtain i e where "json_string (json_get (js ''source_message_id'') v) = Some i"
    "json_string (json_get (js ''excerpt'') v) = Some e"
    "uuid_pattern i" "length (js_trim e) > 0" "code_points e \<le> 4000"
    by (auto simp: valid_text_def split: option.splits)
  note text_parts = this
  with r have q: "rqd_source_message_id q = i" "rqd_excerpt q = e"
    "rqd_source_anchor q = (if validAnchor (json_get (js ''source_anchor'') v)
       then anchor_of_json (json_get (js ''source_anchor'') v) else None)"
    using vt by (auto simp: readableQuote_def Let_def)
  with text_parts have "valid_text (quote_json q)"
    by (simp add: valid_text_def quote_json_get del: json_get.simps) (simp add: quote_json_def)
  moreover have "validAnchor (Some (anchor_json (rqd_source_anchor q)))"
    unfolding q(3)
    by (auto simp: validAnchor_def anchor_json_def anchor_of_json_def json_get_Cons safe_integer_def
        simp del: json_get.simps split: option.splits if_splits)
  ultimately show ?thesis by (simp add: valid_quote_def quote_json_get del: json_get.simps)
qed

section \<open>Properties\<close>

text \<open>
  Drafts are private to their user: when a user's session starts, clearing the other users'
  drafts removes every attachment draft and reply quote of every other user, keeps every one of the
  user's own, and touches no other key of the storage; a user id that is a prefix of another does
  not confuse it.
\<close>

theorem other_users_drafts_cleared:
  assumes "wf_storage st" and "colon_free u" and "colon_free v" and "u \<noteq> v"
    and "st' = clear_other_reply_quotes u (clear_other_file_drafts u st)"
  shows "get_item (file_draft_key v c) st' = None \<and> get_item (reply_quote_key v d) st' = None \<and>
    get_item (file_draft_key u c) st' = get_item (file_draft_key u c) st \<and>
    get_item (reply_quote_key u d) st' = get_item (reply_quote_key u d) st \<and>
    (\<not> starts_with (file_draft_prefix @ js '':'') k \<and> \<not> starts_with (reply_quote_prefix @ js '':'') k \<longrightarrow>
       get_item k st' = get_item k st)"
proof -
  have "wf_storage (clear_other_file_drafts u st)"
    using assms(1) by (simp add: clear_other_file_drafts_def clear_other_users_def)
  then show ?thesis
    using assms
    by (simp add: clear_other_file_drafts_def clear_other_reply_quotes_def file_drafts.clear_others
        reply_quotes.clear_others file_drafts.clear_others_frame reply_quotes.clear_others_frame
        prefixes_apart)
qed

theorem other_users_drafts_cleared_witness:
  "get_item (file_draft_key (js ''12'') None)
     (clear_other_reply_quotes (js ''1'') (clear_other_file_drafts (js ''1'')
        [(file_draft_key (js ''1'') None, js ''x''), (file_draft_key (js ''12'') None, js ''y'')])) = None"
  using other_users_drafts_cleared [OF _ _ _ _ refl, of
      "[(file_draft_key (js ''1'') None, js ''x''), (file_draft_key (js ''12'') None, js ''y'')]"
      "js ''1''" "js ''12''" None]
  by (simp add: wf_storage_def file_draft_key_def colon_free_def js_def)

text \<open>
  An attachment draft survives a reload: what \<open>write\<close> stores, \<open>read\<close> returns, without the
  object URLs of local previews, which do not outlive the document; an empty draft leaves no entry;
  the drafts of other users and conversations are not touched. (\<open>JSON.parse\<close> inverts
  \<open>JSON.stringify\<close> on the stored draft, whose text is not empty.)
\<close>

theorem file_draft_roundtrip:
  assumes "parse (stringify (serializable_draft draft)) =
      Some (Some (ad_content draft), Some (ad_attachments (serializable_draft draft)))"
    and "stringify (serializable_draft draft) \<noteq> []"
    and "colon_free u" and "colon_free v" and "conversation_scope c" and "conversation_scope d"
    and "(u, c) \<noteq> (v, d)"
    and "st' = write_file_draft stringify u c draft st"
  shows "read_file_draft parse u c st' = (serializable_draft draft, st') \<and>
    get_item (file_draft_key v d) st' = get_item (file_draft_key v d) st"
proof (cases "ad_content draft = [] \<and> ad_attachments draft = []")
  case True
  then have "st' = remove_item (file_draft_key u c) st" "serializable_draft draft = emptyDraft"
    using assms(8) by (simp_all add: write_file_draft_def serializable_draft_def emptyDraft_def)
  then show ?thesis
    using file_drafts.write_frame [OF assms(3-7)]
    by (simp add: read_file_draft_def get_remove_item truthy_def)
next
  case False
  then have "st' = set_item (file_draft_key u c) (stringify (serializable_draft draft)) st"
    using assms(8) by (auto simp: write_file_draft_def)
  then show ?thesis
    using file_drafts.write_frame [OF assms(3-7)] assms(1,2)
    by (simp add: read_file_draft_def get_set_item truthy_def serializable_draft_def)
qed

theorem file_draft_roundtrip_witness:
  "read_file_draft (\<lambda>_. Some (Some (js ''hi''), Some [])) (js ''1'') None
     (write_file_draft (\<lambda>_. js ''{}'') (js ''1'') None \<lparr>ad_content = js ''hi'', ad_attachments = []\<rparr> []) =
   (\<lparr>ad_content = js ''hi'', ad_attachments = []\<rparr>,
    write_file_draft (\<lambda>_. js ''{}'') (js ''1'') None \<lparr>ad_content = js ''hi'', ad_attachments = []\<rparr> [])"
  using file_draft_roundtrip [OF _ _ _ _ _ _ _ refl, of "\<lambda>_. Some (Some (js ''hi''), Some [])"
      "\<lambda>_. js ''{}''" "\<lparr>ad_content = js ''hi'', ad_attachments = []\<rparr>" "js ''1''" "js ''2''" None None "[]"]
  by (simp add: serializable_draft_def colon_free_def js_def conversation_scope_def)

text \<open>
  A reply quote draft survives a reload exactly when it is valid: after writing it, reading
  returns the quote, anchor included, and leaves the storage alone; an invalid one leaves no entry.
\<close>

theorem reply_quote_roundtrip:
  assumes "parse (stringify (quote_json q)) = Some (quote_json q)" and "stringify (quote_json q) \<noteq> []"
    and "st' = write_reply_quote stringify u (Some c) (Some q) st"
  shows "read_reply_quote parse stringify u (Some c) st' =
    (if valid_quote (quote_json q) then Some q else None, st')"
  using assms
  by (simp add: read_reply_quote_def write_reply_quote_def get_set_item get_remove_item truthy_def
      readableQuote_quote_json Let_def)

definition demo_quote :: reply_quote_draft where
  "demo_quote = \<lparr>rqd_source_message_id = js ''01234567-89ab-4cde-8f01-23456789abcd'',
     rqd_excerpt = js ''hi'', rqd_source_anchor =
       Some \<lparr>anchor_version = 1, anchor_start = 0, anchor_end = 2\<rparr>\<rparr>"

theorem reply_quote_roundtrip_witness:
  "fst (read_reply_quote (\<lambda>_. Some (quote_json demo_quote)) (\<lambda>_. js ''{}'') (js ''1'') (Some (js ''c''))
     (write_reply_quote (\<lambda>_. js ''{}'') (js ''1'') (Some (js ''c'')) (Some demo_quote) [])) = Some demo_quote"
proof -
  have "valid_quote (quote_json demo_quote)" by code_simp
  then show ?thesis
    using reply_quote_roundtrip [OF _ _ refl, of "\<lambda>_. Some (quote_json demo_quote)" "\<lambda>_. js ''{}''"
        demo_quote "js ''1''" "js ''c''" "[]"] by simp
qed


text \<open>A stored quote whose anchor is not an object.\<close>

definition demo_broken_quote :: json where
  "demo_broken_quote = JObj [(js ''source_message_id'', JStr (rqd_source_message_id demo_quote)),
     (js ''excerpt'', JStr (js ''hi'')), (js ''source_anchor'', JNum 7)]"

definition demo_parse :: "jstr \<Rightarrow> json option" where
  "demo_parse raw = (if raw = js ''broken'' then Some demo_broken_quote
     else Some (quote_json (demo_quote\<lparr>rqd_source_anchor := None\<rparr>)))"


end
