(* ===== verification/Messages.thy ===== *)
theory Messages
  imports Prelude
begin

text \<open>
  The user-visible texts outside ASCII that the modelled code shows, each as its UTF-16 code units
  with its meaning in English. They are compared with each other nowhere; what matters below is
  which text is shown when.
\<close>

text \<open>Session expired, log in again.\<close>

definition session_expired_text :: jstr where
  "session_expired_text =
     [0x767B, 0x5F55, 0x72B6, 0x6001, 0x5DF2, 0x5931, 0x6548, 0xFF0C, 0x8BF7, 0x91CD, 0x65B0,
     0x767B, 0x5F55]"

text \<open>No permission.\<close>

definition forbidden_text :: jstr where
  "forbidden_text =
     [0x6CA1, 0x6709, 0x6743, 0x9650, 0x8BBF, 0x95EE, 0x8BE5, 0x8D44, 0x6E90]"

text \<open>Does not exist or was deleted.\<close>

definition not_found_text :: jstr where
  "not_found_text =
     [0x8D44, 0x6E90, 0x4E0D, 0x5B58, 0x5728, 0x6216, 0x5DF2, 0x88AB, 0x5220, 0x9664]"

text \<open>Conflicts with the current state.\<close>

definition conflict_text :: jstr where
  "conflict_text =
     [0x5F53, 0x524D, 0x64CD, 0x4F5C, 0x4E0E, 0x73B0, 0x6709, 0x72B6, 0x6001, 0x51B2, 0x7A81,
     0xFF0C, 0x8BF7, 0x7A0D, 0x540E, 0x91CD, 0x8BD5]"

text \<open>The content does not meet the requirements.\<close>

definition unprocessable_text :: jstr where
  "unprocessable_text =
     [0x63D0, 0x4EA4, 0x5185, 0x5BB9, 0x4E0D, 0x7B26, 0x5408, 0x8981, 0x6C42, 0xFF0C, 0x8BF7,
     0x68C0, 0x67E5, 0x540E, 0x91CD, 0x8BD5]"

text \<open>Too many requests.\<close>

definition too_many_text :: jstr where
  "too_many_text =
     [0x64CD, 0x4F5C, 0x8FC7, 0x4E8E, 0x9891, 0x7E41, 0xFF0C, 0x8BF7, 0x7A0D, 0x540E, 0x518D,
     0x8BD5]"

text \<open>Service unavailable.\<close>

definition unavailable_text :: jstr where
  "unavailable_text =
     [0x670D, 0x52A1, 0x6682, 0x65F6, 0x4E0D, 0x53EF, 0x7528, 0xFF0C, 0x8BF7, 0x7A0D, 0x540E,
     0x91CD, 0x8BD5]"

text \<open>Request failed.\<close>

definition request_failed_text :: jstr where
  "request_failed_text =
     [0x8BF7, 0x6C42, 0x5931, 0x8D25, 0xFF0C, 0x8BF7, 0x7A0D, 0x540E, 0x91CD, 0x8BD5]"

text \<open>Request cancelled.\<close>

definition aborted_text :: jstr where
  "aborted_text =
     [0x8BF7, 0x6C42, 0x5DF2, 0x53D6, 0x6D88]"

text \<open>Network failure.\<close>

definition network_failed_text :: jstr where
  "network_failed_text =
     [0x7F51, 0x7EDC, 0x8FDE, 0x63A5, 0x5931, 0x8D25, 0xFF0C, 0x8BF7, 0x68C0, 0x67E5, 0x540E,
     0x91CD, 0x8BD5]"

text \<open>Malformed response.\<close>

definition malformed_text :: jstr where
  "malformed_text =
     [0x670D, 0x52A1, 0x54CD, 0x5E94, 0x683C, 0x5F0F, 0x5F02, 0x5E38]"

text \<open>Stopping failed, try again.\<close>

definition stop_failed_text :: jstr where
  "stop_failed_text =
     [0x505C, 0x6B62, 0x5931, 0x8D25, 0xFF0C, 0x8BF7, 0x91CD, 0x8BD5]"

text \<open>Sending failed, try again.\<close>

definition send_failed_text :: jstr where
  "send_failed_text =
     [0x53D1, 0x9001, 0x5931, 0x8D25, 0xFF0C, 0x8BF7, 0x91CD, 0x8BD5]"

text \<open>Operation failed, try again.\<close>

definition operation_failed_text :: jstr where
  "operation_failed_text =
     [0x64CD, 0x4F5C, 0x5931, 0x8D25, 0xFF0C, 0x8BF7, 0x91CD, 0x8BD5]"

text \<open>Invalid conversation id, back to a new one.\<close>

definition invalid_conversation_text :: jstr where
  "invalid_conversation_text =
     [0x4F1A, 0x8BDD, 32, 73, 68, 32, 0x65E0, 0x6548, 0x6216, 0x5DF2, 0x5931, 0x6548, 0xFF0C,
     0x5DF2, 0x56DE, 0x5230, 0x65B0, 0x5BF9, 0x8BDD]"

text \<open>At most 10 pinned conversations.\<close>

definition pin_limit_text :: jstr where
  "pin_limit_text =
     [0x6700, 0x591A, 0x7F6E, 0x9876, 32, 49, 48, 32, 0x4E2A, 0x5BF9, 0x8BDD]"

text \<open>Pinned.\<close>

definition pinned_text :: jstr where
  "pinned_text =
     [0x5DF2, 0x7F6E, 0x9876]"

text \<open>Unpinned.\<close>

definition unpinned_text :: jstr where
  "unpinned_text =
     [0x5DF2, 0x53D6, 0x6D88, 0x7F6E, 0x9876]"

text \<open>Added to favorites.\<close>

definition favorited_text :: jstr where
  "favorited_text =
     [0x5DF2, 0x52A0, 0x5165, 0x6536, 0x85CF]"

text \<open>Removed from favorites.\<close>

definition unfavorited_text :: jstr where
  "unfavorited_text =
     [0x5DF2, 0x53D6, 0x6D88, 0x6536, 0x85CF]"

text \<open>Wrong user name or password.\<close>

definition wrong_credentials_text :: jstr where
  "wrong_credentials_text =
     [0x7528, 0x6237, 0x540D, 0x6216, 0x5BC6, 0x7801, 0x9519, 0x8BEF]"

text \<open>User name taken.\<close>

definition username_taken_text :: jstr where
  "username_taken_text =
     [0x8BE5, 0x7528, 0x6237, 0x540D, 0x5DF2, 0x88AB, 0x6CE8, 0x518C]"

text \<open>Email taken.\<close>

definition email_taken_text :: jstr where
  "email_taken_text =
     [0x8BE5, 0x90AE, 0x7BB1, 0x5DF2, 0x88AB, 0x6CE8, 0x518C]"

text \<open>The upload failed, try again later.\<close>

definition file_upload_failure_text :: jstr where
  "file_upload_failure_text =
     [0x6587, 0x4EF6, 0x4E0A, 0x4F20, 0x5931, 0x8D25, 0xFF0C, 0x8BF7, 0x7A0D, 0x540E, 0x518D,
     0x8BD5]"

text \<open>The file is too large.\<close>

definition file_too_large_text :: jstr where
  "file_too_large_text =
     [0x6587, 0x4EF6, 0x8FC7, 0x5927, 0xFF0C, 0x65E0, 0x6CD5, 0x4E0A, 0x4F20]"

text \<open>File type not supported.\<close>

definition file_type_unsupported_text :: jstr where
  "file_type_unsupported_text =
     [0x4E0D, 0x652F, 0x6301, 0x8BE5, 0x6587, 0x4EF6, 0x7C7B, 0x578B]"

text \<open>Too many attachments, or too large in total, for one message.\<close>

definition attachment_limit_text :: jstr where
  "attachment_limit_text =
     [0x8D85, 0x51FA, 0x5355, 0x6761, 0x6D88, 0x606F, 0x7684, 0x9644, 0x4EF6, 0x6570, 0x91CF,
     0x6216, 0x603B, 0x5927, 0x5C0F, 0x9650, 0x5236]"

text \<open>A user name has 1 to 50 characters.\<close>

definition username_length_text :: jstr where
  "username_length_text =
     [0x8BF7, 0x8F93, 0x5165, 32, 49, 0x2013, 53, 48, 32, 0x4E2A, 0x5B57, 0x7B26, 0x7684,
     0x7528, 0x6237, 0x540D]"

text \<open>A nickname has at most 50 characters.\<close>

definition nickname_length_text :: jstr where
  "nickname_length_text =
     [0x6635, 0x79F0, 0x957F, 0x5EA6, 0x4E0D, 0x80FD, 0x8D85, 0x8FC7, 32, 53, 48, 32, 0x4E2A,
     0x5B57, 0x7B26]"

text \<open>Enter a valid email address.\<close>

definition email_invalid_text :: jstr where
  "email_invalid_text =
     [0x8BF7, 0x8F93, 0x5165, 0x6709, 0x6548, 0x7684, 0x90AE, 0x7BB1, 0x5730, 0x5740]"

text \<open>Enter a user name or an email address.\<close>

definition identifier_required_text :: jstr where
  "identifier_required_text =
     [0x8BF7, 0x8F93, 0x5165, 0x7528, 0x6237, 0x540D, 0x6216, 0x90AE, 0x7BB1]"

text \<open>A password has 8 to 128 characters.\<close>

definition password_length_text :: jstr where
  "password_length_text =
     [0x5BC6, 0x7801, 0x957F, 0x5EA6, 0x9700, 0x4E3A, 32, 56, 0x2013, 49, 50, 56, 32, 0x4F4D]"

text \<open>The two passwords differ.\<close>

definition passwords_differ_text :: jstr where
  "passwords_differ_text =
     [0x4E24, 0x6B21, 0x8F93, 0x5165, 0x7684, 0x5BC6, 0x7801, 0x4E0D, 0x4E00, 0x81F4]"

text \<open>The reset link is invalid or expired.\<close>

definition reset_link_invalid_text :: jstr where
  "reset_link_invalid_text =
     [0x91CD, 0x7F6E, 0x94FE, 0x63A5, 0x65E0, 0x6548, 0x6216, 0x5DF2, 0x8FC7, 0x671F, 0xFF0C,
     0x8BF7, 0x91CD, 0x65B0, 0x7533, 0x8BF7, 0x3002]"

text \<open>Wait until the message is sent.\<close>

definition wait_for_sending_text :: jstr where
  "wait_for_sending_text =
     [0x8BF7, 0x7B49, 0x5F85, 0x6D88, 0x606F, 0x53D1, 0x9001, 0x5B8C, 0x6210]"

text \<open>Stop the current reply first.\<close>

definition stop_generating_first_text :: jstr where
  "stop_generating_first_text =
     [0x8BF7, 0x5148, 0x505C, 0x6B62, 0x5F53, 0x524D, 0x751F, 0x6210]"

text \<open>Sharing failed.\<close>

definition share_failed_text :: jstr where
  "share_failed_text =
     [0x521B, 0x5EFA, 0x5206, 0x4EAB, 0x5931, 0x8D25]"

text \<open>Copying failed.\<close>

definition copy_failed_text :: jstr where
  "copy_failed_text =
     [0x590D, 0x5236, 0x5931, 0x8D25]"

text \<open>The public link is on the clipboard.\<close>

definition link_copied_text :: jstr where
  "link_copied_text =
     [0x516C, 0x5F00, 0x94FE, 0x63A5, 0x5DF2, 0x590D, 0x5236, 0x5230, 0x526A, 0x8D34, 0x677F]"

text \<open>The found text has changed, the conversation is open.\<close>

definition search_changed_text :: jstr where
  "search_changed_text =
     [0x539F, 0x641C, 0x7D22, 0x5185, 0x5BB9, 0x5DF2, 0x53D8, 0x5316, 0xFF0C, 0x5DF2, 0x6253,
     0x5F00, 0x5BF9, 0x5E94, 0x5BF9, 0x8BDD, 0x3002]"

text \<open>Thinking.\<close>

definition thinking_text :: jstr where
  "thinking_text =
     [0x6B63, 0x5728, 0x601D, 0x8003]"

text \<open>Has thought.\<close>

definition thought_text :: jstr where
  "thought_text =
     [0x5DF2, 0x601D, 0x8003]"

text \<open>Searching.\<close>

definition searching_text :: jstr where
  "searching_text =
     [0x6B63, 0x5728, 0x641C, 0x7D22]"

text \<open>Items.\<close>

definition items_text :: jstr where
  "items_text =
     [0x9879]"

text \<open>Found.\<close>

definition found_text :: jstr where
  "found_text =
     [0x5DF2, 0x627E, 0x5230]"

text \<open>Sources.\<close>

definition sources_text :: jstr where
  "sources_text =
     [0x4E2A, 0x6765, 0x6E90]"

text \<open>The search failed, generation goes on.\<close>

definition search_failed_text :: jstr where
  "search_failed_text =
     [0x641C, 0x7D22, 0x5931, 0x8D25, 0xFF0C, 0x7EE7, 0x7EED, 0x751F, 0x6210]"

text \<open>Less than one second.\<close>

definition under_a_second_text :: jstr where
  "under_a_second_text =
     [0x4E0D, 0x5230, 32, 49, 32, 0x79D2]"

text \<open>Seconds.\<close>

definition second_text :: jstr where
  "second_text =
     [0x79D2]"

text \<open>Minutes, before seconds.\<close>

definition minute_text :: jstr where
  "minute_text =
     [0x5206]"

text \<open>Minutes.\<close>

definition minutes_text :: jstr where
  "minutes_text =
     [0x5206, 0x949F]"

text \<open>Code.\<close>

definition code_text :: jstr where
  "code_text =
     [0x4EE3, 0x7801]"

end
