(* ===== verification/Api_Client.thy ===== *)
theory Api_Client
  imports Local_Storage Messages
begin

text \<open>
  The HTTP client: \<open>ApiError\<close> and its constructors (\<open>frontend/src/api/errors.ts\<close>), the base URL
  (\<open>frontend/src/api/env.ts\<close>) and \<open>ApiClient\<close> (\<open>frontend/src/api/client.ts\<close>) with its
  refresh of an expired session.

  \<open>fetch\<close> is the argument \<open>net\<close>: given all requests made before and the present one it answers
  with a response or throws, so that no assumption about the server is built in. The client's state
  is the storage that holds the session, the requests made so far and how often \<open>onAuthExpired\<close> was
  called.

  A single call is modelled as it runs when no other call interleaves; the sharing of
  \<open>refreshPromise\<close> between concurrent calls is a step relation of its own at the end.
\<close>

section \<open>Definitions\<close>

subsection \<open>Errors\<close>

record api_error =
  err_status :: int
  err_message :: jstr
  err_detail :: "json option"
  err_payload :: "json option"
  err_code :: "jstr option"
  err_legacyMessageId :: "jstr option"
  err_isAuthExpired :: bool
  err_isAbort :: bool

text \<open>What a \<open>catch\<close> can meet: an \<open>ApiError\<close>, the \<open>DOMException\<close> of an abort, anything else.\<close>

datatype thrown = ThrownApi api_error | ThrownAbort | ThrownOther

definition getDefaultErrorMessage :: "int \<Rightarrow> jstr" where
  "getDefaultErrorMessage status =
     (if status = 401 then session_expired_text
      else if status = 403 then forbidden_text
      else if status = 404 then not_found_text
      else if status = 409 then conflict_text
      else if status = 422 then unprocessable_text
      else if status = 429 then too_many_text
      else if status \<ge> 500 then unavailable_text
      else request_failed_text)"

definition isAbortError :: "thrown \<Rightarrow> bool" where
  "isAbortError e = (e = ThrownAbort)"

definition plain_error :: "int \<Rightarrow> jstr \<Rightarrow> api_error" where
  "plain_error status message = \<lparr>err_status = status, err_message = message, err_detail = None,
     err_payload = None, err_code = None, err_legacyMessageId = None, err_isAuthExpired = False,
     err_isAbort = False\<rparr>"

fun toApiError :: "thrown \<Rightarrow> api_error" where
  "toApiError (ThrownApi e) = e"
| "toApiError ThrownAbort = (plain_error 0 aborted_text)\<lparr>err_isAbort := True\<rparr>"
| "toApiError ThrownOther = plain_error 0 network_failed_text"

text \<open>\<open>payload.detail\<close> when it is an object.\<close>

definition detail_object :: "json \<Rightarrow> json option" where
  "detail_object value =
     (case json_get (js ''detail'') value of
        Some d \<Rightarrow> if json_is_object d then Some d else None
      | None \<Rightarrow> None)"

definition nonempty_code :: "json option \<Rightarrow> jstr option" where
  "nonempty_code value =
     (case json_string (Option.bind value (json_get (js ''code''))) of
        Some c \<Rightarrow> if c \<noteq> [] then Some c else None
      | None \<Rightarrow> None)"

definition getErrorCode :: "json option \<Rightarrow> jstr option" where
  "getErrorCode payload =
     (case payload of
        None \<Rightarrow> None
      | Some value \<Rightarrow>
          if \<not> json_is_object value then None
          else orelse (nonempty_code (Some value)) (nonempty_code (detail_object value)))"

definition getLegacyMessageId :: "json option \<Rightarrow> jstr option" where
  "getLegacyMessageId payload =
     (case payload of
        None \<Rightarrow> None
      | Some value \<Rightarrow>
          if \<not> json_is_object value then None
          else orelse (json_string (json_get (js ''legacy_message_id'') value))
            (json_string (Option.bind (detail_object value) (json_get (js ''legacy_message_id'')))))"

definition getErrorDetail :: "json option \<Rightarrow> json option" where
  "getErrorDetail payload =
     (case payload of
        None \<Rightarrow> None
      | Some value \<Rightarrow> if json_is_object value then json_get (js ''detail'') value else None)"

subsection \<open>Requests\<close>

text \<open>\<open>value.replace(/\/+$/, "")\<close>.\<close>

definition strip_slashes :: "jstr \<Rightarrow> jstr" where
  "strip_slashes s = rev (dropWhile (\<lambda>c. c = 47) (rev s))"

definition normalizeApiBaseUrl :: "jstr option \<Rightarrow> jstr option" where
  "normalizeApiBaseUrl value =
     (if \<not> truthy_trim value then None else Some (strip_slashes (js_trim (the value))))"

definition resolveApiBaseUrl :: "jstr option \<Rightarrow> jstr \<Rightarrow> jstr option" where
  "resolveApiBaseUrl value pageOrigin =
     (case normalizeApiBaseUrl value of
        None \<Rightarrow> None
      | Some normalized \<Rightarrow>
          Some (if \<not> starts_with (js ''/'') normalized then normalized
                else strip_slashes pageOrigin @ normalized))"

datatype query_value = QText jstr | QNumber int | QBool bool | QAbsent

text \<open>Decimal notation of an integer, as \<open>String(value)\<close> gives it.\<close>

fun digits :: "nat \<Rightarrow> jstr" where
  "digits n = (if n < 10 then [48 + of_nat n] else digits (n div 10) @ [48 + of_nat (n mod 10)])"

declare digits.simps [simp del]

definition int_string :: "int \<Rightarrow> jstr" where
  "int_string i = (if i < 0 then js ''-'' @ digits (nat (- i)) else digits (nat i))"

fun query_string :: "query_value \<Rightarrow> jstr option" where
  "query_string (QText s) = Some s"
| "query_string (QNumber n) = Some (int_string n)"
| "query_string (QBool b) = Some (if b then js ''true'' else js ''false'')"
| "query_string QAbsent = None"

record api_request_options =
  opt_method :: "jstr option"
  opt_body :: "json option"
  opt_query :: "(jstr \<times> query_value) list"
  opt_headers :: "(jstr \<times> jstr) list"
  opt_auth :: "bool option"
  opt_retryOnUnauthorized :: "bool option"

definition default_options :: api_request_options where
  "default_options = \<lparr>opt_method = None, opt_body = None, opt_query = [], opt_headers = [],
     opt_auth = None, opt_retryOnUnauthorized = None\<rparr>"

text \<open>
  The request \<open>fetch\<close> is called with. The query parameters are kept apart from the path:
  percent-encoding is the platform's.
\<close>

record http_request =
  hr_url :: jstr
  hr_params :: "(jstr \<times> jstr) list"
  hr_method :: jstr
  hr_headers :: "(jstr \<times> jstr) list"
  hr_body :: "json option"

record http_response =
  rsp_status :: int
  rsp_json :: "json option"

definition rsp_ok :: "http_response \<Rightarrow> bool" where
  "rsp_ok r \<longleftrightarrow> 200 \<le> rsp_status r \<and> rsp_status r \<le> 299"

definition buildUrl :: "jstr \<Rightarrow> jstr \<Rightarrow> jstr" where
  "buildUrl baseUrl path = baseUrl @ (if starts_with (js ''/'') path then path else js ''/'' @ path)"

definition buildParams :: "(jstr \<times> query_value) list \<Rightarrow> (jstr \<times> jstr) list" where
  "buildParams query =
     foldl (\<lambda>params (key, value).
       case query_string value of None \<Rightarrow> params | Some s \<Rightarrow> AList.update key s params) [] query"

text \<open>Assigning properties of a header object: \<open>{ ...a, ...b }\<close> and \<open>headers.X = v\<close>.\<close>

definition buildHeaders ::
  "jstr option \<Rightarrow> api_request_options \<Rightarrow> (jstr \<times> jstr) list"
where
  "buildHeaders accessToken options =
     (let headers = foldl (\<lambda>hs (k, v). AList.update k v hs)
            [(js ''Accept'', js ''application/json'')] (opt_headers options);
          headers = (if opt_body options \<noteq> None
            then AList.update (js ''Content-Type'') (js ''application/json'') headers else headers)
      in if opt_auth options \<noteq> Some False \<and> truthy accessToken
         then AList.update (js ''Authorization'') (js ''Bearer '' @ the accessToken) headers
         else headers)"

subsection \<open>The client\<close>

datatype fetch_outcome = Fetched http_response | FetchThrew thrown

type_synonym network = "http_request list \<Rightarrow> http_request \<Rightarrow> fetch_outcome"

text \<open>
  What the client is given: the network, the base URL, \<open>JSON.parse\<close> and \<open>JSON.stringify\<close> on
  sessions, the reading of a token response, and the clock.
\<close>

record client_env =
  env_net :: network
  env_baseUrl :: jstr
  env_parse :: "jstr \<Rightarrow> auth_session option"
  env_stringify :: "auth_session \<Rightarrow> jstr"
  env_tokens :: "json \<Rightarrow> auth_token_response"
  env_now :: int

record client_state =
  cs_storage :: storage
  cs_log :: "http_request list"
  cs_expired :: nat

definition http_request_of ::
  "client_env \<Rightarrow> client_state \<Rightarrow> jstr \<Rightarrow> api_request_options \<Rightarrow> http_request"
where
  "http_request_of env c path options =
     \<lparr>hr_url = buildUrl (env_baseUrl env) path, hr_params = buildParams (opt_query options),
      hr_method = nullish (opt_method options) (js ''GET''),
      hr_headers = buildHeaders (getAccessToken (env_parse env) (cs_storage c)) options,
      hr_body = opt_body options\<rparr>"

text \<open>Building the headers reads the session, which drops a corrupt entry.\<close>

definition do_fetch ::
  "client_env \<Rightarrow> client_state \<Rightarrow> jstr \<Rightarrow> api_request_options \<Rightarrow> fetch_outcome \<times> client_state"
where
  "do_fetch env c path options =
     (let hr = http_request_of env c path options;
          st = (if opt_auth options \<noteq> Some False
                then snd (readSession (env_parse env) (cs_storage c)) else cs_storage c)
      in (env_net env (cs_log c) hr, c\<lparr>cs_storage := st, cs_log := cs_log c @ [hr]\<rparr>))"

definition expireAuth :: "client_state \<Rightarrow> client_state" where
  "expireAuth c = c\<lparr>cs_storage := clearSession (cs_storage c), cs_expired := Suc (cs_expired c)\<rparr>"

definition createResponseError :: "http_response \<Rightarrow> api_error" where
  "createResponseError response =
     (let payload = rsp_json response
      in \<lparr>err_status = rsp_status response,
          err_message = getDefaultErrorMessage (rsp_status response),
          err_detail = getErrorDetail payload, err_payload = payload,
          err_code = getErrorCode payload, err_legacyMessageId = getLegacyMessageId payload,
          err_isAuthExpired = False, err_isAbort = False\<rparr>)"

text \<open>The rest of \<open>request\<close> once \<open>fetchRaw\<close> has settled.\<close>

definition finish_request :: "thrown + http_response \<Rightarrow> api_error + json" where
  "finish_request result =
     (case result of
        Inl e \<Rightarrow> Inl (toApiError e)
      | Inr response \<Rightarrow>
          (case rsp_json response of
             None \<Rightarrow> Inl (toApiError ThrownOther)
           | Some payload \<Rightarrow>
               (case json_get (js ''data'') payload of
                  Some d \<Rightarrow> Inr d
                | None \<Rightarrow> Inl ((plain_error (rsp_status response) malformed_text)
                    \<lparr>err_payload := Some payload\<rparr>))))"

definition may_refresh :: "api_request_options \<Rightarrow> bool \<Rightarrow> bool" where
  "may_refresh options hasRetried \<longleftrightarrow>
     opt_auth options \<noteq> Some False \<and> opt_retryOnUnauthorized options \<noteq> Some False \<and> \<not> hasRetried"

definition refresh_options :: "jstr \<Rightarrow> api_request_options" where
  "refresh_options refreshToken = default_options\<lparr>opt_method := Some (js ''POST''),
     opt_body := Some (JObj [(js ''refresh_token'', JStr refreshToken)]),
     opt_auth := Some False, opt_retryOnUnauthorized := Some False\<rparr>"

definition no_token_error :: api_error where
  "no_token_error = (plain_error 401 session_expired_text)\<lparr>err_isAuthExpired := True\<rparr>"

definition refresh_error :: "api_error \<Rightarrow> api_error" where
  "refresh_error e = e\<lparr>err_status := (if err_status e = 0 then 401 else err_status e),
     err_message := session_expired_text, err_isAuthExpired := True, err_isAbort := False\<rparr>"

text \<open>
  \<open>fetchRawInternal\<close> with \<open>refreshSession\<close> at the place where it is awaited; the refresh itself is
  a \<open>request\<close>, so the function calls itself there and again for the retry.
\<close>

function (sequential) fetchRawInternal ::
  "client_env \<Rightarrow> jstr \<Rightarrow> api_request_options \<Rightarrow> bool \<Rightarrow> client_state \<Rightarrow>
   (thrown + http_response) \<times> client_state"
where
  "fetchRawInternal env path options hasRetried c =
     (case do_fetch env c path options of
        (FetchThrew e, c1) \<Rightarrow> (Inl e, c1)
      | (Fetched response, c1) \<Rightarrow>
          if rsp_status response = 401 \<and> may_refresh options hasRetried
          then
            let refreshToken = getRefreshToken (env_parse env) (cs_storage c1)
            in if \<not> truthy refreshToken then (Inl (ThrownApi no_token_error), expireAuth c1)
               else
                 case fetchRawInternal env (js ''/auth/refresh'') (refresh_options (the refreshToken))
                        False c1 of
                   (result, c2) \<Rightarrow>
                     (case finish_request result of
                        Inl e \<Rightarrow> (Inl (ThrownApi (refresh_error e)), expireAuth c2)
                      | Inr payload \<Rightarrow>
                          fetchRawInternal env path options True
                            (c2\<lparr>cs_storage := saveSession (env_stringify env)
                               (createAuthSession (env_tokens env payload) (env_now env))
                               (cs_storage c2)\<rparr>))
          else if \<not> rsp_ok response then (Inl (ThrownApi (createResponseError response)), c1)
          else (Inr response, c1))"
  by pat_completeness auto

termination fetchRawInternal
  by (relation "measure (\<lambda>(env, path, options, hasRetried, c).
      if may_refresh options hasRetried then 1 else 0)")
    (auto simp: may_refresh_def refresh_options_def)

declare fetchRawInternal.simps [simp del]

definition fetchRaw ::
  "client_env \<Rightarrow> jstr \<Rightarrow> api_request_options \<Rightarrow> client_state \<Rightarrow>
   (thrown + http_response) \<times> client_state"
where
  "fetchRaw env path options c = fetchRawInternal env path options False c"

definition request ::
  "client_env \<Rightarrow> jstr \<Rightarrow> api_request_options \<Rightarrow> client_state \<Rightarrow>
   (api_error + json) \<times> client_state"
where
  "request env path options c =
     (let (result, c') = fetchRaw env path options c in (finish_request result, c'))"

subsection \<open>Concurrent calls\<close>

text \<open>
  Several calls may meet a 401 at once. \<open>refreshPromise ??= request(...).finally(...)\<close> makes them
  share one refresh: the first starts it, the others await the same promise; when it settles the
  field is cleared before any of them resumes, and each then saves the session or expires it.
\<close>

record refresh_state =
  rf_promise :: "nat option"
  rf_inFlight :: "nat list"
  rf_settled :: "(nat \<times> (api_error + auth_session)) list"
  rf_next :: nat
  rf_waiting :: "(nat \<times> nat) list"
  rf_storage :: storage
  rf_expired :: nat

definition initial_refresh :: "storage \<Rightarrow> refresh_state" where
  "initial_refresh st = \<lparr>rf_promise = None, rf_inFlight = [], rf_settled = [], rf_next = 0,
     rf_waiting = [], rf_storage = st, rf_expired = 0\<rparr>"

definition join_refresh :: "nat \<Rightarrow> refresh_state \<Rightarrow> refresh_state" where
  "join_refresh caller s =
     (case rf_promise s of
        Some p \<Rightarrow> s\<lparr>rf_waiting := rf_waiting s @ [(caller, p)]\<rparr>
      | None \<Rightarrow>
          s\<lparr>rf_promise := Some (rf_next s), rf_inFlight := rf_inFlight s @ [rf_next s],
            rf_next := Suc (rf_next s), rf_waiting := rf_waiting s @ [(caller, rf_next s)]\<rparr>)"

definition settle_refresh :: "nat \<Rightarrow> api_error + auth_session \<Rightarrow> refresh_state \<Rightarrow> refresh_state" where
  "settle_refresh p result s =
     s\<lparr>rf_inFlight := filter (\<lambda>q. q \<noteq> p) (rf_inFlight s), rf_promise := None,
       rf_settled := (p, result) # rf_settled s\<rparr>"

definition expire_refresh :: "refresh_state \<Rightarrow> refresh_state" where
  "expire_refresh s = s\<lparr>rf_storage := clearSession (rf_storage s), rf_expired := Suc (rf_expired s)\<rparr>"

definition resume_caller ::
  "(auth_session \<Rightarrow> jstr) \<Rightarrow> nat \<Rightarrow> api_error + auth_session \<Rightarrow> refresh_state \<Rightarrow> refresh_state"
where
  "resume_caller stringify caller result s =
     (let s' = s\<lparr>rf_waiting := filter (\<lambda>w. fst w \<noteq> caller) (rf_waiting s)\<rparr>
      in case result of
           Inl e \<Rightarrow> expire_refresh s'
         | Inr session \<Rightarrow> s'\<lparr>rf_storage := saveSession stringify session (rf_storage s')\<rparr>)"

inductive refresh_step ::
  "(jstr \<Rightarrow> auth_session option) \<Rightarrow> (auth_session \<Rightarrow> jstr) \<Rightarrow> refresh_state \<Rightarrow> refresh_state \<Rightarrow> bool"
  for parse :: "jstr \<Rightarrow> auth_session option" and stringify :: "auth_session \<Rightarrow> jstr"
where
  no_token: "\<not> truthy (getRefreshToken parse (rf_storage s)) \<Longrightarrow>
    refresh_step parse stringify s (expire_refresh s)"
| joins: "truthy (getRefreshToken parse (rf_storage s)) \<Longrightarrow>
    refresh_step parse stringify s (join_refresh caller s)"
| settles: "p \<in> set (rf_inFlight s) \<Longrightarrow> refresh_step parse stringify s (settle_refresh p result s)"
| resumes: "(caller, p) \<in> set (rf_waiting s) \<Longrightarrow> map_of (rf_settled s) p = Some result \<Longrightarrow>
    refresh_step parse stringify s (resume_caller stringify caller result s)"

inductive refresh_reachable ::
  "(jstr \<Rightarrow> auth_session option) \<Rightarrow> (auth_session \<Rightarrow> jstr) \<Rightarrow> storage \<Rightarrow> refresh_state \<Rightarrow> bool"
  for parse :: "jstr \<Rightarrow> auth_session option" and stringify :: "auth_session \<Rightarrow> jstr" and st :: storage
where
  initial: "refresh_reachable parse stringify st (initial_refresh st)"
| step: "refresh_reachable parse stringify st s \<Longrightarrow> refresh_step parse stringify s s' \<Longrightarrow>
    refresh_reachable parse stringify st s'"

section \<open>One call\<close>

lemma do_fetch_simps [simp]:
  "cs_log (snd (do_fetch env c path options)) = cs_log c @ [http_request_of env c path options]"
  "cs_expired (snd (do_fetch env c path options)) = cs_expired c"
  "opt_auth options = Some False \<Longrightarrow> cs_storage (snd (do_fetch env c path options)) = cs_storage c"
  by (simp_all add: do_fetch_def Let_def)

lemma do_fetch_outcome:
  "fst (do_fetch env c path options) = env_net env (cs_log c) (http_request_of env c path options)"
  by (simp add: do_fetch_def Let_def)

lemma get_item_readSession:
  "fst (readSession parse (snd (readSession parse st))) = fst (readSession parse st)"
  by (auto simp: readSession_def Let_def get_remove_item truthy_def split: option.splits)

text \<open>A call that may not refresh is one fetch.\<close>

lemma fetch_without_refresh:
  assumes "\<not> may_refresh options hasRetried"
  shows "fetchRawInternal env path options hasRetried c =
    (case fst (do_fetch env c path options) of
       FetchThrew e \<Rightarrow> Inl e
     | Fetched response \<Rightarrow>
         if rsp_ok response then Inr response else Inl (ThrownApi (createResponseError response)),
     snd (do_fetch env c path options))"
  using assms
  by (cases "do_fetch env c path options"; cases "fst (do_fetch env c path options)")
    (simp_all add: fetchRawInternal.simps [of env path options hasRetried c])

lemma no_refresh_when_refreshing [simp]: "\<not> may_refresh (refresh_options t) h" "\<not> may_refresh options True"
  by (simp_all add: may_refresh_def refresh_options_def)

lemma refresh_options_auth [simp]: "opt_auth (refresh_options t) = Some False"
  by (simp add: refresh_options_def)

text \<open>The state after the refresh request, and what it settled to.\<close>

definition refresh_result ::
  "client_env \<Rightarrow> jstr \<Rightarrow> client_state \<Rightarrow> (api_error + json) \<times> client_state"
where
  "refresh_result env token c =
     (let (result, c') = fetchRawInternal env (js ''/auth/refresh'') (refresh_options token) False c
      in (finish_request result, c'))"

lemma refresh_result_log:
  "cs_log (snd (refresh_result env t c)) =
     cs_log c @ [http_request_of env c (js ''/auth/refresh'') (refresh_options t)]"
  "cs_expired (snd (refresh_result env t c)) = cs_expired c"
  "cs_storage (snd (refresh_result env t c)) = cs_storage c"
  by (simp_all add: refresh_result_def fetch_without_refresh)

lemma fetch_with_refresh:
  assumes "may_refresh options hasRetried"
    and "do_fetch env c path options = (Fetched response, c1)" and "rsp_status response = 401"
    and "getRefreshToken (env_parse env) (cs_storage c1) = Some t" and "t \<noteq> []"
  shows "fetchRawInternal env path options hasRetried c =
    (case refresh_result env t c1 of
       (Inl e, c2) \<Rightarrow> (Inl (ThrownApi (refresh_error e)), expireAuth c2)
     | (Inr payload, c2) \<Rightarrow>
         fetchRawInternal env path options True
           (c2\<lparr>cs_storage := saveSession (env_stringify env)
              (createAuthSession (env_tokens env payload) (env_now env)) (cs_storage c2)\<rparr>))"
  using assms
  by (subst fetchRawInternal.simps) (simp add: refresh_result_def truthy_def split: prod.splits)

lemma fetch_without_token:
  assumes "may_refresh options hasRetried"
    and "do_fetch env c path options = (Fetched response, c1)" and "rsp_status response = 401"
    and "\<not> truthy (getRefreshToken (env_parse env) (cs_storage c1))"
  shows "fetchRawInternal env path options hasRetried c =
    (Inl (ThrownApi no_token_error), expireAuth c1)"
  using assms by (subst fetchRawInternal.simps) simp

lemma fetch_not_unauthorized:
  assumes "\<not> (\<exists>response. fst (do_fetch env c path options) = Fetched response \<and> rsp_status response = 401)"
  shows "fetchRawInternal env path options hasRetried c = fetchRawInternal env path options True c"
  using assms
  by (cases "do_fetch env c path options"; cases "fst (do_fetch env c path options)")
    (simp_all add: fetchRawInternal.simps [of env path options _ c])

text \<open>The three ways a call can go.\<close>

lemma fetch_cases:
  obtains (once)
      "fetchRawInternal env path options hasRetried c = fetchRawInternal env path options True c"
  | (no_token) c1 where "may_refresh options hasRetried" "c1 = snd (do_fetch env c path options)"
      "\<not> truthy (getRefreshToken (env_parse env) (cs_storage c1))"
      "fetchRawInternal env path options hasRetried c = (Inl (ThrownApi no_token_error), expireAuth c1)"
  | (refresh) c1 t where "may_refresh options hasRetried" "c1 = snd (do_fetch env c path options)"
      "getRefreshToken (env_parse env) (cs_storage c1) = Some t" "t \<noteq> []"
      "fetchRawInternal env path options hasRetried c =
        (case refresh_result env t c1 of
           (Inl e, c2) \<Rightarrow> (Inl (ThrownApi (refresh_error e)), expireAuth c2)
         | (Inr payload, c2) \<Rightarrow>
             fetchRawInternal env path options True
               (c2\<lparr>cs_storage := saveSession (env_stringify env)
                  (createAuthSession (env_tokens env payload) (env_now env)) (cs_storage c2)\<rparr>))"
proof (cases "may_refresh options hasRetried \<and>
    (\<exists>response. fst (do_fetch env c path options) = Fetched response \<and> rsp_status response = 401)")
  case True
  then obtain response where r: "do_fetch env c path options = (Fetched response, snd (do_fetch env c path options))"
    "rsp_status response = 401" by (metis prod.collapse)
  let ?token = "getRefreshToken (env_parse env) (cs_storage (snd (do_fetch env c path options)))"
  show thesis
  proof (cases "truthy ?token")
    case False
    show thesis
      by (rule no_token [OF _ refl False fetch_without_token [OF _ r False]]) (use True in simp_all)
  next
    case t: True
    then obtain t where t: "?token = Some t" "t \<noteq> []" by (auto simp: truthy_def split: option.splits)
    show thesis
      by (rule refresh [OF _ refl t fetch_with_refresh [OF _ r t]]) (use True in simp_all)
  qed
next
  case False
  then have "fetchRawInternal env path options hasRetried c = fetchRawInternal env path options True c"
    using fetch_not_unauthorized [of env c path options hasRetried]
    by (auto simp: fetch_without_refresh)
  then show thesis by (rule once)
qed

lemma fetch_log_bound:
  "length (cs_log c) < length (cs_log (snd (fetchRawInternal env path options hasRetried c))) \<and>
   length (cs_log (snd (fetchRawInternal env path options hasRetried c))) \<le>
     length (cs_log c) + (if may_refresh options hasRetried then 3 else 1) \<and>
   cs_expired (snd (fetchRawInternal env path options hasRetried c)) \<le> Suc (cs_expired c)"
proof (cases rule: fetch_cases [of env path options hasRetried c])
  case once
  then show ?thesis by (simp add: fetch_without_refresh)
next
  case (no_token c1)
  then show ?thesis by (simp add: expireAuth_def)
next
  case (refresh c1 t)
  obtain r c2 where rc: "refresh_result env t c1 = (r, c2)" by (cases "refresh_result env t c1")
  have "cs_log c2 = cs_log c1 @ [http_request_of env c1 (js ''/auth/refresh'') (refresh_options t)]"
    "cs_expired c2 = cs_expired c1"
    using refresh_result_log [of env t c1] rc by simp_all
  with refresh rc show ?thesis
    by (cases r) (simp_all add: expireAuth_def fetch_without_refresh)
qed

lemma expireAuth_parts:
  "cs_expired (expireAuth c) = Suc (cs_expired c)"
  "get_item auth_storage_key (cs_storage (expireAuth c)) = None"
  by (simp_all add: expireAuth_def clearSession_def get_remove_item)

lemma no_token_error_parts:
  "err_isAuthExpired no_token_error \<and> err_status no_token_error \<noteq> 0 \<and>
   err_message no_token_error = session_expired_text"
  by (simp add: no_token_error_def plain_error_def)

lemma refresh_error_parts:
  "err_isAuthExpired (refresh_error e) \<and> err_status (refresh_error e) \<noteq> 0 \<and>
   err_message (refresh_error e) = session_expired_text"
  by (simp add: refresh_error_def)

section \<open>Concurrent refreshes\<close>

definition refresh_inv :: "refresh_state \<Rightarrow> bool" where
  "refresh_inv s \<longleftrightarrow>
     (rf_promise s = None \<longrightarrow> rf_inFlight s = []) \<and>
     (\<forall>p. rf_promise s = Some p \<longrightarrow> rf_inFlight s = [p]) \<and>
     (\<forall>(caller, p) \<in> set (rf_waiting s). p \<in> set (rf_inFlight s) \<or> p \<in> fst ` set (rf_settled s))"

lemma expire_refresh_inv: "refresh_inv s \<Longrightarrow> refresh_inv (expire_refresh s)"
  by (simp add: refresh_inv_def expire_refresh_def)

lemma join_refresh_inv: "refresh_inv s \<Longrightarrow> refresh_inv (join_refresh caller s)"
  by (cases "rf_promise s") (auto simp: refresh_inv_def join_refresh_def)

lemma settle_refresh_inv:
  assumes "refresh_inv s" and "p \<in> set (rf_inFlight s)"
  shows "refresh_inv (settle_refresh p result s)"
proof -
  from assms have "rf_inFlight s = [p]"
    by (cases "rf_promise s") (auto simp: refresh_inv_def)
  with assms(1) show ?thesis by (auto simp: refresh_inv_def settle_refresh_def)
qed

lemma resume_caller_inv: "refresh_inv s \<Longrightarrow> refresh_inv (resume_caller stringify caller result s)"
proof -
  assume "refresh_inv s"
  then have "refresh_inv (s\<lparr>rf_waiting := filter (\<lambda>w. fst w \<noteq> caller) (rf_waiting s)\<rparr>)"
    by (auto simp: refresh_inv_def)
  then show ?thesis
    by (cases result) (simp_all add: resume_caller_def expire_refresh_inv, simp add: refresh_inv_def)
qed

lemma refresh_reachable_inv: "refresh_reachable parse stringify st s \<Longrightarrow> refresh_inv s"
proof (induction rule: refresh_reachable.induct)
  case initial
  then show ?case by (simp add: refresh_inv_def initial_refresh_def)
next
  case (step s s')
  from step.hyps(2) step.IH show ?case
    by cases (simp_all add: expire_refresh_inv join_refresh_inv settle_refresh_inv resume_caller_inv)
qed

lemma map_of_update_foldl_other:
  "k \<notin> fst ` set es \<Longrightarrow> map_of (foldl (\<lambda>hs (k, v). AList.update k v hs) hs es) k = map_of hs k"
  by (induction es arbitrary: hs) (auto simp: update_conv')

lemma authorization_header:
  "opt_auth options \<noteq> Some False \<Longrightarrow> truthy token \<Longrightarrow>
     map_of (buildHeaders token options) (js ''Authorization'') = Some (js ''Bearer '' @ the token)"
  by (simp add: buildHeaders_def Let_def update_conv')

lemma no_authorization_header:
  "opt_auth options = Some False \<Longrightarrow> js ''Authorization'' \<notin> fst ` set (opt_headers options) \<Longrightarrow>
     map_of (buildHeaders token options) (js ''Authorization'') = None"
  by (simp add: buildHeaders_def Let_def update_conv' map_of_update_foldl_other)

section \<open>Properties\<close>

text \<open>
  A call never loops: whatever the server answers, it makes at least one request and at most
  three (the request, one refresh, one retry), exactly one when it may not refresh, and reports the
  session as expired at most once.
\<close>

theorem fetch_is_bounded:
  "length (cs_log c) < length (cs_log (snd (fetchRaw env path options c))) \<and>
   length (cs_log (snd (fetchRaw env path options c))) \<le>
     length (cs_log c) + (if may_refresh options False then 3 else 1) \<and>
   cs_expired (snd (fetchRaw env path options c)) \<le> Suc (cs_expired c)"
  unfolding fetchRaw_def by (rule fetch_log_bound)

text \<open>
  When the session is reported as expired, it is gone from the storage and the caller gets an
  error marked as such, with a status and the text that asks to log in again; this happens exactly
  when there was no refresh token or the refresh failed.
\<close>

theorem expiry_clears_session:
  assumes "fetchRaw env path options c = (result, c')" and "cs_expired c' \<noteq> cs_expired c"
  shows "cs_expired c' = Suc (cs_expired c) \<and> get_item auth_storage_key (cs_storage c') = None \<and>
    (\<exists>e. result = Inl (ThrownApi e) \<and> err_isAuthExpired e \<and> err_status e \<noteq> 0 \<and>
       err_message e = session_expired_text)"
proof (cases rule: fetch_cases [of env path options False c])
  case once
  then have "cs_expired (snd (fetchRaw env path options c)) = cs_expired c"
    by (simp add: fetchRaw_def fetch_without_refresh)
  with assms show ?thesis by simp
next
  case (no_token c1)
  then have "cs_expired c1 = cs_expired c"
    "fetchRaw env path options c = (Inl (ThrownApi no_token_error), expireAuth c1)"
    by (simp_all add: fetchRaw_def)
  with assms(1) show ?thesis
    using no_token_error_parts expireAuth_parts [of c1] by auto
next
  case (refresh c1 t)
  obtain r c2 where rc: "refresh_result env t c1 = (r, c2)" by (cases "refresh_result env t c1")
  have "cs_expired c2 = cs_expired c" using refresh_result_log [of env t c1] rc refresh by simp
  moreover from this have "cs_expired (snd (fetchRaw env path options c)) = cs_expired c"
    if "r = Inr payload" for payload
    using refresh rc that by (simp add: fetchRaw_def fetch_without_refresh)
  ultimately obtain e where "fetchRaw env path options c = (Inl (ThrownApi (refresh_error e)), expireAuth c2)"
    using refresh rc assms by (cases r) (auto simp: fetchRaw_def)
  with \<open>cs_expired c2 = cs_expired c\<close> assms show ?thesis
    using refresh_error_parts [of e] expireAuth_parts [of c2] by auto
qed

text \<open>
  A server for the concrete instances: every request is answered with the status the list holds at
  its position, and a body with a \<open>data\<close> property.
\<close>

definition demo_user :: auth_user_response where
  "demo_user = \<lparr>user_id = 1, user_username = js ''u'', user_nickname = js ''u'', user_email = js ''e'',
     user_email_verified = True, user_avatar_url = None\<rparr>"

definition demo_tokens :: auth_token_response where
  "demo_tokens = \<lparr>tok_user = demo_user, tok_access_token = js ''new'', tok_refresh_token = js ''r2'',
     tok_token_type = js ''bearer'', tok_expires_in = 60\<rparr>"

definition demo_session :: auth_session where
  "demo_session = \<lparr>ses_user = demo_user, ses_accessToken = js ''old'', ses_refreshToken = js ''r1'',
     ses_tokenType = js ''bearer'', ses_expiresAt = 0\<rparr>"

definition demo_env :: "int list \<Rightarrow> client_env" where
  "demo_env statuses = \<lparr>env_net = (\<lambda>log _. Fetched \<lparr>rsp_status = statuses ! length log,
       rsp_json = Some (JObj [(js ''data'', JNull)])\<rparr>),
     env_baseUrl = js ''http://h'',
     env_parse = (\<lambda>raw. if raw = js ''old'' then Some demo_session
       else Some (createAuthSession demo_tokens 0)),
     env_stringify = (\<lambda>_. js ''new''), env_tokens = (\<lambda>_. demo_tokens), env_now = 0\<rparr>"

definition demo_client :: client_state where
  "demo_client = \<lparr>cs_storage = [(auth_storage_key, js ''old'')], cs_log = [], cs_expired = 0\<rparr>"

lemma demo_call_simps:
  "do_fetch (demo_env ss) c p opts = (Fetched \<lparr>rsp_status = ss ! length (cs_log c),
      rsp_json = Some (JObj [(js ''data'', JNull)])\<rparr>,
     c\<lparr>cs_log := cs_log c @ [http_request_of (demo_env ss) c p opts]\<rparr>)"
  by (simp add: do_fetch_def Let_def demo_env_def readSession_def)

lemma demo_read: "fst (readSession (env_parse (demo_env ss)) [(auth_storage_key, js ''old'')]) = Some demo_session"
  by (simp add: readSession_def get_item_def truthy_def demo_env_def)

theorem expiry_clears_session_witness:
  "get_item auth_storage_key (cs_storage (snd (fetchRaw (demo_env [401, 500]) (js ''/x'') default_options demo_client))) = None"
proof -
  have "cs_expired (snd (fetchRaw (demo_env [401, 500]) (js ''/x'') default_options demo_client)) \<noteq>
      cs_expired demo_client"
    by (simp add: fetchRaw_def fetchRawInternal.simps demo_call_simps may_refresh_def default_options_def
        refresh_options_def demo_client_def getRefreshToken_def demo_read truthy_def demo_session_def
        rsp_ok_def finish_request_def expireAuth_def)
  from expiry_clears_session [OF prod.collapse [symmetric] this] show ?thesis by blast
qed

text \<open>
  Retry (C24). The retry carries the new session: when a call made three requests, the second went to the
  refresh endpoint without credentials, the refreshed session is the one stored afterwards, and the
  third repeats the first one (address, parameters, method and body) with the new access token.
\<close>

theorem retry_uses_new_token:
  assumes "fetchRaw env path options c = (result, c')"
    and "length (cs_log c') = length (cs_log c) + 3"
    and "\<forall>payload. env_parse env (env_stringify env (createAuthSession (env_tokens env payload) (env_now env))) =
        Some (createAuthSession (env_tokens env payload) (env_now env)) \<and>
      env_stringify env (createAuthSession (env_tokens env payload) (env_now env)) \<noteq> [] \<and>
      tok_access_token (env_tokens env payload) \<noteq> []"
  shows "\<exists>first refresh retry payload.
    cs_log c' = cs_log c @ [first, refresh, retry] \<and>
    hr_url refresh = buildUrl (env_baseUrl env) (js ''/auth/refresh'') \<and>
    map_of (hr_headers refresh) (js ''Authorization'') = None \<and>
    retry = first\<lparr>hr_headers := hr_headers retry\<rparr> \<and>
    map_of (hr_headers retry) (js ''Authorization'') =
      Some (js ''Bearer '' @ tok_access_token (env_tokens env payload)) \<and>
    fst (readSession (env_parse env) (cs_storage c')) =
      Some (createAuthSession (env_tokens env payload) (env_now env))"
proof (cases rule: fetch_cases [of env path options False c])
  case once
  then have "length (cs_log c') = Suc (length (cs_log c))"
    using assms(1) by (simp add: fetchRaw_def fetch_without_refresh) (metis do_fetch_simps(1) length_append_singleton)
  with assms(2) show ?thesis by simp
next
  case (no_token c1)
  then have "length (cs_log (snd (fetchRaw env path options c))) = Suc (length (cs_log c))"
    by (simp add: fetchRaw_def expireAuth_def)
  with assms(1,2) show ?thesis by simp
next
  case (refresh c1 t)
  obtain r c2 where rc: "refresh_result env t c1 = (r, c2)" by (cases "refresh_result env t c1")
  let ?first = "http_request_of env c path options"
  let ?ref = "http_request_of env c1 (js ''/auth/refresh'') (refresh_options t)"
  have log: "cs_log c2 = cs_log c @ [?first, ?ref]"
    using refresh_result_log(1) [of env t c1] rc refresh(2) by simp
  show ?thesis
  proof (cases r)
    case (Inl e)
    then have "length (cs_log (snd (fetchRaw env path options c))) = length (cs_log c) + 2"
      using refresh rc log by (simp add: fetchRaw_def expireAuth_def)
    with assms(1,2) show ?thesis by simp
  next
    case (Inr payload)
    let ?s = "createAuthSession (env_tokens env payload) (env_now env)"
    let ?c3 = "c2\<lparr>cs_storage := saveSession (env_stringify env) ?s (cs_storage c2)\<rparr>"
    let ?retry = "http_request_of env ?c3 path options"
    have auth: "opt_auth options \<noteq> Some False" using refresh(1) by (simp add: may_refresh_def)
    have read: "readSession (env_parse env) (cs_storage ?c3) = (Some ?s, cs_storage ?c3)"
      using assms(3) [rule_format, of payload]
      by (simp add: readSession_def saveSession_def get_set_item truthy_def)
    have "c' = snd (do_fetch env ?c3 path options)"
      using refresh(5) rc Inr assms(1) by (simp add: fetchRaw_def fetch_without_refresh)
    then have c': "cs_log c' = cs_log c @ [?first, ?ref, ?retry]"
      "cs_storage c' = cs_storage ?c3"
      using log auth read by (simp_all add: do_fetch_def Let_def)
    have "getAccessToken (env_parse env) (cs_storage ?c3) = Some (tok_access_token (env_tokens env payload))"
      using read by (simp add: getAccessToken_def createAuthSession_def)
    then have "map_of (hr_headers ?retry) (js ''Authorization'') =
        Some (js ''Bearer '' @ tok_access_token (env_tokens env payload))"
      using authorization_header [OF auth] assms(3) [rule_format, of payload]
      by (simp add: http_request_of_def truthy_def)
    moreover have "map_of (hr_headers ?ref) (js ''Authorization'') = None"
      using no_authorization_header [of "refresh_options t"]
      by (simp add: http_request_of_def refresh_options_def default_options_def)
    moreover have "?retry = ?first\<lparr>hr_headers := hr_headers ?retry\<rparr>" by (simp add: http_request_of_def)
    moreover have "hr_url ?ref = buildUrl (env_baseUrl env) (js ''/auth/refresh'')"
      by (simp add: http_request_of_def)
    ultimately show ?thesis using c' read by (metis fst_conv)
  qed
qed

theorem retry_uses_new_token_witness:
  "\<exists>retry. last (cs_log (snd (fetchRaw (demo_env [401, 200, 200]) (js ''/x'') default_options demo_client))) = retry \<and>
     map_of (hr_headers retry) (js ''Authorization'') = Some (js ''Bearer '' @ js ''new'')"
proof -
  let ?call = "fetchRaw (demo_env [401, 200, 200]) (js ''/x'') default_options demo_client"
  have three: "length (cs_log (snd ?call)) = length (cs_log demo_client) + 3"
    by (simp add: fetchRaw_def fetchRawInternal.simps demo_call_simps may_refresh_def default_options_def
        refresh_options_def demo_client_def getRefreshToken_def demo_read truthy_def demo_session_def
        rsp_ok_def finish_request_def js_map_of_def)
  have codec: "\<forall>payload. env_parse (demo_env [401, 200, 200]) (env_stringify (demo_env [401, 200, 200])
          (createAuthSession (env_tokens (demo_env [401, 200, 200]) payload) (env_now (demo_env [401, 200, 200])))) =
        Some (createAuthSession (env_tokens (demo_env [401, 200, 200]) payload) (env_now (demo_env [401, 200, 200]))) \<and>
      env_stringify (demo_env [401, 200, 200]) (createAuthSession (env_tokens (demo_env [401, 200, 200]) payload)
        (env_now (demo_env [401, 200, 200]))) \<noteq> [] \<and>
      tok_access_token (env_tokens (demo_env [401, 200, 200]) payload) \<noteq> []"
    by (simp add: demo_env_def demo_tokens_def)
  from retry_uses_new_token [OF prod.collapse [symmetric] three codec] show ?thesis
    by (auto simp: demo_env_def demo_tokens_def)
qed

text \<open>
  A call with \<open>auth: false\<close> is one plain request: it carries no credentials, and neither
  reads, changes nor expires the session whatever the answer.
\<close>

theorem unauthenticated_call_is_plain:
  assumes "opt_auth options = Some False" and "js ''Authorization'' \<notin> fst ` set (opt_headers options)"
    and "request env path options c = (result, c')"
  shows "cs_storage c' = cs_storage c \<and> cs_expired c' = cs_expired c \<and>
    (\<exists>r. cs_log c' = cs_log c @ [r] \<and> map_of (hr_headers r) (js ''Authorization'') = None)"
proof -
  have "\<not> may_refresh options False" using assms(1) by (simp add: may_refresh_def)
  then have "c' = snd (do_fetch env c path options)"
    using assms(3) by (auto simp: request_def fetchRaw_def fetch_without_refresh)
  then show ?thesis
    using assms(1,2) by (simp add: http_request_of_def no_authorization_header)
qed

theorem unauthenticated_call_is_plain_witness:
  "cs_storage (snd (request (demo_env [401]) (js ''/auth/login'') (default_options\<lparr>opt_auth := Some False\<rparr>) demo_client)) =
   cs_storage demo_client"
  using unauthenticated_call_is_plain [OF _ _ prod.collapse [symmetric], of
      "default_options\<lparr>opt_auth := Some False\<rparr>" "demo_env [401]" "js ''/auth/login''" demo_client]
  by (simp add: default_options_def)

text \<open>
  (C21) Concurrent calls share one refresh: under every interleaving of calls that meet a 401,
  refreshes that settle and callers that resume, at most one refresh request is in flight, a call
  that joins meanwhile awaits that one, and no caller awaits a promise that is lost.
\<close>

theorem single_flight_refresh:
  assumes "refresh_reachable parse stringify st s"
  shows "length (rf_inFlight s) \<le> 1 \<and>
    (\<forall>(caller, p) \<in> set (rf_waiting s). p \<in> set (rf_inFlight s) \<or> p \<in> fst ` set (rf_settled s)) \<and>
    (rf_inFlight s \<noteq> [] \<longrightarrow>
       rf_inFlight (join_refresh caller s) = rf_inFlight s \<and>
       last (rf_waiting (join_refresh caller s)) = (caller, hd (rf_inFlight s)))"
  using refresh_reachable_inv [OF assms]
  by (cases "rf_promise s") (auto simp: refresh_inv_def join_refresh_def)

theorem single_flight_refresh_witness:
  "length (rf_inFlight (join_refresh 1 (join_refresh 0 (initial_refresh [(auth_storage_key, js ''old'')])))) \<le> 1"
proof -
  let ?parse = "env_parse (demo_env [])" and ?str = "env_stringify (demo_env [])"
  let ?st = "[(auth_storage_key, js ''old'')]"
  have t: "truthy (getRefreshToken ?parse (rf_storage (initial_refresh ?st)))"
    "truthy (getRefreshToken ?parse (rf_storage (join_refresh 0 (initial_refresh ?st))))"
    by (simp_all add: getRefreshToken_def demo_read initial_refresh_def join_refresh_def truthy_def
        demo_session_def)
  have "refresh_reachable ?parse ?str ?st (join_refresh 1 (join_refresh 0 (initial_refresh ?st)))"
    by (rule refresh_reachable.step [OF refresh_reachable.step [OF refresh_reachable.initial
          refresh_step.joins [OF t(1)]] refresh_step.joins [OF t(2)]])
  from single_flight_refresh [OF this] show ?thesis by blast
qed

end
