(* ===== verification/File_Rules.thy ===== *)
theory File_Rules
  imports Api_Client
begin

text \<open>
  The rules on files that need no state: extensions, categories, size limits and upload statuses
  (\<open>frontend/src/files/utils.ts\<close>), and the handling of long pastes
  (\<open>frontend/src/files/pastedText.ts\<close>). \<open>toLowerCase\<close> is the argument \<open>lower\<close>.

  The lemmas show that the statuses are split into three disjoint classes, and that a paste is
  never given a name that an attachment of the draft already has.
\<close>

section \<open>Definitions\<close>

subsection \<open>Extensions and categories\<close>

definition image_extensions :: "jstr list" where
  "image_extensions = map js [''jpg'', ''jpeg'', ''png'', ''webp'', ''gif'', ''heic'', ''heif'']"

definition office_extensions :: "jstr list" where
  "office_extensions = map js [''docx'', ''pptx'', ''xlsx'']"

definition data_extensions :: "jstr list" where
  "data_extensions = map js [''csv'', ''tsv'', ''json'', ''yaml'', ''yml'', ''toml'', ''xml'', ''ini'',
     ''cfg'', ''conf'', ''properties'', ''env'']"

definition code_extensions :: "jstr list" where
  "code_extensions = map js [''py'', ''js'', ''jsx'', ''mjs'', ''cjs'', ''ts'', ''tsx'', ''mts'', ''cts'',
     ''go'', ''java'', ''sql'', ''c'', ''h'', ''cc'', ''cpp'', ''cxx'', ''hpp'', ''cs'', ''rs'', ''rb'',
     ''php'', ''kt'', ''kts'', ''swift'', ''scala'', ''dart'', ''lua'', ''pl'', ''r'', ''m'', ''sh'',
     ''bash'', ''zsh'', ''fish'', ''ps1'', ''bat'', ''cmd'', ''html'', ''htm'', ''css'', ''scss'',
     ''sass'', ''less'', ''vue'', ''svelte'', ''graphql'', ''gql'', ''proto'', ''tf'', ''hcl'',
     ''gradle'', ''dockerfile'', ''makefile'']"

definition fileExtension :: "(jstr \<Rightarrow> jstr) \<Rightarrow> jstr \<Rightarrow> jstr" where
  "fileExtension lower name =
     (let suffix = last (split_on 46 (js_trim name))
      in if suffix \<noteq> [] \<and> suffix \<noteq> name then lower suffix else [])"

definition categoryForFileName :: "(jstr \<Rightarrow> jstr) \<Rightarrow> jstr \<Rightarrow> jstr" where
  "categoryForFileName lower name =
     (let extension = fileExtension lower name
      in if extension \<in> set image_extensions then js ''image''
         else if extension = js ''pdf'' then js ''pdf''
         else if extension \<in> set office_extensions then js ''office''
         else if extension \<in> set data_extensions then js ''data''
         else if extension \<in> set code_extensions then js ''code''
         else js ''text'')"

definition categoryLimit :: "(jstr \<Rightarrow> jstr) \<Rightarrow> (jstr \<rightharpoonup> int) \<Rightarrow> jstr \<Rightarrow> int option" where
  "categoryLimit lower categoryMaxBytes name =
     (let extension = fileExtension lower name;
          category = categoryForFileName lower name;
          capabilityCategory = (if category = js ''data'' \<or> category = js ''code'' then js ''text'' else category)
      in orelse (categoryMaxBytes extension)
           (orelse (categoryMaxBytes category)
             (orelse (categoryMaxBytes capabilityCategory) (categoryMaxBytes (js ''default'')))))"

definition attachmentWarnings :: "file_attachment \<Rightarrow> jstr list" where
  "attachmentWarnings a = nullish (orelse (fa_warning a) (fa_warnings a)) []"

subsection \<open>Statuses\<close>

fun isUploadInProgress :: "draft_attachment_status \<Rightarrow> bool" where
  "isUploadInProgress Creating = True"
| "isUploadInProgress Uploading = True"
| "isUploadInProgress (Durable s) = (s = FPending \<or> s = FQueued \<or> s = FProcessing)"

definition isUploadReady :: "draft_attachment_status \<Rightarrow> bool" where
  "isUploadReady status = (status = Durable FSucceeded)"

definition failed_status :: "file_upload_status \<Rightarrow> bool" where
  "failed_status s \<longleftrightarrow> s = FRejected \<or> s = FFailed \<or> s = FExpired \<or> s = FCancelled"

fun isUploadFailed :: "draft_attachment_status \<Rightarrow> bool" where
  "isUploadFailed (Durable s) = failed_status s"
| "isUploadFailed _ = False"

fun isPollingStatus :: "draft_attachment_status \<Rightarrow> bool" where
  "isPollingStatus (Durable s) = (s = FPending \<or> s = FQueued \<or> s = FProcessing)"
| "isPollingStatus _ = False"

fun statusLabel :: "draft_attachment_status \<Rightarrow> jstr" where
  "statusLabel Creating = js ''Preparing upload''"
| "statusLabel Uploading = js ''Uploading''"
| "statusLabel (Durable FPending) = js ''Waiting for confirmation''"
| "statusLabel (Durable FQueued) = js ''Queued for processing''"
| "statusLabel (Durable FProcessing) = js ''Scanning and processing''"
| "statusLabel (Durable FSucceeded) = js ''Ready''"
| "statusLabel (Durable FRejected) = js ''Rejected''"
| "statusLabel (Durable FFailed) = js ''Processing failed''"
| "statusLabel (Durable FExpired) = js ''Upload expired''"
| "statusLabel (Durable FCancelled) = js ''Cancelled''"

definition warning_labels :: "(jstr \<times> jstr) list" where
  "warning_labels = map (map_prod js js) [
     (''animated_image_first_frame_only'', ''Only the first frame is shown in the preview.''),
     (''complexity_limit_exceeded'',
      ''The file is available to download, but it is too complex for the model to read.''),
     (''csv_shape_limit_exceeded'',
      ''The CSV shape exceeds the normal analysis limits, but its text remains available to the model.''),
     (''embedded_content_not_extracted'', ''Embedded files or objects were not read by the model.''),
     (''external_links_not_extracted'',
      ''External links were not opened; only visible document text was read.''),
     (''format_corrected'',
      ''The file type was detected from its contents and differs from its extension.''),
     (''no_extractable_text'', ''No readable text was found, so the model cannot read this file.''),
     (''partial_content_not_extracted'', ''Some visual or hidden content was not read by the model.''),
     (''text_encoding_normalized'', ''The text encoding was converted safely for model input.'')]"

definition warningLabel :: "jstr \<Rightarrow> jstr" where
  "warningLabel warning = nullish (map_of warning_labels warning) warning"

text \<open>\<open>draftFromUpload\<close> with the fields of a status record, as both callers pass them.\<close>

definition draftFromUpload :: "draft_attachment \<Rightarrow> file_upload_record \<Rightarrow> draft_attachment" where
  "draftFromUpload draft update =
     (let file = fur_file update
      in draft\<lparr>da_status := Durable (fur_status update), da_error_code := fur_error_code update,
           da_error_message := fur_message update, da_file := file,
           da_name := nullish (map_option fa_name file) (da_name draft),
           da_media_type := nullish (map_option fa_media_type file) (da_media_type draft),
           da_size_bytes := nullish (map_option fa_size_bytes file) (da_size_bytes draft),
           da_category := nullish (map_option fa_category file) (da_category draft)\<rparr>)"

subsection \<open>Pasted text\<close>

definition message_char_limit :: nat where "message_char_limit = 20000"

definition paste_char_threshold :: nat where "paste_char_threshold = 4000"

definition paste_line_threshold :: nat where "paste_line_threshold = 80"

definition countChars :: "jstr \<Rightarrow> nat" where
  "countChars text = code_points text"

text \<open>\<open>text.split(/\r\n|\r|\n/)\<close>.\<close>

fun split_breaks :: "jstr \<Rightarrow> jstr list" where
  "split_breaks [] = [[]]"
| "split_breaks (x # xs) =
     (if x = 13 \<and> xs \<noteq> [] \<and> hd xs = 10 then [] # split_breaks (tl xs)
      else if x = 13 \<or> x = 10 then [] # split_breaks xs
      else (case split_breaks xs of [] \<Rightarrow> [[x]] | l # ls \<Rightarrow> (x # l) # ls))"

definition countLines :: "jstr \<Rightarrow> nat" where
  "countLines text = (if text = [] then 0 else length (split_breaks text))"

definition shouldConvertPaste :: "jstr \<Rightarrow> bool" where
  "shouldConvertPaste text \<longleftrightarrow>
     countChars text \<ge> paste_char_threshold \<or> countLines text \<ge> paste_line_threshold"

definition firstLine :: "jstr \<Rightarrow> jstr" where
  "firstLine text =
     (case List.find (\<lambda>line. js_trim line \<noteq> []) (split_breaks text) of
        None \<Rightarrow> []
      | Some line \<Rightarrow> js_trim line)"

text \<open>\<open>toLocaleString("en-US")\<close> of a count: its digits in groups of three.\<close>

fun group_digits :: "jstr \<Rightarrow> jstr" where
  "group_digits (a # b # c # d # s) = a # b # c # 44 # group_digits (d # s)"
| "group_digits s = s"

definition formatCount :: "nat \<Rightarrow> jstr" where
  "formatCount value = rev (group_digits (rev (digits value)))"

text \<open>
  \<open>Number(PASTED_TEXT_NAME.exec(name)?.[1] ?? 0)\<close>, and the name given to a paste; exact for
  numbers below \<open>2 ^ 53\<close>.
\<close>

definition paste_prefix :: jstr where "paste_prefix = js ''pasted-text-''"

definition paste_suffix :: jstr where "paste_suffix = js ''.txt''"

definition is_digit :: "code_unit \<Rightarrow> bool" where
  "is_digit c \<longleftrightarrow> 48 \<le> c \<and> c \<le> 57"

definition digits_value :: "jstr \<Rightarrow> nat" where
  "digits_value s = foldl (\<lambda>n c. 10 * n + (unat c - 48)) 0 s"

definition paste_number :: "jstr \<Rightarrow> nat" where
  "paste_number name =
     (let n = length name - length paste_prefix - length paste_suffix;
          middle = take n (drop (length paste_prefix) name)
      in if name = paste_prefix @ middle @ paste_suffix \<and> middle \<noteq> [] \<and> list_all is_digit middle
         then digits_value middle else 0)"

definition paste_name :: "nat \<Rightarrow> jstr" where
  "paste_name index = paste_prefix @ digits index @ paste_suffix"

definition next_paste_name :: "draft_attachment list \<Rightarrow> jstr" where
  "next_paste_name attachments =
     (let used = map (\<lambda>a. paste_number (da_name a)) attachments
      in paste_name (fold max used 0 + 1))"

section \<open>Lemmas\<close>

lemma status_classes:
  "\<not> (isUploadInProgress s \<and> isUploadReady s) \<and> \<not> (isUploadInProgress s \<and> isUploadFailed s) \<and>
   \<not> (isUploadReady s \<and> isUploadFailed s) \<and>
   (isUploadInProgress s \<or> isUploadReady s \<or> isUploadFailed s) \<and>
   (isPollingStatus s \<longrightarrow> isUploadInProgress s)"
proof (cases s)
  case (Durable t)
  then show ?thesis by (cases t) (simp_all add: isUploadReady_def failed_status_def)
qed (simp_all add: isUploadReady_def)

lemma digit_word: "d < 10 \<Longrightarrow> is_digit (48 + of_nat d) \<and> unat (48 + of_nat d :: code_unit) - 48 = d"
proof -
  have "list_all (\<lambda>d. is_digit (48 + of_nat d) \<and> unat (48 + of_nat d :: code_unit) - 48 = d) [0..<10]"
    by code_simp
  then show "d < 10 \<Longrightarrow> ?thesis" by (simp add: list_all_iff)
qed

lemma digits_are_digits: "list_all is_digit (digits n) \<and> digits n \<noteq> []"
proof (induction n rule: digits.induct)
  case (1 n)
  then show ?case using digit_word [of n] digit_word [of "n mod 10"] by (subst (1 2) digits.simps) auto
qed

lemma digits_value_digits: "digits_value (digits n) = n"
proof (induction n rule: digits.induct)
  case (1 n)
  show ?case
  proof (cases "n < 10")
    case True
    then show ?thesis using digit_word [of n] by (subst digits.simps) (simp add: digits_value_def)
  next
    case False
    then show ?thesis
      using 1 digit_word [of "n mod 10"] by (subst digits.simps) (simp add: digits_value_def)
  qed
qed

lemma paste_number_name: "paste_number (paste_name n) = n"
  using digits_are_digits [of n]
  by (simp add: paste_number_def paste_name_def digits_value_digits Let_def)

lemma fold_max_ge: "x \<in> set xs \<Longrightarrow> (x :: nat) \<le> fold max xs m"
proof -
  have mono: "m \<le> fold max ys m" for ys and m :: nat
    by (induction ys arbitrary: m) (auto intro: order_trans [OF max.cobounded2])
  show "x \<in> set xs \<Longrightarrow> ?thesis"
    by (induction xs arbitrary: m) (auto intro: order_trans [OF max.cobounded1 mono])
qed

text \<open>A paste gets a name that no attachment of the draft has.\<close>

lemma next_paste_name_fresh: "next_paste_name attachments \<notin> da_name ` set attachments"
proof
  assume "next_paste_name attachments \<in> da_name ` set attachments"
  then obtain a where a: "a \<in> set attachments" "da_name a = next_paste_name attachments" by auto
  then have "paste_number (da_name a) = fold max (map (\<lambda>a. paste_number (da_name a)) attachments) 0 + 1"
    by (simp add: next_paste_name_def paste_number_name Let_def)
  moreover have "paste_number (da_name a) \<le> fold max (map (\<lambda>a. paste_number (da_name a)) attachments) 0"
    using a(1) by (intro fold_max_ge) auto
  ultimately show False by simp
qed

end
