(* ===== verification/Preferences.thy ===== *)
theory Preferences
  imports Local_Storage
begin

text \<open>
  The preferences a run is started with: thinking level (\<open>frontend/src/runs/thinkingLevel.ts\<close>),
  model (\<open>modelPreference.ts\<close>), web search (\<open>webSearchPreference.ts\<close>) and the options they add
  up to (\<open>runOptions.ts\<close>). The module variables \<open>availableModels\<close> and \<open>capabilityEnabled\<close> are
  arguments.
\<close>

section \<open>Definitions\<close>

datatype thinking_level = Low | Medium | High | Xhigh | Max

fun level_string :: "thinking_level \<Rightarrow> jstr" where
  "level_string Low = js ''low''"
| "level_string Medium = js ''medium''"
| "level_string High = js ''high''"
| "level_string Xhigh = js ''xhigh''"
| "level_string Max = js ''max''"

text \<open>\<open>LEVELS\<close>, the values of \<open>THINKING_LEVEL_OPTIONS\<close> in order, and a string read as a level.\<close>

definition thinking_levels :: "thinking_level list" where
  "thinking_levels = [Low, Medium, High, Xhigh, Max]"

definition level_of_string :: "jstr \<Rightarrow> thinking_level option" where
  "level_of_string s = List.find (\<lambda>l. level_string l = s) thinking_levels"

record run_options =
  ro_thinking_enabled :: bool
  ro_reasoning_effort :: thinking_level
  ro_web_search_enabled :: "bool option"
  ro_model :: "jstr option"

definition clampThinkingLevel :: "thinking_level \<Rightarrow> jstr list \<Rightarrow> thinking_level" where
  "clampThinkingLevel level allowedLevels =
     (if length allowedLevels = 0 \<or> level_string level \<in> set allowedLevels then level
      else if js ''high'' \<in> set allowedLevels then High
      else (case level_of_string (hd allowedLevels) of Some first \<Rightarrow> first | None \<Rightarrow> level))"

definition toRunOptions ::
  "thinking_level \<Rightarrow> bool option \<Rightarrow> jstr option \<Rightarrow> run_options"
where
  "toRunOptions level webSearchEnabled model =
     \<lparr>ro_thinking_enabled = True, ro_reasoning_effort = level,
      ro_web_search_enabled = webSearchEnabled, ro_model = model\<rparr>"

definition thinking_level_key :: jstr where
  "thinking_level_key = js ''ichat.thinkingLevel''"

definition legacy_levels :: "(jstr \<times> thinking_level) list" where
  "legacy_levels = [(js ''fast'', Low)]"

text \<open>
  The stored value is one of the levels, the legacy value \<open>fast\<close>, or counts as \<open>low\<close>. (The
  operator \<open>in\<close> also finds the names every object inherits; \<open>save\<close> never stores one.)
\<close>

definition readThinkingLevel :: "storage \<Rightarrow> thinking_level" where
  "readThinkingLevel st =
     (case get_item thinking_level_key st of
        None \<Rightarrow> Low
      | Some raw \<Rightarrow>
          (case level_of_string raw of
             Some level \<Rightarrow> level
           | None \<Rightarrow> nullish (map_of legacy_levels raw) Low))"

definition saveThinkingLevel :: "thinking_level \<Rightarrow> storage \<Rightarrow> storage" where
  "saveThinkingLevel level = set_item thinking_level_key (level_string level)"

definition model_key :: jstr where
  "model_key = js ''ichat.model''"

definition readModel :: "storage \<Rightarrow> jstr option" where
  "readModel = get_item model_key"

definition saveModel :: "jstr \<Rightarrow> storage \<Rightarrow> storage" where
  "saveModel modelId = set_item model_key modelId"

definition find_model :: "jstr option \<Rightarrow> chat_model_capability list \<Rightarrow> chat_model_capability option" where
  "find_model i models = List.find (\<lambda>m. Some (cm_id m) = i) models"

definition first_model :: "chat_model_capability list \<Rightarrow> chat_model_capability option" where
  "first_model models = (case models of [] \<Rightarrow> None | m # _ \<Rightarrow> Some m)"

definition resolveModel :: "chat_model_capability list \<Rightarrow> storage \<Rightarrow> chat_model_capability option" where
  "resolveModel available st =
     (case find_model (readModel st) available of
        Some match \<Rightarrow> Some match
      | None \<Rightarrow> orelse (List.find cm_default available) (first_model available))"

definition requestModel :: "chat_model_capability list \<Rightarrow> storage \<Rightarrow> jstr option" where
  "requestModel available st = map_option cm_id (resolveModel available st)"

definition supportsImages :: "chat_model_capability list \<Rightarrow> jstr option \<Rightarrow> bool" where
  "supportsImages available modelId =
     (case find_model modelId available of None \<Rightarrow> False | Some m \<Rightarrow> cm_supports_image_input m)"

text \<open>Whether a model can go on with a conversation in this image context.\<close>

definition context_compatible :: "image_context_state \<Rightarrow> chat_model_capability \<Rightarrow> bool" where
  "context_compatible state m =
     (if state = VisionRequired then cm_supports_image_input m else \<not> cm_supports_image_input m)"

definition resolveForImageContext ::
  "chat_model_capability list \<Rightarrow> image_context option \<Rightarrow> storage \<Rightarrow> chat_model_capability option"
where
  "resolveForImageContext available context st =
     (case context of
        None \<Rightarrow> resolveModel available st
      | Some ctx \<Rightarrow>
          if ic_state ctx = NoImages then resolveModel available st
          else
            let compatible = filter (context_compatible (ic_state ctx)) available;
                recommended = (if truthy (ic_recommended_model ctx)
                  then find_model (ic_recommended_model ctx) compatible else None)
            in if length compatible = 0 then None
               else (case recommended of
                       Some m \<Rightarrow> Some m
                     | None \<Rightarrow> orelse (find_model (readModel st) compatible) (first_model compatible)))"

definition web_search_key :: jstr where
  "web_search_key = js ''ichat.webSearchEnabled''"

definition readWebSearch :: "storage \<Rightarrow> bool" where
  "readWebSearch st = (get_item web_search_key st = Some (js ''true''))"

definition saveWebSearch :: "bool \<Rightarrow> storage \<Rightarrow> storage" where
  "saveWebSearch enabled =
     set_item web_search_key (if enabled then js ''true'' else js ''false'')"

definition requestEnabled :: "bool \<Rightarrow> storage \<Rightarrow> bool" where
  "requestEnabled capabilityEnabled st = (capabilityEnabled \<and> readWebSearch st)"

definition currentRunOptions ::
  "chat_model_capability list \<Rightarrow> bool \<Rightarrow> jstr option \<Rightarrow> storage \<Rightarrow> run_options"
where
  "currentRunOptions available capabilityEnabled modelId st =
     (let model = (if modelId = None then resolveModel available st else find_model modelId available)
      in toRunOptions
           (clampThinkingLevel (readThinkingLevel st)
              (case model of None \<Rightarrow> [] | Some m \<Rightarrow> cm_thinking_levels m))
           (Some (requestEnabled capabilityEnabled st))
           (orelse modelId (map_option cm_id model)))"

section \<open>Lemmas\<close>

lemma level_of_string_Some: "level_of_string s = Some l \<longleftrightarrow> s = level_string l"
  by (cases l) (auto simp: level_of_string_def thinking_levels_def)

lemma clamp_offered:
  assumes "js ''high'' \<in> set allowed \<or> allowed \<noteq> [] \<and> level_of_string (hd allowed) \<noteq> None"
  shows "level_string (clampThinkingLevel level allowed) \<in> set allowed"
proof (cases "length allowed = 0 \<or> level_string level \<in> set allowed \<or> js ''high'' \<in> set allowed")
  case True
  with assms show ?thesis by (auto simp: clampThinkingLevel_def)
next
  case False
  with assms obtain l where l: "level_of_string (hd allowed) = Some l" "allowed \<noteq> []" by auto
  then have "hd allowed = level_string l" by (simp add: level_of_string_Some)
  then have "level_string l \<in> set allowed" using l(2) by (metis list.set_sel(1))
  with False l show ?thesis by (simp add: clampThinkingLevel_def)
qed

lemma find_model_Some: "find_model i models = Some m \<Longrightarrow> m \<in> set models \<and> Some (cm_id m) = i"
  by (auto simp: find_model_def dest: find_SomeD)

lemma first_model_Some: "first_model models = Some m \<Longrightarrow> m \<in> set models"
  by (auto simp: first_model_def split: list.splits)

lemma resolveModel_Some: "resolveModel available st = Some m \<Longrightarrow> m \<in> set available"
  by (auto simp: resolveModel_def orelse_def split: option.splits
      dest: find_model_Some find_SomeD first_model_Some)

lemma resolveModel_None: "resolveModel available st = None \<longleftrightarrow> available = []"
  by (cases available) (auto simp: resolveModel_def orelse_def find_model_def first_model_def split: option.splits)

section \<open>Properties\<close>

text \<open>
  A request never asks for more than the server offers: the model it names is one of the
  available ones, the thinking level one that this model offers (every model offers \<open>high\<close>), and
  web search is on only when the server has it and the user chose it.
\<close>

theorem run_options_offered:
  assumes "\<forall>m \<in> set available. js ''high'' \<in> set (cm_thinking_levels m)"
    and "available \<noteq> []" and "opts = currentRunOptions available capability None st"
  shows "(\<exists>m \<in> set available. ro_model opts = Some (cm_id m) \<and>
      level_string (ro_reasoning_effort opts) \<in> set (cm_thinking_levels m)) \<and>
    (ro_web_search_enabled opts = Some True \<longleftrightarrow> capability \<and> readWebSearch st)"
proof -
  obtain m where m: "resolveModel available st = Some m"
    using assms(2) resolveModel_None by (cases "resolveModel available st") auto
  then have "m \<in> set available" by (rule resolveModel_Some)
  with m assms show ?thesis
    by (auto simp: currentRunOptions_def toRunOptions_def requestEnabled_def clamp_offered Let_def)
qed

definition demo_model :: "string \<Rightarrow> bool \<Rightarrow> bool \<Rightarrow> chat_model_capability" where
  "demo_model i vision is_default = \<lparr>cm_id = js i, cm_provider = js ''p'', cm_label = js i,
     cm_thinking_levels = [js ''high'', js ''max''], cm_default = is_default,
     cm_supports_image_input = vision\<rparr>"

theorem run_options_offered_witness:
  "\<exists>m \<in> set [demo_model ''a'' False False, demo_model ''b'' True True].
     ro_model (currentRunOptions [demo_model ''a'' False False, demo_model ''b'' True True] True None
        [(thinking_level_key, js ''fast''), (model_key, js ''gone'')]) = Some (cm_id m) \<and>
     level_string (ro_reasoning_effort (currentRunOptions [demo_model ''a'' False False, demo_model ''b'' True True]
        True None [(thinking_level_key, js ''fast''), (model_key, js ''gone'')])) \<in> set (cm_thinking_levels m)"
  using run_options_offered [OF _ _ refl, of "[demo_model ''a'' False False, demo_model ''b'' True True]" True
      "[(thinking_level_key, js ''fast''), (model_key, js ''gone'')]"]
  by (simp add: demo_model_def)

text \<open>
  The saved model wins while the server still offers it, a default is used otherwise; and a
  conversation whose images demand a vision model (or forbid one) is only ever continued with an
  available model of that kind, the recommended one when it is, and with none exactly when there is
  no such model.
\<close>

theorem model_resolution:
  assumes "ic_state ctx \<noteq> NoImages"
  shows "(case resolveForImageContext available (Some ctx) st of
       None \<Rightarrow> list_all (\<lambda>m. \<not> context_compatible (ic_state ctx) m) available
     | Some m \<Rightarrow> m \<in> set available \<and> context_compatible (ic_state ctx) m) \<and>
    (case find_model (readModel st) available of
       Some m \<Rightarrow> resolveModel available st = Some m
     | None \<Rightarrow> (resolveModel available st = None) = (available = []))"
proof -
  let ?ok = "filter (context_compatible (ic_state ctx)) available"
  have "m \<in> set ?ok" if "resolveForImageContext available (Some ctx) st = Some m" for m
    using that assms
    by (auto simp: resolveForImageContext_def orelse_def Let_def split: if_splits option.splits
        dest!: find_model_Some first_model_Some)
  moreover have "?ok = []" if "resolveForImageContext available (Some ctx) st = None"
    using that assms
    by (cases ?ok) (auto simp: resolveForImageContext_def orelse_def Let_def first_model_def
        split: if_splits option.splits)
  moreover have "find_model (readModel st) available = Some m \<Longrightarrow> resolveModel available st = Some m" for m
    by (simp add: resolveModel_def)
  ultimately show ?thesis
    by (auto simp: resolveModel_None list_all_iff filter_empty_conv split: option.splits)
qed

theorem model_resolution_witness:
  "case resolveForImageContext [demo_model ''a'' False False, demo_model ''b'' True True]
      (Some \<lparr>ic_state = VisionRequired, ic_legacy_message_id = None, ic_recommended_model = None\<rparr>)
      [(model_key, js ''a'')] of
     None \<Rightarrow> False | Some m \<Rightarrow> cm_supports_image_input m"
proof -
  let ?models = "[demo_model ''a'' False False, demo_model ''b'' True True]"
  let ?ctx = "\<lparr>ic_state = VisionRequired, ic_legacy_message_id = None, ic_recommended_model = None\<rparr>"
  have "ic_state ?ctx \<noteq> NoImages" by simp
  from model_resolution [OF this, of ?models "[(model_key, js ''a'')]"] show ?thesis
    by (auto simp: context_compatible_def demo_model_def split: option.splits)
qed
end
