(* ===== verification/Api_Endpoints.thy ===== *)
theory Api_Endpoints
  imports Api_Client Preferences
begin

text \<open>
  The endpoints of the backend as the API modules call them: path and request options of every
  function of \<open>createAuthApi\<close>, \<open>createConversationApi\<close>, \<open>createShareApi\<close>, \<open>createRunApi\<close>,
  \<open>createCapabilitiesApi\<close>, \<open>createModelAdminApi\<close> and \<open>createFilesApi\<close> (\<open>frontend/src/api/\<close>). One constructor stands
  for one function; a property that the code leaves out when its argument is \<open>undefined\<close> is left
  out of the body here.

  A path that holds an encoded component is \<open>None\<close> where \<open>encodeURIComponent\<close> throws, on a lone
  surrogate.
\<close>

section \<open>Definitions\<close>

subsection \<open>Encoding a path segment\<close>

definition unreserved :: "code_unit \<Rightarrow> bool" where
  "unreserved c \<longleftrightarrow> (65 \<le> c \<and> c \<le> 90) \<or> (97 \<le> c \<and> c \<le> 122) \<or> (48 \<le> c \<and> c \<le> 57) \<or>
     c \<in> set (js ''-_.!~*()'') \<or> c = 39"

definition hex_digit :: "nat \<Rightarrow> code_unit" where
  "hex_digit n = (if n < 10 then of_nat (48 + n) else of_nat (55 + n))"

definition percent :: "nat \<Rightarrow> jstr" where
  "percent b = [37, hex_digit (b div 16), hex_digit (b mod 16)]"

definition utf8 :: "nat \<Rightarrow> nat list" where
  "utf8 c =
     (if c < 0x80 then [c]
      else if c < 0x800 then [0xC0 + c div 64, 0x80 + c mod 64]
      else if c < 0x10000 then [0xE0 + c div 4096, 0x80 + c div 64 mod 64, 0x80 + c mod 64]
      else [0xF0 + c div 262144, 0x80 + c div 4096 mod 64, 0x80 + c div 64 mod 64, 0x80 + c mod 64])"

definition percent_encoded :: "nat \<Rightarrow> jstr" where
  "percent_encoded c = concat (map percent (utf8 c))"

definition low_surrogate :: "code_unit \<Rightarrow> bool" where
  "low_surrogate c \<longleftrightarrow> 0xDC00 \<le> c \<and> c \<le> 0xDFFF"

definition high_surrogate :: "code_unit \<Rightarrow> bool" where
  "high_surrogate c \<longleftrightarrow> 0xD800 \<le> c \<and> c \<le> 0xDBFF"

fun encodeURIComponent :: "jstr \<Rightarrow> jstr option" where
  "encodeURIComponent [] = Some []"
| "encodeURIComponent (c # s) =
     (if unreserved c then map_option ((#) c) (encodeURIComponent s)
      else if low_surrogate c then None
      else if \<not> high_surrogate c
        then map_option ((@) (percent_encoded (unat c))) (encodeURIComponent s)
      else (case s of
              [] \<Rightarrow> None
            | d # s' \<Rightarrow>
                if low_surrogate d
                then map_option ((@) (percent_encoded
                       (0x10000 + (unat c - 0xD800) * 1024 + (unat d - 0xDC00))))
                     (encodeURIComponent s')
                else None))"

subsection \<open>Accounts\<close>

abbreviation obj :: "(string \<times> json) list \<Rightarrow> json" where
  "obj es \<equiv> JObj (map (\<lambda>(k, v). (js k, v)) es)"

definition with_method :: "string \<Rightarrow> api_request_options" where
  "with_method m = default_options\<lparr>opt_method := Some (js m)\<rparr>"

definition with_body :: "string \<Rightarrow> json \<Rightarrow> api_request_options" where
  "with_body m b = default_options\<lparr>opt_method := Some (js m), opt_body := Some b\<rparr>"

text \<open>\<open>{ ...options, auth: false, retryOnUnauthorized: false }\<close>.\<close>

definition anonymously :: "api_request_options \<Rightarrow> api_request_options" where
  "anonymously options =
     options\<lparr>opt_auth := Some False, opt_retryOnUnauthorized := Some False\<rparr>"

datatype auth_endpoint =
    Register jstr jstr jstr jstr
  | Login jstr jstr
  | Refresh jstr
  | Logout jstr
  | Me
  | VerifyEmail jstr
  | ResendVerificationEmail
  | RequestPasswordReset jstr
  | ResetPassword jstr jstr
  | UpdateProfile jstr
  | ChangePassword jstr jstr
  | RequestAccountDeletion jstr
  | ConfirmAccountDeletion jstr

fun auth_request :: "auth_endpoint \<Rightarrow> jstr \<times> api_request_options" where
  "auth_request (Register username nickname email password) =
     (js ''/auth/register'', anonymously (with_body ''POST'' (obj [(''username'', JStr username),
        (''nickname'', JStr nickname), (''email'', JStr email), (''password'', JStr password)])))"
| "auth_request (Login identifier password) =
     (js ''/auth/login'', anonymously (with_body ''POST''
        (obj [(''identifier'', JStr identifier), (''password'', JStr password)])))"
| "auth_request (Refresh refreshToken) = (js ''/auth/refresh'', refresh_options refreshToken)"
| "auth_request (Logout refreshToken) =
     (js ''/auth/logout'',
      anonymously (with_body ''POST'' (obj [(''refresh_token'', JStr refreshToken)])))"
| "auth_request Me = (js ''/auth/me'', with_method ''GET'')"
| "auth_request (VerifyEmail token) =
     (js ''/auth/verify-email'', anonymously (with_body ''POST'' (obj [(''token'', JStr token)])))"
| "auth_request ResendVerificationEmail =
     (js ''/auth/resend-verification-email'', with_method ''POST'')"
| "auth_request (RequestPasswordReset email) =
     (js ''/auth/request-password-reset'',
      anonymously (with_body ''POST'' (obj [(''email'', JStr email)])))"
| "auth_request (ResetPassword token newPassword) =
     (js ''/auth/reset-password'', anonymously (with_body ''POST''
        (obj [(''token'', JStr token), (''new_password'', JStr newPassword)])))"
| "auth_request (UpdateProfile nickname) =
     (js ''/auth/me'', with_body ''PATCH'' (obj [(''nickname'', JStr nickname)]))"
| "auth_request (ChangePassword currentPassword newPassword) =
     (js ''/auth/change-password'', with_body ''POST''
        (obj [(''current_password'', JStr currentPassword), (''new_password'', JStr newPassword)]))"
| "auth_request (RequestAccountDeletion password) =
     (js ''/auth/request-account-deletion'', with_body ''POST'' (obj [(''password'', JStr password)]))"
| "auth_request (ConfirmAccountDeletion token) =
     (js ''/auth/confirm-account-deletion'',
      anonymously (with_body ''POST'' (obj [(''token'', JStr token)])))"

subsection \<open>Conversations and runs\<close>

datatype list_view = Recent | Pinned | Favorites

record list_params =
  lp_limit :: "int option"
  lp_skip :: "int option"
  lp_view :: "list_view option"

fun view_text :: "list_view \<Rightarrow> jstr" where
  "view_text Recent = js ''recent''"
| "view_text Pinned = js ''pinned''"
| "view_text Favorites = js ''favorites''"

datatype conversation_endpoint =
    SearchConversations jstr "jstr option"
  | ListConversations "list_params option"
  | CreateConversation "jstr option"
  | CreateWithMessage jstr "run_options option" "jstr option" "jstr list option"
  | ConversationDetail jstr
  | RenameConversation jstr jstr
  | SetPinned jstr bool
  | SetFavorited jstr bool
  | RemoveConversation jstr
  | SendMessage jstr jstr "run_options option" "jstr list option" "json option"
  | EditAndRegenerate jstr jstr jstr "run_options option" "jstr list option"
  | Regenerate jstr jstr "run_options option"

text \<open>The properties of a \<open>RunOptionsRequest\<close>, those that are present.\<close>

definition run_options_entries :: "run_options option \<Rightarrow> (jstr \<times> json) list" where
  "run_options_entries options =
     (case options of
        None \<Rightarrow> []
      | Some r \<Rightarrow>
          [(js ''thinking_enabled'', JBool (ro_thinking_enabled r)),
           (js ''reasoning_effort'', JStr (level_string (ro_reasoning_effort r)))] @
          (case ro_web_search_enabled r of
             None \<Rightarrow> [] | Some b \<Rightarrow> [(js ''web_search_enabled'', JBool b)]) @
          (case ro_model r of None \<Rightarrow> [] | Some i \<Rightarrow> [(js ''model'', JStr i)]))"

definition attachment_entries :: "jstr list option \<Rightarrow> (jstr \<times> json) list" where
  "attachment_entries ids =
     (case ids of None \<Rightarrow> [] | Some is \<Rightarrow> [(js ''attachment_ids'', JArr (map JStr is))])"

definition json_or_null :: "jstr option \<Rightarrow> json" where
  "json_or_null x = (case x of None \<Rightarrow> JNull | Some s \<Rightarrow> JStr s)"

definition query_of :: "('a \<Rightarrow> query_value) \<Rightarrow> 'a option \<Rightarrow> query_value" where
  "query_of f x = (case x of None \<Rightarrow> QAbsent | Some v \<Rightarrow> f v)"

definition mark_method :: "bool \<Rightarrow> api_request_options" where
  "mark_method b = with_method (if b then ''PUT'' else ''DELETE'')"

fun conversation_request :: "conversation_endpoint \<Rightarrow> jstr \<times> api_request_options" where
  "conversation_request (SearchConversations q cursor) =
     (js ''/conversations/search'',
      default_options\<lparr>opt_query := [(js ''q'', QText q), (js ''cursor'', query_of QText cursor)]\<rparr>)"
| "conversation_request (ListConversations params) =
     (js ''/conversations'',
      (case params of
         None \<Rightarrow> default_options
       | Some p \<Rightarrow> default_options\<lparr>opt_query :=
           [(js ''limit'', query_of QNumber (lp_limit p)), (js ''skip'', query_of QNumber (lp_skip p)),
            (js ''view'', query_of (\<lambda>v. QText (view_text v)) (lp_view p))]\<rparr>))"
| "conversation_request (CreateConversation title) =
     (js ''/conversations'', with_body ''POST'' (obj [(''title'', json_or_null title)]))"
| "conversation_request (CreateWithMessage content options title attachmentIds) =
     (js ''/conversations/with-message'', with_body ''POST''
        (JObj ([(js ''title'', json_or_null title), (js ''content'', JStr content)] @
           run_options_entries options @ attachment_entries attachmentIds)))"
| "conversation_request (ConversationDetail i) = (js ''/conversations/'' @ i, default_options)"
| "conversation_request (RenameConversation i title) =
     (js ''/conversations/'' @ i, with_body ''PATCH'' (obj [(''title'', JStr title)]))"
| "conversation_request (SetPinned i pinned) =
     (js ''/conversations/'' @ i @ js ''/pin'', mark_method pinned)"
| "conversation_request (SetFavorited i favorited) =
     (js ''/conversations/'' @ i @ js ''/favorite'', mark_method favorited)"
| "conversation_request (RemoveConversation i) =
     (js ''/conversations/'' @ i, with_method ''DELETE'')"
| "conversation_request (SendMessage i content options attachmentIds replyQuote) =
     (js ''/conversations/'' @ i @ js ''/messages'', with_body ''POST''
        (JObj ([(js ''content'', JStr content)] @ run_options_entries options @
           attachment_entries attachmentIds @
           (case replyQuote of None \<Rightarrow> [] | Some q \<Rightarrow> [(js ''reply_quote'', q)]))))"
| "conversation_request (EditAndRegenerate i messageId content options attachmentIds) =
     (js ''/conversations/'' @ i @ js ''/messages/'' @ messageId @ js ''/edit-and-regenerate'',
      with_body ''POST'' (JObj ([(js ''content'', JStr content)] @ run_options_entries options @
        attachment_entries attachmentIds)))"
| "conversation_request (Regenerate i messageId options) =
     (js ''/conversations/'' @ i @ js ''/messages/'' @ messageId @ js ''/regenerate'',
      (case options of
         None \<Rightarrow> with_method ''POST''
       | Some r \<Rightarrow> with_body ''POST'' (JObj (run_options_entries (Some r)))))"

datatype run_endpoint = RunState jstr | RunCancel jstr | RunEvents jstr int

fun run_request :: "run_endpoint \<Rightarrow> jstr \<times> api_request_options" where
  "run_request (RunState runId) = (js ''/runs/'' @ runId @ js ''/state'', default_options)"
| "run_request (RunCancel runId) = (js ''/runs/'' @ runId @ js ''/cancel'', with_method ''POST'')"
| "run_request (RunEvents runId afterSeq) =
     (js ''/runs/'' @ runId @ js ''/events'',
      default_options\<lparr>opt_query := [(js ''after_seq'', QNumber afterSeq)],
        opt_headers := [(js ''Accept'', js ''text/event-stream'')]\<rparr>)"

definition capabilities_request :: "jstr \<times> api_request_options" where
  "capabilities_request = (js ''/capabilities'', default_options)"

subsection \<open>Shares\<close>

datatype read_role = Preview | Download

fun role_text :: "read_role \<Rightarrow> jstr" where
  "role_text Preview = js ''preview''"
| "role_text Download = js ''download''"

datatype share_endpoint =
    CreateShare jstr "int option" "bool option"
  | ListShares jstr
  | ListMyShares
  | RevokeShare jstr jstr
  | PublicShare jstr
  | ShareAttachment jstr jstr read_role
  | ShareAttachmentText jstr jstr

fun share_request :: "share_endpoint \<Rightarrow> (jstr \<times> api_request_options) option" where
  "share_request (CreateShare i expiresInDays confirmPrivacy) =
     Some (js ''/conversations/'' @ i @ js ''/shares'', with_body ''POST''
       (JObj ([(js ''expires_in_days'', case expiresInDays of None \<Rightarrow> JNull | Some n \<Rightarrow> JNum n)] @
          (case confirmPrivacy of
             None \<Rightarrow> [] | Some b \<Rightarrow> [(js ''confirm_attachment_privacy'', JBool b)]))))"
| "share_request (ListShares i) = Some (js ''/conversations/'' @ i @ js ''/shares'', default_options)"
| "share_request ListMyShares = Some (js ''/shares'', default_options)"
| "share_request (RevokeShare i token) =
     Some (js ''/conversations/'' @ i @ js ''/shares/'' @ token, with_method ''DELETE'')"
| "share_request (PublicShare token) = Some (js ''/share/'' @ token, anonymously default_options)"
| "share_request (ShareAttachment token ref role) =
     map_option (\<lambda>r. (js ''/share/'' @ token @ js ''/attachments/'' @ r @ js ''/read-url'',
       anonymously (with_body ''POST'' (obj [(''role'', JStr (role_text role))]))))
       (encodeURIComponent ref)"
| "share_request (ShareAttachmentText token ref) =
     map_option (\<lambda>r. (js ''/share/'' @ token @ js ''/attachments/'' @ r @ js ''/text'',
       anonymously (with_method ''POST''))) (encodeURIComponent ref)"

subsection \<open>The model console\<close>

definition managementOptions :: "jstr \<Rightarrow> api_request_options \<Rightarrow> api_request_options" where
  "managementOptions accessKey options =
     (anonymously options)\<lparr>opt_headers :=
       AList.update (js ''X-Model-Admin-Key'') accessKey (opt_headers options)\<rparr>"

record route_identity =
  ri_model_key :: jstr
  ri_upstream_key :: jstr
  ri_upstream_model :: jstr

definition route_entries :: "route_identity \<Rightarrow> (jstr \<times> json) list" where
  "route_entries r = [(js ''model_key'', JStr (ri_model_key r)),
     (js ''upstream_key'', JStr (ri_upstream_key r)),
     (js ''upstream_model'', JStr (ri_upstream_model r))]"

datatype admin_endpoint =
    GetCatalog
  | UpsertModel jstr json
  | SetModelEnabled jstr bool
  | UpsertUpstream jstr json
  | SetUpstreamEnabled jstr bool
  | UpsertRoute json
  | SetRouteEnabled route_identity bool
  | SetCatalogEnabled bool
  | ImportEnvironment bool
  | ArchiveModel jstr
  | ArchiveUpstream jstr
  | ArchiveRoute route_identity
  | RestoreArchived jstr

text \<open>A path with one encoded component.\<close>

definition encoded_path :: "string \<Rightarrow> jstr \<Rightarrow> string \<Rightarrow> jstr option" where
  "encoded_path before component after =
     map_option (\<lambda>x. js before @ x @ js after) (encodeURIComponent component)"

fun admin_path :: "admin_endpoint \<Rightarrow> jstr option" where
  "admin_path GetCatalog = Some (js ''/model-admin'')"
| "admin_path (UpsertModel k _) = encoded_path ''/model-admin/models/'' k []"
| "admin_path (SetModelEnabled k _) = encoded_path ''/model-admin/models/'' k ''/enabled''"
| "admin_path (UpsertUpstream k _) = encoded_path ''/model-admin/upstreams/'' k []"
| "admin_path (SetUpstreamEnabled k _) = encoded_path ''/model-admin/upstreams/'' k ''/enabled''"
| "admin_path (UpsertRoute _) = Some (js ''/model-admin/routes'')"
| "admin_path (SetRouteEnabled _ _) = Some (js ''/model-admin/routes/enabled'')"
| "admin_path (SetCatalogEnabled _) = Some (js ''/model-admin/catalog'')"
| "admin_path (ImportEnvironment _) = Some (js ''/model-admin/import-env'')"
| "admin_path (ArchiveModel k) = encoded_path ''/model-admin/models/'' k ''/archived''"
| "admin_path (ArchiveUpstream k) = encoded_path ''/model-admin/upstreams/'' k ''/archived''"
| "admin_path (ArchiveRoute _) = Some (js ''/model-admin/routes/archived'')"
| "admin_path (RestoreArchived ref) = encoded_path ''/model-admin/archive/'' ref ''/restore''"

fun admin_options :: "admin_endpoint \<Rightarrow> api_request_options" where
  "admin_options GetCatalog = default_options"
| "admin_options (UpsertModel _ body) = with_body ''PUT'' body"
| "admin_options (SetModelEnabled _ b) = with_body ''PATCH'' (obj [(''enabled'', JBool b)])"
| "admin_options (UpsertUpstream _ body) = with_body ''PUT'' body"
| "admin_options (SetUpstreamEnabled _ b) = with_body ''PATCH'' (obj [(''enabled'', JBool b)])"
| "admin_options (UpsertRoute body) = with_body ''PUT'' body"
| "admin_options (SetRouteEnabled r b) =
     with_body ''PATCH'' (JObj (route_entries r @ [(js ''enabled'', JBool b)]))"
| "admin_options (SetCatalogEnabled b) = with_body ''PATCH'' (obj [(''database_enabled'', JBool b)])"
| "admin_options (ImportEnvironment b) = with_body ''POST'' (obj [(''activate'', JBool b)])"
| "admin_options (ArchiveModel _) = with_body ''PATCH'' (obj [(''archived'', JBool True)])"
| "admin_options (ArchiveUpstream _) = with_body ''PATCH'' (obj [(''archived'', JBool True)])"
| "admin_options (ArchiveRoute r) =
     with_body ''PATCH'' (JObj (route_entries r @ [(js ''archived'', JBool True)]))"
| "admin_options (RestoreArchived _) = with_method ''POST''"

definition admin_request :: "jstr \<Rightarrow> admin_endpoint \<Rightarrow> (jstr \<times> api_request_options) option" where
  "admin_request accessKey e =
     map_option (\<lambda>p. (p, managementOptions accessKey (admin_options e))) (admin_path e)"

subsection \<open>Files\<close>

text \<open>\<open>UploadConfirmation\<close>: the tag of the whole object, or of each part.\<close>

datatype upload_confirmation = EtagOf jstr | PartsOf "(int \<times> jstr) list"

fun confirmation_json :: "upload_confirmation \<Rightarrow> json" where
  "confirmation_json (EtagOf etag) = obj [(''etag'', JStr etag)]"
| "confirmation_json (PartsOf parts) = obj [(''parts'', JArr (map (\<lambda>(n, etag).
     obj [(''part_number'', JNum n), (''etag'', JStr etag)]) parts))]"

record create_upload =
  cu_filename :: jstr
  cu_content_type :: jstr
  cu_size_bytes :: int
  cu_multipart_supported :: "bool option"
  cu_origin :: "attachment_origin option"

fun origin_text :: "attachment_origin \<Rightarrow> jstr" where
  "origin_text Upload = js ''upload''"
| "origin_text Paste = js ''paste''"

datatype file_endpoint =
    CreateUpload create_upload
  | ConfirmUpload jstr upload_confirmation
  | UploadStatus "jstr list"
  | CancelUpload jstr
  | CancelUploads "jstr list"
  | ReadUrl jstr read_role
  | ReadText jstr

fun file_request :: "file_endpoint \<Rightarrow> jstr \<times> api_request_options" where
  "file_request (CreateUpload body) =
     (js ''/files/uploads'', with_body ''POST'' (JObj
        ([(js ''filename'', JStr (cu_filename body)), (js ''content_type'', JStr (cu_content_type body)),
          (js ''size_bytes'', JNum (cu_size_bytes body))] @
         (case cu_origin body of None \<Rightarrow> [] | Some origin \<Rightarrow> [(js ''origin'', JStr (origin_text origin))]) @
         [(js ''multipart_supported'', JBool (nullish (cu_multipart_supported body) True))])))"
| "file_request (ConfirmUpload uploadId confirmation) =
     (js ''/files/uploads/'' @ uploadId @ js ''/confirm'',
      with_body ''POST'' (confirmation_json confirmation))"
| "file_request (UploadStatus uploadIds) =
     (js ''/files/uploads/status'',
      with_body ''POST'' (obj [(''upload_ids'', JArr (map JStr uploadIds))]))"
| "file_request (CancelUpload uploadId) = (js ''/files/uploads/'' @ uploadId, with_method ''DELETE'')"
| "file_request (CancelUploads uploadIds) =
     (js ''/files/uploads/cancel'',
      with_body ''POST'' (obj [(''upload_ids'', JArr (map JStr uploadIds))]))"
| "file_request (ReadUrl fileId role) =
     (js ''/files/'' @ fileId @ js ''/read-url'', with_body ''POST'' (obj [(''role'', JStr (role_text role))]))"
| "file_request (ReadText fileId) = (js ''/files/'' @ fileId @ js ''/text'', with_method ''POST'')"

subsection \<open>All endpoints\<close>

datatype endpoint =
    AuthE auth_endpoint
  | ConversationE conversation_endpoint
  | RunE run_endpoint
  | CapabilitiesE
  | ShareE share_endpoint
  | AdminE jstr admin_endpoint
  | FileE file_endpoint

fun endpoint_request :: "endpoint \<Rightarrow> (jstr \<times> api_request_options) option" where
  "endpoint_request (AuthE e) = Some (auth_request e)"
| "endpoint_request (ConversationE e) = Some (conversation_request e)"
| "endpoint_request (RunE e) = Some (run_request e)"
| "endpoint_request CapabilitiesE = Some capabilities_request"
| "endpoint_request (ShareE e) = share_request e"
| "endpoint_request (AdminE accessKey e) = admin_request accessKey e"
| "endpoint_request (FileE e) = Some (file_request e)"

section \<open>Lemmas\<close>

text \<open>
  Which endpoints the user's credentials belong to: those that act on the account once it exists,
  on the user's conversations, runs, files and shares.
\<close>

fun uses_session :: "endpoint \<Rightarrow> bool" where
  "uses_session (AuthE e) =
     (case e of Me \<Rightarrow> True | ResendVerificationEmail \<Rightarrow> True | UpdateProfile _ \<Rightarrow> True
      | ChangePassword _ _ \<Rightarrow> True | RequestAccountDeletion _ \<Rightarrow> True | _ \<Rightarrow> False)"
| "uses_session (ShareE e) =
     (case e of PublicShare _ \<Rightarrow> False | ShareAttachment _ _ _ \<Rightarrow> False
      | ShareAttachmentText _ _ \<Rightarrow> False | _ \<Rightarrow> True)"
| "uses_session (AdminE _ _) = False"
| "uses_session _ = True"

lemmas option_builders = with_method_def with_body_def mark_method_def anonymously_def
  refresh_options_def default_options_def managementOptions_def capabilities_request_def

lemma auth_request_auth:
  "opt_auth (snd (auth_request e)) = (if uses_session (AuthE e) then None else Some False)"
  "opt_headers (snd (auth_request e)) = []"
  by (cases e; simp add: option_builders)+

lemma conversation_request_auth:
  "opt_auth (snd (conversation_request e)) = None" "opt_headers (snd (conversation_request e)) = []"
  by (cases e; simp add: option_builders split: option.splits)+

lemma run_request_auth:
  "opt_auth (snd (run_request e)) = None"
  "js ''Authorization'' \<notin> fst ` set (opt_headers (snd (run_request e)))"
  by (cases e; simp add: option_builders)+

lemma file_request_auth:
  "opt_auth (snd (file_request e)) = None" "opt_headers (snd (file_request e)) = []"
  by (cases e; simp add: option_builders)+

lemma share_request_auth:
  "share_request e = Some (p, opts) \<Longrightarrow>
     opt_auth opts = (if uses_session (ShareE e) then None else Some False) \<and> opt_headers opts = []"
  by (cases e) (auto simp: option_builders)

lemma admin_options_headers [simp]: "opt_headers (admin_options e) = []"
  by (cases e) (simp_all add: option_builders)

lemma endpoint_auth:
  assumes "endpoint_request e = Some (p, opts)"
  shows "opt_auth opts = (if uses_session e then None else Some False) \<and>
    js ''Authorization'' \<notin> fst ` set (opt_headers opts)"
proof (cases e)
  case (AuthE x)
  then show ?thesis using assms auth_request_auth [of x] by auto
next
  case (ConversationE x)
  then show ?thesis using assms conversation_request_auth [of x] by auto
next
  case (RunE x)
  then show ?thesis using assms run_request_auth [of x] by auto
next
  case (ShareE x)
  then show ?thesis using assms share_request_auth [of x] by auto
next
  case (AdminE k x)
  then show ?thesis
    using assms by (auto simp: admin_request_def managementOptions_def anonymously_def)
next
  case (FileE x)
  then show ?thesis using assms file_request_auth [of x] by auto
qed (use assms in \<open>auto simp: option_builders\<close>)

lemma hex_digit_unreserved: "n < 16 \<Longrightarrow> unreserved (hex_digit n)"
proof -
  have "list_all (\<lambda>n. unreserved (hex_digit n)) [0..<16]" by code_simp
  then show "n < 16 \<Longrightarrow> ?thesis" by (simp add: list_all_iff)
qed

lemma percent_safe: "b < 256 \<Longrightarrow> c \<in> set (percent b) \<Longrightarrow> unreserved c \<or> c = 37"
  by (auto simp: percent_def hex_digit_unreserved)

lemma utf8_bytes: "c < 0x110000 \<Longrightarrow> b \<in> set (utf8 c) \<Longrightarrow> b < 256"
  by (auto simp: utf8_def split: if_splits)

lemma percent_encoded_safe:
  "n < 0x110000 \<Longrightarrow> c \<in> set (percent_encoded n) \<Longrightarrow> unreserved c \<or> c = 37"
  using utf8_bytes [of n] percent_safe by (auto simp: percent_encoded_def)

lemma surrogate_pair_bound:
  assumes "high_surrogate c" and "low_surrogate d"
  shows "0x10000 + (unat c - 0xD800) * 1024 + (unat d - 0xDC00) < 0x110000"
proof -
  have "unat c \<le> unat (0xDBFF :: code_unit)" "unat d \<le> unat (0xDFFF :: code_unit)"
    using assms by (auto simp: high_surrogate_def low_surrogate_def word_le_nat_alt)
  then have "unat c \<le> 0xDBFF" "unat d \<le> 0xDFFF" by simp_all
  then show ?thesis by linarith
qed

lemma encodeURIComponent_safe:
  "encodeURIComponent s = Some t \<Longrightarrow> c \<in> set t \<Longrightarrow> unreserved c \<or> c = 37"
proof (induction s arbitrary: t rule: encodeURIComponent.induct)
  case 1
  then show ?case by simp
next
  case (2 x s)
  have "unat x < 2 ^ LENGTH(16)" by (rule unsigned_less)
  then have small: "unat x < 0x110000" by simp
  show ?case
  proof (cases "unreserved x \<or> low_surrogate x \<or> \<not> high_surrogate x")
    case True
    with 2 small show ?thesis
      by (auto split: if_splits dest: percent_encoded_safe)
  next
    case False
    with 2 obtain d s' where s: "s = d # s'" "low_surrogate d"
      by (auto split: list.splits if_splits)
    with False 2 percent_encoded_safe [OF surrogate_pair_bound [of x d], of c] show ?thesis
      by auto
  qed
qed

section \<open>Properties\<close>



text \<open>
  An encoded component stays inside its path segment: whatever the key of a model or an
  attachment reference holds, its encoding has no slash, question mark or hash and so cannot
  address another endpoint.
\<close>

lemma encoded_component_stays_in_segment:
  assumes "encodeURIComponent s = Some t"
  shows "47 \<notin> set t \<and> 63 \<notin> set t \<and> 35 \<notin> set t"
  using encodeURIComponent_safe [OF assms, of 47] encodeURIComponent_safe [OF assms, of 63]
    encodeURIComponent_safe [OF assms, of 35]
  by (auto simp: unreserved_def js_def)

end
