(* ===== verification/Multipart_Upload.thy ===== *)
theory Multipart_Upload
  imports Api_Endpoints "HOL-Library.Multiset"
begin

text \<open>
  Direct upload to storage: \<open>putFileToUpload\<close> and \<open>putMultipartFile\<close>
  (\<open>frontend/src/api/files.ts\<close>).

  A file is its bytes. The multipart upload is a pool of up to three workers that share a cursor;
  each is an asynchronous loop, cut here at its \<open>await\<close>s, and the step relation interleaves them
  in every way: a \<open>put\<close> may settle, a delay may elapse, a progress event may arrive, the signal may
  be aborted at any time.

  \<open>put\<close> is injected and stands for the storage service: \<open>answer i a\<close> is the outcome of attempt
  \<open>a\<close> on part \<open>i\<close> and is arbitrary. The length of a delay (with its random jitter) does not
  matter to the order in which steps may happen.
\<close>

section \<open>Definitions\<close>

subsection \<open>One request\<close>

type_synonym blob = "8 word list"

record put_request =
  pr_url :: jstr
  pr_headers :: "(jstr \<times> jstr) list"
  pr_body :: blob

datatype put_outcome = PutResponse bool "jstr option" | PutAborted | PutThrew

datatype upload_error =
  NoUploadUrl | StorageUnreachable | UploadRejected | NoConfirmation | InvalidPlan | PartFailed | UploadAborted

definition single_request :: "file_upload_session \<Rightarrow> blob \<Rightarrow> upload_error + put_request" where
  "single_request session file =
     (if \<not> truthy (fus_upload_url session) then Inl NoUploadUrl
      else Inr \<lparr>pr_url = the (fus_upload_url session), pr_headers = fus_upload_headers session,
             pr_body = file\<rparr>)"

definition single_result :: "put_outcome \<Rightarrow> upload_error + upload_confirmation" where
  "single_result outcome =
     (case outcome of
        PutAborted \<Rightarrow> Inl UploadAborted
      | PutThrew \<Rightarrow> Inl StorageUnreachable
      | PutResponse ok etag \<Rightarrow>
          if \<not> ok then Inl UploadRejected
          else if \<not> truthy etag then Inl NoConfirmation
          else Inr (EtagOf (the etag)))"

subsection \<open>The plan\<close>

record multipart_plan =
  pl_parts :: "upload_part list"
  pl_partSize :: nat
  pl_file :: blob

definition multipart_plan_of :: "file_upload_session \<Rightarrow> blob \<Rightarrow> upload_error + multipart_plan" where
  "multipart_plan_of session file =
     (let parts = nullish (fus_upload_parts session) []; partSize = nullish (fus_part_size_bytes session) 0
      in if length parts = 0 \<or> partSize < 5 * 1024 * 1024 then Inl InvalidPlan
         else Inr \<lparr>pl_parts = parts, pl_partSize = partSize, pl_file = file\<rparr>)"

definition file_slice :: "nat \<Rightarrow> nat \<Rightarrow> blob \<Rightarrow> blob" where
  "file_slice a b file = take (b - a) (drop a file)"

definition part_body :: "multipart_plan \<Rightarrow> nat \<Rightarrow> blob" where
  "part_body plan index =
     (let start = index * pl_partSize plan
      in file_slice start (min (start + pl_partSize plan) (length (pl_file plan))) (pl_file plan))"

definition part_request :: "multipart_plan \<Rightarrow> nat \<Rightarrow> put_request" where
  "part_request plan index =
     (let part = pl_parts plan ! index
      in \<lparr>pr_url = up_upload_url part, pr_headers = up_upload_headers part, pr_body = part_body plan index\<rparr>)"

subsection \<open>The workers\<close>

definition multipart_concurrency :: nat where "multipart_concurrency = 3"

definition multipart_attempts :: nat where "multipart_attempts = 3"

text \<open>Where the loop of a worker stands: part and attempt of the delay or request it awaits.\<close>

datatype worker = Waiting nat nat | Putting nat nat | Finished | Threw upload_error

record multipart_state =
  ms_cursor :: nat
  ms_completed :: "(int \<times> jstr) list"
  ms_partLoaded :: "nat list"
  ms_progress :: "nat list"
  ms_sent :: "nat list"
  ms_workers :: "worker list"
  ms_aborted :: bool

abbreviation set_worker :: "nat \<Rightarrow> worker \<Rightarrow> multipart_state \<Rightarrow> multipart_state" where
  "set_worker w st s \<equiv> s\<lparr>ms_workers := (ms_workers s)[w := st]\<rparr>"

text \<open>\<open>ms_progress\<close> collects the values given to \<open>onProgress\<close>.\<close>

definition report_progress :: "multipart_plan \<Rightarrow> nat \<Rightarrow> nat \<Rightarrow> multipart_state \<Rightarrow> multipart_state" where
  "report_progress plan index loaded s =
     (let partLoaded = (ms_partLoaded s)[index := loaded]
      in s\<lparr>ms_partLoaded := partLoaded,
           ms_progress := ms_progress s @ [min (sum_list partLoaded) (length (pl_file plan))]\<rparr>)"

definition send_put :: "nat \<Rightarrow> nat \<Rightarrow> nat \<Rightarrow> multipart_state \<Rightarrow> multipart_state" where
  "send_put w index attempt s = set_worker w (Putting index attempt) (s\<lparr>ms_sent := ms_sent s @ [index]\<rparr>)"

text \<open>The head of the loop over attempts.\<close>

definition begin_attempt ::
  "multipart_plan \<Rightarrow> nat \<Rightarrow> nat \<Rightarrow> nat \<Rightarrow> multipart_state \<Rightarrow> multipart_state"
where
  "begin_attempt plan w index attempt s =
     (if ms_aborted s then set_worker w (Threw UploadAborted) s
      else if attempt > 0 then set_worker w (Waiting index attempt) (report_progress plan index 0 s)
      else send_put w index attempt s)"

text \<open>The head of the loop over parts.\<close>

definition take_part :: "multipart_plan \<Rightarrow> nat \<Rightarrow> multipart_state \<Rightarrow> multipart_state" where
  "take_part plan w s =
     (if ms_cursor s < length (pl_parts plan)
      then begin_attempt plan w (ms_cursor s) 0 (s\<lparr>ms_cursor := Suc (ms_cursor s)\<rparr>)
      else set_worker w Finished s)"

definition retry_part :: "multipart_plan \<Rightarrow> nat \<Rightarrow> nat \<Rightarrow> nat \<Rightarrow> multipart_state \<Rightarrow> multipart_state" where
  "retry_part plan w index attempt s =
     (if Suc attempt < multipart_attempts then begin_attempt plan w index (Suc attempt) s
      else set_worker w (Threw PartFailed) s)"

definition complete_part ::
  "multipart_plan \<Rightarrow> nat \<Rightarrow> nat \<Rightarrow> jstr \<Rightarrow> multipart_state \<Rightarrow> multipart_state"
where
  "complete_part plan w index etag s =
     (let s1 = report_progress plan index (length (part_body plan index)) s
      in take_part plan w
           (s1\<lparr>ms_completed := ms_completed s1 @ [(up_part_number (pl_parts plan ! index), etag)]\<rparr>))"

text \<open>The tag of an outcome that the loop accepts.\<close>

definition accepted_tag :: "put_outcome \<Rightarrow> jstr option" where
  "accepted_tag outcome =
     (case outcome of PutResponse ok etag \<Rightarrow> if ok \<and> truthy etag then etag else None | _ \<Rightarrow> None)"

definition on_put ::
  "multipart_plan \<Rightarrow> nat \<Rightarrow> nat \<Rightarrow> nat \<Rightarrow> put_outcome \<Rightarrow> multipart_state \<Rightarrow> multipart_state"
where
  "on_put plan w index attempt outcome s =
     (if outcome = PutAborted then set_worker w (Threw UploadAborted) s
      else (case accepted_tag outcome of
              Some etag \<Rightarrow> complete_part plan w index etag s
            | None \<Rightarrow> retry_part plan w index attempt s))"

definition multipart_start :: "multipart_plan \<Rightarrow> bool \<Rightarrow> multipart_state" where
  "multipart_start plan aborted =
     (let workers = min multipart_concurrency (length (pl_parts plan))
      in fold (take_part plan) [0..<workers]
           \<lparr>ms_cursor = 0, ms_completed = [], ms_partLoaded = replicate (length (pl_parts plan)) 0,
            ms_progress = [], ms_sent = [], ms_workers = replicate workers Finished, ms_aborted = aborted\<rparr>)"

text \<open>A step that settles what a worker awaits.\<close>

inductive settle_step ::
  "multipart_plan \<Rightarrow> (nat \<Rightarrow> nat \<Rightarrow> put_outcome) \<Rightarrow> multipart_state \<Rightarrow> multipart_state \<Rightarrow> bool"
  for plan answer
where
  Answered: "w < length (ms_workers s) \<Longrightarrow> ms_workers s ! w = Putting i a \<Longrightarrow>
    settle_step plan answer s (on_put plan w i a (answer i a) s)"
| Elapsed: "w < length (ms_workers s) \<Longrightarrow> ms_workers s ! w = Waiting i a \<Longrightarrow>
    settle_step plan answer s (send_put w i a s)"
| Aborted_put: "w < length (ms_workers s) \<Longrightarrow> ms_workers s ! w = Putting i a \<Longrightarrow> ms_aborted s \<Longrightarrow>
    settle_step plan answer s (on_put plan w i a PutAborted s)"
| Aborted_wait: "w < length (ms_workers s) \<Longrightarrow> ms_workers s ! w = Waiting i a \<Longrightarrow> ms_aborted s \<Longrightarrow>
    settle_step plan answer s (set_worker w (Threw UploadAborted) s)"

inductive multipart_step ::
  "multipart_plan \<Rightarrow> (nat \<Rightarrow> nat \<Rightarrow> put_outcome) \<Rightarrow> multipart_state \<Rightarrow> multipart_state \<Rightarrow> bool"
  for plan answer
where
  Settled: "settle_step plan answer s s' \<Longrightarrow> multipart_step plan answer s s'"
| Progressed: "w < length (ms_workers s) \<Longrightarrow> ms_workers s ! w = Putting i a \<Longrightarrow>
    multipart_step plan answer s (report_progress plan i (min loaded (length (part_body plan i))) s)"
| Abort_requested: "multipart_step plan answer s (s\<lparr>ms_aborted := True\<rparr>)"

text \<open>
  \<open>Promise.all\<close> resolves when every worker has returned; then the parts are sorted by number.
\<close>

definition multipart_resolved :: "multipart_state \<Rightarrow> bool" where
  "multipart_resolved s \<longleftrightarrow> list_all (\<lambda>w. w = Finished) (ms_workers s)"

definition multipart_result :: "multipart_state \<Rightarrow> upload_confirmation" where
  "multipart_result s = PartsOf (sort_key fst (ms_completed s))"

section \<open>Lemmas\<close>

subsection \<open>What a state of the upload keeps\<close>

fun holds :: "worker \<Rightarrow> (nat \<times> nat) option" where
  "holds (Waiting i a) = Some (i, a)"
| "holds (Putting i a) = Some (i, a)"
| "holds _ = None"

text \<open>How many requests the worker's part has seen, the one in flight included.\<close>

fun requests_made :: "worker \<Rightarrow> nat" where
  "requests_made (Waiting i a) = a"
| "requests_made (Putting i a) = Suc a"
| "requests_made _ = 0"

definition first_tag :: "(nat \<Rightarrow> nat \<Rightarrow> put_outcome) \<Rightarrow> nat \<Rightarrow> jstr" where
  "first_tag answer i =
     (case List.find (\<lambda>a. accepted_tag (answer i a) \<noteq> None) [0..<multipart_attempts] of
        None \<Rightarrow> []
      | Some a \<Rightarrow> the (accepted_tag (answer i a)))"

lemma find_upt:
  assumes "p a" and "a < n" and "\<forall>b < a. \<not> p b"
  shows "List.find p [0..<n] = Some a"
  using assms by (auto simp: find_Some_iff)

lemma first_tag_eq:
  assumes "accepted_tag (answer i a) = Some etag" and "a < multipart_attempts"
    and "\<forall>b < a. accepted_tag (answer i b) = None"
  shows "first_tag answer i = etag"
  using find_upt [of "\<lambda>a. accepted_tag (answer i a) \<noteq> None" a multipart_attempts] assms
  by (simp add: first_tag_def)

text \<open>
  The invariant, for the workers \<open>W\<close> that are at rest and the parts \<open>idxs\<close> completed so far: a part
  taken from the cursor is completed, or held by exactly one worker, or lost with a worker that
  threw.
\<close>

definition worker_ok ::
  "multipart_plan \<Rightarrow> (nat \<Rightarrow> nat \<Rightarrow> put_outcome) \<Rightarrow> nat list \<Rightarrow> multipart_state \<Rightarrow> worker \<Rightarrow> bool"
where
  "worker_ok plan answer idxs s k \<longleftrightarrow>
     (\<forall>i a. holds k = Some (i, a) \<longrightarrow> i < ms_cursor s \<and> i \<notin> set idxs \<and> a < multipart_attempts \<and>
        (\<forall>b < a. accepted_tag (answer i b) = None) \<and> count_list (ms_sent s) i = requests_made k) \<and>
     (k = Finished \<longrightarrow> ms_cursor s = length (pl_parts plan))"

definition parts_ok :: "multipart_plan \<Rightarrow> (nat \<Rightarrow> nat \<Rightarrow> put_outcome) \<Rightarrow> nat list \<Rightarrow> multipart_state \<Rightarrow> bool"
where
  "parts_ok plan answer idxs s \<longleftrightarrow>
     ms_cursor s \<le> length (pl_parts plan) \<and> distinct idxs \<and> set idxs \<subseteq> {..<ms_cursor s} \<and>
     ms_completed s = map (\<lambda>i. (up_part_number (pl_parts plan ! i), first_tag answer i)) idxs \<and>
     (\<forall>i. count_list (ms_sent s) i \<le> multipart_attempts) \<and>
     (\<forall>i \<ge> ms_cursor s. count_list (ms_sent s) i = 0)"

definition held_once :: "nat set \<Rightarrow> worker list \<Rightarrow> bool" where
  "held_once W ws \<longleftrightarrow> (\<forall>v \<in> W. \<forall>w \<in> W. \<forall>i a b.
     holds (ws ! v) = Some (i, a) \<longrightarrow> holds (ws ! w) = Some (i, b) \<longrightarrow> v = w)"

definition held :: "nat set \<Rightarrow> worker list \<Rightarrow> nat set" where
  "held W ws = {i. \<exists>w \<in> W. \<exists>a. holds (ws ! w) = Some (i, a)}"

definition threw :: "nat set \<Rightarrow> worker list \<Rightarrow> bool" where
  "threw W ws \<longleftrightarrow> (\<exists>w \<in> W. \<exists>e. ws ! w = Threw e)"

definition upload_inv ::
  "multipart_plan \<Rightarrow> (nat \<Rightarrow> nat \<Rightarrow> put_outcome) \<Rightarrow> nat set \<Rightarrow> nat list \<Rightarrow> multipart_state \<Rightarrow> bool"
where
  "upload_inv plan answer W idxs s \<longleftrightarrow>
     W \<subseteq> {..<length (ms_workers s)} \<and> parts_ok plan answer idxs s \<and>
     (\<forall>w \<in> W. worker_ok plan answer idxs s (ms_workers s ! w)) \<and>
     held_once W (ms_workers s) \<and>
     (threw W (ms_workers s) \<or> {..<ms_cursor s} \<subseteq> set idxs \<union> held W (ms_workers s))"

lemmas upload_invI = upload_inv_def [THEN iffD2, OF conjI, OF _ conjI, OF _ _ conjI, OF _ _ _ conjI]

lemma upload_invD:
  assumes "upload_inv plan answer W idxs s"
  shows "W \<subseteq> {..<length (ms_workers s)}" "parts_ok plan answer idxs s"
    "w \<in> W \<Longrightarrow> worker_ok plan answer idxs s (ms_workers s ! w)" "held_once W (ms_workers s)"
    "threw W (ms_workers s) \<or> {..<ms_cursor s} \<subseteq> set idxs \<union> held W (ms_workers s)"
  using assms by (auto simp: upload_inv_def)

lemma report_progress_simps [simp]:
  "ms_cursor (report_progress plan i n s) = ms_cursor s"
  "ms_completed (report_progress plan i n s) = ms_completed s"
  "ms_sent (report_progress plan i n s) = ms_sent s"
  "ms_workers (report_progress plan i n s) = ms_workers s"
  "ms_aborted (report_progress plan i n s) = ms_aborted s"
  by (simp_all add: report_progress_def Let_def)

lemma upload_inv_progress [simp]:
  "upload_inv plan answer W idxs (report_progress plan i n s) = upload_inv plan answer W idxs s"
  "upload_inv plan answer W idxs (s\<lparr>ms_aborted := b\<rparr>) = upload_inv plan answer W idxs s"
  by (simp_all add: upload_inv_def parts_ok_def worker_ok_def)

text \<open>Workers at rest are not touched by an update of another one.\<close>

lemma nth_other: "v \<in> W \<Longrightarrow> w \<notin> W \<Longrightarrow> xs[w := k] ! v = xs ! v"
  by (cases "v = w") auto

lemma heldI: "w \<in> W \<Longrightarrow> holds (ws ! w) = Some (i, a) \<Longrightarrow> i \<in> held W ws"
  by (auto simp: held_def)

lemma held_insert:
  assumes "w \<notin> W" "w < length ws"
  shows "held (insert w W) (ws[w := k]) = {i. \<exists>a. holds k = Some (i, a)} \<union> held W ws"
    and "threw (insert w W) (ws[w := k]) \<longleftrightarrow> (\<exists>e. k = Threw e) \<or> threw W ws"
    and "held_once W ws \<Longrightarrow> \<forall>i a. holds k = Some (i, a) \<longrightarrow> i \<notin> held W ws \<Longrightarrow>
      held_once (insert w W) (ws[w := k])"
  using assms by (auto simp: held_def threw_def held_once_def nth_other)

lemma worker_ok_cong:
  assumes "worker_ok plan answer idxs s k"
    and "ms_cursor s \<le> ms_cursor s'" "ms_cursor s' \<le> length (pl_parts plan)"
    and "\<forall>i a. holds k = Some (i, a) \<longrightarrow>
      count_list (ms_sent s') i = count_list (ms_sent s) i \<and> i \<notin> set idxs'"
  shows "worker_ok plan answer idxs' s' k"
  using assms by (cases k) (auto simp: worker_ok_def)

text \<open>
  A worker \<open>w\<close> comes to rest as \<open>k\<close>: what has to be known about the parts it touched.
\<close>

lemma rest_inv:
  assumes inv: "upload_inv plan answer W idxs s" and w: "w \<notin> W" "w < length (ms_workers s)"
    and workers: "ms_workers s' = (ms_workers s)[w := k]"
    and parts: "parts_ok plan answer idxs s'" and cursor: "ms_cursor s \<le> ms_cursor s'"
    and ok: "worker_ok plan answer idxs s' k"
    and sent: "\<forall>i \<in> held W (ms_workers s). count_list (ms_sent s') i = count_list (ms_sent s) i"
    and fresh: "\<forall>i a. holds k = Some (i, a) \<longrightarrow> i \<notin> held W (ms_workers s)"
    and cover: "(\<exists>e. k = Threw e) \<or> (\<forall>i. ms_cursor s \<le> i \<longrightarrow> i < ms_cursor s' \<longrightarrow> (\<exists>a. holds k = Some (i, a)))"
  shows "upload_inv plan answer (insert w W) idxs s'"
proof (rule upload_invI)
  show "insert w W \<subseteq> {..<length (ms_workers s')}" using upload_invD(1) [OF inv] w workers by auto
  show "parts_ok plan answer idxs s'" by (rule parts)
  have "worker_ok plan answer idxs s' (ms_workers s ! v)" if "v \<in> W" for v
  proof (rule worker_ok_cong [OF upload_invD(3) [OF inv that] cursor])
    show "ms_cursor s' \<le> length (pl_parts plan)" using parts by (simp add: parts_ok_def)
    show "\<forall>i a. holds (ms_workers s ! v) = Some (i, a) \<longrightarrow>
        count_list (ms_sent s') i = count_list (ms_sent s) i \<and> i \<notin> set idxs"
      using sent heldI [OF that] upload_invD(3) [OF inv that] by (auto simp: worker_ok_def)
  qed
  then show "\<forall>v \<in> insert w W. worker_ok plan answer idxs s' (ms_workers s' ! v)"
    using ok w by (auto simp: workers nth_other)
  show "held_once (insert w W) (ms_workers s')"
    using held_insert(3) [OF w upload_invD(4) [OF inv] fresh] by (simp add: workers)
  show "threw (insert w W) (ms_workers s') \<or>
      {..<ms_cursor s'} \<subseteq> set idxs \<union> held (insert w W) (ms_workers s')"
  proof (cases "\<exists>e. k = Threw e")
    case True
    then show ?thesis unfolding workers held_insert(1,2) [OF w] by blast
  next
    case False
    with cover have "{..<ms_cursor s'} \<subseteq> {..<ms_cursor s} \<union> {i. \<exists>a. holds k = Some (i, a)}"
      by (auto simp: not_less)
    with upload_invD(5) [OF inv] show ?thesis unfolding workers held_insert(1,2) [OF w] by blast
  qed
qed

text \<open>A worker that takes a part, or finds none left.\<close>

lemma take_part_inv:
  assumes inv: "upload_inv plan answer W idxs s" and w: "w \<notin> W" "w < length (ms_workers s)"
  shows "upload_inv plan answer (insert w W) idxs (take_part plan w s)"
proof -
  let ?i = "ms_cursor s"
  have below: "i < ?i" if "i \<in> held W (ms_workers s)" for i
    using that upload_invD(3) [OF inv] by (auto simp: held_def worker_ok_def)
  note parts = upload_invD(2) [OF inv, unfolded parts_ok_def]
  consider (none) "\<not> ?i < length (pl_parts plan)" | (aborted) "?i < length (pl_parts plan)" "ms_aborted s"
    | (put) "?i < length (pl_parts plan)" "\<not> ms_aborted s" by blast
  then show ?thesis
  proof cases
    case none
    then show ?thesis
      using parts by (intro rest_inv [OF inv w, of _ Finished])
        (auto simp: take_part_def parts_ok_def worker_ok_def)
  next
    case aborted
    then show ?thesis
      using parts by (intro rest_inv [OF inv w, of _ "Threw UploadAborted"])
        (auto simp: take_part_def begin_attempt_def parts_ok_def worker_ok_def)
  next
    case put
    then show ?thesis
      using parts below by (intro rest_inv [OF inv w, of _ "Putting ?i 0"])
        (auto simp: take_part_def begin_attempt_def send_put_def parts_ok_def worker_ok_def
          multipart_attempts_def less_Suc_eq)
  qed
qed

text \<open>A worker leaves its rest: with its part completed, or with its part in hand.\<close>

lemma leave_inv:
  assumes inv: "upload_inv plan answer W idxs s" and w: "w \<in> W" "holds (ms_workers s ! w) = Some (i, a)"
    and tag: "accepted_tag (answer i a) = Some etag"
  shows "upload_inv plan answer (W - {w}) (idxs @ [i])
    (s\<lparr>ms_completed := ms_completed s @ [(up_part_number (pl_parts plan ! i), etag)]\<rparr>)"
proof (rule upload_invI)
  let ?s = "s\<lparr>ms_completed := ms_completed s @ [(up_part_number (pl_parts plan ! i), etag)]\<rparr>"
  note k = upload_invD(3) [OF inv w(1), unfolded worker_ok_def]
  have "first_tag answer i = etag" using k w(2) tag by (intro first_tag_eq) auto
  then show "parts_ok plan answer (idxs @ [i]) ?s"
    using upload_invD(2) [OF inv] k w(2) by (auto simp: parts_ok_def)
  have "b \<noteq> i" if "v \<in> W" "v \<noteq> w" "holds (ms_workers s ! v) = Some (b, c)" for v b c
    using upload_invD(4) [OF inv] w that unfolding held_once_def by blast
  then show "\<forall>v \<in> W - {w}. worker_ok plan answer (idxs @ [i]) ?s (ms_workers ?s ! v)"
    using upload_invD(3) [OF inv] by (auto simp: worker_ok_def)
  show "W - {w} \<subseteq> {..<length (ms_workers ?s)}" using upload_invD(1) [OF inv] by auto
  show "held_once (W - {w}) (ms_workers ?s)"
    using upload_invD(4) [OF inv] by (auto simp: held_once_def)
  have "held W (ms_workers s) \<subseteq> insert i (held (W - {w}) (ms_workers s))"
    using w(2) by (auto simp: held_def)
  moreover have "threw W (ms_workers s) = threw (W - {w}) (ms_workers s)"
    using w(2) by (auto simp: threw_def)
  ultimately show "threw (W - {w}) (ms_workers ?s) \<or>
      {..<ms_cursor ?s} \<subseteq> set (idxs @ [i]) \<union> held (W - {w}) (ms_workers ?s)"
    using upload_invD(5) [OF inv] by auto
qed

text \<open>A worker that throws, and one that goes on with its part.\<close>

lemma throw_inv:
  assumes inv: "upload_inv plan answer W idxs s" and w: "w \<in> W"
  shows "upload_inv plan answer W idxs (set_worker w (Threw e) s)"
proof (rule upload_invI)
  let ?ws = "(ms_workers s)[w := Threw e]"
  have len: "w < length (ms_workers s)" using upload_invD(1) [OF inv] w by auto
  have held: "holds (ms_workers s ! v) = Some p" if "holds (?ws ! v) = Some p" for v p
    using that len by (cases "v = w") auto
  show "W \<subseteq> {..<length (ms_workers (set_worker w (Threw e) s))}" using upload_invD(1) [OF inv] by simp
  show "parts_ok plan answer idxs (set_worker w (Threw e) s)"
    using upload_invD(2) [OF inv] by (simp add: parts_ok_def)
  have "worker_ok plan answer idxs s (?ws ! v)" if "v \<in> W" for v
    using upload_invD(3) [OF inv that] len by (cases "v = w") (auto simp: worker_ok_def)
  then show "\<forall>v \<in> W. worker_ok plan answer idxs (set_worker w (Threw e) s)
      (ms_workers (set_worker w (Threw e) s) ! v)"
    by (auto simp: worker_ok_def)
  show "held_once W (ms_workers (set_worker w (Threw e) s))"
    using upload_invD(4) [OF inv] held unfolding held_once_def by simp
  show "threw W (ms_workers (set_worker w (Threw e) s)) \<or>
      {..<ms_cursor (set_worker w (Threw e) s)} \<subseteq> set idxs \<union> held W (ms_workers (set_worker w (Threw e) s))"
    using w len by (auto simp: threw_def intro: bexI [of _ w])
qed

lemma move_inv:
  assumes inv: "upload_inv plan answer W idxs s" and w: "w \<in> W"
    and held: "holds (ms_workers s ! w) = Some (i, a)" and k: "holds k = Some (i, b)"
    and s': "ms_workers s' = (ms_workers s)[w := k]" "ms_cursor s' = ms_cursor s"
      "ms_completed s' = ms_completed s"
    and ok: "b < multipart_attempts" "\<forall>c < b. accepted_tag (answer i c) = None"
      "count_list (ms_sent s') i = requests_made k"
    and sent: "\<forall>j. j \<noteq> i \<longrightarrow> count_list (ms_sent s') j = count_list (ms_sent s) j"
  shows "upload_inv plan answer W idxs s'"
proof (rule upload_invI)
  have len: "w < length (ms_workers s)" using upload_invD(1) [OF inv] w by auto
  note i = upload_invD(3) [OF inv w, unfolded worker_ok_def, THEN conjunct1, rule_format, OF held]
  have same: "(\<exists>c. holds (ms_workers s' ! v) = Some (j, c)) \<longleftrightarrow>
      (\<exists>c. holds (ms_workers s ! v) = Some (j, c))" for v j
    using held k len by (cases "v = w") (auto simp: s')
  show "W \<subseteq> {..<length (ms_workers s')}" using upload_invD(1) [OF inv] by (simp add: s')
  have "requests_made k \<le> multipart_attempts" using ok(1) k by (cases k) auto
  then have "count_list (ms_sent s') j \<le> multipart_attempts" for j
    using ok(3) sent upload_invD(2) [OF inv] by (cases "j = i") (auto simp: parts_ok_def)
  then show "parts_ok plan answer idxs s'"
    using upload_invD(2) [OF inv] sent i by (auto simp: parts_ok_def s')
  have other: "worker_ok plan answer idxs s' (ms_workers s ! v)" if v: "v \<in> W" "v \<noteq> w" for v
  proof (rule worker_ok_cong [OF upload_invD(3) [OF inv v(1)]])
    have "j \<noteq> i" if "holds (ms_workers s ! v) = Some (j, c)" for j c
      using upload_invD(4) [OF inv] w held v that unfolding held_once_def by blast
    then show "\<forall>j c. holds (ms_workers s ! v) = Some (j, c) \<longrightarrow>
        count_list (ms_sent s') j = count_list (ms_sent s) j \<and> j \<notin> set idxs"
      using sent upload_invD(3) [OF inv v(1)] by (auto simp: worker_ok_def)
    show "ms_cursor s' \<le> length (pl_parts plan)" using upload_invD(2) [OF inv] by (simp add: parts_ok_def s')
  qed (simp add: s')
  have "worker_ok plan answer idxs s' k"
    using k ok i by (cases k) (auto simp: worker_ok_def s')
  with other show "\<forall>v \<in> W. worker_ok plan answer idxs s' (ms_workers s' ! v)"
    using len by (auto simp: s' nth_list_update)
  show "held_once W (ms_workers s')"
    using upload_invD(4) [OF inv] same unfolding held_once_def by metis
  have "held W (ms_workers s') = held W (ms_workers s)" using same by (simp add: held_def)
  moreover have "(\<exists>e. ms_workers s' ! v = Threw e) \<longleftrightarrow> (\<exists>e. ms_workers s ! v = Threw e)" for v
    using held k len by (cases "v = w") (auto simp: s')
  then have "threw W (ms_workers s') = threw W (ms_workers s)" by (simp add: threw_def)
  ultimately show "threw W (ms_workers s') \<or> {..<ms_cursor s'} \<subseteq> set idxs \<union> held W (ms_workers s')"
    using upload_invD(5) [OF inv] by (simp add: s')
qed

text \<open>The pool keeps the invariant, whoever moves.\<close>

abbreviation pool_inv ::
  "multipart_plan \<Rightarrow> (nat \<Rightarrow> nat \<Rightarrow> put_outcome) \<Rightarrow> multipart_state \<Rightarrow> bool"
where
  "pool_inv plan answer s \<equiv> \<exists>idxs. upload_inv plan answer {..<length (ms_workers s)} idxs s"

lemma length_workers [simp]:
  "length (ms_workers (send_put w i a s)) = length (ms_workers s)"
  "length (ms_workers (begin_attempt plan w i a s)) = length (ms_workers s)"
  "length (ms_workers (take_part plan w s)) = length (ms_workers s)"
  "length (ms_workers (retry_part plan w i a s)) = length (ms_workers s)"
  "length (ms_workers (complete_part plan w i etag s)) = length (ms_workers s)"
  "length (ms_workers (on_put plan w i a out s)) = length (ms_workers s)"
proof -
  show put: "length (ms_workers (send_put w i a s)) = length (ms_workers s)" for w i a s
    by (simp add: send_put_def)
  show begin_att: "length (ms_workers (begin_attempt plan w i a s)) = length (ms_workers s)" for w i a s
    by (simp add: begin_attempt_def put)
  show take: "length (ms_workers (take_part plan w s)) = length (ms_workers s)" for w s
    by (simp add: take_part_def begin_att)
  show retry: "length (ms_workers (retry_part plan w i a s)) = length (ms_workers s)" for w i a s
    by (simp add: retry_part_def begin_att)
  show complete: "length (ms_workers (complete_part plan w i etag s)) = length (ms_workers s)" for w i etag s
    by (simp add: complete_part_def take Let_def)
  show "length (ms_workers (on_put plan w i a out s)) = length (ms_workers s)"
    by (simp add: on_put_def retry complete split: option.splits)
qed

lemma complete_part_inv:
  assumes inv: "upload_inv plan answer W idxs s" and w: "w \<in> W" "holds (ms_workers s ! w) = Some (i, a)"
    and tag: "accepted_tag (answer i a) = Some etag"
  shows "upload_inv plan answer W (idxs @ [i]) (complete_part plan w i etag s)"
proof -
  let ?s = "report_progress plan i (length (part_body plan i)) s"
  have "w < length (ms_workers s)" using upload_invD(1) [OF inv] w(1) by auto
  with leave_inv [of plan answer W idxs ?s w i a etag] inv w tag
    take_part_inv [of plan answer "W - {w}" "idxs @ [i]"
      "?s\<lparr>ms_completed := ms_completed ?s @ [(up_part_number (pl_parts plan ! i), etag)]\<rparr>" w]
  show ?thesis by (simp add: complete_part_def insert_absorb)
qed

lemma retry_part_inv:
  assumes inv: "upload_inv plan answer W idxs s" and w: "w \<in> W" "ms_workers s ! w = Putting i a"
    and tag: "accepted_tag (answer i a) = None"
  shows "upload_inv plan answer W idxs (retry_part plan w i a s)"
proof -
  note k = upload_invD(3) [OF inv w(1), unfolded worker_ok_def, THEN conjunct1, rule_format]
  consider (last) "\<not> Suc a < multipart_attempts" | (aborted) "Suc a < multipart_attempts" "ms_aborted s"
    | (wait) "Suc a < multipart_attempts" "\<not> ms_aborted s" by blast
  then show ?thesis
  proof cases
    case wait
    then have s': "retry_part plan w i a s =
        set_worker w (Waiting i (Suc a)) (report_progress plan i 0 s)"
      by (simp add: retry_part_def begin_attempt_def)
    show ?thesis
      unfolding s' using inv w wait tag k [of i a]
      by (intro move_inv [OF inv w(1), of i a "Waiting i (Suc a)" "Suc a"]) (auto simp: less_Suc_eq)
  qed (use throw_inv [OF inv w(1)] in \<open>simp_all add: retry_part_def begin_attempt_def\<close>)
qed

lemma on_put_inv:
  assumes inv: "upload_inv plan answer W idxs s" and w: "w \<in> W" "ms_workers s ! w = Putting i a"
    and out: "out = answer i a \<or> out = PutAborted"
  shows "\<exists>idxs'. upload_inv plan answer W idxs' (on_put plan w i a out s)"
proof (cases "out = PutAborted")
  case True
  then show ?thesis using throw_inv [OF inv w(1)] by (auto simp: on_put_def)
next
  case False
  with out have [simp]: "out = answer i a" by blast
  show ?thesis
  proof (cases "accepted_tag (answer i a)")
    case None
    then show ?thesis using retry_part_inv [OF inv w None] False by (auto simp: on_put_def)
  next
    case (Some etag)
    then show ?thesis using complete_part_inv [OF inv w(1) _ Some] w(2) False by (auto simp: on_put_def)
  qed
qed

lemma settle_step_inv:
  assumes "settle_step plan answer s s'" and "pool_inv plan answer s"
  shows "pool_inv plan answer s'"
proof -
  from assms(2) obtain idxs where inv: "upload_inv plan answer {..<length (ms_workers s)} idxs s" by blast
  from assms(1) show ?thesis
  proof cases
    case (Answered w i a)
    then show ?thesis using on_put_inv [OF inv, of w i a "answer i a"] by simp
  next
    case (Elapsed w i a)
    then have w: "w \<in> {..<length (ms_workers s)}" by simp
    note k = upload_invD(3) [OF inv w, unfolded worker_ok_def, THEN conjunct1, rule_format]
    have "upload_inv plan answer {..<length (ms_workers s)} idxs s'"
      using Elapsed k [of i a] by (intro move_inv [OF inv w, of i a "Putting i a" a]) (auto simp: send_put_def)
    then show ?thesis using Elapsed by auto
  next
    case (Aborted_put w i a)
    then show ?thesis using on_put_inv [OF inv, of w i a PutAborted] by simp
  next
    case (Aborted_wait w i a)
    then show ?thesis using throw_inv [OF inv, of w UploadAborted] by auto
  qed
qed

lemma multipart_start_inv:
  "pool_inv plan answer (multipart_start plan aborted) \<and>
   length (ms_workers (multipart_start plan aborted)) = min multipart_concurrency (length (pl_parts plan))"
proof -
  let ?n = "min multipart_concurrency (length (pl_parts plan))"
  let ?s = "\<lparr>ms_cursor = 0, ms_completed = [], ms_partLoaded = replicate (length (pl_parts plan)) 0,
    ms_progress = [], ms_sent = [], ms_workers = replicate ?n Finished, ms_aborted = aborted\<rparr>"
  have "upload_inv plan answer {..<k} [] (fold (take_part plan) [0..<k] ?s) \<and>
      length (ms_workers (fold (take_part plan) [0..<k] ?s)) = ?n" if "k \<le> ?n" for k
    using that
  proof (induction k)
    case 0
    show ?case by (simp add: upload_inv_def parts_ok_def held_once_def)
  next
    case (Suc k)
    then show ?case
      using take_part_inv [of plan answer "{..<k}" "[]" "fold (take_part plan) [0..<k] ?s" k]
      by (simp add: lessThan_Suc)
  qed
  from this [of ?n] show ?thesis by (auto simp: multipart_start_def Let_def)
qed

text \<open>States of an upload.\<close>

definition upload_reaches ::
  "multipart_plan \<Rightarrow> (nat \<Rightarrow> nat \<Rightarrow> put_outcome) \<Rightarrow> multipart_state \<Rightarrow> bool"
where
  "upload_reaches plan answer s \<longleftrightarrow>
     (\<exists>aborted. (multipart_step plan answer)\<^sup>*\<^sup>* (multipart_start plan aborted) s)"

lemma settle_step_length: "settle_step plan answer s s' \<Longrightarrow> length (ms_workers s') = length (ms_workers s)"
  by (erule settle_step.cases) simp_all

lemma multipart_step_inv:
  assumes "multipart_step plan answer s s'" and "pool_inv plan answer s"
  shows "pool_inv plan answer s' \<and> length (ms_workers s') = length (ms_workers s)"
  using assms(1)
proof cases
  case Settled
  then show ?thesis using settle_step_inv [OF _ assms(2)] settle_step_length by blast
qed (use assms(2) in auto)

lemma upload_reaches_inv:
  assumes "upload_reaches plan answer s"
  shows "pool_inv plan answer s" and "length (ms_workers s) = min multipart_concurrency (length (pl_parts plan))"
proof -
  from assms obtain aborted where "(multipart_step plan answer)\<^sup>*\<^sup>* (multipart_start plan aborted) s"
    by (auto simp: upload_reaches_def)
  then have "pool_inv plan answer s \<and>
      length (ms_workers s) = min multipart_concurrency (length (pl_parts plan))"
  proof (induction rule: rtranclp_induct)
    case base
    show ?case by (rule multipart_start_inv)
  next
    case (step s s')
    then show ?case using multipart_step_inv by metis
  qed
  then show "pool_inv plan answer s" "length (ms_workers s) = min multipart_concurrency (length (pl_parts plan))"
    by auto
qed

lemma part_bodies: "concat (map (part_body plan) [0..<k]) = take (k * pl_partSize plan) (pl_file plan)"
proof (induction k)
  case (Suc k)
  have "part_body plan k = take (pl_partSize plan) (drop (k * pl_partSize plan) (pl_file plan))"
    by (simp add: part_body_def file_slice_def Let_def min_def)
  with Suc show ?case by (simp add: take_add [symmetric] add.commute)
qed simp

text \<open>Every settling step brings the upload closer to its end.\<close>

fun worker_weight :: "worker \<Rightarrow> nat" where
  "worker_weight (Waiting i a) = 2 * (multipart_attempts - a)"
| "worker_weight (Putting i a) = 2 * (multipart_attempts - a) - 1"
| "worker_weight _ = 0"

definition upload_weight :: "multipart_plan \<Rightarrow> multipart_state \<Rightarrow> nat" where
  "upload_weight plan s =
     2 * multipart_attempts * (length (pl_parts plan) - ms_cursor s) +
     sum_list (map worker_weight (ms_workers s))"

lemma sum_list_update_nat:
  "i < length xs \<Longrightarrow> sum_list (map f (xs[i := x])) + f (xs ! i) = sum_list (map f xs) + (f x :: nat)"
proof (induction xs arbitrary: i)
  case (Cons y ys)
  then show ?case by (cases i) auto
qed simp

lemma upload_weight_set_worker:
  assumes "w < length (ms_workers s)"
  shows "upload_weight plan (set_worker w k s) + worker_weight (ms_workers s ! w) =
    upload_weight plan s + worker_weight k"
  using sum_list_update_nat [of w "ms_workers s" worker_weight k] assms by (simp add: upload_weight_def)

lemma upload_weight_progress [simp]:
  "upload_weight plan (report_progress plan i n s) = upload_weight plan s"
  "upload_weight plan (s\<lparr>ms_sent := xs\<rparr>) = upload_weight plan s"
  "upload_weight plan (s\<lparr>ms_completed := c\<rparr>) = upload_weight plan s"
  by (simp_all add: upload_weight_def)

lemma take_part_weight:
  assumes "w < length (ms_workers s)"
  shows "upload_weight plan (take_part plan w s) + worker_weight (ms_workers s ! w) \<le> upload_weight plan s"
proof (cases "ms_cursor s < length (pl_parts plan)")
  case False
  then show ?thesis using upload_weight_set_worker [OF assms, of plan Finished]
    by (simp add: take_part_def)
next
  case True
  let ?s = "s\<lparr>ms_cursor := Suc (ms_cursor s)\<rparr>"
  have "upload_weight plan ?s + 2 * multipart_attempts = upload_weight plan s"
    using True by (simp add: upload_weight_def Suc_diff_Suc [symmetric])
  then show ?thesis
    using True assms
      upload_weight_set_worker [of w "?s\<lparr>ms_sent := ms_sent s @ [ms_cursor s]\<rparr>" plan "Putting (ms_cursor s) 0"]
      upload_weight_set_worker [of w ?s plan "Threw UploadAborted"]
    by (auto simp: take_part_def begin_attempt_def send_put_def multipart_attempts_def)
qed

lemma settle_step_weight:
  assumes "settle_step plan answer s s'" and "pool_inv plan answer s"
  shows "upload_weight plan s' < upload_weight plan s"
proof -
  from assms(2) obtain idxs where inv: "upload_inv plan answer {..<length (ms_workers s)} idxs s" by blast
  have attempt: "a < multipart_attempts"
    if "w < length (ms_workers s)" "holds (ms_workers s ! w) = Some (i, a)" for w i a
    using upload_invD(3) [OF inv, of w] that by (auto simp: worker_ok_def)
  have throws: "upload_weight plan (set_worker w (Threw e) s) < upload_weight plan s"
    if "w < length (ms_workers s)" "holds (ms_workers s ! w) = Some (i, a)" for w e i a
    using that upload_weight_set_worker [OF that(1), of plan "Threw e"] attempt [OF that]
    by (cases "ms_workers s ! w") auto
  have put: "upload_weight plan (on_put plan w i a out s) < upload_weight plan s"
    if w: "w < length (ms_workers s)" "ms_workers s ! w = Putting i a" for w i a out
  proof -
    have a: "a < multipart_attempts" using attempt [OF w(1)] w(2) by simp
    have "upload_weight plan (complete_part plan w i etag s) < upload_weight plan s" for etag
      using take_part_weight [of w "(report_progress plan i (length (part_body plan i)) s)
        \<lparr>ms_completed := ms_completed s @ [(up_part_number (pl_parts plan ! i), etag)]\<rparr>" plan] w a
      by (simp add: complete_part_def)
    moreover have "upload_weight plan (retry_part plan w i a s) < upload_weight plan s"
      using throws [OF w(1)] w a
        upload_weight_set_worker [of w "report_progress plan i 0 s" plan "Waiting i (Suc a)"]
      by (auto simp: retry_part_def begin_attempt_def)
    ultimately show ?thesis
      using throws [OF w(1)] w(2) by (auto simp: on_put_def split: option.splits)
  qed
  from assms(1) show ?thesis
  proof cases
    case (Elapsed w i a)
    then show ?thesis
      using upload_weight_set_worker [of w "s\<lparr>ms_sent := ms_sent s @ [i]\<rparr>" plan "Putting i a"]
        attempt [of w i a] by (simp add: send_put_def)
  qed (use put throws in auto)
qed

text \<open>
  While nothing aborts and every part is accepted within the allowed attempts, no worker throws.
\<close>

definition storage_accepts :: "multipart_plan \<Rightarrow> (nat \<Rightarrow> nat \<Rightarrow> put_outcome) \<Rightarrow> bool" where
  "storage_accepts plan answer \<longleftrightarrow>
     (\<forall>i < length (pl_parts plan). \<exists>a < multipart_attempts. accepted_tag (answer i a) \<noteq> None) \<and>
     (\<forall>i a. answer i a \<noteq> PutAborted)"

definition calm :: "multipart_state \<Rightarrow> bool" where
  "calm s \<longleftrightarrow> \<not> ms_aborted s \<and> (\<forall>e. Threw e \<notin> set (ms_workers s))"

lemma calm_set_worker: "calm s \<Longrightarrow> \<forall>e. k \<noteq> Threw e \<Longrightarrow> calm (set_worker w k s)"
  using set_update_subset_insert [of "ms_workers s" w k] by (auto simp: calm_def)

lemma calm_simps [simp]:
  "calm (report_progress plan i n s) = calm s" "calm (s\<lparr>ms_sent := xs\<rparr>) = calm s"
  "calm (s\<lparr>ms_completed := c\<rparr>) = calm s" "calm (s\<lparr>ms_cursor := n\<rparr>) = calm s"
  by (simp_all add: calm_def)

lemma calm_begin: "calm s \<Longrightarrow> calm (begin_attempt plan w i a s)" "calm s \<Longrightarrow> calm (take_part plan w s)"
proof -
  show attempt: "calm s \<Longrightarrow> calm (begin_attempt plan w i a s)" for w i a s
    using calm_set_worker [of "s\<lparr>ms_sent := ms_sent s @ [i]\<rparr>" "Putting i a" w]
      calm_set_worker [of "report_progress plan i 0 s" "Waiting i a" w]
    by (auto simp: begin_attempt_def send_put_def calm_def)
  show "calm s \<Longrightarrow> calm (take_part plan w s)"
    using attempt [of "s\<lparr>ms_cursor := Suc (ms_cursor s)\<rparr>"] calm_set_worker [of s Finished w]
    by (simp add: take_part_def)
qed

lemma settle_step_calm:
  assumes step: "settle_step plan answer s s'" and "pool_inv plan answer s" and calm: "calm s"
    and accepts: "storage_accepts plan answer"
  shows "calm s'"
proof -
  from assms(2) obtain idxs where inv: "upload_inv plan answer {..<length (ms_workers s)} idxs s" by blast
  from step show ?thesis
  proof cases
    case (Answered w i a)
    note k = upload_invD(3) [OF inv, of w, unfolded worker_ok_def, THEN conjunct1, rule_format, of i a]
    have "i < length (pl_parts plan)"
      using k Answered upload_invD(2) [OF inv] by (auto simp: parts_ok_def)
    then obtain b where b: "b < multipart_attempts" "accepted_tag (answer i b) \<noteq> None"
      using accepts by (auto simp: storage_accepts_def)
    have "Suc a < multipart_attempts" if "accepted_tag (answer i a) = None"
    proof -
      have "\<not> b < a" using k Answered b by auto
      with that b show ?thesis by (cases "b = a") auto
    qed
    then show ?thesis
      using Answered calm_begin calm accepts
      by (auto simp: on_put_def storage_accepts_def retry_part_def complete_part_def split: option.splits)
  next
    case (Elapsed w i a)
    then show ?thesis
      using calm_set_worker [of "s\<lparr>ms_sent := ms_sent s @ [i]\<rparr>" "Putting i a" w] calm
      by (simp add: send_put_def)
  qed (use calm in \<open>auto simp: calm_def\<close>)
qed

lemma multipart_start_calm: "calm (multipart_start plan False)"
proof -
  have "calm s \<Longrightarrow> calm (fold (take_part plan) ws s)" for ws s
    by (induction ws arbitrary: s) (auto simp: calm_begin)
  moreover have "calm \<lparr>ms_cursor = 0, ms_completed = [], ms_partLoaded = l, ms_progress = [],
      ms_sent = [], ms_workers = replicate n Finished, ms_aborted = False\<rparr>" for l n
    by (simp add: calm_def)
  ultimately show ?thesis by (simp add: multipart_start_def Let_def)
qed

lemma multipart_start_weight:
  "upload_weight plan (multipart_start plan aborted) \<le> 2 * multipart_attempts * length (pl_parts plan)"
proof -
  let ?n = "min multipart_concurrency (length (pl_parts plan))"
  let ?s = "\<lparr>ms_cursor = 0, ms_completed = [], ms_partLoaded = replicate (length (pl_parts plan)) 0,
    ms_progress = [], ms_sent = [], ms_workers = replicate ?n Finished, ms_aborted = aborted\<rparr>"
  have "upload_weight plan (fold (take_part plan) ws s) \<le> upload_weight plan s"
    if "\<forall>w \<in> set ws. w < length (ms_workers s)" for ws s
    using that
  proof (induction ws arbitrary: s)
    case (Cons w ws)
    then have "upload_weight plan (fold (take_part plan) ws (take_part plan w s))
        \<le> upload_weight plan (take_part plan w s)" by simp
    with take_part_weight [of w s plan] Cons.prems show ?case by simp
  qed simp
  from this [of "[0..<?n]" ?s] show ?thesis
    by (simp add: multipart_start_def Let_def upload_weight_def sum_list_replicate)
qed

lemma settle_run:
  assumes "(settle_step plan answer ^^ n) (multipart_start plan False) s"
  shows "pool_inv plan answer s" "upload_weight plan s + n \<le> 2 * multipart_attempts * length (pl_parts plan)"
    "storage_accepts plan answer \<longrightarrow> calm s"
    "length (ms_workers s) = min multipart_concurrency (length (pl_parts plan))"
proof -
  have "pool_inv plan answer s \<and>
      upload_weight plan s + n \<le> 2 * multipart_attempts * length (pl_parts plan) \<and>
      (storage_accepts plan answer \<longrightarrow> calm s) \<and>
      length (ms_workers s) = min multipart_concurrency (length (pl_parts plan))"
    using assms
  proof (induction n arbitrary: s)
    case 0
    then show ?case
      using multipart_start_inv multipart_start_weight multipart_start_calm by auto
  next
    case (Suc n)
    then obtain t where t: "(settle_step plan answer ^^ n) (multipart_start plan False) t"
      "settle_step plan answer t s" by auto
    note IH = Suc.IH [OF t(1)]
    have "pool_inv plan answer s" using settle_step_inv [OF t(2)] IH by blast
    moreover have "upload_weight plan s < upload_weight plan t" using settle_step_weight [OF t(2)] IH by blast
    moreover have "storage_accepts plan answer \<longrightarrow> calm s" using settle_step_calm [OF t(2)] IH by blast
    ultimately show ?case using IH settle_step_length [OF t(2)] by simp
  qed
  then show "pool_inv plan answer s" "upload_weight plan s + n \<le> 2 * multipart_attempts * length (pl_parts plan)"
    "storage_accepts plan answer \<longrightarrow> calm s"
    "length (ms_workers s) = min multipart_concurrency (length (pl_parts plan))"
    by auto
qed

text \<open>When all workers have returned, every part is completed, once.\<close>

lemma resolved_completed:
  assumes inv: "upload_inv plan answer {..<length (ms_workers s)} idxs s"
    and "multipart_resolved s" and "ms_workers s \<noteq> []"
  shows "mset idxs = mset [0..<length (pl_parts plan)]"
proof -
  have fin: "ms_workers s ! w = Finished" if "w < length (ms_workers s)" for w
    using assms(2) that by (auto simp: multipart_resolved_def list_all_iff)
  have "ms_cursor s = length (pl_parts plan)"
    using upload_invD(3) [OF inv, of 0] fin [of 0] assms(3) by (simp add: worker_ok_def)
  moreover have "held {..<length (ms_workers s)} (ms_workers s) = {}" "\<not> threw {..<length (ms_workers s)} (ms_workers s)"
    using fin by (auto simp: held_def threw_def)
  ultimately have "set idxs = set [0..<length (pl_parts plan)]" "distinct idxs"
    using upload_invD(2,5) [OF inv] by (auto simp: parts_ok_def)
  then show ?thesis using set_eq_iff_mset_eq_distinct [of idxs "[0..<length (pl_parts plan)]"] by simp
qed

lemma stuck_resolved:
  assumes "calm s" and "\<nexists>s'. settle_step plan answer s s'"
  shows "multipart_resolved s"
proof -
  have "ms_workers s ! w = Finished" if w: "w < length (ms_workers s)" for w
  proof (cases "ms_workers s ! w")
    case (Waiting i a)
    then show ?thesis using assms(2) Elapsed [OF w Waiting] by blast
  next
    case (Putting i a)
    then show ?thesis using assms(2) Answered [OF w Putting] by blast
  next
    case (Threw e)
    then show ?thesis using assms(1) w by (metis calm_def nth_mem)
  qed simp
  then show ?thesis by (auto simp: multipart_resolved_def list_all_length)
qed

section \<open>Properties\<close>

text \<open>
  (C5) A multipart upload is put together correctly under every interleaving of its workers,
  retries, progress events and aborts: when it resolves, the confirmation lists every part of the
  plan exactly once, in the order of the part numbers, each with the tag of the first attempt that
  storage accepted; the bodies sent are, in order, the whole file; at no time are more than three
  requests in flight, and no part is sent more than three times.
\<close>

theorem multipart_upload_correct:
  assumes "upload_reaches plan answer s" and "pl_parts plan \<noteq> []"
    and "distinct (map up_part_number (pl_parts plan))"
    and "length (pl_file plan) \<le> length (pl_parts plan) * pl_partSize plan"
  shows "(multipart_resolved s \<longrightarrow> multipart_result s = PartsOf (sort_key fst
      (map (\<lambda>i. (up_part_number (pl_parts plan ! i), first_tag answer i)) [0..<length (pl_parts plan)]))) \<and>
    concat (map (\<lambda>i. pr_body (part_request plan i)) [0..<length (pl_parts plan)]) = pl_file plan \<and>
    length (filter (\<lambda>w. holds w \<noteq> None) (ms_workers s)) \<le> 3 \<and>
    (\<forall>i. count_list (ms_sent s) i \<le> 3)"
proof -
  let ?f = "\<lambda>i. (up_part_number (pl_parts plan ! i), first_tag answer i)"
  let ?n = "length (pl_parts plan)"
  from upload_reaches_inv [OF assms(1)] obtain idxs
    where inv: "upload_inv plan answer {..<length (ms_workers s)} idxs s"
      and workers: "length (ms_workers s) = min multipart_concurrency ?n" by blast
  have "multipart_result s = PartsOf (sort_key fst (map ?f [0..<?n]))" if "multipart_resolved s"
  proof -
    have "ms_workers s \<noteq> []"
      using workers assms(2) by (auto simp: multipart_concurrency_def simp flip: length_greater_0_conv)
    then have "mset idxs = mset [0..<?n]" using resolved_completed [OF inv that] by simp
    then have "mset (map ?f idxs) = mset (sort_key fst (map ?f [0..<?n]))" by simp
    moreover have "inj_on fst (set (map ?f idxs))"
    proof -
      have "set idxs \<subseteq> {..<?n}" using upload_invD(2) [OF inv] by (auto simp: parts_ok_def)
      then have "inj_on (\<lambda>i. up_part_number (pl_parts plan ! i)) (set idxs)"
        using assms(3) by (auto simp: inj_on_def distinct_conv_nth)
      then show ?thesis by (auto simp: inj_on_def)
    qed
    ultimately have "sort_key fst (map ?f idxs) = sort_key fst (map ?f [0..<?n])"
      by (rule sort_key_inj_key_eq) simp
    then show ?thesis using upload_invD(2) [OF inv] by (simp add: multipart_result_def parts_ok_def)
  qed
  moreover have "concat (map (\<lambda>i. pr_body (part_request plan i)) [0..<?n]) = pl_file plan"
    using part_bodies [of plan ?n] assms(4) by (simp add: part_request_def Let_def)
  moreover have "length (filter (\<lambda>w. holds w \<noteq> None) (ms_workers s)) \<le> 3"
    using workers length_filter_le [of "\<lambda>w. holds w \<noteq> None" "ms_workers s"]
    by (simp add: multipart_concurrency_def)
  moreover have "\<forall>i. count_list (ms_sent s) i \<le> 3"
    using upload_invD(2) [OF inv] by (simp add: parts_ok_def multipart_attempts_def)
  ultimately show ?thesis by blast
qed

text \<open>Two parts; the first attempt on the first part fails.\<close>

definition demo_plan :: multipart_plan where
  "demo_plan = \<lparr>pl_parts = [\<lparr>up_part_number = 1, up_upload_url = js ''u1'', up_upload_headers = []\<rparr>,
       \<lparr>up_part_number = 2, up_upload_url = js ''u2'', up_upload_headers = []\<rparr>],
     pl_partSize = 2, pl_file = [7, 8, 9]\<rparr>"

definition demo_answer :: "nat \<Rightarrow> nat \<Rightarrow> put_outcome" where
  "demo_answer i a = (if i = 0 \<and> a = 0 then PutThrew else PutResponse True (Some (js ''t'')))"

definition demo_pool :: "multipart_state list" where
  "demo_pool =
     (let s0 = multipart_start demo_plan False;
          s1 = on_put demo_plan 0 0 0 (demo_answer 0 0) s0;
          s2 = on_put demo_plan 1 1 0 (demo_answer 1 0) s1;
          s3 = send_put 0 0 1 s2;
          s4 = on_put demo_plan 0 0 1 (demo_answer 0 1) s3
      in [s0, s1, s2, s3, s4])"

lemma demo_workers:
  "map ms_workers demo_pool = [[Putting 0 0, Putting 1 0], [Waiting 0 1, Putting 1 0],
     [Waiting 0 1, Finished], [Putting 0 1, Finished], [Finished, Finished]]"
  by code_simp

lemma demo_steps:
  "settle_step demo_plan demo_answer (demo_pool ! 0) (demo_pool ! 1)"
  "settle_step demo_plan demo_answer (demo_pool ! 1) (demo_pool ! 2)"
  "settle_step demo_plan demo_answer (demo_pool ! 2) (demo_pool ! 3)"
  "settle_step demo_plan demo_answer (demo_pool ! 3) (demo_pool ! 4)"
proof -
  have ws: "ms_workers (demo_pool ! k) = map ms_workers demo_pool ! k" if "k < 5" for k
    using that by (subst nth_map) (simp_all add: demo_pool_def Let_def)
  show "settle_step demo_plan demo_answer (demo_pool ! 0) (demo_pool ! 1)"
    using Answered [of 0 "demo_pool ! 0" 0 0 demo_plan demo_answer] ws [of 0]
    by (simp add: demo_workers) (simp add: demo_pool_def Let_def)
  show "settle_step demo_plan demo_answer (demo_pool ! 1) (demo_pool ! 2)"
    using Answered [of 1 "demo_pool ! 1" 1 0 demo_plan demo_answer] ws [of 1]
    by (simp add: demo_workers) (simp add: demo_pool_def Let_def)
  show "settle_step demo_plan demo_answer (demo_pool ! 2) (demo_pool ! 3)"
    using Elapsed [of 0 "demo_pool ! 2" 0 1 demo_plan demo_answer] ws [of 2]
    by (simp add: demo_workers numeral_eq_Suc) (simp add: demo_pool_def Let_def numeral_eq_Suc)
  show "settle_step demo_plan demo_answer (demo_pool ! 3) (demo_pool ! 4)"
    using Answered [of 0 "demo_pool ! 3" 0 1 demo_plan demo_answer] ws [of 3]
    by (simp add: demo_workers numeral_eq_Suc) (simp add: demo_pool_def Let_def numeral_eq_Suc)
qed

lemma demo_pool_settles: "(settle_step demo_plan demo_answer ^^ 4) (multipart_start demo_plan False) (demo_pool ! 4)"
proof -
  have "demo_pool ! 0 = multipart_start demo_plan False" by (simp add: demo_pool_def Let_def)
  with demo_steps show ?thesis by (auto simp: numeral_eq_Suc relcompp_apply)
qed

theorem multipart_upload_correct_witness:
  "multipart_result (demo_pool ! 4) = PartsOf [(1, js ''t''), (2, js ''t'')]"
proof -
  have "upload_reaches demo_plan demo_answer (demo_pool ! 4)"
  proof -
    have "(multipart_step demo_plan demo_answer)\<^sup>*\<^sup>* s s'" if "(settle_step demo_plan demo_answer)\<^sup>*\<^sup>* s s'" for s s'
      using that by (rule rtranclp_mono [THEN predicate2D, rotated]) (auto intro: Settled)
    then show ?thesis
      using relpowp_imp_rtranclp [OF demo_pool_settles] by (auto simp: upload_reaches_def)
  qed
  moreover have "multipart_resolved (demo_pool ! 4)" by code_simp
  moreover have "sort_key fst (map (\<lambda>i. (up_part_number (pl_parts demo_plan ! i), first_tag demo_answer i))
      [0..<length (pl_parts demo_plan)]) = [(1, js ''t''), (2, js ''t'')]" by code_simp
  moreover have "distinct (map up_part_number (pl_parts demo_plan))" by code_simp
  ultimately show ?thesis
    using multipart_upload_correct [of demo_plan demo_answer "demo_pool ! 4"] by (simp add: demo_plan_def)
qed

text \<open>
  (C6) A multipart upload ends: whatever storage answers, the workers settle at most six times per
  part (three requests and the delays between them); and when storage accepts every part within
  three attempts and nobody aborts, no worker throws and the upload can only stop by resolving.
\<close>

theorem multipart_upload_terminates:
  assumes "(settle_step plan answer ^^ n) (multipart_start plan False) s"
  shows "n \<le> 6 * length (pl_parts plan) \<and>
    (storage_accepts plan answer \<longrightarrow>
      (\<forall>e. Threw e \<notin> set (ms_workers s)) \<and> (multipart_resolved s \<or> (\<exists>s'. settle_step plan answer s s')))"
  using settle_run [OF assms] stuck_resolved [of s plan answer]
  by (auto simp: multipart_attempts_def calm_def)

theorem multipart_upload_terminates_witness:
  "4 \<le> 6 * length (pl_parts demo_plan) \<and> (\<forall>e. Threw e \<notin> set (ms_workers (demo_pool ! 4)))"
proof -
  have "storage_accepts demo_plan demo_answer"
    unfolding storage_accepts_def
  proof (intro conjI allI impI)
    fix i
    show "\<exists>a < multipart_attempts. accepted_tag (demo_answer i a) \<noteq> None"
      by (rule exI [of _ 1])
        (simp add: demo_answer_def accepted_tag_def truthy_def multipart_attempts_def js_def)
  qed (simp add: demo_answer_def)
  then show ?thesis using multipart_upload_terminates [OF demo_pool_settles] by simp
qed

end
