(* ===== verification/Attachments.thy ===== *)
theory Attachments
  imports File_Rules Multipart_Upload "HOL-Library.Sublist"
begin

text \<open>
  The attachments of the composer: the hook \<open>useAttachmentUploads\<close>
  (\<open>frontend/src/files/useAttachmentUploads.ts\<close>) with the memory of pasted texts
  (\<open>frontend/src/files/pastedText.ts\<close>).

  The state holds what the hook keeps in refs and React state, the storage its drafts are written
  to, and the effects it has: controllers aborted, object URLs revoked, errors and restored contents
  reported. \<open>attachmentsRef\<close> and the React state are one field, since every updater of \<open>commit\<close>
  sets both and React runs them in the order they were queued. The asynchronous functions are cut at
  their \<open>await\<close>s. Identifiers, object URLs and the percentage of a progress event are arguments.
\<close>

section \<open>Definitions\<close>

subsection \<open>State\<close>

record source_file =
  sf_name :: jstr
  sf_type :: jstr
  sf_size :: int
  sf_pasted :: "jstr option"

record uploads =
  ul_attachments :: "draft_attachment list"
  ul_content :: jstr
  ul_progress :: "jstr \<rightharpoonup> int"
  ul_controllers :: "jstr list"
  ul_sources :: "jstr \<rightharpoonup> source_file"
  ul_previews :: "(jstr \<times> jstr) list"
  ul_scope :: nat
  ul_pasted :: "jstr \<rightharpoonup> jstr"
  ul_storage :: storage
  ul_aborted :: "jstr list"
  ul_revoked :: "jstr list"
  ul_errors :: "jstr list"
  ul_restored :: "jstr list"

text \<open>What a callback of the hook closes over: user and conversation of its render.\<close>

record upload_scope =
  us_userId :: "jstr option"
  us_conversationId :: "jstr option"

subsection \<open>Equality of attachments\<close>

definition same_file :: "file_attachment option \<Rightarrow> file_attachment option \<Rightarrow> bool" where
  "same_file l r =
     (case (l, r) of
        (None, None) \<Rightarrow> True
      | (Some a, Some b) \<Rightarrow>
          fa_id a = fa_id b \<and> fa_name a = fa_name b \<and> fa_media_type a = fa_media_type b \<and>
          fa_size_bytes a = fa_size_bytes b \<and> fa_category a = fa_category b \<and>
          fa_model_input_kind a = fa_model_input_kind b \<and>
          fa_preview_available a = fa_preview_available b \<and>
          fa_upload_expires_at a = fa_upload_expires_at b \<and>
          attachmentWarnings a = attachmentWarnings b
      | _ \<Rightarrow> False)"

definition sameAttachment :: "draft_attachment \<Rightarrow> draft_attachment \<Rightarrow> bool" where
  "sameAttachment l r \<longleftrightarrow>
     da_client_id l = da_client_id r \<and> da_upload_id l = da_upload_id r \<and> da_status l = da_status r \<and>
     da_error_code l = da_error_code r \<and> da_error_message l = da_error_message r \<and>
     same_file (da_file l) (da_file r) \<and> da_name l = da_name r \<and> da_media_type l = da_media_type r \<and>
     da_size_bytes l = da_size_bytes r \<and> da_category l = da_category r \<and> da_origin l = da_origin r \<and>
     da_local_preview_url l = da_local_preview_url r \<and>
     da_session_expires_at l = da_session_expires_at r"

definition sameAttachmentList :: "draft_attachment list \<Rightarrow> draft_attachment list \<Rightarrow> bool" where
  "sameAttachmentList l r \<longleftrightarrow> list_all2 sameAttachment l r"

subsection \<open>Drafts\<close>

definition persist ::
  "(attachment_draft \<Rightarrow> jstr) \<Rightarrow> upload_scope \<Rightarrow> draft_attachment list \<Rightarrow> uploads \<Rightarrow> uploads"
where
  "persist stringify sc next st =
     (case us_userId sc of
        None \<Rightarrow> st
      | Some userId \<Rightarrow>
          st\<lparr>ul_storage := write_file_draft stringify userId (us_conversationId sc)
               \<lparr>ad_content = ul_content st, ad_attachments = next\<rparr> (ul_storage st)\<rparr>)"

definition commit ::
  "(attachment_draft \<Rightarrow> jstr) \<Rightarrow> upload_scope \<Rightarrow> (draft_attachment list \<Rightarrow> draft_attachment list) \<Rightarrow>
   uploads \<Rightarrow> uploads"
where
  "commit stringify sc updater st =
     (let next = updater (ul_attachments st)
      in if sameAttachmentList (ul_attachments st) next then st
         else persist stringify sc next (st\<lparr>ul_attachments := next\<rparr>))"

text \<open>Aborting all requests and giving up all object URLs, as three places do.\<close>

definition release_all :: "uploads \<Rightarrow> uploads" where
  "release_all st =
     st\<lparr>ul_aborted := ul_aborted st @ ul_controllers st, ul_controllers := [],
       ul_sources := Map.empty, ul_revoked := ul_revoked st @ map snd (ul_previews st),
       ul_previews := [], ul_progress := Map.empty\<rparr>"

definition report_error :: "jstr \<Rightarrow> uploads \<Rightarrow> uploads" where
  "report_error message st = st\<lparr>ul_errors := ul_errors st @ [message]\<rparr>"

text \<open>The effect that runs when user or conversation changes.\<close>

definition change_scope ::
  "draft_parser \<Rightarrow> (attachment_draft \<Rightarrow> jstr) \<Rightarrow> upload_scope \<Rightarrow> uploads \<Rightarrow> uploads"
where
  "change_scope parse stringify sc st =
     (let st1 = release_all (st\<lparr>ul_scope := Suc (ul_scope st)\<rparr>)
      in case us_userId sc of
           None \<Rightarrow> st1\<lparr>ul_attachments := [], ul_content := []\<rparr>
         | Some userId \<Rightarrow>
             let cleared = clear_other_file_drafts userId (ul_storage st1);
                 (restored, read) = read_file_draft parse userId (us_conversationId sc) cleared;
                 kept = filter (\<lambda>a. \<not> isUploadFailed (da_status a)) (ad_attachments restored);
                 st2 = st1\<lparr>ul_storage := read, ul_attachments := kept, ul_content := ad_content restored\<rparr>;
                 st3 = (if length kept \<noteq> length (ad_attachments restored)
                        then report_error file_upload_failure_text
                               (st2\<lparr>ul_storage := write_file_draft stringify userId (us_conversationId sc)
                                  \<lparr>ad_content = ad_content restored, ad_attachments = kept\<rparr> read\<rparr>)
                        else st2)
             in st3\<lparr>ul_restored := ul_restored st3 @ [ad_content restored]\<rparr>)"

text \<open>The effect of the unmount.\<close>

definition unmount_uploads :: "uploads \<Rightarrow> uploads" where
  "unmount_uploads st =
     st\<lparr>ul_aborted := ul_aborted st @ ul_controllers st,
       ul_revoked := ul_revoked st @ map snd (ul_previews st)\<rparr>"

definition setDraftContent ::
  "(attachment_draft \<Rightarrow> jstr) \<Rightarrow> upload_scope \<Rightarrow> jstr \<Rightarrow> uploads \<Rightarrow> uploads"
where
  "setDraftContent stringify sc content st =
     persist stringify sc (ul_attachments st) (st\<lparr>ul_content := content\<rparr>)"

subsection \<open>Bookkeeping of one attachment\<close>

definition reportUploadProgress :: "jstr \<Rightarrow> int \<Rightarrow> uploads \<Rightarrow> uploads" where
  "reportUploadProgress clientId progress st = st\<lparr>ul_progress := (ul_progress st)(clientId \<mapsto> progress)\<rparr>"

definition clearUploadProgress :: "jstr \<Rightarrow> uploads \<Rightarrow> uploads" where
  "clearUploadProgress clientId st = st\<lparr>ul_progress := (ul_progress st)(clientId := None)\<rparr>"

definition drop_controller :: "jstr \<Rightarrow> uploads \<Rightarrow> uploads" where
  "drop_controller clientId st = st\<lparr>ul_controllers := filter (\<lambda>c. c \<noteq> clientId) (ul_controllers st)\<rparr>"

definition abort_controller :: "jstr \<Rightarrow> uploads \<Rightarrow> uploads" where
  "abort_controller clientId st =
     drop_controller clientId (st\<lparr>ul_aborted := ul_aborted st @
       (if clientId \<in> set (ul_controllers st) then [clientId] else [])\<rparr>)"

definition discardLocalAttachment :: "jstr \<Rightarrow> uploads \<Rightarrow> uploads" where
  "discardLocalAttachment clientId st =
     (let st1 = abort_controller clientId st;
          previewUrl = map_of (ul_previews st) clientId;
          st2 = st1\<lparr>ul_sources := (ul_sources st1)(clientId := None),
                  ul_revoked := ul_revoked st1 @ (if truthy previewUrl then [the previewUrl] else []),
                  ul_previews := AList.delete clientId (ul_previews st1)\<rparr>
      in clearUploadProgress clientId st2)"

text \<open>\<open>new Set(xs)\<close> in its iteration order.\<close>

definition js_set :: "'a list \<Rightarrow> 'a list" where
  "js_set xs = foldl (\<lambda>s x. add_new x s) [] xs"

fun pastedText :: "(jstr \<rightharpoonup> jstr) \<Rightarrow> jstr list \<Rightarrow> jstr option" where
  "pastedText m [] = None"
| "pastedText m (h # hs) =
     (case (if h = [] then None else m h) of Some t \<Rightarrow> Some t | None \<Rightarrow> pastedText m hs)"

definition rememberPastedText :: "jstr \<Rightarrow> jstr \<Rightarrow> uploads \<Rightarrow> uploads" where
  "rememberPastedText handle t st = st\<lparr>ul_pasted := (ul_pasted st)(handle \<mapsto> t)\<rparr>"

definition adoptPastedText :: "source_file \<Rightarrow> jstr \<Rightarrow> uploads \<Rightarrow> uploads" where
  "adoptPastedText file clientId st =
     (case sf_pasted file of None \<Rightarrow> st | Some t \<Rightarrow> rememberPastedText clientId t st)"

definition clients_of_upload :: "jstr \<Rightarrow> uploads \<Rightarrow> jstr list" where
  "clients_of_upload uploadId st =
     map da_client_id (filter (\<lambda>a. da_upload_id a = Some uploadId) (ul_attachments st))"

definition updateUploadRecord ::
  "(attachment_draft \<Rightarrow> jstr) \<Rightarrow> upload_scope \<Rightarrow> file_upload_record \<Rightarrow> jstr \<Rightarrow> uploads \<Rightarrow> uploads"
where
  "updateUploadRecord stringify sc record clientId st =
     (let uploadId = fur_upload_id record
      in if failed_status (fur_status record)
         then
           let st1 = fold discardLocalAttachment (js_set (clientId # clients_of_upload uploadId st)) st;
               st2 = commit stringify sc
                 (filter (\<lambda>a. da_client_id a \<noteq> clientId \<and> da_upload_id a \<noteq> Some uploadId)) st1
           in if fur_status record \<noteq> FCancelled then report_error file_upload_failure_text st2 else st2
         else
           let st1 = (case fur_file record of
                        None \<Rightarrow> st
                      | Some file \<Rightarrow>
                          (case pastedText (ul_pasted st) (clientId # clients_of_upload uploadId st) of
                             None \<Rightarrow> st
                           | Some t \<Rightarrow> rememberPastedText (fa_id file) t st))
           in commit stringify sc
                (map (\<lambda>a. if da_upload_id a = Some uploadId then draftFromUpload a record else a)) st1)"

subsection \<open>Starting an upload\<close>

definition media_type_of :: "source_file \<Rightarrow> jstr" where
  "media_type_of file = (if sf_type file = [] then js ''application/octet-stream'' else sf_type file)"

text \<open>
  \<open>startFile\<close> up to its first request, then the request. \<open>objectUrl\<close> is what
  \<open>URL.createObjectURL\<close> returns, \<open>None\<close> where the browser lacks it.
\<close>

definition initial_draft ::
  "(jstr \<Rightarrow> jstr) \<Rightarrow> jstr \<Rightarrow> jstr option \<Rightarrow> source_file \<Rightarrow> attachment_origin \<Rightarrow> draft_attachment"
where
  "initial_draft lower clientId previewUrl file origin =
     (let category = categoryForFileName lower (sf_name file)
      in \<lparr>da_client_id = clientId, da_upload_id = None, da_status = Creating, da_error_code = None,
          da_error_message = None, da_file = None, da_name = sf_name file,
          da_media_type = media_type_of file, da_size_bytes = sf_size file, da_category = category,
          da_model_input_kind = (if category = js ''image'' then Some Image else None),
          da_origin = Some origin, da_progress = None, da_local_preview_url = previewUrl,
          da_session_expires_at = None\<rparr>)"

definition start_file_begin ::
  "(jstr \<Rightarrow> jstr) \<Rightarrow> (attachment_draft \<Rightarrow> jstr) \<Rightarrow> upload_scope \<Rightarrow> jstr \<Rightarrow> jstr option \<Rightarrow>
   source_file \<Rightarrow> attachment_origin option \<Rightarrow> uploads \<Rightarrow> uploads"
where
  "start_file_begin lower stringify sc clientId objectUrl file origin st =
     (let previewUrl = (if categoryForFileName lower (sf_name file) = js ''image'' then objectUrl else None);
          st1 = (if truthy previewUrl
                 then st\<lparr>ul_previews := AList.update clientId (the previewUrl) (ul_previews st)\<rparr> else st);
          st2 = adoptPastedText file clientId (st1\<lparr>ul_sources := (ul_sources st1)(clientId \<mapsto> file)\<rparr>)
      in commit stringify sc
           (\<lambda>current. current @ [initial_draft lower clientId previewUrl file (nullish origin Upload)]) st2)"

definition start_file_request :: "source_file \<Rightarrow> attachment_origin option \<Rightarrow> create_upload" where
  "start_file_request file origin =
     \<lparr>cu_filename = sf_name file, cu_content_type = media_type_of file, cu_size_bytes = sf_size file,
      cu_multipart_supported = None,
      cu_origin = (if nullish origin Upload = Paste then Some Paste else None)\<rparr>"

text \<open>After \<open>createUpload\<close>: whether the call goes on, and the state with a new controller.\<close>

definition start_file_session ::
  "(attachment_draft \<Rightarrow> jstr) \<Rightarrow> upload_scope \<Rightarrow> nat \<Rightarrow> jstr \<Rightarrow> file_upload_session \<Rightarrow> uploads \<Rightarrow>
   uploads \<times> bool"
where
  "start_file_session stringify sc scopeVersion clientId session st =
     (if scopeVersion \<noteq> ul_scope st then (st, False)
      else
        let st1 = commit stringify sc (map (\<lambda>a. if da_client_id a = clientId
              then a\<lparr>da_upload_id := Some (fus_upload_id session), da_status := Uploading,
                     da_session_expires_at := Some (fus_session_expires_at session)\<rparr> else a)) st
        in (st1\<lparr>ul_controllers := ul_controllers st1 @ [clientId]\<rparr>, True))"

definition start_file_progress :: "nat \<Rightarrow> jstr \<Rightarrow> int \<Rightarrow> uploads \<Rightarrow> uploads" where
  "start_file_progress scopeVersion clientId percentage st =
     (if scopeVersion \<noteq> ul_scope st then st else reportUploadProgress clientId percentage st)"

definition start_file_uploaded :: "nat \<Rightarrow> jstr \<Rightarrow> uploads \<Rightarrow> uploads \<times> bool" where
  "start_file_uploaded scopeVersion clientId st =
     (let st1 = drop_controller clientId st
      in if scopeVersion \<noteq> ul_scope st then (clearUploadProgress clientId st1, False) else (st1, True))"

definition start_file_confirmed ::
  "(attachment_draft \<Rightarrow> jstr) \<Rightarrow> upload_scope \<Rightarrow> nat \<Rightarrow> jstr \<Rightarrow> file_upload_record \<Rightarrow> uploads \<Rightarrow> uploads"
where
  "start_file_confirmed stringify sc scopeVersion clientId record st =
     (let st1 = clearUploadProgress clientId st
      in if scopeVersion \<noteq> ul_scope st then st1
         else updateUploadRecord stringify sc record clientId st1)"

definition start_file_failed ::
  "(attachment_draft \<Rightarrow> jstr) \<Rightarrow> upload_scope \<Rightarrow> nat \<Rightarrow> jstr \<Rightarrow> bool \<Rightarrow> uploads \<Rightarrow> uploads"
where
  "start_file_failed stringify sc scopeVersion clientId isAbort st =
     (let st1 = clearUploadProgress clientId (drop_controller clientId st)
      in if scopeVersion \<noteq> ul_scope st \<or> isAbort then st1
         else report_error file_upload_failure_text
                (commit stringify sc (filter (\<lambda>a. da_client_id a \<noteq> clientId))
                   (discardLocalAttachment clientId st1)))"

subsection \<open>Adding files\<close>

text \<open>The loop of \<open>addFiles\<close>: the files accepted and the messages of the rejections, in order.\<close>

fun accept_files ::
  "(jstr \<Rightarrow> jstr) \<Rightarrow> files_capability \<Rightarrow> nat \<Rightarrow> source_file list \<Rightarrow> int \<Rightarrow> source_file list \<Rightarrow>
   source_file list \<times> jstr list"
where
  "accept_files lower cap existingCount accepted totalSize [] = (accepted, [])"
| "accept_files lower cap existingCount accepted totalSize (file # files) =
     (let extension = fileExtension lower (sf_name file);
          listed = (extension \<noteq> [] \<and> extension \<in> set (map lower (cap_allowed_extensions cap)));
          limit = categoryLimit lower (cap_category_max_bytes cap) (sf_name file);
          skip = (\<lambda>message. let (kept, messages) = accept_files lower cap existingCount accepted totalSize files
                  in (kept, message # messages))
      in if \<not> listed \<and> cap_accepts_unlisted_text cap \<noteq> Some True then skip file_type_unsupported_text
         else if existingCount + length accepted \<ge> cap_max_attachments_per_message cap
         then (accepted, [attachment_limit_text])
         else if (case limit of None \<Rightarrow> False | Some l \<Rightarrow> sf_size file > l) then skip file_too_large_text
         else if totalSize + sf_size file > cap_max_message_bytes cap then skip attachment_limit_text
         else accept_files lower cap existingCount (accepted @ [file]) (totalSize + sf_size file) files)"

record add_files_result =
  af_accepted :: "source_file list"
  af_error :: "jstr option"
  af_reported :: "jstr list"
  af_blocked :: bool

definition rejected_files :: "bool \<Rightarrow> jstr list \<Rightarrow> source_file list \<Rightarrow> add_files_result" where
  "rejected_files quiet messages accepted =
     \<lparr>af_accepted = accepted, af_error = (case messages of [] \<Rightarrow> None | e # _ \<Rightarrow> Some e),
      af_reported = (if quiet then [] else messages), af_blocked = False\<rparr>"

definition supports_image_input :: "chat_model_capability option \<Rightarrow> bool" where
  "supports_image_input model = (case model of None \<Rightarrow> False | Some x \<Rightarrow> cm_supports_image_input x)"

text \<open>What \<open>addFiles\<close> decides; \<open>af_blocked\<close> records the call of \<open>onImagesBlocked\<close>.\<close>

definition choose_files ::
  "(jstr \<Rightarrow> jstr) \<Rightarrow> files_capability option \<Rightarrow> chat_model_capability option \<Rightarrow> bool \<Rightarrow> bool \<Rightarrow>
   source_file list \<Rightarrow> uploads \<Rightarrow> add_files_result"
where
  "choose_files lower capability selectedModel canCreate quiet files st =
     (if files = [] then rejected_files quiet [] []
      else case (if canCreate then capability else None) of
        None \<Rightarrow> rejected_files quiet [if canCreate then js ''File uploads are currently unavailable.''
                  else js ''Verify your email before uploading files.''] []
      | Some cap \<Rightarrow>
          if \<not> cap_enabled cap
          then rejected_files quiet [js ''File uploads are currently unavailable.''] []
          else if list_ex (\<lambda>f. categoryForFileName lower (sf_name f) = js ''image'') files \<and>
                  \<not> supports_image_input selectedModel
          then (rejected_files quiet [] [])\<lparr>af_blocked := True\<rparr>
          else
            let (accepted, messages) = accept_files lower cap (length (ul_attachments st)) []
                  (sum_list (map da_size_bytes (ul_attachments st))) files
            in rejected_files quiet messages accepted)"

text \<open>\<open>addFiles\<close>, given identifiers and object URLs for the files it will start.\<close>

definition addFiles ::
  "(jstr \<Rightarrow> jstr) \<Rightarrow> (attachment_draft \<Rightarrow> jstr) \<Rightarrow> upload_scope \<Rightarrow> files_capability option \<Rightarrow>
   chat_model_capability option \<Rightarrow> bool \<Rightarrow> bool \<Rightarrow> attachment_origin option \<Rightarrow>
   (jstr \<times> jstr option) list \<Rightarrow> source_file list \<Rightarrow> uploads \<Rightarrow> uploads \<times> add_files_result"
where
  "addFiles lower stringify sc capability selectedModel canCreate quiet origin fresh files st =
     (let result = choose_files lower capability selectedModel canCreate quiet files st;
          st1 = st\<lparr>ul_errors := ul_errors st @ af_reported result\<rparr>
      in (fold (\<lambda>((clientId, objectUrl), file). start_file_begin lower stringify sc clientId objectUrl file origin)
            (zip fresh (af_accepted result)) st1, result))"

subsection \<open>Operations on listed attachments\<close>

definition find_attachment :: "jstr \<Rightarrow> uploads \<Rightarrow> draft_attachment option" where
  "find_attachment clientId st = List.find (\<lambda>a. da_client_id a = clientId) (ul_attachments st)"

text \<open>\<open>cancelAttachment\<close>: the upload to cancel, when the attachment has one.\<close>

definition cancel_attachment_begin :: "jstr \<Rightarrow> uploads \<Rightarrow> (uploads \<times> jstr option) option" where
  "cancel_attachment_begin clientId st =
     (case find_attachment clientId st of
        None \<Rightarrow> None
      | Some a \<Rightarrow> Some (abort_controller clientId st,
                   if truthy (da_upload_id a) then da_upload_id a else None))"

definition remove_client ::
  "(attachment_draft \<Rightarrow> jstr) \<Rightarrow> upload_scope \<Rightarrow> jstr \<Rightarrow> uploads \<Rightarrow> uploads"
where
  "remove_client stringify sc clientId st =
     commit stringify sc (filter (\<lambda>a. da_client_id a \<noteq> clientId)) (discardLocalAttachment clientId st)"

definition cancel_attachment_failed :: "uploads \<Rightarrow> uploads" where
  "cancel_attachment_failed = report_error (js ''The upload could not be cancelled. Please try again.'')"

definition retryAttachment ::
  "(jstr \<Rightarrow> jstr) \<Rightarrow> (attachment_draft \<Rightarrow> jstr) \<Rightarrow> upload_scope \<Rightarrow> jstr \<Rightarrow> jstr option \<Rightarrow> jstr \<Rightarrow>
   uploads \<Rightarrow> uploads"
where
  "retryAttachment lower stringify sc newClientId objectUrl clientId st =
     (case ul_sources st clientId of
        None \<Rightarrow> report_error (js ''Please select the file again to retry this upload.'') st
      | Some file \<Rightarrow>
          let origin = (case find_attachment clientId st of None \<Rightarrow> None | Some a \<Rightarrow> da_origin a);
              st1 = commit stringify sc (filter (\<lambda>a. da_client_id a \<noteq> clientId)) st
          in start_file_begin lower stringify sc newClientId objectUrl file origin
               (discardLocalAttachment clientId st1))"

definition swap :: "nat \<Rightarrow> nat \<Rightarrow> 'a list \<Rightarrow> 'a list" where
  "swap i j xs = xs[i := xs ! j, j := xs ! i]"

definition move_in :: "jstr \<Rightarrow> int \<Rightarrow> draft_attachment list \<Rightarrow> draft_attachment list" where
  "move_in clientId direction current =
     (case find_index (\<lambda>a. da_client_id a = clientId) current of
        None \<Rightarrow> current
      | Some index \<Rightarrow>
          let target = int index + direction
          in if target < 0 \<or> target \<ge> int (length current) then current
             else swap index (nat target) current)"

definition moveAttachment ::
  "(attachment_draft \<Rightarrow> jstr) \<Rightarrow> upload_scope \<Rightarrow> jstr \<Rightarrow> int \<Rightarrow> uploads \<Rightarrow> uploads"
where
  "moveAttachment stringify sc clientId direction = commit stringify sc (move_in clientId direction)"

subsection \<open>Handing previews over\<close>

record detached_preview =
  dp_clientId :: jstr
  dp_fileId :: jstr
  dp_url :: jstr

definition detach_one ::
  "jstr list \<Rightarrow> draft_attachment \<Rightarrow> uploads \<times> detached_preview list \<Rightarrow> uploads \<times> detached_preview list"
where
  "detach_one fileIds a acc =
     (let (st, detached) = acc; fileId = map_option fa_id (da_file a);
          url = map_of (ul_previews st) (da_client_id a)
      in if \<not> truthy fileId \<or> the fileId \<notin> set fileIds \<or> da_category a \<noteq> js ''image'' then acc
         else if \<not> truthy url then acc
         else (st\<lparr>ul_previews := AList.delete (da_client_id a) (ul_previews st)\<rparr>,
               detached @ [\<lparr>dp_clientId = da_client_id a, dp_fileId = the fileId, dp_url = the url\<rparr>]))"

definition detachImagePreviews :: "jstr list \<Rightarrow> uploads \<Rightarrow> uploads \<times> detached_preview list" where
  "detachImagePreviews fileIds st = fold (detach_one fileIds) (ul_attachments st) (st, [])"

definition restore_one :: "detached_preview \<Rightarrow> uploads \<Rightarrow> uploads" where
  "restore_one preview st =
     (if list_ex (\<lambda>a. da_client_id a = dp_clientId preview \<and>
           map_option fa_id (da_file a) = Some (dp_fileId preview) \<and>
           da_local_preview_url a = Some (dp_url preview)) (ul_attachments st)
      then st\<lparr>ul_previews := AList.update (dp_clientId preview) (dp_url preview) (ul_previews st)\<rparr>
      else st\<lparr>ul_revoked := ul_revoked st @ [dp_url preview]\<rparr>)"

definition restoreImagePreviews :: "detached_preview list \<Rightarrow> uploads \<Rightarrow> uploads" where
  "restoreImagePreviews = fold restore_one"

definition clear_uploads :: "upload_scope \<Rightarrow> uploads \<Rightarrow> uploads" where
  "clear_uploads sc st =
     (let st1 = (case us_userId sc of
                   None \<Rightarrow> st
                 | Some userId \<Rightarrow>
                     st\<lparr>ul_storage := clear_file_draft userId (us_conversationId sc) (ul_storage st)\<rparr>)
      in (release_all st1)\<lparr>ul_attachments := []\<rparr>)"

subsection \<open>Polling\<close>

definition polling_ids :: "uploads \<Rightarrow> jstr list" where
  "polling_ids st =
     map (\<lambda>a. the (da_upload_id a))
       (filter (\<lambda>a. truthy (da_upload_id a) \<and> isPollingStatus (da_status a)) (ul_attachments st))"

definition poll_record :: "file_upload_record list \<Rightarrow> draft_attachment \<Rightarrow> file_upload_record option" where
  "poll_record records a =
     (if truthy (da_upload_id a)
      then js_map_of (map (\<lambda>r. (fur_upload_id r, r)) records) (the (da_upload_id a)) else None)"

definition remember_polled :: "file_upload_record list \<Rightarrow> draft_attachment \<Rightarrow> uploads \<Rightarrow> uploads" where
  "remember_polled records a st =
     (case (poll_record records a, pastedText (ul_pasted st) [da_client_id a]) of
        (Some r, Some t) \<Rightarrow>
          (case fur_file r of None \<Rightarrow> st | Some file \<Rightarrow> rememberPastedText (fa_id file) t st)
      | _ \<Rightarrow> st)"

definition removed_ids :: "file_upload_record list \<Rightarrow> jstr list" where
  "removed_ids records = map fur_upload_id (filter (\<lambda>r. failed_status (fur_status r)) records)"

definition is_removed :: "file_upload_record list \<Rightarrow> draft_attachment \<Rightarrow> bool" where
  "is_removed records a \<longleftrightarrow>
     truthy (da_upload_id a) \<and> the (da_upload_id a) \<in> set (removed_ids records)"

definition poll_done ::
  "(attachment_draft \<Rightarrow> jstr) \<Rightarrow> upload_scope \<Rightarrow> file_upload_record list \<Rightarrow> uploads \<Rightarrow> uploads"
where
  "poll_done stringify sc records st =
     (let st1 = fold (remember_polled records) (ul_attachments st) st;
          removed = filter (is_removed records) (ul_attachments st1);
          st2 = fold (\<lambda>a. discardLocalAttachment (da_client_id a)) removed st1;
          st3 = commit stringify sc (\<lambda>current.
            map (\<lambda>a. case poll_record records a of None \<Rightarrow> a | Some r \<Rightarrow> draftFromUpload a r)
              (filter (\<lambda>a. \<not> is_removed records a) current)) st2
      in if list_ex (\<lambda>r. failed_status (fur_status r) \<and> fur_status r \<noteq> FCancelled) records
         then report_error file_upload_failure_text st3 else st3)"

text \<open>
  The delay of the next poll and the next back-off, \<open>elapsed\<close> milliseconds after polling started.
  \<open>Math.round(backoffDelay * 1.5)\<close> is exact: half of a product with 3.
\<close>

definition fast_poll_delay :: int where "fast_poll_delay = 250"

definition fast_poll_window :: int where "fast_poll_window = 10000"

definition initial_backoff :: int where "initial_backoff = 1000"

definition max_poll_delay :: int where "max_poll_delay = 5000"

definition next_poll :: "int \<Rightarrow> int \<Rightarrow> int \<times> int" where
  "next_poll elapsed backoffDelay =
     (if elapsed < fast_poll_window then (fast_poll_delay, backoffDelay)
      else (backoffDelay, min ((3 * backoffDelay + 1) div 2) max_poll_delay))"

subsection \<open>What the composer shows\<close>

definition visible_attachments :: "uploads \<Rightarrow> draft_attachment list" where
  "visible_attachments st =
     map (\<lambda>a. case ul_progress st (da_client_id a) of
                None \<Rightarrow> a
              | Some progress \<Rightarrow> if da_status a \<noteq> Uploading then a else a\<lparr>da_progress := Some progress\<rparr>)
       (ul_attachments st)"

definition readyAttachmentIds :: "uploads \<Rightarrow> jstr list" where
  "readyAttachmentIds st =
     filter (\<lambda>i. i \<noteq> []) (List.map_filter
       (\<lambda>a. if isUploadReady (da_status a) then map_option fa_id (da_file a) else None) (ul_attachments st))"

definition hasPendingAttachments :: "uploads \<Rightarrow> bool" where
  "hasPendingAttachments st = list_ex (\<lambda>a. isUploadInProgress (da_status a)) (ul_attachments st)"

definition hasFailedAttachments :: "uploads \<Rightarrow> bool" where
  "hasFailedAttachments st = list_ex (\<lambda>a. isUploadFailed (da_status a)) (ul_attachments st)"

definition file_kind :: "draft_attachment \<Rightarrow> input_kind option" where
  "file_kind a = (case da_file a of None \<Rightarrow> None | Some f \<Rightarrow> fa_model_input_kind f)"

definition hasModelConsumableAttachment :: "chat_model_capability option \<Rightarrow> uploads \<Rightarrow> bool" where
  "hasModelConsumableAttachment selectedModel st =
     list_ex (\<lambda>a. isUploadReady (da_status a) \<and>
       (file_kind a = Some Document \<or>
        file_kind a = Some Image \<and> supports_image_input selectedModel)) (ul_attachments st)"

definition shown_category :: "draft_attachment \<Rightarrow> jstr" where
  "shown_category a = nullish (map_option fa_category (da_file a)) (da_category a)"

definition hasReadyImageAttachment :: "uploads \<Rightarrow> bool" where
  "hasReadyImageAttachment st =
     list_ex (\<lambda>a. isUploadReady (da_status a) \<and> shown_category a = js ''image'') (ul_attachments st)"

text \<open>\<open>removeImages\<close>: the uploads to cancel, then the removal of the same images.\<close>

definition images_of :: "uploads \<Rightarrow> draft_attachment list" where
  "images_of st =
     filter (\<lambda>a. orelse (file_kind a) (da_model_input_kind a) = Some Image \<or>
       shown_category a = js ''image'') (ul_attachments st)"

definition remove_images_request :: "draft_attachment list \<Rightarrow> file_endpoint option" where
  "remove_images_request images =
     (let uploadIds = List.map_filter da_upload_id images
      in if uploadIds = [] then None else Some (CancelUploads uploadIds))"

definition remove_images_done ::
  "(attachment_draft \<Rightarrow> jstr) \<Rightarrow> upload_scope \<Rightarrow> draft_attachment list \<Rightarrow> uploads \<Rightarrow> uploads"
where
  "remove_images_done stringify sc images st =
     (let imageClientIds = js_set (map da_client_id images)
      in commit stringify sc (filter (\<lambda>a. da_client_id a \<notin> set imageClientIds))
           (fold discardLocalAttachment imageClientIds st))"

definition remove_images_failed :: "uploads \<Rightarrow> uploads" where
  "remove_images_failed = report_error (js ''The uploads could not be cancelled. Please try again.'')"

section \<open>Lemmas\<close>

subsection \<open>What each helper leaves alone\<close>

lemma persist_frame [simp]:
  "ul_attachments (persist stringify sc xs st) = ul_attachments st"
  "ul_content (persist stringify sc xs st) = ul_content st"
  "ul_previews (persist stringify sc xs st) = ul_previews st"
  "ul_revoked (persist stringify sc xs st) = ul_revoked st"
  "ul_scope (persist stringify sc xs st) = ul_scope st"
  "ul_errors (persist stringify sc xs st) = ul_errors st"
  by (simp_all add: persist_def split: option.splits)

lemma commit_frame [simp]:
  "ul_content (commit stringify sc f st) = ul_content st"
  "ul_previews (commit stringify sc f st) = ul_previews st"
  "ul_revoked (commit stringify sc f st) = ul_revoked st"
  "ul_scope (commit stringify sc f st) = ul_scope st"
  "ul_errors (commit stringify sc f st) = ul_errors st"
  by (simp_all add: commit_def Let_def)

lemma small_frames [simp]:
  "ul_attachments (report_error m st) = ul_attachments st"
  "ul_content (report_error m st) = ul_content st" "ul_storage (report_error m st) = ul_storage st"
  "ul_previews (report_error m st) = ul_previews st" "ul_revoked (report_error m st) = ul_revoked st"
  "ul_attachments (clearUploadProgress c st) = ul_attachments st"
  "ul_content (clearUploadProgress c st) = ul_content st"
  "ul_storage (clearUploadProgress c st) = ul_storage st"
  "ul_previews (clearUploadProgress c st) = ul_previews st"
  "ul_revoked (clearUploadProgress c st) = ul_revoked st"
  "ul_errors (clearUploadProgress c st) = ul_errors st"
  "ul_attachments (drop_controller c st) = ul_attachments st"
  "ul_content (drop_controller c st) = ul_content st" "ul_storage (drop_controller c st) = ul_storage st"
  "ul_previews (drop_controller c st) = ul_previews st" "ul_revoked (drop_controller c st) = ul_revoked st"
  "ul_errors (drop_controller c st) = ul_errors st"
  "ul_attachments (abort_controller c st) = ul_attachments st"
  "ul_content (abort_controller c st) = ul_content st" "ul_storage (abort_controller c st) = ul_storage st"
  "ul_previews (abort_controller c st) = ul_previews st" "ul_revoked (abort_controller c st) = ul_revoked st"
  "ul_attachments (rememberPastedText h t st) = ul_attachments st"
  "ul_content (rememberPastedText h t st) = ul_content st"
  "ul_storage (rememberPastedText h t st) = ul_storage st"
  "ul_previews (rememberPastedText h t st) = ul_previews st"
  "ul_revoked (rememberPastedText h t st) = ul_revoked st"
  by (simp_all add: report_error_def clearUploadProgress_def drop_controller_def abort_controller_def
      rememberPastedText_def)

lemma adopt_frame [simp]:
  "ul_attachments (adoptPastedText f c st) = ul_attachments st"
  "ul_content (adoptPastedText f c st) = ul_content st" "ul_storage (adoptPastedText f c st) = ul_storage st"
  "ul_previews (adoptPastedText f c st) = ul_previews st" "ul_revoked (adoptPastedText f c st) = ul_revoked st"
  by (simp_all add: adoptPastedText_def split: option.splits)

lemma remember_polled_frame [simp]:
  "ul_attachments (remember_polled rs a st) = ul_attachments st"
  "ul_content (remember_polled rs a st) = ul_content st" "ul_storage (remember_polled rs a st) = ul_storage st"
  "ul_previews (remember_polled rs a st) = ul_previews st" "ul_revoked (remember_polled rs a st) = ul_revoked st"
  by (simp_all add: remember_polled_def split: option.splits)

lemma discard_frame [simp]:
  "ul_attachments (discardLocalAttachment c st) = ul_attachments st"
  "ul_content (discardLocalAttachment c st) = ul_content st"
  "ul_storage (discardLocalAttachment c st) = ul_storage st"
  by (simp_all add: discardLocalAttachment_def Let_def)

lemma release_frame [simp]:
  "ul_attachments (release_all st) = ul_attachments st" "ul_content (release_all st) = ul_content st"
  "ul_storage (release_all st) = ul_storage st"
  by (simp_all add: release_all_def)

lemma fold_frame: "(\<And>x s. g (f x s) = g s) \<Longrightarrow> g (fold f xs s) = g s"
  by (induction xs arbitrary: s) auto

lemmas fold_frames [simp] =
  fold_frame [of ul_attachments "\<lambda>c. discardLocalAttachment c"]
  fold_frame [of ul_content "\<lambda>c. discardLocalAttachment c"]
  fold_frame [of ul_storage "\<lambda>c. discardLocalAttachment c"]
  fold_frame [of ul_attachments "\<lambda>a. discardLocalAttachment (f a)" for f]
  fold_frame [of ul_content "\<lambda>a. discardLocalAttachment (f a)" for f]
  fold_frame [of ul_storage "\<lambda>a. discardLocalAttachment (f a)" for f]
  fold_frame [of ul_attachments "remember_polled rs" for rs]
  fold_frame [of ul_content "remember_polled rs" for rs]
  fold_frame [of ul_storage "remember_polled rs" for rs]
  fold_frame [of ul_previews "remember_polled rs" for rs]
  fold_frame [of ul_revoked "remember_polled rs" for rs]

subsection \<open>Files chosen\<close>

definition file_allowed :: "(jstr \<Rightarrow> jstr) \<Rightarrow> files_capability \<Rightarrow> source_file \<Rightarrow> bool" where
  "file_allowed lower cap f \<longleftrightarrow>
     (fileExtension lower (sf_name f) \<in> lower ` set (cap_allowed_extensions cap) \<or>
      cap_accepts_unlisted_text cap = Some True) \<and>
     (\<forall>l. categoryLimit lower (cap_category_max_bytes cap) (sf_name f) = Some l \<longrightarrow> sf_size f \<le> l)"

definition chosen_ok ::
  "(jstr \<Rightarrow> jstr) \<Rightarrow> files_capability \<Rightarrow> nat \<Rightarrow> int \<Rightarrow> source_file list \<Rightarrow> source_file list \<Rightarrow> bool"
where
  "chosen_ok lower cap n used files new \<longleftrightarrow>
     subseq new files \<and> (\<forall>f \<in> set new. file_allowed lower cap f) \<and>
     (new \<noteq> [] \<longrightarrow> n + length new \<le> cap_max_attachments_per_message cap \<and>
       used + sum_list (map sf_size new) \<le> cap_max_message_bytes cap)"

lemma accept_files_spec:
  assumes "accept_files lower cap n acc used files = (kept, messages)"
  shows "\<exists>new. kept = acc @ new \<and> chosen_ok lower cap (n + length acc) used files new \<and>
    (messages = [] \<longrightarrow> new = files)"
  using assms
proof (induction files arbitrary: acc used kept messages)
  case Nil
  then show ?case by (simp add: chosen_ok_def)
next
  case (Cons f files)
  let ?rest = "accept_files lower cap n acc used files"
  let ?next = "accept_files lower cap n (acc @ [f]) (used + sf_size f) files"
  have skipped: ?case if "?rest = (kept, tl messages)" "messages \<noteq> []"
    using Cons.IH [OF that(1)] that(2) by (force simp: chosen_ok_def)
  have taken: ?case if "?next = (kept, messages)" "file_allowed lower cap f"
    "n + length acc < cap_max_attachments_per_message cap" "used + sf_size f \<le> cap_max_message_bytes cap"
  proof -
    from Cons.IH [OF that(1)] obtain new where new: "kept = acc @ f # new"
      "chosen_ok lower cap (n + length (acc @ [f])) (used + sf_size f) files new"
      "messages = [] \<longrightarrow> new = files" by auto
    then have "chosen_ok lower cap (n + length acc) used (f # files) (f # new)"
      using that(2-4) by (cases "new = []") (auto simp: chosen_ok_def)
    with new show ?case by auto
  qed
  from Cons.prems consider (skip) "?rest = (kept, tl messages)" "messages \<noteq> []"
    | (full) "kept = acc" "messages \<noteq> []"
    | (take) "?next = (kept, messages)" "file_allowed lower cap f"
        "n + length acc < cap_max_attachments_per_message cap" "used + sf_size f \<le> cap_max_message_bytes cap"
    by (auto simp: Let_def file_allowed_def not_less not_le split: if_splits prod.splits option.splits)
  then show ?case
  proof cases
    case full
    then show ?thesis by (simp add: chosen_ok_def)
  qed (use skipped taken in auto)
qed

subsection \<open>Operations in one scope\<close>

text \<open>The operations of the hook in one scope that create no object URL.\<close>

inductive quiet_step ::
  "(jstr \<Rightarrow> jstr) \<Rightarrow> (attachment_draft \<Rightarrow> jstr) \<Rightarrow> upload_scope \<Rightarrow> uploads \<Rightarrow> uploads \<Rightarrow> bool"
  for lower stringify sc
where
  Session: "quiet_step lower stringify sc st (fst (start_file_session stringify sc v c session st))"
| Upload_progress: "quiet_step lower stringify sc st (start_file_progress v c n st)"
| Uploaded: "quiet_step lower stringify sc st (fst (start_file_uploaded v c st))"
| Confirmed: "quiet_step lower stringify sc st (start_file_confirmed stringify sc v c r st)"
| Upload_failed: "quiet_step lower stringify sc st (start_file_failed stringify sc v c b st)"
| Cancelling_upload: "quiet_step lower stringify sc st (abort_controller c st)"
| Removed: "quiet_step lower stringify sc st (remove_client stringify sc c st)"
| Moved: "quiet_step lower stringify sc st (moveAttachment stringify sc c d st)"
| Polled: "quiet_step lower stringify sc st (poll_done stringify sc rs st)"
| Images_removed: "quiet_step lower stringify sc st (remove_images_done stringify sc images st)"
| Edited: "quiet_step lower stringify sc st (setDraftContent stringify sc content st)"
| Reported: "quiet_step lower stringify sc st (report_error m st)"

section \<open>Properties\<close>


definition demo_capability :: files_capability where
  "demo_capability = \<lparr>cap_enabled = True, cap_allowed_extensions = [js ''txt''],
     cap_category_max_bytes = Map.empty, cap_accepts_unlisted_text = None,
     cap_max_attachments_per_message = 2, cap_max_message_bytes = 10, cap_quota_bytes = 100,
     cap_target_turn_tokens = 1, cap_context_budget_tokens = 1\<rparr>"

definition demo_file :: "string \<Rightarrow> int \<Rightarrow> source_file" where
  "demo_file name n = \<lparr>sf_name = js name, sf_type = [], sf_size = n, sf_pasted = None\<rparr>"

definition demo_uploads :: uploads where
  "demo_uploads = \<lparr>ul_attachments = [], ul_content = [], ul_progress = Map.empty, ul_controllers = [],
     ul_sources = Map.empty, ul_previews = [], ul_scope = 0, ul_pasted = Map.empty, ul_storage = [],
     ul_aborted = [], ul_revoked = [], ul_errors = [], ul_restored = []\<rparr>"

lemma demo_extensions:
  "fileExtension id (js ''a.txt'') = js ''txt''" "fileExtension id (js ''b.exe'') = js ''exe''"
  "fileExtension id (js ''c.txt'') = js ''txt''" "fileExtension id (js ''d.txt'') = js ''txt''"
  by code_simp+


text \<open>
  Late answers of an abandoned composer are dropped: once user or conversation have changed,
  none of the continuations of an upload that was started before (session created, progress,
  transfer finished, confirmation, failure) touches the attachments, the stored draft, the previews
  or the error messages of the composer shown now.
\<close>

theorem late_upload_answers_dropped:
  assumes "v \<noteq> ul_scope st"
    and "st' \<in> {fst (start_file_session stringify sc v c session st), start_file_progress v c n st,
      fst (start_file_uploaded v c st), start_file_confirmed stringify sc v c r st,
      start_file_failed stringify sc v c isAbort st}"
  shows "ul_attachments st' = ul_attachments st \<and> ul_storage st' = ul_storage st \<and>
    ul_content st' = ul_content st \<and> ul_previews st' = ul_previews st \<and>
    ul_revoked st' = ul_revoked st \<and> ul_errors st' = ul_errors st \<and>
    \<not> snd (start_file_session stringify sc v c session st) \<and> \<not> snd (start_file_uploaded v c st)"
  using assms
  by (auto simp: start_file_session_def start_file_progress_def start_file_uploaded_def
      start_file_confirmed_def start_file_failed_def Let_def)

theorem late_upload_answers_dropped_witness:
  "ul_attachments (start_file_failed (\<lambda>_. []) \<lparr>us_userId = None, us_conversationId = None\<rparr> 7 (js ''c'')
     False demo_uploads) = []"
  using late_upload_answers_dropped [of 7 demo_uploads "start_file_failed (\<lambda>_. [])
      \<lparr>us_userId = None, us_conversationId = None\<rparr> 7 (js ''c'') False demo_uploads" "\<lambda>_. []"
      "\<lparr>us_userId = None, us_conversationId = None\<rparr>" "js ''c''" _ _ _ False]
  by (simp add: demo_uploads_def)

text \<open>
  The delay between polls stays between a quarter of a second and five seconds, and the back-off
  never shrinks.
\<close>

lemma next_poll_bounds:
  assumes "initial_backoff \<le> b" and "b \<le> max_poll_delay" and "next_poll elapsed b = (delay, b')"
  shows "fast_poll_delay \<le> delay \<and> delay \<le> max_poll_delay \<and> b \<le> b' \<and> b' \<le> max_poll_delay"
  using assms
  by (auto simp: next_poll_def initial_backoff_def max_poll_delay_def fast_poll_delay_def split: if_splits)

end
