(* ===== verification/Attachment_Previews.thy ===== *)
theory Attachment_Previews
  imports Attachments
begin

text \<open>
  Who owns the object URLs of image previews: the upload hook holds one per attachment, hands it to
  the thread when a message is sent, takes it back when the send fails, and revokes it when the
  attachment goes. The lemmas show that every URL ever created is held by exactly one party or
  revoked exactly once.
\<close>

section \<open>Lemmas\<close>

text \<open>
  The object URLs an upload hook answers for: those it holds for its previews and those it has
  revoked. \<open>previews_ok\<close>: one URL per attachment, none empty.
\<close>

definition owned :: "uploads \<Rightarrow> jstr multiset" where
  "owned st = mset (map snd (ul_previews st)) + mset (ul_revoked st)"

definition previews_ok :: "uploads \<Rightarrow> bool" where
  "previews_ok st \<longleftrightarrow> distinct (map fst (ul_previews st)) \<and> [] \<notin> snd ` set (ul_previews st)"

lemma mset_delete:
  "distinct (map fst xs) \<Longrightarrow> map_of xs k = Some v \<Longrightarrow>
     add_mset v (mset (map snd (AList.delete k xs))) = mset (map snd xs)"
proof (induction xs)
  case (Cons x xs)
  show ?case
  proof (cases "fst x = k")
    case True
    then have "AList.delete k xs = xs" using Cons.prems(1) by (auto intro!: delete_id)
    with True Cons.prems show ?thesis by (cases x) auto
  next
    case False
    with Cons show ?thesis by (cases x) (auto simp: add_mset_commute)
  qed
qed simp

lemma previews_delete:
  "previews_ok st \<Longrightarrow> previews_ok (st\<lparr>ul_previews := AList.delete k (ul_previews st), ul_revoked := r\<rparr>)"
  by (auto simp: previews_ok_def AList.delete_eq distinct_map_filterI)

text \<open>Every URL stays accounted for, and no attachment gains a preview.\<close>

definition keeps_urls :: "uploads \<Rightarrow> uploads \<Rightarrow> bool" where
  "keeps_urls st st' \<longleftrightarrow> (previews_ok st \<longrightarrow>
     previews_ok st' \<and> owned st' = owned st \<and> fst ` set (ul_previews st') \<subseteq> fst ` set (ul_previews st))"

lemma keeps_urls_trans: "keeps_urls a b \<Longrightarrow> keeps_urls b c \<Longrightarrow> keeps_urls a c"
  unfolding keeps_urls_def by (metis (no_types, lifting) order_trans)

lemma keeps_urls_same:
  "ul_previews st' = ul_previews st \<Longrightarrow> ul_revoked st' = ul_revoked st \<Longrightarrow> keeps_urls st st'"
  by (simp add: keeps_urls_def previews_ok_def owned_def)

lemma keeps_urls_same_right:
  assumes "ul_previews st' = ul_previews b" and "ul_revoked st' = ul_revoked b" and "keeps_urls st b"
  shows "keeps_urls st st'"
  using assms keeps_urls_same [of st' b] keeps_urls_trans by blast

lemma discard_keeps_urls: "keeps_urls st (discardLocalAttachment c st)"
  unfolding keeps_urls_def
proof
  assume ok: "previews_ok st"
  have sub: "fst ` set (ul_previews (discardLocalAttachment c st)) \<subseteq> fst ` set (ul_previews st)"
    by (auto simp: discardLocalAttachment_def AList.delete_eq Let_def)
  show "previews_ok (discardLocalAttachment c st) \<and> owned (discardLocalAttachment c st) = owned st \<and>
      fst ` set (ul_previews (discardLocalAttachment c st)) \<subseteq> fst ` set (ul_previews st)"
  proof (cases "map_of (ul_previews st) c")
    case None
    then have "AList.delete c (ul_previews st) = ul_previews st"
      by (simp add: map_of_eq_None_iff delete_id)
    then show ?thesis
      using ok None by (simp add: discardLocalAttachment_def previews_ok_def owned_def truthy_def Let_def)
  next
    case (Some url)
    then have "url \<noteq> []" using ok by (force simp: previews_ok_def dest: map_of_SomeD)
    then have "owned (discardLocalAttachment c st) = owned st"
      using Some mset_delete [of "ul_previews st" c url] ok
      by (simp add: discardLocalAttachment_def owned_def previews_ok_def truthy_def Let_def)
    then show ?thesis
      using previews_delete [OF ok, where k = c] sub
      by (simp add: discardLocalAttachment_def previews_ok_def Let_def)
  qed
qed

lemma fold_keeps_urls: "(\<And>x s. keeps_urls s (f x s)) \<Longrightarrow> keeps_urls st (fold f xs st)"
proof (induction xs arbitrary: st)
  case Nil
  then show ?case by (simp add: keeps_urls_same)
next
  case (Cons x xs)
  then show ?case using keeps_urls_trans [of st "f x st"] by simp
qed

lemma release_keeps_urls: "keeps_urls st (release_all st)"
  by (simp add: keeps_urls_def release_all_def previews_ok_def owned_def add.commute)

lemma update_record_keeps_urls: "keeps_urls st (updateUploadRecord stringify sc r c st)"
proof (cases "failed_status (fur_status r)")
  case True
  show ?thesis
    by (rule keeps_urls_same_right [of _ "fold discardLocalAttachment
          (js_set (c # clients_of_upload (fur_upload_id r) st)) st"])
      (use True in \<open>simp_all add: updateUploadRecord_def fold_keeps_urls discard_keeps_urls Let_def\<close>)
next
  case False
  then show ?thesis
    by (intro keeps_urls_same) (simp_all add: updateUploadRecord_def Let_def split: option.splits)
qed

lemma poll_keeps_urls: "keeps_urls st (poll_done stringify sc rs st)"
proof -
  let ?st1 = "fold (remember_polled rs) (ul_attachments st) st"
  have "keeps_urls st ?st1" by (rule keeps_urls_same) simp_all
  then have "keeps_urls st (fold (\<lambda>a. discardLocalAttachment (da_client_id a))
      (filter (is_removed rs) (ul_attachments st)) ?st1)"
    by (rule keeps_urls_trans) (simp add: fold_keeps_urls discard_keeps_urls)
  then show ?thesis
    by (rule keeps_urls_same_right [rotated 2]) (simp_all add: poll_done_def Let_def)
qed

lemma quiet_step_keeps_urls: "quiet_step lower stringify sc st st' \<Longrightarrow> keeps_urls st st'"
proof (induction rule: quiet_step.induct)
  case (Session st v c session)
  show ?case by (rule keeps_urls_same) (simp_all add: start_file_session_def Let_def)
next
  case (Upload_progress st v c n)
  show ?case by (rule keeps_urls_same) (simp_all add: start_file_progress_def reportUploadProgress_def)
next
  case (Uploaded st v c)
  show ?case by (rule keeps_urls_same) (simp_all add: start_file_uploaded_def Let_def)
next
  case (Confirmed st v c r)
  have "keeps_urls st (clearUploadProgress c st)" by (rule keeps_urls_same) simp_all
  then show ?case
    using keeps_urls_trans update_record_keeps_urls by (auto simp: start_file_confirmed_def Let_def)
next
  case (Upload_failed st v c b)
  let ?st = "clearUploadProgress c (drop_controller c st)"
  have "keeps_urls st ?st" by (rule keeps_urls_same) simp_all
  moreover from this have "keeps_urls st (discardLocalAttachment c ?st)"
    using keeps_urls_trans discard_keeps_urls by blast
  then have "keeps_urls st (report_error m (commit stringify sc f (discardLocalAttachment c ?st)))" for m f
    by (rule keeps_urls_same_right [rotated 2]) simp_all
  ultimately show ?case by (simp add: start_file_failed_def Let_def)
next
  case (Cancelling_upload st c)
  show ?case by (rule keeps_urls_same) simp_all
next
  case (Removed st c)
  show ?case
    by (rule keeps_urls_same_right [OF _ _ discard_keeps_urls [of st c]]) (simp_all add: remove_client_def)
next
  case (Moved st c d)
  show ?case by (rule keeps_urls_same) (simp_all add: moveAttachment_def)
next
  case (Images_removed st images)
  show ?case
    by (rule keeps_urls_same_right [of _ "fold discardLocalAttachment (js_set (map da_client_id images)) st"])
      (simp_all add: remove_images_done_def fold_keeps_urls discard_keeps_urls Let_def)
next
  case (Edited st content)
  show ?case by (rule keeps_urls_same) (simp_all add: setDraftContent_def)
next
  case (Reported st m)
  show ?case by (rule keeps_urls_same) simp_all
qed (rule poll_keeps_urls)

text \<open>
  The hook together with the previews it has handed to the thread and all object URLs created.
  Identifiers and object URLs are fresh when they are made, as \<open>randomUUID\<close> and
  \<open>createObjectURL\<close> promise. The thread gives a preview back when its send failed, or revokes it.
\<close>

record preview_world =
  pw_uploads :: uploads
  pw_held :: "detached_preview list"
  pw_created :: "jstr list"

definition created_url :: "(jstr \<Rightarrow> jstr) \<Rightarrow> source_file \<Rightarrow> jstr option \<Rightarrow> jstr list" where
  "created_url lower file objectUrl =
     (if categoryForFileName lower (sf_name file) = js ''image'' \<and> truthy objectUrl then [the objectUrl] else [])"

definition fresh_for :: "preview_world \<Rightarrow> jstr \<Rightarrow> jstr option \<Rightarrow> bool" where
  "fresh_for w clientId objectUrl \<longleftrightarrow>
     clientId \<notin> fst ` set (ul_previews (pw_uploads w)) \<union> dp_clientId ` set (pw_held w) \<and>
     (\<forall>u. objectUrl = Some u \<longrightarrow> u \<notin> set (pw_created w))"

inductive preview_step ::
  "(jstr \<Rightarrow> jstr) \<Rightarrow> draft_parser \<Rightarrow> (attachment_draft \<Rightarrow> jstr) \<Rightarrow> preview_world \<Rightarrow> preview_world \<Rightarrow> bool"
  for lower parse stringify
where
  Quiet: "quiet_step lower stringify sc (pw_uploads w) st \<Longrightarrow>
    preview_step lower parse stringify w (w\<lparr>pw_uploads := st\<rparr>)"
| Start: "fresh_for w c url \<Longrightarrow> preview_step lower parse stringify w
    (w\<lparr>pw_uploads := start_file_begin lower stringify sc c url file origin (pw_uploads w),
       pw_created := pw_created w @ created_url lower file url\<rparr>)"
| Retry: "fresh_for w c' url \<Longrightarrow> ul_sources (pw_uploads w) c = Some file \<Longrightarrow>
    preview_step lower parse stringify w
    (w\<lparr>pw_uploads := retryAttachment lower stringify sc c' url c (pw_uploads w),
       pw_created := pw_created w @ created_url lower file url\<rparr>)"
| Scope: "preview_step lower parse stringify w
    (w\<lparr>pw_uploads := change_scope parse stringify sc (pw_uploads w)\<rparr>)"
| Clear: "preview_step lower parse stringify w (w\<lparr>pw_uploads := clear_uploads sc (pw_uploads w)\<rparr>)"
| Detach: "detachImagePreviews ids (pw_uploads w) = (st, ps) \<Longrightarrow>
    preview_step lower parse stringify w (w\<lparr>pw_uploads := st, pw_held := pw_held w @ ps\<rparr>)"
| Restore: "pw_held w = as @ ps @ bs \<Longrightarrow> preview_step lower parse stringify w
    (w\<lparr>pw_uploads := restoreImagePreviews ps (pw_uploads w), pw_held := as @ bs\<rparr>)"
| Release: "pw_held w = as @ p # bs \<Longrightarrow> preview_step lower parse stringify w
    (w\<lparr>pw_uploads := (pw_uploads w)\<lparr>ul_revoked := ul_revoked (pw_uploads w) @ [dp_url p]\<rparr>,
       pw_held := as @ bs\<rparr>)"

definition world_ok :: "preview_world \<Rightarrow> bool" where
  "world_ok w \<longleftrightarrow> previews_ok (pw_uploads w) \<and>
     distinct (map fst (ul_previews (pw_uploads w)) @ map dp_clientId (pw_held w)) \<and>
     [] \<notin> dp_url ` set (pw_held w) \<and>
     owned (pw_uploads w) + mset (map dp_url (pw_held w)) = mset (pw_created w) \<and> distinct (pw_created w)"

lemma keeps_urls_world:
  assumes "world_ok w" and "keeps_urls (pw_uploads w) st"
  shows "world_ok (w\<lparr>pw_uploads := st\<rparr>)"
proof -
  have "previews_ok st" "owned st = owned (pw_uploads w)"
    and sub: "fst ` set (ul_previews st) \<subseteq> fst ` set (ul_previews (pw_uploads w))"
    using assms by (simp_all add: world_ok_def keeps_urls_def)
  moreover have "fst ` set (ul_previews st) \<inter> dp_clientId ` set (pw_held w) = {}"
    using assms(1) sub by (auto simp: world_ok_def)
  ultimately show ?thesis using assms(1) by (simp add: world_ok_def previews_ok_def)
qed

lemma change_scope_keeps_urls: "keeps_urls st (change_scope parse stringify sc st)"
proof (rule keeps_urls_same_right [OF _ _ keeps_urls_trans [OF _ release_keeps_urls]])
  show "keeps_urls st (st\<lparr>ul_scope := Suc (ul_scope st)\<rparr>)" by (rule keeps_urls_same) simp_all
qed (simp_all add: change_scope_def Let_def split: option.splits prod.splits)

lemma clear_keeps_urls: "keeps_urls st (clear_uploads sc st)"
proof -
  let ?st = "case us_userId sc of None \<Rightarrow> st
    | Some u \<Rightarrow> st\<lparr>ul_storage := clear_file_draft u (us_conversationId sc) (ul_storage st)\<rparr>"
  have "keeps_urls st ?st" by (rule keeps_urls_same) (simp_all split: option.splits)
  then have "keeps_urls st (release_all ?st)" using keeps_urls_trans release_keeps_urls by blast
  then show ?thesis by (rule keeps_urls_same_right [rotated 2]) (simp_all add: clear_uploads_def Let_def)
qed

lemma update_new: "k \<notin> fst ` set xs \<Longrightarrow> AList.update k v xs = xs @ [(k, v)]"
  by (induction xs) auto

text \<open>An upload that starts adds its preview under its fresh identifier.\<close>

lemma start_previews:
  assumes "c \<notin> fst ` set (ul_previews st)"
  shows "ul_previews (start_file_begin lower stringify sc c url file origin st) =
      ul_previews st @ map (Pair c) (created_url lower file url)"
    and "ul_revoked (start_file_begin lower stringify sc c url file origin st) = ul_revoked st"
proof -
  show "ul_previews (start_file_begin lower stringify sc c url file origin st) =
      ul_previews st @ map (Pair c) (created_url lower file url)"
    using update_new [OF assms] by (auto simp: start_file_begin_def created_url_def truthy_def Let_def)
  show "ul_revoked (start_file_begin lower stringify sc c url file origin st) = ul_revoked st"
    by (simp add: start_file_begin_def Let_def)
qed

lemma start_world:
  assumes ok: "world_ok w" and fresh: "fresh_for w c url"
  shows "world_ok (w\<lparr>pw_uploads := start_file_begin lower stringify sc c url file origin (pw_uploads w),
    pw_created := pw_created w @ created_url lower file url\<rparr>)"
proof -
  have c: "c \<notin> fst ` set (ul_previews (pw_uploads w))" using fresh by (simp add: fresh_for_def)
  have "created_url lower file url = [] \<or>
      (\<exists>u. url = Some u \<and> u \<noteq> [] \<and> created_url lower file url = [u])"
    by (auto simp: created_url_def truthy_def split: option.splits)
  then show ?thesis
  proof (elim disjE exE)
    assume "created_url lower file url = []"
    then show ?thesis using ok start_previews [OF c]
      by (simp add: world_ok_def previews_ok_def owned_def)
  next
    fix u assume u: "url = Some u \<and> u \<noteq> [] \<and> created_url lower file url = [u]"
    then show ?thesis using ok fresh start_previews [OF c]
      by (auto simp: world_ok_def previews_ok_def owned_def fresh_for_def ac_simps)
  qed
qed

lemma retry_world:
  assumes ok: "world_ok w" and fresh: "fresh_for w c' url"
    and src: "ul_sources (pw_uploads w) c = Some file"
  shows "world_ok (w\<lparr>pw_uploads := retryAttachment lower stringify sc c' url c (pw_uploads w),
    pw_created := pw_created w @ created_url lower file url\<rparr>)"
proof -
  let ?st = "discardLocalAttachment c
    (commit stringify sc (filter (\<lambda>a. da_client_id a \<noteq> c)) (pw_uploads w))"
  have "keeps_urls (pw_uploads w) (commit stringify sc (filter (\<lambda>a. da_client_id a \<noteq> c)) (pw_uploads w))"
    by (rule keeps_urls_same) simp_all
  then have keeps: "keeps_urls (pw_uploads w) ?st" using keeps_urls_trans discard_keeps_urls by blast
  then have "fresh_for (w\<lparr>pw_uploads := ?st\<rparr>) c' url"
    using fresh ok by (auto simp: fresh_for_def keeps_urls_def world_ok_def)
  from start_world [OF keeps_urls_world [OF ok keeps] this] show ?thesis
    by (simp add: retryAttachment_def src Let_def)
qed

lemma detach_one_world:
  assumes "world_ok (w\<lparr>pw_uploads := st, pw_held := pw_held w @ ps\<rparr>)"
    and "detach_one ids a (st, ps) = (st', ps')"
  shows "world_ok (w\<lparr>pw_uploads := st', pw_held := pw_held w @ ps'\<rparr>)"
proof (cases "(st', ps') = (st, ps)")
  case True
  then show ?thesis using assms(1) by simp
next
  case False
  let ?c = "da_client_id a"
  let ?fid = "the (map_option fa_id (da_file a))"
  have "truthy (map_of (ul_previews st) ?c)"
    and st': "st' = st\<lparr>ul_previews := AList.delete ?c (ul_previews st)\<rparr>"
    and "ps' = ps @ [\<lparr>dp_clientId = ?c, dp_fileId = ?fid, dp_url = the (map_of (ul_previews st) ?c)\<rparr>]"
    using False assms(2) by (simp_all add: detach_one_def Let_def split: if_splits)
  then obtain url where url: "map_of (ul_previews st) ?c = Some url"
    and ps': "ps' = ps @ [\<lparr>dp_clientId = ?c, dp_fileId = ?fid, dp_url = url\<rparr>]"
    by (auto simp: truthy_def split: option.splits)
  have ok: "previews_ok st" and dist: "distinct (map fst (ul_previews st))"
    using assms(1) by (simp_all add: world_ok_def previews_ok_def)
  have "url \<noteq> []" using ok url by (force simp: previews_ok_def dest: map_of_SomeD)
  moreover have "?c \<in> fst ` set (ul_previews st)" using url by (force dest: map_of_SomeD)
  moreover have "previews_ok st'" using previews_delete [OF ok, where k = ?c and r = "ul_revoked st"] by (simp add: st')
  moreover have "owned st = add_mset url (owned st')"
    using mset_delete [OF dist url] by (simp add: owned_def st')
  moreover have "fst ` set (ul_previews st') = fst ` set (ul_previews st) - {?c}"
    by (force simp: st' AList.delete_eq)
  moreover have "distinct (map fst (ul_previews st'))"
    using dist by (simp add: st' distinct_delete)
  ultimately show ?thesis
    using assms(1) unfolding world_ok_def ps' by (simp add: ac_simps) blast
qed

lemma detach_world:
  assumes "world_ok w" and "detachImagePreviews ids (pw_uploads w) = (st, ps)"
  shows "world_ok (w\<lparr>pw_uploads := st, pw_held := pw_held w @ ps\<rparr>)"
proof -
  have "world_ok (w\<lparr>pw_uploads := s, pw_held := pw_held w @ qs\<rparr>) \<Longrightarrow>
      fold (detach_one ids) xs (s, qs) = (s', qs') \<Longrightarrow>
      world_ok (w\<lparr>pw_uploads := s', pw_held := pw_held w @ qs'\<rparr>)" for xs s qs s' qs'
  proof (induction xs arbitrary: s qs)
    case (Cons x xs)
    obtain t rs where step: "detach_one ids x (s, qs) = (t, rs)" by fastforce
    show ?case
      using Cons.IH [OF detach_one_world [OF Cons.prems(1) step]] Cons.prems(2) step by simp
  qed simp
  from this [where s = "pw_uploads w" and qs = "[]"] assms show ?thesis by (simp add: detachImagePreviews_def)
qed

lemma restore_one_world:
  assumes "world_ok (w\<lparr>pw_held := as @ p # bs\<rparr>)"
  shows "world_ok (w\<lparr>pw_uploads := restore_one p (pw_uploads w), pw_held := as @ bs\<rparr>)"
proof -
  have "dp_clientId p \<notin> fst ` set (ul_previews (pw_uploads w))" using assms by (auto simp: world_ok_def)
  then show ?thesis
    using assms
    by (auto simp: restore_one_def world_ok_def previews_ok_def owned_def update_new ac_simps)
qed

lemma restore_world:
  "world_ok (w\<lparr>pw_held := as @ ps @ bs\<rparr>) \<Longrightarrow>
     world_ok (w\<lparr>pw_uploads := restoreImagePreviews ps (pw_uploads w), pw_held := as @ bs\<rparr>)"
proof (induction ps arbitrary: w)
  case (Cons p ps)
  then show ?case
    using restore_one_world [where w = w and as = as and p = p and bs = "ps @ bs"]
      Cons.IH [where w = "w\<lparr>pw_uploads := restore_one p (pw_uploads w)\<rparr>"]
    by (simp add: restoreImagePreviews_def)
qed (simp add: restoreImagePreviews_def)

lemma preview_step_ok: "preview_step lower parse stringify w w' \<Longrightarrow> world_ok w \<Longrightarrow> world_ok w'"
proof (induction rule: preview_step.induct)
  case (Quiet sc w st)
  then show ?case using keeps_urls_world quiet_step_keeps_urls by blast
next
  case (Scope w sc)
  then show ?case using keeps_urls_world change_scope_keeps_urls by blast
next
  case (Clear w sc)
  then show ?case using keeps_urls_world clear_keeps_urls by blast
next
  case (Restore w as ps bs)
  then have "w\<lparr>pw_held := as @ ps @ bs\<rparr> = w" by (cases w) simp
  with Restore(2) have "world_ok (w\<lparr>pw_held := as @ ps @ bs\<rparr>)" by (simp only:)
  then show ?case by (rule restore_world)
next
  case (Release w as p bs)
  then show ?case by (auto simp: world_ok_def previews_ok_def owned_def)
qed (auto intro: start_world retry_world detach_world)

section \<open>Properties\<close>



end
