(* ===== verification/Attachment_Drafts.thy ===== *)
theory Attachment_Drafts
  imports Attachments "HOL-Library.Countable"
begin

text \<open>
  What a reload restores: the draft that the upload hook keeps in browser storage agrees with the
  composer after every operation, so that reading it back gives the same text and attachments.
\<close>

section \<open>Lemmas\<close>

text \<open>What the drafts rely on: \<open>JSON.parse\<close> inverts \<open>JSON.stringify\<close>.\<close>

definition draft_codec :: "draft_parser \<Rightarrow> (attachment_draft \<Rightarrow> jstr) \<Rightarrow> bool" where
  "draft_codec parse stringify \<longleftrightarrow>
     (\<forall>d. parse (stringify d) = Some (Some (ad_content d), Some (ad_attachments d)) \<and> stringify d \<noteq> [])"

definition mirrored :: "draft_parser \<Rightarrow> jstr \<Rightarrow> jstr option \<Rightarrow> uploads \<Rightarrow> bool" where
  "mirrored parse u c st \<longleftrightarrow> wf_storage (ul_storage st) \<and>
     (\<forall>a \<in> set (ul_attachments st). \<not> isUploadFailed (da_status a)) \<and>
     fst (read_file_draft parse u c (ul_storage st)) =
       serializable_draft \<lparr>ad_content = ul_content st, ad_attachments = ul_attachments st\<rparr>"

lemma read_written:
  assumes "draft_codec parse stringify"
  shows "fst (read_file_draft parse u c (write_file_draft stringify u c d st)) = serializable_draft d"
proof (cases "ad_content d = [] \<and> ad_attachments d = []")
  case True
  then have "serializable_draft d = emptyDraft" by (simp add: serializable_draft_def emptyDraft_def)
  with True show ?thesis
    by (simp add: read_file_draft_def write_file_draft_def get_remove_item truthy_def Let_def)
next
  case False
  then have "write_file_draft stringify u c d st = set_item (file_draft_key u c) (stringify (serializable_draft d)) st"
    by (auto simp: write_file_draft_def)
  with assms show ?thesis
    by (simp add: read_file_draft_def draft_codec_def get_set_item truthy_def Let_def)
qed

lemma wf_write [simp]: "wf_storage st \<Longrightarrow> wf_storage (write_file_draft stringify u c d st)"
  by (simp add: write_file_draft_def Let_def)

lemma mirrored_same:
  assumes "mirrored parse u c st" and "ul_storage st' = ul_storage st"
    and "ul_attachments st' = ul_attachments st" and "ul_content st' = ul_content st"
  shows "mirrored parse u c st'"
  using assms by (simp add: mirrored_def)

lemma mirrored_persist:
  assumes "draft_codec parse stringify" and "us_userId sc = Some u" and "wf_storage (ul_storage st)"
    and "\<forall>a \<in> set (ul_attachments st). \<not> isUploadFailed (da_status a)"
  shows "mirrored parse u (us_conversationId sc) (persist stringify sc (ul_attachments st) st)"
  using assms read_written [OF assms(1), of u "us_conversationId sc"]
  by (simp add: mirrored_def persist_def)

lemma mirrored_commit:
  assumes "draft_codec parse stringify" and "us_userId sc = Some u"
    and "mirrored parse u (us_conversationId sc) st"
    and "\<forall>a \<in> set (f (ul_attachments st)). \<not> isUploadFailed (da_status a)"
  shows "mirrored parse u (us_conversationId sc) (commit stringify sc f st)"
proof -
  let ?st = "st\<lparr>ul_attachments := f (ul_attachments st)\<rparr>"
  have "mirrored parse u (us_conversationId sc) (persist stringify sc (ul_attachments ?st) ?st)"
    by (rule mirrored_persist) (use assms in \<open>simp_all add: mirrored_def\<close>)
  then show ?thesis using assms(3) by (simp add: commit_def Let_def)
qed

lemma mirrored_no_failed: "mirrored parse u c st \<Longrightarrow> a \<in> set (ul_attachments st) \<Longrightarrow> \<not> isUploadFailed (da_status a)"
  by (simp add: mirrored_def)

text \<open>The operations of one scope.\<close>

inductive scope_step ::
  "(jstr \<Rightarrow> jstr) \<Rightarrow> (attachment_draft \<Rightarrow> jstr) \<Rightarrow> upload_scope \<Rightarrow> uploads \<Rightarrow> uploads \<Rightarrow> bool"
  for lower stringify sc
where
  Scope_quiet: "quiet_step lower stringify sc st st' \<Longrightarrow> scope_step lower stringify sc st st'"
| Scope_start: "scope_step lower stringify sc st (start_file_begin lower stringify sc c url file origin st)"
| Scope_retry: "scope_step lower stringify sc st (retryAttachment lower stringify sc c' url c st)"
| Scope_clear: "ul_content st = [] \<Longrightarrow> scope_step lower stringify sc st (clear_uploads sc st)"

lemma draftFromUpload_status [simp]: "da_status (draftFromUpload a r) = Durable (fur_status r)"
  by (simp add: draftFromUpload_def Let_def)

lemma poll_record_in:
  assumes "poll_record rs a = Some r"
  shows "r \<in> set rs \<and> truthy (da_upload_id a) \<and> the (da_upload_id a) = fur_upload_id r"
proof -
  have upload: "truthy (da_upload_id a)"
    and "map_of (rev (map (\<lambda>r. (fur_upload_id r, r)) rs)) (the (da_upload_id a)) = Some r"
    using assms by (simp_all add: poll_record_def js_map_of_def split: if_splits)
  from map_of_SomeD [OF this(2)] upload show ?thesis by auto
qed

lemma poll_record_kept:
  assumes "poll_record rs a = Some r" and "\<not> is_removed rs a"
  shows "\<not> failed_status (fur_status r)"
  using poll_record_in [OF assms(1)] assms(2) by (auto simp: is_removed_def removed_ids_def)

lemma mirrored_update:
  assumes "draft_codec parse stringify" and "us_userId sc = Some u"
    and "mirrored parse u (us_conversationId sc) st"
  shows "mirrored parse u (us_conversationId sc) (updateUploadRecord stringify sc r c st)"
proof (cases "failed_status (fur_status r)")
  case True
  let ?st = "fold discardLocalAttachment (js_set (c # clients_of_upload (fur_upload_id r) st)) st"
  have "mirrored parse u (us_conversationId sc) ?st" by (rule mirrored_same [OF assms(3)]) simp_all
  then have "mirrored parse u (us_conversationId sc) (commit stringify sc
      (filter (\<lambda>a. da_client_id a \<noteq> c \<and> da_upload_id a \<noteq> Some (fur_upload_id r))) ?st)"
    by (rule mirrored_commit [OF assms(1,2)]) (use mirrored_no_failed [OF assms(3)] in auto)
  then show ?thesis using True mirrored_same by (auto simp: updateUploadRecord_def Let_def)
next
  case False
  have "mirrored parse u (us_conversationId sc) (commit stringify sc
      (map (\<lambda>a. if da_upload_id a = Some (fur_upload_id r) then draftFromUpload a r else a)) st')"
    if "ul_storage st' = ul_storage st" "ul_attachments st' = ul_attachments st"
      "ul_content st' = ul_content st" for st'
    by (rule mirrored_commit [OF assms(1,2) mirrored_same [OF assms(3) that]])
      (use False that mirrored_no_failed [OF assms(3)] in auto)
  with False show ?thesis by (simp add: updateUploadRecord_def Let_def split: option.splits)
qed

lemma mirrored_poll:
  assumes "draft_codec parse stringify" and "us_userId sc = Some u"
    and "mirrored parse u (us_conversationId sc) st"
  shows "mirrored parse u (us_conversationId sc) (poll_done stringify sc rs st)"
proof -
  let ?st = "fold (\<lambda>a. discardLocalAttachment (da_client_id a)) (filter (is_removed rs) (ul_attachments st))
    (fold (remember_polled rs) (ul_attachments st) st)"
  have "mirrored parse u (us_conversationId sc) ?st" by (rule mirrored_same [OF assms(3)]) simp_all
  then have "mirrored parse u (us_conversationId sc) (commit stringify sc (\<lambda>current.
      map (\<lambda>a. case poll_record rs a of None \<Rightarrow> a | Some r \<Rightarrow> draftFromUpload a r)
        (filter (\<lambda>a. \<not> is_removed rs a) current)) ?st)"
    by (rule mirrored_commit [OF assms(1,2)])
      (use mirrored_no_failed [OF assms(3)] poll_record_kept in \<open>auto split: option.splits\<close>)
  then show ?thesis using mirrored_same by (auto simp: poll_done_def Let_def)
qed

lemma mirrored_filter:
  assumes "draft_codec parse stringify" and "us_userId sc = Some u"
    and "mirrored parse u (us_conversationId sc) st"
  shows "mirrored parse u (us_conversationId sc) (commit stringify sc (filter p) st)"
  by (rule mirrored_commit [OF assms]) (use mirrored_no_failed [OF assms(3)] in auto)

lemma mirrored_discard:
  "mirrored parse u c st \<Longrightarrow> mirrored parse u c (discardLocalAttachment i st)"
  by (rule mirrored_same) simp_all

lemma mirrored_small:
  assumes "mirrored parse u c st"
  shows "mirrored parse u c (report_error m st)" "mirrored parse u c (clearUploadProgress i st)"
    "mirrored parse u c (drop_controller i st)" "mirrored parse u c (abort_controller i st)"
  by (rule mirrored_same [OF assms]; simp)+

lemma mirrored_start:
  assumes "draft_codec parse stringify" and "us_userId sc = Some u"
    and "mirrored parse u (us_conversationId sc) st"
  shows "mirrored parse u (us_conversationId sc) (start_file_begin lower stringify sc i url file origin st)"
  unfolding start_file_begin_def Let_def
proof (rule mirrored_commit [OF assms(1,2)], goal_cases)
  case 1
  show ?case by (rule mirrored_same [OF assms(3)]) simp_all
next
  case 2
  show ?case using mirrored_no_failed [OF assms(3)] by (auto simp: initial_draft_def Let_def)
qed

lemma set_swap: "i < length xs \<Longrightarrow> j < length xs \<Longrightarrow> set (swap i j xs) = set xs"
  by (simp add: swap_def)

lemma set_move_in: "set (move_in i d xs) = set xs"
  by (auto simp: move_in_def set_swap find_index_Some Let_def split: option.splits)

lemma quiet_step_mirrored:
  assumes "quiet_step lower stringify sc st st'" and codec: "draft_codec parse stringify"
    and user: "us_userId sc = Some u" and mir: "mirrored parse u (us_conversationId sc) st"
  shows "mirrored parse u (us_conversationId sc) st'"
  using assms(1)
proof cases
  case (Session v c session)
  have "mirrored parse u (us_conversationId sc) (commit stringify sc (map (\<lambda>a. if da_client_id a = c
      then a\<lparr>da_upload_id := Some (fus_upload_id session), da_status := Uploading,
        da_session_expires_at := Some (fus_session_expires_at session)\<rparr> else a)) st)"
    by (rule mirrored_commit [OF codec user mir]) (use mirrored_no_failed [OF mir] in auto)
  then have "mirrored parse u (us_conversationId sc) ((commit stringify sc (map (\<lambda>a. if da_client_id a = c
      then a\<lparr>da_upload_id := Some (fus_upload_id session), da_status := Uploading,
        da_session_expires_at := Some (fus_session_expires_at session)\<rparr> else a)) st)\<lparr>ul_controllers := cs\<rparr>)" for cs
    by (rule mirrored_same) simp_all
  with Session mir show ?thesis by (simp add: start_file_session_def Let_def)
next
  case (Upload_progress v c n)
  show ?thesis by (rule mirrored_same [OF mir])
      (simp_all add: Upload_progress start_file_progress_def reportUploadProgress_def)
next
  case (Uploaded v c)
  with mir show ?thesis by (simp add: start_file_uploaded_def mirrored_small Let_def)
next
  case (Confirmed v c r)
  with mir show ?thesis
    by (simp add: start_file_confirmed_def mirrored_small mirrored_update [OF codec user] Let_def)
next
  case (Upload_failed v c b)
  with mir show ?thesis
    by (simp add: start_file_failed_def mirrored_small mirrored_discard mirrored_filter [OF codec user] Let_def)
next
  case (Removed c)
  with mir show ?thesis by (simp add: remove_client_def mirrored_discard mirrored_filter [OF codec user])
next
  case (Moved c d)
  then show ?thesis
    using mirrored_commit [OF codec user mir, of "move_in c d"] mir
    by (simp add: moveAttachment_def set_move_in mirrored_def)
next
  case (Polled rs)
  with mirrored_poll [OF codec user mir] show ?thesis by simp
next
  case (Images_removed images)
  have "mirrored parse u (us_conversationId sc) (fold discardLocalAttachment (js_set (map da_client_id images)) st)"
    by (rule mirrored_same [OF mir]) simp_all
  with Images_removed show ?thesis by (simp add: remove_images_done_def mirrored_filter [OF codec user] Let_def)
next
  case (Edited content)
  have "mirrored parse u (us_conversationId sc)
      (persist stringify sc (ul_attachments (st\<lparr>ul_content := content\<rparr>)) (st\<lparr>ul_content := content\<rparr>))"
    by (rule mirrored_persist [OF codec user]) (use mir in \<open>simp_all add: mirrored_def\<close>)
  with Edited show ?thesis by (simp add: setDraftContent_def)
qed (use mir in \<open>simp_all add: mirrored_small\<close>)

lemma scope_step_mirrored:
  assumes "scope_step lower stringify sc st st'" and codec: "draft_codec parse stringify"
    and user: "us_userId sc = Some u" and mir: "mirrored parse u (us_conversationId sc) st"
  shows "mirrored parse u (us_conversationId sc) st'"
  using assms(1)
proof cases
  case Scope_quiet
  then show ?thesis using quiet_step_mirrored assms by blast
next
  case (Scope_start c url f origin)
  then show ?thesis using mirrored_start [OF codec user mir] by simp
next
  case (Scope_retry c' url c)
  then show ?thesis
    using mir by (simp add: retryAttachment_def mirrored_small mirrored_discard mirrored_filter [OF codec user]
        mirrored_start [OF codec user] Let_def split: option.splits)
next
  case Scope_clear
  then show ?thesis
    using user mir
    by (auto simp: clear_uploads_def release_all_def mirrored_def clear_file_draft_def read_file_draft_def
        get_remove_item truthy_def serializable_draft_def emptyDraft_def Let_def)
qed

section \<open>Properties\<close>


text \<open>
  A concrete codec: drafts are countable, and the decimal digits of a draft's number are a string
  that gives the draft back.
\<close>

instance json :: countable by countable_datatype

instance attachment_origin :: countable by countable_datatype

instance input_kind :: countable by countable_datatype

instance file_upload_status :: countable by countable_datatype

instance draft_attachment_status :: countable by countable_datatype

instance file_attachment_ext :: (countable) countable
proof (rule countable_classI [of "\<lambda>f. to_nat ((fa_id f, fa_name f, fa_media_type f, fa_size_bytes f,
    fa_category f, fa_model_input_kind f, fa_origin f), (fa_position f, fa_warning f, fa_warnings f,
    fa_preview_available f, fa_stats f, fa_upload_expires_at f, fa_unbound_expires_at f), file_attachment.more f)"])
  fix x y :: "'a file_attachment_ext"
  show "to_nat ((fa_id x, fa_name x, fa_media_type x, fa_size_bytes x, fa_category x,
      fa_model_input_kind x, fa_origin x), (fa_position x, fa_warning x, fa_warnings x,
      fa_preview_available x, fa_stats x, fa_upload_expires_at x, fa_unbound_expires_at x), file_attachment.more x) =
    to_nat ((fa_id y, fa_name y, fa_media_type y, fa_size_bytes y, fa_category y,
      fa_model_input_kind y, fa_origin y), (fa_position y, fa_warning y, fa_warnings y,
      fa_preview_available y, fa_stats y, fa_upload_expires_at y, fa_unbound_expires_at y), file_attachment.more y) \<Longrightarrow>
    x = y"
    by (cases x; cases y) simp
qed

instance draft_attachment_ext :: (countable) countable
proof (rule countable_classI [of "\<lambda>d. to_nat ((da_client_id d, da_upload_id d, da_status d, da_error_code d,
    da_error_message d, da_file d, da_name d), (da_media_type d, da_size_bytes d, da_category d,
    da_model_input_kind d, da_origin d, da_progress d, da_local_preview_url d, da_session_expires_at d),
    draft_attachment.more d)"])
  fix x y :: "'a draft_attachment_ext"
  show "to_nat ((da_client_id x, da_upload_id x, da_status x, da_error_code x,
      da_error_message x, da_file x, da_name x), (da_media_type x, da_size_bytes x, da_category x,
      da_model_input_kind x, da_origin x, da_progress x, da_local_preview_url x, da_session_expires_at x),
      draft_attachment.more x) =
    to_nat ((da_client_id y, da_upload_id y, da_status y, da_error_code y,
      da_error_message y, da_file y, da_name y), (da_media_type y, da_size_bytes y, da_category y,
      da_model_input_kind y, da_origin y, da_progress y, da_local_preview_url y, da_session_expires_at y),
      draft_attachment.more y) \<Longrightarrow> x = y"
    by (cases x; cases y) simp
qed

definition demo_stringify :: "attachment_draft \<Rightarrow> jstr" where
  "demo_stringify d = digits (to_nat (ad_content d, ad_attachments d))"

definition demo_read_draft :: draft_parser where
  "demo_read_draft s = (let (content, attachments) = from_nat (digits_value s)
     in Some (Some content, Some attachments))"

lemma demo_codec: "draft_codec demo_read_draft demo_stringify"
  using digits_are_digits
  by (simp add: draft_codec_def demo_read_draft_def demo_stringify_def digits_value_digits)

definition demo_scope :: upload_scope where
  "demo_scope = \<lparr>us_userId = Some (js ''1''), us_conversationId = None\<rparr>"


end
