(* ===== verification/Slices.thy ===== *)
theory Slices
  imports Api_Types
begin

text \<open>
  The contract every slice of the store keeps. \<open>rootReducer\<close> (\<open>frontend/src/app/store.ts\<close>)
  hands every action to the reducer of every slice; a slice promises an initial state, an
  invariant that each admissible action keeps, and a blank state that \<open>app/reset\<close> returns to. The
  consequences for whole sequences of actions are proved here once, for any slice; the theory of
  each slice interprets the locale on its own reducer.
\<close>

text \<open>
  \<open>admissible reduce ok s as\<close>: running the actions \<open>as\<close> from \<open>s\<close>, each satisfies \<open>ok\<close> in the
  state it meets.
\<close>

primrec admissible ::
  "('s \<Rightarrow> app_action \<Rightarrow> 's) \<Rightarrow> ('s \<Rightarrow> app_action \<Rightarrow> bool) \<Rightarrow> 's \<Rightarrow> app_action list \<Rightarrow> bool"
where
  "admissible reduce ok s [] = True"
| "admissible reduce ok s (a # as) = (ok s a \<and> admissible reduce ok (reduce s a) as)"

lemma admissible_append:
  "admissible reduce ok s (as @ bs) \<longleftrightarrow>
     admissible reduce ok s as \<and> admissible reduce ok (foldl reduce s as) bs"
  by (induction as arbitrary: s) auto

locale slice =
  fixes init blank :: 's
    and reduce :: "'s \<Rightarrow> app_action \<Rightarrow> 's"
    and inv :: "'s \<Rightarrow> bool"
    and ok :: "'s \<Rightarrow> app_action \<Rightarrow> bool"
  assumes inv_init: "inv init"
    and inv_reduce: "inv s \<Longrightarrow> ok s a \<Longrightarrow> inv (reduce s a)"
    and reset: "reduce s App_reset = blank"
begin

lemma inv_from: "inv s \<Longrightarrow> admissible reduce ok s as \<Longrightarrow> inv (foldl reduce s as)"
  by (induction as arbitrary: s) (auto intro: inv_reduce)

lemma inv_run: "admissible reduce ok init as \<Longrightarrow> inv (foldl reduce init as)"
  by (rule inv_from [OF inv_init])

lemma reset_forgets:
  "foldl reduce s (as @ App_reset # cs) = foldl reduce t (bs @ App_reset # cs)"
  by (simp add: reset)

end

text \<open>A slice whose invariant holds whatever is dispatched.\<close>

locale total_slice = slice +
  assumes ok_always: "ok s a"
begin

lemma admissible_always: "admissible reduce ok s as"
  by (induction as arbitrary: s) (auto intro: ok_always)

lemma inv_always: "inv (foldl reduce init as)"
  by (rule inv_run [OF admissible_always])

end

end
