(* ===== verification/Conversation_Index.thy ===== *)
theory Conversation_Index
  imports Slices
begin

text \<open>
  The sidebar slice of the store: \<open>ConversationIndexState\<close>, \<open>conversationIndexReducer\<close> and its
  helpers \<open>markUnread\<close>, \<open>mergeFirstPage\<close>, \<open>withPinned\<close>, \<open>applyMarkers\<close> and
  \<open>reconcileList\<close> (\<open>frontend/src/conversations/state.ts\<close>). Every operation that compares
  timestamps takes \<open>Date.parse\<close> as its argument \<open>dp\<close>.

  The lemmas show that no conversation is ever listed twice, that the open conversation is never
  marked unread, how a refreshed page merges with the rows already loaded, and where the marker
  and run actions put a row.
\<close>

section \<open>Definitions\<close>

datatype index_status = IndexIdle | IndexLoading | IndexLoadingMore | IndexError

record conversation_index_state =
  ci_items :: "conversation_response list"
  ci_pinnedItems :: "conversation_response list"
  ci_selectedId :: "jstr option"
  ci_draftId :: "jstr option"
  ci_pendingTitleIds :: "jstr list"
  ci_unreadIds :: "jstr list"
  ci_status :: index_status
  ci_hasMore :: bool

definition initialConversationIndexState :: conversation_index_state where
  "initialConversationIndexState = \<lparr>ci_items = [], ci_pinnedItems = [], ci_selectedId = None,
     ci_draftId = None, ci_pendingTitleIds = [], ci_unreadIds = [], ci_status = IndexLoading,
     ci_hasMore = True\<rparr>"

abbreviation ids :: "conversation_response list \<Rightarrow> jstr list" where
  "ids cs \<equiv> map conv_id cs"

abbreviation find_conv :: "jstr \<Rightarrow> conversation_response list \<Rightarrow> conversation_response option" where
  "find_conv i cs \<equiv> List.find (\<lambda>c. conv_id c = i) cs"

definition markUnread :: "jstr list \<Rightarrow> jstr \<Rightarrow> jstr option \<Rightarrow> jstr list" where
  "markUnread unreadIds i selectedId =
     (if Some i = selectedId \<or> i \<in> set unreadIds then unreadIds else unreadIds @ [i])"

definition mergeFirstPage ::
  "date_parse \<Rightarrow> conversation_response list \<Rightarrow> conversation_response list \<Rightarrow>
   conversation_response list"
where
  "mergeFirstPage dp current page =
     (let byId = js_map_of (map (\<lambda>c. (conv_id c, c)) current);
          merged = map (\<lambda>incoming.
            case byId (conv_id incoming) of
              None \<Rightarrow> incoming
            | Some local \<Rightarrow>
                if date_less dp (conv_updated_at incoming) (conv_updated_at local)
                then local else incoming) page
      in merged @ filter (\<lambda>c. conv_id c \<notin> set (ids page)) current)"

definition withPinned ::
  "conversation_index_state \<Rightarrow> conversation_response list option \<Rightarrow> conversation_index_state"
where
  "withPinned state pinned =
     (let pinnedItems = nullish pinned (ci_pinnedItems state)
      in state\<lparr>ci_pinnedItems := pinnedItems,
           ci_items := filter (\<lambda>c. conv_id c \<notin> set (ids pinnedItems)) (ci_items state)\<rparr>)"

text \<open>\<open>findIndex\<close> followed by \<open>splice(index === -1 ? length : index, 0, row)\<close>.\<close>

definition insert_before :: "('a \<Rightarrow> bool) \<Rightarrow> 'a \<Rightarrow> 'a list \<Rightarrow> 'a list" where
  "insert_before p row xs = splice_in (nullish (find_index p xs) (length xs)) row xs"

definition applyMarkers ::
  "date_parse \<Rightarrow> conversation_index_state \<Rightarrow> conversation_response \<Rightarrow> conversation_index_state"
where
  "applyMarkers dp state incoming =
     (let local = orelse (find_conv (conv_id incoming) (ci_pinnedItems state))
                         (find_conv (conv_id incoming) (ci_items state));
          row = (nullish local incoming)\<lparr>conv_pinned_at := conv_pinned_at incoming,
                  conv_favorited_at := conv_favorited_at incoming\<rparr>;
          pinnedItems = filter (\<lambda>c. conv_id c \<noteq> conv_id row) (ci_pinnedItems state);
          items = filter (\<lambda>c. conv_id c \<noteq> conv_id row) (ci_items state)
      in if truthy (conv_pinned_at row)
         then state\<lparr>ci_pinnedItems :=
                insert_before (\<lambda>c. date_less dp (nullish (conv_pinned_at c) [])
                                 (nullish (conv_pinned_at row) [])) row pinnedItems,
                ci_items := items\<rparr>
         else if local = None then state
         else
           let older = (\<lambda>c. date_less dp (conv_updated_at c) (conv_updated_at row))
           in if find_index older items = None \<and> ci_hasMore state
              then state\<lparr>ci_pinnedItems := pinnedItems, ci_items := items\<rparr>
              else state\<lparr>ci_pinnedItems := pinnedItems,
                     ci_items := insert_before older row items\<rparr>)"

definition reconcileList ::
  "conversation_index_state \<Rightarrow> conversation_index_state \<Rightarrow> conversation_index_state"
where
  "reconcileList prev next =
     (let prevById = js_map_of (map (\<lambda>c. (conv_id c, c)) (ci_items prev @ ci_pinnedItems prev));
          nextItems = ci_items next @ ci_pinnedItems next;
          unreadIds = foldl (\<lambda>unread item.
            if (case prevById (conv_id item) of None \<Rightarrow> False | Some c \<Rightarrow> conv_active_run c \<noteq> None)
               \<and> conv_active_run item = None
            then markUnread unread (conv_id item) (ci_selectedId next) else unread)
            (ci_unreadIds next) nextItems;
          titled = set (ids (filter (\<lambda>c. truthy_trim (conv_title c)) nextItems))
      in next\<lparr>ci_unreadIds := unreadIds,
           ci_pendingTitleIds := filter (\<lambda>i. i \<notin> titled) (ci_pendingTitleIds next)\<rparr>)"

definition start_run ::
  "conversation_index_state \<Rightarrow> conversation_response \<Rightarrow> conversation_active_run \<Rightarrow> jstr \<Rightarrow>
   conversation_index_state"
where
  "start_run state conversation run updatedAt =
     (case find_conv (conv_id conversation) (ci_pinnedItems state) of
        Some pinned \<Rightarrow>
          let started = pinned\<lparr>conv_active_run := Some run, conv_updated_at := updatedAt\<rparr>
          in state\<lparr>ci_pinnedItems := map (\<lambda>c. if conv_id c = conv_id started then started else c)
               (ci_pinnedItems state)\<rparr>
      | None \<Rightarrow>
          let existing = find_conv (conv_id conversation) (ci_items state);
              started = (nullish existing conversation)
                \<lparr>conv_active_run := Some run, conv_updated_at := updatedAt\<rparr>;
              needsTitle = (\<not> truthy_trim (conv_title started) \<and>
                conv_id started \<notin> set (ci_pendingTitleIds state))
          in state\<lparr>ci_items := started #
                 filter (\<lambda>c. conv_id c \<noteq> conv_id started) (ci_items state),
               ci_pendingTitleIds := (if needsTitle
                 then ci_pendingTitleIds state @ [conv_id started]
                 else ci_pendingTitleIds state)\<rparr>)"

definition finish_row :: "jstr \<Rightarrow> conversation_response \<Rightarrow> conversation_response" where
  "finish_row i c = (if conv_id c = i \<and> conv_active_run c \<noteq> None
     then c\<lparr>conv_active_run := None\<rparr> else c)"

definition rename_row :: "conversation_response \<Rightarrow> conversation_response \<Rightarrow> conversation_response"
where
  "rename_row renamed c = (if conv_id c = conv_id renamed
     then renamed\<lparr>conv_active_run := conv_active_run c\<rparr> else c)"

fun index_step ::
  "date_parse \<Rightarrow> conversation_index_state \<Rightarrow> conversation_index_action \<Rightarrow> conversation_index_state"
where
  "index_step dp state ListLoading = state\<lparr>ci_status := IndexLoading\<rparr>"
| "index_step dp state (ListLoaded items pinned hasMore) =
     reconcileList state
       (withPinned (state\<lparr>ci_items := items, ci_hasMore := nullish hasMore False,
          ci_status := IndexIdle\<rparr>) pinned)"
| "index_step dp state (ListSynced items pinned) =
     reconcileList state
       (withPinned (state\<lparr>ci_items := mergeFirstPage dp (ci_items state) items\<rparr>)
          (map_option (\<lambda>p. filter (\<lambda>c. \<exists>q \<in> set p. conv_id q = conv_id c)
             (mergeFirstPage dp (ci_pinnedItems state) p)) pinned))"
| "index_step dp state (MarkerChanged conversation) = applyMarkers dp state conversation"
| "index_step dp state (ConvRunStarted conversation run updatedAt) =
     start_run state conversation run updatedAt"
| "index_step dp state (ConvRunFinished i) =
     state\<lparr>ci_items := map (finish_row i) (ci_items state),
       ci_pinnedItems := map (finish_row i) (ci_pinnedItems state),
       ci_unreadIds := markUnread (ci_unreadIds state) i (ci_selectedId state)\<rparr>"
| "index_step dp state ListLoadingMore = state\<lparr>ci_status := IndexLoadingMore\<rparr>"
| "index_step dp state (ListPageLoaded items hasMore) =
     (let existingIds = set (ids (ci_items state));
          appended = filter (\<lambda>c. conv_id c \<notin> existingIds) items
      in state\<lparr>ci_items := ci_items state @ appended, ci_hasMore := hasMore,
           ci_status := IndexIdle\<rparr>)"
| "index_step dp state ListError = state\<lparr>ci_status := IndexError\<rparr>"
| "index_step dp state (ConvSelected i) =
     state\<lparr>ci_selectedId := i, ci_unreadIds := filter (\<lambda>u. Some u \<noteq> i) (ci_unreadIds state)\<rparr>"
| "index_step dp state (ConvRenamed conversation) =
     state\<lparr>ci_items := map (rename_row conversation) (ci_items state),
       ci_pinnedItems := map (rename_row conversation) (ci_pinnedItems state)\<rparr>"
| "index_step dp state (ConvRemoved i) =
     state\<lparr>ci_items := filter (\<lambda>c. conv_id c \<noteq> i) (ci_items state),
       ci_pinnedItems := filter (\<lambda>c. conv_id c \<noteq> i) (ci_pinnedItems state),
       ci_unreadIds := filter (\<lambda>u. u \<noteq> i) (ci_unreadIds state)\<rparr>"
| "index_step dp state (DraftCreated i) = state\<lparr>ci_draftId := Some i\<rparr>"
| "index_step dp state DraftActivated = state\<lparr>ci_draftId := None\<rparr>"
| "index_step dp state (TitlePending i) =
     (if i \<in> set (ci_pendingTitleIds state) then state
      else state\<lparr>ci_pendingTitleIds := ci_pendingTitleIds state @ [i]\<rparr>)"
| "index_step dp state (TitleResolved i) =
     state\<lparr>ci_pendingTitleIds := filter (\<lambda>j. j \<noteq> i) (ci_pendingTitleIds state)\<rparr>"

definition conversationIndexReducer ::
  "date_parse \<Rightarrow> conversation_index_state \<Rightarrow> app_action \<Rightarrow> conversation_index_state"
where
  "conversationIndexReducer dp state action =
     (case action of
        IndexA a \<Rightarrow> index_step dp state a
      | App_reset \<Rightarrow> initialConversationIndexState
      | _ \<Rightarrow> state)"

section \<open>Unread marks\<close>

lemma markUnread_set:
  "set (markUnread us i sel) = (if Some i = sel then set us else insert i (set us))"
  by (auto simp: markUnread_def)

lemma markUnread_distinct [simp]: "distinct (markUnread us i sel) \<longleftrightarrow> distinct us"
  by (auto simp: markUnread_def)

lemma fold_markUnread_set:
  "set (foldl (\<lambda>u x. if P x then markUnread u (f x) sel else u) us xs) =
     set us \<union> {f x |x. x \<in> set xs \<and> P x \<and> Some (f x) \<noteq> sel}"
  by (induction xs arbitrary: us) (auto simp: markUnread_set)

lemma fold_markUnread_distinct:
  "distinct (foldl (\<lambda>u x. if P x then markUnread u (f x) sel else u) us xs) \<longleftrightarrow> distinct us"
  by (induction xs arbitrary: us) auto

section \<open>Merging a refreshed page\<close>

lemma map_by_id_lookup:
  assumes "js_map_of (map (\<lambda>c. (conv_id c, c)) cs) i = Some c"
  shows "c \<in> set cs \<and> conv_id c = i"
  using js_map_of_in [OF assms] by auto

lemma merged_id:
  "conv_id (case js_map_of (map (\<lambda>c. (conv_id c, c)) cs) (conv_id x) of None \<Rightarrow> x
     | Some local \<Rightarrow> if q local then local else x) = conv_id x"
  by (auto split: option.splits dest: map_by_id_lookup)

lemma ids_mergeFirstPage:
  "ids (mergeFirstPage dp current page) = ids page @ filter (\<lambda>i. i \<notin> set (ids page)) (ids current)"
  by (simp add: mergeFirstPage_def Let_def merged_id filter_map comp_def)

lemma distinct_mergeFirstPage:
  "distinct (ids current) \<Longrightarrow> distinct (ids page) \<Longrightarrow> distinct (ids (mergeFirstPage dp current page))"
  by (simp only: ids_mergeFirstPage distinct_append) auto

lemma set_ids_mergeFirstPage:
  "set (ids (mergeFirstPage dp current page)) = set (ids current) \<union> set (ids page)"
  by (simp only: ids_mergeFirstPage set_append set_filter) auto

lemma mergeFirstPage_keeps_newer:
  assumes "distinct (ids current)" and "c \<in> set current" and "x \<in> set page"
    and "conv_id x = conv_id c" and "date_less dp (conv_updated_at x) (conv_updated_at c)"
  shows "c \<in> set (mergeFirstPage dp current page)"
proof -
  have "js_map_of (map (\<lambda>c. (conv_id c, c)) current) (conv_id x) = Some c"
    using assms(1,2,4) by (simp add: js_map_of_distinct comp_def)
  with assms(3,5) show ?thesis
    by (force simp: mergeFirstPage_def Let_def)
qed

lemma mergeFirstPage_keeps_beyond:
  "c \<in> set current \<Longrightarrow> conv_id c \<notin> set (ids page) \<Longrightarrow> c \<in> set (mergeFirstPage dp current page)"
  by (simp add: mergeFirstPage_def Let_def)

section \<open>Inserting a row\<close>

lemma set_insert_before [simp]: "set (insert_before p x xs) = insert x (set xs)"
  by (simp add: insert_before_def)

lemma ids_insert_before:
  "set (ids (insert_before p x xs)) = insert (conv_id x) (set (ids xs))"
  by simp

lemma distinct_insert_before:
  "distinct (ids (insert_before p x xs)) \<longleftrightarrow> conv_id x \<notin> set (ids xs) \<and> distinct (ids xs)"
  by (simp add: insert_before_def map_splice_in)

lemma insert_before_Cons:
  "insert_before p x (y # ys) = (if p y then x # y # ys else y # insert_before p x ys)"
  by (cases "find_index p ys") (auto simp: insert_before_def splice_in_def nullish_def)

lemma insert_before_Nil [simp]: "insert_before p x [] = [x]"
  by (simp add: insert_before_def splice_in_def nullish_def)

lemma insert_before_sorted:
  fixes f :: "'a \<Rightarrow> int"
  assumes "sorted_wrt (\<lambda>a b. f a \<ge> f b) xs"
  shows "sorted_wrt (\<lambda>a b. f a \<ge> f b) (insert_before (\<lambda>c. f c < f x) x xs)"
  using assms by (induction xs) (auto simp: insert_before_Cons)

lemma insert_before_remove:
  assumes "\<forall>y \<in> set as. \<not> p y" and "bs = [] \<or> p (hd bs)"
  shows "insert_before p x (as @ bs) = as @ x # bs"
  using assms by (induction as) (cases bs; auto simp: insert_before_Cons)+

section \<open>Invariant of the slice\<close>

definition index_inv :: "conversation_index_state \<Rightarrow> bool" where
  "index_inv s \<longleftrightarrow>
     distinct (ids (ci_items s)) \<and> distinct (ids (ci_pinnedItems s)) \<and>
     set (ids (ci_items s)) \<inter> set (ids (ci_pinnedItems s)) = {} \<and>
     distinct (ci_unreadIds s) \<and> distinct (ci_pendingTitleIds s) \<and>
     (\<forall>i. ci_selectedId s = Some i \<longrightarrow> i \<notin> set (ci_unreadIds s))"

text \<open>
  What the server promises about the rows it sends: a page has no duplicates, and a recent page
  holds no pinned conversation (\<open>view=recent\<close> leaves pinned rows out). The last condition matters
  for \<open>listPageLoaded\<close> only: the other list actions filter the recent rows themselves.
\<close>

fun index_ok :: "conversation_index_state \<Rightarrow> conversation_index_action \<Rightarrow> bool" where
  "index_ok s (ListLoaded items pinned _) =
     (distinct (ids items) \<and> (case pinned of None \<Rightarrow> True | Some p \<Rightarrow> distinct (ids p)))"
| "index_ok s (ListSynced items pinned) =
     (distinct (ids items) \<and> (case pinned of None \<Rightarrow> True | Some p \<Rightarrow> distinct (ids p)))"
| "index_ok s (ListPageLoaded items _) =
     (distinct (ids items) \<and> set (ids items) \<inter> set (ids (ci_pinnedItems s)) = {})"
| "index_ok s _ = True"

lemma index_invD:
  assumes "index_inv s"
  shows "distinct (ids (ci_items s))" and "distinct (ids (ci_pinnedItems s))"
    and "set (ids (ci_items s)) \<inter> set (ids (ci_pinnedItems s)) = {}"
    and "distinct (ci_unreadIds s)" and "distinct (ci_pendingTitleIds s)"
    and "\<forall>i. ci_selectedId s = Some i \<longrightarrow> i \<notin> set (ci_unreadIds s)"
  using assms by (simp_all add: index_inv_def)

lemma index_inv_initial: "index_inv initialConversationIndexState"
  by (simp add: index_inv_def initialConversationIndexState_def)

lemma reconcileList_lists [simp]:
  "ci_items (reconcileList prev next) = ci_items next"
  "ci_pinnedItems (reconcileList prev next) = ci_pinnedItems next"
  "ci_selectedId (reconcileList prev next) = ci_selectedId next"
  "ci_hasMore (reconcileList prev next) = ci_hasMore next"
  "ci_status (reconcileList prev next) = ci_status next"
  "ci_draftId (reconcileList prev next) = ci_draftId next"
  by (simp_all add: reconcileList_def Let_def)

text \<open>The rows whose run was in flight in \<open>prev\<close> and is over in \<open>next\<close>.\<close>

definition finished_in :: "conversation_index_state \<Rightarrow> conversation_response \<Rightarrow> bool" where
  "finished_in prev item \<longleftrightarrow>
     (case js_map_of (map (\<lambda>c. (conv_id c, c)) (ci_items prev @ ci_pinnedItems prev))
        (conv_id item) of None \<Rightarrow> False | Some c \<Rightarrow> conv_active_run c \<noteq> None) \<and>
     conv_active_run item = None"

lemma reconcileList_unread:
  "set (ci_unreadIds (reconcileList prev next)) = set (ci_unreadIds next) \<union>
     {conv_id x |x. x \<in> set (ci_items next @ ci_pinnedItems next) \<and> finished_in prev x \<and>
        Some (conv_id x) \<noteq> ci_selectedId next}"
  unfolding reconcileList_def Let_def finished_in_def [symmetric]
  by (auto simp: fold_markUnread_set)

lemma reconcileList_distinct_unread:
  "distinct (ci_unreadIds (reconcileList prev next)) \<longleftrightarrow> distinct (ci_unreadIds next)"
  unfolding reconcileList_def Let_def finished_in_def [symmetric]
  by (simp add: fold_markUnread_distinct)

lemma reconcileList_inv: "index_inv next \<Longrightarrow> index_inv (reconcileList prev next)"
proof -
  assume inv: "index_inv next"
  have "distinct (ci_pendingTitleIds (reconcileList prev next))"
    using inv by (simp add: reconcileList_def index_inv_def Let_def)
  with inv show ?thesis
    by (auto simp: index_inv_def reconcileList_unread reconcileList_distinct_unread)
qed

lemma withPinned_inv:
  assumes "distinct (ids (ci_items s))" and "distinct (ids (nullish pinned (ci_pinnedItems s)))"
    and "distinct (ci_unreadIds s)" and "distinct (ci_pendingTitleIds s)"
    and "\<forall>i. ci_selectedId s = Some i \<longrightarrow> i \<notin> set (ci_unreadIds s)"
  shows "index_inv (withPinned s pinned)"
  using assms by (auto simp: index_inv_def withPinned_def Let_def distinct_map_filterI)

lemma applyMarkers_row_id:
  "orelse (find_conv (conv_id x) ps) (find_conv (conv_id x) xs) = Some l \<Longrightarrow> conv_id l = conv_id x"
  by (auto simp: orelse_def split: option.splits dest: find_SomeD)

lemma applyMarkers_inv:
  assumes "index_inv s"
  shows "index_inv (applyMarkers dp s x)"
proof -
  let ?local = "orelse (find_conv (conv_id x) (ci_pinnedItems s)) (find_conv (conv_id x) (ci_items s))"
  have row: "conv_id (nullish ?local x) = conv_id x"
    by (cases ?local) (auto simp: nullish_def dest: applyMarkers_row_id)
  show ?thesis
    using assms
    by (auto simp: index_inv_def applyMarkers_def Let_def row distinct_insert_before
        distinct_map_filterI)
qed

lemma start_run_inv:
  assumes "index_inv s"
  shows "index_inv (start_run s c run t)"
proof (cases "find_conv (conv_id c) (ci_pinnedItems s)")
  case (Some p)
  then have "conv_id p = conv_id c" by (auto dest: find_SomeD)
  then have "ids (ci_pinnedItems (start_run s c run t)) = ids (ci_pinnedItems s)"
    using Some by (auto simp: start_run_def Let_def)
  then show ?thesis
    using assms Some by (simp only: index_inv_def) (simp add: start_run_def Let_def)
next
  case None
  then have "conv_id (nullish (find_conv (conv_id c) (ci_items s)) c) = conv_id c"
    by (auto simp: nullish_def split: option.splits dest: find_SomeD)
  moreover have "conv_id c \<notin> set (ids (ci_pinnedItems s))"
    using None by (auto simp: find_None_iff)
  ultimately show ?thesis
    using assms None by (auto simp: index_inv_def start_run_def Let_def distinct_map_filterI)
qed

lemma conv_id_finish_row [simp]: "conv_id (finish_row i c) = conv_id c"
  by (simp add: finish_row_def)

lemma conv_id_rename_row [simp]: "conv_id (rename_row r c) = conv_id c"
  by (simp add: rename_row_def)

lemma index_step_inv:
  assumes inv: "index_inv s" and ok: "index_ok s a"
  shows "index_inv (index_step dp s a)"
proof (cases a)
  case (ListLoaded items pinned hasMore)
  with ok have "distinct (ids items)" "distinct (ids (nullish pinned (ci_pinnedItems s)))"
    using index_invD [OF inv] by (auto simp: nullish_def split: option.splits)
  then show ?thesis
    using index_invD [OF inv] unfolding ListLoaded index_step.simps
    by (intro reconcileList_inv withPinned_inv) simp_all
next
  case (ListSynced items pinned)
  let ?p = "map_option (\<lambda>p. filter (\<lambda>c. \<exists>q \<in> set p. conv_id q = conv_id c)
    (mergeFirstPage dp (ci_pinnedItems s) p)) pinned"
  have "distinct (ids (mergeFirstPage dp (ci_items s) items))"
    using index_invD [OF inv] ok ListSynced by (simp add: distinct_mergeFirstPage)
  moreover have "distinct (ids (nullish ?p (ci_pinnedItems s)))"
    using index_invD [OF inv] ok ListSynced
    by (cases pinned) (simp_all add: nullish_def distinct_map_filterI distinct_mergeFirstPage)
  ultimately show ?thesis
    using index_invD [OF inv] unfolding ListSynced index_step.simps
    by (intro reconcileList_inv withPinned_inv) simp_all
next
  case (MarkerChanged c)
  with inv show ?thesis by (simp add: applyMarkers_inv)
next
  case (ConvRunStarted c run t)
  with inv show ?thesis by (simp add: start_run_inv)
next
  case (ListPageLoaded items hasMore)
  with inv ok show ?thesis
    by (auto simp: index_inv_def Let_def distinct_map_filterI) (metis image_eqI)
qed (use inv in \<open>auto simp: index_inv_def markUnread_set comp_def distinct_map_filterI\<close>)

definition index_action_ok :: "conversation_index_state \<Rightarrow> app_action \<Rightarrow> bool" where
  "index_action_ok s a = (case a of IndexA x \<Rightarrow> index_ok s x | _ \<Rightarrow> True)"

lemma conversationIndexReducer_inv:
  "index_inv s \<Longrightarrow> index_action_ok s a \<Longrightarrow> index_inv (conversationIndexReducer dp s a)"
  by (cases a)
    (simp_all add: conversationIndexReducer_def index_action_ok_def index_step_inv
      index_inv_initial)

lemma conversationIndexReducer_reset:
  "conversationIndexReducer dp s App_reset = initialConversationIndexState"
  by (simp add: conversationIndexReducer_def)

interpretation index_slice: slice initialConversationIndexState initialConversationIndexState
  "conversationIndexReducer dp" index_inv index_action_ok for dp
  by unfold_locales
    (simp_all add: conversationIndexReducer_inv index_inv_initial conversationIndexReducer_reset)

section \<open>Where a marker puts a row\<close>

text \<open>\<open>Date.parse(c.pinned_at ?? "")\<close> of a row, and the order of the pinned section.\<close>

definition pin_time :: "date_parse \<Rightarrow> conversation_response \<Rightarrow> int option" where
  "pin_time dp c = dp (nullish (conv_pinned_at c) [])"

abbreviation newest_pin_first :: "date_parse \<Rightarrow> conversation_response list \<Rightarrow> bool" where
  "newest_pin_first dp cs \<equiv> sorted_wrt (\<lambda>a b. the (pin_time dp a) \<ge> the (pin_time dp b)) cs"

lemma insert_before_cong:
  "\<forall>y \<in> set xs. p y = q y \<Longrightarrow> insert_before p x xs = insert_before q x xs"
  by (induction xs) (simp_all add: insert_before_Cons)

lemma insert_before_dates_sorted:
  assumes "\<forall>c \<in> set xs. pin_time dp c \<noteq> None" and "pin_time dp x \<noteq> None"
    and "newest_pin_first dp xs"
  shows "newest_pin_first dp
    (insert_before (\<lambda>c. date_less dp (nullish (conv_pinned_at c) []) (nullish (conv_pinned_at x) [])) x xs)"
proof -
  have "insert_before (\<lambda>c. date_less dp (nullish (conv_pinned_at c) []) (nullish (conv_pinned_at x) [])) x xs
      = insert_before (\<lambda>c. the (pin_time dp c) < the (pin_time dp x)) x xs"
    using assms(1,2)
    by (intro insert_before_cong) (auto simp: date_less_def pin_time_def)
  then show ?thesis
    using insert_before_sorted [OF assms(3), of x] by simp
qed

text \<open>The row that \<open>applyMarkers\<close> places: the local one when there is one, with the new markers.\<close>

definition marker_row :: "conversation_index_state \<Rightarrow> conversation_response \<Rightarrow> conversation_response"
where
  "marker_row s x = (nullish (orelse (find_conv (conv_id x) (ci_pinnedItems s))
      (find_conv (conv_id x) (ci_items s))) x)
    \<lparr>conv_pinned_at := conv_pinned_at x, conv_favorited_at := conv_favorited_at x\<rparr>"

lemma marker_row_simps [simp]:
  "conv_id (marker_row s x) = conv_id x" "conv_pinned_at (marker_row s x) = conv_pinned_at x"
  "conv_favorited_at (marker_row s x) = conv_favorited_at x"
  by (auto simp: marker_row_def nullish_def split: option.splits dest: applyMarkers_row_id)

lemma applyMarkers_pin:
  "truthy (conv_pinned_at x) \<Longrightarrow> applyMarkers dp s x =
     s\<lparr>ci_pinnedItems := insert_before (\<lambda>c. date_less dp (nullish (conv_pinned_at c) [])
           (nullish (conv_pinned_at (marker_row s x)) [])) (marker_row s x)
           (filter (\<lambda>c. conv_id c \<noteq> conv_id x) (ci_pinnedItems s)),
       ci_items := filter (\<lambda>c. conv_id c \<noteq> conv_id x) (ci_items s)\<rparr>"
proof -
  let ?l = "orelse (find_conv (conv_id x) (ci_pinnedItems s)) (find_conv (conv_id x) (ci_items s))"
  have "conv_id (nullish ?l x) = conv_id x"
    by (auto simp: nullish_def split: option.splits dest: applyMarkers_row_id)
  then show "truthy (conv_pinned_at x) \<Longrightarrow> ?thesis"
    by (simp add: applyMarkers_def marker_row_def Let_def)
qed

text \<open>Rows for the concrete instances below.\<close>

definition demo_conv :: "string \<Rightarrow> string option \<Rightarrow> string \<Rightarrow> conversation_response" where
  "demo_conv i pin upd = \<lparr>conv_id = js i, conv_title = None, conv_activated_at = None,
     conv_pinned_at = map_option js pin, conv_favorited_at = None, conv_created_at = js ''1'',
     conv_updated_at = js upd, conv_deleted_at = None, conv_deletion_due_at = None,
     conv_active_run = None\<rparr>"

text \<open>A date parser for the instances: a date is written as that many digits.\<close>

definition demo_dp :: date_parse where
  "demo_dp s = Some (int (length s))"

section \<open>Properties\<close>

text \<open>
  (C16) Over every sequence of actions in which the server's pages hold no duplicates and later
  recent pages no pinned row, the sidebar lists no conversation twice, neither within a section
  nor across the pinned and the recent one, no id is unread or waiting for a title twice, and the
  open conversation is never marked unread.
\<close>

theorem index_invariant:
  assumes "admissible (conversationIndexReducer dp) index_action_ok initialConversationIndexState as"
    and "s = foldl (conversationIndexReducer dp) initialConversationIndexState as"
  shows "distinct (ids (ci_items s @ ci_pinnedItems s)) \<and> distinct (ci_unreadIds s) \<and>
    distinct (ci_pendingTitleIds s) \<and> (\<forall>i. ci_selectedId s = Some i \<longrightarrow> i \<notin> set (ci_unreadIds s))"
  using index_invD [OF index_slice.inv_run [OF assms(1)]] assms(2) by simp

theorem index_invariant_witness:
  "distinct (ids (ci_items (foldl (conversationIndexReducer demo_dp) initialConversationIndexState
     [IndexA (ListLoaded [demo_conv ''a'' None ''11'', demo_conv ''b'' None ''1''] (Some []) None),
      IndexA (MarkerChanged (demo_conv ''a'' (Some ''1'') ''11'')),
      IndexA (ConvRunFinished (js ''b''))])))"
  using index_invariant [OF _ refl, of demo_dp
      "[IndexA (ListLoaded [demo_conv ''a'' None ''11'', demo_conv ''b'' None ''1''] (Some []) None),
        IndexA (MarkerChanged (demo_conv ''a'' (Some ''1'') ''11'')),
        IndexA (ConvRunFinished (js ''b''))]"]
  by (simp add: index_action_ok_def demo_conv_def)

text \<open>
  Refreshing the first page never moves the list backwards: the page's ids come first and
  in its order, the rows loaded beyond it follow in theirs and unchanged, and a row that both hold
  is the loaded one when the page's copy is older, the page's copy otherwise.
\<close>

theorem mergeFirstPage_correct:
  assumes "distinct (ids current)" and "distinct (ids page)"
  shows "ids (mergeFirstPage dp current page) =
      ids page @ filter (\<lambda>i. i \<notin> set (ids page)) (ids current) \<and>
    (\<forall>c \<in> set current. conv_id c \<notin> set (ids page) \<longrightarrow> c \<in> set (mergeFirstPage dp current page)) \<and>
    (\<forall>c \<in> set current. \<forall>x \<in> set page. conv_id x = conv_id c \<longrightarrow>
       (if date_less dp (conv_updated_at x) (conv_updated_at c) then c else x)
         \<in> set (mergeFirstPage dp current page))"
proof (intro conjI ballI impI)
  fix c x assume "c \<in> set current" "x \<in> set page" "conv_id x = conv_id c"
  moreover from this have "js_map_of (map (\<lambda>c. (conv_id c, c)) current) (conv_id x) = Some c"
    using assms(1) by (simp add: js_map_of_distinct comp_def)
  ultimately show "(if date_less dp (conv_updated_at x) (conv_updated_at c) then c else x)
      \<in> set (mergeFirstPage dp current page)"
    by (force simp: mergeFirstPage_def Let_def)
qed (simp_all add: ids_mergeFirstPage mergeFirstPage_keeps_beyond)

theorem mergeFirstPage_correct_witness:
  "demo_conv ''a'' None ''111'' \<in> set (mergeFirstPage demo_dp
     [demo_conv ''a'' None ''111'', demo_conv ''z'' None ''1''] [demo_conv ''a'' None ''11''])"
  using mergeFirstPage_correct [of "[demo_conv ''a'' None ''111'', demo_conv ''z'' None ''1'']"
      "[demo_conv ''a'' None ''11'']" demo_dp]
  by (simp add: demo_conv_def demo_dp_def date_less_def)

text \<open>
  Pinning: a conversation that gets a \<open>pinned_at\<close> ends up once in the pinned section, with
  everything the list already knew about it, is gone from the recent section, and the pinned
  section stays ordered by pin time, newest first; every other row stays where it was.
\<close>

theorem pinning_keeps_order:
  assumes "index_inv s" and "truthy (conv_pinned_at x)"
    and "\<forall>c \<in> set (ci_pinnedItems s). pin_time dp c \<noteq> None" and "pin_time dp x \<noteq> None"
    and "newest_pin_first dp (ci_pinnedItems s)"
  shows "newest_pin_first dp (ci_pinnedItems (index_step dp s (MarkerChanged x))) \<and>
    set (ci_pinnedItems (index_step dp s (MarkerChanged x))) =
      insert (marker_row s x) {c \<in> set (ci_pinnedItems s). conv_id c \<noteq> conv_id x} \<and>
    ci_items (index_step dp s (MarkerChanged x)) =
      filter (\<lambda>c. conv_id c \<noteq> conv_id x) (ci_items s) \<and>
    index_inv (index_step dp s (MarkerChanged x))"
proof -
  have "pin_time dp (marker_row s x) \<noteq> None"
    using assms(4) by (simp add: pin_time_def)
  then show ?thesis
    using assms insert_before_dates_sorted [of "filter (\<lambda>c. conv_id c \<noteq> conv_id x) (ci_pinnedItems s)"
        dp "marker_row s x"] applyMarkers_inv [OF assms(1), of dp x]
    by (simp add: applyMarkers_pin sorted_wrt_filterI)
qed

theorem pinning_keeps_order_witness:
  "newest_pin_first demo_dp (ci_pinnedItems (index_step demo_dp
     (initialConversationIndexState\<lparr>ci_pinnedItems := [demo_conv ''p'' (Some ''111'') ''1'',
        demo_conv ''q'' (Some ''1'') ''1'']\<rparr>)
     (MarkerChanged (demo_conv ''a'' (Some ''11'') ''1''))))"
  using pinning_keeps_order [of "initialConversationIndexState\<lparr>ci_pinnedItems :=
      [demo_conv ''p'' (Some ''111'') ''1'', demo_conv ''q'' (Some ''1'') ''1'']\<rparr>"
      "demo_conv ''a'' (Some ''11'') ''1''" demo_dp]
  by (simp add: index_inv_def initialConversationIndexState_def demo_conv_def demo_dp_def
      pin_time_def truthy_def nullish_def)

text \<open>
  A background sync marks a conversation unread exactly when its run was in flight in the
  list before and is over in the refreshed one, unless it is the open conversation; no mark that
  was there is lost.
\<close>

theorem sync_marks_finished_runs:
  "set (ci_unreadIds (index_step dp s (ListSynced items pinned))) = set (ci_unreadIds s) \<union>
     {conv_id x |x. x \<in> set (ci_items (index_step dp s (ListSynced items pinned)) @
          ci_pinnedItems (index_step dp s (ListSynced items pinned))) \<and>
        finished_in s x \<and> Some (conv_id x) \<noteq> ci_selectedId s}"
  by (simp add: reconcileList_unread withPinned_def Let_def)

end
