(* ===== verification/Conversation_Detail.thy ===== *)
theory Conversation_Detail
  imports Conversation_Index
begin

text \<open>
  The thread slice of the store: \<open>ConversationDetailState\<close> and \<open>conversationDetailReducer\<close>
  (\<open>frontend/src/conversations/state.ts\<close>). It also listens to index actions, so that a rename, a
  marker or a title that lands in the list reaches the open conversation.
\<close>

section \<open>Definitions\<close>

datatype detail_status = DetailIdle | DetailIsLoading | DetailReady | DetailIsForbidden

record conversation_detail_state =
  cd_conversation :: "conversation_response option"
  cd_messages :: "message_response list"
  cd_imageContext :: image_context
  cd_status :: detail_status

definition no_images :: image_context where
  "no_images = \<lparr>ic_state = NoImages, ic_legacy_message_id = None, ic_recommended_model = None\<rparr>"

definition initialConversationDetailState :: conversation_detail_state where
  "initialConversationDetailState = \<lparr>cd_conversation = None, cd_messages = [],
     cd_imageContext = no_images, cd_status = DetailIdle\<rparr>"

fun detail_step ::
  "conversation_detail_state \<Rightarrow> conversation_detail_action \<Rightarrow> conversation_detail_state"
where
  "detail_step state DetailLoading = state\<lparr>cd_status := DetailIsLoading\<rparr>"
| "detail_step state (DetailLoaded conversation messages imageContext) =
     \<lparr>cd_conversation = Some conversation, cd_messages = messages,
      cd_imageContext = nullish imageContext no_images, cd_status = DetailReady\<rparr>"
| "detail_step state (MessageAppended message imageContext) =
     state\<lparr>cd_messages := cd_messages state @ [message],
       cd_imageContext := nullish imageContext (cd_imageContext state)\<rparr>"
| "detail_step state DetailForbidden =
     \<lparr>cd_conversation = None, cd_messages = [], cd_imageContext = no_images,
      cd_status = DetailIsForbidden\<rparr>"
| "detail_step state DetailReset = initialConversationDetailState"

text \<open>The common branch of \<open>listLoaded\<close> and \<open>listSynced\<close>.\<close>

definition sync_title ::
  "date_parse \<Rightarrow> conversation_detail_state \<Rightarrow> conversation_response list \<Rightarrow>
   conversation_response list option \<Rightarrow> conversation_detail_state"
where
  "sync_title dp state items pinned =
     (case cd_conversation state of
        None \<Rightarrow> state
      | Some current \<Rightarrow>
          (case find_conv (conv_id current) (items @ nullish pinned []) of
             None \<Rightarrow> state
           | Some synced \<Rightarrow>
               if conv_title synced \<noteq> conv_title current \<and>
                  date_ge dp (conv_updated_at synced) (conv_updated_at current)
               then state\<lparr>cd_conversation := Some (current\<lparr>conv_title := conv_title synced\<rparr>)\<rparr>
               else state))"

definition rename_detail ::
  "conversation_detail_state \<Rightarrow> conversation_response \<Rightarrow> conversation_detail_state"
where
  "rename_detail state conversation =
     (case cd_conversation state of
        None \<Rightarrow> state
      | Some current \<Rightarrow>
          if conv_id current = conv_id conversation
          then state\<lparr>cd_conversation := Some conversation\<rparr> else state)"

definition mark_detail ::
  "conversation_detail_state \<Rightarrow> conversation_response \<Rightarrow> conversation_detail_state"
where
  "mark_detail state conversation =
     (case cd_conversation state of
        None \<Rightarrow> state
      | Some current \<Rightarrow>
          if conv_id current = conv_id conversation
          then state\<lparr>cd_conversation := Some (current\<lparr>
                 conv_pinned_at := conv_pinned_at conversation,
                 conv_favorited_at := conv_favorited_at conversation\<rparr>)\<rparr>
          else state)"

definition conversationDetailReducer ::
  "date_parse \<Rightarrow> conversation_detail_state \<Rightarrow> app_action \<Rightarrow> conversation_detail_state"
where
  "conversationDetailReducer dp state action =
     (case action of
        DetailA a \<Rightarrow> detail_step state a
      | IndexA a \<Rightarrow>
          (case a of
             ConvRenamed conversation \<Rightarrow> rename_detail state conversation
           | MarkerChanged conversation \<Rightarrow> mark_detail state conversation
           | ListLoaded items pinned hasMore \<Rightarrow> sync_title dp state items pinned
           | ListSynced items pinned \<Rightarrow> sync_title dp state items pinned
           | _ \<Rightarrow> state)
      | App_reset \<Rightarrow> initialConversationDetailState
      | _ \<Rightarrow> state)"

section \<open>Invariant\<close>

text \<open>
  A thread shown as ready has its conversation, and a blank or forbidden one shows none of it.
\<close>

definition detail_inv :: "conversation_detail_state \<Rightarrow> bool" where
  "detail_inv s \<longleftrightarrow>
     (cd_status s = DetailReady \<longrightarrow> cd_conversation s \<noteq> None) \<and>
     (cd_status s = DetailIdle \<or> cd_status s = DetailIsForbidden \<longrightarrow> cd_conversation s = None)"

lemma sync_title_frame:
  "cd_status (sync_title dp s xs p) = cd_status s"
  "cd_messages (sync_title dp s xs p) = cd_messages s"
  "(cd_conversation (sync_title dp s xs p) = None) = (cd_conversation s = None)"
  by (auto simp: sync_title_def split: option.splits)

lemma rename_detail_frame:
  "cd_status (rename_detail s c) = cd_status s"
  "cd_messages (rename_detail s c) = cd_messages s"
  "(cd_conversation (rename_detail s c) = None) = (cd_conversation s = None)"
  by (auto simp: rename_detail_def split: option.splits)

lemma mark_detail_frame:
  "cd_status (mark_detail s c) = cd_status s"
  "cd_messages (mark_detail s c) = cd_messages s"
  "(cd_conversation (mark_detail s c) = None) = (cd_conversation s = None)"
  by (auto simp: mark_detail_def split: option.splits)

lemmas detail_frame = sync_title_frame rename_detail_frame mark_detail_frame

lemma detail_step_inv: "detail_inv s \<Longrightarrow> detail_inv (detail_step s a)"
  by (cases a) (auto simp: detail_inv_def initialConversationDetailState_def)

lemma conversationDetailReducer_inv:
  "detail_inv s \<Longrightarrow> detail_inv (conversationDetailReducer dp s a)"
proof (cases a)
  case (IndexA x)
  assume "detail_inv s"
  with IndexA show ?thesis
    by (cases x) (simp_all add: conversationDetailReducer_def detail_inv_def detail_frame)
next
  case (DetailA x)
  assume "detail_inv s"
  with DetailA show ?thesis by (simp add: conversationDetailReducer_def detail_step_inv)
qed (simp_all add: conversationDetailReducer_def detail_inv_def initialConversationDetailState_def)

lemma conversationDetailReducer_reset:
  "conversationDetailReducer dp s App_reset = initialConversationDetailState"
  by (simp add: conversationDetailReducer_def)

lemma detail_inv_initial: "detail_inv initialConversationDetailState"
  by (simp add: detail_inv_def initialConversationDetailState_def)

interpretation detail_slice: total_slice initialConversationDetailState
  initialConversationDetailState "conversationDetailReducer dp" detail_inv "\<lambda>_ _. True" for dp
  by unfold_locales
    (simp_all add: conversationDetailReducer_inv conversationDetailReducer_reset detail_inv_initial)

text \<open>Only the detail actions touch the messages of the thread.\<close>

lemma messages_only_detail:
  assumes "\<And>x. a \<noteq> DetailA x" and "a \<noteq> App_reset"
  shows "cd_messages (conversationDetailReducer dp s a) = cd_messages s"
proof (cases a)
  case (IndexA x)
  then show ?thesis
    by (cases x) (simp_all add: conversationDetailReducer_def detail_frame)
qed (use assms in \<open>simp_all add: conversationDetailReducer_def\<close>)

lemma sync_title_imageContext: "cd_imageContext (sync_title dp s xs p) = cd_imageContext s"
  by (auto simp: sync_title_def split: option.splits)

lemma sync_title_conversation:
  "cd_conversation (sync_title dp s items pinned) = cd_conversation s \<or>
   (\<exists>c row. cd_conversation s = Some c \<and> row \<in> set (items @ nullish pinned []) \<and>
      conv_id row = conv_id c \<and> date_ge dp (conv_updated_at row) (conv_updated_at c) \<and>
      cd_conversation (sync_title dp s items pinned) = Some (c\<lparr>conv_title := conv_title row\<rparr>))"
proof (cases "cd_conversation s")
  case None
  then show ?thesis by (simp add: sync_title_def)
next
  case (Some c)
  show ?thesis
  proof (cases "find_conv (conv_id c) (items @ nullish pinned [])")
    case None
    with Some show ?thesis by (simp add: sync_title_def)
  next
    case row: (Some row)
    then have "row \<in> set (items @ nullish pinned [])" and "conv_id row = conv_id c"
      by (auto dest: find_SomeD)
    with Some row show ?thesis by (auto simp: sync_title_def)
  qed
qed

section \<open>Properties\<close>

text \<open>
  List refreshes reach the open thread only as a newer title: a \<open>listLoaded\<close> or
  \<open>listSynced\<close> action never touches its messages, status or image context, and when it changes
  the conversation, only the title changes, to that of a row with the same id that is not older.
\<close>

theorem list_refresh_only_retitles:
  assumes "a = ListSynced items pinned \<or> (\<exists>hasMore. a = ListLoaded items pinned hasMore)"
    and "s' = conversationDetailReducer dp s (IndexA a)"
  shows "cd_messages s' = cd_messages s \<and> cd_status s' = cd_status s \<and>
    cd_imageContext s' = cd_imageContext s \<and>
    (cd_conversation s' = cd_conversation s \<or>
     (\<exists>c row. cd_conversation s = Some c \<and> row \<in> set (items @ nullish pinned []) \<and>
        conv_id row = conv_id c \<and> date_ge dp (conv_updated_at row) (conv_updated_at c) \<and>
        cd_conversation s' = Some (c\<lparr>conv_title := conv_title row\<rparr>)))"
proof -
  have "s' = sync_title dp s items pinned"
    using assms by (auto simp: conversationDetailReducer_def)
  then show ?thesis
    using sync_title_conversation [of dp s items pinned]
    by (simp add: sync_title_frame sync_title_imageContext)
qed

theorem list_refresh_only_retitles_witness:
  "cd_messages (conversationDetailReducer demo_dp
     (detail_step initialConversationDetailState (DetailLoaded (demo_conv ''a'' None ''1'') [] None))
     (IndexA (ListSynced [(demo_conv ''a'' None ''11'')\<lparr>conv_title := Some (js ''T'')\<rparr>] None))) = []"
  using list_refresh_only_retitles [OF _ refl, of
      "ListSynced [(demo_conv ''a'' None ''11'')\<lparr>conv_title := Some (js ''T'')\<rparr>] None"
      "[(demo_conv ''a'' None ''11'')\<lparr>conv_title := Some (js ''T'')\<rparr>]" None demo_dp
      "detail_step initialConversationDetailState (DetailLoaded (demo_conv ''a'' None ''1'') [] None)"]
  by simp

end
