(* ===== verification/Run_State.thy ===== *)
theory Run_State
  imports Slices
begin

text \<open>
  The active-run slice of the store (\<open>frontend/src/runs/state.ts\<close>): \<open>ActiveRunState\<close>,
  \<open>activeRunReducer\<close> and \<open>mergeSources\<close>.

  The lemmas show what a stream of deltas accumulates (text, both kinds of reasoning, sources
  without duplicate citation ids), that a requested cancellation survives the deltas still in
  flight, and that a run restored from a snapshot of its state continues as if the stream had never
  been interrupted.
\<close>

section \<open>Definitions\<close>

datatype run_stream_phase = PhaseWaiting | PhaseReasoning | PhaseText | PhaseTool

record active_run =
  ar_runId :: jstr
  ar_conversationId :: jstr
  ar_providerName :: "jstr option"
  ar_latestSeq :: int
  ar_draftText :: jstr
  ar_draftReasoning :: jstr
  ar_draftReasoningSummary :: jstr
  ar_streamPhase :: run_stream_phase
  ar_toolState :: "run_tool_state option"
  ar_draftSources :: "run_tool_source list"
  ar_status :: run_status
  ar_cancelRequested :: bool

type_synonym active_run_state = "active_run option"

definition initialActiveRunState :: active_run_state where
  "initialActiveRunState = None"

text \<open>The filter of \<open>mergeSources\<close>, whose callback adds to the set \<open>seen\<close>.\<close>

fun new_sources :: "jnum list \<Rightarrow> run_tool_source list \<Rightarrow> run_tool_source list" where
  "new_sources seen [] = []"
| "new_sources seen (s # ss) =
     (if rts_id s \<in> set seen then new_sources seen ss
      else s # new_sources (rts_id s # seen) ss)"

definition mergeSources :: "run_tool_source list \<Rightarrow> run_tool_source list \<Rightarrow> run_tool_source list"
where
  "mergeSources existing incoming =
     (let added = new_sources (map rts_id existing) incoming
      in if length added > 0 then existing @ added else existing)"

text \<open>\<open>state.status === "cancelling" ? state.status : "streaming"\<close>.\<close>

definition delta_status :: "run_status \<Rightarrow> run_status" where
  "delta_status st = (if st = Cancelling then st else Streaming)"

definition restore_run :: "run_restored \<Rightarrow> active_run" where
  "restore_run a =
     (let restoredToolState = rr_toolState a;
          hasVisibleText = (js_trim (rr_draftText a) \<noteq> []);
          keepToolState =
            (rr_status a \<noteq> Succeeded \<and> rr_status a \<noteq> Failed \<and> rr_status a \<noteq> Cancelled \<and>
             (case restoredToolState of None \<Rightarrow> False
              | Some t \<Rightarrow> ts_status t = ToolRunning \<or> \<not> hasVisibleText));
          streamPhase =
            (if keepToolState then PhaseTool
             else if hasVisibleText then PhaseText
             else if js_trim (rr_draftReasoning a) \<noteq> [] \<or>
                     js_trim (nullish (rr_draftReasoningSummary a) []) \<noteq> [] then PhaseReasoning
             else PhaseWaiting)
      in \<lparr>ar_runId = rr_runId a, ar_conversationId = rr_conversationId a,
          ar_providerName = rr_providerName a, ar_latestSeq = rr_latestSeq a,
          ar_draftText = rr_draftText a, ar_draftReasoning = rr_draftReasoning a,
          ar_draftReasoningSummary = nullish (rr_draftReasoningSummary a) [],
          ar_streamPhase = streamPhase,
          ar_toolState = (if keepToolState then restoredToolState else None),
          ar_draftSources = mergeSources [] (nullish (rr_sources a) []),
          ar_status = rr_status a, ar_cancelRequested = (rr_status a = Cancelling)\<rparr>)"

fun active_run_step :: "active_run_state \<Rightarrow> active_run_action \<Rightarrow> active_run_state" where
  "active_run_step state (Run_started runId conversationId providerName) =
     Some \<lparr>ar_runId = runId, ar_conversationId = conversationId, ar_providerName = providerName,
       ar_latestSeq = 0, ar_draftText = [], ar_draftReasoning = [], ar_draftReasoningSummary = [],
       ar_streamPhase = PhaseWaiting, ar_toolState = None, ar_draftSources = [],
       ar_status = Started, ar_cancelRequested = False\<rparr>"
| "active_run_step state (Run_reasoningDelta seq text kind) =
     map_option (\<lambda>r. r\<lparr>
       ar_draftReasoning :=
         (if nullish kind RawReasoning = RawReasoning then ar_draftReasoning r @ text
          else ar_draftReasoning r),
       ar_draftReasoningSummary :=
         (if kind = Some SummaryReasoning then ar_draftReasoningSummary r @ text
          else ar_draftReasoningSummary r),
       ar_streamPhase := PhaseReasoning, ar_toolState := None, ar_latestSeq := seq,
       ar_status := delta_status (ar_status r)\<rparr>) state"
| "active_run_step state (Run_textDelta seq text) =
     map_option (\<lambda>r. let hasVisibleText = (js_trim text \<noteq> []) in r\<lparr>
       ar_draftText := ar_draftText r @ text,
       ar_streamPhase := (if hasVisibleText then PhaseText else ar_streamPhase r),
       ar_toolState := (if hasVisibleText then None else ar_toolState r),
       ar_latestSeq := seq, ar_status := delta_status (ar_status r)\<rparr>) state"
| "active_run_step state (Run_toolState seq toolState) =
     map_option (\<lambda>r. r\<lparr>
       ar_latestSeq := seq, ar_streamPhase := PhaseTool, ar_toolState := Some toolState,
       ar_draftSources :=
         (if ts_status toolState = ToolSucceeded
          then mergeSources (ar_draftSources r) (ts_sources toolState)
          else ar_draftSources r),
       ar_status := delta_status (ar_status r)\<rparr>) state"
| "active_run_step state (Run_terminal status) =
     map_option (\<lambda>r. r\<lparr>ar_toolState := None, ar_status := terminal_run_status status\<rparr>) state"
| "active_run_step state (Run_restored a) = Some (restore_run a)"
| "active_run_step state Run_cancelRequested =
     map_option (\<lambda>r. r\<lparr>ar_cancelRequested := True, ar_status := Cancelling\<rparr>) state"
| "active_run_step state Run_cancelFailed =
     (case state of None \<Rightarrow> None
      | Some r \<Rightarrow> if ar_status r \<noteq> Cancelling then Some r
                  else Some (r\<lparr>ar_cancelRequested := False, ar_status := Streaming\<rparr>))"
| "active_run_step state Run_cleared = None"

definition activeRunReducer :: "active_run_state \<Rightarrow> app_action \<Rightarrow> active_run_state" where
  "activeRunReducer state action =
     (case action of
        RunA a \<Rightarrow> active_run_step state a
      | App_reset \<Rightarrow> initialActiveRunState
      | _ \<Rightarrow> state)"

section \<open>Merging sources\<close>

lemma new_sources_fresh: "s \<in> set (new_sources seen ss) \<Longrightarrow> rts_id s \<notin> set seen"
  by (induction seen ss rule: new_sources.induct) (auto split: if_splits)

lemma new_sources_distinct: "distinct (map rts_id (new_sources seen ss))"
  by (induction seen ss rule: new_sources.induct) (auto dest: new_sources_fresh)

lemma new_sources_subset: "set (new_sources seen ss) \<subseteq> set ss"
  by (induction seen ss rule: new_sources.induct) auto

lemma new_sources_ids:
  "rts_id ` set (new_sources seen ss) = rts_id ` set ss - set seen"
  by (induction seen ss rule: new_sources.induct) auto

lemma new_sources_all_new:
  "distinct (map rts_id ss) \<Longrightarrow> set (map rts_id ss) \<inter> set seen = {} \<Longrightarrow> new_sources seen ss = ss"
  by (induction seen ss rule: new_sources.induct) auto

lemma mergeSources_append: "mergeSources xs ys = xs @ new_sources (map rts_id xs) ys"
  by (simp add: mergeSources_def Let_def)

lemma mergeSources_distinct:
  "distinct (map rts_id xs) \<Longrightarrow> distinct (map rts_id (mergeSources xs ys))"
  using new_sources_ids [of "map rts_id xs" ys]
  by (auto simp: mergeSources_append new_sources_distinct)

lemma mergeSources_ids:
  "rts_id ` set (mergeSources xs ys) = rts_id ` set xs \<union> rts_id ` set ys"
  by (auto simp: mergeSources_append new_sources_ids image_Un)

lemma mergeSources_Nil_distinct: "distinct (map rts_id ys) \<Longrightarrow> mergeSources [] ys = ys"
  by (simp add: mergeSources_append new_sources_all_new)

lemma new_sources_known: "rts_id ` set ys \<subseteq> set seen \<Longrightarrow> new_sources seen ys = []"
  by (induction seen ys rule: new_sources.induct) auto

lemma mergeSources_idem: "mergeSources (mergeSources xs ys) ys = mergeSources xs ys"
proof -
  have "rts_id ` set ys \<subseteq> set (map rts_id (mergeSources xs ys))"
    using mergeSources_ids [of xs ys] by auto
  then show ?thesis
    by (simp add: mergeSources_append [of "mergeSources xs ys"] new_sources_known)
qed

section \<open>What a stream accumulates\<close>

text \<open>
  The actions that carry streamed content, and the abstract transcript of such a stream: the text,
  the raw reasoning, the reasoning summary and the sources it contributes, in order.
\<close>

fun is_delta :: "active_run_action \<Rightarrow> bool" where
  "is_delta (Run_reasoningDelta _ _ _) = True"
| "is_delta (Run_textDelta _ _) = True"
| "is_delta (Run_toolState _ _) = True"
| "is_delta _ = False"

fun delta_seq :: "active_run_action \<Rightarrow> int" where
  "delta_seq (Run_reasoningDelta seq _ _) = seq"
| "delta_seq (Run_textDelta seq _) = seq"
| "delta_seq (Run_toolState seq _) = seq"
| "delta_seq _ = 0"

fun delta_text :: "active_run_action \<Rightarrow> jstr" where
  "delta_text (Run_textDelta _ t) = t"
| "delta_text _ = []"

fun delta_raw :: "active_run_action \<Rightarrow> jstr" where
  "delta_raw (Run_reasoningDelta _ t k) = (if k = Some SummaryReasoning then [] else t)"
| "delta_raw _ = []"

fun delta_summary :: "active_run_action \<Rightarrow> jstr" where
  "delta_summary (Run_reasoningDelta _ t k) = (if k = Some SummaryReasoning then t else [])"
| "delta_summary _ = []"

fun delta_sources :: "active_run_action \<Rightarrow> run_tool_source list" where
  "delta_sources (Run_toolState _ t) = (if ts_status t = ToolSucceeded then ts_sources t else [])"
| "delta_sources _ = []"

definition run_deltas :: "active_run \<Rightarrow> active_run_action list \<Rightarrow> active_run" where
  "run_deltas r es = the (foldl active_run_step (Some r) es)"

lemma nullish_raw: "nullish k RawReasoning = RawReasoning \<longleftrightarrow> k \<noteq> Some SummaryReasoning"
  by (cases k; cases "the k") (auto simp: nullish_def)

lemma mergeSources_no_new [simp]: "mergeSources xs [] = xs"
  by (simp add: mergeSources_append)

text \<open>One delta, field by field.\<close>

lemma delta_step:
  assumes "is_delta e"
  shows "\<exists>r'. active_run_step (Some r) e = Some r' \<and>
    ar_draftText r' = ar_draftText r @ delta_text e \<and>
    ar_draftReasoning r' = ar_draftReasoning r @ delta_raw e \<and>
    ar_draftReasoningSummary r' = ar_draftReasoningSummary r @ delta_summary e \<and>
    ar_draftSources r' = mergeSources (ar_draftSources r) (delta_sources e) \<and>
    ar_latestSeq r' = delta_seq e \<and> ar_status r' = delta_status (ar_status r) \<and>
    ar_runId r' = ar_runId r \<and> ar_conversationId r' = ar_conversationId r \<and>
    ar_providerName r' = ar_providerName r \<and> ar_cancelRequested r' = ar_cancelRequested r"
  using assms by (cases e) (auto simp: Let_def nullish_raw)

lemma new_sources_append:
  "new_sources seen (xs @ ys) = new_sources seen xs @ new_sources (rev (map rts_id (new_sources seen xs)) @ seen) ys"
  by (induction seen xs rule: new_sources.induct) auto

lemma new_sources_cong: "set a = set b \<Longrightarrow> new_sources a ss = new_sources b ss"
  by (induction a ss arbitrary: b rule: new_sources.induct) auto

lemma mergeSources_assoc: "mergeSources (mergeSources xs ys) zs = mergeSources xs (ys @ zs)"
proof -
  have "new_sources (map rts_id xs @ map rts_id (new_sources (map rts_id xs) ys)) zs =
      new_sources (rev (map rts_id (new_sources (map rts_id xs) ys)) @ map rts_id xs) zs"
    by (rule new_sources_cong) auto
  then show ?thesis
    by (simp add: mergeSources_append new_sources_append)
qed

lemma run_deltas_Nil [simp]: "run_deltas r [] = r"
  by (simp add: run_deltas_def)

lemma run_deltas_Cons:
  "is_delta e \<Longrightarrow> run_deltas r (e # es) = run_deltas (run_deltas r [e]) es"
  using delta_step [of e r] by (auto simp: run_deltas_def)

lemma run_deltas_Some:
  "list_all is_delta es \<Longrightarrow> foldl active_run_step (Some r) es = Some (run_deltas r es)"
proof (induction es arbitrary: r)
  case Nil
  then show ?case by simp
next
  case (Cons e es)
  then obtain r' where "active_run_step (Some r) e = Some r'"
    using delta_step [of e r] by auto
  with Cons show ?case by (simp add: run_deltas_def)
qed

lemma run_deltas_append:
  "list_all is_delta as \<Longrightarrow> run_deltas r (as @ bs) = run_deltas (run_deltas r as) bs"
  by (simp add: run_deltas_def [of r "as @ bs"] run_deltas_def [of "run_deltas r as" bs]
      run_deltas_Some)

lemma run_deltas_transcript:
  assumes "list_all is_delta es"
  shows "ar_draftText (run_deltas r es) = ar_draftText r @ concat (map delta_text es) \<and>
    ar_draftReasoning (run_deltas r es) = ar_draftReasoning r @ concat (map delta_raw es) \<and>
    ar_draftReasoningSummary (run_deltas r es) =
      ar_draftReasoningSummary r @ concat (map delta_summary es) \<and>
    ar_draftSources (run_deltas r es) =
      mergeSources (ar_draftSources r) (concat (map delta_sources es)) \<and>
    ar_latestSeq (run_deltas r es) = last (ar_latestSeq r # map delta_seq es) \<and>
    ar_runId (run_deltas r es) = ar_runId r \<and>
    ar_conversationId (run_deltas r es) = ar_conversationId r \<and>
    ar_providerName (run_deltas r es) = ar_providerName r \<and>
    ar_cancelRequested (run_deltas r es) = ar_cancelRequested r"
  using assms
proof (induction es arbitrary: r)
  case Nil
  then show ?case by simp
next
  case (Cons e es)
  then have e: "is_delta e" and es: "list_all is_delta es" by simp_all
  obtain r' where r': "run_deltas r [e] = r'"
    "ar_draftText r' = ar_draftText r @ delta_text e"
    "ar_draftReasoning r' = ar_draftReasoning r @ delta_raw e"
    "ar_draftReasoningSummary r' = ar_draftReasoningSummary r @ delta_summary e"
    "ar_draftSources r' = mergeSources (ar_draftSources r) (delta_sources e)"
    "ar_latestSeq r' = delta_seq e" "ar_runId r' = ar_runId r"
    "ar_conversationId r' = ar_conversationId r" "ar_providerName r' = ar_providerName r"
    "ar_cancelRequested r' = ar_cancelRequested r"
    using delta_step [OF e, of r] by (auto simp: run_deltas_def)
  with Cons.IH [OF es, of r'] run_deltas_Cons [OF e, of r es] show ?case
    by (simp add: mergeSources_assoc)
qed

lemma run_deltas_status:
  assumes "list_all is_delta es" and "es \<noteq> []"
  shows "ar_status (run_deltas r es) = delta_status (ar_status r)"
  using assms
proof (induction es arbitrary: r)
  case Nil
  then show ?case by simp
next
  case (Cons e es)
  then have "is_delta e" by simp
  then have "ar_status (run_deltas r [e]) = delta_status (ar_status r)"
    using delta_step [of e r] by (auto simp: run_deltas_def)
  with Cons run_deltas_Cons [OF \<open>is_delta e\<close>, of r es] show ?case
    by (cases es) (auto simp: delta_status_def)
qed

section \<open>Invariants of the slice\<close>

definition run_inv :: "active_run_state \<Rightarrow> bool" where
  "run_inv state =
     (case state of None \<Rightarrow> True
      | Some r \<Rightarrow>
          distinct (map rts_id (ar_draftSources r)) \<and>
          (ar_toolState r \<noteq> None \<longrightarrow> ar_streamPhase r = PhaseTool) \<and>
          (ar_status r = Cancelling \<longrightarrow> ar_cancelRequested r))"

lemma run_inv_None [simp]: "run_inv None"
  by (simp add: run_inv_def)

lemma restore_run_inv: "run_inv (Some (restore_run a))"
  using mergeSources_distinct [of "[]" "nullish (rr_sources a) []"]
  by (auto simp: run_inv_def restore_run_def Let_def)

lemma active_run_step_inv: "run_inv state \<Longrightarrow> run_inv (active_run_step state a)"
proof (cases a)
  case (Run_restored x)
  then show ?thesis by (simp add: restore_run_inv)
next
  case (Run_terminal x)
  assume "run_inv state"
  with Run_terminal show ?thesis
    by (cases x) (auto simp: run_inv_def split: option.splits)
qed (auto simp: run_inv_def mergeSources_distinct delta_status_def Let_def split: option.splits
    if_splits)

lemma activeRunReducer_inv: "run_inv state \<Longrightarrow> run_inv (activeRunReducer state action)"
  by (cases action)
    (simp_all add: activeRunReducer_def active_run_step_inv initialActiveRunState_def)

lemma activeRunReducer_reset: "activeRunReducer s App_reset = initialActiveRunState"
  by (simp add: activeRunReducer_def)

interpretation run_slice: total_slice initialActiveRunState initialActiveRunState
  activeRunReducer run_inv "\<lambda>_ _. True"
  by unfold_locales
    (simp_all add: activeRunReducer_inv activeRunReducer_reset initialActiveRunState_def)

section \<open>Restoring a run\<close>

text \<open>What the reader sees of a run apart from the activity indicator.\<close>

definition run_content ::
  "active_run \<Rightarrow> jstr \<times> jstr \<times> int \<times> jstr \<times> jstr \<times> jstr \<times> run_tool_source list"
where
  "run_content r = (ar_runId r, ar_conversationId r, ar_latestSeq r, ar_draftText r,
     ar_draftReasoning r, ar_draftReasoningSummary r, ar_draftSources r)"

lemma run_content_restore:
  "run_content (restore_run a) = (rr_runId a, rr_conversationId a, rr_latestSeq a, rr_draftText a,
     rr_draftReasoning a, nullish (rr_draftReasoningSummary a) [],
     mergeSources [] (nullish (rr_sources a) []))"
  by (simp add: run_content_def restore_run_def Let_def)

lemma run_content_deltas:
  "run_content r = run_content r' \<Longrightarrow> list_all is_delta es \<Longrightarrow>
     run_content (run_deltas r es) = run_content (run_deltas r' es)"
  by (simp add: run_content_def run_deltas_transcript)

lemma run_deltas_inv: "run_inv (Some r) \<Longrightarrow> list_all is_delta es \<Longrightarrow> run_inv (Some (run_deltas r es))"
proof (induction es arbitrary: r)
  case Nil
  then show ?case by simp
next
  case (Cons e es)
  then have "is_delta e" by simp
  with Cons.prems(1) have "run_inv (Some (run_deltas r [e]))"
    using active_run_step_inv [of "Some r" e] run_deltas_Some [of "[e]" r] by simp
  with Cons run_deltas_Cons [OF \<open>is_delta e\<close>, of r es] show ?case by simp
qed

section \<open>Properties\<close>

lemma foldl_run_actions:
  "foldl activeRunReducer s (map RunA es) = foldl active_run_step s es"
  by (induction es arbitrary: s) (simp_all add: activeRunReducer_def)

text \<open>A run as \<open>run/started\<close> leaves it, for the concrete instances below.\<close>

definition demo_run :: active_run where
  "demo_run = the (active_run_step None (Run_started (js ''r1'') (js ''c1'') None))"

text \<open>
  What a stream accumulates: through the reducer, any sequence of text, reasoning and tool
  events leaves in the active run exactly the concatenation of its text deltas, of its raw
  reasoning, of its reasoning summary, the sources of its successful tool calls merged in order,
  and the last sequence number; the run's identity does not change.
\<close>

theorem stream_accumulates:
  assumes "list_all is_delta es"
  shows "\<exists>r'. foldl activeRunReducer (Some r) (map RunA es) = Some r' \<and>
    ar_draftText r' = ar_draftText r @ concat (map delta_text es) \<and>
    ar_draftReasoning r' = ar_draftReasoning r @ concat (map delta_raw es) \<and>
    ar_draftReasoningSummary r' = ar_draftReasoningSummary r @ concat (map delta_summary es) \<and>
    ar_draftSources r' = mergeSources (ar_draftSources r) (concat (map delta_sources es)) \<and>
    ar_latestSeq r' = last (ar_latestSeq r # map delta_seq es) \<and>
    ar_runId r' = ar_runId r \<and> ar_conversationId r' = ar_conversationId r"
  using assms run_deltas_transcript [OF assms, of r]
  by (simp add: foldl_run_actions run_deltas_Some)

theorem stream_accumulates_witness:
  "\<exists>r'. foldl activeRunReducer (Some demo_run)
      (map RunA [Run_reasoningDelta 1 (js ''hm'') None, Run_textDelta 2 (js ''Hel''),
        Run_textDelta 3 (js ''lo'')]) = Some r' \<and>
    ar_draftText r' = js ''Hello'' \<and> ar_draftReasoning r' = js ''hm'' \<and> ar_latestSeq r' = 3"
  using stream_accumulates [of "[Run_reasoningDelta 1 (js ''hm'') None, Run_textDelta 2 (js ''Hel''),
      Run_textDelta 3 (js ''lo'')]" demo_run]
  by (auto simp: demo_run_def js_append [symmetric])

text \<open>
  A requested cancellation is sticky: whatever deltas are still in flight, the run stays in
  \<open>cancelling\<close> with the request recorded until a terminal event, and a failed cancellation
  request puts it back to streaming with everything the deltas brought.
\<close>

theorem cancellation_is_sticky:
  assumes "list_all is_delta es"
  shows "\<exists>r'. foldl activeRunReducer (Some r) (map RunA (Run_cancelRequested # es)) = Some r' \<and>
    ar_status r' = Cancelling \<and> ar_cancelRequested r' \<and>
    ar_draftText r' = ar_draftText r @ concat (map delta_text es) \<and>
    foldl activeRunReducer (Some r) (map RunA (Run_cancelRequested # es @ [Run_cancelFailed])) =
      Some (r'\<lparr>ar_cancelRequested := False, ar_status := Streaming\<rparr>)"
proof -
  let ?c = "r\<lparr>ar_cancelRequested := True, ar_status := Cancelling\<rparr>"
  have "ar_status (run_deltas ?c es) = Cancelling"
    using run_deltas_status [OF assms, of ?c] by (cases "es = []") (simp_all add: delta_status_def)
  moreover have "foldl active_run_step (Some ?c) es = Some (run_deltas ?c es)"
    by (rule run_deltas_Some [OF assms])
  ultimately show ?thesis
    using run_deltas_transcript [OF assms, of ?c]
    by (simp add: foldl_run_actions del: list.map map_append)
qed

theorem cancellation_is_sticky_witness:
  "\<exists>r'. foldl activeRunReducer (Some demo_run)
      (map RunA [Run_cancelRequested, Run_textDelta 4 (js ''late'')]) = Some r' \<and>
    ar_status r' = Cancelling \<and> ar_draftText r' = js ''late''"
  using cancellation_is_sticky [of "[Run_textDelta 4 (js ''late'')]" demo_run]
  by (auto simp: demo_run_def)

text \<open>
  Whatever actions are dispatched, in whatever order, the active run never holds two sources
  with one citation id, shows a tool state only in the tool phase, and is \<open>cancelling\<close> only while
  a cancellation request is recorded.
\<close>

theorem active_run_invariant:
  "run_inv (foldl activeRunReducer initialActiveRunState as)"
  by (rule run_slice.inv_always)

text \<open>
  \<open>mergeSources\<close> keeps the sources already shown in place, adds of the incoming ones only
  those with a new id, misses none, and does nothing when the same batch arrives again.
\<close>

theorem mergeSources_correct:
  "(\<exists>added. mergeSources existing incoming = existing @ added \<and> set added \<subseteq> set incoming \<and>
      distinct (map rts_id added)) \<and>
   rts_id ` set (mergeSources existing incoming) = rts_id ` set existing \<union> rts_id ` set incoming \<and>
   mergeSources (mergeSources existing incoming) incoming = mergeSources existing incoming"
  using new_sources_subset [of "map rts_id existing" incoming]
    new_sources_distinct [of "map rts_id existing" incoming]
  by (intro conjI mergeSources_ids mergeSources_idem) (auto simp: mergeSources_append)

end
