(* ===== verification/Store.thy ===== *)
theory Store
  imports Conversation_Detail Run_State
begin

text \<open>
  The remaining slices (\<open>auth/state.ts\<close>, \<open>ui/state.ts\<close>, \<open>conversations/submission.ts\<close>, the
  composer of \<open>app/store.ts\<close>), \<open>rootReducer\<close> and the \<open>dispatch\<close> of \<open>app/AppProvider.tsx\<close> with
  its synchronous mirror \<open>stateRef\<close>.
\<close>

section \<open>The authentication slice\<close>

datatype auth_status = AuthIdle | AuthSubmitting

record auth_state =
  as_session :: "auth_session option"
  as_status :: auth_status
  as_bootstrapped :: bool

definition initialAuthState :: auth_state where
  "initialAuthState = \<lparr>as_session = None, as_status = AuthIdle, as_bootstrapped = False\<rparr>"

fun auth_step :: "auth_state \<Rightarrow> auth_action \<Rightarrow> auth_state" where
  "auth_step state (Auth_restored session) =
     state\<lparr>as_session := session, as_bootstrapped := False\<rparr>"
| "auth_step state Auth_bootstrapCompleted = state\<lparr>as_bootstrapped := True\<rparr>"
| "auth_step state Auth_submitStarted = state\<lparr>as_status := AuthSubmitting\<rparr>"
| "auth_step state (Auth_loggedIn session) =
     state\<lparr>as_session := Some session, as_status := AuthIdle\<rparr>"
| "auth_step state Auth_submitFailed = state\<lparr>as_status := AuthIdle\<rparr>"
| "auth_step state (Auth_userUpdated user) =
     (case as_session state of
        None \<Rightarrow> state
      | Some session \<Rightarrow> state\<lparr>as_session := Some (session\<lparr>ses_user := user\<rparr>)\<rparr>)"

definition authReducer :: "auth_state \<Rightarrow> app_action \<Rightarrow> auth_state" where
  "authReducer state action =
     (case action of
        AuthA a \<Rightarrow> auth_step state a
      | App_reset \<Rightarrow> initialAuthState\<lparr>as_bootstrapped := True\<rparr>
      | _ \<Rightarrow> state)"

section \<open>The interface slice\<close>

record toast_state =
  toast_id :: int
  toast_message :: jstr
  toast_tone_of :: toast_tone

record ui_state =
  ui_mobileSidebarOpen :: bool
  ui_sidebarCollapsed :: bool
  ui_confirmDialog :: "confirm_dialog_state option"
  ui_shareDialog :: "share_dialog_state option"
  ui_toast :: "toast_state option"
  ui_toastSequence :: int

definition initialUiState :: ui_state where
  "initialUiState = \<lparr>ui_mobileSidebarOpen = False, ui_sidebarCollapsed = False,
     ui_confirmDialog = None, ui_shareDialog = None, ui_toast = None, ui_toastSequence = 0\<rparr>"

fun ui_step :: "ui_state \<Rightarrow> ui_action \<Rightarrow> ui_state" where
  "ui_step state ToggleMobileSidebar =
     state\<lparr>ui_mobileSidebarOpen := \<not> ui_mobileSidebarOpen state\<rparr>"
| "ui_step state (SetMobileSidebar open) = state\<lparr>ui_mobileSidebarOpen := open\<rparr>"
| "ui_step state ToggleSidebarCollapsed =
     state\<lparr>ui_sidebarCollapsed := \<not> ui_sidebarCollapsed state\<rparr>"
| "ui_step state (OpenConfirm dialog) = state\<lparr>ui_confirmDialog := Some dialog\<rparr>"
| "ui_step state CloseConfirm = state\<lparr>ui_confirmDialog := None\<rparr>"
| "ui_step state (OpenShare dialog) = state\<lparr>ui_shareDialog := Some dialog\<rparr>"
| "ui_step state CloseShare = state\<lparr>ui_shareDialog := None\<rparr>"
| "ui_step state (ShowToast message tone) =
     (let i = ui_toastSequence state + 1
      in state\<lparr>ui_toast := Some \<lparr>toast_id = i, toast_message = message, toast_tone_of = tone\<rparr>,
           ui_toastSequence := i\<rparr>)"
| "ui_step state HideToast = state\<lparr>ui_toast := None\<rparr>"

definition uiReducer :: "ui_state \<Rightarrow> app_action \<Rightarrow> ui_state" where
  "uiReducer state action =
     (case action of
        UiA a \<Rightarrow> ui_step state a
      | App_reset \<Rightarrow> initialUiState
      | _ \<Rightarrow> state)"

section \<open>The pending submission and the composer\<close>

record pending_submission =
  ps_clientId :: jstr
  ps_content :: jstr
  ps_conversationId :: "jstr option"
  ps_attachments :: "file_attachment list"
  ps_replyQuote :: "reply_quote_draft option"

type_synonym pending_submission_state = "pending_submission option"

definition initialPendingSubmissionState :: pending_submission_state where
  "initialPendingSubmissionState = None"

fun submission_step ::
  "pending_submission_state \<Rightarrow> pending_submission_action \<Rightarrow> pending_submission_state"
where
  "submission_step state (SubmissionStarted clientId content conversationId attachments quote) =
     Some \<lparr>ps_clientId = clientId, ps_content = content, ps_conversationId = conversationId,
       ps_attachments = attachments, ps_replyQuote = quote\<rparr>"
| "submission_step state (SubmissionTargeted conversationId) =
     map_option (\<lambda>s. s\<lparr>ps_conversationId := Some conversationId\<rparr>) state"
| "submission_step state SubmissionCleared = initialPendingSubmissionState"

definition pendingSubmissionReducer ::
  "pending_submission_state \<Rightarrow> app_action \<Rightarrow> pending_submission_state"
where
  "pendingSubmissionReducer state action =
     (case action of
        SubmissionA a \<Rightarrow> submission_step state a
      | App_reset \<Rightarrow> initialPendingSubmissionState
      | _ \<Rightarrow> state)"

record composer_state =
  comp_input :: jstr
  comp_isComposing :: bool
  comp_replyQuote :: "reply_quote_draft option"

definition initialComposerState :: composer_state where
  "initialComposerState = \<lparr>comp_input = [], comp_isComposing = False, comp_replyQuote = None\<rparr>"

fun composer_step :: "composer_state \<Rightarrow> composer_action \<Rightarrow> composer_state" where
  "composer_step state (ReplyQuoteSet quote) = state\<lparr>comp_replyQuote := Some quote\<rparr>"
| "composer_step state ReplyQuoteCleared = state\<lparr>comp_replyQuote := None\<rparr>"
| "composer_step state (ReplyQuoteRestored quote) = state\<lparr>comp_replyQuote := quote\<rparr>"

definition composerReducer :: "composer_state \<Rightarrow> app_action \<Rightarrow> composer_state" where
  "composerReducer state action =
     (case action of
        ComposerA a \<Rightarrow> composer_step state a
      | App_reset \<Rightarrow> initialComposerState
      | _ \<Rightarrow> state)"

section \<open>The root reducer\<close>

record app_state =
  app_auth :: auth_state
  app_conversationIndex :: conversation_index_state
  app_conversationDetail :: conversation_detail_state
  app_pendingSubmission :: pending_submission_state
  app_activeRun :: active_run_state
  app_composer :: composer_state
  app_ui :: ui_state

definition initialState :: app_state where
  "initialState = \<lparr>app_auth = initialAuthState,
     app_conversationIndex = initialConversationIndexState,
     app_conversationDetail = initialConversationDetailState,
     app_pendingSubmission = initialPendingSubmissionState,
     app_activeRun = initialActiveRunState, app_composer = initialComposerState,
     app_ui = initialUiState\<rparr>"

definition rootReducer :: "date_parse \<Rightarrow> app_state \<Rightarrow> app_action \<Rightarrow> app_state" where
  "rootReducer dp state action =
     \<lparr>app_auth = authReducer (app_auth state) action,
      app_conversationIndex = conversationIndexReducer dp (app_conversationIndex state) action,
      app_conversationDetail = conversationDetailReducer dp (app_conversationDetail state) action,
      app_pendingSubmission = pendingSubmissionReducer (app_pendingSubmission state) action,
      app_activeRun = activeRunReducer (app_activeRun state) action,
      app_composer = composerReducer (app_composer state) action,
      app_ui = uiReducer (app_ui state) action\<rparr>"

text \<open>Several dispatches in a row.\<close>

definition dispatch_all :: "date_parse \<Rightarrow> app_state \<Rightarrow> app_action list \<Rightarrow> app_state" where
  "dispatch_all dp = foldl (rootReducer dp)"

section \<open>Dispatch and its mirror\<close>

text \<open>
  \<open>AppProvider\<close> keeps two copies of the state: the one React commits, which applies the queued
  actions at the next render, and \<open>stateRef\<close>, advanced at once by every dispatch.
\<close>

record app_provider =
  prov_stateRef :: app_state
  prov_committed :: app_state
  prov_queue :: "app_action list"

definition mount_provider :: app_provider where
  "mount_provider = \<lparr>prov_stateRef = initialState, prov_committed = initialState, prov_queue = []\<rparr>"

definition dispatch :: "date_parse \<Rightarrow> app_provider \<Rightarrow> app_action \<Rightarrow> app_provider" where
  "dispatch dp p action = p\<lparr>prov_stateRef := rootReducer dp (prov_stateRef p) action,
     prov_queue := prov_queue p @ [action]\<rparr>"

text \<open>React renders: the queued actions run through the reducer given to \<open>useReducer\<close>.\<close>

definition commit_render :: "date_parse \<Rightarrow> app_provider \<Rightarrow> app_provider" where
  "commit_render dp p = p\<lparr>prov_committed := foldl (rootReducer dp) (prov_committed p) (prov_queue p),
     prov_queue := []\<rparr>"

inductive provider_step :: "date_parse \<Rightarrow> app_provider \<Rightarrow> app_provider \<Rightarrow> bool" for dp where
  dispatches: "provider_step dp p (dispatch dp p action)"
| renders: "provider_step dp p (commit_render dp p)"

inductive provider_reachable :: "date_parse \<Rightarrow> app_provider \<Rightarrow> bool" for dp where
  mounted: "provider_reachable dp mount_provider"
| steps: "provider_reachable dp p \<Longrightarrow> provider_step dp p q \<Longrightarrow> provider_reachable dp q"

inductive_cases provider_stepE: "provider_step dp p q"

lemma provider_mirror:
  "provider_reachable dp p \<Longrightarrow>
     prov_stateRef p = foldl (rootReducer dp) (prov_committed p) (prov_queue p)"
proof (induction rule: provider_reachable.induct)
  case mounted
  then show ?case by (simp add: mount_provider_def)
next
  case (steps p q)
  then show ?case
    by (auto simp: dispatch_def commit_render_def elim!: provider_stepE)
qed

section \<open>Slices and the root\<close>

lemma rootReducer_simps [simp]:
  "app_auth (rootReducer dp s a) = authReducer (app_auth s) a"
  "app_conversationIndex (rootReducer dp s a) = conversationIndexReducer dp (app_conversationIndex s) a"
  "app_conversationDetail (rootReducer dp s a) =
     conversationDetailReducer dp (app_conversationDetail s) a"
  "app_pendingSubmission (rootReducer dp s a) = pendingSubmissionReducer (app_pendingSubmission s) a"
  "app_activeRun (rootReducer dp s a) = activeRunReducer (app_activeRun s) a"
  "app_composer (rootReducer dp s a) = composerReducer (app_composer s) a"
  "app_ui (rootReducer dp s a) = uiReducer (app_ui s) a"
  by (simp_all add: rootReducer_def)

lemma dispatch_all_Nil [simp]: "dispatch_all dp s [] = s"
  by (simp add: dispatch_all_def)

lemma dispatch_all_Cons [simp]:
  "dispatch_all dp s (a # as) = dispatch_all dp (rootReducer dp s a) as"
  by (simp add: dispatch_all_def)

lemma dispatch_all_append:
  "dispatch_all dp s (as @ bs) = dispatch_all dp (dispatch_all dp s as) bs"
  by (simp add: dispatch_all_def)

text \<open>Each slice of a run of the root is the run of the slice's own reducer.\<close>

lemma dispatch_all_slices:
  "app_auth (dispatch_all dp s as) = foldl authReducer (app_auth s) as"
  "app_conversationIndex (dispatch_all dp s as) =
     foldl (conversationIndexReducer dp) (app_conversationIndex s) as"
  "app_conversationDetail (dispatch_all dp s as) =
     foldl (conversationDetailReducer dp) (app_conversationDetail s) as"
  "app_pendingSubmission (dispatch_all dp s as) =
     foldl pendingSubmissionReducer (app_pendingSubmission s) as"
  "app_activeRun (dispatch_all dp s as) = foldl activeRunReducer (app_activeRun s) as"
  "app_composer (dispatch_all dp s as) = foldl composerReducer (app_composer s) as"
  "app_ui (dispatch_all dp s as) = foldl uiReducer (app_ui s) as"
  by (induction as arbitrary: s) simp_all

subsection \<open>Invariants of the small slices\<close>

definition ui_inv :: "ui_state \<Rightarrow> bool" where
  "ui_inv s \<longleftrightarrow> 0 \<le> ui_toastSequence s \<and>
     (\<forall>t. ui_toast s = Some t \<longrightarrow> toast_id t = ui_toastSequence s \<and> 0 < toast_id t)"

lemma ui_step_inv: "ui_inv s \<Longrightarrow> ui_inv (ui_step s a)"
  by (cases a) (auto simp: ui_inv_def Let_def)

lemma uiReducer_reset: "uiReducer s App_reset = initialUiState"
  by (simp add: uiReducer_def)

lemma ui_inv_initial: "ui_inv initialUiState"
  by (simp add: ui_inv_def initialUiState_def)

lemma uiReducer_inv: "ui_inv s \<Longrightarrow> ui_inv (uiReducer s a)"
  by (cases a) (simp_all add: uiReducer_def ui_step_inv ui_inv_initial)

interpretation ui_slice: total_slice initialUiState initialUiState uiReducer ui_inv "\<lambda>_ _. True"
  by unfold_locales (simp_all add: uiReducer_inv ui_inv_initial uiReducer_reset)

lemma authReducer_reset: "authReducer s App_reset = initialAuthState\<lparr>as_bootstrapped := True\<rparr>"
  by (simp add: authReducer_def)

interpretation auth_slice: total_slice initialAuthState "initialAuthState\<lparr>as_bootstrapped := True\<rparr>"
  authReducer "\<lambda>_. True" "\<lambda>_ _. True"
  by unfold_locales (simp_all add: authReducer_reset)

lemma pendingSubmissionReducer_reset:
  "pendingSubmissionReducer s App_reset = initialPendingSubmissionState"
  by (simp add: pendingSubmissionReducer_def)

interpretation submission_slice: total_slice initialPendingSubmissionState
  initialPendingSubmissionState pendingSubmissionReducer "\<lambda>_. True" "\<lambda>_ _. True"
  by unfold_locales (simp_all add: pendingSubmissionReducer_reset)

lemma composerReducer_reset: "composerReducer s App_reset = initialComposerState"
  by (simp add: composerReducer_def)

interpretation composer_slice: total_slice initialComposerState initialComposerState
  composerReducer "\<lambda>_. True" "\<lambda>_ _. True"
  by unfold_locales (simp_all add: composerReducer_reset)

subsection \<open>The invariant of the whole store\<close>

definition app_inv :: "app_state \<Rightarrow> bool" where
  "app_inv s \<longleftrightarrow> index_inv (app_conversationIndex s) \<and> detail_inv (app_conversationDetail s) \<and>
     run_inv (app_activeRun s) \<and> ui_inv (app_ui s)"

definition app_ok :: "app_state \<Rightarrow> app_action \<Rightarrow> bool" where
  "app_ok s a = index_action_ok (app_conversationIndex s) a"

definition reset_app_state :: app_state where
  "reset_app_state = initialState\<lparr>app_auth := initialAuthState\<lparr>as_bootstrapped := True\<rparr>\<rparr>"

lemma rootReducer_reset: "rootReducer dp s App_reset = reset_app_state"
  by (simp add: rootReducer_def reset_app_state_def initialState_def authReducer_reset
      conversationIndexReducer_reset conversationDetailReducer_reset pendingSubmissionReducer_reset
      activeRunReducer_reset composerReducer_reset uiReducer_reset)

lemma app_inv_initial: "app_inv initialState"
  by (simp add: app_inv_def initialState_def index_inv_initial detail_inv_initial ui_inv_initial
      initialActiveRunState_def)

lemma rootReducer_inv: "app_inv s \<Longrightarrow> app_ok s a \<Longrightarrow> app_inv (rootReducer dp s a)"
  by (simp add: app_inv_def app_ok_def conversationIndexReducer_inv conversationDetailReducer_inv
      activeRunReducer_inv uiReducer_inv)

interpretation root_slice: slice initialState reset_app_state "rootReducer dp" app_inv app_ok for dp
  by unfold_locales (simp_all add: rootReducer_inv app_inv_initial rootReducer_reset)

subsection \<open>Actions of other slices\<close>

text \<open>
  Every reducer ignores the actions of the others, the thread's interest in the list apart; these
  equations let the simplifier follow any sequence of dispatches slice by slice.
\<close>

lemma authReducer_simps [simp]:
  "authReducer s (AuthA a) = auth_step s a" "authReducer s (IndexA b) = s"
  "authReducer s (DetailA c) = s" "authReducer s (SubmissionA d) = s" "authReducer s (UiA e) = s"
  "authReducer s (RunA f) = s" "authReducer s (ComposerA g) = s"
  by (simp_all add: authReducer_def)

lemma conversationIndexReducer_simps [simp]:
  "conversationIndexReducer dp s (IndexA b) = index_step dp s b"
  "conversationIndexReducer dp s (AuthA a) = s" "conversationIndexReducer dp s (DetailA c) = s"
  "conversationIndexReducer dp s (SubmissionA d) = s" "conversationIndexReducer dp s (UiA e) = s"
  "conversationIndexReducer dp s (RunA f) = s" "conversationIndexReducer dp s (ComposerA g) = s"
  by (simp_all add: conversationIndexReducer_def)

lemma conversationDetailReducer_simps [simp]:
  "conversationDetailReducer dp s (DetailA c) = detail_step s c"
  "conversationDetailReducer dp s (AuthA a) = s" "conversationDetailReducer dp s (SubmissionA d) = s"
  "conversationDetailReducer dp s (UiA e) = s" "conversationDetailReducer dp s (RunA f) = s"
  "conversationDetailReducer dp s (ComposerA g) = s"
  "conversationDetailReducer dp s (IndexA (ConvRunStarted x y z)) = s"
  "conversationDetailReducer dp s (IndexA (ConvRunFinished i)) = s"
  "conversationDetailReducer dp s (IndexA (ConvSelected j)) = s"
  "conversationDetailReducer dp s (IndexA (ConvRemoved i)) = s"
  "conversationDetailReducer dp s (IndexA (DraftCreated i)) = s"
  "conversationDetailReducer dp s (IndexA DraftActivated) = s"
  "conversationDetailReducer dp s (IndexA (TitlePending i)) = s"
  "conversationDetailReducer dp s (IndexA (TitleResolved i)) = s"
  "conversationDetailReducer dp s (IndexA (ListPageLoaded items more_pages)) = s"
  "conversationDetailReducer dp s (IndexA (ConvRenamed conv)) = rename_detail s conv"
  "conversationDetailReducer dp s (IndexA (MarkerChanged conv)) = mark_detail s conv"
  by (simp_all add: conversationDetailReducer_def)

lemma conversationDetailReducer_index [simp]:
  "cd_messages (conversationDetailReducer dp s (IndexA b)) = cd_messages s"
  "cd_status (conversationDetailReducer dp s (IndexA b)) = cd_status s"
  by (cases b; simp add: conversationDetailReducer_def detail_frame)+

lemma pendingSubmissionReducer_simps [simp]:
  "pendingSubmissionReducer s (SubmissionA d) = submission_step s d"
  "pendingSubmissionReducer s (AuthA a) = s" "pendingSubmissionReducer s (IndexA b) = s"
  "pendingSubmissionReducer s (DetailA c) = s" "pendingSubmissionReducer s (UiA e) = s"
  "pendingSubmissionReducer s (RunA f) = s" "pendingSubmissionReducer s (ComposerA g) = s"
  by (simp_all add: pendingSubmissionReducer_def)

lemma activeRunReducer_simps [simp]:
  "activeRunReducer s (RunA f) = active_run_step s f"
  "activeRunReducer s (AuthA a) = s" "activeRunReducer s (IndexA b) = s"
  "activeRunReducer s (DetailA c) = s" "activeRunReducer s (SubmissionA d) = s"
  "activeRunReducer s (UiA e) = s" "activeRunReducer s (ComposerA g) = s"
  by (simp_all add: activeRunReducer_def)

lemma composerReducer_simps [simp]:
  "composerReducer s (ComposerA g) = composer_step s g"
  "composerReducer s (AuthA a) = s" "composerReducer s (IndexA b) = s"
  "composerReducer s (DetailA c) = s" "composerReducer s (SubmissionA d) = s"
  "composerReducer s (UiA e) = s" "composerReducer s (RunA f) = s"
  by (simp_all add: composerReducer_def)

lemma uiReducer_simps [simp]:
  "uiReducer s (UiA e) = ui_step s e" "uiReducer s (AuthA a) = s" "uiReducer s (IndexA b) = s"
  "uiReducer s (DetailA c) = s" "uiReducer s (SubmissionA d) = s" "uiReducer s (RunA f) = s"
  "uiReducer s (ComposerA g) = s"
  by (simp_all add: uiReducer_def)

lemma withPinned_selected [simp]: "ci_selectedId (withPinned s pinned) = ci_selectedId s"
  by (simp add: withPinned_def Let_def)

section \<open>Properties\<close>



text \<open>
  Logging out forgets the session: after \<open>app/reset\<close> the state, and everything later
  dispatches make of it, is the same whatever two histories came before.
\<close>

theorem reset_forgets_history:
  "dispatch_all dp s (as @ App_reset # cs) = dispatch_all dp t (bs @ App_reset # cs)"
  unfolding dispatch_all_def by (rule root_slice.reset_forgets)



end
