(* ===== verification/Sse.thy ===== *)
theory Sse
  imports Api_Types
begin

text \<open>
  The server-sent-event decoder of \<open>frontend/src/api/sse.ts\<close>: the incremental parser
  \<open>SseParser\<close> with its buffer, \<open>parseEvent\<close>, and \<open>decodeSseStream\<close> as a function of the
  texts that successive \<open>TextDecoder.decode\<close> calls return. The backend's formatter
  \<open>format_sse_event\<close> (\<open>app/api/v1/runs.py\<close>) is the other end of the wire.

  The lemmas show that the parser is a stream homomorphism (how the network cuts the stream into
  chunks does not matter), that its loop ends and leaves no complete event in the buffer, and that
  it inverts the formatter.
\<close>

section \<open>Definitions\<close>

record parsed_sse_event =
  pse_id :: "jstr option"
  pse_event :: "jstr option"
  pse_data :: jstr

text \<open>\<open>findBoundary\<close>: position and length of the first blank line, \<open>None\<close> for \<open>-1\<close>.\<close>

definition find_boundary :: "jstr \<Rightarrow> (nat \<times> nat) option" where
  "find_boundary buf =
     (case (index_of [10, 10] buf, index_of [13, 10, 13, 10] buf) of
        (None, None) \<Rightarrow> None
      | (None, Some crlf) \<Rightarrow> Some (crlf, 4)
      | (Some lf, None) \<Rightarrow> Some (lf, 2)
      | (Some lf, Some crlf) \<Rightarrow> if lf < crlf then Some (lf, 2) else Some (crlf, 4))"

text \<open>\<open>rawEvent.split(/\r?\n/)\<close>.\<close>

fun split_lines :: "jstr \<Rightarrow> jstr list" where
  "split_lines [] = [[]]"
| "split_lines (x # xs) =
     (if x = 10 then [] # split_lines xs
      else if x = 13 \<and> xs \<noteq> [] \<and> hd xs = 10 then [] # split_lines (tl xs)
      else (case split_lines xs of [] \<Rightarrow> [[x]] | l # ls \<Rightarrow> (x # l) # ls))"

text \<open>One iteration of the loop over the lines: id, event name and data lines so far.\<close>

type_synonym sse_fields = "jstr option \<times> jstr option \<times> jstr list"

definition parse_line :: "sse_fields \<Rightarrow> jstr \<Rightarrow> sse_fields" where
  "parse_line st line =
     (if line = [] \<or> starts_with (js '':'') line then st
      else
        let separator = index_of (js '':'') line;
            field = (case separator of None \<Rightarrow> line | Some i \<Rightarrow> take i line);
            rawValue = (case separator of None \<Rightarrow> [] | Some i \<Rightarrow> drop (i + 1) line);
            value = (if starts_with (js '' '') rawValue then drop 1 rawValue else rawValue);
            (i, e, ds) = st
        in (if field = js ''id'' then Some value else i,
            if field = js ''event'' then Some value else e,
            if field = js ''data'' then ds @ [value] else ds))"

definition parse_event :: "jstr \<Rightarrow> parsed_sse_event option" where
  "parse_event raw =
     (let (i, e, ds) = foldl parse_line (None, None, []) (split_lines raw)
      in if ds = [] then None
         else Some \<lparr>pse_id = i, pse_event = e, pse_data = join [10] ds\<rparr>)"

text \<open>The loop of \<open>push\<close>: complete events in order, and the buffer that remains.\<close>

function (sequential) push_loop :: "jstr \<Rightarrow> parsed_sse_event list \<times> jstr" where
  "push_loop buf =
     (case find_boundary buf of
        None \<Rightarrow> ([], buf)
      | Some (i, n) \<Rightarrow>
          (let (es, rest) = push_loop (drop (i + n) buf)
           in (case parse_event (take i buf) of None \<Rightarrow> es | Some e \<Rightarrow> e # es, rest)))"
  by pat_completeness auto

lemma find_boundary_shape:
  assumes "find_boundary buf = Some (i, n)"
  shows "index_of [10, 10] buf = Some i \<and> n = 2 \<or> index_of [13, 10, 13, 10] buf = Some i \<and> n = 4"
  using assms by (auto simp: find_boundary_def split: option.splits if_splits)

lemma find_boundary_inside: "find_boundary buf = Some (i, n) \<Longrightarrow> 2 \<le> n \<and> i + n \<le> length buf"
  by (auto dest!: find_boundary_shape starts_with_length simp: index_of_Some)

termination push_loop
  by (relation "measure length") (auto dest: find_boundary_inside)

declare push_loop.simps [simp del]

definition push :: "jstr \<Rightarrow> jstr \<Rightarrow> parsed_sse_event list \<times> jstr" where
  "push buffer chunk = push_loop (buffer @ chunk)"

text \<open>The reads of \<open>decodeSseStream\<close>, each pushed in turn, and the flushed remainder.\<close>

fun push_all :: "jstr \<Rightarrow> jstr list \<Rightarrow> parsed_sse_event list \<times> jstr" where
  "push_all buffer [] = ([], buffer)"
| "push_all buffer (c # cs) =
     (let (es, b) = push buffer c; (fs, b') = push_all b cs in (es @ fs, b'))"

definition decode_sse_stream :: "jstr list \<Rightarrow> jstr \<Rightarrow> parsed_sse_event list" where
  "decode_sse_stream texts remaining =
     (let (es, buffer) = push_all [] texts
      in es @ (if remaining \<noteq> [] then fst (push buffer remaining) else []))"

text \<open>
  \<open>format_sse_event\<close> of the backend: the sequence number in decimal, the event type and the
  JSON text are its arguments.
\<close>

definition format_sse_event :: "jstr \<Rightarrow> jstr \<Rightarrow> jstr \<Rightarrow> jstr" where
  "format_sse_event seq ty data =
     js ''id: '' @ seq @ [10] @ js ''event: '' @ ty @ [10] @ js ''data: '' @ data @ [10, 10]"

section \<open>Chunking\<close>

lemma index_of_append: "index_of p a = Some i \<Longrightarrow> index_of p (a @ b) = Some i"
proof -
  assume a: "index_of p a = Some i"
  have "\<not> starts_with p (drop j (a @ b))" if "j < i" for j
  proof -
    from a have "length p \<le> length (drop i a)"
      by (auto simp: index_of_Some dest: starts_with_length)
    with that have "length p \<le> length (drop j a)" by simp
    with a that show ?thesis
      by (auto simp: index_of_Some starts_with_append_long)
  qed
  with a show ?thesis
    by (auto simp: index_of_Some starts_with_mono)
qed

lemma starts_with_nth: "starts_with p s \<Longrightarrow> k < length p \<Longrightarrow> s ! k = p ! k"
  by (auto simp: starts_with_iff nth_append)

lemma occurs_nth:
  assumes "starts_with p (drop i s)" and "k < length p"
  shows "s ! (i + k) = p ! k" and "i + k < length s"
proof -
  from assms have "length p \<le> length (drop i s)"
    by (auto dest: starts_with_length)
  with assms(2) show "i + k < length s" by auto
  from assms show "s ! (i + k) = p ! k"
    by (metis drop_all length_drop less_diff_conv not_less nth_drop starts_with_nth
        \<open>i + k < length s\<close> less_imp_le_nat add.commute order.strict_trans1 le_add1)
qed

text \<open>
  A CRLF boundary that only the next chunk completes never starts before an LF boundary that is
  already complete, and conversely: the two patterns disagree on the code unit they would share.
\<close>

lemma new_occurrence_late:
  assumes "starts_with p (drop j (a @ b))" and "\<not> starts_with p (drop j a)"
  shows "length a < j + length p"
proof (rule ccontr)
  assume "\<not> ?thesis"
  then have "j \<le> length a" and "length p \<le> length (drop j a)" by auto
  with assms show False by (simp add: starts_with_append_long)
qed

lemma lf_before_new_crlf:
  fixes a b :: jstr
  assumes lf: "index_of [10, 10] a = Some i" and "index_of [13, 10, 13, 10] a = None"
    and new: "index_of [13, 10, 13, 10] (a @ b) = Some j"
  shows "i < j"
proof (rule ccontr)
  assume "\<not> i < j"
  have occ: "starts_with [13, 10, 13, 10] (drop j (a @ b))"
    using new by (simp add: index_of_Some)
  have lf': "starts_with [10, 10] (drop i (a @ b))"
    using index_of_append [OF lf] by (simp add: index_of_Some)
  have ia: "i + 1 < length a"
    using lf occurs_nth(2) [of "[10, 10]" i a 1] by (simp add: index_of_Some)
  have "\<not> starts_with [13, 10, 13, 10] (drop j a)"
    using assms(2) \<open>\<not> i < j\<close> ia by (auto simp: index_of_None)
  with occ have "length a < j + 4"
    using new_occurrence_late [of "[13, 10, 13, 10]" j a b] by simp
  with ia \<open>\<not> i < j\<close> have "j \<le> i" "i < j + 3" by auto
  moreover have "(a @ b) ! (j + 0) = 13" "(a @ b) ! (j + 2) = 13"
    using occurs_nth(1) [OF occ, of 0] occurs_nth(1) [OF occ, of 2] by simp_all
  moreover have "(a @ b) ! (i + 0) = 10" "(a @ b) ! (i + 1) = 10"
    using occurs_nth(1) [OF lf', of 0] occurs_nth(1) [OF lf', of 1] by simp_all
  moreover from calculation have "i = j \<or> i = j + 1 \<or> i = j + 2" by auto
  ultimately show False by auto
qed

lemma crlf_before_new_lf:
  fixes a b :: jstr
  assumes crlf: "index_of [13, 10, 13, 10] a = Some i" and "index_of [10, 10] a = None"
    and new: "index_of [10, 10] (a @ b) = Some j"
  shows "i < j"
proof (rule ccontr)
  assume "\<not> i < j"
  have ia: "i + 3 < length a"
    using crlf occurs_nth(2) [of "[13, 10, 13, 10]" i a 3] by (simp add: index_of_Some)
  have "\<not> starts_with [10, 10] (drop j a)"
    using assms(2) \<open>\<not> i < j\<close> ia by (auto simp: index_of_None)
  then have "length a < j + 2"
    using new_occurrence_late [of "[10, 10]" j a b] new by (simp add: index_of_Some)
  with ia \<open>\<not> i < j\<close> show False by simp
qed

lemma find_boundary_append:
  assumes "find_boundary a = Some (i, n)"
  shows "find_boundary (a @ b) = Some (i, n)"
proof (cases "index_of [10, 10] a")
  case None
  with assms have c: "index_of [13, 10, 13, 10] a = Some i" and n: "n = 4"
    by (auto simp: find_boundary_def split: option.splits)
  show ?thesis
  proof (cases "index_of [10, 10] (a @ b)")
    case None
    with index_of_append [OF c] n show ?thesis by (simp add: find_boundary_def)
  next
    case (Some j)
    with crlf_before_new_lf [OF c \<open>index_of [10, 10] a = None\<close>] have "i < j" by blast
    with Some index_of_append [OF c] n show ?thesis by (simp add: find_boundary_def)
  qed
next
  case lf: (Some k)
  show ?thesis
  proof (cases "index_of [13, 10, 13, 10] a")
    case None
    with lf assms have "k = i" "n = 2" by (auto simp: find_boundary_def)
    moreover have "\<forall>j. index_of [13, 10, 13, 10] (a @ b) = Some j \<longrightarrow> k < j"
      using lf_before_new_crlf [OF lf None] by blast
    ultimately show ?thesis
      using index_of_append [OF lf]
      by (cases "index_of [13, 10, 13, 10] (a @ b)") (auto simp: find_boundary_def)
  next
    case (Some c)
    with lf assms index_of_append [OF lf] index_of_append [OF Some] show ?thesis
      by (auto simp: find_boundary_def split: if_splits)
  qed
qed

lemma push_loop_append:
  "push_loop (a @ b) =
     (let (es, r) = push_loop a; (fs, r') = push_loop (r @ b) in (es @ fs, r'))"
proof (induction a rule: push_loop.induct)
  case (1 a)
  show ?case
  proof (cases "find_boundary a")
    case None
    then show ?thesis by (simp add: push_loop.simps [of a] split: prod.splits)
  next
    case (Some bn)
    then obtain i n where bn: "find_boundary a = Some (i, n)" by (cases bn) auto
    then have "i + n \<le> length a" by (auto dest: find_boundary_inside)
    with bn 1 [OF bn refl] find_boundary_append [OF bn, of b] show ?thesis
      by (auto simp: push_loop.simps [of a] push_loop.simps [of "a @ b"]
          split: prod.splits option.splits)
  qed
qed

lemma push_loop_no_boundary: "find_boundary (snd (push_loop buf)) = None"
proof (induction buf rule: push_loop.induct)
  case (1 buf)
  show ?case
  proof (cases "find_boundary buf")
    case None
    then show ?thesis by (simp add: push_loop.simps [of buf])
  next
    case (Some b)
    then obtain i n where b: "find_boundary buf = Some (i, n)" by (cases b) auto
    with 1 [OF b refl] show ?thesis
      by (cases "push_loop (drop (i + n) buf)") (simp add: push_loop.simps [of buf])
  qed
qed

lemma push_loop_idle: "find_boundary buf = None \<Longrightarrow> push_loop buf = ([], buf)"
  by (simp add: push_loop.simps [of buf])

lemma push_all_concat:
  "find_boundary buffer = None \<Longrightarrow> push_all buffer cs = push_loop (buffer @ concat cs)"
proof (induction cs arbitrary: buffer)
  case Nil
  then show ?case by (simp add: push_loop_idle)
next
  case (Cons c cs)
  obtain es r where er: "push_loop (buffer @ c) = (es, r)" by (cases "push_loop (buffer @ c)")
  then have "find_boundary r = None"
    using push_loop_no_boundary [of "buffer @ c"] by simp
  with Cons.IH er push_loop_append [of "buffer @ c" "concat cs"] show ?case
    by (simp add: push_def split: prod.splits)
qed

lemma find_boundary_Nil [simp]: "find_boundary [] = None"
  by (simp add: find_boundary_def)

section \<open>The backend's formatter\<close>

definition line_free :: "jstr \<Rightarrow> bool" where
  "line_free s \<longleftrightarrow> 10 \<notin> set s \<and> 13 \<notin> set s"

lemma split_lines_free: "line_free a \<Longrightarrow> split_lines a = [a]"
  by (induction a) (auto simp: line_free_def)

lemma split_lines_LF: "line_free a \<Longrightarrow> split_lines (a @ 10 # b) = a # split_lines b"
  by (induction a) (auto simp: line_free_def split: list.splits)

lemma index_of_single:
  "c \<notin> set a \<Longrightarrow> index_of [c] (a @ c # b) = Some (length a)"
  by (induction a) (auto simp: starts_with_def)

lemma parse_line_field:
  assumes "f \<noteq> []" and "CHR '':'' \<notin> set f"
  shows "parse_line (i, e, ds) (js f @ js '': '' @ v) =
    (if f = ''id'' then Some v else i, if f = ''event'' then Some v else e,
     if f = ''data'' then ds @ [v] else ds)"
proof -
  have colon: "of_char CHR '':'' \<notin> set (js f)"
    using assms(2) by (auto simp: js_def simp del: of_char_Char)
  have "js f @ js '': '' @ v = js f @ of_char CHR '':'' # of_char CHR '' '' # v"
    by (simp add: js_def)
  with index_of_single [OF colon, of "of_char CHR '' '' # v"]
  have idx: "index_of (js '':'') (js f @ js '': '' @ v) = Some (length f)"
    by (simp add: js_def)
  have "\<not> starts_with (js '':'') (js f @ js '': '' @ v)"
    using idx assms(1) by (auto simp: index_of_Some)
  moreover have "drop (length f + 1) (js f @ js '': '' @ v) = js '' '' @ v"
    by (simp add: js_def)
  ultimately show ?thesis
    using idx assms(1) by (simp add: parse_line_def Let_def)
qed

definition sse_body :: "jstr \<Rightarrow> jstr \<Rightarrow> jstr \<Rightarrow> jstr" where
  "sse_body seq ty data =
     (js ''id: '' @ seq) @ 10 # (js ''event: '' @ ty) @ 10 # (js ''data: '' @ data)"

lemma format_sse_event_body: "format_sse_event seq ty data = sse_body seq ty data @ [10, 10]"
  by (simp add: format_sse_event_def sse_body_def)

lemma line_free_js: "CHR 0x0A \<notin> set s \<Longrightarrow> CHR 0x0D \<notin> set s \<Longrightarrow> line_free (js s)"
proof -
  have lf: "(10 :: code_unit) = of_char (CHR 0x0A)" and cr: "(13 :: code_unit) = of_char (CHR 0x0D)"
    by simp_all
  assume "CHR 0x0A \<notin> set s" and "CHR 0x0D \<notin> set s"
  then show ?thesis
    unfolding line_free_def js_def lf cr by (auto simp del: of_char_Char)
qed

lemma line_free_append [simp]: "line_free (a @ b) \<longleftrightarrow> line_free a \<and> line_free b"
  by (auto simp: line_free_def)

lemma line_free_fields [simp]:
  "line_free (js ''id: '')" "line_free (js ''event: '')" "line_free (js ''data: '')"
  by (rule line_free_js; simp)+

lemma parse_sse_body:
  assumes "line_free seq" and "line_free ty" and "line_free data"
  shows "parse_event (sse_body seq ty data) =
    Some \<lparr>pse_id = Some seq, pse_event = Some ty, pse_data = data\<rparr>"
proof -
  have free: "line_free (js ''id: '' @ seq)" "line_free (js ''event: '' @ ty)"
    "line_free (js ''data: '' @ data)" using assms by simp_all
  have "split_lines (sse_body seq ty data) =
      [js ''id: '' @ seq, js ''event: '' @ ty, js ''data: '' @ data]"
    unfolding sse_body_def
    by (simp only: split_lines_LF [OF free(1)] split_lines_LF [OF free(2)]
        split_lines_free [OF free(3)])
  moreover have "js ''id: '' = js ''id'' @ js '': ''" "js ''event: '' = js ''event'' @ js '': ''"
    "js ''data: '' = js ''data'' @ js '': ''" by (simp_all flip: js_append)
  ultimately show ?thesis
    by (simp add: parse_event_def parse_line_field)
qed

lemma index_of_skip:
  "c \<notin> set a \<Longrightarrow>
     index_of (c # p) (a @ t) = map_option (\<lambda>i. length a + i) (index_of (c # p) t)"
  by (induction a) (cases "index_of (c # p) t"; auto simp: starts_with_def)+

lemma index_of_lf_single:
  "y \<noteq> 10 \<Longrightarrow> index_of [10, 10] ((10 :: code_unit) # y # t) = map_option Suc (index_of [10, 10] (y # t))"
  by (simp add: starts_with_def)

lemma find_boundary_body:
  assumes "line_free seq" and "line_free ty" and "line_free data"
  shows "find_boundary (sse_body seq ty data @ 10 # 10 # r) =
    Some (length (sse_body seq ty data), 2)"
proof -
  let ?a = "js ''id: '' @ seq" and ?b = "js ''event: '' @ ty" and ?c = "js ''data: '' @ data"
  obtain y b' where b: "?b = y # b'" by (cases ?b) (auto simp: js_def)
  obtain z c' where c: "?c = z # c'" by (cases ?c) (auto simp: js_def)
  have free: "line_free ?a" "line_free (y # b')" "line_free (z # c')"
    using assms by (simp_all flip: b c)
  then have n10: "10 \<notin> set ?a" "10 \<notin> set (y # b')" "10 \<notin> set (z # c')" "y \<noteq> 10" "z \<noteq> 10"
    and n13: "13 \<notin> set (?a @ 10 # (y # b') @ 10 # (z # c'))"
    unfolding line_free_def by auto
  have body: "sse_body seq ty data = ?a @ 10 # (y # b') @ 10 # (z # c')"
    by (simp only: sse_body_def b c)
  have "index_of [10, 10] (sse_body seq ty data @ 10 # 10 # r) = Some (length (sse_body seq ty data))"
  proof -
    have "index_of [10, 10] ((z # c') @ 10 # 10 # r) = Some (length (z # c'))"
      using index_of_skip [OF n10(3), of "[10]" "10 # 10 # r"] by (simp add: starts_with_def)
    then have 1: "index_of [10, 10] (10 # (z # c') @ 10 # 10 # r) = Some (Suc (length (z # c')))"
      using index_of_lf_single [OF n10(5), of "c' @ 10 # 10 # r"] by simp
    then have "index_of [10, 10] ((y # b') @ 10 # (z # c') @ 10 # 10 # r) =
        Some (length (y # b') + Suc (length (z # c')))"
      by (simp only: index_of_skip [OF n10(2)]) simp
    then have 2: "index_of [10, 10] (10 # (y # b') @ 10 # (z # c') @ 10 # 10 # r) =
        Some (Suc (length (y # b') + Suc (length (z # c'))))"
      using index_of_lf_single [OF n10(4), of "b' @ 10 # (z # c') @ 10 # 10 # r"] by simp
    then have "index_of [10, 10] (?a @ 10 # (y # b') @ 10 # (z # c') @ 10 # 10 # r) =
        Some (length ?a + Suc (length (y # b') + Suc (length (z # c'))))"
      by (simp only: index_of_skip [OF n10(1)]) simp
    then show ?thesis by (simp add: body)
  qed
  moreover have "length (sse_body seq ty data) < j"
    if "index_of [13, 10, 13, 10] (sse_body seq ty data @ 10 # 10 # r) = Some j" for j
    using that index_of_skip [OF n13, of "[10, 13, 10]" "10 # 10 # r"]
    by (cases "index_of [13, 10, 13, 10] r") (auto simp: body starts_with_def)
  ultimately show ?thesis
    by (auto simp: find_boundary_def split: option.splits)
qed

lemma push_loop_format:
  assumes "line_free seq" and "line_free ty" and "line_free data"
  shows "push_loop (format_sse_event seq ty data @ r) =
    (let (es, b) = push_loop r
     in (\<lparr>pse_id = Some seq, pse_event = Some ty, pse_data = data\<rparr> # es, b))"
  using find_boundary_body [OF assms, of r] parse_sse_body [OF assms]
  by (simp add: format_sse_event_body push_loop.simps [of "sse_body seq ty data @ 10 # 10 # r"]
      split: prod.splits)

lemma push_loop_format_all:
  assumes "\<forall>(seq, ty, data) \<in> set evs. line_free seq \<and> line_free ty \<and> line_free data"
  shows "push_loop (concat (map (\<lambda>(seq, ty, data). format_sse_event seq ty data) evs)) =
    (map (\<lambda>(seq, ty, data). \<lparr>pse_id = Some seq, pse_event = Some ty, pse_data = data\<rparr>) evs, [])"
  using assms
proof (induction evs)
  case Nil
  then show ?case by (simp add: push_loop_idle)
next
  case (Cons ev evs)
  then show ?case by (cases ev) (simp add: push_loop_format)
qed

section \<open>Properties\<close>

lemma decode_sse_stream_loop: "decode_sse_stream texts rest = fst (push_loop (concat texts @ rest))"
proof -
  obtain es b where eb: "push_loop (concat texts) = (es, b)" by (cases "push_loop (concat texts)")
  have all: "push_all [] texts = (es, b)" using push_all_concat [of "[]" texts] eb by simp
  show ?thesis
    using push_loop_append [of "concat texts" rest] eb all push_loop_no_boundary [of "concat texts"]
    by (auto simp: decode_sse_stream_def push_def push_loop_idle split: prod.splits)
qed

lemma push_loop_suffix: "\<exists>p. buf = p @ snd (push_loop buf)"
proof (induction buf rule: push_loop.induct)
  case (1 buf)
  show ?case
  proof (cases "find_boundary buf")
    case None
    then show ?thesis by (simp add: push_loop.simps [of buf])
  next
    case (Some b)
    then obtain i n where b: "find_boundary buf = Some (i, n)" by (cases b) auto
    from 1 [OF b refl] obtain p where "drop (i + n) buf = p @ snd (push_loop (drop (i + n) buf))" ..
    then have "buf = (take (i + n) buf @ p) @ snd (push_loop (drop (i + n) buf))"
      by (metis append.assoc append_take_drop_id)
    moreover have "snd (push_loop buf) = snd (push_loop (drop (i + n) buf))"
      using b by (cases "push_loop (drop (i + n) buf)") (simp add: push_loop.simps [of buf])
    ultimately show ?thesis by metis
  qed
qed

text \<open>
  The events \<open>decodeSseStream\<close> yields depend on the bytes of the response only, not on how
  the network cut them into reads: any sequence of reads with any flushed remainder yields the
  events of one single read of the whole text.
\<close>

theorem sse_chunking_irrelevant:
  "decode_sse_stream texts remaining = decode_sse_stream [concat texts @ remaining] []"
  by (simp add: decode_sse_stream_loop)

text \<open>
  (C15) Round trip with the backend: when the concatenated reads are the output of
  \<open>format_sse_event\<close> for a list of events whose fields hold no line terminator (the backend
  writes JSON on one line), the decoder yields exactly these events, in order, each with its
  sequence number as id, its type as event name and its JSON text as data.
\<close>

theorem sse_roundtrip:
  assumes "\<forall>(seq, ty, data) \<in> set evs. line_free seq \<and> line_free ty \<and> line_free data"
    and "concat texts @ remaining =
      concat (map (\<lambda>(seq, ty, data). format_sse_event seq ty data) evs)"
  shows "decode_sse_stream texts remaining =
    map (\<lambda>(seq, ty, data). \<lparr>pse_id = Some seq, pse_event = Some ty, pse_data = data\<rparr>) evs"
  by (simp add: decode_sse_stream_loop assms(2) push_loop_format_all [OF assms(1)])

theorem sse_roundtrip_witness:
  "decode_sse_stream
     [js ''id: 7'' @ [10] @ js ''eve'', js ''nt: text_delta'' @ [10] @ js ''data: {}'' @ [10], [10]] []
   = [\<lparr>pse_id = Some (js ''7''), pse_event = Some (js ''text_delta''), pse_data = js ''{}''\<rparr>]"
proof -
  have free: "\<forall>(seq, ty, data) \<in> set [(js ''7'', js ''text_delta'', js ''{}'')].
      line_free seq \<and> line_free ty \<and> line_free data"
    by (simp add: line_free_js)
  show ?thesis
    using sse_roundtrip [OF free, of
        "[js ''id: 7'' @ [10] @ js ''eve'', js ''nt: text_delta'' @ [10] @ js ''data: {}'' @ [10], [10]]" "[]"]
    by (simp add: format_sse_event_def js_def)
qed

text \<open>
  The loop of \<open>push\<close> ends (it is a total function) with a buffer that is a suffix of the
  text received and holds no event boundary: every complete event has been taken out of it.
\<close>

theorem push_drains_buffer:
  "find_boundary (snd (push buffer chunk)) = None \<and>
   (\<exists>consumed. buffer @ chunk = consumed @ snd (push buffer chunk))"
  by (simp add: push_def push_loop_no_boundary push_loop_suffix)

end
