(* ===== verification/Run_Stream.thy ===== *)
theory Run_Stream
  imports Store Sse Messages
begin

text \<open>
  The consumer of a run's event stream: \<open>streamEvents\<close> (\<open>frontend/src/api/runs.ts\<close>), the hook
  \<open>useRunStream\<close>, recovery on conversation entry (\<open>useRunRecovery\<close>, \<open>findPendingRunId\<close>).

  The asynchronous functions are cut at their \<open>await\<close>s: each definition is the code between two
  of them, a function of the state \<open>stateRef.current\<close> holds when it resumes. The interleavings
  are a step relation on a world with every stream started so far: a new start aborts the previous
  stream, an aborted stream receives no further chunk but still hands over the events it had
  already read, a refetch goes on after an abort, and any other part of the application may
  dispatch any action in between.

  \<open>JSON.parse\<close> of an event's data is the argument \<open>parse\<close> (\<open>None\<close>: it throws), \<open>Number(x)\<close> on
  a value that is not a number the argument \<open>to_num\<close>.
\<close>

section \<open>Definitions\<close>

subsection \<open>Events\<close>

definition terminal_event :: "run_event_type \<Rightarrow> bool" where
  "terminal_event t \<longleftrightarrow> t \<in> set [RunSucceeded, RunFailed, RunCancelled]"

text \<open>
  \<open>streamEvents\<close> on the events of the decoder: the events it yields, and whether it throws after
  them because an event's data does not parse. It returns after a terminal event.
\<close>

fun stream_events ::
  "(jstr \<Rightarrow> run_event_response option) \<Rightarrow> parsed_sse_event list \<Rightarrow> run_event_response list \<times> bool"
where
  "stream_events parse [] = ([], False)"
| "stream_events parse (e # es) =
     (case parse (pse_data e) of
        None \<Rightarrow> ([], True)
      | Some d \<Rightarrow>
          if terminal_event (ev_type d) then ([d], False)
          else (let (ds, threw) = stream_events parse es in (d # ds, threw)))"

fun json_items :: "json option \<Rightarrow> json list" where
  "json_items (Some (JArr xs)) = xs"
| "json_items _ = []"

definition source_id :: "(json \<Rightarrow> jnum) \<Rightarrow> json option \<Rightarrow> jnum" where
  "source_id to_num x =
     (case x of
        None \<Rightarrow> Num 0
      | Some JNull \<Rightarrow> Num 0
      | Some (JNum n) \<Rightarrow> Num n
      | Some v \<Rightarrow> to_num v)"

definition source_from_item :: "(json \<Rightarrow> jnum) \<Rightarrow> json \<Rightarrow> run_tool_source" where
  "source_from_item to_num item =
     \<lparr>rts_id = source_id to_num (json_get (js ''id'') item),
      rts_title = nullish (json_string (json_get (js ''title'') item)) [],
      rts_url = nullish (json_string (json_get (js ''url'') item)) [],
      rts_snippet = json_string (json_get (js ''snippet'') item),
      rts_published_at = json_string (json_get (js ''published_at'') item)\<rparr>"

definition event_tool_status :: "run_event_type \<Rightarrow> tool_status" where
  "event_tool_status t =
     (if t = ToolCallStarted then ToolRunning
      else if t = ToolCallSucceeded then ToolSucceeded else ToolFailed)"

definition toolStateFromEvent :: "(json \<Rightarrow> jnum) \<Rightarrow> run_event_response \<Rightarrow> run_tool_state" where
  "toolStateFromEvent to_num event =
     (let payload = ev_payload event;
          sources = map (source_from_item to_num)
            (filter json_is_object (json_items (json_get (js ''sources'') payload)));
          status = event_tool_status (ev_type event);
          batch_size = json_number (json_get (js ''batch_size'') payload)
      in \<lparr>ts_status = status,
          ts_tool_name = nullish (json_string (json_get (js ''tool_name'') payload))
            (js ''web_search''),
          ts_query = json_string (json_get (js ''query'') payload),
          ts_message = json_string (json_get (js ''message'') payload),
          ts_result_count = json_number (json_get (js ''result_count'') payload),
          ts_sources = sources,
          ts_running_count =
            (if status = ToolRunning \<and> (\<exists>n \<in> set_option batch_size. n > 1) then batch_size
             else None),
          ts_batch_source_count =
            (if status \<noteq> ToolRunning then json_number (json_get (js ''batch_source_count'') payload)
             else None)\<rparr>)"

subsection \<open>The handlers of one stream\<close>

definition is_active_run :: "app_state \<Rightarrow> jstr \<Rightarrow> bool" where
  "is_active_run s runId =
     (case app_activeRun s of None \<Rightarrow> False | Some r \<Rightarrow> ar_runId r = runId)"

definition dispatch_if :: "date_parse \<Rightarrow> bool \<Rightarrow> app_state \<Rightarrow> app_action \<Rightarrow> app_state" where
  "dispatch_if dp b s a = (if b then rootReducer dp s a else s)"

definition payload_text :: "run_event_response \<Rightarrow> jstr" where
  "payload_text event = nullish (json_string (json_get (js ''text'') (ev_payload event))) []"

definition payload_kind :: "run_event_response \<Rightarrow> reasoning_kind" where
  "payload_kind event =
     (if json_get (js ''kind'') (ev_payload event) = Some (JStr (js ''summary''))
      then SummaryReasoning else RawReasoning)"

text \<open>
  The body of the loop up to the refetch: the new state, and whether the handler goes on to refetch
  the conversation.
\<close>

definition on_event ::
  "date_parse \<Rightarrow> (json \<Rightarrow> jnum) \<Rightarrow> jstr \<Rightarrow> jstr \<Rightarrow> app_state \<Rightarrow> run_event_response \<Rightarrow>
   app_state \<times> bool"
where
  "on_event dp to_num runId conversationId s event =
     (let text = payload_text event; active = is_active_run s runId
      in case ev_type event of
           ReasoningDelta \<Rightarrow>
             (dispatch_if dp active s
                (RunA (Run_reasoningDelta (ev_seq event) text (Some (payload_kind event)))), False)
         | TextDelta \<Rightarrow> (dispatch_if dp active s (RunA (Run_textDelta (ev_seq event) text)), False)
         | ToolCallStarted \<Rightarrow>
             (dispatch_if dp active s
                (RunA (Run_toolState (ev_seq event) (toolStateFromEvent to_num event))), False)
         | ToolCallSucceeded \<Rightarrow>
             (dispatch_if dp active s
                (RunA (Run_toolState (ev_seq event) (toolStateFromEvent to_num event))), False)
         | ToolCallFailed \<Rightarrow>
             (dispatch_if dp active s
                (RunA (Run_toolState (ev_seq event) (toolStateFromEvent to_num event))), False)
         | RunSucceeded \<Rightarrow>
             (rootReducer dp (dispatch_if dp active s (RunA (Run_terminal TSucceeded)))
                (IndexA (ConvRunFinished conversationId)), True)
         | RunFailed \<Rightarrow>
             (rootReducer dp (dispatch_if dp active s (RunA (Run_terminal TFailed)))
                (IndexA (ConvRunFinished conversationId)), False)
         | RunCancelled \<Rightarrow>
             (rootReducer dp (dispatch_if dp active s (RunA (Run_terminal TCancelled)))
                (IndexA (ConvRunFinished conversationId)), False)
         | RunStarted \<Rightarrow> (s, False))"

abbreviation selected :: "app_state \<Rightarrow> jstr option" where
  "selected s \<equiv> ci_selectedId (app_conversationIndex s)"

text \<open>\<open>conversations/detailLoaded\<close> from a fetched conversation, as three callers dispatch it.\<close>

definition detail_loaded :: "conversation_detail_response \<Rightarrow> app_action" where
  "detail_loaded d =
     DetailA (DetailLoaded (det_conversation d) (det_messages d) (det_image_context d))"

text \<open>After a succeeded run, once the conversation and the first page are fetched.\<close>

definition on_refetched ::
  "date_parse \<Rightarrow> jstr \<Rightarrow> jstr \<Rightarrow> app_state \<Rightarrow> conversation_detail_response \<Rightarrow>
   conversation_response list \<Rightarrow> app_state"
where
  "on_refetched dp runId conversationId s detail items =
     (let s1 = rootReducer dp s (IndexA (ListSynced items None));
          s2 = rootReducer dp s1 (IndexA DraftActivated);
          s3 = dispatch_if dp (selected s2 = Some conversationId) s2 (detail_loaded detail);
          s4 = dispatch_if dp (is_active_run s3 runId) s3 (RunA Run_cleared)
      in dispatch_if dp (\<not> truthy_trim (conv_title (det_conversation detail))) s4
           (IndexA (TitlePending conversationId)))"

text \<open>The \<open>catch\<close> for an error that is not an abort.\<close>

definition on_stream_error :: "date_parse \<Rightarrow> jstr \<Rightarrow> app_state \<Rightarrow> app_state" where
  "on_stream_error dp runId s = dispatch_if dp (is_active_run s runId) s (RunA (Run_terminal TFailed))"

text \<open>\<open>cancel\<close>: \<open>None\<close> when the request was already made; then its failure.\<close>

definition cancel_begin :: "date_parse \<Rightarrow> jstr \<Rightarrow> app_state \<Rightarrow> app_state option" where
  "cancel_begin dp runId s =
     (case app_activeRun s of
        Some r \<Rightarrow> if ar_runId r = runId \<and> ar_cancelRequested r then None
                  else Some (rootReducer dp s (RunA Run_cancelRequested))
      | None \<Rightarrow> Some (rootReducer dp s (RunA Run_cancelRequested)))"

definition cancel_failed :: "date_parse \<Rightarrow> app_state \<Rightarrow> app_state" where
  "cancel_failed dp s = rootReducer dp (rootReducer dp s (RunA Run_cancelFailed))
     (UiA (ShowToast stop_failed_text ToneError))"

subsection \<open>Recovery\<close>

definition findPendingRunId :: "message_response list \<Rightarrow> jstr option" where
  "findPendingRunId messages =
     (case List.find (\<lambda>c. \<not> (msg_role c \<noteq> User \<or> msg_run_id c = None)) (rev messages) of
        None \<Rightarrow> None
      | Some candidate \<Rightarrow>
          if \<exists>x \<in> set messages. msg_role x = Assistant \<and> msg_run_id x = msg_run_id candidate
          then None else msg_run_id candidate)"

definition conversation_page_size :: nat where
  "conversation_page_size = 30"

definition hasMoreConversationPages :: "nat \<Rightarrow> bool" where
  "hasMoreConversationPages receivedCount = (receivedCount = conversation_page_size)"

text \<open>Up to the state request: the run to ask about.\<close>

definition recovery_begin :: "jstr \<Rightarrow> app_state \<Rightarrow> jstr option" where
  "recovery_begin conversationId s =
     (if map_option conv_id (cd_conversation (app_conversationDetail s)) \<noteq> Some conversationId
      then None
      else if map_option ar_conversationId (app_activeRun s) = Some conversationId then None
      else findPendingRunId (cd_messages (app_conversationDetail s)))"

text \<open>
  With the run's state: give up, refetch the conversation, show the run as it ended, or show it and
  resume its stream after the given sequence number.
\<close>

datatype recovery =
    RecoveryDone
  | RecoveryRefetch
  | RecoveryShown app_state
  | RecoveryResumed app_state int

definition recovery_restore :: "jstr \<Rightarrow> jstr \<Rightarrow> run_state_response \<Rightarrow> run_restored" where
  "recovery_restore conversationId runId rs =
     \<lparr>rr_runId = runId, rr_conversationId = conversationId,
      rr_providerName = Some (rs_provider_name rs), rr_latestSeq = rs_latest_seq rs,
      rr_draftText = rs_draft_text rs, rr_draftReasoning = rs_draft_reasoning rs,
      rr_draftReasoningSummary = Some (nullish (rs_draft_reasoning_summary rs) []),
      rr_toolState = rs_tool_state rs, rr_sources = rs_sources rs, rr_status = rs_status rs\<rparr>"

definition recovery_with_state ::
  "date_parse \<Rightarrow> jstr \<Rightarrow> jstr \<Rightarrow> app_state \<Rightarrow> run_state_response \<Rightarrow> recovery"
where
  "recovery_with_state dp conversationId runId s rs =
     (if selected s \<noteq> Some conversationId then RecoveryDone
      else if rs_status rs = Succeeded then RecoveryRefetch
      else
        let s' = rootReducer dp s (RunA (Run_restored (recovery_restore conversationId runId rs)))
        in if rs_status rs = Failed \<or> rs_status rs = Cancelled then RecoveryShown s'
           else RecoveryResumed s' (rs_latest_seq rs))"

definition recovery_refetched ::
  "date_parse \<Rightarrow> jstr \<Rightarrow> app_state \<Rightarrow> conversation_detail_response \<Rightarrow>
   conversation_response list \<Rightarrow> app_state"
where
  "recovery_refetched dp conversationId s detail items =
     (let s1 = rootReducer dp s
            (IndexA (ListLoaded items None (Some (hasMoreConversationPages (length items)))));
          s2 = rootReducer dp s1 (IndexA DraftActivated)
      in dispatch_if dp (selected s2 = Some conversationId) s2 (detail_loaded detail))"

subsection \<open>Interleaved streams\<close>

datatype stream_phase = Reading | Refetching | Closed

record run_stream =
  st_runId :: jstr
  st_conversationId :: jstr
  st_pending :: "run_event_response list"
  st_phase :: stream_phase
  st_aborted :: bool

record stream_world =
  sw_app :: app_state
  sw_streams :: "run_stream list"

text \<open>
  \<open>controllerRef.current\<close> is the controller of the last stream started; so is the abort callback
  registered with \<open>streamAbort\<close>.
\<close>

definition abort_stream :: "run_stream \<Rightarrow> run_stream" where
  "abort_stream st = st\<lparr>st_aborted := True\<rparr>"

definition abort_current :: "run_stream list \<Rightarrow> run_stream list" where
  "abort_current sts = (if sts = [] then [] else butlast sts @ [abort_stream (last sts)])"

definition new_stream :: "jstr \<Rightarrow> jstr \<Rightarrow> run_stream" where
  "new_stream runId conversationId = \<lparr>st_runId = runId, st_conversationId = conversationId,
     st_pending = [], st_phase = Reading, st_aborted = False\<rparr>"

definition start_stream :: "jstr \<Rightarrow> jstr \<Rightarrow> stream_world \<Rightarrow> stream_world" where
  "start_stream runId conversationId w =
     w\<lparr>sw_streams := abort_current (sw_streams w) @ [new_stream runId conversationId]\<rparr>"

text \<open>Stream \<open>i\<close> hands its next event to the loop body.\<close>

definition handle_next ::
  "date_parse \<Rightarrow> (json \<Rightarrow> jnum) \<Rightarrow> nat \<Rightarrow> stream_world \<Rightarrow> stream_world"
where
  "handle_next dp to_num i w =
     (let st = sw_streams w ! i;
          event = hd (st_pending st);
          (s', refetch) = on_event dp to_num (st_runId st) (st_conversationId st) (sw_app w) event;
          phase = (if refetch then Refetching
                   else if terminal_event (ev_type event) then Closed else Reading)
      in w\<lparr>sw_app := s',
           sw_streams := (sw_streams w)[i := st\<lparr>st_pending := tl (st_pending st), st_phase := phase\<rparr>]\<rparr>)"

definition close_stream :: "nat \<Rightarrow> app_state \<Rightarrow> stream_world \<Rightarrow> stream_world" where
  "close_stream i s' w =
     w\<lparr>sw_app := s', sw_streams := (sw_streams w)[i := (sw_streams w ! i)\<lparr>st_phase := Closed\<rparr>]\<rparr>"

text \<open>What happened in a step: a stream acted on the state, or something else did.\<close>

datatype stream_label = ByStream nat | ByOther

inductive stream_step ::
  "date_parse \<Rightarrow> (json \<Rightarrow> jnum) \<Rightarrow> stream_world \<Rightarrow> stream_label \<Rightarrow> stream_world \<Rightarrow> bool"
  for dp :: date_parse and to_num :: "json \<Rightarrow> jnum"
where
  start: "stream_step dp to_num w ByOther (start_stream runId conversationId w)"
| abort: "stream_step dp to_num w ByOther (w\<lparr>sw_streams := abort_current (sw_streams w)\<rparr>)"
| other: "stream_step dp to_num w ByOther (w\<lparr>sw_app := rootReducer dp (sw_app w) a\<rparr>)"
| receive: "i < length (sw_streams w) \<Longrightarrow> st = sw_streams w ! i \<Longrightarrow> st_phase st = Reading \<Longrightarrow>
    \<not> st_aborted st \<Longrightarrow>
    stream_step dp to_num w (ByStream i)
      (w\<lparr>sw_streams := (sw_streams w)[i := st\<lparr>st_pending := st_pending st @ es\<rparr>]\<rparr>)"
| handle: "i < length (sw_streams w) \<Longrightarrow> st = sw_streams w ! i \<Longrightarrow> st_phase st = Reading \<Longrightarrow>
    st_pending st \<noteq> [] \<Longrightarrow> stream_step dp to_num w (ByStream i) (handle_next dp to_num i w)"
| refetched: "i < length (sw_streams w) \<Longrightarrow> st = sw_streams w ! i \<Longrightarrow> st_phase st = Refetching \<Longrightarrow>
    stream_step dp to_num w (ByStream i)
      (close_stream i (on_refetched dp (st_runId st) (st_conversationId st) (sw_app w) d items) w)"
| refetch_fails: "i < length (sw_streams w) \<Longrightarrow> st = sw_streams w ! i \<Longrightarrow>
    st_phase st = Refetching \<Longrightarrow>
    stream_step dp to_num w (ByStream i) (close_stream i (on_stream_error dp (st_runId st) (sw_app w)) w)"
| read_fails: "i < length (sw_streams w) \<Longrightarrow> st = sw_streams w ! i \<Longrightarrow> st_phase st = Reading \<Longrightarrow>
    st_pending st = [] \<Longrightarrow>
    stream_step dp to_num w (ByStream i) (close_stream i (on_stream_error dp (st_runId st) (sw_app w)) w)"
| read_ends: "i < length (sw_streams w) \<Longrightarrow> st_phase (sw_streams w ! i) = Reading \<Longrightarrow>
    st_pending (sw_streams w ! i) = [] \<Longrightarrow>
    stream_step dp to_num w (ByStream i) (close_stream i (sw_app w) w)"

inductive stream_reachable ::
  "date_parse \<Rightarrow> (json \<Rightarrow> jnum) \<Rightarrow> stream_world \<Rightarrow> bool"
  for dp :: date_parse and to_num :: "json \<Rightarrow> jnum"
where
  initial: "stream_reachable dp to_num \<lparr>sw_app = initialState, sw_streams = []\<rparr>"
| step: "stream_reachable dp to_num w \<Longrightarrow> stream_step dp to_num w l w' \<Longrightarrow>
    stream_reachable dp to_num w'"

inductive_cases stream_stepE: "stream_step dp to_num w l w'"
inductive_cases stream_by_streamE: "stream_step dp to_num w (ByStream i) w'"

section \<open>What a stream may touch\<close>

lemma dispatch_if_simps [simp]:
  "dispatch_if dp True s a = rootReducer dp s a" "dispatch_if dp False s a = s"
  by (simp_all add: dispatch_if_def)

text \<open>The slices and fields that no stream ever writes.\<close>

definition outside_streams ::
  "app_state \<Rightarrow> auth_state \<times> pending_submission_state \<times> composer_state \<times> ui_state \<times> jstr option"
where
  "outside_streams s =
     (app_auth s, app_pendingSubmission s, app_composer s, app_ui s, selected s)"

lemma is_active_run_cong: "app_activeRun s = app_activeRun t \<Longrightarrow> is_active_run s = is_active_run t"
  by (auto simp: is_active_run_def fun_eq_iff)

lemma on_event_frame:
  assumes "on_event dp to_num runId conv s e = (s', refetch)"
  shows "outside_streams s' = outside_streams s"
    and "app_conversationDetail s' = app_conversationDetail s"
    and "\<not> is_active_run s runId \<Longrightarrow> app_activeRun s' = app_activeRun s"
  using assms
  by (cases "ev_type e"; cases "is_active_run s runId";
      auto simp: on_event_def Let_def outside_streams_def)+

lemma on_refetched_frame:
  shows "outside_streams (on_refetched dp runId conv s d items) = outside_streams s"
    and "selected s \<noteq> Some conv \<Longrightarrow>
      cd_messages (app_conversationDetail (on_refetched dp runId conv s d items)) =
        cd_messages (app_conversationDetail s) \<and>
      cd_status (app_conversationDetail (on_refetched dp runId conv s d items)) =
        cd_status (app_conversationDetail s)"
    and "app_activeRun (on_refetched dp runId conv s d items) =
      (if is_active_run s runId then None else app_activeRun s)"
proof -
  note frame = dispatch_if_def outside_streams_def detail_loaded_def is_active_run_def
  show "outside_streams (on_refetched dp runId conv s d items) = outside_streams s"
    by (simp add: on_refetched_def Let_def frame)
  show "selected s \<noteq> Some conv \<Longrightarrow>
      cd_messages (app_conversationDetail (on_refetched dp runId conv s d items)) =
        cd_messages (app_conversationDetail s) \<and>
      cd_status (app_conversationDetail (on_refetched dp runId conv s d items)) =
        cd_status (app_conversationDetail s)"
    by (simp add: on_refetched_def Let_def frame)
  show "app_activeRun (on_refetched dp runId conv s d items) =
      (if is_active_run s runId then None else app_activeRun s)"
    by (simp add: on_refetched_def Let_def frame)
qed

lemma on_stream_error_frame:
  shows "outside_streams (on_stream_error dp runId s) = outside_streams s"
    and "app_conversationDetail (on_stream_error dp runId s) = app_conversationDetail s"
    and "\<not> is_active_run s runId \<Longrightarrow> app_activeRun (on_stream_error dp runId s) = app_activeRun s"
  by (simp_all add: on_stream_error_def dispatch_if_def outside_streams_def)

text \<open>Every stream but the newest is aborted.\<close>

definition one_reader :: "run_stream list \<Rightarrow> bool" where
  "one_reader sts \<longleftrightarrow> (\<forall>st \<in> set (butlast sts). st_aborted st)"

lemma one_reader_start: "one_reader sts \<Longrightarrow> one_reader (abort_current sts @ [st])"
  by (auto simp: one_reader_def abort_current_def abort_stream_def)

lemma one_reader_abort: "one_reader sts \<Longrightarrow> one_reader (abort_current sts)"
  by (auto simp: one_reader_def abort_current_def)

lemma one_reader_update:
  assumes "one_reader sts" and "st_aborted st = st_aborted (sts ! i)" and "i < length sts"
  shows "one_reader (sts[i := st])"
proof (cases "i = length sts - 1")
  case True
  with assms show ?thesis
    by (simp add: one_reader_def butlast_list_update)
next
  case False
  with assms(3) have "i < length (butlast sts)" by simp
  moreover from this have "sts ! i = butlast sts ! i" by (simp add: nth_butlast)
  moreover have "butlast sts ! i \<in> set (butlast sts)" using calculation(1) by (rule nth_mem)
  ultimately show ?thesis
    using assms set_update_subset_insert [of "butlast sts" i st] False
    by (auto simp: one_reader_def butlast_list_update)
qed

lemma handle_next_streams:
  "\<exists>st. sw_streams (handle_next dp to_num i w) = (sw_streams w)[i := st] \<and>
     st_aborted st = st_aborted (sw_streams w ! i)"
proof -
  let ?st = "sw_streams w ! i"
  let ?r = "on_event dp to_num (st_runId ?st) (st_conversationId ?st) (sw_app w) (hd (st_pending ?st))"
  let ?phase = "if snd ?r then Refetching
    else if terminal_event (ev_type (hd (st_pending ?st))) then Closed else Reading"
  let ?new = "?st\<lparr>st_pending := tl (st_pending ?st), st_phase := ?phase\<rparr>"
  have "sw_streams (handle_next dp to_num i w) = (sw_streams w)[i := ?new]"
    by (simp add: handle_next_def Let_def split: prod.splits)
  moreover have "st_aborted ?new = st_aborted ?st" by simp
  ultimately show ?thesis by blast
qed

lemma handle_next_app:
  "sw_app (handle_next dp to_num i w) =
     fst (on_event dp to_num (st_runId (sw_streams w ! i)) (st_conversationId (sw_streams w ! i))
       (sw_app w) (hd (st_pending (sw_streams w ! i))))"
  by (simp add: handle_next_def Let_def split: prod.splits)

lemma stream_step_one_reader:
  assumes "stream_step dp to_num w l w'" and one: "one_reader (sw_streams w)"
  shows "one_reader (sw_streams w')"
  using assms(1)
proof cases
  case (handle i st)
  then show ?thesis
    using handle_next_streams [of dp to_num i w] one_reader_update [OF one] by auto
qed (use one in \<open>simp_all add: start_stream_def close_stream_def one_reader_start one_reader_abort
    one_reader_update\<close>)

lemma stream_reachable_one_reader: "stream_reachable dp to_num w \<Longrightarrow> one_reader (sw_streams w)"
proof (induction rule: stream_reachable.induct)
  case initial
  then show ?case by (simp add: one_reader_def)
next
  case (step w l w')
  then show ?case by (blast intro: stream_step_one_reader)
qed

section \<open>Consuming a stream\<close>

text \<open>The loop of the hook over a list of events, as long as it does not refetch.\<close>

definition consume ::
  "date_parse \<Rightarrow> (json \<Rightarrow> jnum) \<Rightarrow> jstr \<Rightarrow> jstr \<Rightarrow> app_state \<Rightarrow> run_event_response list \<Rightarrow> app_state"
where
  "consume dp to_num runId conv = foldl (\<lambda>s e. fst (on_event dp to_num runId conv s e))"

definition delta_event :: "run_event_response \<Rightarrow> bool" where
  "delta_event e \<longleftrightarrow> ev_type e \<in> set [ReasoningDelta, TextDelta, ToolCallStarted, ToolCallSucceeded,
     ToolCallFailed]"

text \<open>The action a delta event is dispatched as.\<close>

definition event_action :: "(json \<Rightarrow> jnum) \<Rightarrow> run_event_response \<Rightarrow> active_run_action" where
  "event_action to_num e =
     (if ev_type e = ReasoningDelta
      then Run_reasoningDelta (ev_seq e) (payload_text e) (Some (payload_kind e))
      else if ev_type e = TextDelta then Run_textDelta (ev_seq e) (payload_text e)
      else Run_toolState (ev_seq e) (toolStateFromEvent to_num e))"

lemma event_action_delta [simp]: "is_delta (event_action to_num e)"
  by (simp add: event_action_def)

lemma on_event_delta:
  assumes "delta_event e" and "app_activeRun s = Some r" and "ar_runId r = runId"
  shows "fst (on_event dp to_num runId conv s e) = rootReducer dp s (RunA (event_action to_num e))"
  using assms by (auto simp: delta_event_def on_event_def event_action_def is_active_run_def Let_def)

lemma consume_deltas:
  assumes "app_activeRun s = Some r" and "ar_runId r = runId" and "list_all delta_event es"
  shows "app_activeRun (consume dp to_num runId conv s es) =
    Some (run_deltas r (map (event_action to_num) es))"
  using assms
proof (induction es arbitrary: s r)
  case Nil
  then show ?case by (simp add: consume_def)
next
  case (Cons e es)
  let ?a = "event_action to_num e"
  obtain r' where r': "active_run_step (Some r) ?a = Some r'" "ar_runId r' = ar_runId r"
    using delta_step [of ?a r] by auto
  with Cons.prems have "consume dp to_num runId conv s (e # es) =
      consume dp to_num runId conv (rootReducer dp s (RunA ?a)) es"
    by (simp add: consume_def on_event_delta)
  moreover have "run_deltas r [?a] = r'" using r' by (simp add: run_deltas_def)
  ultimately show ?case
    using Cons.IH [of "rootReducer dp s (RunA ?a)" r'] Cons.prems r'
      run_deltas_Cons [of ?a r "map (event_action to_num) es"]
    by simp
qed

lemma stream_events_deltas:
  assumes "\<forall>e \<in> set es. parse (pse_data (f e)) = Some (g e) \<and> delta_event (g e)"
  shows "stream_events parse (map f es) = (map g es, False)"
  using assms by (induction es) (auto simp: terminal_event_def delta_event_def)

lemma stream_events_prefix:
  "stream_events parse es = (ds, threw) \<Longrightarrow>
     (\<forall>d \<in> set (butlast ds). \<not> terminal_event (ev_type d)) \<and> length ds \<le> length es"
  by (induction es arbitrary: ds threw) (auto split: option.splits if_splits prod.splits)

text \<open>Text of the text deltas, in order.\<close>

lemma deltas_text:
  "list_all delta_event es \<Longrightarrow> concat (map delta_text (map (event_action to_num) es)) =
     concat (map payload_text (filter (\<lambda>e. ev_type e = TextDelta) es))"
  by (induction es) (auto simp: event_action_def)

lemma deltas_seq: "map delta_seq (map (event_action to_num) es) = map ev_seq es"
  by (simp add: event_action_def)

lemma consume_transcript:
  assumes "app_activeRun s = Some r" and "ar_runId r = runId" and "list_all delta_event es"
  shows "\<exists>r'. app_activeRun (consume dp to_num runId conv s es) = Some r' \<and>
    ar_draftText r' = ar_draftText r @ concat (map payload_text (filter (\<lambda>e. ev_type e = TextDelta) es)) \<and>
    ar_latestSeq r' = last (ar_latestSeq r # map ev_seq es) \<and> ar_runId r' = runId"
proof -
  let ?as = "map (event_action to_num) es"
  have "list_all is_delta ?as" by (simp add: list_all_iff)
  note run_deltas_transcript [OF this, of r]
  with consume_deltas [OF assms, of dp to_num conv] assms(2) show ?thesis
    by (simp only: deltas_seq deltas_text [OF assms(3)]) simp
qed

text \<open>The state endpoint reports the run as \<open>r\<close> has accumulated it, still in flight.\<close>

definition reports :: "run_state_response \<Rightarrow> active_run \<Rightarrow> bool" where
  "reports rs r \<longleftrightarrow> rs_latest_seq rs = ar_latestSeq r \<and> rs_draft_text rs = ar_draftText r \<and>
     rs_draft_reasoning rs = ar_draftReasoning r \<and>
     nullish (rs_draft_reasoning_summary rs) [] = ar_draftReasoningSummary r \<and>
     nullish (rs_sources rs) [] = ar_draftSources r \<and>
     rs_status rs \<in> set [Queued, Started, Streaming, Cancelling]"

lemma recovery_resumes:
  assumes "selected s = Some conv" and "reports rs r" and "run_inv (Some r)"
    and "ar_runId r = runId" and "ar_conversationId r = conv"
  shows "\<exists>s' q. recovery_with_state dp conv runId s rs = RecoveryResumed s' (ar_latestSeq r) \<and>
    app_activeRun s' = Some q \<and> run_content q = run_content r"
proof -
  let ?a = "recovery_restore conv runId rs"
  have "mergeSources [] (ar_draftSources r) = ar_draftSources r"
    using assms(3) by (simp add: run_inv_def mergeSources_Nil_distinct)
  then have "run_content (restore_run ?a) = run_content r"
    using assms(2,4,5)
    by (simp add: run_content_restore recovery_restore_def reports_def run_content_def [of r])
  then show ?thesis
    using assms(1,2) by (auto simp: recovery_with_state_def reports_def Let_def)
qed

lemma list_all_event_actions: "list_all is_delta (map (event_action to_num) es)"
  by (simp add: list_all_iff)

lemma finish_row_run:
  assumes "c \<in> set (map (finish_row i) cs)" and "conv_id c = i"
  shows "conv_active_run c = None"
proof -
  from assms(1) obtain x where "c = finish_row i x" unfolding set_map by blast
  moreover from this have "conv_id x = i" using assms(2) by (simp only: conv_id_finish_row)
  ultimately show ?thesis by (simp add: finish_row_def)
qed

text \<open>Values for the concrete instances below.\<close>

definition demo_event :: "int \<Rightarrow> string \<Rightarrow> run_event_response" where
  "demo_event seq t = \<lparr>ev_seq = seq, ev_type = TextDelta,
     ev_payload = JObj [(js ''text'', JStr (js t))], ev_created_at = []\<rparr>"

definition demo_run_state :: run_state_response where
  "demo_run_state = \<lparr>rs_run_id = js ''r1'', rs_provider_name = [], rs_status = Streaming,
     rs_latest_seq = 1, rs_draft_text = js ''a'', rs_draft_reasoning = [],
     rs_draft_reasoning_summary = None, rs_tool_state = None, rs_sources = None,
     rs_terminal_event = None\<rparr>"

section \<open>Properties\<close>

text \<open>
  (C2) No stream ever touches what is not its own, under every interleaving: when a stream acts
  while another run (or none) is active, the active run is left exactly as it is; when its
  conversation is not the open one, the open thread's messages and status are left as they are; and
  it never changes the session, the pending submission, the composer, the interface or the
  selection.
\<close>

theorem stream_isolation:
  assumes "stream_step dp to_num w (ByStream i) w'" and "st = sw_streams w ! i"
  shows "(\<not> is_active_run (sw_app w) (st_runId st) \<longrightarrow>
      app_activeRun (sw_app w') = app_activeRun (sw_app w)) \<and>
    (selected (sw_app w) \<noteq> Some (st_conversationId st) \<longrightarrow>
      cd_messages (app_conversationDetail (sw_app w')) = cd_messages (app_conversationDetail (sw_app w)) \<and>
      cd_status (app_conversationDetail (sw_app w')) = cd_status (app_conversationDetail (sw_app w))) \<and>
    outside_streams (sw_app w') = outside_streams (sw_app w)"
  using assms(1)
proof cases
  case (handle st')
  then show ?thesis
    using assms(2) on_event_frame [OF prod.collapse [symmetric]]
    by (simp add: handle_next_app)
qed (use assms(2) in \<open>auto simp: close_stream_def on_refetched_frame on_stream_error_frame\<close>)

theorem stream_isolation_witness:
  "app_activeRun (sw_app (handle_next demo_dp (\<lambda>_. NaN) 0
     \<lparr>sw_app = rootReducer demo_dp initialState (RunA (Run_started (js ''r2'') (js ''c2'') None)),
      sw_streams = [(new_stream (js ''r1'') (js ''c1''))\<lparr>st_pending := [\<lparr>ev_seq = 1,
        ev_type = TextDelta, ev_payload = JObj [(js ''text'', JStr (js ''late''))],
        ev_created_at = []\<rparr>]\<rparr>]\<rparr>)) =
   active_run_step None (Run_started (js ''r2'') (js ''c2'') None)"
proof -
  let ?w = "\<lparr>sw_app = rootReducer demo_dp initialState (RunA (Run_started (js ''r2'') (js ''c2'') None)),
      sw_streams = [(new_stream (js ''r1'') (js ''c1''))\<lparr>st_pending := [\<lparr>ev_seq = 1,
        ev_type = TextDelta, ev_payload = JObj [(js ''text'', JStr (js ''late''))],
        ev_created_at = []\<rparr>]\<rparr>]\<rparr>"
  have "stream_step demo_dp (\<lambda>_. NaN) ?w (ByStream 0) (handle_next demo_dp (\<lambda>_. NaN) 0 ?w)"
    by (rule stream_step.handle [OF _ refl]) (simp_all add: new_stream_def)
  from stream_isolation [OF this refl] show ?thesis
    by (simp add: is_active_run_def new_stream_def initialState_def initialActiveRunState_def)
qed

text \<open>
  (C4) At most one stream is read: in every reachable state of the streams, under every
  interleaving of starts, aborts, deliveries and dispatches, only the stream started last can
  receive further events; every earlier one has been aborted.
\<close>

theorem only_newest_stream_reads:
  assumes "stream_reachable dp to_num w" and "i < length (sw_streams w)"
    and "\<not> st_aborted (sw_streams w ! i)"
  shows "i = length (sw_streams w) - 1"
proof (rule ccontr)
  assume "i \<noteq> length (sw_streams w) - 1"
  with assms(2) have "i < length (butlast (sw_streams w))" by simp
  then have "sw_streams w ! i \<in> set (butlast (sw_streams w))"
    by (metis nth_butlast nth_mem)
  with stream_reachable_one_reader [OF assms(1)] assms(3) show False
    by (simp add: one_reader_def)
qed

theorem only_newest_stream_reads_witness:
  "st_aborted (sw_streams (start_stream (js ''r2'') (js ''c2'')
     (start_stream (js ''r1'') (js ''c1'') \<lparr>sw_app = initialState, sw_streams = []\<rparr>)) ! 0)"
proof -
  let ?w = "start_stream (js ''r2'') (js ''c2'')
     (start_stream (js ''r1'') (js ''c1'') \<lparr>sw_app = initialState, sw_streams = []\<rparr>)"
  have "stream_reachable demo_dp (\<lambda>_. NaN) ?w"
    by (intro stream_reachable.step [OF _ stream_step.start] stream_reachable.initial)
  from only_newest_stream_reads [OF this, of 0] show ?thesis
    by (auto simp: start_stream_def abort_current_def)
qed

text \<open>
  (C1) End to end: when the backend formats delta events as server-sent events and the network
  delivers the text in any pieces, decoding, parsing and dispatching them leaves in the active run
  the text of exactly those events, in order, after what it held, and the last sequence number.
  (\<open>JSON.parse\<close> gives back the event the backend wrote, on one line.)
\<close>

theorem streamed_text_end_to_end:
  assumes "app_activeRun s = Some r" and "ar_runId r = runId"
    and "\<forall>(seq, ty, data, e) \<in> set sent. line_free seq \<and> line_free ty \<and> line_free data \<and>
      parse data = Some e \<and> delta_event e"
    and "concat texts @ remaining =
      concat (map (\<lambda>(seq, ty, data, e). format_sse_event seq ty data) sent)"
    and "stream_events parse (decode_sse_stream texts remaining) = (events, threw)"
  shows "\<not> threw \<and> events = map (\<lambda>(seq, ty, data, e). e) sent \<and>
    (\<exists>r'. app_activeRun (consume dp to_num runId conv s events) = Some r' \<and>
      ar_draftText r' = ar_draftText r @
        concat (map payload_text (filter (\<lambda>e. ev_type e = TextDelta) events)) \<and>
      ar_latestSeq r' = last (ar_latestSeq r # map ev_seq events) \<and>
      ar_runId r' = runId)"
proof -
  let ?f = "\<lambda>(seq, ty, data, e). \<lparr>pse_id = Some seq, pse_event = Some ty, pse_data = data\<rparr>"
  let ?g = "\<lambda>(seq, ty, data, e). e" and ?p = "\<lambda>(seq, ty, data, e). (seq, ty, data)"
  have "concat texts @ remaining =
      concat (map (\<lambda>(seq, ty, data). format_sse_event seq ty data) (map ?p sent))"
    by (simp add: assms(4) comp_def split_def)
  moreover have "\<forall>(seq, ty, data) \<in> set (map ?p sent). line_free seq \<and> line_free ty \<and> line_free data"
    using assms(3) by fastforce
  note push_loop_format_all [OF this]
  ultimately have "decode_sse_stream texts remaining =
      map (\<lambda>(seq, ty, data). \<lparr>pse_id = Some seq, pse_event = Some ty, pse_data = data\<rparr>) (map ?p sent)"
    by (simp only: decode_sse_stream_loop) simp
  then have "decode_sse_stream texts remaining = map ?f sent"
    by (simp add: comp_def split_def)
  moreover have "stream_events parse (map ?f sent) = (map ?g sent, False)"
    using assms(3) by (intro stream_events_deltas) fastforce
  ultimately have ev: "events = map ?g sent" "\<not> threw" using assms(5) by simp_all
  have all: "list_all delta_event events"
    using assms(3) by (fastforce simp: ev list_all_iff)
  from consume_transcript [OF assms(1,2) all, of dp to_num conv] ev show ?thesis by blast
qed

theorem streamed_text_end_to_end_witness:
  "\<exists>r'. app_activeRun (consume demo_dp (\<lambda>_. NaN) (js ''r1'') (js ''c1'')
      (rootReducer demo_dp initialState (RunA (Run_started (js ''r1'') (js ''c1'') None)))
      (fst (stream_events (\<lambda>_. Some \<lparr>ev_seq = 5, ev_type = TextDelta,
          ev_payload = JObj [(js ''text'', JStr (js ''hi''))], ev_created_at = []\<rparr>)
        (decode_sse_stream [format_sse_event (js ''5'') (js ''text_delta'') (js ''{}'')] [])))) = Some r' \<and>
     ar_draftText r' = js ''hi'' \<and> ar_latestSeq r' = 5"
proof -
  let ?e = "\<lparr>ev_seq = 5, ev_type = TextDelta, ev_payload = JObj [(js ''text'', JStr (js ''hi''))],
      ev_created_at = []\<rparr>"
  let ?s = "rootReducer demo_dp initialState (RunA (Run_started (js ''r1'') (js ''c1'') None))"
  obtain r where r: "app_activeRun ?s = Some r" "ar_runId r = js ''r1''" "ar_draftText r = []"
    by (simp add: initialState_def)
  have free: "\<forall>(seq, ty, data, e) \<in> set [(js ''5'', js ''text_delta'', js ''{}'', ?e)].
      line_free seq \<and> line_free ty \<and> line_free data \<and> (\<lambda>_. Some ?e) data = Some e \<and> delta_event e"
    by (simp add: line_free_js delta_event_def)
  from streamed_text_end_to_end [OF r(1,2) free, of
      "[format_sse_event (js ''5'') (js ''text_delta'') (js ''{}'')]" "[]", OF _ prod.collapse [symmetric],
      of demo_dp "\<lambda>_. NaN" "js ''c1''"] r(3)
  show ?thesis by (auto simp: payload_text_def js_map_of_def nullish_def)
qed



text \<open>
  (C19) A succeeded run is brought to its end: its conversation's row stops spinning at once and
  the handler refetches; whenever the answer arrives, in whatever state the application is by
  then, the run is no longer the active one, no draft conversation is left, the fetched thread is
  shown when its conversation is the open one, and a missing title is awaited.
\<close>

theorem succeeded_run_completes:
  assumes "on_event dp to_num runId conv s e = (s1, refetch)" and "ev_type e = RunSucceeded"
    and "s3 = on_refetched dp runId conv s2 d items"
  shows "refetch \<and>
    (\<forall>c \<in> set (ci_items (app_conversationIndex s1) @ ci_pinnedItems (app_conversationIndex s1)).
       conv_id c = conv \<longrightarrow> conv_active_run c = None) \<and>
    \<not> is_active_run s3 runId \<and> ci_draftId (app_conversationIndex s3) = None \<and>
    (selected s2 = Some conv \<longrightarrow> app_conversationDetail s3 =
       \<lparr>cd_conversation = Some (det_conversation d), cd_messages = det_messages d,
        cd_imageContext = nullish (det_image_context d) no_images, cd_status = DetailReady\<rparr>) \<and>
    (truthy_trim (conv_title (det_conversation d)) \<or>
       conv \<in> set (ci_pendingTitleIds (app_conversationIndex s3)))"
proof -
  have s1: "refetch" "app_conversationIndex s1 = index_step dp (app_conversationIndex s) (ConvRunFinished conv)"
    using assms(1,2) by (auto simp: on_event_def Let_def dispatch_if_def)
  have "\<not> is_active_run s3 runId"
    using on_refetched_frame(3) [of dp runId conv s2 d items] assms(3) by (simp add: is_active_run_def)
  moreover have "ci_draftId (app_conversationIndex s3) = None"
    using assms(3) by (simp add: on_refetched_def Let_def dispatch_if_def detail_loaded_def)
  moreover have "truthy_trim (conv_title (det_conversation d)) \<or>
      conv \<in> set (ci_pendingTitleIds (app_conversationIndex s3))"
    using assms(3) by (simp add: on_refetched_def Let_def dispatch_if_def detail_loaded_def)
  moreover have "selected s2 = Some conv \<longrightarrow> app_conversationDetail s3 =
       \<lparr>cd_conversation = Some (det_conversation d), cd_messages = det_messages d,
        cd_imageContext = nullish (det_image_context d) no_images, cd_status = DetailReady\<rparr>"
    using assms(3) by (simp add: on_refetched_def Let_def dispatch_if_def detail_loaded_def)
  moreover have "conv_active_run c = None" if "conv_id c = conv" "c \<in>
      set (ci_items (app_conversationIndex s1) @ ci_pinnedItems (app_conversationIndex s1))" for c
    using that(2) finish_row_run [OF _ that(1), of "ci_items (app_conversationIndex s) @
        ci_pinnedItems (app_conversationIndex s)"]
    by (simp only: s1(2) map_append index_step.simps) simp
  ultimately show ?thesis using s1(1) by blast
qed

theorem succeeded_run_completes_witness:
  "\<not> is_active_run (on_refetched demo_dp (js ''r1'') (js ''c1'')
     (fst (on_event demo_dp (\<lambda>_. NaN) (js ''r1'') (js ''c1'')
        (initialState\<lparr>app_activeRun := Some demo_run\<rparr>) ((demo_event 3 ''x'')\<lparr>ev_type := RunSucceeded\<rparr>)))
     \<lparr>det_conversation = demo_conv ''c1'' None ''1'', det_messages = [], det_image_context = None\<rparr>
     [demo_conv ''c1'' None ''1'']) (js ''r1'')"
  using succeeded_run_completes [OF prod.collapse [symmetric] _ refl, of
      "(demo_event 3 ''x'')\<lparr>ev_type := RunSucceeded\<rparr>" demo_dp "\<lambda>_. NaN" "js ''r1''" "js ''c1''"]
  by simp

text \<open>
  Cancelling asks the server once: after the first request for the active run, any further
  one, after any deltas that arrive meanwhile, is dropped; a request that failed can be repeated.
\<close>

theorem cancel_requested_once:
  assumes "is_active_run s runId" and "cancel_begin dp runId s = Some s'" and "list_all delta_event es"
    and "s'' = consume dp to_num runId conv s' es"
  shows "cancel_begin dp runId s'' = None \<and>
    map_option ar_status (app_activeRun s'') = Some Cancelling \<and>
    (\<exists>t. cancel_begin dp runId (cancel_failed dp s'') = Some t)"
proof -
  from assms(1) obtain r where r: "app_activeRun s = Some r" "ar_runId r = runId"
    by (auto simp: is_active_run_def split: option.splits)
  let ?c = "r\<lparr>ar_cancelRequested := True, ar_status := Cancelling\<rparr>"
  let ?as = "map (event_action to_num) es"
  have c: "app_activeRun s' = Some ?c"
    using assms(2) r by (auto simp: cancel_begin_def split: if_splits)
  have s'': "app_activeRun s'' = Some (run_deltas ?c ?as)"
    using consume_deltas [OF c _ assms(3), of runId dp to_num conv] r(2) assms(4) by simp
  moreover have "ar_cancelRequested (run_deltas ?c ?as)" "ar_runId (run_deltas ?c ?as) = runId"
    using run_deltas_transcript [OF list_all_event_actions, of ?c to_num es] r(2) by simp_all
  moreover have "ar_status (run_deltas ?c ?as) = Cancelling"
    using run_deltas_status [OF list_all_event_actions, of to_num es ?c]
    by (cases "es = []") (simp_all add: delta_status_def)
  ultimately show ?thesis by (simp add: cancel_begin_def cancel_failed_def)
qed

theorem cancel_requested_once_witness:
  "cancel_begin demo_dp (js ''r1'') (consume demo_dp (\<lambda>_. NaN) (js ''r1'') (js ''c1'')
     (rootReducer demo_dp (initialState\<lparr>app_activeRun := Some demo_run\<rparr>) (RunA Run_cancelRequested))
     [demo_event 2 ''x'']) = None"
proof -
  let ?s = "initialState\<lparr>app_activeRun := Some demo_run\<rparr>"
  have "is_active_run ?s (js ''r1'')"
    "cancel_begin demo_dp (js ''r1'') ?s = Some (rootReducer demo_dp ?s (RunA Run_cancelRequested))"
    by (simp_all add: is_active_run_def cancel_begin_def demo_run_def)
  from cancel_requested_once [OF this _ refl, of "[demo_event 2 ''x'']" "\<lambda>_. NaN" "js ''c1''"]
  show ?thesis by (simp add: delta_event_def demo_event_def)
qed

lemma find_from_end:
  "P x \<Longrightarrow> list_all (\<lambda>y. \<not> P y) bs \<Longrightarrow> List.find P (rev bs @ x # as) = Some x"
  by (induction bs rule: rev_induct) (auto simp: list_all_iff)

lemma find_from_endD:
  assumes "List.find P (rev xs) = Some x"
  shows "\<exists>as bs. xs = as @ x # bs \<and> P x \<and> list_all (\<lambda>y. \<not> P y) bs"
  using assms
proof (induction xs rule: rev_induct)
  case Nil
  then show ?case by simp
next
  case (snoc y ys)
  show ?case
  proof (cases "P y")
    case True
    with snoc.prems show ?thesis by (intro exI [of _ ys] exI [of _ "[]"]) auto
  next
    case False
    with snoc obtain as bs where "ys = as @ x # bs" "P x" "list_all (\<lambda>y. \<not> P y) bs" by auto
    with False show ?thesis by (intro exI [of _ as] exI [of _ "bs @ [y]"]) auto
  qed
qed

text \<open>
  \<open>findPendingRunId\<close> finds the run of the last user message that has one, provided no
  assistant message of the thread belongs to that run.
\<close>

theorem findPendingRunId_correct:
  "findPendingRunId messages = Some i \<longleftrightarrow>
     (\<exists>as m bs. messages = as @ m # bs \<and> msg_role m = User \<and> msg_run_id m = Some i \<and>
        list_all (\<lambda>x. msg_role x \<noteq> User \<or> msg_run_id x = None) bs \<and>
        \<not> list_ex (\<lambda>x. msg_role x = Assistant \<and> msg_run_id x = Some i) messages)"
  (is "_ \<longleftrightarrow> ?R")
proof
  assume "findPendingRunId messages = Some i"
  then obtain m where m: "List.find (\<lambda>c. \<not> (msg_role c \<noteq> User \<or> msg_run_id c = None)) (rev messages) = Some m"
    "msg_run_id m = Some i" "\<not> list_ex (\<lambda>x. msg_role x = Assistant \<and> msg_run_id x = Some i) messages"
    by (auto simp: findPendingRunId_def list_ex_iff split: option.splits if_splits)
  from find_from_endD [OF m(1)] m(2,3) show ?R by auto
next
  assume ?R
  then obtain as m bs where m: "messages = as @ m # bs" "msg_role m = User" "msg_run_id m = Some i"
    "list_all (\<lambda>x. msg_role x \<noteq> User \<or> msg_run_id x = None) bs"
    "\<not> list_ex (\<lambda>x. msg_role x = Assistant \<and> msg_run_id x = Some i) messages" by blast
  have "List.find (\<lambda>c. \<not> (msg_role c \<noteq> User \<or> msg_run_id c = None)) (rev messages) = Some m"
    using m find_from_end [of "\<lambda>c. \<not> (msg_role c \<noteq> User \<or> msg_run_id c = None)" m bs "rev as"]
    by simp
  with m(3,5) show "findPendingRunId messages = Some i"
    by (simp add: findPendingRunId_def list_ex_iff)
qed

end
