(* ===== verification/Auth_Session.thy ===== *)
theory Auth_Session
  imports Run_Stream Api_Endpoints File_Rules "HOL-Library.Countable"
begin

text \<open>
  The life of a session in one tab: \<open>useAuthSession\<close> (\<open>frontend/src/auth/useAuthSession.ts\<close>),
  \<open>createAuthExpiryHandler\<close> (\<open>frontend/src/app/authExpiry.ts\<close>), the start-up effect of
  \<open>AppProvider\<close>, the gate of \<open>App\<close> and \<open>mapAuthError\<close>
  (\<open>frontend/src/auth/authErrorMessages.ts\<close>).

  A tab is the HTTP client with the browser storage, and the application state with the run streams
  that were started. Every call goes through \<open>ApiClient.request\<close>; when it reports the session as
  expired, the handler that \<open>AppProvider\<close> gave the client runs. The reading of the body of
  \<open>/auth/me\<close> is the argument \<open>user_of\<close>.
\<close>

section \<open>Definitions\<close>

record tab =
  tab_client :: client_state
  tab_world :: stream_world

abbreviation tab_app :: "tab \<Rightarrow> app_state" where
  "tab_app t \<equiv> sw_app (tab_world t)"

abbreviation tab_storage :: "tab \<Rightarrow> storage" where
  "tab_storage t \<equiv> cs_storage (tab_client t)"

definition dispatch_tab :: "date_parse \<Rightarrow> app_action \<Rightarrow> tab \<Rightarrow> tab" where
  "dispatch_tab dp a t =
     t\<lparr>tab_world := (tab_world t)\<lparr>sw_app := rootReducer dp (tab_app t) a\<rparr>\<rparr>"

definition on_storage :: "(storage \<Rightarrow> storage) \<Rightarrow> tab \<Rightarrow> tab" where
  "on_storage f t = t\<lparr>tab_client := (tab_client t)\<lparr>cs_storage := f (tab_storage t)\<rparr>\<rparr>"

text \<open>\<open>streamAbort.abort()\<close>: the callback that the newest stream registered.\<close>

definition streamAbort_abort :: "tab \<Rightarrow> tab" where
  "streamAbort_abort t =
     t\<lparr>tab_world := (tab_world t)\<lparr>sw_streams := abort_current (sw_streams (tab_world t))\<rparr>\<rparr>"

definition clear_all_drafts :: "tab \<Rightarrow> tab" where
  "clear_all_drafts t = on_storage clear_all_reply_quotes (on_storage clear_all_file_drafts t)"

definition auth_expiry_handler :: "date_parse \<Rightarrow> tab \<Rightarrow> tab" where
  "auth_expiry_handler dp t =
     dispatch_tab dp App_reset (clear_all_drafts (streamAbort_abort t))"

subsection \<open>Calls\<close>

definition call_request ::
  "date_parse \<Rightarrow> client_env \<Rightarrow> jstr \<times> api_request_options \<Rightarrow> tab \<Rightarrow> (api_error + json) \<times> tab"
where
  "call_request dp env req t =
     (let (result, c) = request env (fst req) (snd req) (tab_client t);
          t' = t\<lparr>tab_client := c\<rparr>
      in (result, if cs_expired c = cs_expired (tab_client t) then t' else auth_expiry_handler dp t'))"

definition call_auth ::
  "date_parse \<Rightarrow> client_env \<Rightarrow> auth_endpoint \<Rightarrow> tab \<Rightarrow> (api_error + json) \<times> tab"
where
  "call_auth dp env e = call_request dp env (auth_request e)"

subsection \<open>Signing in\<close>

text \<open>\<open>login\<close> and \<open>register\<close> differ in the request only.\<close>

definition sign_in_begin :: "date_parse \<Rightarrow> tab \<Rightarrow> tab" where
  "sign_in_begin dp = dispatch_tab dp (AuthA Auth_submitStarted)"

definition sign_in_done :: "date_parse \<Rightarrow> client_env \<Rightarrow> auth_token_response \<Rightarrow> tab \<Rightarrow> tab" where
  "sign_in_done dp env tokens t =
     (let session = createAuthSession tokens (env_now env)
      in dispatch_tab dp (AuthA (Auth_loggedIn session))
           (on_storage (saveSession (env_stringify env) session) t))"

definition sign_in_failed :: "date_parse \<Rightarrow> tab \<Rightarrow> tab" where
  "sign_in_failed dp = dispatch_tab dp (AuthA Auth_submitFailed)"

definition sign_in ::
  "date_parse \<Rightarrow> client_env \<Rightarrow> auth_endpoint \<Rightarrow> tab \<Rightarrow> (api_error + unit) \<times> tab"
where
  "sign_in dp env e t =
     (case call_auth dp env e (sign_in_begin dp t) of
        (Inl err, t') \<Rightarrow> (Inl err, sign_in_failed dp t')
      | (Inr payload, t') \<Rightarrow> (Inr (), sign_in_done dp env (env_tokens env payload) t'))"

definition login ::
  "date_parse \<Rightarrow> client_env \<Rightarrow> jstr \<Rightarrow> jstr \<Rightarrow> tab \<Rightarrow> (api_error + unit) \<times> tab"
where
  "login dp env identifier password = sign_in dp env (Login identifier password)"

definition register ::
  "date_parse \<Rightarrow> client_env \<Rightarrow> jstr \<Rightarrow> jstr \<Rightarrow> jstr \<Rightarrow> jstr \<Rightarrow> tab \<Rightarrow> (api_error + unit) \<times> tab"
where
  "register dp env username nickname email password =
     sign_in dp env (Register username nickname email password)"

subsection \<open>Signing out and refreshing the user\<close>

definition read_session_tab :: "client_env \<Rightarrow> tab \<Rightarrow> auth_session option \<times> tab" where
  "read_session_tab env t =
     (fst (readSession (env_parse env) (tab_storage t)),
      on_storage (\<lambda>st. snd (readSession (env_parse env) st)) t)"

definition logout_local :: "date_parse \<Rightarrow> tab \<Rightarrow> tab" where
  "logout_local dp t =
     dispatch_tab dp App_reset
       (on_storage clearSession (clear_all_drafts (streamAbort_abort t)))"

definition logout :: "date_parse \<Rightarrow> client_env \<Rightarrow> tab \<Rightarrow> tab" where
  "logout dp env t =
     (let (session, t1) = read_session_tab env t;
          refreshToken = map_option ses_refreshToken session;
          t2 = (if truthy refreshToken then snd (call_auth dp env (Logout (the refreshToken)) t1)
                else t1)
      in logout_local dp t2)"

definition apply_user ::
  "date_parse \<Rightarrow> client_env \<Rightarrow> auth_user_response \<Rightarrow> tab \<Rightarrow> tab"
where
  "apply_user dp env user t =
     dispatch_tab dp (AuthA (Auth_userUpdated user))
       (on_storage (updateUser (env_parse env) (env_stringify env) user) t)"

definition refreshUser ::
  "date_parse \<Rightarrow> client_env \<Rightarrow> (json \<Rightarrow> auth_user_response) \<Rightarrow> tab \<Rightarrow>
   (api_error + auth_user_response) \<times> tab"
where
  "refreshUser dp env user_of t =
     (case call_auth dp env Me t of
        (Inl err, t') \<Rightarrow> (Inl err, t')
      | (Inr payload, t') \<Rightarrow> (Inr (user_of payload), apply_user dp env (user_of payload) t'))"

subsection \<open>Start-up\<close>

text \<open>The tab as it opens on a storage left by an earlier visit.\<close>

definition open_tab :: "storage \<Rightarrow> tab" where
  "open_tab st = \<lparr>tab_client = \<lparr>cs_storage = st, cs_log = [], cs_expired = 0\<rparr>,
     tab_world = \<lparr>sw_app = initialState, sw_streams = []\<rparr>\<rparr>"

definition restore :: "date_parse \<Rightarrow> client_env \<Rightarrow> tab \<Rightarrow> auth_session option \<times> tab" where
  "restore dp env t =
     (let (restored, t1) = read_session_tab env t
      in (restored, dispatch_tab dp (AuthA (Auth_restored restored)) t1))"

definition start_app ::
  "date_parse \<Rightarrow> client_env \<Rightarrow> (json \<Rightarrow> auth_user_response) \<Rightarrow> tab \<Rightarrow> tab"
where
  "start_app dp env user_of t =
     (case restore dp env t of
        (None, t1) \<Rightarrow> dispatch_tab dp (AuthA Auth_bootstrapCompleted) t1
      | (Some _, t1) \<Rightarrow>
          dispatch_tab dp (AuthA Auth_bootstrapCompleted) (snd (refreshUser dp env user_of t1)))"

subsection \<open>The gate\<close>

datatype gate_view = BlankView | ShellView | AuthView

definition isAuthenticated :: "app_state \<Rightarrow> bool" where
  "isAuthenticated s \<longleftrightarrow> as_session (app_auth s) \<noteq> None"

definition AuthGate :: "app_state \<Rightarrow> gate_view" where
  "AuthGate s = (if \<not> as_bootstrapped (app_auth s) then BlankView
     else if isAuthenticated s then ShellView else AuthView)"

subsection \<open>Error views of the forms\<close>

datatype auth_mode = LoginMode | RegisterMode

record auth_field_errors =
  fe_username :: "jstr option"
  fe_nickname :: "jstr option"
  fe_email :: "jstr option"
  fe_identifier :: "jstr option"
  fe_password :: "jstr option"

definition no_field_errors :: auth_field_errors where
  "no_field_errors = \<lparr>fe_username = None, fe_nickname = None, fe_email = None,
     fe_identifier = None, fe_password = None\<rparr>"

record auth_error_view =
  aev_fieldErrors :: "auth_field_errors option"
  aev_formMessage :: "jstr option"

definition empty_error_view :: auth_error_view where
  "empty_error_view = \<lparr>aev_fieldErrors = None, aev_formMessage = None\<rparr>"

definition js_includes :: "jstr \<Rightarrow> jstr \<Rightarrow> bool" where
  "js_includes s needle \<longleftrightarrow> index_of needle s \<noteq> None"

definition mapAuthError :: "thrown \<Rightarrow> auth_mode \<Rightarrow> auth_error_view" where
  "mapAuthError error mode =
     (let apiError = toApiError error;
          detail = nullish (json_string (err_detail apiError)) [];
          conflict = (mode = RegisterMode \<and> err_status apiError = 409)
      in if err_isAbort apiError then empty_error_view
         else if mode = LoginMode \<and> err_status apiError = 401
           then empty_error_view\<lparr>aev_formMessage := Some wrong_credentials_text\<rparr>
         else if conflict \<and> js_includes detail (js ''Username'')
           then empty_error_view\<lparr>aev_fieldErrors := Some (no_field_errors\<lparr>fe_username := Some username_taken_text\<rparr>)\<rparr>
         else if conflict \<and> js_includes detail (js ''Email'')
           then empty_error_view\<lparr>aev_fieldErrors := Some (no_field_errors\<lparr>fe_email := Some email_taken_text\<rparr>)\<rparr>
         else if err_status apiError = 422
           then empty_error_view\<lparr>aev_formMessage := Some unprocessable_text\<rparr>
         else empty_error_view\<lparr>aev_formMessage := Some (err_message apiError)\<rparr>)"

subsection \<open>Interleavings\<close>

text \<open>
  The parts of the functions above between two awaits, in any order, together with any call of the
  API, whatever the streams and the other slices do, and writes to the other keys of the storage.
  One call is atomic, its refresh included.
\<close>

definition private_action :: "app_action \<Rightarrow> bool" where
  "private_action a = (case a of AuthA _ \<Rightarrow> False | App_reset \<Rightarrow> False | _ \<Rightarrow> True)"

inductive session_step :: "date_parse \<Rightarrow> client_env \<Rightarrow> tab \<Rightarrow> tab \<Rightarrow> bool"
  for dp :: date_parse and env :: client_env
where
  begins: "session_step dp env t (sign_in_begin dp t)"
| signs_in: "session_step dp env t (sign_in_done dp env tokens t)"
| refused: "session_step dp env t (sign_in_failed dp t)"
| signs_out: "session_step dp env t (logout_local dp t)"
| learns_user: "session_step dp env t (apply_user dp env user t)"
| bootstrapped: "session_step dp env t (dispatch_tab dp (AuthA Auth_bootstrapCompleted) t)"
| calls: "session_step dp env t (snd (call_request dp env req t))"
| reads: "session_step dp env t (snd (read_session_tab env t))"
| acts: "private_action a \<Longrightarrow> session_step dp env t (dispatch_tab dp a t)"
| starts: "session_step dp env t (t\<lparr>tab_world := start_stream runId conversationId (tab_world t)\<rparr>)"
| streams: "stream_step dp to_num (tab_world t) (ByStream i) w \<Longrightarrow>
    session_step dp env t (t\<lparr>tab_world := w\<rparr>)"
| stores: "k \<noteq> auth_storage_key \<Longrightarrow> session_step dp env t (on_storage (set_item k v) t)"
| forgets: "k \<noteq> auth_storage_key \<Longrightarrow> session_step dp env t (on_storage (remove_item k) t)"

inductive session_reachable :: "date_parse \<Rightarrow> client_env \<Rightarrow> tab \<Rightarrow> bool"
  for dp :: date_parse and env :: client_env
where
  opened: "wf_storage st \<Longrightarrow> session_reachable dp env (snd (restore dp env (open_tab st)))"
| step: "session_reachable dp env t \<Longrightarrow> session_step dp env t t' \<Longrightarrow> session_reachable dp env t'"

section \<open>Storage after a call\<close>

definition session_codec :: "client_env \<Rightarrow> bool" where
  "session_codec env \<longleftrightarrow> (\<forall>s. env_parse env (env_stringify env s) = Some s \<and> env_stringify env s \<noteq> [])"

abbreviation stored :: "client_env \<Rightarrow> storage \<Rightarrow> auth_session option" where
  "stored env st \<equiv> fst (readSession (env_parse env) st)"

lemma readSession_frame [simp]:
  "k \<noteq> auth_storage_key \<Longrightarrow> get_item k (snd (readSession parse st)) = get_item k st"
  "wf_storage st \<Longrightarrow> wf_storage (snd (readSession parse st))"
  by (simp_all add: readSession_def Let_def get_remove_item split: option.splits)

lemma stored_cong: "get_item auth_storage_key st = get_item auth_storage_key st' \<Longrightarrow> stored env st = stored env st'"
  by (simp add: readSession_def Let_def split: option.splits)

lemma stored_other [simp]:
  "k \<noteq> auth_storage_key \<Longrightarrow> stored env (set_item k v st) = stored env st"
  "k \<noteq> auth_storage_key \<Longrightarrow> stored env (remove_item k st) = stored env st"
  by (rule stored_cong, simp add: get_set_item get_remove_item)+

lemma stored_cleared: "get_item auth_storage_key st = None \<Longrightarrow> stored env st = None"
  by (simp add: readSession_def truthy_def)

lemma stored_clearSession [simp]: "stored env (clearSession st) = None"
  by (rule stored_cleared) (simp add: clearSession_def get_remove_item)

lemma stored_saved: "session_codec env \<Longrightarrow> stored env (saveSession (env_stringify env) s st) = Some s"
  by (simp add: session_codec_def readSession_def saveSession_def get_set_item truthy_def)

lemma stored_updateUser:
  "session_codec env \<Longrightarrow>
     stored env (updateUser (env_parse env) (env_stringify env) user st) =
       map_option (ses_user_update (\<lambda>_. user)) (stored env st)"
  using get_item_readSession [of "env_parse env" st] stored_saved [unfolded saveSession_def]
  by (auto simp: updateUser_def split: prod.splits option.splits)

lemma do_fetch_storage:
  "cs_storage (snd (do_fetch env c path options)) =
     (if opt_auth options \<noteq> Some False then snd (readSession (env_parse env) (cs_storage c))
      else cs_storage c)"
  by (simp add: do_fetch_def Let_def)

text \<open>What a call does to the storage: only the session entry, and never its presence unless it expires.\<close>

definition session_frame :: "client_env \<Rightarrow> client_state \<Rightarrow> client_state \<Rightarrow> bool" where
  "session_frame env c c' \<longleftrightarrow>
     (\<forall>k. k \<noteq> auth_storage_key \<longrightarrow> get_item k (cs_storage c') = get_item k (cs_storage c)) \<and>
     (wf_storage (cs_storage c) \<longrightarrow> wf_storage (cs_storage c')) \<and>
     (if cs_expired c' = cs_expired c
      then stored env (cs_storage c') = None \<longleftrightarrow> stored env (cs_storage c) = None
      else stored env (cs_storage c') = None)"

lemma session_frame_do_fetch: "session_frame env c (snd (do_fetch env c path options))"
  by (simp add: session_frame_def do_fetch_storage get_item_readSession)

lemma session_frame_once: "session_frame env c (snd (fetchRawInternal env path options True c))"
  by (simp add: fetch_without_refresh session_frame_do_fetch)

lemma fetchRaw_session:
  assumes "session_codec env"
  shows "session_frame env c (snd (fetchRaw env path options c))"
proof (cases rule: fetch_cases [of env path options False c])
  case once
  then show ?thesis by (simp add: fetchRaw_def session_frame_once)
next
  case (no_token c1)
  then show ?thesis
    using session_frame_do_fetch [of env c path options]
    by (simp add: fetchRaw_def expireAuth_def session_frame_def)
      (simp add: clearSession_def get_remove_item)
next
  case (refresh c1 t)
  obtain r c2 where rc: "refresh_result env t c1 = (r, c2)" by (cases "refresh_result env t c1")
  then have c2: "cs_storage c2 = cs_storage c1" "cs_expired c2 = cs_expired c1"
    using refresh_result_log [of env t c1] by simp_all
  from refresh(3) have present: "stored env (cs_storage c1) \<noteq> None" by (auto simp: getRefreshToken_def)
  have base: "session_frame env c c1" "cs_expired c1 = cs_expired c"
    using refresh(2) session_frame_do_fetch by simp_all
  show ?thesis
  proof (cases r)
    case (Inl e)
    with base c2 refresh(5) rc show ?thesis
      by (simp add: fetchRaw_def expireAuth_def session_frame_def)
        (simp add: clearSession_def get_remove_item)
  next
    case (Inr payload)
    let ?s = "createAuthSession (env_tokens env payload) (env_now env)"
    let ?c3 = "c2\<lparr>cs_storage := saveSession (env_stringify env) ?s (cs_storage c2)\<rparr>"
    have saved: "session_frame env c ?c3"
      using base c2 present stored_saved [OF assms, of ?s "cs_storage c1"]
      by (simp add: session_frame_def) (simp add: saveSession_def get_set_item)
    have "fetchRaw env path options c = fetchRawInternal env path options True ?c3"
      using refresh(5) rc Inr by (simp add: fetchRaw_def)
    moreover have "cs_expired (snd (fetchRawInternal env path options True ?c3)) = cs_expired c"
      using base c2 by (simp add: fetch_without_refresh)
    ultimately show ?thesis
      using saved session_frame_once [of env ?c3 path options] base(2) c2
      by (simp add: session_frame_def)
  qed
qed

lemma request_session:
  "session_codec env \<Longrightarrow> session_frame env c (snd (request env path options c))"
  using fetchRaw_session by (simp add: request_def split: prod.splits) (metis snd_conv)

section \<open>Tabs\<close>

lemma tab_simps [simp]:
  "tab_app (dispatch_tab dp a t) = rootReducer dp (tab_app t) a"
  "tab_client (dispatch_tab dp a t) = tab_client t"
  "sw_streams (tab_world (dispatch_tab dp a t)) = sw_streams (tab_world t)"
  "tab_storage (on_storage f t) = f (tab_storage t)"
  "cs_log (tab_client (on_storage f t)) = cs_log (tab_client t)"
  "tab_world (on_storage f t) = tab_world t"
  "tab_client (streamAbort_abort t) = tab_client t"
  "tab_app (streamAbort_abort t) = tab_app t"
  "sw_streams (tab_world (streamAbort_abort t)) = abort_current (sw_streams (tab_world t))"
  by (simp_all add: dispatch_tab_def on_storage_def streamAbort_abort_def)

lemma clear_all_drafts_simps [simp]:
  "tab_world (clear_all_drafts t) = tab_world t"
  "tab_storage (clear_all_drafts t) = clear_all_reply_quotes (clear_all_file_drafts (tab_storage t))"
  "cs_log (tab_client (clear_all_drafts t)) = cs_log (tab_client t)"
  by (simp_all add: clear_all_drafts_def)

definition draft_entry :: "jstr \<Rightarrow> bool" where
  "draft_entry k \<longleftrightarrow> starts_with (file_draft_prefix @ js '':'') k \<or>
     starts_with (reply_quote_prefix @ js '':'') k"

lemma auth_key_no_draft [simp]:
  "\<not> draft_entry auth_storage_key" "\<not> draft_entry selection_storage_key"
  "selection_storage_key \<noteq> auth_storage_key" "auth_storage_key \<noteq> selection_storage_key"
  by (simp_all add: draft_entry_def auth_storage_key_def selection_storage_key_def
      file_draft_prefix_def reply_quote_prefix_def starts_with_def js_def)

lemma draft_keys_are_drafts [simp]:
  "draft_entry (file_draft_key u c)" "draft_entry (reply_quote_key u d)"
  by (simp_all add: draft_entry_def file_draft_key_def reply_quote_key_def)

lemma clear_drafts_get:
  assumes "wf_storage st"
  shows "get_item k (clear_all_reply_quotes (clear_all_file_drafts st)) =
    (if draft_entry k then None else get_item k st)"
  using assms
  by (simp add: clear_all_reply_quotes_def clear_all_file_drafts_def clear_prefix_def
      get_remove_matching draft_entry_def)

lemma clear_drafts_wf:
  "wf_storage st \<Longrightarrow> wf_storage (clear_all_reply_quotes (clear_all_file_drafts st))"
  by (simp add: clear_all_reply_quotes_def clear_all_file_drafts_def clear_prefix_def)

lemma clear_drafts_stored:
  "wf_storage st \<Longrightarrow> stored env (clear_all_reply_quotes (clear_all_file_drafts st)) = stored env st"
  by (rule stored_cong) (simp add: clear_drafts_get)

text \<open>
  The invariant of a tab: it shows a signed-in user exactly when its storage holds a session.
\<close>

definition session_inv :: "client_env \<Rightarrow> tab \<Rightarrow> bool" where
  "session_inv env t \<longleftrightarrow> wf_storage (tab_storage t) \<and>
     (isAuthenticated (tab_app t) \<longleftrightarrow> stored env (tab_storage t) \<noteq> None)"

lemma isAuthenticated_simps [simp]:
  "\<not> isAuthenticated (rootReducer dp s App_reset)"
  "isAuthenticated (rootReducer dp s (AuthA (Auth_loggedIn session)))"
  "isAuthenticated (rootReducer dp s (AuthA (Auth_userUpdated user))) = isAuthenticated s"
  "isAuthenticated (rootReducer dp s (AuthA Auth_bootstrapCompleted)) = isAuthenticated s"
  "isAuthenticated (rootReducer dp s (AuthA Auth_submitStarted)) = isAuthenticated s"
  "isAuthenticated (rootReducer dp s (AuthA Auth_submitFailed)) = isAuthenticated s"
  "isAuthenticated (rootReducer dp s (AuthA (Auth_restored restored))) = (restored \<noteq> None)"
  by (auto simp: isAuthenticated_def authReducer_reset initialAuthState_def split: option.splits)

lemma private_action_auth:
  "private_action a \<Longrightarrow> isAuthenticated (rootReducer dp s a) = isAuthenticated s"
  by (cases a) (simp_all add: private_action_def isAuthenticated_def)

lemma stream_step_auth:
  "stream_step dp to_num w (ByStream i) w' \<Longrightarrow>
     outside_streams (sw_app w') = outside_streams (sw_app w)"
  by (elim stream_by_streamE)
    (simp_all add: handle_next_app close_stream_def on_refetched_frame on_stream_error_frame
      on_event_frame(1) [OF prod.collapse [symmetric]])

lemma expiry_handler_inv:
  "wf_storage (tab_storage t) \<Longrightarrow> stored env (tab_storage t) = None \<Longrightarrow>
     session_inv env (auth_expiry_handler dp t)"
  by (simp add: session_inv_def auth_expiry_handler_def clear_drafts_wf clear_drafts_stored)

lemma call_request_inv:
  assumes "session_codec env" and "session_inv env t"
  shows "session_inv env (snd (call_request dp env req t))"
proof -
  obtain r c where rc: "request env (fst req) (snd req) (tab_client t) = (r, c)"
    by (cases "request env (fst req) (snd req) (tab_client t)")
  then have frame: "session_frame env (tab_client t) c"
    using request_session [OF assms(1), of "tab_client t" "fst req" "snd req"] by simp
  show ?thesis
  proof (cases "cs_expired c = cs_expired (tab_client t)")
    case True
    with rc frame assms(2) show ?thesis
      by (simp add: call_request_def session_inv_def session_frame_def Let_def)
  next
    case False
    with frame assms(2) have "session_inv env (auth_expiry_handler dp (t\<lparr>tab_client := c\<rparr>))"
      by (intro expiry_handler_inv) (simp_all add: session_inv_def session_frame_def)
    with rc False show ?thesis by (simp add: call_request_def)
  qed
qed

lemma session_step_inv:
  assumes "session_codec env" and "session_step dp env t t'" and "session_inv env t"
  shows "session_inv env t'"
  using assms(2)
proof cases
  case (calls req)
  then show ?thesis using call_request_inv assms by blast
next
  case (streams to_num i w)
  then show ?thesis
    using stream_step_auth [of dp to_num "tab_world t" i w] assms(3)
    by (simp add: session_inv_def isAuthenticated_def outside_streams_def)
next
  case learns_user
  then show ?thesis
    using assms stored_updateUser [OF assms(1)]
    by (auto simp: apply_user_def session_inv_def updateUser_def split: prod.splits option.splits
        dest: arg_cong [where f = snd])
      (metis readSession_frame(2) snd_conv wf_set_item)+
qed (use assms in \<open>simp_all add: session_inv_def sign_in_begin_def sign_in_done_def sign_in_failed_def
    logout_local_def read_session_tab_def clear_drafts_wf stored_saved get_item_readSession
    private_action_auth start_stream_def Let_def, simp_all add: saveSession_def clearSession_def clear_drafts_wf\<close>)

section \<open>Sign-out, start-up and late streams\<close>

lemma restore_parts:
  "isAuthenticated (tab_app (snd (restore dp env t))) = (stored env (tab_storage t) \<noteq> None)"
  "tab_storage (snd (restore dp env t)) = snd (readSession (env_parse env) (tab_storage t))"
  "fst (restore dp env t) = stored env (tab_storage t)"
  "cs_log (tab_client (snd (restore dp env t))) = cs_log (tab_client t)"
  by (simp_all add: restore_def read_session_tab_def)

lemma restore_inv: "wf_storage (tab_storage t) \<Longrightarrow> session_inv env (snd (restore dp env t))"
  by (simp add: session_inv_def restore_parts get_item_readSession)

lemma open_tab_simps [simp]: "tab_storage (open_tab st) = st" "cs_log (tab_client (open_tab st)) = []"
  by (simp_all add: open_tab_def)

lemma session_reachable_inv:
  assumes "session_codec env" and "session_reachable dp env t"
  shows "session_inv env t"
  using assms(2)
proof (induction rule: session_reachable.induct)
  case (opened st)
  then show ?case by (simp add: restore_inv)
next
  case (step t t')
  then show ?case using session_step_inv [OF assms(1)] by blast
qed

lemma all_aborted: "one_reader sts \<Longrightarrow> \<forall>st \<in> set (abort_current sts). st_aborted st"
  by (auto simp: one_reader_def abort_current_def abort_stream_def)

text \<open>The call that tells the server is anonymous: one request, and no storage touched.\<close>

lemma call_logout:
  "tab_world (snd (call_auth dp env (Logout token) t)) = tab_world t"
  "tab_storage (snd (call_auth dp env (Logout token) t)) = tab_storage t"
  "cs_log (tab_client (snd (call_auth dp env (Logout token) t))) = cs_log (tab_client t) @
     [http_request_of env (tab_client t) (js ''/auth/logout'') (snd (auth_request (Logout token)))]"
proof -
  have "\<not> may_refresh (snd (auth_request (Logout token))) False"
    "opt_auth (snd (auth_request (Logout token))) = Some False"
    by (simp_all add: may_refresh_def option_builders)
  then have "tab_client (snd (call_auth dp env (Logout token) t)) =
      snd (do_fetch env (tab_client t) (js ''/auth/logout'') (snd (auth_request (Logout token)))) \<and>
    tab_world (snd (call_auth dp env (Logout token) t)) = tab_world t"
    by (simp add: call_auth_def call_request_def request_def fetchRaw_def fetch_without_refresh)
  with \<open>opt_auth _ = Some False\<close>
  show "tab_world (snd (call_auth dp env (Logout token) t)) = tab_world t"
    "tab_storage (snd (call_auth dp env (Logout token) t)) = tab_storage t"
    "cs_log (tab_client (snd (call_auth dp env (Logout token) t))) = cs_log (tab_client t) @
       [http_request_of env (tab_client t) (js ''/auth/logout'') (snd (auth_request (Logout token)))]"
    by (simp_all del: auth_request.simps)
qed

lemma refreshUser_inv:
  "session_codec env \<Longrightarrow> session_inv env t \<Longrightarrow> session_inv env (snd (refreshUser dp env user_of t))"
  by (auto simp: refreshUser_def call_auth_def split: prod.splits sum.splits
      intro: session_step_inv session_step.learns_user)
    (metis call_request_inv session_step.learns_user session_step_inv snd_conv)+

lemma call_request_log:
  "length (cs_log (tab_client (snd (call_request dp env req t)))) \<le> length (cs_log (tab_client t)) + 3"
proof -
  have "length (cs_log (snd (fetchRaw env (fst req) (snd req) (tab_client t)))) \<le>
      length (cs_log (tab_client t)) + 3"
    using fetch_log_bound [of "tab_client t" env "fst req" "snd req" False]
    by (simp add: fetchRaw_def split: if_splits)
  then show ?thesis
    by (cases "fetchRaw env (fst req) (snd req) (tab_client t)")
      (simp add: call_request_def request_def auth_expiry_handler_def Let_def)
qed

lemma refreshUser_log:
  "length (cs_log (tab_client (snd (refreshUser dp env user_of t)))) \<le> length (cs_log (tab_client t)) + 3"
  using call_request_log [of dp env "auth_request Me" t]
  by (cases "call_auth dp env Me t"; cases "fst (call_auth dp env Me t)")
    (simp_all add: refreshUser_def call_auth_def apply_user_def)

definition late_step :: "date_parse \<Rightarrow> (json \<Rightarrow> jnum) \<Rightarrow> stream_world \<Rightarrow> stream_world \<Rightarrow> bool" where
  "late_step dp to_num w w' \<longleftrightarrow> (\<exists>i. stream_step dp to_num w (ByStream i) w')"

text \<open>All of a signed-out state but the conversation list.\<close>

definition signed_out :: "app_state \<Rightarrow> bool" where
  "signed_out s \<longleftrightarrow> outside_streams s = outside_streams reset_app_state \<and>
     app_activeRun s = None \<and> app_conversationDetail s = initialConversationDetailState"

lemma sync_title_blank:
  "sync_title dp initialConversationDetailState items pinned = initialConversationDetailState"
  by (simp add: sync_title_def initialConversationDetailState_def)

lemma reset_parts:
  "app_auth reset_app_state = initialAuthState\<lparr>as_bootstrapped := True\<rparr>"
  "selected reset_app_state = None"
  by (simp_all add: reset_app_state_def initialState_def initialConversationIndexState_def)

lemma signed_out_reset: "signed_out reset_app_state"
  by (simp add: signed_out_def reset_app_state_def initialState_def initialActiveRunState_def)

lemma signed_out_refetched:
  assumes "signed_out s"
  shows "signed_out (on_refetched dp runId conv s d items)"
proof -
  from assms have s: "selected s = None" "app_activeRun s = None"
    "app_conversationDetail s = initialConversationDetailState"
    by (simp_all add: signed_out_def outside_streams_def reset_parts)
  then have "app_conversationDetail (on_refetched dp runId conv s d items) =
      initialConversationDetailState"
    by (simp add: on_refetched_def Let_def dispatch_if_def is_active_run_def
        conversationDetailReducer_def sync_title_blank)
  with s assms show ?thesis
    by (simp add: signed_out_def on_refetched_frame)
qed

lemma signed_out_late:
  assumes "late_step dp to_num w w'" and "signed_out (sw_app w)"
  shows "signed_out (sw_app w')"
proof -
  from assms(2) have idle: "\<not> is_active_run (sw_app w) runId" for runId
    by (simp add: signed_out_def is_active_run_def)
  have event: "signed_out (fst (on_event dp to_num runId conv (sw_app w) e))" for runId conv e
    using on_event_frame [of dp to_num runId conv "sw_app w" e, OF prod.collapse [symmetric]] idle assms(2)
    by (simp add: signed_out_def)
  have error: "signed_out (on_stream_error dp runId (sw_app w))" for runId
    using idle assms(2) by (simp add: signed_out_def on_stream_error_frame)
  from assms(1) show ?thesis
    unfolding late_step_def
    by (elim exE stream_by_streamE)
      (simp_all add: assms(2) handle_next_app close_stream_def event error signed_out_refetched)
qed

lemma signed_out_gate: "signed_out s \<Longrightarrow> AuthGate s = AuthView"
  by (simp add: signed_out_def reset_parts outside_streams_def AuthGate_def isAuthenticated_def
      initialAuthState_def)

section \<open>Properties\<close>

text \<open>
  A concrete codec: sessions are countable, and the decimal digits of a session's number are a
  string that gives the session back.
\<close>

instance auth_user_response_ext :: (countable) countable
proof (rule countable_classI [of "\<lambda>u. to_nat (user_id u, user_username u, user_nickname u, user_email u,
    user_email_verified u, user_avatar_url u, auth_user_response.more u)"])
  fix x y :: "'a auth_user_response_ext"
  show "to_nat (user_id x, user_username x, user_nickname x, user_email x, user_email_verified x,
      user_avatar_url x, auth_user_response.more x) =
    to_nat (user_id y, user_username y, user_nickname y, user_email y, user_email_verified y,
      user_avatar_url y, auth_user_response.more y) \<Longrightarrow> x = y"
    by (cases x; cases y) simp
qed

instance auth_session_ext :: (countable) countable
proof (rule countable_classI [of "\<lambda>s. to_nat (ses_user s, ses_accessToken s, ses_refreshToken s,
    ses_tokenType s, ses_expiresAt s, auth_session.more s)"])
  fix x y :: "'a auth_session_ext"
  show "to_nat (ses_user x, ses_accessToken x, ses_refreshToken x, ses_tokenType x, ses_expiresAt x,
      auth_session.more x) =
    to_nat (ses_user y, ses_accessToken y, ses_refreshToken y, ses_tokenType y, ses_expiresAt y,
      auth_session.more y) \<Longrightarrow> x = y"
    by (cases x; cases y) simp
qed

definition codec_env :: "int list \<Rightarrow> client_env" where
  "codec_env statuses = (demo_env statuses)\<lparr>
     env_parse := (\<lambda>raw. Some (from_nat (digits_value raw))),
     env_stringify := (\<lambda>session. digits (to_nat session))\<rparr>"

lemma codec_env_codec: "session_codec (codec_env statuses)"
  using digits_are_digits by (simp add: session_codec_def codec_env_def digits_value_digits)



text \<open>
  (C10) Signing out leaves nothing of the user behind: whatever the server answers to the one request
  it makes, the application is back in its reset state behind the sign-in form, the session and the
  drafts of both stores are gone, every stream is aborted, and no other entry of the storage changes.
\<close>

theorem logout_leaves_nothing:
  assumes "wf_storage (tab_storage t)" and "one_reader (sw_streams (tab_world t))"
    and "t' = logout dp env t"
  shows "tab_app t' = reset_app_state \<and> AuthGate (tab_app t') = AuthView \<and>
    (\<forall>st \<in> set (sw_streams (tab_world t')). st_aborted st) \<and>
    (\<forall>k. get_item k (tab_storage t') =
       (if k = auth_storage_key \<or> draft_entry k then None else get_item k (tab_storage t))) \<and>
    length (cs_log (tab_client t')) =
      length (cs_log (tab_client t)) +
        (if truthy (getRefreshToken (env_parse env) (tab_storage t)) then 1 else 0)"
proof -
  let ?token = "getRefreshToken (env_parse env) (tab_storage t)"
  let ?t1 = "snd (read_session_tab env t)"
  let ?t2 = "if truthy ?token then snd (call_auth dp env (Logout (the ?token)) ?t1) else ?t1"
  have t': "t' = logout_local dp ?t2"
    using assms(3) by (simp add: logout_def read_session_tab_def getRefreshToken_def)
  have t2: "tab_world ?t2 = tab_world t"
    "tab_storage ?t2 = snd (readSession (env_parse env) (tab_storage t))"
    "length (cs_log (tab_client ?t2)) = length (cs_log (tab_client t)) + (if truthy ?token then 1 else 0)"
    by (simp_all add: call_logout read_session_tab_def)
  have "get_item k (tab_storage t') =
      (if k = auth_storage_key \<or> draft_entry k then None else get_item k (tab_storage t))" for k
    using assms(1) unfolding t' logout_local_def
    by (simp add: t2 clearSession_def get_remove_item clear_drafts_get del: if_split_asm)
  moreover have "tab_app t' = reset_app_state"
    unfolding t' logout_local_def by (simp add: rootReducer_reset)
  ultimately show ?thesis
    using assms(2) all_aborted t2(1,3) unfolding t' logout_local_def
    by (simp add: signed_out_gate signed_out_reset)
qed

theorem logout_leaves_nothing_witness:
  "get_item (file_draft_key (js ''1'') None) (tab_storage (logout demo_dp (demo_env [500])
     (open_tab [(auth_storage_key, js ''old''), (file_draft_key (js ''1'') None, js ''x'')]))) = None"
proof -
  let ?t = "open_tab [(auth_storage_key, js ''old''), (file_draft_key (js ''1'') None, js ''x'')]"
  have "wf_storage (tab_storage ?t)" "one_reader (sw_streams (tab_world ?t))"
    by (simp_all add: open_tab_def wf_storage_def one_reader_def auth_storage_key_def
        file_draft_key_def file_draft_prefix_def js_def)
  from logout_leaves_nothing [OF this refl, of demo_dp "demo_env [500]"] show ?thesis
    by simp
qed

text \<open>
  (C11) Start-up always finishes: on any storage and whatever the network does, after at most three
  requests (none without a stored session) the blank screen is gone, and the application shows the
  shell exactly when the storage still holds a session; a session that can no longer be refreshed
  ends at the sign-in form.
\<close>

theorem startup_settles:
  assumes "session_codec env" and "wf_storage st"
    and "t' = start_app dp env user_of (open_tab st)"
  shows "AuthGate (tab_app t') = (if stored env (tab_storage t') \<noteq> None then ShellView else AuthView) \<and>
    length (cs_log (tab_client t')) \<le> (if stored env st = None then 0 else 3) \<and>
    (stored env st = None \<longrightarrow> AuthGate (tab_app t') = AuthView)"
proof -
  let ?t1 = "snd (restore dp env (open_tab st))"
  let ?t2 = "if stored env st = None then ?t1 else snd (refreshUser dp env user_of ?t1)"
  have t': "t' = dispatch_tab dp (AuthA Auth_bootstrapCompleted) ?t2"
    using assms(3) restore_parts(3) [of dp env "open_tab st"]
    by (simp add: start_app_def split: prod.splits option.splits)
  have inv1: "session_inv env ?t1" using assms(2) by (simp add: restore_inv)
  then have "session_inv env ?t2" using refreshUser_inv [OF assms(1)] by simp
  then have "AuthGate (tab_app t') = (if stored env (tab_storage t') \<noteq> None then ShellView else AuthView)"
    unfolding t' by (simp add: AuthGate_def session_inv_def)
  moreover have "length (cs_log (tab_client t')) \<le> (if stored env st = None then 0 else 3)"
    unfolding t' using refreshUser_log [of dp env user_of ?t1] by (simp add: restore_parts)
  moreover have "stored env st = None \<longrightarrow> stored env (tab_storage t') = None"
    unfolding t' by (simp add: restore_parts get_item_readSession)
  ultimately show ?thesis by simp
qed

theorem startup_settles_witness:
  "AuthGate (tab_app (start_app demo_dp (codec_env [401, 500]) (\<lambda>_. demo_user)
     (open_tab [(auth_storage_key, js ''1'')]))) \<noteq> BlankView"
proof -
  have "wf_storage [(auth_storage_key, js ''1'')]" by (simp add: wf_storage_def)
  from startup_settles [OF codec_env_codec this refl, of demo_dp "[401, 500]" "\<lambda>_. demo_user"]
  show ?thesis by (simp split: if_splits)
qed

text \<open>
  A stream that outlives the session cannot bring it back: after a reset, whatever events,
  refetches and failures the streams still deliver, the page stays at the sign-in form with no
  active run, no open thread, no messages, no pending submission and an empty composer.
\<close>

theorem late_streams_stay_signed_out:
  assumes "(late_step dp to_num)\<^sup>*\<^sup>* w w'" and "sw_app w = reset_app_state"
  shows "AuthGate (sw_app w') = AuthView \<and> signed_out (sw_app w')"
proof -
  from assms(1) have "signed_out (sw_app w')"
  proof induction
    case base
    then show ?case by (simp add: assms(2) signed_out_reset)
  next
    case (step v v')
    then show ?case using signed_out_late by blast
  qed
  then show ?thesis by (simp add: signed_out_gate)
qed

theorem late_streams_stay_signed_out_witness:
  "AuthGate (on_stream_error demo_dp (js ''r'') reset_app_state) = AuthView"
proof -
  let ?w = "\<lparr>sw_app = reset_app_state, sw_streams = [new_stream (js ''r'') (js ''c'')]\<rparr>"
  have "late_step demo_dp (\<lambda>_. NaN) ?w
      (close_stream 0 (on_stream_error demo_dp (js ''r'') reset_app_state) ?w)"
    unfolding late_step_def
    using stream_step.read_fails [of 0 ?w "new_stream (js ''r'') (js ''c'')" demo_dp "\<lambda>_. NaN"]
    by (auto simp: new_stream_def)
  from late_streams_stay_signed_out [OF r_into_rtranclp [where r = "late_step demo_dp (\<lambda>_. NaN)", OF this]]
  show ?thesis
    by (simp add: close_stream_def)
qed

text \<open>
  The conversation list is the exception: the refetch that follows a finished run is not tied to the
  stream's abort, so when the session ends in between, the first page of the previous user's
  conversations is put into the signed-out state.
\<close>

theorem late_refetch_refills_list:
  "set (ci_items (app_conversationIndex (on_refetched dp runId conv reset_app_state d items))) =
     set items"
  by (simp add: on_refetched_def Let_def dispatch_if_def reset_parts detail_loaded_def
      withPinned_def mergeFirstPage_def js_map_of_def reset_app_state_def initialState_def
      initialConversationIndexState_def)

text \<open>
  A refresh that was under way when the user signed out stores its session afterwards: the entry that
  signing out removed is back, and the next start-up finds it.
\<close>

theorem refresh_outlives_logout:
  assumes "session_codec env"
  shows "stored env (rf_storage (resume_caller (env_stringify env) caller (Inr session)
    (s\<lparr>rf_storage := clearSession (rf_storage s)\<rparr>))) = Some session"
  using stored_saved [OF assms] by (simp add: resume_caller_def Let_def)

end
