(* ===== verification/Auth_Forms.thy ===== *)
theory Auth_Forms
  imports Auth_Session
begin

text \<open>
  The forms and link pages around a session: \<open>AuthScreen\<close> (sign-in, registration, password reset
  request), \<open>ResetPasswordPage\<close>, \<open>VerifyEmailPage\<close> and \<open>ConfirmAccountDeletionPage\<close>
  (\<open>frontend/src/auth/\<close>). A page's fields and statuses are its \<open>useState\<close> variables; a submission
  is cut at its \<open>await\<close>. The link pages are modelled while they stay mounted.
\<close>

section \<open>Definitions\<close>

subsection \<open>The address pattern\<close>

text \<open>\<open>[^\s@]\<close>.\<close>

definition address_char :: "code_unit \<Rightarrow> bool" where
  "address_char c \<longleftrightarrow> \<not> is_space c \<and> c \<noteq> 64"

text \<open>
  \<open>/^[^\s@]+@[^\s@]+\.[^\s@]+$/.test(s)\<close>, decided without backtracking: one at sign, and a dot inside
  what follows it.
\<close>

definition email_pattern :: "jstr \<Rightarrow> bool" where
  "email_pattern s =
     (case split_on 64 s of
        [account, domain] \<Rightarrow> account \<noteq> [] \<and> list_all address_char account \<and>
          list_all address_char domain \<and>
          list_ex (\<lambda>i. domain ! i = 46) [1..<length domain - 1]
      | _ \<Rightarrow> False)"

subsection \<open>The sign-in screen\<close>

datatype screen_mode = FormMode auth_mode | Forgot

record auth_form =
  af_mode :: screen_mode
  af_identifier :: jstr
  af_username :: jstr
  af_nickname :: jstr
  af_email :: jstr
  af_password :: jstr
  af_resetEmail :: jstr
  af_resetSubmitting :: bool
  af_resetSent :: bool
  af_fieldErrors :: auth_field_errors
  af_formMessage :: "jstr option"

definition initial_form :: auth_form where
  "initial_form = \<lparr>af_mode = FormMode LoginMode, af_identifier = [], af_username = [],
     af_nickname = [], af_email = [], af_password = [], af_resetEmail = [],
     af_resetSubmitting = False, af_resetSent = False, af_fieldErrors = no_field_errors,
     af_formMessage = None\<rparr>"

definition switchMode :: "screen_mode \<Rightarrow> auth_form \<Rightarrow> auth_form" where
  "switchMode target f =
     (if target = af_mode f then f
      else f\<lparr>af_mode := target, af_fieldErrors := no_field_errors, af_formMessage := None,
             af_resetSent := False\<rparr>)"

definition password_ok :: "jstr \<Rightarrow> bool" where
  "password_ok p \<longleftrightarrow> \<not> (length p < 8 \<or> length p > 128)"

definition error_unless :: "bool \<Rightarrow> jstr \<Rightarrow> jstr option" where
  "error_unless ok text = (if ok then None else Some text)"

definition validate :: "auth_form \<Rightarrow> auth_field_errors" where
  "validate f =
     (let errors =
        (if af_mode f = FormMode RegisterMode
         then let name = js_trim (af_username f)
              in no_field_errors
                   \<lparr>fe_username := error_unless (\<not> (length name < 1 \<or> length name > 50)) username_length_text,
                    fe_nickname := error_unless (\<not> length (js_trim (af_nickname f)) > 50) nickname_length_text,
                    fe_email := error_unless (email_pattern (js_trim (af_email f))) email_invalid_text\<rparr>
         else no_field_errors
           \<lparr>fe_identifier := error_unless (\<not> length (js_trim (af_identifier f)) < 1) identifier_required_text\<rparr>)
      in errors\<lparr>fe_password := error_unless (password_ok (af_password f)) password_length_text\<rparr>)"

definition clear_messages :: "auth_form \<Rightarrow> auth_form" where
  "clear_messages f = f\<lparr>af_fieldErrors := no_field_errors, af_formMessage := None\<rparr>"

text \<open>The request a valid form makes: \<open>nickname.trim() || normalizedUsername\<close>.\<close>

definition form_request :: "auth_form \<Rightarrow> auth_endpoint" where
  "form_request f =
     (if af_mode f = FormMode RegisterMode
      then let name = js_trim (af_username f); nick = js_trim (af_nickname f)
           in Register name (if nick \<noteq> [] then nick else name) (js_trim (af_email f)) (af_password f)
      else Login (js_trim (af_identifier f)) (af_password f))"

definition submit_begin :: "bool \<Rightarrow> auth_form \<Rightarrow> auth_form \<times> auth_endpoint option" where
  "submit_begin isSubmitting f =
     (if isSubmitting then (f, None)
      else if validate f \<noteq> no_field_errors
        then (f\<lparr>af_fieldErrors := validate f, af_formMessage := None\<rparr>, None)
      else (clear_messages f, Some (form_request f)))"

definition submit_failed :: "thrown \<Rightarrow> auth_form \<Rightarrow> auth_form" where
  "submit_failed error f =
     (let view = mapAuthError error
            (if af_mode f = FormMode RegisterMode then RegisterMode else LoginMode)
      in f\<lparr>af_fieldErrors := nullish (aev_fieldErrors view) no_field_errors,
           af_formMessage := aev_formMessage view\<rparr>)"

definition handleSubmit ::
  "date_parse \<Rightarrow> client_env \<Rightarrow> auth_form \<times> tab \<Rightarrow> auth_form \<times> tab"
where
  "handleSubmit dp env ft =
     (case ft of (f, t) \<Rightarrow>
        case submit_begin (as_status (app_auth (tab_app t)) = AuthSubmitting) f of
          (f', None) \<Rightarrow> (f', t)
        | (f', Some e) \<Rightarrow>
            (case sign_in dp env e t of
               (Inl err, t') \<Rightarrow> (submit_failed (ThrownApi err) f', t')
             | (Inr _, t') \<Rightarrow> (f', t')))"

subsection \<open>Requesting a password reset\<close>

definition reset_begin :: "auth_form \<Rightarrow> auth_form \<times> jstr option" where
  "reset_begin f =
     (let normalizedEmail = js_trim (af_resetEmail f)
      in if af_resetSubmitting f then (f, None)
         else if \<not> email_pattern normalizedEmail
           then (f\<lparr>af_fieldErrors := no_field_errors\<lparr>fe_email := Some email_invalid_text\<rparr>,
                   af_formMessage := None\<rparr>, None)
         else ((clear_messages f)\<lparr>af_resetSubmitting := True\<rparr>, Some normalizedEmail))"

definition reset_settled :: "api_error + json \<Rightarrow> auth_form \<Rightarrow> auth_form" where
  "reset_settled result f =
     (case result of
        Inl err \<Rightarrow> f\<lparr>af_formMessage := Some (err_message err), af_resetSubmitting := False\<rparr>
      | Inr _ \<Rightarrow> f\<lparr>af_resetSent := True, af_resetSubmitting := False\<rparr>)"

definition handleResetRequest ::
  "date_parse \<Rightarrow> client_env \<Rightarrow> auth_form \<times> tab \<Rightarrow> auth_form \<times> tab"
where
  "handleResetRequest dp env ft =
     (case ft of (f, t) \<Rightarrow>
        case reset_begin f of
          (f', None) \<Rightarrow> (f', t)
        | (f', Some email) \<Rightarrow>
            (let (result, t') = call_auth dp env (RequestPasswordReset email) t
             in (reset_settled result f', t')))"

subsection \<open>Setting a new password\<close>

record reset_page =
  rp_success :: bool
  rp_password :: jstr
  rp_confirm :: jstr
  rp_passwordError :: "jstr option"
  rp_confirmError :: "jstr option"
  rp_formMessage :: "jstr option"
  rp_submitting :: bool

definition new_password_begin :: "jstr option \<Rightarrow> reset_page \<Rightarrow> reset_page \<times> auth_endpoint option" where
  "new_password_begin token p =
     (let passwordError = error_unless (password_ok (rp_password p)) password_length_text;
          confirmError = error_unless (rp_confirm p = rp_password p) passwords_differ_text
      in if rp_submitting p \<or> \<not> truthy token then (p, None)
         else if passwordError \<noteq> None \<or> confirmError \<noteq> None
           then (p\<lparr>rp_passwordError := passwordError, rp_confirmError := confirmError,
                   rp_formMessage := None\<rparr>, None)
         else (p\<lparr>rp_passwordError := None, rp_confirmError := None, rp_formMessage := None,
                 rp_submitting := True\<rparr>, Some (ResetPassword (the token) (rp_password p))))"

definition new_password_settled :: "api_error + json \<Rightarrow> reset_page \<Rightarrow> reset_page" where
  "new_password_settled result p =
     (case result of
        Inl err \<Rightarrow> p\<lparr>rp_formMessage := Some (if err_status err = 400 \<or> err_status err = 422
            then reset_link_invalid_text else err_message err), rp_submitting := False\<rparr>
      | Inr _ \<Rightarrow> p\<lparr>rp_success := True, rp_submitting := False\<rparr>)"

subsection \<open>Verifying an address\<close>

datatype link_status = LinkLoading | LinkSuccess | LinkError

definition verify_email ::
  "date_parse \<Rightarrow> client_env \<Rightarrow> (json \<Rightarrow> auth_user_response) \<Rightarrow> jstr \<Rightarrow> tab \<Rightarrow> link_status \<times> tab"
where
  "verify_email dp env user_of token t =
     (case call_auth dp env (VerifyEmail token) t of
        (Inr _, t1) \<Rightarrow>
          (LinkSuccess, if isAuthenticated (tab_app t1) then snd (refreshUser dp env user_of t1) else t1)
      | (Inl _, t1) \<Rightarrow>
          if \<not> isAuthenticated (tab_app t1) then (LinkError, t1)
          else (case refreshUser dp env user_of t1 of
                  (Inr refreshed, t2) \<Rightarrow>
                    (if user_email_verified refreshed then LinkSuccess else LinkError, t2)
                | (Inl _, t2) \<Rightarrow> (LinkError, t2)))"

definition verify_effect ::
  "date_parse \<Rightarrow> client_env \<Rightarrow> (json \<Rightarrow> auth_user_response) \<Rightarrow> jstr option \<Rightarrow> link_status \<times> tab \<Rightarrow>
   link_status \<times> tab"
where
  "verify_effect dp env user_of token page =
     (case page of (status, t) \<Rightarrow>
        if \<not> as_bootstrapped (app_auth (tab_app t)) then (status, t)
        else if \<not> truthy token then (LinkError, t)
        else verify_email dp env user_of (the token) t)"

datatype resend_status = ResendIdle | ResendSending | ResendSent | ResendError

definition resend_begin :: "resend_status \<Rightarrow> resend_status option" where
  "resend_begin r = (if r = ResendSending then None else Some ResendSending)"

definition resend_settled :: "api_error + json \<Rightarrow> resend_status" where
  "resend_settled result = (case result of Inl _ \<Rightarrow> ResendError | Inr _ \<Rightarrow> ResendSent)"

definition showResend :: "app_state \<Rightarrow> bool" where
  "showResend s =
     (case as_session (app_auth s) of
        None \<Rightarrow> False
      | Some session \<Rightarrow> \<not> user_email_verified (ses_user session))"

subsection \<open>Confirming the deletion of an account\<close>

definition deletion_confirmed :: "date_parse \<Rightarrow> tab \<Rightarrow> tab" where
  "deletion_confirmed dp t =
     dispatch_tab dp App_reset (on_storage clearSession (streamAbort_abort t))"

definition confirm_deletion ::
  "date_parse \<Rightarrow> client_env \<Rightarrow> jstr option \<Rightarrow> tab \<Rightarrow> link_status \<times> tab"
where
  "confirm_deletion dp env token t =
     (if \<not> truthy token then (LinkError, t)
      else case call_auth dp env (ConfirmAccountDeletion (the token)) t of
             (Inl _, t') \<Rightarrow> (LinkError, t')
           | (Inr _, t') \<Rightarrow> (LinkSuccess, deletion_confirmed dp t'))"

section \<open>The address pattern\<close>

lemma address_char_no_at: "list_all address_char s \<Longrightarrow> 64 \<notin> set s"
  by (auto simp: list_all_iff address_char_def)

lemma email_pattern_correct:
  "email_pattern s \<longleftrightarrow>
     (\<exists>account host tld. s = account @ [64] @ host @ [46] @ tld \<and> account \<noteq> [] \<and> host \<noteq> [] \<and> tld \<noteq> [] \<and>
        list_all address_char (account @ host @ tld))"
    (is "_ \<longleftrightarrow> ?spec")
proof
  assume "email_pattern s"
  then obtain account domain where parts: "split_on 64 s = [account, domain]" "account \<noteq> []"
    "list_all address_char account" "list_all address_char domain"
    and dot: "list_ex (\<lambda>i. domain ! i = 46) [1..<length domain - 1]"
    by (auto simp: email_pattern_def split: list.splits)
  from dot obtain i where i: "1 \<le> i" "i < length domain - 1" "domain ! i = 46"
    by (auto simp: list_ex_iff)
  then have domain: "domain = take i domain @ 46 # drop (Suc i) domain"
    using id_take_nth_drop [of i domain] by simp
  have "s = account @ [64] @ domain" using join_split_on [of 64 s] parts(1) by simp
  moreover have "list_all address_char (take i domain @ drop (Suc i) domain)"
    using parts(4) by (auto simp: list_all_iff dest: in_set_takeD in_set_dropD)
  moreover have "take i domain \<noteq> []" "drop (Suc i) domain \<noteq> []" using i by auto
  ultimately show ?spec
    using parts(2,3) domain
    by (intro exI [of _ account] exI [of _ "take i domain"] exI [of _ "drop (Suc i) domain"]) simp
next
  assume ?spec
  then obtain account host tld where s: "s = account @ [64] @ host @ [46] @ tld" "account \<noteq> []"
    "host \<noteq> []" "tld \<noteq> []" "list_all address_char (account @ host @ tld)" by blast
  have dot: "address_char 46" by (simp add: address_char_def is_space_def)
  with s(5) have domain: "list_all address_char (host @ 46 # tld)" "list_all address_char account"
    by simp_all
  then have "split_on 64 s = [account, host @ 46 # tld]"
    using s(1) by (simp add: split_on_append_sep split_on_id address_char_no_at)
  moreover have "list_ex (\<lambda>i. (host @ 46 # tld) ! i = 46) [1..<length (host @ 46 # tld) - 1]"
    using s(3,4) by (auto simp: list_ex_iff intro!: bexI [of _ "length host"])
      (simp_all add: Suc_leI)
  ultimately show "email_pattern s"
    using s(2) domain by (simp add: email_pattern_def)
qed

section \<open>Properties\<close>

text \<open>What the backend accepts of a sign-in and of a registration.\<close>

definition valid_address :: "jstr \<Rightarrow> bool" where
  "valid_address s \<longleftrightarrow>
     (\<exists>account host tld. s = account @ [64] @ host @ [46] @ tld \<and> account \<noteq> [] \<and> host \<noteq> [] \<and> tld \<noteq> [] \<and>
        (\<forall>c \<in> set (account @ host @ tld). \<not> is_space c \<and> c \<noteq> 64))"

fun acceptable :: "auth_endpoint \<Rightarrow> bool" where
  "acceptable (Register username nickname email password) \<longleftrightarrow>
     length username \<in> {1..50} \<and> length nickname \<in> {1..50} \<and> valid_address email \<and>
     length password \<in> {8..128}"
| "acceptable (Login identifier password) \<longleftrightarrow> identifier \<noteq> [] \<and> length password \<in> {8..128}"
| "acceptable _ \<longleftrightarrow> False"

lemma email_pattern_valid: "email_pattern s = valid_address s"
  by (simp add: email_pattern_correct valid_address_def list_all_iff address_char_def)

lemma validate_iff: "validate f = no_field_errors \<longleftrightarrow> acceptable (form_request f)"
  by (simp add: validate_def form_request_def no_field_errors_def error_unless_def Let_def
      email_pattern_valid password_ok_def)
    (auto simp: Suc_le_eq not_less)

text \<open>
  Only acceptable credentials leave the sign-in screen, and every acceptable form is sent: an
  idle form makes its request, with the errors of the previous attempt cleared, exactly when user
  name, nickname and password are within their lengths and the address has the shape
  \<open>account@host.tld\<close> without white space; otherwise nothing is sent and an error is shown at a
  field. A form that is already submitting does nothing.
\<close>

theorem submitted_credentials_valid:
  "submit_begin True f = (f, None) \<and>
   (if acceptable (form_request f)
    then submit_begin False f = (clear_messages f, Some (form_request f))
    else snd (submit_begin False f) = None \<and>
      af_fieldErrors (fst (submit_begin False f)) \<noteq> no_field_errors)"
  by (simp add: submit_begin_def validate_iff)

text \<open>
  Confirming the deletion of an account ends the session like signing out does, except that the
  drafts of the deleted account stay in the storage.
\<close>

theorem deletion_keeps_drafts:
  "tab_app (deletion_confirmed dp t) = reset_app_state \<and>
   get_item (file_draft_key u c) (tab_storage (deletion_confirmed dp t)) =
     get_item (file_draft_key u c) (tab_storage t) \<and>
   get_item auth_storage_key (tab_storage (deletion_confirmed dp t)) = None"
proof -
  have "file_draft_key u c \<noteq> auth_storage_key"
    using auth_key_no_draft(1) draft_keys_are_drafts(1) by metis
  then show ?thesis
    by (simp add: deletion_confirmed_def rootReducer_reset clearSession_def get_remove_item)
qed

text \<open>
  An aborted request shows nothing in the form, every other failure shows a message or an error at a
  field.
\<close>

theorem failure_is_shown:
  "mapAuthError error mode = empty_error_view \<longleftrightarrow> err_isAbort (toApiError error)"
  by (auto simp: mapAuthError_def empty_error_view_def Let_def)

end
