(* ===== verification/Send_Message.thy ===== *)
theory Send_Message
  imports Run_Stream Api_Endpoints
begin

text \<open>
  Sending a message and regenerating a reply: \<open>useSendMessage\<close> and \<open>useRegenerate\<close>
  (\<open>frontend/src/conversations/\<close>). Each function is cut at its \<open>await\<close>: the part before the
  request, the part after a response, the part after an error.

  The page these parts act on holds the application state, the browser storage, the streams
  started so far (run, conversation, sequence number), which the stream consumer takes over, and
  the calls of \<open>onCommitted\<close> (message, submission), with which \<open>AppShell\<close> registers the committed
  message.
  \<open>crypto.randomUUID\<close> is the argument \<open>clientId\<close>.
\<close>

section \<open>Definitions\<close>

record page =
  pg_app :: app_state
  pg_storage :: storage
  pg_started :: "(jstr \<times> jstr \<times> int) list"
  pg_committed :: "(jstr \<times> jstr) list"

definition dispatch_page :: "date_parse \<Rightarrow> app_action \<Rightarrow> page \<Rightarrow> page" where
  "dispatch_page dp a pg = pg\<lparr>pg_app := rootReducer dp (pg_app pg) a\<rparr>"

definition start_on :: "jstr \<Rightarrow> jstr \<Rightarrow> int \<Rightarrow> page \<Rightarrow> page" where
  "start_on runId conversationId afterSeq pg =
     pg\<lparr>pg_started := pg_started pg @ [(runId, conversationId, afterSeq)]\<rparr>"

definition onCommitted :: "jstr \<Rightarrow> jstr \<Rightarrow> page \<Rightarrow> page" where
  "onCommitted messageId clientSubmissionId pg =
     pg\<lparr>pg_committed := pg_committed pg @ [(messageId, clientSubmissionId)]\<rparr>"

definition show_toast :: "date_parse \<Rightarrow> jstr \<Rightarrow> toast_tone \<Rightarrow> page \<Rightarrow> page" where
  "show_toast dp message tone = dispatch_page dp (UiA (ShowToast message tone))"

subsection \<open>Sending\<close>

text \<open>
  Up to the request: \<open>None\<close> when the call returns false at once, otherwise the page and the
  request. \<open>options\<close> is what \<open>currentRunOptions()\<close> returns.
\<close>

definition send_begin ::
  "date_parse \<Rightarrow> jstr \<Rightarrow> run_options \<Rightarrow> jstr \<Rightarrow> jstr list option \<Rightarrow> file_attachment list \<Rightarrow>
   reply_quote_draft option \<Rightarrow> page \<Rightarrow> (page \<times> conversation_endpoint) option"
where
  "send_begin dp clientId options content attachmentIds optimisticAttachments replyQuote pg =
     (let trimmed = js_trim content; targetId = selected (pg_app pg)
      in if (trimmed = [] \<and> length (nullish attachmentIds []) = 0 \<and> replyQuote = None) \<or>
            app_pendingSubmission (pg_app pg) \<noteq> None
         then None
         else if targetId = None \<and> replyQuote \<noteq> None then None
         else Some (dispatch_page dp (SubmissionA (SubmissionStarted clientId trimmed targetId
                      optimisticAttachments replyQuote)) pg,
                    case targetId of
                      None \<Rightarrow> CreateWithMessage trimmed (Some options) None attachmentIds
                    | Some t \<Rightarrow> SendMessage t trimmed (Some options) attachmentIds
                        (map_option quote_json replyQuote)))"

definition active_run_of :: "run_response \<Rightarrow> conversation_active_run" where
  "active_run_of run = \<lparr>car_id = run_id run, car_status = run_status_of run\<rparr>"

text \<open>After the conversation was created with its first message.\<close>

definition send_created ::
  "date_parse \<Rightarrow> jstr \<Rightarrow> conversation_create_with_message_response \<Rightarrow> page \<Rightarrow> page"
where
  "send_created dp clientId response pg =
     (let convo = ccr_conversation response;
          message = smr_message (ccr_response response);
          run = smr_run (ccr_response response);
          imageContext = smr_image_context (ccr_response response);
          p1 = dispatch_page dp (SubmissionA (SubmissionTargeted (conv_id convo)))
                 (onCommitted (msg_id message) clientId pg);
          p2 = dispatch_page dp (DetailA (DetailLoaded convo [message] imageContext)) p1;
          p3 = dispatch_page dp (IndexA (ConvSelected (Some (conv_id convo)))) p2;
          p4 = dispatch_page dp (IndexA (DraftCreated (conv_id convo))) p3;
          p5 = dispatch_page dp (IndexA (ConvRunStarted convo (active_run_of run)
                 (msg_created_at message))) p4;
          p6 = dispatch_page dp (RunA (Run_started (run_id run) (conv_id convo)
                 (Some (run_provider_name run)))) p5;
          p7 = dispatch_page dp (SubmissionA SubmissionCleared) p6;
          p8 = p7\<lparr>pg_storage := saveSelection (conv_id convo) (pg_storage p7)\<rparr>
      in start_on (run_id run) (conv_id convo) 0 p8)"

text \<open>After a message was added to the conversation \<open>targetId\<close>.\<close>

definition known_conversation :: "jstr \<Rightarrow> app_state \<Rightarrow> conversation_response option" where
  "known_conversation targetId s =
     orelse (find_conv targetId (ci_items (app_conversationIndex s)))
       (case cd_conversation (app_conversationDetail s) of
          None \<Rightarrow> None
        | Some c \<Rightarrow> if conv_id c = targetId then Some c else None)"

definition send_committed ::
  "date_parse \<Rightarrow> jstr \<Rightarrow> jstr \<Rightarrow> send_message_response \<Rightarrow> page \<Rightarrow> page"
where
  "send_committed dp clientId targetId response pg =
     (let message = smr_message response; run = smr_run response;
          p1 = dispatch_page dp (DetailA (MessageAppended message (smr_image_context response)))
                 (onCommitted (msg_id message) clientId pg);
          p2 = (case known_conversation targetId (pg_app p1) of
                  None \<Rightarrow> p1
                | Some conversation \<Rightarrow>
                    dispatch_page dp (IndexA (ConvRunStarted conversation (active_run_of run)
                      (msg_created_at message))) p1);
          p3 = dispatch_page dp (RunA (Run_started (run_id run) targetId
                 (Some (run_provider_name run)))) p2;
          p4 = dispatch_page dp (SubmissionA SubmissionCleared) p3
      in start_on (run_id run) targetId 0 p4)"

definition thrown_code :: "thrown \<Rightarrow> jstr option" where
  "thrown_code e = (case e of ThrownApi x \<Rightarrow> err_code x | _ \<Rightarrow> None)"

definition image_recovery_message :: "thrown \<Rightarrow> jstr option" where
  "image_recovery_message e =
     (if thrown_code e = Some (js ''IMAGE_INPUT_NOT_SUPPORTED'')
      then Some (js ''Switch to a vision model before sending images.'')
      else if thrown_code e = Some (js ''VISION_MODEL_REQUIRED'')
      then Some (js ''This conversation requires a compatible vision model.'')
      else if thrown_code e = Some (js ''LEGACY_IMAGE_CONTEXT'')
      then Some (js ''Upgrade the original image message with a vision model first.'')
      else None)"

definition too_large_text :: jstr where
  "too_large_text =
     js ''The attachments are too large for one message. Remove some text or files and try again.''"

definition is_too_large :: "thrown \<Rightarrow> bool" where
  "is_too_large e = (case e of ThrownApi x \<Rightarrow> err_status x = 413 | _ \<Rightarrow> False)"

definition send_failed :: "date_parse \<Rightarrow> thrown \<Rightarrow> page \<Rightarrow> page" where
  "send_failed dp e pg =
     (let cleared = dispatch_page dp (SubmissionA SubmissionCleared) pg;
          recovery = (case image_recovery_message e of
                        Some m \<Rightarrow> Some m
                      | None \<Rightarrow> if is_too_large e then Some too_large_text else None)
      in show_toast dp (nullish recovery send_failed_text) ToneError cleared)"

subsection \<open>Regenerating\<close>

definition regenerate_begin :: "run_options \<Rightarrow> jstr \<Rightarrow> page \<Rightarrow> conversation_endpoint option" where
  "regenerate_begin options messageId pg =
     map_option (\<lambda>conversationId. Regenerate conversationId messageId (Some options))
       (selected (pg_app pg))"

definition has_inherited_input :: "jstr \<Rightarrow> jstr list option \<Rightarrow> page \<Rightarrow> bool" where
  "has_inherited_input messageId attachmentIds pg =
     (case List.find (\<lambda>m. msg_id m = messageId \<and> msg_role m = User)
             (cd_messages (app_conversationDetail (pg_app pg))) of
        None \<Rightarrow> False
      | Some target \<Rightarrow>
          msg_reply_quote target \<noteq> None \<or>
          (attachmentIds = None \<and>
           list_ex (\<lambda>a. fa_model_input_kind a \<noteq> None) (nullish (msg_attachments target) [])))"

definition edit_begin ::
  "run_options \<Rightarrow> jstr \<Rightarrow> jstr \<Rightarrow> jstr list option \<Rightarrow> page \<Rightarrow> conversation_endpoint option"
where
  "edit_begin options messageId content attachmentIds pg =
     (let trimmed = js_trim content
      in case selected (pg_app pg) of
           None \<Rightarrow> None
         | Some conversationId \<Rightarrow>
             if trimmed = [] \<and> \<not> has_inherited_input messageId attachmentIds pg \<and>
                length (nullish attachmentIds []) = 0
             then None
             else Some (EditAndRegenerate conversationId messageId trimmed (Some options) attachmentIds))"

text \<open>After both the call and the refetch of the conversation.\<close>

definition regenerate_done ::
  "date_parse \<Rightarrow> jstr \<Rightarrow> run_response \<Rightarrow> conversation_detail_response \<Rightarrow> page \<Rightarrow> page"
where
  "regenerate_done dp conversationId started detail pg =
     (let p1 = dispatch_page dp (detail_loaded detail) pg;
          p2 = dispatch_page dp (RunA (Run_started (run_id started) conversationId
                 (Some (run_provider_name started)))) p1
      in start_on (run_id started) conversationId 0 p2)"

definition regenerate_failed :: "date_parse \<Rightarrow> thrown \<Rightarrow> page \<Rightarrow> page" where
  "regenerate_failed dp e = show_toast dp (nullish (image_recovery_message e) operation_failed_text) ToneError"

section \<open>Lemmas\<close>

lemma dispatch_page_simps [simp]:
  "pg_app (dispatch_page dp a pg) = rootReducer dp (pg_app pg) a"
  "pg_storage (dispatch_page dp a pg) = pg_storage pg"
  "pg_started (dispatch_page dp a pg) = pg_started pg"
  "pg_committed (dispatch_page dp a pg) = pg_committed pg"
  by (simp_all add: dispatch_page_def)

lemma start_on_simps [simp]:
  "pg_app (start_on r c n pg) = pg_app pg" "pg_storage (start_on r c n pg) = pg_storage pg"
  "pg_started (start_on r c n pg) = pg_started pg @ [(r, c, n)]"
  "pg_committed (start_on r c n pg) = pg_committed pg"
  by (simp_all add: start_on_def)

lemma onCommitted_simps [simp]:
  "pg_app (onCommitted m c pg) = pg_app pg" "pg_storage (onCommitted m c pg) = pg_storage pg"
  "pg_started (onCommitted m c pg) = pg_started pg"
  "pg_committed (onCommitted m c pg) = pg_committed pg @ [(m, c)]"
  by (simp_all add: onCommitted_def)

section \<open>Properties\<close>

text \<open>
  (C23) One submission at a time: once a message is on its way every further send is refused,
  whatever its content; a send is also refused when there is nothing to send or a reply quote has no
  conversation; and every way the request can end, success or failure, makes sending possible again.
\<close>

theorem one_submission_at_a_time:
  assumes "send_begin dp clientId options content atts files quote pg = Some (pg', req)"
  shows "send_begin dp clientId' options' content' atts' files' quote' pg' = None \<and>
    app_pendingSubmission (pg_app (send_created dp clientId created pg'')) = None \<and>
    app_pendingSubmission (pg_app (send_committed dp clientId targetId response pg'')) = None \<and>
    app_pendingSubmission (pg_app (send_failed dp e pg'')) = None"
proof -
  have "app_pendingSubmission (pg_app pg') \<noteq> None"
    using assms by (auto simp: send_begin_def Let_def split: if_splits)
  moreover have "app_pendingSubmission (pg_app (send_created dp clientId created pg'')) = None"
    by (simp add: send_created_def Let_def initialPendingSubmissionState_def)
  moreover have "app_pendingSubmission (pg_app (send_committed dp clientId targetId response pg'')) = None"
    by (simp add: send_committed_def Let_def initialPendingSubmissionState_def split: option.splits)
  moreover have "app_pendingSubmission (pg_app (send_failed dp e pg'')) = None"
    by (simp add: send_failed_def show_toast_def Let_def initialPendingSubmissionState_def)
  ultimately show ?thesis by (simp add: send_begin_def Let_def)
qed

definition demo_message :: message_response where
  "demo_message = \<lparr>msg_id = js ''m1'', msg_conversation_id = js ''c1'', msg_run_id = Some (js ''r1''),
     msg_role = User, msg_content = js ''hi'', msg_reasoning = None, msg_reasoning_summary = None,
     msg_metadata = None, msg_attachments = None, msg_reply_quote = None, msg_timing = None,
     msg_position = 1, msg_created_at = js ''11''\<rparr>"

definition demo_response :: send_message_response where
  "demo_response = \<lparr>smr_message = demo_message,
     smr_run = \<lparr>run_id = js ''r1'', run_conversation_id = js ''c1'', run_user_message_id = js ''m1'',
       run_status_of = Queued, run_provider_name = js ''p'', run_provider_model = js ''m'',
       run_created_at = js ''11''\<rparr>,
     smr_image_context = None\<rparr>"

definition demo_page :: page where
  "demo_page = \<lparr>pg_app = initialState, pg_storage = [], pg_started = [], pg_committed = []\<rparr>"

definition demo_options :: run_options where
  "demo_options = toRunOptions Low None None"

theorem one_submission_at_a_time_witness:
  "\<exists>pg' req. send_begin demo_dp (js ''s1'') demo_options (js ''hi'') None [] None demo_page = Some (pg', req) \<and>
     send_begin demo_dp (js ''s2'') demo_options (js ''again'') None [] None pg' = None"
proof -
  have "js_trim (js ''hi'') = js ''hi''" by code_simp
  then obtain pg' req where "send_begin demo_dp (js ''s1'') demo_options (js ''hi'') None [] None demo_page = Some (pg', req)"
    by (simp add: send_begin_def demo_page_def initialState_def initialPendingSubmissionState_def Let_def)
  with one_submission_at_a_time [OF this] show ?thesis by blast
qed

text \<open>
  The first message opens its conversation: after the response the new conversation is
  selected and saved as the selection, the thread shows exactly the message, the sidebar has the
  conversation on top with its run in flight and awaits a missing title, the run is the active one,
  its stream is started from the beginning, the submission is registered as committed, and nothing is
  pending.
\<close>

theorem first_message_opens_conversation:
  assumes "find_conv (conv_id (ccr_conversation response))
      (ci_pinnedItems (app_conversationIndex (pg_app pg)) @ ci_items (app_conversationIndex (pg_app pg))) = None"
    and "convo = ccr_conversation response" and "run = smr_run (ccr_response response)"
    and "pg' = send_created dp clientId response pg"
  shows "selected (pg_app pg') = Some (conv_id convo) \<and>
    get_item selection_storage_key (pg_storage pg') = Some (conv_id convo) \<and>
    cd_messages (app_conversationDetail (pg_app pg')) = [smr_message (ccr_response response)] \<and>
    cd_status (app_conversationDetail (pg_app pg')) = DetailReady \<and>
    ci_items (app_conversationIndex (pg_app pg')) =
      convo\<lparr>conv_active_run := Some (active_run_of run),
        conv_updated_at := msg_created_at (smr_message (ccr_response response))\<rparr>
      # filter (\<lambda>c. conv_id c \<noteq> conv_id convo) (ci_items (app_conversationIndex (pg_app pg))) \<and>
    (truthy_trim (conv_title convo) \<or> conv_id convo \<in> set (ci_pendingTitleIds (app_conversationIndex (pg_app pg')))) \<and>
    is_active_run (pg_app pg') (run_id run) \<and>
    pg_started pg' = pg_started pg @ [(run_id run, conv_id convo, 0)] \<and>
    pg_committed pg' = pg_committed pg @ [(msg_id (smr_message (ccr_response response)), clientId)] \<and>
    app_pendingSubmission (pg_app pg') = None"
proof -
  have none: "find_conv (conv_id convo) (ci_pinnedItems (app_conversationIndex (pg_app pg))) = None"
    "find_conv (conv_id convo) (ci_items (app_conversationIndex (pg_app pg))) = None"
    using assms(1,2) by (auto simp: find_None_iff)
  show ?thesis
    unfolding assms(4) send_created_def Let_def
    using none assms(2,3)
    by (simp add: start_run_def Let_def is_active_run_def saveSelection_def get_set_item
        initialPendingSubmissionState_def)
qed

theorem first_message_opens_conversation_witness:
  "selected (pg_app (send_created demo_dp (js ''s1'')
      \<lparr>ccr_conversation = demo_conv ''c1'' None ''1'', ccr_response = demo_response\<rparr> demo_page)) = Some (js ''c1'')"
  using first_message_opens_conversation [OF _ refl refl refl, where pg = demo_page and dp = demo_dp
      and clientId = "js ''s1''"
      and response = "\<lparr>ccr_conversation = demo_conv ''c1'' None ''1'', ccr_response = demo_response\<rparr>"]
  by (simp add: demo_page_def initialState_def initialConversationIndexState_def demo_conv_def)

text \<open>
  A response to a message is written into whatever thread is open when it arrives: if the user
  has moved to another conversation meanwhile, the message of the first conversation is appended to
  the messages of the second, and the first one's run becomes the active run.
\<close>

theorem sent_message_joins_open_thread:
  "cd_messages (app_conversationDetail (pg_app (send_committed dp clientId targetId response pg))) =
     cd_messages (app_conversationDetail (pg_app pg)) @ [smr_message response] \<and>
   cd_conversation (app_conversationDetail (pg_app (send_committed dp clientId targetId response pg))) =
     cd_conversation (app_conversationDetail (pg_app pg)) \<and>
   selected (pg_app (send_committed dp clientId targetId response pg)) = selected (pg_app pg) \<and>
   map_option ar_conversationId (app_activeRun (pg_app (send_committed dp clientId targetId response pg))) = Some targetId"
  by (cases "known_conversation targetId (rootReducer dp (pg_app pg)
        (DetailA (MessageAppended (smr_message response) (smr_image_context response))))")
    (auto simp: send_committed_def Let_def start_run_def split: option.splits)

end
