(* ===== verification/Conversation_Loader.thy ===== *)
theory Conversation_Loader
  imports Send_Message
begin

text \<open>
  The sidebar's operations: \<open>useConversationLoader\<close> (load, page, select, rename, delete),
  \<open>useConversationMarkers\<close> (pin and favourite, optimistic with rollback) and
  \<open>useConversationListSync\<close> (polling), all in \<open>frontend/src/conversations/\<close>, cut at their
  \<open>await\<close>s.

  A callback of a hook closes over the state of the render that created it; where the code reads
  that state rather than \<open>stateRef\<close>, it is the argument \<open>rendered\<close>. \<open>new Date().toISOString()\<close> is
  the argument \<open>now\<close>.
\<close>

section \<open>Definitions\<close>

subsection \<open>Loading the list\<close>

definition load_list_begin :: "date_parse \<Rightarrow> page \<Rightarrow> page" where
  "load_list_begin dp = dispatch_page dp (IndexA ListLoading)"

definition load_list_done ::
  "date_parse \<Rightarrow> conversation_response list \<Rightarrow> conversation_response list \<Rightarrow> page \<Rightarrow> page"
where
  "load_list_done dp items pinned =
     dispatch_page dp (IndexA (ListLoaded items (Some pinned)
       (Some (hasMoreConversationPages (length items)))))"

definition load_list_failed :: "date_parse \<Rightarrow> page \<Rightarrow> page" where
  "load_list_failed dp = dispatch_page dp (IndexA ListError)"

text \<open>
  \<open>loadMore\<close>: with \<open>loadingMoreRef\<close>, the page, and the request when one is made. The later two
  parts reset the flag.
\<close>

definition load_more_begin ::
  "date_parse \<Rightarrow> conversation_index_state \<Rightarrow> bool \<times> page \<Rightarrow> (bool \<times> page) \<times> conversation_endpoint option"
where
  "load_more_begin dp rendered state =
     (let (loadingMore, pg) = state
      in if loadingMore \<or> \<not> ci_hasMore rendered \<or> ci_status rendered = IndexLoading \<or>
            ci_status rendered = IndexLoadingMore
         then (state, None)
         else ((True, dispatch_page dp (IndexA ListLoadingMore) pg),
               Some (ListConversations (Some \<lparr>lp_limit = Some (int conversation_page_size),
                 lp_skip = Some (int (length (ci_items rendered))), lp_view = None\<rparr>))))"

definition load_more_done ::
  "date_parse \<Rightarrow> conversation_response list \<Rightarrow> bool \<times> page \<Rightarrow> bool \<times> page"
where
  "load_more_done dp items state =
     (False, dispatch_page dp (IndexA (ListPageLoaded items (hasMoreConversationPages (length items))))
        (snd state))"

definition load_more_failed :: "date_parse \<Rightarrow> bool \<times> page \<Rightarrow> bool \<times> page" where
  "load_more_failed dp state = (False, dispatch_page dp (IndexA ListError) (snd state))"

subsection \<open>Selecting a conversation\<close>

definition newConversation :: "date_parse \<Rightarrow> page \<Rightarrow> page" where
  "newConversation dp pg =
     (let p1 = dispatch_page dp (RunA Run_cleared) pg;
          p2 = dispatch_page dp (IndexA (ConvSelected None)) p1;
          p3 = dispatch_page dp (DetailA DetailReset) p2;
          p4 = dispatch_page dp (UiA (SetMobileSidebar False)) p3
      in p4\<lparr>pg_storage := clearSelection (pg_storage p4)\<rparr>)"

text \<open>
  Up to the request: the page, and whether the call goes on. \<open>prepared\<close> tells whether the caller
  passed the conversation along.
\<close>

definition select_begin ::
  "date_parse \<Rightarrow> conversation_index_state \<Rightarrow> jstr \<Rightarrow> bool \<Rightarrow> page \<Rightarrow> page \<times> bool"
where
  "select_begin dp rendered i prepared pg =
     (if Some i = ci_selectedId rendered \<and> \<not> prepared
      then (dispatch_page dp (UiA (SetMobileSidebar False)) pg, False)
      else
        let p1 = (if Some i \<noteq> selected (pg_app pg) then dispatch_page dp (RunA Run_cleared) pg else pg);
            p2 = dispatch_page dp (IndexA (ConvSelected (Some i))) p1;
            p3 = dispatch_page dp (DetailA DetailLoading) p2
        in (dispatch_page dp (UiA (SetMobileSidebar False)) p3, True))"

definition select_loaded ::
  "date_parse \<Rightarrow> jstr \<Rightarrow> conversation_detail_response \<Rightarrow> page \<Rightarrow> page"
where
  "select_loaded dp i detail pg =
     (if selected (pg_app pg) \<noteq> Some i then pg
      else
        let p1 = dispatch_page dp (detail_loaded detail) pg
        in p1\<lparr>pg_storage := saveSelection i (pg_storage p1)\<rparr>)"

definition invalid_selection :: "thrown \<Rightarrow> bool" where
  "invalid_selection e =
     (case e of ThrownApi x \<Rightarrow> err_status x \<in> set [403, 404, 422] | _ \<Rightarrow> False)"

definition select_failed :: "date_parse \<Rightarrow> jstr \<Rightarrow> thrown \<Rightarrow> page \<Rightarrow> page" where
  "select_failed dp i e pg =
     (if selected (pg_app pg) \<noteq> Some i then pg
      else
        let p1 = dispatch_page dp (DetailA DetailForbidden) pg
        in if invalid_selection e
           then
             let p2 = dispatch_page dp (IndexA (ConvSelected None)) p1;
                 p3 = show_toast dp invalid_conversation_text ToneWarning p2
             in p3\<lparr>pg_storage := clearSelection (pg_storage p3)\<rparr>
           else p1)"

subsection \<open>Renaming and deleting\<close>

definition rename_begin ::
  "conversation_index_state \<Rightarrow> jstr \<Rightarrow> jstr \<Rightarrow> conversation_endpoint option"
where
  "rename_begin rendered i title =
     (let trimmed = js_trim title;
          current = find_conv i (ci_items rendered @ ci_pinnedItems rendered)
      in if trimmed = [] then None
         else if (case current of None \<Rightarrow> False | Some c \<Rightarrow> conv_title c = Some trimmed) then None
         else Some (RenameConversation i trimmed))"

definition rename_done :: "date_parse \<Rightarrow> conversation_response \<Rightarrow> page \<Rightarrow> page" where
  "rename_done dp conversation = dispatch_page dp (IndexA (ConvRenamed conversation))"

text \<open>After the deletion: the page, and the conversation to select next when there is one.\<close>

definition delete_done ::
  "date_parse \<Rightarrow> conversation_index_state \<Rightarrow> jstr \<Rightarrow> page \<Rightarrow> page \<times> jstr option"
where
  "delete_done dp rendered i pg =
     (let remaining = filter (\<lambda>c. conv_id c \<noteq> i) (ci_pinnedItems rendered @ ci_items rendered);
          p1 = dispatch_page dp (IndexA (ConvRemoved i)) pg;
          p2 = dispatch_page dp (UiA CloseConfirm) p1
      in if ci_selectedId rendered = Some i
         then (case remaining of
                 c # _ \<Rightarrow> (fst (select_begin dp rendered (conv_id c) False p2), Some (conv_id c))
               | [] \<Rightarrow> (newConversation dp p2, None))
         else (p2, None))"

subsection \<open>Pins and favourites\<close>

definition pinned_conversation_limit :: nat where
  "pinned_conversation_limit = 10"

definition find_marked :: "jstr \<Rightarrow> app_state \<Rightarrow> conversation_response option" where
  "find_marked i s =
     orelse (find_conv i (ci_pinnedItems (app_conversationIndex s)))
       (orelse (find_conv i (ci_items (app_conversationIndex s)))
          (case cd_conversation (app_conversationDetail s) of
             None \<Rightarrow> None
           | Some c \<Rightarrow> if conv_id c = i then Some c else None))"

text \<open>
  \<open>togglePin\<close> up to the request: the page, and when a request is made, the row as it was and the new
  state.
\<close>

definition toggle_pin_begin ::
  "date_parse \<Rightarrow> jstr \<Rightarrow> jstr \<Rightarrow> conversation_response option \<Rightarrow> page \<Rightarrow>
   page \<times> (conversation_response \<times> bool) option"
where
  "toggle_pin_begin dp now i fallback pg =
     (case orelse (find_marked i (pg_app pg)) fallback of
        None \<Rightarrow> (pg, None)
      | Some current \<Rightarrow>
          let pinned = (\<not> truthy (conv_pinned_at current))
          in if pinned \<and>
                length (ci_pinnedItems (app_conversationIndex (pg_app pg))) \<ge> pinned_conversation_limit
             then (show_toast dp pin_limit_text ToneWarning pg, None)
             else (dispatch_page dp (IndexA (MarkerChanged
                     (current\<lparr>conv_pinned_at := (if pinned then Some now else None)\<rparr>))) pg,
                   Some (current, pinned)))"

definition toggle_pin_saved :: "date_parse \<Rightarrow> bool \<Rightarrow> conversation_response \<Rightarrow> page \<Rightarrow> page" where
  "toggle_pin_saved dp pinned saved pg =
     show_toast dp (if pinned then pinned_text else unpinned_text) ToneSuccess
       (dispatch_page dp (IndexA (MarkerChanged saved)) pg)"

definition toggle_pin_failed ::
  "date_parse \<Rightarrow> conversation_response \<Rightarrow> thrown \<Rightarrow> page \<Rightarrow> page"
where
  "toggle_pin_failed dp current e pg =
     (let p1 = dispatch_page dp (IndexA (MarkerChanged current)) pg
      in if thrown_code e = Some (js ''PIN_LIMIT_REACHED'')
         then show_toast dp pin_limit_text ToneWarning p1
         else show_toast dp operation_failed_text ToneError p1)"

definition toggle_favorite_begin ::
  "date_parse \<Rightarrow> jstr \<Rightarrow> jstr \<Rightarrow> conversation_response option \<Rightarrow> page \<Rightarrow>
   page \<times> (conversation_response \<times> bool) option"
where
  "toggle_favorite_begin dp now i fallback pg =
     (case orelse (find_marked i (pg_app pg)) fallback of
        None \<Rightarrow> (pg, None)
      | Some current \<Rightarrow>
          let favorited = (\<not> truthy (conv_favorited_at current))
          in (dispatch_page dp (IndexA (MarkerChanged
                (current\<lparr>conv_favorited_at := (if favorited then Some now else None)\<rparr>))) pg,
              Some (current, favorited)))"

definition toggle_favorite_saved :: "date_parse \<Rightarrow> bool \<Rightarrow> conversation_response \<Rightarrow> page \<Rightarrow> page" where
  "toggle_favorite_saved dp favorited saved pg =
     show_toast dp (if favorited then favorited_text else unfavorited_text) ToneSuccess
       (dispatch_page dp (IndexA (MarkerChanged saved)) pg)"

definition toggle_favorite_failed :: "date_parse \<Rightarrow> conversation_response \<Rightarrow> page \<Rightarrow> page" where
  "toggle_favorite_failed dp current pg =
     show_toast dp operation_failed_text ToneError
       (dispatch_page dp (IndexA (MarkerChanged current)) pg)"

subsection \<open>Polling\<close>

text \<open>The interval in milliseconds, \<open>None\<close> when nothing is outstanding.\<close>

definition sync_delay :: "int \<Rightarrow> int \<Rightarrow> app_state \<Rightarrow> int option" where
  "sync_delay titleIntervalMs runIntervalMs s =
     (let index = app_conversationIndex s;
          localRunId = map_option ar_runId (app_activeRun s);
          hasBackgroundRun = list_ex (\<lambda>c. case conv_active_run c of
              None \<Rightarrow> False | Some r \<Rightarrow> Some (car_id r) \<noteq> localRunId)
            (ci_items index @ ci_pinnedItems index)
      in if length (ci_pendingTitleIds index) > 0 then Some titleIntervalMs
         else if hasBackgroundRun then Some runIntervalMs else None)"

text \<open>\<open>pendingSince\<close>: when each pending title was first seen.\<close>

definition track_pending :: "int \<Rightarrow> jstr list \<Rightarrow> (jstr \<times> int) list \<Rightarrow> (jstr \<times> int) list" where
  "track_pending now pendingTitleIds since =
     filter (\<lambda>e. fst e \<in> set pendingTitleIds)
       (foldl (\<lambda>m i. if i \<in> fst ` set m then m else m @ [(i, now)]) since pendingTitleIds)"

text \<open>One tick of the timer: overdue titles are resolved, and a sync is requested unless one is out.\<close>

definition sync_tick ::
  "date_parse \<Rightarrow> int \<Rightarrow> int \<Rightarrow> (jstr \<times> int) list \<Rightarrow> bool \<times> page \<Rightarrow> (bool \<times> page) \<times> bool"
where
  "sync_tick dp titleTimeoutMs now since state =
     (let (inFlight, pg) = state;
          overdue = filter (\<lambda>e. now - snd e \<ge> titleTimeoutMs) since;
          pg' = foldl (\<lambda>p e. dispatch_page dp (IndexA (TitleResolved (fst e))) p) pg overdue
      in ((True, pg'), \<not> inFlight))"

definition sync_done ::
  "date_parse \<Rightarrow> conversation_response list \<Rightarrow> conversation_response list \<Rightarrow> bool \<times> page \<Rightarrow> bool \<times> page"
where
  "sync_done dp items pinned state =
     (let pg = snd state
      in (False,
          if as_session (app_auth (pg_app pg)) = None then pg
          else dispatch_page dp (IndexA (ListSynced items (Some pinned))) pg))"

definition sync_failed :: "bool \<times> page \<Rightarrow> bool \<times> page" where
  "sync_failed state = (False, snd state)"

section \<open>Lemmas\<close>

lemma filter_insert_before: "\<not> q x \<Longrightarrow> filter q (insert_before p x xs) = filter q xs"
  by (induction xs) (auto simp: insert_before_Cons)

lemma length_insert_before [simp]: "length (insert_before p x xs) = Suc (length xs)"
  by (simp add: insert_before_def)

lemma find_conv_insert_before:
  "conv_id x \<notin> set (ids xs) \<Longrightarrow> find_conv (conv_id x) (insert_before p x xs) = Some x"
  by (induction xs) (auto simp: insert_before_Cons)

lemma show_toast_simps [simp]:
  "pg_app (show_toast dp m t pg) = rootReducer dp (pg_app pg) (UiA (ShowToast m t))"
  "pg_storage (show_toast dp m t pg) = pg_storage pg"
  by (simp_all add: show_toast_def)

lemma find_conv_middle:
  "distinct (ids (as @ x # bs)) \<Longrightarrow> find_conv (conv_id x) (as @ x # bs) = Some x"
  using find_by_key [of conv_id "as @ x # bs" x] by simp

lemma find_conv_none: "i \<notin> set (ids xs) \<Longrightarrow> find_conv i xs = None"
  by (auto simp: find_None_iff)

lemma filter_absent: "i \<notin> set (ids xs) \<Longrightarrow> filter (\<lambda>c. conv_id c \<noteq> i) xs = xs"
  by (auto simp: filter_id_conv)

lemma filter_out_middle:
  assumes "distinct (ids (as @ x # bs))"
  shows "filter (\<lambda>c. conv_id c \<noteq> conv_id x) (as @ x # bs) = as @ bs"
  using assms filter_absent [of "conv_id x" as] filter_absent [of "conv_id x" bs] by simp

text \<open>Unpinning a row that is listed, with the row and the sections given.\<close>

lemma applyMarkers_unpin:
  assumes "find_conv (conv_id x) (ci_pinnedItems s) = Some l" and "\<not> truthy (conv_pinned_at x)"
    and "l\<lparr>conv_pinned_at := conv_pinned_at x, conv_favorited_at := conv_favorited_at x\<rparr> = x"
    and "filter (\<lambda>c. conv_id c \<noteq> conv_id x) (ci_pinnedItems s) = ps"
    and "filter (\<lambda>c. conv_id c \<noteq> conv_id x) (ci_items s) = rs"
  shows "applyMarkers dp s x = s\<lparr>ci_pinnedItems := ps, ci_items :=
    (if find_index (\<lambda>c. date_less dp (conv_updated_at c) (conv_updated_at x)) rs = None \<and> ci_hasMore s
     then rs else insert_before (\<lambda>c. date_less dp (conv_updated_at c) (conv_updated_at x)) x rs)\<rparr>"
  using assms by (simp add: applyMarkers_def Let_def)

text \<open>A row of the recent section is pinned and then put back.\<close>

lemma pin_then_restore:
  assumes inv: "index_inv s" and items: "ci_items s = as @ x # bs" and "t \<noteq> []"
    and "\<not> truthy (conv_pinned_at x)"
    and "\<forall>y \<in> set as. \<not> date_less dp (conv_updated_at y) (conv_updated_at x)"
    and "bs = [] \<or> date_less dp (conv_updated_at (hd bs)) (conv_updated_at x)"
  shows "applyMarkers dp (applyMarkers dp s (x\<lparr>conv_pinned_at := Some t\<rparr>)) x =
    s\<lparr>ci_items := (if bs = [] \<and> ci_hasMore s then as else as @ x # bs)\<rparr>"
proof -
  let ?p = "x\<lparr>conv_pinned_at := Some t\<rparr>"
  let ?older = "\<lambda>c. date_less dp (conv_updated_at c) (conv_updated_at x)"
  have dist: "distinct (ids (as @ x # bs))" and apart: "conv_id x \<notin> set (ids (ci_pinnedItems s))"
    using index_invD [OF inv] items by auto
  have row: "marker_row s ?p = ?p"
    using items find_conv_none [OF apart] find_conv_middle [OF dist]
    by (simp add: marker_row_def)
  let ?pins = "insert_before (\<lambda>c. date_less dp (nullish (conv_pinned_at c) []) t) ?p (ci_pinnedItems s)"
  let ?s1 = "s\<lparr>ci_pinnedItems := ?pins, ci_items := as @ bs\<rparr>"
  have s1: "applyMarkers dp s ?p = ?s1"
    using applyMarkers_pin [of ?p dp s] assms(3) row items filter_out_middle [OF dist]
      filter_absent [OF apart] by (simp add: truthy_def)
  have find: "find_conv (conv_id x) ?pins = Some ?p"
    using find_conv_insert_before [of ?p "ci_pinnedItems s"] apart by simp
  have pins: "filter (\<lambda>c. conv_id c \<noteq> conv_id x) ?pins = ci_pinnedItems s"
    using filter_insert_before [of "\<lambda>c. conv_id c \<noteq> conv_id x" ?p] filter_absent [OF apart] by simp
  have rest: "filter (\<lambda>c. conv_id c \<noteq> conv_id x) (as @ bs) = as @ bs"
    using dist by (intro filter_absent) auto
  have restored: "?p\<lparr>conv_pinned_at := conv_pinned_at x, conv_favorited_at := conv_favorited_at x\<rparr> = x"
    by simp
  have none: "find_index ?older (as @ bs) = None \<longleftrightarrow> bs = []"
    using assms(5,6) by (cases bs) (auto simp: find_index_None)
  have before: "insert_before ?older x (as @ bs) = as @ x # bs"
    using assms(5,6) by (rule insert_before_remove)
  have "applyMarkers dp ?s1 x = ?s1\<lparr>ci_pinnedItems := ci_pinnedItems s, ci_items :=
      (if find_index ?older (as @ bs) = None \<and> ci_hasMore ?s1 then as @ bs
       else insert_before ?older x (as @ bs))\<rparr>"
    by (rule applyMarkers_unpin [OF _ assms(4) restored]) (use find pins rest in simp_all)
  then show ?thesis
    unfolding s1 by (auto simp: none before)
qed

section \<open>Properties\<close>





text \<open>
  The client never shows more pins than the limit: toggling a pin from at most ten pinned
  conversations leaves at most ten, refused with a warning when there is no room.
\<close>

theorem pin_limit_respected:
  assumes "length (ci_pinnedItems (app_conversationIndex (pg_app pg))) \<le> 10"
    and "toggle_pin_begin dp now i fallback pg = (pg', outcome)"
  shows "length (ci_pinnedItems (app_conversationIndex (pg_app pg'))) \<le> 10"
proof (cases "orelse (find_marked i (pg_app pg)) fallback")
  case None
  with assms show ?thesis by (simp add: toggle_pin_begin_def)
next
  case (Some current)
  let ?s = "app_conversationIndex (pg_app pg)"
  have shrinks: "length (ci_pinnedItems (applyMarkers dp ?s c)) \<le> length (ci_pinnedItems ?s)"
    if "\<not> truthy (conv_pinned_at c)" for c
    using that by (auto simp: applyMarkers_def Let_def)
  have grows: "length (ci_pinnedItems (applyMarkers dp ?s c)) \<le> Suc (length (ci_pinnedItems ?s))" for c
    by (cases "truthy (conv_pinned_at c)") (use shrinks [of c] in \<open>auto simp: applyMarkers_pin\<close>)
  show ?thesis
    using Some assms shrinks [of "current\<lparr>conv_pinned_at := None\<rparr>"]
      grows [of "current\<lparr>conv_pinned_at := Some now\<rparr>"]
    by (auto simp: toggle_pin_begin_def pinned_conversation_limit_def truthy_def Let_def split: if_splits)
qed

theorem pin_limit_respected_witness:
  "length (ci_pinnedItems (app_conversationIndex (pg_app (fst
     (toggle_pin_begin demo_dp (js ''11'') (js ''a'') (Some (demo_conv ''a'' None ''1'')) demo_page))))) \<le> 10"
  using pin_limit_respected [OF _ prod.collapse [symmetric], of demo_page demo_dp "js ''11''" "js ''a''"
      "Some (demo_conv ''a'' None ''1'')"]
  by (simp add: demo_page_def initialState_def initialConversationIndexState_def)

text \<open>
  Deleting a conversation removes it everywhere: from both sections, from the unread marks and
  from the selection; when it was the open one, the first remaining conversation is opened, or a
  blank one when none is left.
\<close>

theorem delete_leaves_no_trace:
  assumes "rendered = app_conversationIndex (pg_app pg)"
    and "delete_done dp rendered i pg = (pg', next)"
  shows "i \<notin> set (ids (ci_items (app_conversationIndex (pg_app pg')) @
      ci_pinnedItems (app_conversationIndex (pg_app pg')))) \<and>
    i \<notin> set (ci_unreadIds (app_conversationIndex (pg_app pg'))) \<and>
    selected (pg_app pg') \<noteq> Some i \<and>
    (ci_selectedId rendered = Some i \<longrightarrow> selected (pg_app pg') = next \<and>
       next = map_option conv_id (List.find (\<lambda>c. conv_id c \<noteq> i)
         (ci_pinnedItems rendered @ ci_items rendered)))"
proof -
  let ?rest = "filter (\<lambda>c. conv_id c \<noteq> i) (ci_pinnedItems rendered @ ci_items rendered)"
  have find: "List.find P xs = (case filter P xs of [] \<Rightarrow> None | x # _ \<Rightarrow> Some x)"
    for P and xs :: "conversation_response list"
    by (induction xs) auto
  show ?thesis
  proof (cases "ci_selectedId rendered = Some i")
    case False
    with assms show ?thesis by (auto simp: delete_done_def Let_def)
  next
    case sel: True
    show ?thesis
    proof (cases ?rest)
      case Nil
      with sel assms show ?thesis
        by (auto simp: delete_done_def newConversation_def find Let_def)
    next
      case (Cons c cs)
      then have "conv_id c \<noteq> i"
        using Cons_eq_filterD [of c cs "\<lambda>c. conv_id c \<noteq> i"] by metis
      with Cons sel assms show ?thesis
        by (auto simp: delete_done_def select_begin_def find Let_def)
    qed
  qed
qed

theorem delete_leaves_no_trace_witness:
  "selected (pg_app (fst (delete_done demo_dp (initialConversationIndexState
      \<lparr>ci_items := [demo_conv ''a'' None ''11'', demo_conv ''b'' None ''1''], ci_selectedId := Some (js ''a'')\<rparr>)
      (js ''a'') (demo_page\<lparr>pg_app := initialState\<lparr>app_conversationIndex := initialConversationIndexState
      \<lparr>ci_items := [demo_conv ''a'' None ''11'', demo_conv ''b'' None ''1''],
       ci_selectedId := Some (js ''a'')\<rparr>\<rparr>\<rparr>)))) = Some (js ''b'')"
proof -
  let ?index = "initialConversationIndexState\<lparr>ci_items := [demo_conv ''a'' None ''11'',
      demo_conv ''b'' None ''1''], ci_selectedId := Some (js ''a'')\<rparr>"
  let ?pg = "demo_page\<lparr>pg_app := initialState\<lparr>app_conversationIndex := ?index\<rparr>\<rparr>"
  have "?index = app_conversationIndex (pg_app ?pg)" by simp
  from delete_leaves_no_trace [OF this prod.collapse [symmetric], where dp = demo_dp and i = "js ''a''"] show ?thesis
    by (simp add: initialConversationIndexState_def demo_conv_def)
qed

end
