(* ===== verification/App_Shell.thy ===== *)
theory App_Shell
  imports Conversation_Loader Attachments
begin

text \<open>
  The chat page: the values that \<open>AppShell\<close> (\<open>frontend/src/app/AppShell.tsx\<close>) derives from the
  state, the submission guard of \<open>Composer\<close> (\<open>frontend/src/ui/Composer.tsx\<close>), and the handlers that
  put the send hook, the attachment hook, the draft stores and the composer together.

  The shell's own state is its \<open>useState\<close> and \<open>useRef\<close> variables. Browser storage is that of the page;
  the attachment hook is handed it for each of its operations and hands it back. A handler closes
  over the values of the render it was created in (\<open>rendered\<close>), and acts on the state at the time it
  runs.
\<close>

section \<open>Definitions\<close>

subsection \<open>State\<close>

record shell =
  sh_page :: page
  sh_uploads :: uploads
  sh_composerValue :: jstr
  sh_models :: "chat_model_capability list"
  sh_modelId :: "jstr option"
  sh_fileCapability :: "files_capability option"
  sh_sentPreviews :: "(jstr \<times> jstr) list"
  sh_revoked :: "jstr list"
  sh_animateComposer :: bool

abbreviation sh_app :: "shell \<Rightarrow> app_state" where
  "sh_app sh \<equiv> pg_app (sh_page sh)"

abbreviation sh_storage :: "shell \<Rightarrow> storage" where
  "sh_storage sh \<equiv> pg_storage (sh_page sh)"

abbreviation sh_quote :: "shell \<Rightarrow> reply_quote_draft option" where
  "sh_quote sh \<equiv> comp_replyQuote (app_composer (sh_app sh))"

definition current_user :: "shell \<Rightarrow> auth_user_response option" where
  "current_user sh = map_option ses_user (as_session (app_auth (sh_app sh)))"

text \<open>\<open>user.id\<close> as it enters a storage key.\<close>

definition user_key :: "shell \<Rightarrow> jstr option" where
  "user_key sh = map_option (\<lambda>u. int_string (user_id u)) (current_user sh)"

definition selectedModel :: "shell \<Rightarrow> chat_model_capability option" where
  "selectedModel sh = find_model (sh_modelId sh) (sh_models sh)"

definition shell_scope :: "shell \<Rightarrow> upload_scope" where
  "shell_scope sh = \<lparr>us_userId = user_key sh, us_conversationId = selected (sh_app sh)\<rparr>"

definition on_page :: "(page \<Rightarrow> page) \<Rightarrow> shell \<Rightarrow> shell" where
  "on_page f sh = sh\<lparr>sh_page := f (sh_page sh)\<rparr>"

text \<open>
  An operation of the attachment hook, with the callbacks it was given: \<open>onError\<close> shows a toast,
  \<open>onRestoredContent\<close> sets the composer's text.
\<close>

definition on_uploads :: "date_parse \<Rightarrow> (uploads \<Rightarrow> uploads) \<Rightarrow> shell \<Rightarrow> shell" where
  "on_uploads dp f sh =
     (let u = f ((sh_uploads sh)\<lparr>ul_storage := sh_storage sh, ul_restored := [], ul_errors := []\<rparr>);
          pg = (sh_page sh)\<lparr>pg_storage := ul_storage u\<rparr>
      in sh\<lparr>sh_uploads := u,
            sh_page := fold (\<lambda>message. show_toast dp message ToneError) (ul_errors u) pg,
            sh_composerValue :=
              (if ul_restored u = [] then sh_composerValue sh else last (ul_restored u))\<rparr>)"

definition store_quotes :: "(storage \<Rightarrow> storage) \<Rightarrow> shell \<Rightarrow> shell" where
  "store_quotes f = on_page (\<lambda>pg. pg\<lparr>pg_storage := f (pg_storage pg)\<rparr>)"

subsection \<open>Derived values\<close>

datatype composer_mode = ComposerIdle | ComposerSubmitting | ComposerStreaming | ComposerStopping

definition run_in_flight :: "run_status \<Rightarrow> bool" where
  "run_in_flight s \<longleftrightarrow> s = Queued \<or> s = Started \<or> s = Streaming"

definition composerState :: "app_state \<Rightarrow> composer_mode" where
  "composerState s =
     (if app_pendingSubmission s \<noteq> None then ComposerSubmitting
      else (case app_activeRun s of
              None \<Rightarrow> ComposerIdle
            | Some r \<Rightarrow>
                if Some (ar_conversationId r) \<noteq> selected s then ComposerIdle
                else if ar_status r = Cancelling then ComposerStopping
                else if run_in_flight (ar_status r) then ComposerStreaming
                else ComposerIdle))"

datatype row_status = RowUnread | RowRunning

text \<open>The assignments to the record \<open>status\<close>, in their order.\<close>

definition rowStatus :: "app_state \<Rightarrow> jstr \<rightharpoonup> row_status" where
  "rowStatus s =
     (let idx = app_conversationIndex s;
          m1 = fold (\<lambda>i m. m(i \<mapsto> RowUnread)) (ci_unreadIds idx) Map.empty;
          m2 = fold (\<lambda>c m. if conv_active_run c \<noteq> None then m(conv_id c \<mapsto> RowRunning) else m)
                 (ci_pinnedItems idx @ ci_items idx) m1;
          m3 = (case app_activeRun s of
                  Some r \<Rightarrow> if run_in_flight (ar_status r) \<or> ar_status r = Cancelling
                    then m2(ar_conversationId r \<mapsto> RowRunning) else m2
                | None \<Rightarrow> m2)
      in case app_pendingSubmission s of
           Some p \<Rightarrow> if truthy (ps_conversationId p) then m3(the (ps_conversationId p) \<mapsto> RowRunning) else m3
         | None \<Rightarrow> m3)"

definition visiblePendingSubmission :: "app_state \<Rightarrow> pending_submission option" where
  "visiblePendingSubmission s =
     (case app_pendingSubmission s of
        Some p \<Rightarrow> if ps_conversationId p = selected s then Some p else None
      | None \<Rightarrow> None)"

definition shown_quote :: "reply_quote_draft \<Rightarrow> reply_quote" where
  "shown_quote q = \<lparr>rq_source_message_id = Some (rqd_source_message_id q), rq_excerpt = rqd_excerpt q,
     rq_source_anchor = rqd_source_anchor q\<rparr>"

definition pendingMessage :: "app_state \<Rightarrow> message_response option" where
  "pendingMessage s =
     map_option (\<lambda>p.
       \<lparr>msg_id = ps_clientId p, msg_conversation_id = nullish (ps_conversationId p) [],
        msg_run_id = None, msg_role = User, msg_content = ps_content p, msg_reasoning = None,
        msg_reasoning_summary = None, msg_metadata = None, msg_attachments = Some (ps_attachments p),
        msg_reply_quote = map_option shown_quote (ps_replyQuote p), msg_timing = None,
        msg_position = (let messages = cd_messages (app_conversationDetail s)
           in (if messages = [] then 0 else msg_position (last messages)) + 1),
        msg_created_at = []\<rparr>) (visiblePendingSubmission s)"

definition showWelcome :: "app_state \<Rightarrow> bool" where
  "showWelcome s \<longleftrightarrow> (selected s = None \<or> cd_messages (app_conversationDetail s) = []) \<and>
     app_activeRun s = None \<and> pendingMessage s = None"

definition mutateDisabledReason :: "app_state \<Rightarrow> jstr option" where
  "mutateDisabledReason s =
     (if composerState s = ComposerSubmitting then Some wait_for_sending_text
      else if composerState s \<noteq> ComposerIdle then Some stop_generating_first_text
      else None)"

definition vision_required :: "shell \<Rightarrow> bool" where
  "vision_required sh \<longleftrightarrow> ic_state (cd_imageContext (app_conversationDetail (sh_app sh))) = VisionRequired"

definition visionUnavailable :: "shell \<Rightarrow> bool" where
  "visionUnavailable sh \<longleftrightarrow> vision_required sh \<and>
     resolveForImageContext (sh_models sh) (Some (cd_imageContext (app_conversationDetail (sh_app sh))))
       (sh_storage sh) = None"

definition visionMutationBlocked :: "shell \<Rightarrow> bool" where
  "visionMutationBlocked sh \<longleftrightarrow> vision_required sh \<and>
     (visionUnavailable sh \<or> \<not> supports_image_input (selectedModel sh))"

definition mutationDisabledReason :: "shell \<Rightarrow> jstr option" where
  "mutationDisabledReason sh =
     orelse (mutateDisabledReason (sh_app sh))
       (if visionMutationBlocked sh then Some (js ''This conversation requires a compatible vision model.'')
        else None)"

definition readyImagesAllowed :: "shell \<Rightarrow> bool" where
  "readyImagesAllowed sh \<longleftrightarrow> \<not> hasReadyImageAttachment (sh_uploads sh) \<or>
     supports_image_input (selectedModel sh)"

definition over_limit_text :: jstr where
  "over_limit_text = js ''Messages can be at most '' @ formatCount message_char_limit @
     js '' characters. Convert the text to an attachment to send it.''"

definition sendDisabledReason :: "shell \<Rightarrow> jstr option" where
  "sendDisabledReason sh =
     (let u = sh_uploads sh
      in if countChars (sh_composerValue sh) > message_char_limit then Some over_limit_text
         else if hasPendingAttachments u
           then Some (js ''Wait until every attachment is ready before sending.'')
         else if hasFailedAttachments u
           then Some (js ''Remove or retry failed attachments before sending.'')
         else if visionMutationBlocked sh
           then Some (if visionUnavailable sh
                      then js ''No compatible vision model is currently available.''
                      else js ''This conversation requires a compatible vision model.'')
         else if \<not> readyImagesAllowed sh then Some (js ''Select a vision model before sending images.'')
         else if js_trim (sh_composerValue sh) = [] \<and> sh_quote sh = None \<and> ul_attachments u \<noteq> [] \<and>
                 \<not> hasModelConsumableAttachment (selectedModel sh) u
           then Some (js ''Add text or a readable document. Images alone cannot be sent.'')
         else None)"

definition canSend :: "shell \<Rightarrow> bool" where
  "canSend sh \<longleftrightarrow> composerState (sh_app sh) = ComposerIdle \<and> sendDisabledReason sh = None \<and>
     (js_trim (sh_composerValue sh) \<noteq> [] \<or> sh_quote sh \<noteq> None \<or>
      hasModelConsumableAttachment (selectedModel sh) (sh_uploads sh) \<and> readyImagesAllowed sh)"

text \<open>\<open>send\<close> of the composer calls \<open>onSend\<close> under this condition.\<close>

definition composer_submits :: "shell \<Rightarrow> bool" where
  "composer_submits sh \<longleftrightarrow> \<not> visionMutationBlocked sh \<and> canSend sh \<and>
     composerState (sh_app sh) = ComposerIdle"

subsection \<open>The composer and its draft\<close>

definition onComposerValueChange ::
  "date_parse \<Rightarrow> (attachment_draft \<Rightarrow> jstr) \<Rightarrow> upload_scope \<Rightarrow> jstr \<Rightarrow> shell \<Rightarrow> shell"
where
  "onComposerValueChange dp stringify sc v sh =
     on_uploads dp (setDraftContent stringify sc v) (sh\<lparr>sh_composerValue := v\<rparr>)"

text \<open>\<open>user && selectedId\<close>: the scope of a stored quote.\<close>

definition quote_scope :: "shell \<Rightarrow> (jstr \<times> jstr) option" where
  "quote_scope rendered =
     (case (user_key rendered, selected (sh_app rendered)) of
        (Some u, Some c) \<Rightarrow> if c \<noteq> [] then Some (u, c) else None
      | _ \<Rightarrow> None)"

definition clear_quote_draft :: "shell \<Rightarrow> shell \<Rightarrow> shell" where
  "clear_quote_draft rendered sh =
     (case quote_scope rendered of
        Some (u, c) \<Rightarrow> store_quotes (clear_reply_quote u (Some c)) sh
      | None \<Rightarrow> sh)"

definition write_quote_draft ::
  "(json \<Rightarrow> jstr) \<Rightarrow> shell \<Rightarrow> reply_quote_draft \<Rightarrow> shell \<Rightarrow> shell"
where
  "write_quote_draft stringify_quote rendered q sh =
     (case quote_scope rendered of
        Some (u, c) \<Rightarrow> store_quotes (write_reply_quote stringify_quote u (Some c) (Some q)) sh
      | None \<Rightarrow> sh)"

text \<open>Quoting a reply, removing the quote, and the effect that restores it with the selection.\<close>

definition onReplyQuote ::
  "date_parse \<Rightarrow> (json \<Rightarrow> jstr) \<Rightarrow> shell \<Rightarrow> reply_quote_draft \<Rightarrow> shell \<Rightarrow> shell"
where
  "onReplyQuote dp stringify_quote rendered q sh =
     (if quote_scope rendered = None then sh
      else write_quote_draft stringify_quote rendered q
             (on_page (dispatch_page dp (ComposerA (ReplyQuoteSet q))) sh))"

definition onRemoveReplyQuote :: "date_parse \<Rightarrow> shell \<Rightarrow> shell \<Rightarrow> shell" where
  "onRemoveReplyQuote dp rendered sh =
     clear_quote_draft rendered (on_page (dispatch_page dp (ComposerA ReplyQuoteCleared)) sh)"

definition restore_quote_effect ::
  "date_parse \<Rightarrow> (jstr \<Rightarrow> json option) \<Rightarrow> (json \<Rightarrow> jstr) \<Rightarrow> shell \<Rightarrow> shell \<Rightarrow> shell"
where
  "restore_quote_effect dp parse stringify_quote rendered sh =
     (case user_key rendered of
        None \<Rightarrow> sh
      | Some u \<Rightarrow>
          let sh1 = store_quotes (clear_other_reply_quotes u) sh;
              (restored, st) = read_reply_quote parse stringify_quote u (selected (sh_app rendered)) (sh_storage sh1)
          in on_page (dispatch_page dp (ComposerA (ReplyQuoteRestored restored)))
               (store_quotes (\<lambda>_. st) sh1))"

definition quote_lost_text :: jstr where
  "quote_lost_text = js ''The quoted reply is no longer available.''"

text \<open>The effect that drops a quote whose source is no longer in the thread.\<close>

definition quote_source_visible :: "reply_quote_draft \<Rightarrow> app_state \<Rightarrow> bool" where
  "quote_source_visible q s =
     list_ex (\<lambda>m. msg_id m = rqd_source_message_id q \<and> msg_role m = Assistant)
       (cd_messages (app_conversationDetail s))"

definition check_quote_effect :: "date_parse \<Rightarrow> shell \<Rightarrow> shell \<Rightarrow> shell" where
  "check_quote_effect dp rendered sh =
     (let s = sh_app rendered
      in case sh_quote rendered of
           None \<Rightarrow> sh
         | Some q \<Rightarrow>
             if quote_scope rendered = None \<or>
                cd_status (app_conversationDetail s) \<noteq> DetailReady \<or>
                map_option conv_id (cd_conversation (app_conversationDetail s)) \<noteq> selected s \<or>
                quote_source_visible q s
             then sh
             else on_page (show_toast dp quote_lost_text ToneError)
                    (clear_quote_draft rendered
                       (on_page (dispatch_page dp (ComposerA ReplyQuoteCleared)) sh)))"

subsection \<open>Sending\<close>

text \<open>The early return of \<open>onSend\<close>.\<close>

definition send_refused :: "shell \<Rightarrow> bool" where
  "send_refused rendered \<longleftrightarrow>
     (js_trim (sh_composerValue rendered) = [] \<and> sh_quote rendered = None \<and>
      (\<not> hasModelConsumableAttachment (selectedModel rendered) (sh_uploads rendered) \<or>
       \<not> readyImagesAllowed rendered)) \<or>
     hasPendingAttachments (sh_uploads rendered) \<or> hasFailedAttachments (sh_uploads rendered) \<or>
     app_pendingSubmission (sh_app rendered) \<noteq> None"

text \<open>\<open>sentImagePreviewUrlsRef\<close> takes over the detached object URLs.\<close>

definition keep_sent_preview :: "detached_preview \<Rightarrow> shell \<Rightarrow> shell" where
  "keep_sent_preview preview sh =
     (let previousUrl = map_of (sh_sentPreviews sh) (dp_fileId preview);
          revoked = (if truthy previousUrl \<and> previousUrl \<noteq> Some (dp_url preview)
                     then sh_revoked sh @ [the previousUrl] else sh_revoked sh)
      in sh\<lparr>sh_revoked := revoked,
            sh_sentPreviews := AList.update (dp_fileId preview) (dp_url preview) (sh_sentPreviews sh)\<rparr>)"

definition give_back_sent_preview :: "detached_preview \<Rightarrow> shell \<Rightarrow> shell" where
  "give_back_sent_preview preview sh =
     (if map_of (sh_sentPreviews sh) (dp_fileId preview) \<noteq> Some (dp_url preview) then sh
      else sh\<lparr>sh_sentPreviews := AList.delete (dp_fileId preview) (sh_sentPreviews sh)\<rparr>)"

definition releaseSentImagePreview :: "jstr \<Rightarrow> shell \<Rightarrow> shell" where
  "releaseSentImagePreview fileId sh =
     (let url = map_of (sh_sentPreviews sh) fileId
      in if \<not> truthy url then sh
         else sh\<lparr>sh_sentPreviews := AList.delete fileId (sh_sentPreviews sh),
                 sh_revoked := sh_revoked sh @ [the url]\<rparr>)"

definition unmount_sent_previews :: "shell \<Rightarrow> shell" where
  "unmount_sent_previews sh =
     sh\<lparr>sh_revoked := sh_revoked sh @ map snd (sh_sentPreviews sh), sh_sentPreviews := []\<rparr>"

definition ready_ids :: "shell \<Rightarrow> jstr list option" where
  "ready_ids rendered =
     (let i = readyAttachmentIds (sh_uploads rendered) in if i \<noteq> [] then Some i else None)"

definition optimisticAttachments :: "shell \<Rightarrow> file_attachment list" where
  "optimisticAttachments rendered =
     filter (\<lambda>f. fa_id f \<in> set (nullish (ready_ids rendered) []))
       (List.map_filter da_file (ul_attachments (sh_uploads rendered)))"

text \<open>What the continuation of \<open>send\<close> closes over; the request is \<open>None\<close> when \<open>send\<close> returned false at once.\<close>

record send_attempt =
  sa_text :: jstr
  sa_quote :: "reply_quote_draft option"
  sa_detached :: "detached_preview list"
  sa_request :: "conversation_endpoint option"

definition reset_composer ::
  "date_parse \<Rightarrow> (attachment_draft \<Rightarrow> jstr) \<Rightarrow> shell \<Rightarrow> shell \<Rightarrow> shell"
where
  "reset_composer dp stringify rendered sh =
     (let sh1 = (if selected (sh_app rendered) = None \<or>
                    cd_messages (app_conversationDetail (sh_app rendered)) = []
                 then sh\<lparr>sh_animateComposer := True\<rparr> else sh);
          sh2 = onComposerValueChange dp stringify (shell_scope rendered) [] sh1
      in clear_quote_draft rendered (on_page (dispatch_page dp (ComposerA ReplyQuoteCleared)) sh2))"

definition prepare_send ::
  "date_parse \<Rightarrow> (attachment_draft \<Rightarrow> jstr) \<Rightarrow> shell \<Rightarrow> shell \<Rightarrow> shell \<times> detached_preview list"
where
  "prepare_send dp stringify rendered sh =
     (let sh4 = reset_composer dp stringify rendered sh;
          (u, detached) = detachImagePreviews (nullish (ready_ids rendered) []) (sh_uploads sh4)
      in (fold keep_sent_preview detached (sh4\<lparr>sh_uploads := u\<rparr>), detached))"

definition onSend ::
  "date_parse \<Rightarrow> (attachment_draft \<Rightarrow> jstr) \<Rightarrow> jstr \<Rightarrow> run_options \<Rightarrow> shell \<Rightarrow> shell \<Rightarrow>
   (shell \<times> send_attempt) option"
where
  "onSend dp stringify clientId options rendered sh =
     (if send_refused rendered then None
      else
        let text = sh_composerValue rendered; q = sh_quote rendered;
            (sh5, detached) = prepare_send dp stringify rendered sh;
            attempt = \<lparr>sa_text = text, sa_quote = q, sa_detached = detached, sa_request = None\<rparr>
        in case send_begin dp clientId options text (ready_ids rendered) (optimisticAttachments rendered)
                  q (sh_page sh5) of
             None \<Rightarrow> Some (sh5, attempt)
           | Some (pg, req) \<Rightarrow> Some (sh5\<lparr>sh_page := pg\<rparr>, attempt\<lparr>sa_request := Some req\<rparr>))"

text \<open>The continuation, once \<open>send\<close> has resolved to \<open>sent\<close>.\<close>

definition restore_text ::
  "date_parse \<Rightarrow> (attachment_draft \<Rightarrow> jstr) \<Rightarrow> shell \<Rightarrow> jstr \<Rightarrow> shell \<Rightarrow> shell"
where
  "restore_text dp stringify rendered text sh =
     onComposerValueChange dp stringify (shell_scope rendered)
       (if sh_composerValue sh = [] then text else sh_composerValue sh) sh"

definition restore_quote ::
  "date_parse \<Rightarrow> (json \<Rightarrow> jstr) \<Rightarrow> shell \<Rightarrow> reply_quote_draft option \<Rightarrow> shell \<Rightarrow> shell"
where
  "restore_quote dp stringify_quote rendered submitted sh =
     (case submitted of
        Some q \<Rightarrow>
          if sh_quote sh = None \<and> quote_scope rendered \<noteq> None
          then write_quote_draft stringify_quote rendered q
                 (on_page (dispatch_page dp (ComposerA (ReplyQuoteRestored (Some q)))) sh)
          else sh
      | None \<Rightarrow> sh)"

definition send_settled ::
  "date_parse \<Rightarrow> (attachment_draft \<Rightarrow> jstr) \<Rightarrow> (json \<Rightarrow> jstr) \<Rightarrow> shell \<Rightarrow> send_attempt \<Rightarrow> bool \<Rightarrow>
   shell \<Rightarrow> shell"
where
  "send_settled dp stringify stringify_quote rendered attempt sent sh =
     (let sh1 = (if \<not> sent \<and> app_pendingSubmission (sh_app sh) = None
                 then restore_quote dp stringify_quote rendered (sa_quote attempt)
                        (restore_text dp stringify rendered (sa_text attempt) sh)
                 else sh)
      in if sent then on_uploads dp (clear_uploads (shell_scope rendered)) sh1
         else if sa_detached attempt = [] then sh1
         else fold give_back_sent_preview (sa_detached attempt)
                (on_uploads dp (restoreImagePreviews (sa_detached attempt)) sh1))"

subsection \<open>Pasting\<close>

text \<open>The size of a \<open>File\<close> made from a string: its UTF-8 bytes; a lone surrogate becomes three.\<close>

fun utf8_size :: "jstr \<Rightarrow> nat" where
  "utf8_size [] = 0"
| "utf8_size (c # s) =
     (case s of
        d # s' \<Rightarrow> if high_surrogate c \<and> low_surrogate d then 4 + utf8_size s'
                  else (if c < 0x80 then 1 else if c < 0x800 then 2 else 3) + utf8_size s
      | [] \<Rightarrow> if c < 0x80 then 1 else if c < 0x800 then 2 else 3)"

definition createPastedTextFile :: "jstr \<Rightarrow> draft_attachment list \<Rightarrow> source_file" where
  "createPastedTextFile text attachments =
     \<lparr>sf_name = next_paste_name attachments, sf_type = js ''text/plain'',
      sf_size = int (utf8_size text), sf_pasted = Some text\<rparr>"

definition may_create :: "shell \<Rightarrow> bool" where
  "may_create sh = (case current_user sh of None \<Rightarrow> False | Some u \<Rightarrow> user_email_verified u)"

definition add_pasted ::
  "date_parse \<Rightarrow> (jstr \<Rightarrow> jstr) \<Rightarrow> (attachment_draft \<Rightarrow> jstr) \<Rightarrow> bool \<Rightarrow> jstr \<Rightarrow> jstr \<Rightarrow> shell \<Rightarrow> shell \<times> add_files_result"
where
  "add_pasted dp lower stringify quiet clientId text sh =
     (let file = createPastedTextFile text (ul_attachments (sh_uploads sh));
          run = addFiles lower stringify (shell_scope sh) (sh_fileCapability sh) (selectedModel sh)
                  (may_create sh) quiet (Some Paste) [(clientId, None)] [file]
      in (on_uploads dp (\<lambda>u. fst (run u)) sh, snd (run (sh_uploads sh))))"

text \<open>The result tells whether the browser's own insertion is prevented.\<close>

definition onPasteText ::
  "date_parse \<Rightarrow> (jstr \<Rightarrow> jstr) \<Rightarrow> (attachment_draft \<Rightarrow> jstr) \<Rightarrow> jstr \<Rightarrow> jstr \<Rightarrow> shell \<Rightarrow> shell \<times> bool"
where
  "onPasteText dp lower stringify clientId text sh =
     (if \<not> shouldConvertPaste text then (sh, False)
      else
        let (sh1, result) = add_pasted dp lower stringify True clientId text sh;
            blocker = nullish (af_error result) (js ''File uploads are currently unavailable.'')
        in if length (af_accepted result) > 0 then (sh1, True)
           else if countChars (sh_composerValue sh) + countChars text \<le> message_char_limit
           then (on_page (show_toast dp (blocker @ js '' The text was pasted inline.'') ToneWarning) sh1, False)
           else (on_page (show_toast dp (blocker @ js '' The text exceeds the message length limit.'')
                   ToneError) sh1, True))"

definition convertPromptToAttachment ::
  "date_parse \<Rightarrow> (jstr \<Rightarrow> jstr) \<Rightarrow> (attachment_draft \<Rightarrow> jstr) \<Rightarrow> jstr \<Rightarrow> shell \<Rightarrow> shell"
where
  "convertPromptToAttachment dp lower stringify clientId sh =
     (let (sh1, result) = add_pasted dp lower stringify False clientId (sh_composerValue sh) sh
      in if length (af_accepted result) > 0
         then onComposerValueChange dp stringify (shell_scope sh) [] sh1 else sh1)"

text \<open>\<open>onExpand\<close> once the attachment is cancelled.\<close>

definition expand_pasted ::
  "date_parse \<Rightarrow> (attachment_draft \<Rightarrow> jstr) \<Rightarrow> jstr \<Rightarrow> shell \<Rightarrow> shell \<Rightarrow> shell"
where
  "expand_pasted dp stringify text rendered sh =
     onComposerValueChange dp stringify (shell_scope rendered)
       (if sh_composerValue sh \<noteq> [] then sh_composerValue sh @ [10, 10] @ text else text) sh"

section \<open>Lemmas on the shell\<close>

lemma on_page_simps [simp]:
  "sh_page (on_page f sh) = f (sh_page sh)" "sh_uploads (on_page f sh) = sh_uploads sh"
  "sh_composerValue (on_page f sh) = sh_composerValue sh" "sh_models (on_page f sh) = sh_models sh"
  "sh_modelId (on_page f sh) = sh_modelId sh" "sh_sentPreviews (on_page f sh) = sh_sentPreviews sh"
  by (simp_all add: on_page_def)

lemma page_dispatch_simps [simp]:
  "pg_app (dispatch_page dp a pg) = rootReducer dp (pg_app pg) a"
  "pg_storage (dispatch_page dp a pg) = pg_storage pg"
  by (simp_all add: dispatch_page_def)

lemma page_toast_simps [simp]:
  "pg_app (show_toast dp m t pg) = rootReducer dp (pg_app pg) (UiA (ShowToast m t))"
  "pg_storage (show_toast dp m t pg) = pg_storage pg"
  by (simp_all add: show_toast_def)

text \<open>An operation of the hook that reports nothing leaves the page but for the storage.\<close>

lemma on_uploads_silent:
  assumes "\<And>u. ul_errors (f u) = ul_errors u" and "\<And>u. ul_restored (f u) = ul_restored u"
  shows "sh_app (on_uploads dp f sh) = sh_app sh"
    and "sh_composerValue (on_uploads dp f sh) = sh_composerValue sh"
    and "sh_storage (on_uploads dp f sh) = ul_storage (sh_uploads (on_uploads dp f sh))"
    and "sh_sentPreviews (on_uploads dp f sh) = sh_sentPreviews sh"
    and "sh_models (on_uploads dp f sh) = sh_models sh" and "sh_modelId (on_uploads dp f sh) = sh_modelId sh"
    and "sh_uploads (on_uploads dp f sh) =
      f ((sh_uploads sh)\<lparr>ul_storage := sh_storage sh, ul_restored := [], ul_errors := []\<rparr>)"
  by (simp_all add: on_uploads_def assms Let_def)

lemma setDraftContent_simps [simp]:
  "ul_errors (setDraftContent stringify sc v u) = ul_errors u"
  "ul_restored (setDraftContent stringify sc v u) = ul_restored u"
  "ul_attachments (setDraftContent stringify sc v u) = ul_attachments u"
  "ul_previews (setDraftContent stringify sc v u) = ul_previews u"
  "ul_revoked (setDraftContent stringify sc v u) = ul_revoked u"
  "ul_content (setDraftContent stringify sc v u) = v"
  by (simp_all add: setDraftContent_def persist_def split: option.splits)

lemma clear_uploads_silent [simp]:
  "ul_errors (clear_uploads sc u) = ul_errors u" "ul_restored (clear_uploads sc u) = ul_restored u"
  by (simp_all add: clear_uploads_def release_all_def Let_def split: option.splits)

lemmas value_change_silent = on_uploads_silent [of "setDraftContent stringify sc v" for stringify sc v,
    OF setDraftContent_simps(1,2)]

lemma value_change_simps [simp]:
  "sh_app (onComposerValueChange dp stringify sc v sh) = sh_app sh"
  "sh_composerValue (onComposerValueChange dp stringify sc v sh) = v"
  "sh_sentPreviews (onComposerValueChange dp stringify sc v sh) = sh_sentPreviews sh"
  "ul_attachments (sh_uploads (onComposerValueChange dp stringify sc v sh)) = ul_attachments (sh_uploads sh)"
  "ul_previews (sh_uploads (onComposerValueChange dp stringify sc v sh)) = ul_previews (sh_uploads sh)"
  "ul_revoked (sh_uploads (onComposerValueChange dp stringify sc v sh)) = ul_revoked (sh_uploads sh)"
  "ul_content (sh_uploads (onComposerValueChange dp stringify sc v sh)) = v"
  by (simp_all add: onComposerValueChange_def value_change_silent)

definition stored_draft :: "(attachment_draft \<Rightarrow> jstr) \<Rightarrow> attachment_draft \<Rightarrow> jstr option" where
  "stored_draft stringify d =
     (if ad_content d = [] \<and> ad_attachments d = [] then None else Some (stringify (serializable_draft d)))"

lemma get_write_file_draft:
  "get_item (file_draft_key u c) (write_file_draft stringify u c d st) = stored_draft stringify d"
  by (simp add: write_file_draft_def stored_draft_def get_set_item get_remove_item Let_def)

lemma value_change_storage:
  "us_userId sc = Some u \<Longrightarrow>
     get_item (file_draft_key u (us_conversationId sc))
       (sh_storage (onComposerValueChange dp stringify sc v sh)) =
     stored_draft stringify \<lparr>ad_content = v, ad_attachments = ul_attachments (sh_uploads sh)\<rparr>"
  by (simp add: onComposerValueChange_def value_change_silent setDraftContent_def persist_def
      get_write_file_draft)

lemma quote_key_apart: "reply_quote_key u d \<noteq> file_draft_key v c"
proof
  assume "reply_quote_key u d = file_draft_key v c"
  then have "file_draft_key v c = (reply_quote_prefix @ js '':'') @ u @ js '':'' @ d"
    by (simp add: reply_quote_key_def)
  then show False using prefixes_apart(1) [of v c] starts_with_append by metis
qed

lemma store_quotes_simps [simp]:
  "sh_app (store_quotes f sh) = sh_app sh" "sh_uploads (store_quotes f sh) = sh_uploads sh"
  "sh_composerValue (store_quotes f sh) = sh_composerValue sh"
  "sh_storage (store_quotes f sh) = f (sh_storage sh)"
  "sh_sentPreviews (store_quotes f sh) = sh_sentPreviews sh"
  by (simp_all add: store_quotes_def)

lemma quote_draft_simps [simp]:
  "sh_app (clear_quote_draft rendered sh) = sh_app sh"
  "sh_uploads (clear_quote_draft rendered sh) = sh_uploads sh"
  "sh_composerValue (clear_quote_draft rendered sh) = sh_composerValue sh"
  "sh_app (write_quote_draft sq rendered q sh) = sh_app sh"
  "sh_uploads (write_quote_draft sq rendered q sh) = sh_uploads sh"
  "sh_composerValue (write_quote_draft sq rendered q sh) = sh_composerValue sh"
  by (simp_all add: clear_quote_draft_def write_quote_draft_def split: option.splits prod.splits)

lemma quote_draft_storage [simp]:
  "get_item (file_draft_key u c) (sh_storage (clear_quote_draft rendered sh)) =
     get_item (file_draft_key u c) (sh_storage sh)"
  "get_item (file_draft_key u c) (sh_storage (write_quote_draft sq rendered q sh)) =
     get_item (file_draft_key u c) (sh_storage sh)"
  using quote_key_apart [THEN not_sym]
  by (simp_all add: clear_quote_draft_def write_quote_draft_def clear_reply_quote_def
      write_reply_quote_def get_set_item get_remove_item Let_def split: option.splits prod.splits)

lemma keep_sent_simps [simp]:
  "sh_page (fold keep_sent_preview ps sh) = sh_page sh"
  "sh_uploads (fold keep_sent_preview ps sh) = sh_uploads sh"
  "sh_composerValue (fold keep_sent_preview ps sh) = sh_composerValue sh"
  by (induction ps arbitrary: sh) (simp_all add: keep_sent_preview_def Let_def)

lemma give_back_simps [simp]:
  "sh_page (fold give_back_sent_preview ps sh) = sh_page sh"
  "sh_uploads (fold give_back_sent_preview ps sh) = sh_uploads sh"
  "sh_composerValue (fold give_back_sent_preview ps sh) = sh_composerValue sh"
  by (induction ps arbitrary: sh) (simp_all add: give_back_sent_preview_def)

subsection \<open>Previews come back\<close>

definition detached_from :: "draft_attachment list \<Rightarrow> (jstr \<rightharpoonup> jstr) \<Rightarrow> detached_preview \<Rightarrow> bool" where
  "detached_from as m d \<longleftrightarrow> m (dp_clientId d) = Some (dp_url d) \<and>
     (\<exists>a \<in> set as. da_client_id a = dp_clientId d \<and> map_option fa_id (da_file a) = Some (dp_fileId d))"

lemma same_but_previewsD:
  "ul_previews_update (\<lambda>_. []) u = ul_previews_update (\<lambda>_. []) v \<Longrightarrow>
     ul_attachments u = ul_attachments v \<and> ul_revoked u = ul_revoked v \<and> ul_content u = ul_content v \<and>
     ul_storage u = ul_storage v"
  by (cases u; cases v) simp

lemma detach_fold:
  "\<exists>ds. snd (fold (detach_one i) as (st, acc)) = acc @ ds \<and>
     (\<forall>d \<in> set ds. detached_from as (map_of (ul_previews st)) d) \<and>
     (\<forall>k. k \<notin> dp_clientId ` set ds \<longrightarrow>
        map_of (ul_previews (fst (fold (detach_one i) as (st, acc)))) k = map_of (ul_previews st) k) \<and>
     ul_previews_update (\<lambda>_. []) (fst (fold (detach_one i) as (st, acc))) = ul_previews_update (\<lambda>_. []) st"
proof (induction as arbitrary: st acc)
  case Nil
  then show ?case by simp
next
  case (Cons a as)
  obtain st1 acc1 where step: "detach_one i a (st, acc) = (st1, acc1)" by (cases "detach_one i a (st, acc)")
  then consider (same) "st1 = st" "acc1 = acc"
    | (out) f u where "da_file a = Some f" "map_of (ul_previews st) (da_client_id a) = Some u"
        "st1 = st\<lparr>ul_previews := AList.delete (da_client_id a) (ul_previews st)\<rparr>"
        "acc1 = acc @ [\<lparr>dp_clientId = da_client_id a, dp_fileId = fa_id f, dp_url = u\<rparr>]"
    by (fastforce simp: detach_one_def truthy_def Let_def split: if_splits option.splits)
  then show ?case
  proof cases
    case same
    with Cons.IH [of st acc] step show ?thesis by (fastforce simp: detached_from_def)
  next
    case out
    let ?d = "\<lparr>dp_clientId = da_client_id a, dp_fileId = fa_id f, dp_url = u\<rparr>"
    from Cons.IH [of st1 acc1] obtain ds where ds:
      "snd (fold (detach_one i) as (st1, acc1)) = acc1 @ ds"
      "\<forall>d \<in> set ds. detached_from as (map_of (ul_previews st1)) d"
      "\<forall>k. k \<notin> dp_clientId ` set ds \<longrightarrow>
         map_of (ul_previews (fst (fold (detach_one i) as (st1, acc1)))) k = map_of (ul_previews st1) k"
      "ul_previews_update (\<lambda>_. []) (fst (fold (detach_one i) as (st1, acc1))) =
         ul_previews_update (\<lambda>_. []) st1" by blast
    have m: "map_of (ul_previews st1) k = (if k = da_client_id a then None else map_of (ul_previews st) k)" for k
      using out(3) by (simp add: delete_conv')
    show ?thesis
    proof (intro exI [of _ "?d # ds"] conjI)
      show "snd (fold (detach_one i) (a # as) (st, acc)) = acc @ ?d # ds"
        using ds(1) out(4) step by simp
      show "\<forall>d \<in> set (?d # ds). detached_from (a # as) (map_of (ul_previews st)) d"
        using ds(2) out(1,2) m by (auto simp: detached_from_def split: if_splits)
      show "\<forall>k. k \<notin> dp_clientId ` set (?d # ds) \<longrightarrow>
          map_of (ul_previews (fst (fold (detach_one i) (a # as) (st, acc)))) k = map_of (ul_previews st) k"
        using ds(3) m step by simp
      show "ul_previews_update (\<lambda>_. []) (fst (fold (detach_one i) (a # as) (st, acc))) =
          ul_previews_update (\<lambda>_. []) st"
        using ds(4) out(3) step by simp
    qed
  qed
qed

text \<open>Each attachment with a preview shows that preview.\<close>

definition previews_match :: "uploads \<Rightarrow> bool" where
  "previews_match u \<longleftrightarrow>
     (\<forall>a \<in> set (ul_attachments u). \<forall>url. map_of (ul_previews u) (da_client_id a) = Some url \<longrightarrow>
        da_local_preview_url a = Some url)"

lemma restore_fold:
  assumes "\<forall>d \<in> set ds. detached_from (ul_attachments u) m d"
    and "\<forall>a \<in> set (ul_attachments u). \<forall>url. m (da_client_id a) = Some url \<longrightarrow> da_local_preview_url a = Some url"
    and "\<forall>k. k \<notin> dp_clientId ` set ds \<longrightarrow> map_of (ul_previews u) k = m k"
  shows "map_of (ul_previews (restoreImagePreviews ds u)) = m \<and>
    ul_previews_update (\<lambda>_. []) (restoreImagePreviews ds u) = ul_previews_update (\<lambda>_. []) u"
  using assms unfolding restoreImagePreviews_def
proof (induction ds arbitrary: u)
  case Nil
  then show ?case by auto
next
  case (Cons d ds)
  let ?u = "u\<lparr>ul_previews := AList.update (dp_clientId d) (dp_url d) (ul_previews u)\<rparr>"
  from Cons.prems(1) have md: "m (dp_clientId d) = Some (dp_url d)" by (simp add: detached_from_def)
  have "restore_one d u = ?u"
    using Cons.prems(1,2) by (fastforce simp: restore_one_def detached_from_def list_ex_iff)
  moreover have "map_of (ul_previews (fold restore_one ds ?u)) = m \<and>
      ul_previews_update (\<lambda>_. []) (fold restore_one ds ?u) = ul_previews_update (\<lambda>_. []) ?u"
    using Cons.prems md by (intro Cons.IH) (auto simp: update_conv')
  ultimately show ?case by simp
qed

lemma detach_then_restore:
  assumes "detachImagePreviews i u = (u', ds)" and "previews_match u"
    and "ul_attachments v = ul_attachments u'" and "ul_previews v = ul_previews u'"
  shows "map_of (ul_previews (restoreImagePreviews ds v)) = map_of (ul_previews u)"
    and "ul_revoked (restoreImagePreviews ds v) = ul_revoked v"
    and "ul_attachments (restoreImagePreviews ds v) = ul_attachments v"
proof -
  from assms(1) have fold: "fst (fold (detach_one i) (ul_attachments u) (u, [])) = u'"
    "snd (fold (detach_one i) (ul_attachments u) (u, [])) = ds"
    by (simp_all add: detachImagePreviews_def)
  obtain es where "ds = es" and es: "\<forall>d \<in> set es. detached_from (ul_attachments u) (map_of (ul_previews u)) d"
    "\<forall>k. k \<notin> dp_clientId ` set es \<longrightarrow> map_of (ul_previews u') k = map_of (ul_previews u) k"
    "ul_previews_update (\<lambda>_. []) u' = ul_previews_update (\<lambda>_. []) u"
    using detach_fold [of i "ul_attachments u" u "[]"] fold by auto
  have same: "ul_attachments u' = ul_attachments u" using same_but_previewsD [OF es(3)] by simp
  have r: "map_of (ul_previews (restoreImagePreviews ds v)) = map_of (ul_previews u) \<and>
      ul_previews_update (\<lambda>_. []) (restoreImagePreviews ds v) = ul_previews_update (\<lambda>_. []) v"
    using es assms(2-4) same \<open>ds = es\<close>
    by (intro restore_fold) (simp_all add: previews_match_def)
  then show "map_of (ul_previews (restoreImagePreviews ds v)) = map_of (ul_previews u)" by simp
  from r show "ul_revoked (restoreImagePreviews ds v) = ul_revoked v"
    "ul_attachments (restoreImagePreviews ds v) = ul_attachments v"
    by (auto dest: same_but_previewsD)
qed

lemma restore_silent [simp]:
  "ul_errors (restoreImagePreviews ds u) = ul_errors u"
  "ul_restored (restoreImagePreviews ds u) = ul_restored u"
  "ul_storage (restoreImagePreviews ds u) = ul_storage u"
  "ul_content (restoreImagePreviews ds u) = ul_content u"
  unfolding restoreImagePreviews_def
  by (induction ds arbitrary: u) (simp_all add: restore_one_def)

lemma detach_silent [simp]:
  "ul_attachments (fst (detachImagePreviews i u)) = ul_attachments u"
  "ul_revoked (fst (detachImagePreviews i u)) = ul_revoked u"
  "ul_content (fst (detachImagePreviews i u)) = ul_content u"
  "ul_storage (fst (detachImagePreviews i u)) = ul_storage u"
proof -
  obtain v ds where v: "detachImagePreviews i u = (v, ds)" by (cases "detachImagePreviews i u")
  then have "ul_previews_update (\<lambda>_. []) v = ul_previews_update (\<lambda>_. []) u"
    using detach_fold [of i "ul_attachments u" u "[]"] by (auto simp: detachImagePreviews_def)
  then show "ul_attachments (fst (detachImagePreviews i u)) = ul_attachments u"
    "ul_revoked (fst (detachImagePreviews i u)) = ul_revoked u"
    "ul_content (fst (detachImagePreviews i u)) = ul_content u"
    "ul_storage (fst (detachImagePreviews i u)) = ul_storage u"
    using v by (auto dest: same_but_previewsD)
qed

subsection \<open>The parts of a send\<close>

lemma reset_composer_parts [simp]:
  "sh_app (reset_composer dp stringify rendered sh) = rootReducer dp (sh_app sh) (ComposerA ReplyQuoteCleared)"
  "sh_composerValue (reset_composer dp stringify rendered sh) = []"
  "ul_attachments (sh_uploads (reset_composer dp stringify rendered sh)) = ul_attachments (sh_uploads sh)"
  "ul_revoked (sh_uploads (reset_composer dp stringify rendered sh)) = ul_revoked (sh_uploads sh)"
  "ul_previews (sh_uploads (reset_composer dp stringify rendered sh)) = ul_previews (sh_uploads sh)"
  by (simp_all add: reset_composer_def Let_def)

lemma prepare_send_parts:
  assumes "prepare_send dp stringify rendered sh = (sh5, detached)"
  shows "sh_app sh5 = rootReducer dp (sh_app sh) (ComposerA ReplyQuoteCleared)"
    and "sh_composerValue sh5 = []"
    and "ul_attachments (sh_uploads sh5) = ul_attachments (sh_uploads sh)"
    and "ul_revoked (sh_uploads sh5) = ul_revoked (sh_uploads sh)"
    and "\<exists>u. detachImagePreviews (nullish (ready_ids rendered) []) u = (sh_uploads sh5, detached) \<and>
      ul_attachments u = ul_attachments (sh_uploads sh) \<and> ul_previews u = ul_previews (sh_uploads sh)"
proof -
  let ?sh4 = "reset_composer dp stringify rendered sh"
  let ?d = "detachImagePreviews (nullish (ready_ids rendered) []) (sh_uploads ?sh4)"
  have sh5: "sh5 = fold keep_sent_preview detached (?sh4\<lparr>sh_uploads := fst ?d\<rparr>)" "detached = snd ?d"
    using assms by (auto simp: prepare_send_def Let_def split: prod.splits)
  then show "sh_app sh5 = rootReducer dp (sh_app sh) (ComposerA ReplyQuoteCleared)"
    "sh_composerValue sh5 = []" "ul_attachments (sh_uploads sh5) = ul_attachments (sh_uploads sh)"
    "ul_revoked (sh_uploads sh5) = ul_revoked (sh_uploads sh)"
    by simp_all
  show "\<exists>u. detachImagePreviews (nullish (ready_ids rendered) []) u = (sh_uploads sh5, detached) \<and>
      ul_attachments u = ul_attachments (sh_uploads sh) \<and> ul_previews u = ul_previews (sh_uploads sh)"
    by (rule exI [of _ "sh_uploads ?sh4"]) (simp add: sh5)
qed

lemma send_failed_app:
  "pg_app (send_failed dp e pg) =
     dispatch_all dp (pg_app pg) [SubmissionA SubmissionCleared,
       UiA (ShowToast (nullish (case image_recovery_message e of
            Some m \<Rightarrow> Some m | None \<Rightarrow> if is_too_large e then Some too_large_text else None) send_failed_text) ToneError)]"
  "pg_storage (send_failed dp e pg) = pg_storage pg"
  by (simp_all add: send_failed_def Let_def)

lemma restore_quote_parts:
  "sh_uploads (restore_quote dp sq rendered q sh) = sh_uploads sh"
  "sh_composerValue (restore_quote dp sq rendered q sh) = sh_composerValue sh"
  "app_pendingSubmission (sh_app (restore_quote dp sq rendered q sh)) = app_pendingSubmission (sh_app sh)"
  "get_item (file_draft_key u c) (sh_storage (restore_quote dp sq rendered q sh)) =
     get_item (file_draft_key u c) (sh_storage sh)"
  "sh_quote sh = None \<Longrightarrow> (q \<noteq> None \<longrightarrow> quote_scope rendered \<noteq> None) \<Longrightarrow>
     sh_quote (restore_quote dp sq rendered q sh) = q"
  by (auto simp: restore_quote_def split: option.splits)

lemma on_restore_parts:
  "sh_app (on_uploads dp (restoreImagePreviews ds) sh) = sh_app sh"
  "sh_composerValue (on_uploads dp (restoreImagePreviews ds) sh) = sh_composerValue sh"
  "sh_storage (on_uploads dp (restoreImagePreviews ds) sh) = sh_storage sh"
  "ul_content (sh_uploads (on_uploads dp (restoreImagePreviews ds) sh)) = ul_content (sh_uploads sh)"
  by (simp_all add: on_uploads_silent)

lemma settled_failed_parts:
  fixes dp stringify sq rendered attempt sh sh'
  assumes "app_pendingSubmission (sh_app sh) = None"
    and "sh' = send_settled dp stringify sq rendered attempt False sh"
  shows "sh_composerValue sh' = (if sh_composerValue sh = [] then sa_text attempt else sh_composerValue sh)"
    and "sh_app sh' = sh_app (restore_quote dp sq rendered (sa_quote attempt)
          (restore_text dp stringify rendered (sa_text attempt) sh))"
    and "ul_content (sh_uploads sh') = sh_composerValue sh'"
    and "get_item (file_draft_key u c) (sh_storage sh') =
      get_item (file_draft_key u c) (sh_storage (restore_text dp stringify rendered (sa_text attempt) sh))"
    and "\<exists>v. sh_uploads sh' = restoreImagePreviews (sa_detached attempt) v \<and>
      ul_attachments v = ul_attachments (sh_uploads sh) \<and> ul_previews v = ul_previews (sh_uploads sh) \<and>
      ul_revoked v = ul_revoked (sh_uploads sh)"
proof -
  let ?sh1 = "restore_quote dp sq rendered (sa_quote attempt)
      (restore_text dp stringify rendered (sa_text attempt) sh)"
  have sh': "sh' = (if sa_detached attempt = [] then ?sh1
      else fold give_back_sent_preview (sa_detached attempt)
        (on_uploads dp (restoreImagePreviews (sa_detached attempt)) ?sh1))"
    using assms by (simp add: send_settled_def)
  show "sh_composerValue sh' = (if sh_composerValue sh = [] then sa_text attempt else sh_composerValue sh)"
    "sh_app sh' = sh_app ?sh1" "ul_content (sh_uploads sh') = sh_composerValue sh'"
    "get_item (file_draft_key u c) (sh_storage sh') =
      get_item (file_draft_key u c) (sh_storage (restore_text dp stringify rendered (sa_text attempt) sh))"
    unfolding sh' by (simp_all add: on_restore_parts restore_quote_parts restore_text_def)
  have "sh_uploads sh' = restoreImagePreviews (sa_detached attempt)
      (if sa_detached attempt = [] then sh_uploads ?sh1
       else (sh_uploads ?sh1)\<lparr>ul_storage := sh_storage ?sh1, ul_restored := [], ul_errors := []\<rparr>)"
    unfolding sh' by (simp add: on_uploads_silent) (simp add: restoreImagePreviews_def)
  then show "\<exists>v. sh_uploads sh' = restoreImagePreviews (sa_detached attempt) v \<and>
      ul_attachments v = ul_attachments (sh_uploads sh) \<and> ul_previews v = ul_previews (sh_uploads sh) \<and>
      ul_revoked v = ul_revoked (sh_uploads sh)"
    by (intro exI conjI, assumption) (simp_all add: restore_quote_parts restore_text_def)
qed

subsection \<open>What a send requests\<close>

lemma onSend_requests:
  assumes "\<not> send_refused sh"
    and "js_trim (sh_composerValue sh) \<noteq> [] \<or> sh_quote sh \<noteq> None \<or> ready_ids sh \<noteq> None"
    and "sh_quote sh \<noteq> None \<longrightarrow> selected (sh_app sh) \<noteq> None"
  shows "\<exists>sh' attempt req. onSend dp stringify clientId options sh sh = Some (sh', attempt) \<and>
      sa_request attempt = Some req \<and>
      req = (case selected (sh_app sh) of
        None \<Rightarrow> CreateWithMessage (js_trim (sh_composerValue sh)) (Some options) None (ready_ids sh)
      | Some c \<Rightarrow> SendMessage c (js_trim (sh_composerValue sh)) (Some options) (ready_ids sh)
          (map_option quote_json (sh_quote sh))) \<and>
      app_pendingSubmission (sh_app sh') = Some \<lparr>ps_clientId = clientId,
        ps_content = js_trim (sh_composerValue sh), ps_conversationId = selected (sh_app sh),
        ps_attachments = optimisticAttachments sh, ps_replyQuote = sh_quote sh\<rparr>"
proof -
  have idle: "app_pendingSubmission (sh_app sh) = None" using assms(1) by (simp add: send_refused_def)
  obtain sh5 detached where prep: "prepare_send dp stringify sh sh = (sh5, detached)"
    by (cases "prepare_send dp stringify sh sh")
  note parts = prepare_send_parts [OF prep]
  have some_ids: "length (nullish (ready_ids sh) []) = 0 \<longleftrightarrow> ready_ids sh = None"
    by (auto simp: ready_ids_def Let_def)
  let ?started = "SubmissionA (SubmissionStarted clientId (js_trim (sh_composerValue sh))
      (selected (sh_app sh)) (optimisticAttachments sh) (sh_quote sh))"
  let ?req = "case selected (sh_app sh) of
        None \<Rightarrow> CreateWithMessage (js_trim (sh_composerValue sh)) (Some options) None (ready_ids sh)
      | Some c \<Rightarrow> SendMessage c (js_trim (sh_composerValue sh)) (Some options) (ready_ids sh)
          (map_option quote_json (sh_quote sh))"
  have started: "send_begin dp clientId options (sh_composerValue sh) (ready_ids sh)
      (optimisticAttachments sh) (sh_quote sh) (sh_page sh5) =
      Some (dispatch_page dp ?started (sh_page sh5), ?req)"
    using assms(2,3) idle some_ids parts(1) by (auto simp: send_begin_def Let_def)
  have "onSend dp stringify clientId options sh sh =
      Some (sh5\<lparr>sh_page := dispatch_page dp ?started (sh_page sh5)\<rparr>,
        \<lparr>sa_text = sh_composerValue sh, sa_quote = sh_quote sh, sa_detached = detached,
          sa_request = Some ?req\<rparr>)"
    using assms(1) prep started by (simp add: onSend_def Let_def)
  then show ?thesis by simp
qed

section \<open>Pasting\<close>

lemma persist_more [simp]:
  "ul_pasted (persist stringify sc xs u) = ul_pasted u" "ul_restored (persist stringify sc xs u) = ul_restored u"
  by (simp_all add: persist_def split: option.splits)

lemma commit_more [simp]:
  "ul_pasted (commit stringify sc f u) = ul_pasted u" "ul_restored (commit stringify sc f u) = ul_restored u"
  by (simp_all add: commit_def Let_def)

lemma commit_append:
  "ul_attachments (commit stringify sc (\<lambda>current. current @ [a]) u) = ul_attachments u @ [a]"
  by (auto simp: commit_def sameAttachmentList_def Let_def dest: list_all2_lengthD)

lemma start_pasted:
  assumes "sf_pasted file = Some text"
  shows "ul_attachments (start_file_begin lower stringify sc c None file origin u) =
      ul_attachments u @ [initial_draft lower c None file (nullish origin Upload)]"
    and "ul_pasted (start_file_begin lower stringify sc c None file origin u) = (ul_pasted u)(c \<mapsto> text)"
    and "ul_errors (start_file_begin lower stringify sc c None file origin u) = ul_errors u"
    and "ul_restored (start_file_begin lower stringify sc c None file origin u) = ul_restored u"
  using assms
  by (simp_all add: start_file_begin_def commit_append adoptPastedText_def rememberPastedText_def
      truthy_def Let_def)

lemma accept_one:
  "fst (accept_files lower cap n [] used [file]) = [] \<or> fst (accept_files lower cap n [] used [file]) = [file]"
  by (simp add: Let_def)

lemma choose_one:
  "af_accepted (choose_files lower cap model ok quiet [file] u) = [] \<or>
   af_accepted (choose_files lower cap model ok quiet [file] u) = [file]"
proof (cases "if ok then cap else None")
  case None
  then show ?thesis by (simp add: choose_files_def rejected_files_def)
next
  case (Some c)
  obtain kept messages where one: "accept_files lower c (length (ul_attachments u)) []
      (sum_list (map da_size_bytes (ul_attachments u))) [file] = (kept, messages)" by fastforce
  then have "kept = [] \<or> kept = [file]" by (metis accept_one fst_conv)
  with one Some show ?thesis by (simp add: choose_files_def rejected_files_def del: accept_files.simps)
qed

lemma choose_cong:
  assumes "ul_attachments u = ul_attachments v"
  shows "choose_files lower cap model ok quiet files u = choose_files lower cap model ok quiet files v"
  unfolding choose_files_def assms ..

text \<open>What adding a pasted text does, whether it is taken or not.\<close>

lemma add_pasted_parts:
  assumes "add_pasted dp lower stringify True c text sh = (sh1, result)"
  shows "af_accepted result \<noteq> [] \<Longrightarrow>
      ul_attachments (sh_uploads sh1) = ul_attachments (sh_uploads sh) @ [initial_draft lower c None
        (createPastedTextFile text (ul_attachments (sh_uploads sh))) Paste] \<and>
      ul_pasted (sh_uploads sh1) c = Some text"
    and "af_accepted result = [] \<Longrightarrow> ul_attachments (sh_uploads sh1) = ul_attachments (sh_uploads sh)"
    and "sh_composerValue sh1 = sh_composerValue sh"
proof -
  let ?file = "createPastedTextFile text (ul_attachments (sh_uploads sh))"
  let ?u = "(sh_uploads sh)\<lparr>ul_storage := sh_storage sh, ul_restored := [], ul_errors := []\<rparr>"
  let ?choose = "choose_files lower (sh_fileCapability sh) (selectedModel sh) (may_create sh) True [?file]"
  have pasted: "sf_pasted ?file = Some text" by (simp add: createPastedTextFile_def)
  have result: "result = ?choose (sh_uploads sh)" and same: "?choose ?u = ?choose (sh_uploads sh)"
    using assms by (auto simp: add_pasted_def addFiles_def Let_def intro: choose_cong)
  have quiet: "af_reported (?choose v) = []" for v
    by (auto simp: choose_files_def rejected_files_def split: option.splits prod.splits)
  have sh1: "sh_uploads sh1 = fold (\<lambda>((c, url), f). start_file_begin lower stringify (shell_scope sh) c url f (Some Paste))
        (zip [(c, None)] (af_accepted result)) ?u"
    "sh_composerValue sh1 = (if ul_restored (sh_uploads sh1) = [] then sh_composerValue sh
       else last (ul_restored (sh_uploads sh1)))"
    using assms quiet same result by (auto simp: add_pasted_def addFiles_def on_uploads_def Let_def)
  have cases: "af_accepted result = [] \<or> af_accepted result = [?file]"
    unfolding result by (rule choose_one)
  then show "af_accepted result \<noteq> [] \<Longrightarrow>
      ul_attachments (sh_uploads sh1) = ul_attachments (sh_uploads sh) @ [initial_draft lower c None ?file Paste] \<and>
      ul_pasted (sh_uploads sh1) c = Some text"
    "af_accepted result = [] \<Longrightarrow> ul_attachments (sh_uploads sh1) = ul_attachments (sh_uploads sh)"
    using sh1(1) by (auto simp: start_pasted [OF pasted])
  from cases have "ul_restored (sh_uploads sh1) = []"
    using sh1(1) by (auto simp: start_pasted [OF pasted])
  with sh1(2) show "sh_composerValue sh1 = sh_composerValue sh" by simp
qed

section \<open>Rows\<close>

lemma fold_unread:
  "fold (\<lambda>i m. m(i \<mapsto> RowUnread)) is m = (\<lambda>i. if i \<in> set is then Some RowUnread else m i)"
  by (induction "is" arbitrary: m) (auto simp: fun_eq_iff)

lemma fold_running:
  "fold (\<lambda>c m. if conv_active_run c \<noteq> None then m(conv_id c \<mapsto> RowRunning) else m) cs m =
     (\<lambda>i. if \<exists>c \<in> set cs. conv_id c = i \<and> conv_active_run c \<noteq> None then Some RowRunning else m i)"
  by (induction cs arbitrary: m) (auto simp: fun_eq_iff)

definition row_running :: "app_state \<Rightarrow> jstr \<Rightarrow> bool" where
  "row_running s i \<longleftrightarrow>
     (\<exists>c \<in> set (ci_pinnedItems (app_conversationIndex s)) \<union> set (ci_items (app_conversationIndex s)).
        conv_id c = i \<and> conv_active_run c \<noteq> None) \<or>
     (\<exists>r. app_activeRun s = Some r \<and> ar_conversationId r = i \<and>
        ar_status r \<in> {Queued, Started, Streaming, Cancelling}) \<or>
     (\<exists>p. app_pendingSubmission s = Some p \<and> ps_conversationId p = Some i \<and> i \<noteq> [])"

section \<open>Properties\<close>

text \<open>
  A row of the sidebar shows the right state: it is shown as running exactly when the server
  reports a run of the conversation, the local stream of it has not ended, or a message to it is
  being sent; otherwise as unread exactly when it is marked so; running wins.
\<close>

theorem row_status_correct:
  "rowStatus s i =
     (if row_running s i then Some RowRunning
      else if i \<in> set (ci_unreadIds (app_conversationIndex s)) then Some RowUnread else None)"
proof -
  define listed where "listed j \<longleftrightarrow> (\<exists>c \<in> set (ci_pinnedItems (app_conversationIndex s) @
      ci_items (app_conversationIndex s)). conv_id c = j \<and> conv_active_run c \<noteq> None)" for j
  have running: "row_running s i \<longleftrightarrow> listed i \<or>
      (case app_activeRun s of None \<Rightarrow> False
       | Some r \<Rightarrow> ar_conversationId r = i \<and> (run_in_flight (ar_status r) \<or> ar_status r = Cancelling)) \<or>
      (case app_pendingSubmission s of None \<Rightarrow> False
       | Some p \<Rightarrow> truthy (ps_conversationId p) \<and> the (ps_conversationId p) = i)"
    by (auto simp: row_running_def listed_def run_in_flight_def truthy_def split: option.splits)
  show ?thesis
    unfolding rowStatus_def fold_unread fold_running Let_def listed_def [symmetric] running
    by (auto split: option.splits)
qed

text \<open>
  (C13) An enabled send button sends: when the composer would call \<open>onSend\<close>, a request is made with
  the trimmed text and exactly the ready attachments, the text is within the length limit, and the
  pending submission that is shown holds the same text and files. (A reply quote exists only in an
  open conversation, and the server's file ids are not empty.)
\<close>

theorem enabled_send_sends:
  assumes "composer_submits sh"
    and "sh_quote sh \<noteq> None \<longrightarrow> selected (sh_app sh) \<noteq> None"
    and "\<forall>a \<in> set (ul_attachments (sh_uploads sh)). \<forall>f. da_file a = Some f \<longrightarrow> fa_id f \<noteq> []"
  shows "countChars (sh_composerValue sh) \<le> message_char_limit \<and>
    (\<exists>sh' attempt req. onSend dp stringify clientId options sh sh = Some (sh', attempt) \<and>
      sa_request attempt = Some req \<and>
      req = (case selected (sh_app sh) of
        None \<Rightarrow> CreateWithMessage (js_trim (sh_composerValue sh)) (Some options) None (ready_ids sh)
      | Some c \<Rightarrow> SendMessage c (js_trim (sh_composerValue sh)) (Some options) (ready_ids sh)
          (map_option quote_json (sh_quote sh))) \<and>
      app_pendingSubmission (sh_app sh') = Some \<lparr>ps_clientId = clientId,
        ps_content = js_trim (sh_composerValue sh), ps_conversationId = selected (sh_app sh),
        ps_attachments = optimisticAttachments sh, ps_replyQuote = sh_quote sh\<rparr>)"
proof -
  let ?u = "sh_uploads sh"
  from assms(1) have can: "canSend sh" "composerState (sh_app sh) = ComposerIdle"
    "\<not> visionMutationBlocked sh" by (simp_all add: composer_submits_def)
  then have idle: "app_pendingSubmission (sh_app sh) = None"
    by (auto simp: composerState_def split: if_splits)
  from can have reason: "sendDisabledReason sh = None" by (simp add: canSend_def)
  then have quiet: "\<not> hasPendingAttachments ?u" "\<not> hasFailedAttachments ?u" "readyImagesAllowed sh"
    "countChars (sh_composerValue sh) \<le> message_char_limit"
    by (auto simp: sendDisabledReason_def Let_def split: if_splits)
  have ids: "readyAttachmentIds ?u \<noteq> []" if "hasModelConsumableAttachment (selectedModel sh) ?u"
  proof -
    from that obtain a f where a: "a \<in> set (ul_attachments ?u)" "isUploadReady (da_status a)"
      "da_file a = Some f"
      by (auto simp: hasModelConsumableAttachment_def list_ex_iff file_kind_def split: option.splits)
    then have "fa_id f \<in> set (readyAttachmentIds ?u)"
      using assms(3) by (force simp: readyAttachmentIds_def List.map_filter_def)
    then show ?thesis by auto
  qed
  have content: "js_trim (sh_composerValue sh) \<noteq> [] \<or> sh_quote sh \<noteq> None \<or> ready_ids sh \<noteq> None"
    using can(1) ids by (auto simp: canSend_def ready_ids_def Let_def)
  have ok: "\<not> send_refused sh"
    using can(1) quiet idle by (auto simp: send_refused_def canSend_def)
  from onSend_requests [OF ok content assms(2)] quiet(4) show ?thesis by simp
qed

text \<open>A page with a text in the composer and nothing else.\<close>

definition demo_shell :: shell where
  "demo_shell = \<lparr>sh_page = demo_page\<lparr>pg_app := initialState
       \<lparr>app_auth := initialAuthState\<lparr>as_session := Some demo_session\<rparr>\<rparr>\<rparr>, sh_uploads = demo_uploads,
     sh_composerValue = js '' hi '', sh_models = [], sh_modelId = None, sh_fileCapability = None,
     sh_sentPreviews = [], sh_revoked = [], sh_animateComposer = False\<rparr>"

lemma demo_parts:
  "js_trim (sh_composerValue demo_shell) \<noteq> []"
  "countChars (sh_composerValue demo_shell) \<le> message_char_limit"
  "sh_quote demo_shell = None" "ul_attachments (sh_uploads demo_shell) = []"
  "app_pendingSubmission (sh_app demo_shell) = None" "app_activeRun (sh_app demo_shell) = None"
  "ic_state (cd_imageContext (app_conversationDetail (sh_app demo_shell))) = NoImages"
proof -
  have "js_trim (js '' hi '') \<noteq> []" "countChars (js '' hi '') \<le> message_char_limit" by code_simp+
  then show "js_trim (sh_composerValue demo_shell) \<noteq> []"
    "countChars (sh_composerValue demo_shell) \<le> message_char_limit"
    by (simp_all add: demo_shell_def)
qed (simp_all add: demo_shell_def demo_page_def initialState_def initialComposerState_def
    demo_uploads_def initialPendingSubmissionState_def initialActiveRunState_def
    initialConversationDetailState_def no_images_def)

theorem enabled_send_sends_witness:
  "\<exists>sh' attempt. onSend demo_dp (\<lambda>_. js ''d'') (js ''k'') demo_options demo_shell demo_shell = Some (sh', attempt) \<and>
     sa_request attempt \<noteq> None"
proof -
  have "composer_submits demo_shell"
    by (simp add: composer_submits_def canSend_def sendDisabledReason_def composerState_def
        visionMutationBlocked_def vision_required_def readyImagesAllowed_def hasPendingAttachments_def
        hasFailedAttachments_def hasReadyImageAttachment_def demo_parts not_less Let_def)
  moreover note demo_parts
  ultimately show ?thesis
    using enabled_send_sends [of demo_shell demo_dp "\<lambda>_. js ''d''" "js ''k''" demo_options] by auto
qed



text \<open>
  A pasted text is never dropped silently: it becomes an attachment that keeps its full text, or
  the browser inserts it into the composer, which then stays within the length limit if the text was
  large; only a text that fits neither way is refused, with an error shown.
\<close>

theorem pasted_text_not_lost:
  assumes "onPasteText dp lower stringify c text sh = (sh', prevented)"
  shows "(if \<not> prevented
    then shouldConvertPaste text \<longrightarrow>
      countChars (sh_composerValue sh) + countChars text \<le> message_char_limit
    else (\<exists>a. ul_attachments (sh_uploads sh') = ul_attachments (sh_uploads sh) @ [a] \<and>
          da_client_id a = c \<and> da_origin a = Some Paste \<and> ul_pasted (sh_uploads sh') c = Some text) \<or>
      countChars (sh_composerValue sh) + countChars text > message_char_limit \<and>
        ui_toast (app_ui (sh_app sh')) \<noteq> None) \<and>
    sh_composerValue sh' = sh_composerValue sh"
proof (cases "shouldConvertPaste text")
  case False
  with assms show ?thesis by (auto simp: onPasteText_def)
next
  case True
  obtain sh1 result where add: "add_pasted dp lower stringify True c text sh = (sh1, result)"
    by (cases "add_pasted dp lower stringify True c text sh")
  note parts = add_pasted_parts [OF add]
  show ?thesis
  proof (cases "af_accepted result = []")
    case rejected: True
    then show ?thesis
      using True assms add parts(3)
      by (auto simp: onPasteText_def Let_def split: if_splits)
  next
    case False
    then have "sh' = sh1" "prevented" using True assms add by (auto simp: onPasteText_def)
    then show ?thesis
      using parts(1) [OF False] parts(3) by (auto simp: initial_draft_def Let_def)
  qed
qed

theorem pasted_text_not_lost_witness:
  "sh_composerValue (fst (onPasteText demo_dp id (\<lambda>_. js ''d'') (js ''k'') (replicate 4000 97) demo_shell)) =
     js '' hi ''"
  using pasted_text_not_lost [OF prod.collapse [symmetric], of demo_dp id "\<lambda>_. js ''d''" "js ''k''"
      "replicate 4000 97" demo_shell]
  by (auto simp: demo_shell_def)

text \<open>
  When the submission succeeds, the stored draft of the scope it was sent from is removed, also when
  the composer holds a text that was typed while the request was under way.
\<close>

theorem sent_removes_newer_draft:
  assumes "user_key rendered = Some u"
    and "sh' = send_settled dp stringify sq rendered attempt True sh"
  shows "sh_composerValue sh' = sh_composerValue sh \<and>
    get_item (file_draft_key u (selected (sh_app rendered))) (sh_storage sh') = None"
proof -
  let ?f = "clear_uploads (shell_scope rendered)"
  have sh': "sh' = on_uploads dp ?f sh" using assms(2) by (simp add: send_settled_def)
  have "get_item (file_draft_key u (selected (sh_app rendered))) (ul_storage (?f v)) = None" for v
    using assms(1)
    by (simp add: clear_uploads_def shell_scope_def clear_file_draft_def get_remove_item Let_def)
  then show ?thesis unfolding sh' by (simp add: on_uploads_silent [of ?f])
qed

end
