(* ===== verification/App_Routing.thy ===== *)
theory App_Routing
  imports App_Shell
begin

text \<open>
  The address bar and the preferences of the chat page: the bootstrap of \<open>AppShell\<close>
  (\<open>frontend/src/app/AppShell.tsx\<close>), the two effects that keep the URL and the selected conversation
  together, the choice of model and thinking level, opening a search result, sharing from the page
  (\<open>frontend/src/conversations/useQuickShare.ts\<close>) and the hotkey of \<open>frontend/src/ui/hotkeys.ts\<close>.

  \<open>navigate\<close> sets the path at once; the effects then run for the values that changed.
\<close>

section \<open>Definitions\<close>

record chat_page =
  cp_shell :: shell
  cp_path :: jstr
  cp_routerReady :: bool
  cp_thinkingLevel :: thinking_level
  cp_webSearchEnabled :: bool
  cp_webSearchAvailable :: bool
  cp_searchEnabled :: bool
  cp_appliedImageContext :: "jstr option"

abbreviation cp_app :: "chat_page \<Rightarrow> app_state" where
  "cp_app cp \<equiv> sh_app (cp_shell cp)"

definition on_shell :: "(shell \<Rightarrow> shell) \<Rightarrow> chat_page \<Rightarrow> chat_page" where
  "on_shell f cp = cp\<lparr>cp_shell := f (cp_shell cp)\<rparr>"

definition on_chat_page :: "(page \<Rightarrow> page) \<Rightarrow> chat_page \<Rightarrow> chat_page" where
  "on_chat_page f = on_shell (on_page f)"

definition chat_storage :: "(storage \<Rightarrow> storage) \<Rightarrow> chat_page \<Rightarrow> chat_page" where
  "chat_storage f = on_chat_page (\<lambda>pg. pg\<lparr>pg_storage := f (pg_storage pg)\<rparr>)"

subsection \<open>The path\<close>

text \<open>\<open>pathname.match(/^\/c\/([^/]+)/)?.[1]\<close>.\<close>

definition public_id :: "jstr \<Rightarrow> jstr option" where
  "public_id path =
     (if \<not> starts_with (js ''/c/'') path then None
      else let segment = takeWhile (\<lambda>c. c \<noteq> 47) (drop 3 path)
           in if segment = [] then None else Some segment)"

definition conversation_path :: "jstr \<Rightarrow> jstr" where
  "conversation_path i = js ''/c/'' @ i"

definition navigate :: "jstr \<Rightarrow> chat_page \<Rightarrow> chat_page" where
  "navigate path cp = cp\<lparr>cp_path := path\<rparr>"

text \<open>
  The effect on \<open>[publicId, routerReady]\<close>, up to the request of \<open>selectConversation\<close>; its
  continuation is \<open>select_loaded\<close> or \<open>select_failed\<close>, then the recovery of the run.
\<close>

definition url_to_state :: "date_parse \<Rightarrow> conversation_index_state \<Rightarrow> chat_page \<Rightarrow> chat_page" where
  "url_to_state dp rendered cp =
     (if \<not> cp_routerReady cp then cp
      else (case public_id (cp_path cp) of
              Some i \<Rightarrow>
                if Some i \<noteq> selected (cp_app cp)
                then on_chat_page (\<lambda>pg. fst (select_begin dp rendered i False pg)) cp
                else cp
            | None \<Rightarrow>
                if selected (cp_app cp) \<noteq> None then on_chat_page (newConversation dp) cp else cp))"

text \<open>The effect on \<open>[selectedId, routerReady]\<close>.\<close>

definition state_to_url :: "chat_page \<Rightarrow> chat_page" where
  "state_to_url cp =
     (if \<not> cp_routerReady cp then cp
      else let current = selected (cp_app cp)
           in if public_id (cp_path cp) \<noteq> current
              then navigate (if truthy current then conversation_path (the current) else js ''/'') cp
              else cp)"

definition onSelectConversation :: "jstr \<Rightarrow> chat_page \<Rightarrow> chat_page" where
  "onSelectConversation i cp =
     (let cp' = on_shell (\<lambda>sh. sh\<lparr>sh_animateComposer := False\<rparr>) cp
      in if Some i \<noteq> selected (cp_app cp) then navigate (conversation_path i) cp' else cp')"

definition onNewConversation :: "chat_page \<Rightarrow> chat_page" where
  "onNewConversation cp = navigate (js ''/'') (on_shell (\<lambda>sh. sh\<lparr>sh_animateComposer := False\<rparr>) cp)"

text \<open>
  Opening a search result, once its conversation is fetched: \<open>selectConversation\<close> is given the
  conversation, so that it is selected and shown without a request; the flag tells whether a run is
  looked for.
\<close>

definition chooseSearchResult ::
  "date_parse \<Rightarrow> conversation_index_state \<Rightarrow> jstr \<Rightarrow> conversation_detail_response \<Rightarrow> chat_page \<Rightarrow>
   chat_page \<times> bool"
where
  "chooseSearchResult dp rendered i fresh cp =
     (let different = (Some i \<noteq> selected (cp_app cp));
          cp1 = on_shell (\<lambda>sh. sh\<lparr>sh_animateComposer := False\<rparr>) cp;
          cp2 = on_chat_page (\<lambda>pg. select_loaded dp i fresh (fst (select_begin dp rendered i True pg))) cp1
      in (navigate (conversation_path i) cp2, different))"

subsection \<open>Hotkey\<close>

record key_event =
  ke_meta :: bool
  ke_ctrl :: bool
  ke_shift :: bool
  ke_alt :: bool
  ke_key :: jstr

definition isNewChatHotkey :: "(jstr \<Rightarrow> jstr) \<Rightarrow> bool \<Rightarrow> key_event \<Rightarrow> bool" where
  "isNewChatHotkey lower isMac e \<longleftrightarrow>
     (if isMac then ke_meta e \<and> \<not> ke_ctrl e else ke_ctrl e \<and> \<not> ke_meta e) \<and>
     ke_shift e \<and> \<not> ke_alt e \<and> lower (ke_key e) = js ''o''"

subsection \<open>Preferences\<close>

definition onThinkingLevelChange :: "thinking_level \<Rightarrow> chat_page \<Rightarrow> chat_page" where
  "onThinkingLevelChange level cp = (chat_storage (saveThinkingLevel level) cp)\<lparr>cp_thinkingLevel := level\<rparr>"

definition onWebSearchEnabledChange :: "bool \<Rightarrow> chat_page \<Rightarrow> chat_page" where
  "onWebSearchEnabledChange enabled cp =
     (chat_storage (saveWebSearch enabled) cp)\<lparr>cp_webSearchEnabled := enabled\<rparr>"

text \<open>Snapping the stored level onto the tiers of a model, as two places do.\<close>

definition snap_level :: "chat_model_capability \<Rightarrow> chat_page \<Rightarrow> chat_page" where
  "snap_level m cp =
     (if cm_thinking_levels m = [] then cp
      else onThinkingLevelChange
             (clampThinkingLevel (readThinkingLevel (sh_storage (cp_shell cp))) (cm_thinking_levels m)) cp)"

definition choose_model :: "jstr \<Rightarrow> chat_page \<Rightarrow> chat_page" where
  "choose_model i cp = on_shell (\<lambda>sh. sh\<lparr>sh_modelId := Some i\<rparr>) (chat_storage (saveModel i) cp)"

definition onModelChange :: "jstr \<Rightarrow> chat_page \<Rightarrow> chat_page" where
  "onModelChange i cp =
     (let cp1 = choose_model i cp
      in case find_model (Some i) (sh_models (cp_shell cp)) of
           None \<Rightarrow> cp1
         | Some m \<Rightarrow> snap_level m cp1)"

definition state_text :: "image_context_state \<Rightarrow> jstr" where
  "state_text s = (case s of NoImages \<Rightarrow> js ''none'' | VisionRequired \<Rightarrow> js ''vision_required''
     | LegacyUpgradeRequired \<Rightarrow> js ''legacy_upgrade_required'')"

definition image_context_key :: "jstr \<Rightarrow> image_context \<Rightarrow> jstr" where
  "image_context_key i ctx = i @ js '':'' @ state_text (ic_state ctx) @ js '':'' @
     nullish (ic_legacy_message_id ctx) [] @ js '':'' @ nullish (ic_recommended_model ctx) []"

text \<open>The effect that fits the model to the images of the open conversation.\<close>

definition image_context_effect :: "chat_page \<Rightarrow> chat_page" where
  "image_context_effect cp =
     (let detail = app_conversationDetail (cp_app cp); ctx = cd_imageContext detail;
          models = sh_models (cp_shell cp)
      in case cd_conversation detail of
           None \<Rightarrow> cp
         | Some conv \<Rightarrow>
             if models = [] then cp
             else
               let k = image_context_key (conv_id conv) ctx
               in if cp_appliedImageContext cp = Some k then cp
                  else
                    let cp1 = cp\<lparr>cp_appliedImageContext := Some k\<rparr>
                    in case resolveForImageContext models (Some ctx) (sh_storage (cp_shell cp)) of
                         None \<Rightarrow> cp1
                       | Some m \<Rightarrow>
                           if Some (cm_id m) = sh_modelId (cp_shell cp) then cp1
                           else snap_level m (choose_model (cm_id m) cp1))"

subsection \<open>Bootstrap\<close>

record capabilities =
  caps_web_search :: bool
  caps_conversation_search :: "bool option"
  caps_models :: "chat_model_capability list"
  caps_files :: "files_capability option"

definition mount_page :: "shell \<Rightarrow> jstr \<Rightarrow> chat_page" where
  "mount_page sh path =
     \<lparr>cp_shell = sh, cp_path = path, cp_routerReady = False,
      cp_thinkingLevel = readThinkingLevel (sh_storage sh),
      cp_webSearchEnabled = readWebSearch (sh_storage sh), cp_webSearchAvailable = False,
      cp_searchEnabled = False, cp_appliedImageContext = None\<rparr>"

text \<open>After \<open>loadList\<close>, with the answer of the capabilities endpoint (\<open>None\<close>: it failed).\<close>

definition capabilities_settled :: "capabilities option \<Rightarrow> chat_page \<Rightarrow> chat_page" where
  "capabilities_settled answer cp =
     (case answer of
        None \<Rightarrow>
          (on_shell (\<lambda>sh. sh\<lparr>sh_fileCapability := None\<rparr>) cp)
            \<lparr>cp_webSearchAvailable := False, cp_routerReady := True\<rparr>
      | Some caps \<Rightarrow>
          (on_shell (\<lambda>sh. sh\<lparr>sh_models := caps_models caps,
               sh_modelId := map_option cm_id (resolveModel (caps_models caps) (sh_storage sh)),
               sh_fileCapability := caps_files caps\<rparr>) cp)
            \<lparr>cp_webSearchAvailable := caps_web_search caps,
             cp_searchEnabled := (caps_conversation_search caps = Some True), cp_routerReady := True\<rparr>)"

subsection \<open>Sharing from the page\<close>

text \<open>
  \<open>existing\<close>: the tokens of \<open>shareApi.list\<close>. Either an active link is reused or one is created. Then
  the outcome of the two ways to copy: the deferred copy (\<open>None\<close> when it could not be started) and
  \<open>copyText\<close>.
\<close>

definition share_plan :: "jstr \<Rightarrow> bool \<Rightarrow> jstr list \<Rightarrow> jstr + share_endpoint" where
  "share_plan conversationId hasAttachments existing =
     (case existing of
        token # _ \<Rightarrow> Inl token
      | [] \<Rightarrow> Inr (CreateShare conversationId None (if hasAttachments then Some True else None)))"

definition shareUrl :: "jstr \<Rightarrow> jstr \<Rightarrow> jstr" where
  "shareUrl origin token = origin @ js ''/share/'' @ token"

text \<open>\<open>copyText\<close>: the clipboard API when there is one and it accepts, the selection otherwise.\<close>

definition copyText :: "bool option \<Rightarrow> bool \<Rightarrow> bool" where
  "copyText clipboard bySelection = (if clipboard = Some True then True else bySelection)"

definition quick_share_settled ::
  "date_parse \<Rightarrow> jstr option \<Rightarrow> bool option \<Rightarrow> bool \<Rightarrow> page \<Rightarrow> page"
where
  "quick_share_settled dp url deferred copied pg =
     (if url = None then show_toast dp share_failed_text ToneError pg
      else if \<not> (deferred = Some True \<or> copied) then show_toast dp copy_failed_text ToneError pg
      else show_toast dp link_copied_text ToneSuccess pg)"

section \<open>Lemmas\<close>

lemma on_chat_page_simps [simp]:
  "cp_path (on_chat_page f cp) = cp_path cp" "cp_routerReady (on_chat_page f cp) = cp_routerReady cp"
  "sh_page (cp_shell (on_chat_page f cp)) = f (sh_page (cp_shell cp))"
  "cp_path (navigate p cp) = p" "cp_routerReady (navigate p cp) = cp_routerReady cp"
  "cp_shell (navigate p cp) = cp_shell cp"
  by (simp_all add: on_chat_page_def on_shell_def navigate_def)

text \<open>Ids that may stand in a path segment.\<close>

definition segment :: "jstr \<Rightarrow> bool" where
  "segment i \<longleftrightarrow> i \<noteq> [] \<and> 47 \<notin> set i"

lemma public_id_path: "segment i \<Longrightarrow> public_id (conversation_path i) = Some i"
proof -
  assume i: "segment i"
  then have "takeWhile (\<lambda>c. c \<noteq> 47) i = i"
    unfolding takeWhile_eq_all_conv by (auto simp: segment_def)
  moreover have "drop 3 (conversation_path i) = i" "starts_with (js ''/c/'') (conversation_path i)"
    by (simp_all add: conversation_path_def js_def starts_with_def)
  ultimately show "public_id (conversation_path i) = Some i"
    using i by (simp only: public_id_def segment_def Let_def) simp
qed

lemma public_id_root: "public_id (js ''/'') = None"
  by (simp add: public_id_def starts_with_def js_def)

lemma public_id_segment: "public_id p = Some i \<Longrightarrow> segment i"
  by (auto simp: public_id_def segment_def Let_def split: if_splits dest: set_takeWhileD)

lemma select_begin_selected:
  "ci_selectedId rendered = selected (pg_app pg) \<Longrightarrow> Some i \<noteq> selected (pg_app pg) \<Longrightarrow>
     selected (pg_app (fst (select_begin dp rendered i False pg))) = Some i"
  by (simp add: select_begin_def Let_def)

lemma newConversation_selected: "selected (pg_app (newConversation dp pg)) = None"
  by (simp add: newConversation_def Let_def)

lemma url_to_state_selects:
  assumes "cp_routerReady cp" and "ci_selectedId rendered = selected (cp_app cp)"
  shows "selected (cp_app (url_to_state dp rendered cp)) = public_id (cp_path cp)"
    and "cp_path (url_to_state dp rendered cp) = cp_path cp"
    and "cp_routerReady (url_to_state dp rendered cp)"
  using assms
  by (auto simp: url_to_state_def select_begin_selected newConversation_selected split: option.splits)

lemma state_to_url_names:
  assumes "cp_routerReady cp" and "\<forall>i. selected (cp_app cp) = Some i \<longrightarrow> segment i"
  shows "public_id (cp_path (state_to_url cp)) = selected (cp_app cp)"
    and "cp_shell (state_to_url cp) = cp_shell cp" and "cp_routerReady (state_to_url cp)"
  using assms
  by (auto simp: state_to_url_def Let_def truthy_def segment_def public_id_path public_id_root
      split: option.splits)

text \<open>Once path and selection agree, neither effect does anything.\<close>

lemma agreeing_is_stable:
  assumes "public_id (cp_path cp) = selected (cp_app cp)"
  shows "url_to_state dp rendered cp = cp" and "state_to_url cp = cp"
  using assms by (auto simp: url_to_state_def state_to_url_def Let_def split: option.splits)

lemma snap_level_shell:
  "sh_modelId (cp_shell (snap_level m cp)) = sh_modelId (cp_shell cp)"
  "sh_models (cp_shell (snap_level m cp)) = sh_models (cp_shell cp)"
  "cp_app (snap_level m cp) = cp_app cp"
  "sh_uploads (cp_shell (snap_level m cp)) = sh_uploads (cp_shell cp)"
  by (simp_all add: snap_level_def onThinkingLevelChange_def chat_storage_def on_chat_page_def on_shell_def)

lemma choose_model_shell:
  "sh_modelId (cp_shell (choose_model i cp)) = Some i"
  "sh_models (cp_shell (choose_model i cp)) = sh_models (cp_shell cp)"
  "cp_app (choose_model i cp) = cp_app cp"
  "sh_storage (cp_shell (choose_model i cp)) = saveModel i (sh_storage (cp_shell cp))"
  by (simp_all add: choose_model_def chat_storage_def on_chat_page_def on_shell_def)

lemma resolved_compatible:
  assumes "ic_state ctx \<noteq> NoImages" and "resolveForImageContext available (Some ctx) st = Some m"
  shows "m \<in> set available \<and> context_compatible (ic_state ctx) m"
  using assms
  by (auto simp: resolveForImageContext_def orelse_def Let_def split: if_splits option.splits
      dest!: find_model_Some first_model_Some)

lemma resolved_exists:
  assumes "ic_state ctx \<noteq> NoImages" and "m \<in> set available" and "context_compatible (ic_state ctx) m"
  shows "resolveForImageContext available (Some ctx) st \<noteq> None"
proof -
  have "filter (context_compatible (ic_state ctx)) available \<noteq> []"
    using assms(2,3) by (auto simp: filter_empty_conv)
  then show ?thesis
    using assms(1)
    by (cases "filter (context_compatible (ic_state ctx)) available")
      (auto simp: resolveForImageContext_def orelse_def first_model_def Let_def split: option.splits)
qed

section \<open>Properties\<close>

text \<open>
  (C14) The address bar and the selected conversation agree. When the path changes, the effects of the
  next render select the conversation it names, or none at the root, and leave the path alone; when
  the selection changes, they put it into the path and leave the state alone; in both cases path and
  selection agree afterwards and running the effects again changes nothing, so they never chase
  each other. (Conversation ids are not empty and contain no slash.)
\<close>

theorem url_and_selection_agree:
  assumes "cp_routerReady cp" and "\<forall>i. selected (cp_app cp) = Some i \<longrightarrow> segment i"
    and "ci_selectedId rendered = selected (cp_app cp)"
    and "by_url = state_to_url (url_to_state dp rendered cp)" and "by_state = state_to_url cp"
  shows "cp_path by_url = cp_path cp \<and> selected (cp_app by_url) = public_id (cp_path cp) \<and>
    cp_shell by_state = cp_shell cp \<and> public_id (cp_path by_state) = selected (cp_app cp) \<and>
    url_to_state dp r by_url = by_url \<and> state_to_url by_url = by_url \<and>
    url_to_state dp r by_state = by_state \<and> state_to_url by_state = by_state"
proof -
  let ?cp = "url_to_state dp rendered cp"
  note sel = url_to_state_selects [OF assms(1,3), of dp]
  have "public_id (cp_path ?cp) = selected (cp_app ?cp)" using sel by simp
  then have url: "by_url = ?cp" "public_id (cp_path by_url) = selected (cp_app by_url)"
    using assms(4) by (simp_all add: agreeing_is_stable(2))
  have st: "public_id (cp_path by_state) = selected (cp_app by_state)" "cp_shell by_state = cp_shell cp"
    using state_to_url_names [OF assms(1,2)] assms(5) by simp_all
  show ?thesis
    using sel url st agreeing_is_stable [OF url(2)] agreeing_is_stable [OF st(1)] by simp
qed

definition demo_chat :: chat_page where
  "demo_chat = (mount_page demo_shell (js ''/c/abc''))\<lparr>cp_routerReady := True\<rparr>"

theorem url_and_selection_agree_witness:
  "selected (cp_app (state_to_url (url_to_state demo_dp (app_conversationIndex (cp_app demo_chat)) demo_chat))) =
     Some (js ''abc'')"
proof -
  have "public_id (js ''/c/abc'') = Some (js ''abc'')" by code_simp
  moreover have "selected (cp_app demo_chat) = None" "cp_path demo_chat = js ''/c/abc''" "cp_routerReady demo_chat"
    by (simp_all add: demo_chat_def mount_page_def demo_shell_def initialState_def
        initialConversationIndexState_def)
  ultimately show ?thesis
    using url_and_selection_agree [OF _ _ refl refl refl, of demo_chat] by simp
qed

text \<open>
  A link to a conversation that cannot be opened leads home: after the selection made for the
  path is refused, the selection is empty, a toast says so, and the address bar shows the root.
\<close>

theorem broken_link_goes_home:
  assumes "cp_routerReady cp" and "ci_selectedId rendered = selected (cp_app cp)"
    and "public_id (cp_path cp) = Some i" and "invalid_selection e"
    and "cp' = state_to_url (on_chat_page (select_failed dp i e) (url_to_state dp rendered cp))"
  shows "cp_path cp' = js ''/'' \<and> selected (cp_app cp') = None \<and>
    ui_toast (app_ui (cp_app cp')) \<noteq> None \<and> cd_messages (app_conversationDetail (cp_app cp')) = []"
proof -
  let ?cp = "url_to_state dp rendered cp"
  note sel = url_to_state_selects [OF assms(1,2), of dp]
  have "selected (pg_app (sh_page (cp_shell ?cp))) = Some i" using sel(1) assms(3) by simp
  then have failed: "selected (cp_app (on_chat_page (select_failed dp i e) ?cp)) = None"
    "ui_toast (app_ui (cp_app (on_chat_page (select_failed dp i e) ?cp))) \<noteq> None"
    "cd_messages (app_conversationDetail (cp_app (on_chat_page (select_failed dp i e) ?cp))) = []"
    using assms(4) by (simp_all add: select_failed_def Let_def)
  then show ?thesis
    using assms(3,5) sel(2,3) by (simp add: state_to_url_def truthy_def)
qed

text \<open>
  A conversation with images gets a model that reads them: when the effect runs for a thread that
  requires vision and such a model is offered, the page is not blocked afterwards, whatever model
  was chosen and stored before.
\<close>

theorem vision_thread_gets_vision_model:
  assumes "ic_state (cd_imageContext (app_conversationDetail (cp_app cp))) = VisionRequired"
    and "cd_conversation (app_conversationDetail (cp_app cp)) = Some conv"
    and "cp_appliedImageContext cp \<noteq>
      Some (image_context_key (conv_id conv) (cd_imageContext (app_conversationDetail (cp_app cp))))"
    and "m \<in> set (sh_models (cp_shell cp))" and "cm_supports_image_input m"
    and "distinct (map cm_id (sh_models (cp_shell cp)))"
  shows "\<not> visionMutationBlocked (cp_shell (image_context_effect cp))"
proof -
  let ?ctx = "cd_imageContext (app_conversationDetail (cp_app cp))"
  let ?models = "sh_models (cp_shell cp)" and ?cp' = "image_context_effect cp"
  have ctx: "ic_state ?ctx \<noteq> NoImages" "context_compatible (ic_state ?ctx) m"
    using assms(1,5) by (simp_all add: context_compatible_def)
  then have some: "resolveForImageContext ?models (Some ?ctx) st \<noteq> None" for st
    using resolved_exists assms(4) by blast
  then obtain r where r: "resolveForImageContext ?models (Some ?ctx) (sh_storage (cp_shell cp)) = Some r"
    by blast
  with ctx(1) have ok: "r \<in> set ?models" "cm_supports_image_input r"
    using resolved_compatible [OF ctx(1)] assms(1) by (auto simp: context_compatible_def)
  have "?models \<noteq> []" using assms(4) by auto
  then have "sh_modelId (cp_shell ?cp') = Some (cm_id r)" "sh_models (cp_shell ?cp') = ?models"
    "cp_app ?cp' = cp_app cp"
    using assms(2,3) r
    by (simp_all add: image_context_effect_def Let_def snap_level_shell choose_model_shell)
  moreover have "find_model (Some (cm_id r)) ?models = Some r"
    using find_by_key [OF assms(6) ok(1)] by (simp add: find_model_def)
  ultimately show ?thesis
    using ok(2) some by (simp add: visionMutationBlocked_def visionUnavailable_def selectedModel_def
        supports_image_input_def)
qed

text \<open>A page whose thread requires a vision model while another one is chosen.\<close>

definition demo_vision :: chat_page where
  "demo_vision = demo_chat\<lparr>cp_shell := demo_shell
     \<lparr>sh_models := [demo_model ''a'' False True, demo_model ''b'' True False], sh_modelId := Some (js ''a''),
      sh_page := demo_page\<lparr>pg_app := initialState\<lparr>app_conversationDetail := initialConversationDetailState
        \<lparr>cd_conversation := Some (demo_conv ''c'' None ''t''), cd_imageContext :=
           \<lparr>ic_state = VisionRequired, ic_legacy_message_id = None, ic_recommended_model = None\<rparr>\<rparr>\<rparr>\<rparr>\<rparr>\<rparr>"

theorem vision_thread_gets_vision_model_witness:
  "\<not> visionMutationBlocked (cp_shell (image_context_effect demo_vision))"
proof -
  have parts: "ic_state (cd_imageContext (app_conversationDetail (cp_app demo_vision))) = VisionRequired"
    "cd_conversation (app_conversationDetail (cp_app demo_vision)) = Some (demo_conv ''c'' None ''t'')"
    "cp_appliedImageContext demo_vision = None"
    "sh_models (cp_shell demo_vision) = [demo_model ''a'' False True, demo_model ''b'' True False]"
    by (simp_all add: demo_vision_def demo_chat_def mount_page_def)
  from vision_thread_gets_vision_model [OF parts(1,2), of "demo_model ''b'' True False"] show ?thesis
    by (simp add: parts demo_model_def)
qed

theorem broken_link_goes_home_witness:
  "cp_path (state_to_url (on_chat_page (select_failed demo_dp (js ''abc'') (ThrownApi (plain_error 404 [])))
     (url_to_state demo_dp (app_conversationIndex (cp_app demo_chat)) demo_chat))) = js ''/''"
proof -
  have "public_id (js ''/c/abc'') = Some (js ''abc'')" by code_simp
  then have "public_id (cp_path demo_chat) = Some (js ''abc'')" "cp_routerReady demo_chat"
    by (simp_all add: demo_chat_def mount_page_def)
  from broken_link_goes_home [OF this(2) refl this(1) _ refl] show ?thesis
    by (simp add: invalid_selection_def plain_error_def)
qed

end
