(* ===== verification/Message_Text.thy ===== *)
theory Message_Text
  imports File_Rules
begin

text \<open>
  The text of a message on its way to the screen: inline citations
  (\<open>frontend/src/messages/citations.ts\<close>), the sources of a conversation
  (\<open>frontend/src/messages/sourceUtils.ts\<close>) and their chips (\<open>frontend/src/messages/Citation.tsx\<close>).

  The regular expressions are written as the deterministic recognisers they amount to; the numbers of
  citation markers are exact below \<open>2 ^ 53\<close>.
\<close>

section \<open>Definitions\<close>

subsection \<open>Citations\<close>

text \<open>\<open>\[(\d+)\]\<close> at the start of a text: the digits and what follows.\<close>

definition marker :: "jstr \<Rightarrow> (jstr \<times> jstr) option" where
  "marker s =
     (case s of
        [] \<Rightarrow> None
      | c # t \<Rightarrow>
          let ds = takeWhile is_digit t; rest = dropWhile is_digit t
          in if c = 91 \<and> ds \<noteq> [] \<and> rest \<noteq> [] \<and> hd rest = 93 then Some (ds, tl rest) else None)"

lemma marker_shorter: "marker s = Some (ds, r) \<Longrightarrow> length r < length s"
  using length_dropWhile_le [of is_digit "tl s"]
  by (auto simp: marker_def Let_def split: list.splits if_splits)

text \<open>\<open>(?:\s*\[\d+\])*\<close>: the digits of the further markers, and what follows the last of them.\<close>

function run_more :: "jstr \<Rightarrow> jstr list \<times> jstr" where
  "run_more s =
     (case marker (dropWhile is_space s) of
        None \<Rightarrow> ([], s)
      | Some (ds, r) \<Rightarrow> let (more, rest) = run_more r in (ds # more, rest))"
  by pat_completeness auto

termination run_more
proof (relation "measure length")
  fix s :: jstr and p :: "jstr \<times> jstr" and ds r :: jstr
  assume "marker (dropWhile is_space s) = Some p" and "(ds, r) = p"
  then have "length r < length (dropWhile is_space s)" using marker_shorter by auto
  then show "(r, s) \<in> measure length" using length_dropWhile_le [of is_space s] by simp
qed simp

declare run_more.simps [simp del]

text \<open>\<open>RUN\<close> at the start of a text.\<close>

definition match_run :: "jstr \<Rightarrow> (jstr list \<times> jstr) option" where
  "match_run s =
     (case marker s of
        None \<Rightarrow> None
      | Some (ds, r) \<Rightarrow> let (more, rest) = run_more r in Some (ds # more, rest))"

text \<open>The ids of a run that are known sources, each once, in their order.\<close>

definition run_ids :: "int list \<Rightarrow> jstr list \<Rightarrow> int list" where
  "run_ids validIds dss =
     foldl (\<lambda>ids ds. let n = int (digits_value ds) in if n \<in> set validIds then add_new n ids else ids)
       [] dss"

definition sentence_end :: "code_unit \<Rightarrow> bool" where
  "sentence_end c \<longleftrightarrow> c \<in> set [0x3002, 46, 0xFF01, 33, 0xFF1F, 63]"

datatype inline = Text jstr | Chip "int list"

lemma run_more_shorter: "length (snd (run_more s)) \<le> length s"
proof (induction s rule: run_more.induct)
  case (1 s)
  show ?case
  proof (cases "marker (dropWhile is_space s)")
    case None
    then show ?thesis by (simp add: run_more.simps [of s])
  next
    case (Some p)
    obtain ds r where p: "p = (ds, r)" by (cases p)
    have "length (snd (run_more r)) \<le> length r" by (rule 1 [OF Some p [symmetric]])
    moreover have "length r < length s"
      using marker_shorter [of "dropWhile is_space s"] Some p length_dropWhile_le [of is_space s] by fastforce
    ultimately show ?thesis using Some p by (cases "run_more r") (simp add: run_more.simps [of s])
  qed
qed

lemma match_run_shorter: "match_run s = Some (dss, r) \<Longrightarrow> length r < length s"
  using run_more_shorter marker_shorter
  by (auto simp: match_run_def split: option.splits prod.splits) (metis le_less_trans snd_conv)

text \<open>
  The loop of \<open>splitText\<close>; \<open>pending\<close> is \<open>value.slice(last, ...)\<close>, the text since the last citation.
\<close>

function split_loop :: "int list \<Rightarrow> jstr \<Rightarrow> jstr \<Rightarrow> inline list" where
  "split_loop validIds pending s =
     (case match_run s of
        None \<Rightarrow>
          (case s of
             [] \<Rightarrow> if pending = [] then [] else [Text pending]
           | c # t \<Rightarrow> split_loop validIds (pending @ [c]) t)
      | Some (dss, rest) \<Rightarrow>
          if run_ids validIds dss = []
          then split_loop validIds (pending @ take (length s - length rest) s) rest
          else
            let trailing = takeWhile sentence_end rest; before = pending @ trailing
            in (if before = [] then [] else [Text before]) @
               Chip (run_ids validIds dss) # split_loop validIds [] (dropWhile sentence_end rest))"
  by pat_completeness auto

termination split_loop
proof (relation "measure (\<lambda>(_, _, s). length s)")
  fix validIds :: "int list" and pending s :: jstr and p :: "jstr list \<times> jstr" and dss :: "jstr list"
    and rest x y :: jstr
  assume p: "match_run s = Some p" "(dss, rest) = p"
  then have shorter: "length rest < length s" using match_run_shorter by auto
  show "((validIds, pending @ take (length s - length rest) s, rest), validIds, pending, s)
      \<in> measure (\<lambda>(_, _, s). length s)" using shorter by simp
  show "((validIds, [], dropWhile sentence_end rest), validIds, pending, s)
      \<in> measure (\<lambda>(_, _, s). length s)"
    using shorter length_dropWhile_le [of sentence_end rest] by simp
qed simp_all

declare split_loop.simps [simp del]

definition splitText :: "int list \<Rightarrow> jstr \<Rightarrow> inline list" where
  "splitText validIds s =
     (let out = split_loop validIds [] s in if out = [] then [Text s] else out)"

subsection \<open>The tree\<close>

text \<open>
  The nodes of the rendered tree: texts, the injected \<open>citation\<close> elements with their \<open>citeIds\<close>, other
  elements with their classes, and nodes without children such as comments.
\<close>

datatype hast =
    HText jstr
  | HCitation jstr
  | HElement jstr "jstr list" "hast list"
  | HLeaf jstr

definition isMathElement :: "jstr list \<Rightarrow> bool" where
  "isMathElement classes =
     list_ex (\<lambda>c. starts_with (js ''katex'') c \<or> starts_with (js ''math-'') c) classes"

text \<open>\<open>ids.join(",")\<close>.\<close>

definition cite_ids :: "int list \<Rightarrow> jstr" where
  "cite_ids ids = join [44] (map (digits \<circ> nat) ids)"

fun inline_node :: "inline \<Rightarrow> hast" where
  "inline_node (Text t) = HText t"
| "inline_node (Chip ids) = HCitation (cite_ids ids)"

definition keeps_subtree :: "jstr \<Rightarrow> jstr list \<Rightarrow> bool" where
  "keeps_subtree tagName classes \<longleftrightarrow>
     tagName = js ''code'' \<or> tagName = js ''pre'' \<or> isMathElement classes"

text \<open>One child in the loop of \<open>transform\<close>: the nodes it becomes.\<close>

fun transform :: "int list \<Rightarrow> bool \<Rightarrow> hast \<Rightarrow> hast list" where
  "transform validIds inCode (HText t) =
     (if inCode then [HText t] else map inline_node (splitText validIds t))"
| "transform validIds inCode (HElement tagName classes children) =
     [HElement tagName classes
        (concat (map (transform validIds (inCode \<or> keeps_subtree tagName classes)) children))]"
| "transform validIds inCode node = [node]"

text \<open>\<open>rehypeCitations\<close> on the children of the root.\<close>

definition rehypeCitations :: "int list \<Rightarrow> hast list \<Rightarrow> hast list" where
  "rehypeCitations validIds tree = concat (map (transform validIds False) tree)"

subsection \<open>Sources\<close>

text \<open>
  \<open>conversationSources\<close>. The \<open>Map\<close> is the list of its values in the order of insertion: the key of
  a value is its id.
\<close>

definition collect_source ::
  "message_source list \<times> int list \<Rightarrow> message_source \<Rightarrow> message_source list \<times> int list" where
  "collect_source acc source =
     (case acc of (byId, ambiguous) \<Rightarrow>
        (case List.find (\<lambda>s. src_id s = src_id source) byId of
           None \<Rightarrow> (byId @ [source], ambiguous)
         | Some existing \<Rightarrow>
             if src_url existing \<noteq> src_url source then (byId, add_new (src_id source) ambiguous)
             else (byId, ambiguous)))"

definition message_sources :: "message_response \<Rightarrow> message_source list" where
  "message_sources m = nullish (nullish (msg_metadata m) None) []"

definition conversationSources :: "message_response list \<Rightarrow> message_source list" where
  "conversationSources messages =
     (let (byId, ambiguous) =
            foldl (\<lambda>acc message. foldl collect_source acc (message_sources message)) ([], []) messages
      in filter (\<lambda>s. src_id s \<notin> set ambiguous) byId)"

text \<open>
  The sources of a streaming message: those of the run win, earlier turns fill the rest. A source of the
  run whose id is not a number matches no marker; \<open>draftSources\<close> are the others.
\<close>

definition streaming_sources ::
  "message_source list option \<Rightarrow> message_response list \<Rightarrow> message_source list option" where
  "streaming_sources draftSources messages =
     (let current = nullish draftSources [];
          merged = current @
            filter (\<lambda>s. src_id s \<notin> src_id ` set current) (conversationSources messages)
      in if merged \<noteq> [] then Some merged else None)"

text \<open>
  \<open>Number\<close> on the strings a \<open>citeIds\<close> property is split into; other texts than digits count as not
  finite.
\<close>

definition cite_number :: "jstr \<Rightarrow> int option" where
  "cite_number s =
     (if s = [] then Some 0 else if list_all is_digit s then Some (int (digits_value s)) else None)"

definition citation_ids :: "jstr option \<Rightarrow> int list" where
  "citation_ids raw = List.map_filter cite_number (split_on 44 (nullish raw []))"

definition cited_sources :: "message_source list \<Rightarrow> jstr option \<Rightarrow> message_source list" where
  "cited_sources sources raw =
     List.map_filter (\<lambda>i. List.find (\<lambda>s. src_id s = i) sources) (citation_ids raw)"

text \<open>The plugin the renderer adds: only when there are sources.\<close>

definition cite_tree :: "message_source list option \<Rightarrow> hast list \<Rightarrow> hast list" where
  "cite_tree sources tree =
     (let ss = nullish sources [] in if ss \<noteq> [] then rehypeCitations (map src_id ss) tree else tree)"

section \<open>Lemmas on citations\<close>

lemma foldl_run_ids:
  "distinct ids \<Longrightarrow> distinct (foldl (\<lambda>ids ds. let n = int (digits_value ds) in
       if n \<in> set validIds then add_new n ids else ids) ids dss) \<and>
   set (foldl (\<lambda>ids ds. let n = int (digits_value ds) in
       if n \<in> set validIds then add_new n ids else ids) ids dss) =
     set ids \<union> {n \<in> int ` digits_value ` set dss. n \<in> set validIds}"
  by (induction dss arbitrary: ids) (auto simp: Let_def)

lemma run_ids_props [simp]:
  "distinct (run_ids validIds dss)"
  "set (run_ids validIds dss) = {n \<in> int ` digits_value ` set dss. n \<in> set validIds}"
  using foldl_run_ids [of "[]" validIds dss] by (simp_all add: run_ids_def)

text \<open>The texts the pattern matches: markers separated by white space.\<close>

inductive marker_run :: "jstr list \<Rightarrow> jstr \<Rightarrow> bool" where
  one: "ds \<noteq> [] \<Longrightarrow> list_all is_digit ds \<Longrightarrow> marker_run [ds] (91 # ds @ [93])"
| more: "ds \<noteq> [] \<Longrightarrow> list_all is_digit ds \<Longrightarrow> list_all is_space ws \<Longrightarrow> marker_run dss raw \<Longrightarrow>
    marker_run (ds # dss) (91 # ds @ 93 # ws @ raw)"

lemma marker_form:
  "marker s = Some (ds, r) \<Longrightarrow> s = 91 # ds @ 93 # r \<and> ds \<noteq> [] \<and> list_all is_digit ds"
proof -
  assume m: "marker s = Some (ds, r)"
  then obtain t where s: "s = 91 # t" and ds: "ds = takeWhile is_digit t" "ds \<noteq> []"
    and rest: "dropWhile is_digit t \<noteq> []" "hd (dropWhile is_digit t) = 93" "r = tl (dropWhile is_digit t)"
    by (auto simp: marker_def Let_def split: list.splits if_splits)
  have "dropWhile is_digit t = 93 # r" using rest by (metis list.collapse)
  then have "t = ds @ 93 # r" using takeWhile_dropWhile_id [of is_digit t] ds by simp
  moreover have "list_all is_digit ds" using set_takeWhileD ds(1) by (fastforce simp: list_all_iff)
  ultimately show ?thesis using s ds(2) by simp
qed

lemma marker_start: "c \<noteq> 91 \<Longrightarrow> marker (c # s) = None"
  by (simp add: marker_def Let_def)

lemma run_more_None: "marker (dropWhile is_space s) = None \<Longrightarrow> run_more s = ([], s)"
  by (simp add: run_more.simps [of s])

lemma run_more_Some:
  "marker (dropWhile is_space s) = Some (ds, r) \<Longrightarrow>
   run_more s = (ds # fst (run_more r), snd (run_more r))"
  by (cases "run_more r") (simp add: run_more.simps [of s])

lemma run_more_end: "marker (dropWhile is_space (snd (run_more s))) = None"
proof (induction s rule: run_more.induct)
  case (1 s)
  then show ?case
    by (cases "marker (dropWhile is_space s)") (auto simp: run_more_None run_more_Some)
qed

text \<open>A marker and the further markers behind it are one run.\<close>

lemma marker_then_more:
  "ds \<noteq> [] \<Longrightarrow> list_all is_digit ds \<Longrightarrow>
   \<exists>raw. marker_run (ds # fst (run_more s)) raw \<and> 91 # ds @ 93 # s = raw @ snd (run_more s)"
proof (induction s arbitrary: ds rule: run_more.induct)
  case (1 s)
  show ?case
  proof (cases "marker (dropWhile is_space s)")
    case None
    then show ?thesis using 1(2,3) marker_run.one by (fastforce simp: run_more_None)
  next
    case (Some p)
    obtain d r where p: "p = (d, r)" by (cases p)
    note form = marker_form [of "dropWhile is_space s" d r]
    obtain raw where raw: "marker_run (d # fst (run_more r)) raw" "91 # d @ 93 # r = raw @ snd (run_more r)"
      using 1(1) [OF Some p [symmetric], of d] form Some p by auto
    have "s = takeWhile is_space s @ 91 # d @ 93 # r"
      using form Some p takeWhile_dropWhile_id [of is_space s] by simp
    moreover have "list_all is_space (takeWhile is_space s)"
      using set_takeWhileD by (fastforce simp: list_all_iff)
    ultimately show ?thesis
      using marker_run.more [OF 1(2,3) _ raw(1), of "takeWhile is_space s"] raw(2) Some p
      by (metis append.assoc append_Cons fst_conv run_more_Some snd_conv)
  qed
qed

lemma match_run_None: "match_run s = None \<longleftrightarrow> marker s = None"
  by (simp add: match_run_def split: option.splits prod.splits)

lemma match_run_form:
  assumes "match_run s = Some (dss, rest)"
  shows "\<exists>raw. marker_run dss raw \<and> s = raw @ rest \<and> marker (dropWhile is_space rest) = None"
proof -
  obtain ds r where m: "marker s = Some (ds, r)" "dss = ds # fst (run_more r)" "rest = snd (run_more r)"
    using assms by (auto simp: match_run_def split: option.splits prod.splits)
  show ?thesis using marker_form [OF m(1)] marker_then_more [of ds r] run_more_end [of r] m by auto
qed

text \<open>
  What a text should become, as a stream of code units and chips: a run of markers with a known source
  becomes one chip behind the sentence end that follows it, everything else stays in its place.
\<close>

inductive cites :: "int list \<Rightarrow> jstr \<Rightarrow> (code_unit + int list) list \<Rightarrow> bool" for validIds where
  nothing: "cites validIds [] []"
| plain: "marker (c # s) = None \<Longrightarrow> cites validIds s out \<Longrightarrow> cites validIds (c # s) (Inl c # out)"
| unresolved: "marker_run dss raw \<Longrightarrow> marker (dropWhile is_space s) = None \<Longrightarrow>
    run_ids validIds dss = [] \<Longrightarrow> cites validIds s out \<Longrightarrow> cites validIds (raw @ s) (map Inl raw @ out)"
| chip: "marker_run dss raw \<Longrightarrow> marker (dropWhile is_space (ending @ s)) = None \<Longrightarrow>
    run_ids validIds dss \<noteq> [] \<Longrightarrow> list_all sentence_end ending \<Longrightarrow> s = [] \<or> \<not> sentence_end (hd s) \<Longrightarrow>
    cites validIds s out \<Longrightarrow>
    cites validIds (raw @ ending @ s) (map Inl ending @ Inr (run_ids validIds dss) # out)"

fun flat_inline :: "inline \<Rightarrow> (code_unit + int list) list" where
  "flat_inline (Text t) = map Inl t"
| "flat_inline (Chip ids) = [Inr ids]"

definition flat :: "inline list \<Rightarrow> (code_unit + int list) list" where
  "flat nodes = concat (map flat_inline nodes)"

lemma split_loop_cites:
  "\<exists>out. cites validIds s out \<and> flat (split_loop validIds pending s) = map Inl pending @ out"
proof (induction validIds pending s rule: split_loop.induct)
  case (1 validIds pending s)
  show ?case
  proof (cases "match_run s")
    case None
    show ?thesis
    proof (cases s)
      case Nil
      then show ?thesis
        using None cites.nothing [of validIds] by (subst split_loop.simps) (auto simp: flat_def)
    next
      case (Cons c t)
      then obtain out where out: "cites validIds t out"
        "flat (split_loop validIds (pending @ [c]) t) = map Inl (pending @ [c]) @ out"
        using 1(1) [OF None] by auto
      have "cites validIds (c # t) (Inl c # out)"
        using cites.plain [OF _ out(1), of c] None Cons by (simp add: match_run_None)
      then show ?thesis using None Cons out(2) by (subst split_loop.simps) auto
    qed
  next
    case (Some p)
    obtain dss rest where p: "p = (dss, rest)" by (cases p)
    obtain raw where raw: "marker_run dss raw" "s = raw @ rest" "marker (dropWhile is_space rest) = None"
      using match_run_form Some p by blast
    show ?thesis
    proof (cases "run_ids validIds dss = []")
      case True
      then obtain out where "cites validIds rest out"
        "flat (split_loop validIds (pending @ take (length s - length rest) s) rest) =
           map Inl (pending @ raw) @ out"
        using 1(2) [OF Some p [symmetric]] raw(2) by auto
      then show ?thesis
        using cites.unresolved [OF raw(1,3) True] raw(2) Some p True
        by (subst split_loop.simps) auto
    next
      case False
      let ?tr = "takeWhile sentence_end rest" and ?rest = "dropWhile sentence_end rest"
      obtain out where out: "cites validIds ?rest out" "flat (split_loop validIds [] ?rest) = out"
        using 1(3) [OF Some p [symmetric] False] by auto
      have "cites validIds (raw @ ?tr @ ?rest) (map Inl ?tr @ Inr (run_ids validIds dss) # out)"
      proof (rule cites.chip [OF raw(1) _ False _ _ out(1)])
        show "marker (dropWhile is_space (?tr @ ?rest)) = None" using raw(3) by simp
        show "list_all sentence_end ?tr" using set_takeWhileD by (fastforce simp: list_all_iff)
        show "?rest = [] \<or> \<not> sentence_end (hd ?rest)" using hd_dropWhile by blast
      qed
      then show ?thesis
        using raw(2) Some p False out(2)
        by (subst split_loop.simps) (auto simp: flat_def Let_def)
    qed
  qed
qed

lemma split_loop_nodes:
  "node \<in> set (split_loop validIds pending s) \<Longrightarrow>
   (case node of Text t \<Rightarrow> t \<noteq> [] | Chip ids \<Rightarrow> ids \<noteq> [] \<and> (\<exists>dss. ids = run_ids validIds dss))"
proof (induction validIds pending s rule: split_loop.induct)
  case (1 validIds pending s)
  show ?case
  proof (cases "match_run s")
    case None
    then show ?thesis
      using 1(1) [OF None] 1(4)
      by (cases s) (simp_all add: split_loop.simps [of _ _ "[]"] split_loop.simps [of _ _ "_ # _"]
          split: if_splits)
  next
    case (Some p)
    obtain dss rest where p: "p = (dss, rest)" by (cases p)
    show ?thesis
      using 1(2) [OF Some p [symmetric]] 1(3) [OF Some p [symmetric]] 1(4)
      by (subst (asm) split_loop.simps) (auto simp: Some p Let_def split: if_splits)
  qed
qed

lemma splitText_chips:
  assumes "Chip ids \<in> set (splitText validIds s)"
  shows "ids \<noteq> [] \<and> distinct ids \<and> set ids \<subseteq> set validIds \<and> (\<forall>i \<in> set ids. 0 \<le> i)"
proof -
  have "Chip ids \<in> set (split_loop validIds [] s)"
    using assms by (auto simp: splitText_def Let_def split: if_splits)
  from split_loop_nodes [OF this] obtain dss where "ids \<noteq> []" "ids = run_ids validIds dss" by auto
  then show ?thesis by auto
qed

lemma cites_empty: "cites validIds [] out \<longleftrightarrow> out = []"
proof
  have "cites validIds s out \<Longrightarrow> s = [] \<Longrightarrow> out = []" for s
    by (induction rule: cites.induct) (auto elim: marker_run.cases)
  then show "cites validIds [] out \<Longrightarrow> out = []" by simp
qed (simp add: cites.nothing)

lemma splitText_cites: "cites validIds s (flat (splitText validIds s))"
proof -
  obtain out where out: "cites validIds s out" "flat (split_loop validIds [] s) = out"
    using split_loop_cites [of validIds s "[]"] by auto
  have "flat (splitText validIds s) = flat (split_loop validIds [] s) \<or> splitText validIds s = [Text s]
      \<and> split_loop validIds [] s = []" by (simp add: splitText_def Let_def)
  then show ?thesis
  proof
    assume empty: "splitText validIds s = [Text s] \<and> split_loop validIds [] s = []"
    have "s = []"
    proof (rule ccontr)
      assume "s \<noteq> []"
      moreover have "cites validIds t [] \<Longrightarrow> t = []" for t
        by (erule cites.cases) (auto elim: marker_run.cases)
      ultimately show False using out empty by (simp add: flat_def)
    qed
    then show ?thesis using empty cites.nothing by (simp add: flat_def)
  qed (use out in simp)
qed

subsection \<open>The tree\<close>

lemma transform_code: "transform validIds True node = [node]"
proof (induction node)
  case (HElement tagName classes children)
  then have "concat (map (transform validIds True) children) = children"
    by (induction children) simp_all
  then show ?case by simp
qed simp_all

fun citations :: "hast \<Rightarrow> jstr list" where
  "citations (HCitation raw) = [raw]"
| "citations (HElement tagName classes children) = concat (map citations children)"
| "citations node = []"

lemma digits_no_comma: "44 \<notin> set (digits n)"
  using digits_are_digits [of n] by (auto simp: list_all_iff is_digit_def)

lemma citation_ids_cite_ids:
  assumes "ids \<noteq> []" "\<forall>i \<in> set ids. 0 \<le> i"
  shows "citation_ids (Some (cite_ids ids)) = ids"
proof -
  have "split_on 44 (cite_ids ids) = map (digits \<circ> nat) ids"
    unfolding cite_ids_def using assms(1) digits_no_comma by (intro split_on_join) auto
  moreover have "List.map_filter cite_number (map (digits \<circ> nat) ids) = ids"
    using assms(2) digits_are_digits
    by (induction ids) (simp_all add: List.map_filter_simps cite_number_def digits_value_digits)
  ultimately show ?thesis by (simp add: citation_ids_def)
qed

lemma cited_sources_ids:
  assumes "ids \<noteq> []" "\<forall>i \<in> set ids. 0 \<le> i" "set ids \<subseteq> src_id ` set sources"
  shows "map src_id (cited_sources sources (Some (cite_ids ids))) = ids"
proof -
  have found: "\<exists>s. List.find (\<lambda>s. src_id s = i) sources = Some s \<and> src_id s = i" if "i \<in> set ids" for i
  proof (cases "List.find (\<lambda>s. src_id s = i) sources")
    case None
    then show ?thesis using that assms(3) by (auto simp: find_None)
  next
    case (Some s)
    then show ?thesis by (auto dest: find_SomeD)
  qed
  have "map src_id (List.map_filter (\<lambda>i. List.find (\<lambda>s. src_id s = i) sources) is) = is"
    if "set is \<subseteq> set ids" for "is"
    using that
  proof (induction "is")
    case (Cons i "is")
    then show ?case using found [of i] by (auto simp: List.map_filter_simps)
  qed (simp add: List.map_filter_simps)
  then show ?thesis using citation_ids_cite_ids [OF assms(1,2)] by (simp add: cited_sources_def)
qed

lemma transform_citations:
  "citations node = [] \<Longrightarrow> raw \<in> set (concat (map citations (transform validIds inCode node))) \<Longrightarrow>
   \<exists>ids. raw = cite_ids ids \<and> ids \<noteq> [] \<and> (\<forall>i \<in> set ids. 0 \<le> i) \<and> set ids \<subseteq> set validIds"
proof (induction node arbitrary: inCode)
  case (HText t)
  then obtain nd where nd: "nd \<in> set (splitText validIds t)" "raw \<in> set (citations (inline_node nd))"
    by (auto split: if_splits)
  show ?case
  proof (cases nd)
    case (Chip ids)
    then show ?thesis using splitText_chips [of ids validIds t] nd by auto
  qed (use nd in simp)
next
  case (HElement tagName classes children)
  then show ?case by fastforce
qed simp_all

subsection \<open>The reference relation is a function\<close>

lemma marker_at: "ds \<noteq> [] \<Longrightarrow> list_all is_digit ds \<Longrightarrow> marker (91 # ds @ 93 # r) = Some (ds, r)"
proof -
  assume ds: "ds \<noteq> []" "list_all is_digit ds"
  have stop: "\<not> is_digit 93" by (simp add: is_digit_def)
  then have "takeWhile is_digit (ds @ 93 # r) = ds" "dropWhile is_digit (ds @ 93 # r) = 93 # r"
    using ds(2) by (simp_all add: list_all_iff)
  then show ?thesis using ds(1) stop by (simp add: marker_def Let_def)
qed

lemma marker_run_more:
  assumes "marker_run dss raw" and "list_all is_space ws" and "marker (dropWhile is_space s) = None"
  shows "run_more (ws @ raw @ s) = (dss, s)"
  using assms
proof (induction arbitrary: ws rule: marker_run.induct)
  have skip: "dropWhile is_space (ws @ 91 # t) = 91 # t" if "list_all is_space ws" for ws and t :: jstr
    using that by (simp add: list_all_iff is_space_def)
  case (one ds)
  then show ?case
    using skip [of ws "ds @ 93 # s"] marker_at [of ds s]
      run_more_Some [of "ws @ 91 # ds @ 93 # s" ds s] run_more_None [of s] by simp
next
  have skip: "dropWhile is_space (ws @ 91 # t) = 91 # t" if "list_all is_space ws" for ws and t :: jstr
    using that by (simp add: list_all_iff is_space_def)
  case (more ds ws' dss raw)
  then show ?case
    using skip [of ws "ds @ 93 # ws' @ raw @ s"] marker_at [of ds "ws' @ raw @ s"]
      run_more_Some [of "ws @ 91 # ds @ 93 # ws' @ raw @ s" ds "ws' @ raw @ s"] by simp
qed

lemma match_run_at:
  assumes "marker_run dss raw" and "marker (dropWhile is_space s) = None"
  shows "match_run (raw @ s) = Some (dss, s)"
  using assms
proof cases
  case (one ds)
  then show ?thesis using marker_at [of ds s] run_more_None [OF assms(2)] by (simp add: match_run_def)
next
  case (more ds ws dss' raw')
  then show ?thesis
    using marker_at [of ds "ws @ raw' @ s"] marker_run_more [OF more(6,5) assms(2)]
    by (simp add: match_run_def)
qed

lemma cites_split_loop:
  "cites validIds s out \<Longrightarrow> flat (split_loop validIds pending s) = map Inl pending @ out"
proof (induction arbitrary: pending rule: cites.induct)
  case nothing
  have "match_run [] = None" by (simp add: match_run_None marker_def)
  then show ?case by (subst split_loop.simps) (simp add: flat_def)
next
  case (plain c s out)
  have "match_run (c # s) = None" using plain(1) by (simp add: match_run_None)
  then show ?case using plain by (subst split_loop.simps) simp
next
  case (unresolved dss raw s out)
  then show ?case by (subst split_loop.simps) (simp add: match_run_at)
next
  case (chip dss raw ending s out)
  have "takeWhile sentence_end (ending @ s) = ending" "dropWhile sentence_end (ending @ s) = s"
    using chip(4,5) by (cases s; simp add: list_all_iff)+
  then show ?case
    using chip match_run_at [OF chip(1,2)]
    by (subst split_loop.simps) (auto simp: Let_def flat_def)
qed

lemma splitText_iff_cites: "cites validIds s out \<longleftrightarrow> out = flat (splitText validIds s)"
proof
  assume c: "cites validIds s out"
  have "flat (split_loop validIds [] s) = out" using cites_split_loop [OF c, of "[]"] by simp
  moreover have "flat (split_loop validIds [] s) = flat (splitText validIds s)"
    using cites_split_loop [OF splitText_cites, of validIds "[]" s] by simp
  ultimately show "out = flat (splitText validIds s)" by simp
qed (use splitText_cites in simp)

section \<open>Lemmas on sources\<close>

lemma find_snoc:
  "List.find p (xs @ [x]) =
     (case List.find p xs of Some y \<Rightarrow> Some y | None \<Rightarrow> if p x then Some x else None)"
  by (induction xs) simp_all

lemma foldl_concat: "foldl (\<lambda>acc x. foldl f acc (g x)) a xs = foldl f a (concat (map g xs))"
  by (induction xs arbitrary: a) simp_all

definition source_at :: "message_source list \<Rightarrow> int \<Rightarrow> message_source option" where
  "source_at ss i = List.find (\<lambda>s. src_id s = i) ss"

lemma source_at_Some: "source_at ss i = Some s \<Longrightarrow> s \<in> set ss \<and> src_id s = i"
  unfolding source_at_def by (auto dest: find_SomeD)

lemma source_at_None: "source_at ss i = None \<longleftrightarrow> i \<notin> src_id ` set ss"
  unfolding source_at_def by (auto simp: find_None)

definition ambiguous_ids :: "message_source list \<Rightarrow> int set" where
  "ambiguous_ids ss =
     {i. \<exists>s \<in> set ss. \<exists>t. source_at ss i = Some t \<and> src_id s = i \<and> src_url t \<noteq> src_url s}"

lemma collect_source_invariant:
  "\<exists>byId ambiguous. foldl collect_source ([], []) ss = (byId, ambiguous) \<and>
     distinct (map src_id byId) \<and> source_at byId = source_at ss \<and> set ambiguous = ambiguous_ids ss"
proof (induction ss rule: rev_induct)
  case Nil
  show ?case by (simp add: ambiguous_ids_def)
next
  case (snoc x ss)
  then obtain byId ambiguous where b: "foldl collect_source ([], []) ss = (byId, ambiguous)"
    "distinct (map src_id byId)" "source_at byId = source_at ss" "set ambiguous = ambiguous_ids ss"
    by auto
  have grown: "source_at (ys @ [x]) i =
      (case source_at ys i of Some y \<Rightarrow> Some y | None \<Rightarrow> if src_id x = i then Some x else None)" for ys i
    by (simp add: source_at_def find_snoc)
  have step: "foldl collect_source ([], []) (ss @ [x]) =
      (case source_at ss (src_id x) of
         None \<Rightarrow> (byId @ [x], ambiguous)
       | Some t \<Rightarrow> if src_url t \<noteq> src_url x then (byId, add_new (src_id x) ambiguous)
           else (byId, ambiguous))"
    using b(1,3) by (simp add: collect_source_def flip: source_at_def)
  show ?case
  proof (cases "source_at ss (src_id x)")
    case None
    then have "src_id x \<notin> src_id ` set byId" using b(3) source_at_None by metis
    moreover have "ambiguous_ids (ss @ [x]) = ambiguous_ids ss"
    proof (rule set_eqI)
      fix i
      have "\<forall>s \<in> set ss. src_id s \<noteq> src_id x" using None unfolding source_at_None by (metis imageI)
      moreover have "source_at (ss @ [x]) (src_id x) = Some x"
        "i \<noteq> src_id x \<Longrightarrow> source_at (ss @ [x]) i = source_at ss i"
        using None by (simp_all add: grown split: option.splits)
      ultimately show "i \<in> ambiguous_ids (ss @ [x]) \<longleftrightarrow> i \<in> ambiguous_ids ss"
        by (cases "i = src_id x") (auto simp: ambiguous_ids_def)
    qed
    moreover have "source_at (byId @ [x]) = source_at (ss @ [x])" using b(3) by (simp add: grown fun_eq_iff)
    ultimately show ?thesis using None b(2,4) step by simp
  next
    case (Some t)
    then have same: "source_at (ss @ [x]) = source_at ss"
      by (auto simp: grown fun_eq_iff split: option.splits)
    then have "ambiguous_ids (ss @ [x]) =
        (if src_url t \<noteq> src_url x then insert (src_id x) (ambiguous_ids ss) else ambiguous_ids ss)"
      using Some by (auto simp: ambiguous_ids_def)
    then show ?thesis using Some b(2,3,4) same step by auto
  qed
qed

lemma conversationSources_iff:
  fixes messages :: "message_response list"
  defines "ss \<equiv> concat (map message_sources messages)"
  shows "distinct (map src_id (conversationSources messages))"
    and "s \<in> set (conversationSources messages) \<longleftrightarrow>
      source_at ss (src_id s) = Some s \<and> (\<forall>t \<in> set ss. src_id t = src_id s \<longrightarrow> src_url t = src_url s)"
proof -
  obtain byId ambiguous where b: "foldl collect_source ([], []) ss = (byId, ambiguous)"
    "distinct (map src_id byId)" "source_at byId = source_at ss" "set ambiguous = ambiguous_ids ss"
    using collect_source_invariant by blast
  have out: "conversationSources messages = filter (\<lambda>s. src_id s \<notin> set ambiguous) byId"
    using b(1) unfolding ss_def by (simp add: conversationSources_def foldl_concat)
  show "distinct (map src_id (conversationSources messages))"
    unfolding out by (rule distinct_map_filterI [OF b(2)])
  have "s \<in> set byId \<longleftrightarrow> source_at ss (src_id s) = Some s"
    using find_by_key [OF b(2)] source_at_Some [of byId "src_id s" s] b(3)
    by (metis source_at_def)
  moreover have "src_id s \<notin> set ambiguous \<longleftrightarrow>
      (\<forall>t \<in> set ss. src_id t = src_id s \<longrightarrow> src_url t = src_url s)" if "source_at ss (src_id s) = Some s"
    using that b(4) by (auto simp: ambiguous_ids_def)
  ultimately show "s \<in> set (conversationSources messages) \<longleftrightarrow>
      source_at ss (src_id s) = Some s \<and> (\<forall>t \<in> set ss. src_id t = src_id s \<longrightarrow> src_url t = src_url s)"
    unfolding out by auto
qed

section \<open>Properties\<close>

text \<open>
  Citations (C27). \<open>splitText\<close> computes exactly what the reference relation says: a maximal run of markers
  with a known source becomes one chip, placed behind the sentence end that follows the run, and every
  other code unit, unresolved markers included, stays where it is. Code, preformatted text and formulas
  are left as they are.
\<close>

theorem citations_faithful:
  "(cites validIds s out \<longleftrightarrow> out = flat (splitText validIds s)) \<and>
   (keeps_subtree tagName classes \<longrightarrow>
      rehypeCitations validIds [HElement tagName classes children] = [HElement tagName classes children])"
proof (intro conjI impI)
  show "cites validIds s out \<longleftrightarrow> out = flat (splitText validIds s)" by (rule splitText_iff_cites)
  have "concat (map (transform validIds True) children) = children"
    by (induction children) (simp_all add: transform_code)
  then show "keeps_subtree tagName classes \<Longrightarrow>
      rehypeCitations validIds [HElement tagName classes children] = [HElement tagName classes children]"
    by (simp add: rehypeCitations_def)
qed

theorem citations_faithful_witness:
  "keeps_subtree (js ''pre'') [] \<and>
   rehypeCitations [1] [HElement (js ''pre'') [] [HText (js ''a[1]'')]] =
     [HElement (js ''pre'') [] [HText (js ''a[1]'')]]"
proof -
  have "keeps_subtree (js ''pre'') []" by (simp add: keeps_subtree_def)
  then show ?thesis
    using citations_faithful [of "[1]" "[]" "[]" "js ''pre''" "[]" "[HText (js ''a[1]'')]"] by blast
qed

text \<open>
  Sources of a conversation (C0). The sources that can be cited by id are the first ones with their id
  over all messages, each id once, and exactly those whose id is bound to a single URL.
\<close>

theorem conversation_sources_unambiguous:
  "distinct (map src_id (conversationSources messages)) \<and>
   (s \<in> set (conversationSources messages) \<longleftrightarrow>
      List.find (\<lambda>t. src_id t = src_id s) (concat (map message_sources messages)) = Some s \<and>
      (\<forall>t \<in> set (concat (map message_sources messages)). src_id t = src_id s \<longrightarrow> src_url t = src_url s))"
  using conversationSources_iff unfolding source_at_def by blast

definition demo_source :: "int \<Rightarrow> string \<Rightarrow> message_source" where
  "demo_source i url = \<lparr>src_id = i, src_title = [], src_url = js url, src_snippet = None,
     src_published_at = None, src_provider = None\<rparr>"

definition demo_reply :: "message_source list \<Rightarrow> message_response" where
  "demo_reply ss = \<lparr>msg_id = [], msg_conversation_id = [], msg_run_id = None, msg_role = Assistant,
     msg_content = [], msg_reasoning = None, msg_reasoning_summary = None, msg_metadata = Some (Some ss),
     msg_attachments = None, msg_reply_quote = None, msg_timing = None, msg_position = 0,
     msg_created_at = []\<rparr>"

theorem conversation_sources_unambiguous_witness:
  "demo_source 1 ''a'' \<notin> set (conversationSources
     [demo_reply [demo_source 1 ''a'', demo_source 2 ''b''], demo_reply [demo_source 1 ''c'']]) \<and>
   demo_source 2 ''b'' \<in> set (conversationSources
     [demo_reply [demo_source 1 ''a'', demo_source 2 ''b''], demo_reply [demo_source 1 ''c'']])"
  using conversation_sources_unambiguous
    [of "[demo_reply [demo_source 1 ''a'', demo_source 2 ''b''], demo_reply [demo_source 1 ''c'']]"]
  by (simp add: demo_reply_def demo_source_def message_sources_def)

text \<open>
  Chips resolve (C36). In a streaming message every citation element the renderer meets was put there by
  the plugin and finds the source of each of its ids: one of the run itself, or, for an id the run did
  not return, the unambiguous source of an earlier turn. The fallback that prints the marker again is
  never needed.
\<close>

theorem streaming_chips_resolve:
  fixes draftSources :: "message_source list option"
  defines "current \<equiv> nullish draftSources []"
  assumes parsed: "\<forall>node \<in> set tree. citations node = []"
    and chip: "raw \<in> set (concat (map citations (cite_tree (streaming_sources draftSources messages) tree)))"
  shows "map src_id (cited_sources (nullish (streaming_sources draftSources messages) []) (Some raw)) =
           citation_ids (Some raw) \<and> citation_ids (Some raw) \<noteq> [] \<and>
         (\<forall>s \<in> set (cited_sources (nullish (streaming_sources draftSources messages) []) (Some raw)).
            s \<in> set current \<or>
            s \<in> set (conversationSources messages) \<and> src_id s \<notin> src_id ` set current)"
proof -
  let ?ss = "nullish (streaming_sources draftSources messages) []"
  have ss: "?ss = current @ filter (\<lambda>s. src_id s \<notin> src_id ` set current) (conversationSources messages)"
    by (simp add: streaming_sources_def Let_def current_def)
  have plugin: "cite_tree (streaming_sources draftSources messages) tree =
      (if ?ss \<noteq> [] then rehypeCitations (map src_id ?ss) tree else tree)"
    by (simp add: cite_tree_def Let_def)
  have "?ss \<noteq> []" using chip parsed unfolding plugin by (auto split: if_splits)
  then obtain node where node: "node \<in> set tree"
    "raw \<in> set (concat (map citations (transform (map src_id ?ss) False node)))"
    using chip unfolding plugin rehypeCitations_def by auto
  obtain ids where ids: "raw = cite_ids ids" "ids \<noteq> []" "\<forall>i \<in> set ids. 0 \<le> i"
    "set ids \<subseteq> set (map src_id ?ss)"
    using transform_citations [OF _ node(2)] parsed node(1) by blast
  have "\<forall>s \<in> set (cited_sources ?ss (Some raw)). s \<in> set ?ss"
    by (auto simp: cited_sources_def List.map_filter_def dest: find_SomeD)
  moreover have "map src_id (cited_sources ?ss (Some raw)) = ids"
    using cited_sources_ids [OF ids(2,3), of ?ss] ids(1,4) by simp
  ultimately show ?thesis
    using citation_ids_cite_ids [OF ids(2,3)] ids(1,2) unfolding ss by auto
qed

theorem streaming_chips_resolve_witness:
  "map src_id (cited_sources (nullish (streaming_sources (Some [demo_source 2 ''b''])
       [demo_reply [demo_source 1 ''a'']]) []) (Some (js ''1,2''))) = [1, 2]"
proof -
  have ids: "citation_ids (Some (js ''1,2'')) = [1, 2]"
    by code_simp
  have "js ''1,2'' \<in> set (concat (map citations (cite_tree (streaming_sources (Some [demo_source 2 ''b''])
       [demo_reply [demo_source 1 ''a'']]) [HText (js ''x[1] [2].'')])))"
    by code_simp
  moreover have "\<forall>node \<in> set [HText (js ''x[1] [2].'')]. citations node = []" by simp
  ultimately show ?thesis
    using streaming_chips_resolve [of "[HText (js ''x[1] [2].'')]" "js ''1,2''" "Some [demo_source 2 ''b'']"
        "[demo_reply [demo_source 1 ''a'']]"] ids by simp
qed

end
