(* ===== verification/Message_Format.thy ===== *)
theory Message_Format
  imports Message_Text
begin

text \<open>
  The formats a message passes through: the delimiters of formulas
  (\<open>frontend/src/messages/mathDelimiters.ts\<close>), the headline of a streaming summary
  (\<open>frontend/src/messages/reasoningPreview.ts\<close>), the state of a streaming message
  (\<open>frontend/src/messages/StreamingMessage.tsx\<close>), the language of a code block
  (\<open>frontend/src/messages/markdown/codeLanguage.ts\<close>) and the copy of a table
  (\<open>frontend/src/messages/markdown/tableTsv.ts\<close>).

  The regular expressions are written as the deterministic recognisers they amount to.
\<close>

section \<open>Definitions\<close>

subsection \<open>Code regions\<close>

definition fence :: "code_unit \<Rightarrow> jstr" where
  "fence c = [c, c, c]"

text \<open>A fenced block: up to the next fence, or to the end while it is still streaming.\<close>

definition fenced :: "code_unit \<Rightarrow> jstr \<Rightarrow> jstr \<times> jstr" where
  "fenced c s =
     (case index_of (fence c) (drop 3 s) of
        None \<Rightarrow> (s, [])
      | Some i \<Rightarrow> (take (i + 6) s, drop (i + 6) s))"

text \<open>
  An inline span: the opening back quotes are taken greedily; two of them with no closer
  one on the line are an empty span.
\<close>

definition inline_code :: "jstr \<Rightarrow> (jstr \<times> jstr) option" where
  "inline_code s =
     (let opener = takeWhile ((=) 96) s; after = dropWhile ((=) 96) s;
          body = takeWhile (\<lambda>c. c \<noteq> 96 \<and> c \<noteq> 10) after; rest = dropWhile (\<lambda>c. c \<noteq> 96 \<and> c \<noteq> 10) after
      in if opener = [] then None
         else if rest \<noteq> [] \<and> hd rest = 96
         then Some (opener @ body @ takeWhile ((=) 96) rest, dropWhile ((=) 96) rest)
         else if 2 \<le> length opener then Some (opener, after)
         else None)"

definition code_region :: "jstr \<Rightarrow> (jstr \<times> jstr) option" where
  "code_region s =
     (if starts_with (fence 96) s then Some (fenced 96 s)
      else if starts_with (fence 126) s then Some (fenced 126 s)
      else inline_code s)"

lemma fenced_parts: "starts_with (fence c) s \<Longrightarrow> fst (fenced c s) @ snd (fenced c s) = s \<and> fst (fenced c s) \<noteq> []"
  by (auto simp: fenced_def starts_with_def fence_def split: option.splits)

lemma inline_parts: "inline_code s = Some (r, rest) \<Longrightarrow> r @ rest = s \<and> r \<noteq> []"
  by (auto simp: inline_code_def Let_def split: if_splits)

lemma code_region_parts: "code_region s = Some (r, rest) \<Longrightarrow> r @ rest = s \<and> r \<noteq> []"
  using fenced_parts [of 96 s] fenced_parts [of 126 s] inline_parts [of s r rest]
  by (auto simp: code_region_def split: if_splits)

text \<open>\<open>split(CODE_REGION)\<close>: the texts between the code regions at the even positions, the regions at the odd ones.\<close>

function split_code :: "jstr \<Rightarrow> jstr list" where
  "split_code s =
     (case code_region s of
        Some (r, rest) \<Rightarrow> [] # r # split_code rest
      | None \<Rightarrow>
          (case s of
             [] \<Rightarrow> [[]]
           | c # t \<Rightarrow> (case split_code t of [] \<Rightarrow> [[c]] | p # ps \<Rightarrow> (c # p) # ps)))"
  by pat_completeness auto

termination split_code
proof (relation "measure length")
  fix s :: jstr and p :: "jstr \<times> jstr" and r rest :: jstr
  assume "code_region s = Some p" and "(r, rest) = p"
  then have "r @ rest = s" "r \<noteq> []" using code_region_parts by auto
  then show "(rest, s) \<in> measure length" by auto
qed simp_all

declare split_code.simps [simp del]

subsection \<open>Formulas\<close>

text \<open>The matches of \<open>/\$\$/g\<close>, and \<open>lastIndexOf("$$")\<close>.\<close>

fun count_dollars :: "jstr \<Rightarrow> nat" where
  "count_dollars (a # b # s) =
     (if a = 36 \<and> b = 36 then Suc (count_dollars s) else count_dollars (b # s))"
| "count_dollars s = 0"

fun last_dollars :: "jstr \<Rightarrow> nat option" where
  "last_dollars [] = None"
| "last_dollars (c # s) =
     (case last_dollars s of
        Some i \<Rightarrow> Some (Suc i)
      | None \<Rightarrow> if starts_with [36, 36] (c # s) then Some 0 else None)"

text \<open>The dollars outside of code.\<close>

definition outside_dollars :: "jstr list \<Rightarrow> nat" where
  "outside_dollars parts = sum_list (map (\<lambda>i. if even i then count_dollars (parts ! i) else 0) [0..<length parts])"

text \<open>The loop of \<open>clampStreamingMath\<close> over the parts below index \<open>n\<close>, from the last one.\<close>

primrec clamp_loop :: "jstr \<Rightarrow> jstr list \<Rightarrow> nat \<Rightarrow> jstr" where
  "clamp_loop markdown parts 0 = markdown"
| "clamp_loop markdown parts (Suc i) =
     (if odd i then clamp_loop markdown parts i
      else (case last_dollars (parts ! i) of
              None \<Rightarrow> clamp_loop markdown parts i
            | Some idx \<Rightarrow> concat (take i parts) @ take idx (parts ! i)))"

definition clampStreamingMath :: "jstr \<Rightarrow> jstr" where
  "clampStreamingMath markdown =
     (let parts = split_code markdown
      in if even (outside_dollars parts) then markdown else clamp_loop markdown parts (length parts))"

text \<open>
  \<open>replace\<close> with the pattern \<open>opener([\s\S]+?)closer\<close> and a function for delimiters of two code units: the body has at least one.
\<close>

function replace_pairs :: "jstr \<Rightarrow> jstr \<Rightarrow> (jstr \<Rightarrow> jstr) \<Rightarrow> jstr \<Rightarrow> jstr" where
  "replace_pairs opener closer f s =
     (case s of
        [] \<Rightarrow> []
      | c # t \<Rightarrow>
          (case (if starts_with opener s then index_of closer (drop 3 s) else None) of
             None \<Rightarrow> c # replace_pairs opener closer f t
           | Some i \<Rightarrow> f (take (i + 1) (drop 2 s)) @ replace_pairs opener closer f (drop (i + 5) s)))"
  by pat_completeness auto

termination replace_pairs
  by (relation "measure (\<lambda>(_, _, _, s). length s)") auto

declare replace_pairs.simps [simp del]

definition display_math :: "jstr \<Rightarrow> jstr" where
  "display_math body = [10, 10, 36, 36, 10] @ js_trim body @ [10, 36, 36, 10, 10]"

definition inline_math :: "jstr \<Rightarrow> jstr" where
  "inline_math body = [36, 36] @ js_trim body @ [36, 36]"

definition rewrite_math :: "jstr \<Rightarrow> jstr" where
  "rewrite_math text =
     replace_pairs [92, 40] [92, 41] inline_math (replace_pairs [92, 91] [92, 93] display_math text)"

definition blank :: "code_unit \<Rightarrow> bool" where
  "blank c \<longleftrightarrow> c = 32 \<or> c = 9"

text \<open>\<open>\r?\n\<close> at the start: what follows.\<close>

definition newline_at :: "jstr \<Rightarrow> jstr option" where
  "newline_at s =
     (if starts_with [13, 10] s then Some (drop 2 s)
      else if starts_with [10] s then Some (drop 1 s) else None)"

lemma newline_at_shorter: "newline_at s = Some r \<Longrightarrow> length r < length s"
  by (cases s) (auto simp: newline_at_def starts_with_def split: if_splits)

function fold_newlines :: "jstr \<Rightarrow> jstr" where
  "fold_newlines s =
     (case s of
        [] \<Rightarrow> []
      | c # t \<Rightarrow>
          (case newline_at (dropWhile blank s) of
             Some r \<Rightarrow> 32 # fold_newlines (dropWhile blank r)
           | None \<Rightarrow> c # fold_newlines t))"
  by pat_completeness auto

termination fold_newlines
proof (relation "measure length")
  fix s r :: jstr
  assume "newline_at (dropWhile blank s) = Some r"
  then have "length r < length s"
    using newline_at_shorter length_dropWhile_le [of blank s] by fastforce
  then show "(dropWhile blank r, s) \<in> measure length"
    using length_dropWhile_le [of blank r] by simp
qed simp_all

declare fold_newlines.simps [simp del]

definition line_leading :: "jstr \<Rightarrow> bool" where
  "line_leading out \<longleftrightarrow> (case dropWhile blank (rev out) of [] \<Rightarrow> True | c # _ \<Rightarrow> c = 10)"

definition block_opener_tail :: "jstr \<Rightarrow> bool" where
  "block_opener_tail raw \<longleftrightarrow> newline_at (dropWhile blank raw) \<noteq> None"

text \<open>One closed region of \<open>reflowMathRegions\<close>, behind the text \<open>out\<close> written so far.\<close>

definition reflow_region :: "jstr \<Rightarrow> jstr \<Rightarrow> jstr" where
  "reflow_region out raw =
     (let body = js_trim (fold_newlines raw)
      in if line_leading out \<and> block_opener_tail raw
         then (if out \<noteq> [] \<and> \<not> ends_with [10, 10] out
               then (if ends_with [10] out then out @ [10] else out @ [10, 10]) else out) @
              [36, 36, 10] @ body @ [10, 36, 36, 10, 10]
         else out @ [36, 36] @ body @ [36, 36])"

function reflow_loop :: "jstr \<Rightarrow> jstr \<Rightarrow> jstr" where
  "reflow_loop out s =
     (case index_of [36, 36] s of
        None \<Rightarrow> out @ s
      | Some opener \<Rightarrow>
          let before = out @ take opener s; inner = drop (opener + 2) s
          in (case index_of [36, 36] inner of
                None \<Rightarrow> before @ drop opener s
              | Some closer \<Rightarrow> reflow_loop (reflow_region before (take closer inner)) (drop (closer + 2) inner)))"
  by pat_completeness auto

termination reflow_loop
proof (relation "measure (\<lambda>(_, s). length s)")
  fix out s :: jstr and opener closer :: nat and before inner :: jstr
  assume "index_of [36, 36] s = Some opener" "before = out @ take opener s"
    and inner: "inner = drop (opener + 2) s" and "index_of [36, 36] inner = Some closer"
  then have "inner \<noteq> []" by auto
  then show "((reflow_region before (take closer inner), drop (closer + 2) inner), out, s)
      \<in> measure (\<lambda>(_, s). length s)" using inner by auto
qed simp

declare reflow_loop.simps [simp del]

definition reflowMathRegions :: "jstr \<Rightarrow> jstr" where
  "reflowMathRegions text = reflow_loop [] text"

definition normalizeMathDelimiters :: "jstr \<Rightarrow> jstr" where
  "normalizeMathDelimiters markdown =
     (let parts = split_code markdown
      in concat (map (\<lambda>i. if odd i then parts ! i else reflowMathRegions (rewrite_math (parts ! i)))
           [0..<length parts]))"

section \<open>Lemmas on code regions\<close>

lemma takeWhile_take_min: "takeWhile P (take n xs) = take n (takeWhile P xs)"
  by (induction xs arbitrary: n) (auto simp: take_Cons split: nat.splits)

lemma dropWhile_take_min: "dropWhile P (take n xs) = take (n - length (takeWhile P xs)) (dropWhile P xs)"
  by (induction xs arbitrary: n) (auto simp: take_Cons split: nat.splits)

lemma starts_with_take: "starts_with p (take n s) \<Longrightarrow> starts_with p s"
  by (metis append_take_drop_id starts_with_mono)

lemma take_starts_with: "starts_with p s \<Longrightarrow> length p \<le> n \<Longrightarrow> starts_with p (take n s)"
  by (simp add: starts_with_def min_absorb1)

lemma index_of_take:
  "index_of p xs = Some i \<Longrightarrow> i + length p \<le> n \<Longrightarrow> index_of p (take n xs) = Some i"
proof (induction xs arbitrary: i n)
  case (Cons x xs)
  show ?case
  proof (cases "starts_with p (x # xs)")
    case True
    then show ?thesis
      using Cons.prems take_starts_with [OF True, of n] by (cases n) auto
  next
    case False
    then obtain j where j: "index_of p xs = Some j" "i = Suc j" using Cons.prems(1) by auto
    moreover obtain m where "n = Suc m" using Cons.prems(2) j(2) by (cases n) auto
    moreover have "\<not> starts_with p (take n (x # xs))" using False starts_with_take by blast
    ultimately show ?thesis using Cons.IH [of j m] Cons.prems(2) by simp
  qed
qed (simp split: if_splits)

lemma inline_code_take_None: "inline_code s = None \<Longrightarrow> inline_code (take n s) = None"
  by (auto simp: inline_code_def Let_def takeWhile_take_min dropWhile_take_min hd_conv_nth
      split: if_splits)

lemma inline_code_take_Some:
  assumes code: "inline_code s = Some (r, rest)" and n: "length r \<le> n"
  shows "\<exists>x. inline_code (take n s) = Some (r, x)"
proof -
  let ?inner = "\<lambda>c. c \<noteq> 96 \<and> c \<noteq> (10 :: code_unit)"
  define a y where "a = takeWhile ((=) 96) s" and "y = dropWhile ((=) 96) s"
  define b z where "b = takeWhile ?inner y" and "z = dropWhile ?inner y"
  note parts = a_def y_def b_def z_def
  have eq: "inline_code s = (if a = [] then None
      else if z \<noteq> [] \<and> hd z = 96 then Some (a @ b @ takeWhile ((=) 96) z, dropWhile ((=) 96) z)
      else if 2 \<le> length a then Some (a, y) else None)"
    unfolding parts inline_code_def Let_def ..
  have eq': "inline_code (take n s) = (if take n a = [] then None
      else let y' = take (n - length a) y; b' = take (n - length a) b; z' = take (n - length a - length b) z in
        if z' \<noteq> [] \<and> hd z' = 96
        then Some (take n a @ b' @ takeWhile ((=) 96) z', dropWhile ((=) 96) z')
        else if 2 \<le> length (take n a) then Some (take n a, y') else None)"
    unfolding parts inline_code_def Let_def takeWhile_take_min dropWhile_take_min ..
  show ?thesis
  proof (cases "a \<noteq> [] \<and> z \<noteq> [] \<and> hd z = 96")
    case True
    then have r: "r = a @ b @ takeWhile ((=) 96) z" using code eq by simp
    moreover have "takeWhile ((=) 96) z \<noteq> []" using True by (cases z) auto
    ultimately have "n - length a - length b > 0" "length (takeWhile ((=) 96) z) \<le> n - length a - length b"
      "length a \<le> n" "length b \<le> n - length a"
      using n by (auto simp: neq_Nil_conv)
    then show ?thesis using True r unfolding eq' by (simp add: takeWhile_take_min)
  next
    case False
    then have "r = a" "2 \<le> length a" "z = [] \<or> hd z \<noteq> 96" using code eq by (auto split: if_splits)
    then show ?thesis using n unfolding eq' by (cases "n - length a - length b") (auto simp: Let_def)
  qed
qed

lemma code_region_take_None: "code_region s = None \<Longrightarrow> code_region (take n s) = None"
  using starts_with_take inline_code_take_None by (auto simp: code_region_def split: if_splits)

lemma fenced_take:
  assumes "starts_with (fence c) s" and "length (fst (fenced c s)) \<le> n"
  shows "fst (fenced c (take n s)) = fst (fenced c s)"
proof (cases "index_of (fence c) (drop 3 s)")
  case None
  then show ?thesis using assms(2) by (simp add: fenced_def)
next
  case (Some i)
  have "i + 3 \<le> length (drop 3 s)"
    using index_of_Some [of "fence c" "drop 3 s" i] Some starts_with_length [of "fence c" "drop i (drop 3 s)"]
    by (auto simp: fence_def)
  then have n: "i + 6 \<le> n" using assms(2) Some by (simp add: fenced_def min_def split: if_splits)
  then have "index_of (fence c) (take (n - 3) (drop 3 s)) = Some i"
    by (intro index_of_take [OF Some]) (simp add: fence_def)
  then show ?thesis using Some n by (simp add: fenced_def drop_take min_absorb1)
qed

lemma code_region_take_Some:
  assumes "code_region s = Some (r, rest)" and "length r \<le> n"
  shows "code_region (take n s) = Some (r, drop (length r) (take n s))"
proof -
  have "\<exists>x. code_region (take n s) = Some (r, x)"
  proof -
    have short: "starts_with (fence c) s \<Longrightarrow> fst (fenced c s) = r \<Longrightarrow> starts_with (fence c) (take n s)" for c
      using assms(2) fenced_parts [of c s] take_starts_with [of "fence c" s n]
      by (auto simp: fenced_def fence_def starts_with_def min_def split: option.splits if_splits)
    consider (ticks) "starts_with (fence 96) s" "fenced 96 s = (r, rest)"
      | (tildes) "\<not> starts_with (fence 96) s" "starts_with (fence 126) s" "fenced 126 s = (r, rest)"
      | (inline) "\<not> starts_with (fence 96) s" "\<not> starts_with (fence 126) s" "inline_code s = Some (r, rest)"
      using assms(1) by (auto simp: code_region_def split: if_splits)
    then show ?thesis
    proof cases
      case ticks
      then show ?thesis
        using short [of 96] fenced_take [of 96 s n] assms(2)
        by (cases "fenced 96 (take n s)") (simp add: code_region_def)
    next
      case tildes
      then show ?thesis
        using short [of 126] fenced_take [of 126 s n] assms(2) starts_with_take [of "fence 96" n s]
        by (cases "fenced 126 (take n s)") (auto simp: code_region_def)
    next
      case inline
      then show ?thesis
        using inline_code_take_Some [OF inline(3) assms(2)] starts_with_take
        by (auto simp: code_region_def)
    qed
  qed
  then show ?thesis using code_region_parts by (metis append_eq_conv_conj)
qed

lemma split_code_empty [simp]: "split_code [] = [[]]"
proof -
  have "code_region [] = None"
    by (simp add: code_region_def starts_with_def fence_def inline_code_def)
  then show ?thesis by (simp add: split_code.simps [of "[]"])
qed

lemma split_code_region: "code_region s = Some (r, rest) \<Longrightarrow> split_code s = [] # r # split_code rest"
  by (simp add: split_code.simps [of s])

lemma split_code_parts: "split_code s \<noteq> [] \<and> odd (length (split_code s)) \<and> concat (split_code s) = s"
proof (induction s rule: split_code.induct)
  case (1 s)
  show ?case
  proof (cases "code_region s")
    case None
    then show ?thesis
      using 1(1) by (cases s) (auto simp: split_code.simps [of "_ # _"] split: list.splits)
  next
    case (Some p)
    then show ?thesis
      using 1(2) [OF Some] code_region_parts [of s] by (cases p) (auto simp: split_code_region)
  qed
qed

lemma split_code_char:
  assumes "code_region (c # t) = None"
  shows "\<exists>p ps. split_code t = p # ps \<and> split_code (c # t) = (c # p) # ps"
  using assms split_code_parts [of t] by (cases "split_code t") (auto simp: split_code.simps [of "c # t"])

text \<open>A text cut within one of its parts outside of code has the same parts up to there.\<close>

lemma split_code_cut_take:
  assumes "i < length (split_code s)"
  shows "\<exists>n. concat (take i (split_code s)) @ take k (split_code s ! i) = take n s"
proof -
  have "concat (take i (split_code s)) @ split_code s ! i @ concat (drop (Suc i) (split_code s)) = s"
    using split_code_parts [of s] id_take_nth_drop [OF assms] by (metis concat.simps(2) concat_append)
  then show ?thesis by (metis append.assoc append_take_drop_id append_eq_conv_conj)
qed

lemma split_code_cut:
  "even i \<Longrightarrow> i < length (split_code s) \<Longrightarrow>
   split_code (concat (take i (split_code s)) @ take k (split_code s ! i)) =
     take i (split_code s) @ [take k (split_code s ! i)]"
proof (induction s arbitrary: i k rule: split_code.induct)
  case (1 s)
  show ?case
  proof (cases "code_region s")
    case None
    show ?thesis
    proof (cases s)
      case Nil
      then show ?thesis using 1(4) by simp
    next
      case (Cons c t)
      obtain p ps where p: "split_code t = p # ps" "split_code s = (c # p) # ps"
        using split_code_char None Cons by blast
      show ?thesis
      proof (cases "i = 0 \<and> k = 0")
        case False
        define X where "X = concat (take i (split_code t)) @ take (if i = 0 then k - 1 else k) (split_code t ! i)"
        have whole: "concat (take i (split_code s)) @ take k (split_code s ! i) = c # X"
          using p False by (cases i; cases k) (auto simp: X_def)
        then obtain n where "c # X = take n s" using split_code_cut_take [of i s k] 1(4) by auto
        then have "code_region (c # X) = None" using code_region_take_None None by metis
        moreover have "split_code X = take i (split_code t) @ [take (if i = 0 then k - 1 else k) (split_code t ! i)]"
          unfolding X_def using 1(1) [OF None Cons] 1(3,4) p by simp
        ultimately show ?thesis
          using whole p False split_code_char [of c X] by (cases i; cases k) auto
      qed (use p in simp)
    qed
  next
    case (Some q)
    obtain r rest where q: "q = (r, rest)" by (cases q)
    then have parts: "split_code s = [] # r # split_code rest" "s = r @ rest"
      using Some split_code_region code_region_parts by auto
    show ?thesis
    proof (cases "i = 0")
      case False
      then obtain j where j: "i = Suc (Suc j)" "even j" using 1(3) by (metis even_Suc not0_implies_Suc even_zero)
      define X where "X = concat (take j (split_code rest)) @ take k (split_code rest ! j)"
      have jl: "j < length (split_code rest)" using 1(4) parts j by simp
      obtain n where n: "X = take n rest" using split_code_cut_take [OF jl] unfolding X_def by blast
      have "code_region (r @ X) = Some (r, X)"
        using code_region_take_Some [of s r rest "length r + n"] Some q parts(2) n by simp
      then have "split_code (r @ X) = [] # r # split_code X" by (rule split_code_region)
      then show ?thesis
        using 1(2) [OF Some q [symmetric] j(2) jl, of k] parts j by (simp add: X_def)
    qed (use parts in simp)
  qed
qed

section \<open>Lemmas on formulas\<close>

lemma no_last_dollars: "last_dollars s = None \<Longrightarrow> count_dollars s = 0"
  by (induction s rule: count_dollars.induct) (auto simp: starts_with_def split: option.splits if_splits)

lemma last_dollars_count: "last_dollars s = Some i \<Longrightarrow> count_dollars s = Suc (count_dollars (take i s))"
proof (induction s arbitrary: i rule: count_dollars.induct)
  case (1 a b s)
  show ?case
  proof (cases "a = 36 \<and> b = 36")
    case True
    show ?thesis
    proof (cases "last_dollars s")
      case None
      then have "i = 0 \<or> i = 1" using 1(3) True by (auto split: if_splits)
      then show ?thesis using True no_last_dollars [OF None] by auto
    next
      case (Some j)
      then show ?thesis using 1 True by auto
    qed
  next
    case False
    then obtain j where j: "last_dollars (b # s) = Some j" "i = Suc j"
      using 1(3) by (auto simp: starts_with_def split: option.splits if_splits)
    then show ?thesis using 1(2) [OF False] False by (cases j) auto
  qed
qed (simp_all add: starts_with_def split: if_splits)

lemma clamp_loop_cases:
  "(clamp_loop markdown parts n = markdown \<and> (\<forall>j < n. even j \<longrightarrow> last_dollars (parts ! j) = None)) \<or>
   (\<exists>i < n. \<exists>idx. even i \<and> last_dollars (parts ! i) = Some idx \<and>
      clamp_loop markdown parts n = concat (take i parts) @ take idx (parts ! i) \<and>
      (\<forall>j. i < j \<and> j < n \<and> even j \<longrightarrow> last_dollars (parts ! j) = None))"
proof (induction n)
  case (Suc n)
  show ?case
  proof (cases "even n \<and> last_dollars (parts ! n) \<noteq> None")
    case True
    then obtain idx where "last_dollars (parts ! n) = Some idx" by auto
    then show ?thesis using True by (intro disjI2 exI [of _ n] exI [of _ idx]) auto
  next
    case False
    then have "clamp_loop markdown parts (Suc n) = clamp_loop markdown parts n" by auto
    then show ?thesis using Suc False by (auto simp: less_Suc_eq)
  qed
qed simp

lemma outside_dollars_sum:
  "outside_dollars parts = (\<Sum>i<length parts. if even i then count_dollars (parts ! i) else 0)"
  by (simp add: outside_dollars_def interv_sum_list_conv_sum_set_nat atLeast0LessThan)

lemma outside_dollars_cut:
  assumes "i < length parts" "even i" "last_dollars (parts ! i) = Some idx"
    and none: "\<forall>j. i < j \<and> j < length parts \<and> even j \<longrightarrow> last_dollars (parts ! j) = None"
  shows "outside_dollars parts = Suc (outside_dollars (take i parts @ [take idx (parts ! i)]))"
proof -
  let ?w = "\<lambda>ps i. if even i then count_dollars (ps ! i) else 0"
  let ?cut = "take i parts @ [take idx (parts ! i)]"
  have "outside_dollars parts = (\<Sum>j<Suc i. ?w parts j) + (\<Sum>j=Suc i..<length parts. ?w parts j)"
    unfolding outside_dollars_sum
    using assms(1) sum.atLeastLessThan_concat [of 0 "Suc i" "length parts" "?w parts"]
    by (simp only: atLeast0LessThan Suc_le_eq)
  also have "(\<Sum>j=Suc i..<length parts. ?w parts j) = 0"
    using none no_last_dollars by (intro sum.neutral) auto
  finally have "outside_dollars parts = (\<Sum>j<i. ?w parts j) + count_dollars (parts ! i)"
    using assms(2) by simp
  moreover have "outside_dollars ?cut = (\<Sum>j<i. ?w ?cut j) + ?w ?cut i"
    using assms(1) by (simp add: outside_dollars_sum)
  moreover have "(\<Sum>j<i. ?w ?cut j) = (\<Sum>j<i. ?w parts j)"
    using assms(1) by (intro sum.cong) (auto simp: nth_append)
  moreover have "?w ?cut i = count_dollars (take idx (parts ! i))" using assms(1,2) by (simp add: nth_append)
  ultimately show ?thesis using last_dollars_count [OF assms(3)] by simp
qed

lemma clamp_cut:
  assumes "odd (outside_dollars (split_code markdown))"
  shows "\<exists>cut. clampStreamingMath markdown = concat cut \<and> split_code (concat cut) = cut \<and>
    Suc (outside_dollars cut) = outside_dollars (split_code markdown) \<and>
    (\<exists>n. concat cut = take n markdown)"
proof -
  let ?parts = "split_code markdown"
  have loop: "clampStreamingMath markdown = clamp_loop markdown ?parts (length ?parts)"
    using assms by (simp add: clampStreamingMath_def Let_def)
  have "\<not> (\<forall>j < length ?parts. even j \<longrightarrow> last_dollars (?parts ! j) = None)"
  proof
    assume "\<forall>j < length ?parts. even j \<longrightarrow> last_dollars (?parts ! j) = None"
    then have "outside_dollars ?parts = 0"
      unfolding outside_dollars_sum using no_last_dollars by (intro sum.neutral) auto
    then show False using assms by simp
  qed
  then obtain i idx where i: "i < length ?parts" "even i" "last_dollars (?parts ! i) = Some idx"
    "clamp_loop markdown ?parts (length ?parts) = concat (take i ?parts) @ take idx (?parts ! i)"
    "\<forall>j. i < j \<and> j < length ?parts \<and> even j \<longrightarrow> last_dollars (?parts ! j) = None"
    using clamp_loop_cases [of markdown ?parts "length ?parts"] by blast
  show ?thesis
    using split_code_cut [OF i(2,1), of idx] outside_dollars_cut [OF i(1,2,3,5)] loop i(4)
      split_code_cut_take [OF i(1), of idx]
    by (intro exI [of _ "take i ?parts @ [take idx (?parts ! i)]"]) simp
qed

section \<open>Properties\<close>

text \<open>
  Streaming formulas (C28). While a reply streams, the text shown is a prefix of the reply in which every
  formula outside of code is closed: it has an even number of delimiters. At most the formula being
  written is dropped, together with what follows it, and clamping again changes nothing.
\<close>

theorem streaming_math_is_closed:
  "even (outside_dollars (split_code (clampStreamingMath markdown))) \<and>
   (\<exists>rest. markdown = clampStreamingMath markdown @ rest) \<and>
   outside_dollars (split_code markdown) \<le> Suc (outside_dollars (split_code (clampStreamingMath markdown))) \<and>
   clampStreamingMath (clampStreamingMath markdown) = clampStreamingMath markdown"
proof (cases "even (outside_dollars (split_code markdown))")
  case True
  then show ?thesis by (simp add: clampStreamingMath_def Let_def)
next
  case False
  then obtain cut n where cut: "clampStreamingMath markdown = concat cut" "split_code (concat cut) = cut"
    "Suc (outside_dollars cut) = outside_dollars (split_code markdown)" "concat cut = take n markdown"
    using clamp_cut by blast
  have "even (outside_dollars cut)" using False cut(3) by (metis even_Suc)
  then have "clampStreamingMath (concat cut) = concat cut"
    using cut(2) by (simp add: clampStreamingMath_def [of "concat cut"] Let_def)
  moreover have "\<exists>rest. markdown = concat cut @ rest" using cut(4) by (metis append_take_drop_id)
  ultimately show ?thesis using cut \<open>even (outside_dollars cut)\<close> by simp
qed

end
