(* ===== verification/Message_View.thy ===== *)
theory Message_View
  imports Message_Format Run_State Messages
begin

text \<open>
  What a message shows besides its text: the headline of a streaming summary
  (\<open>frontend/src/messages/reasoningPreview.ts\<close>), the thinking block (\<open>frontend/src/messages/ThinkingBlock.tsx\<close>,
  \<open>formatDuration.ts\<close>), the state of a streaming message (\<open>frontend/src/messages/StreamingMessage.tsx\<close>), the
  language of a code block (\<open>frontend/src/messages/markdown/codeLanguage.ts\<close>), the copy of a table
  (\<open>frontend/src/messages/markdown/tableTsv.ts\<close>) and the copy buttons (\<open>TableBlock.tsx\<close>, \<open>CodeBlock.tsx\<close>).
  \<open>toLowerCase\<close> is the argument \<open>lower\<close>.
\<close>

section \<open>Definitions\<close>

subsection \<open>Headlines\<close>

definition line_terminator :: "code_unit \<Rightarrow> bool" where
  "line_terminator c \<longleftrightarrow> c \<in> set [10, 13, 0x2028, 0x2029]"

text \<open>\<open>HASH_HEADLINE\<close> on a trimmed line: its group.\<close>

definition hash_headline :: "jstr \<Rightarrow> jstr option" where
  "hash_headline line =
     (let hashes = takeWhile ((=) 35) line; after = dropWhile ((=) 35) line; title = dropWhile is_space after
      in if hashes \<noteq> [] \<and> length hashes \<le> 6 \<and> after \<noteq> [] \<and> is_space (hd after) \<and>
            title \<noteq> [] \<and> \<not> list_ex line_terminator title
         then Some title else None)"

definition headline_stop :: "code_unit \<Rightarrow> bool" where
  "headline_stop c \<longleftrightarrow>
     c \<in> set [46, 33, 63, 58, 59, 0x3002, 0xFF01, 0xFF1F, 0xFF1A, 0xFF1B, 0x2026]"

text \<open>\<open>BOLD_HEADLINE\<close> on a trimmed line without line feeds, read from its end.\<close>

definition bold_headline :: "jstr \<Rightarrow> jstr option" where
  "bold_headline line =
     (let r = drop 2 (rev line); title = takeWhile (\<lambda>c. c \<noteq> 42) r; before = dropWhile (\<lambda>c. c \<noteq> 42) r;
          lead = dropWhile is_space (drop 2 before)
      in if starts_with [42, 42] (rev line) \<and> title \<noteq> [] \<and> starts_with [42, 42] before \<and>
            (lead = [] \<or> headline_stop (hd lead))
         then Some (rev title) else None)"

text \<open>\<open>(?:\.\d+)*\<close>.\<close>

function skip_dotted :: "jstr \<Rightarrow> jstr" where
  "skip_dotted s =
     (if s \<noteq> [] \<and> hd s = 46 \<and> takeWhile is_digit (tl s) \<noteq> [] then skip_dotted (dropWhile is_digit (tl s)) else s)"
  by pat_completeness auto

termination skip_dotted
proof (relation "measure length")
  fix s :: jstr
  assume "s \<noteq> [] \<and> hd s = 46 \<and> takeWhile is_digit (tl s) \<noteq> []"
  then show "(dropWhile is_digit (tl s), s) \<in> measure length"
    using length_dropWhile_le [of is_digit "tl s"] by (cases s) auto
qed simp

declare skip_dotted.simps [simp del]

text \<open>\<open>(?:\s|$)\<close>.\<close>

definition space_or_end :: "jstr \<Rightarrow> bool" where
  "space_or_end s \<longleftrightarrow> s = [] \<or> is_space (hd s)"

definition section_mark :: "code_unit \<Rightarrow> bool" where
  "section_mark c \<longleftrightarrow> c \<in> set [46, 41, 0x3001, 0xFF0E, 58, 0xFF1A, 45]"

text \<open>\<open>(?:#{1,6}\s+)?\<close>: \<open>None\<close> when the hashes of the line are no heading.\<close>

definition skip_hashes :: "jstr \<Rightarrow> jstr option" where
  "skip_hashes line =
     (let hashes = takeWhile ((=) 35) line; after = dropWhile ((=) 35) line
      in if hashes = [] then Some line
         else if length hashes \<le> 6 \<and> after \<noteq> [] \<and> is_space (hd after) then Some (dropWhile is_space after)
         else None)"

definition numbered_section :: "jstr \<Rightarrow> bool" where
  "numbered_section line =
     (case skip_hashes line of
        None \<Rightarrow> False
      | Some s \<Rightarrow>
          let s = (if starts_with [42, 42] s then drop 2 s else s);
              rest = skip_dotted (dropWhile is_digit s)
          in takeWhile is_digit s \<noteq> [] \<and>
             (space_or_end rest \<or> rest \<noteq> [] \<and> section_mark (hd rest) \<and> space_or_end (tl rest)))"

text \<open>The headline of one trimmed line.\<close>

definition line_headline :: "jstr \<Rightarrow> jstr option" where
  "line_headline line =
     (if numbered_section line then None
      else map_option js_trim (orelse (hash_headline line) (bold_headline line)))"

fun preview_loop :: "jstr list \<Rightarrow> jstr" where
  "preview_loop [] = []"
| "preview_loop (l # ls) = (case line_headline (js_trim l) of Some h \<Rightarrow> h | None \<Rightarrow> preview_loop ls)"

definition reasoningPreview :: "jstr \<Rightarrow> jstr" where
  "reasoningPreview content = preview_loop (rev (split_on 10 content))"

subsection \<open>The thinking block\<close>

text \<open>Milliseconds are whole; \<open>Math.round(ms / 1000)\<close> rounds half up.\<close>

definition formatDuration :: "nat \<Rightarrow> jstr" where
  "formatDuration ms =
     (if ms < 1000 then under_a_second_text
      else
        let totalSeconds = (ms + 500) div 1000
        in if totalSeconds < 60 then digits totalSeconds @ [32] @ second_text
           else
             let minutes = totalSeconds div 60; seconds = totalSeconds mod 60
             in if seconds = 0 then digits minutes @ [32] @ minutes_text
                else digits minutes @ [32] @ minute_text @ [32] @ digits seconds @ [32] @ second_text)"

record thinking_block =
  tb_open :: bool
  tb_streamed :: bool
  tb_wasStreaming :: bool

text \<open>\<open>handoffChoices\<close>, the map of the module.\<close>

type_synonym choices = "jstr \<rightharpoonup> bool"

text \<open>The first render and its effects, the layout effect first.\<close>

definition block_mount :: "jstr option \<Rightarrow> bool \<Rightarrow> choices \<Rightarrow> choices \<times> thinking_block" where
  "block_mount handoffKey streaming choices =
     (let key = nullish handoffKey []
      in (if key \<noteq> [] \<and> \<not> streaming then choices(key := None) else choices,
          \<lparr>tb_open = (key \<noteq> [] \<and> choices key = Some True), tb_streamed = streaming,
           tb_wasStreaming = streaming\<rparr>))"

definition block_toggle :: "jstr option \<Rightarrow> choices \<times> thinking_block \<Rightarrow> choices \<times> thinking_block" where
  "block_toggle handoffKey s =
     (case s of (choices, b) \<Rightarrow>
        let next = \<not> tb_open b; key = nullish handoffKey []
        in (if key \<noteq> [] \<and> tb_streamed b then choices(key \<mapsto> next) else choices, b\<lparr>tb_open := next\<rparr>))"

text \<open>The layout effect after a render with a new \<open>streaming\<close>.\<close>

definition block_streaming :: "jstr option \<Rightarrow> bool \<Rightarrow> choices \<times> thinking_block \<Rightarrow> choices \<times> thinking_block" where
  "block_streaming handoffKey streaming s =
     (case s of (choices, b) \<Rightarrow>
        let key = nullish handoffKey [];
            b = (if streaming then b\<lparr>tb_streamed := True\<rparr> else b);
            ended = (tb_wasStreaming b \<and> \<not> streaming)
        in (if ended \<and> key \<noteq> [] then choices(key := None) else choices,
            (if ended then b\<lparr>tb_open := False\<rparr> else b)\<lparr>tb_wasStreaming := streaming\<rparr>))"

definition header_text :: "jstr option \<Rightarrow> bool \<Rightarrow> jstr \<Rightarrow> nat option \<Rightarrow> jstr" where
  "header_text label streaming content workMs =
     (let headline = (if streaming then reasoningPreview content else []);
          settledText = (case workMs of None \<Rightarrow> thought_text | Some ms \<Rightarrow> thought_text @ [32] @ formatDuration ms)
      in nullish label (if streaming then (if headline \<noteq> [] then headline else thinking_text) else settledText))"

subsection \<open>The streaming message\<close>

text \<open>A count in a text; \<open>digits\<close> for the numbers that are not negative, as all counts are.\<close>

definition count_text :: "int \<Rightarrow> jstr" where
  "count_text n = (if n < 0 then [45] @ digits (nat (- n)) else digits (nat n))"

definition labelForToolState :: "run_tool_state \<Rightarrow> jstr" where
  "labelForToolState t =
     (if ts_status t = ToolRunning
      then
        let n = nullish (ts_running_count t) 1
        in if n > 1 then searching_text @ [32] @ count_text n @ [32] @ items_text
           else if truthy (ts_query t) then searching_text @ [32] @ nullish (ts_query t) []
           else searching_text
      else if (case ts_batch_source_count t of None \<Rightarrow> False | Some n \<Rightarrow> n > 0)
      then found_text @ [32] @ count_text (nullish (ts_batch_source_count t) 0) @ [32] @ sources_text
      else if ts_status t = ToolSucceeded
      then
        let found = nullish (orelse (ts_batch_source_count t) (ts_result_count t)) (int (length (ts_sources t)))
        in found_text @ [32] @ count_text found @ [32] @ sources_text
      else nullish (ts_message t) search_failed_text)"

record streaming_surface =
  sv_thinking :: bool
  sv_content :: jstr
  sv_label :: "jstr option"
  sv_showThinking :: bool
  sv_failed :: bool

definition streaming_view :: "active_run_state \<Rightarrow> streaming_surface" where
  "streaming_view run =
     (let isStreaming =
            (case run of None \<Rightarrow> True | Some r \<Rightarrow> ar_status r \<in> set [Queued, Started, Streaming, Cancelling]);
          thinking = (isStreaming \<and> (case run of None \<Rightarrow> True | Some r \<Rightarrow> ar_streamPhase r \<noteq> PhaseText));
          reasoningSummary = (case run of None \<Rightarrow> [] | Some r \<Rightarrow> ar_draftReasoningSummary r);
          rawReasoning = (case run of None \<Rightarrow> [] | Some r \<Rightarrow> ar_draftReasoning r);
          showingSummary = (js_trim reasoningSummary \<noteq> []);
          displayedReasoning = (if showingSummary then reasoningSummary else rawReasoning);
          hasReasoning = (js_trim displayedReasoning \<noteq> []);
          toolState = (case run of None \<Rightarrow> None
            | Some r \<Rightarrow> if ar_streamPhase r = PhaseTool then ar_toolState r else None);
          toolLabel = map_option labelForToolState toolState;
          hasReasoningPreview = (showingSummary \<and> reasoningPreview displayedReasoning \<noteq> []);
          label = (if map_option ts_status toolState = Some ToolRunning \<or> \<not> hasReasoningPreview
                   then toolLabel else None)
      in \<lparr>sv_thinking = thinking, sv_content = displayedReasoning, sv_label = label,
          sv_showThinking = (thinking \<or> hasReasoning),
          sv_failed = (case run of None \<Rightarrow> False | Some r \<Rightarrow> ar_status r = Failed)\<rparr>)"

text \<open>The header a streaming message shows, as its thinking block renders it.\<close>

definition streaming_header :: "active_run_state \<Rightarrow> jstr" where
  "streaming_header run =
     (let v = streaming_view run in header_text (sv_label v) (sv_thinking v) (sv_content v) None)"

subsection \<open>Code languages\<close>

text \<open>A property read from an object without it is \<open>undefined\<close>, here \<open>None\<close>.\<close>

record resolved_code_language =
  cl_label :: "jstr option"
  cl_highlighter :: "jstr option"
  cl_showHeader :: "bool option"

definition code_language :: "jstr \<Rightarrow> jstr \<Rightarrow> bool \<Rightarrow> resolved_code_language" where
  "code_language label highlighter showHeader =
     \<lparr>cl_label = Some label, cl_highlighter = Some highlighter, cl_showHeader = Some showHeader\<rparr>"

definition language_entry :: "string \<Rightarrow> string \<Rightarrow> string \<Rightarrow> bool \<Rightarrow> jstr \<times> resolved_code_language" where
  "language_entry key label highlighter showHeader =
     (js key, code_language (js label) (js highlighter) showHeader)"

definition languages :: "(jstr \<times> resolved_code_language) list" where
  "languages =
     [language_entry ''plain'' ''Plaintext'' ''plain'' False,
      language_entry ''plaintext'' ''Plaintext'' ''plain'' False,
      language_entry ''text'' ''Plaintext'' ''plain'' False,
      language_entry ''txt'' ''Plaintext'' ''plain'' False,
      language_entry ''diff'' ''Diff'' ''plain'' True,
      language_entry ''html'' ''HTML'' ''markup'' True,
      language_entry ''htm'' ''HTML'' ''markup'' True,
      language_entry ''markup'' ''HTML'' ''markup'' True,
      language_entry ''xml'' ''XML'' ''markup'' True,
      language_entry ''svg'' ''XML'' ''markup'' True,
      language_entry ''css'' ''CSS'' ''css'' True,
      language_entry ''javascript'' ''JavaScript'' ''javascript'' True,
      language_entry ''js'' ''JavaScript'' ''javascript'' True,
      language_entry ''mjs'' ''JavaScript'' ''javascript'' True,
      language_entry ''cjs'' ''JavaScript'' ''javascript'' True,
      language_entry ''jsx'' ''JSX'' ''jsx'' True,
      language_entry ''typescript'' ''TypeScript'' ''typescript'' True,
      language_entry ''ts'' ''TypeScript'' ''typescript'' True,
      language_entry ''tsx'' ''TSX'' ''tsx'' True,
      language_entry ''json'' ''JSON'' ''json'' True,
      language_entry ''jsonc'' ''JSON'' ''json'' True,
      language_entry ''bash'' ''Bash'' ''bash'' True,
      language_entry ''sh'' ''Bash'' ''bash'' True,
      language_entry ''shell'' ''Bash'' ''bash'' True,
      language_entry ''zsh'' ''Bash'' ''bash'' True,
      language_entry ''python'' ''Python'' ''python'' True,
      language_entry ''py'' ''Python'' ''python'' True,
      language_entry ''java'' ''Java'' ''java'' True,
      language_entry ''c'' ''C'' ''c'' True,
      language_entry ''cpp'' ''C++'' ''cpp'' True,
      language_entry ''c++'' ''C++'' ''cpp'' True,
      language_entry ''cc'' ''C++'' ''cpp'' True,
      language_entry ''cxx'' ''C++'' ''cpp'' True,
      language_entry ''csharp'' ''C#'' ''csharp'' True,
      language_entry ''cs'' ''C#'' ''csharp'' True,
      language_entry ''c#'' ''C#'' ''csharp'' True,
      language_entry ''go'' ''Go'' ''go'' True,
      language_entry ''golang'' ''Go'' ''go'' True,
      language_entry ''rust'' ''Rust'' ''rust'' True,
      language_entry ''rs'' ''Rust'' ''rust'' True,
      language_entry ''sql'' ''SQL'' ''sql'' True,
      language_entry ''yaml'' ''YAML'' ''yaml'' True,
      language_entry ''yml'' ''YAML'' ''yaml'' True,
      language_entry ''markdown'' ''Markdown'' ''markdown'' True,
      language_entry ''md'' ''Markdown'' ''markdown'' True]"

text \<open>
  The names every object inherits from \<open>Object.prototype\<close> whose value is not nullish. Reading
  \<open>label\<close>, \<open>highlighterLanguage\<close> or \<open>showHeader\<close> from these values gives \<open>undefined\<close>.
\<close>

definition inherited_names :: "jstr list" where
  "inherited_names =
     map js [''constructor'', ''__proto__'', ''toString'', ''toLocaleString'', ''valueOf'', ''hasOwnProperty'',
       ''isPrototypeOf'', ''propertyIsEnumerable'', ''__defineGetter__'', ''__defineSetter__'',
       ''__lookupGetter__'', ''__lookupSetter__'']"

definition language_lookup :: "jstr \<Rightarrow> resolved_code_language option" where
  "language_lookup name =
     (case map_of languages name of
        Some l \<Rightarrow> Some l
      | None \<Rightarrow> if name \<in> set inherited_names
                 then Some \<lparr>cl_label = None, cl_highlighter = None, cl_showHeader = None\<rparr> else None)"

text \<open>\<open>/(?:^|\s)language-([^\s]+)/\<close>: the group of the first match; \<open>bol\<close> says that a match may start here.\<close>

fun class_language :: "bool \<Rightarrow> jstr \<Rightarrow> jstr option" where
  "class_language bol [] = None"
| "class_language bol (c # s) =
     (let name = takeWhile (\<lambda>c. \<not> is_space c) (drop 9 (c # s))
      in if bol \<and> starts_with (js ''language-'') (c # s) \<and> name \<noteq> [] then Some name
         else class_language (is_space c) s)"

definition resolveCodeLanguage :: "(jstr \<Rightarrow> jstr) \<Rightarrow> jstr option \<Rightarrow> resolved_code_language" where
  "resolveCodeLanguage lower className =
     (case (case className of None \<Rightarrow> None | Some s \<Rightarrow> class_language True s) of
        None \<Rightarrow> code_language code_text (js ''plain'') False
      | Some rawLanguage \<Rightarrow>
          nullish (language_lookup (lower rawLanguage)) (code_language rawLanguage (js ''plain'') True))"

subsection \<open>Tables\<close>

text \<open>The nodes below a cell: texts, line breaks, other nodes with their children.\<close>

datatype dom_node = DText jstr | DBreak | DNode "dom_node list"

fun visibleCellText :: "dom_node \<Rightarrow> jstr" where
  "visibleCellText (DText t) = t"
| "visibleCellText DBreak = [10]"
| "visibleCellText (DNode children) = concat (map visibleCellText children)"

text \<open>\<open>replace(/\r\n?/g, "\n")\<close>.\<close>

fun unix_newlines :: "jstr \<Rightarrow> jstr" where
  "unix_newlines [] = []"
| "unix_newlines (c # s) =
     (if c = 13 then 10 # (case s of [] \<Rightarrow> [] | d # t \<Rightarrow> if d = 10 then unix_newlines t else unix_newlines s)
      else c # unix_newlines s)"

definition cell_value :: "dom_node \<Rightarrow> jstr" where
  "cell_value cell = js_trim (unix_newlines (visibleCellText cell))"

definition double_quotes :: "jstr \<Rightarrow> jstr" where
  "double_quotes s = concat (map (\<lambda>c. if c = 34 then [34, 34] else [c]) s)"

definition encodeTsvCell :: "dom_node \<Rightarrow> jstr" where
  "encodeTsvCell cell =
     (let v = cell_value cell
      in if list_ex (\<lambda>c. c \<in> set [34, 9, 10]) v then [34] @ double_quotes v @ [34] else v)"

text \<open>A table by its rows and their cells.\<close>

definition tableToTsv :: "dom_node list list \<Rightarrow> jstr" where
  "tableToTsv rows = join [10] (map (\<lambda>row. join [9] (map encodeTsvCell row)) rows)"

subsection \<open>Copy buttons\<close>

datatype copy_state = CopyIdle | CopySuccess | CopyFailure

record copy_button =
  cb_attempt :: nat
  cb_timer :: bool
  cb_state :: copy_state

text \<open>\<open>handleCopy\<close> up to the clipboard; the new attempt is \<open>cb_attempt\<close>.\<close>

definition copy_begin :: "copy_button \<Rightarrow> copy_button" where
  "copy_begin b = b\<lparr>cb_attempt := cb_attempt b + 1, cb_timer := False\<rparr>"

text \<open>The rest of \<open>handleCopy\<close>, for the attempt \<open>attempt\<close>.\<close>

definition copy_done :: "nat \<Rightarrow> bool \<Rightarrow> copy_button \<Rightarrow> copy_button" where
  "copy_done attempt copied b =
     (if attempt \<noteq> cb_attempt b then b
      else if \<not> copied then b\<lparr>cb_state := CopyFailure\<rparr>
      else b\<lparr>cb_state := CopySuccess, cb_timer := True\<rparr>)"

definition copy_timeout :: "copy_button \<Rightarrow> copy_button" where
  "copy_timeout b = (if cb_timer b then b\<lparr>cb_state := CopyIdle, cb_timer := False\<rparr> else b)"

text \<open>The cleanup of the effect.\<close>

definition copy_unmount :: "copy_button \<Rightarrow> copy_button" where
  "copy_unmount b = b\<lparr>cb_attempt := cb_attempt b + 1, cb_timer := False\<rparr>"

section \<open>Lemmas on headlines and headers\<close>

text \<open>Only the last line with a headline counts, so a line still being written keeps the previous one.\<close>

lemma split_on_append_line: "10 \<notin> set line \<Longrightarrow> split_on 10 (content @ 10 # line) = split_on 10 content @ [line]"
proof (induction content)
  case Nil
  then show ?case by (simp add: split_on_id)
next
  case (Cons c content)
  obtain l ls where "split_on 10 content = l # ls" using split_on_not_Nil by (meson neq_Nil_conv)
  then show ?case using Cons by simp
qed

lemma preview_of_new_line:
  assumes "10 \<notin> set line"
  shows "reasoningPreview (content @ 10 # line) =
    (case line_headline (js_trim line) of Some h \<Rightarrow> h | None \<Rightarrow> reasoningPreview content)"
  using assms by (simp add: reasoningPreview_def split_on_append_line split: option.splits)

lemma formatDuration_parts:
  assumes "1000 \<le> ms"
  shows "\<exists>m s. (ms + 500) div 1000 = 60 * m + s \<and> s < 60 \<and>
    formatDuration ms =
      (if m = 0 then digits s @ [32] @ second_text
       else if s = 0 then digits m @ [32] @ minutes_text
       else digits m @ [32] @ minute_text @ [32] @ digits s @ [32] @ second_text)"
proof -
  define n where "n = (ms + 500) div 1000"
  have "n = 60 * (n div 60) + n mod 60" "n mod 60 < 60" by simp_all
  moreover have "n div 60 = 0 \<longleftrightarrow> n < 60" "n < 60 \<Longrightarrow> n mod 60 = n" by (auto simp: div_eq_0_iff)
  ultimately show ?thesis
    using assms unfolding formatDuration_def n_def [symmetric] Let_def
    by (intro exI [of _ "n div 60"] exI [of _ "n mod 60"]) (auto simp: not_less)
qed

text \<open>A running search owns the header of a streaming message.\<close>

lemma search_owns_header:
  assumes "ar_streamPhase r = PhaseTool" and "ar_toolState r = Some t" and "ts_status t = ToolRunning"
  shows "streaming_header (Some r) = labelForToolState t"
  using assms by (simp add: streaming_header_def streaming_view_def Let_def header_text_def)

subsection \<open>The handoff of a thinking block\<close>

definition toggles :: "jstr option \<Rightarrow> nat \<Rightarrow> choices \<times> thinking_block \<Rightarrow> choices \<times> thinking_block" where
  "toggles key n = (block_toggle key ^^ n)"

text \<open>After the thinking has ended, the map records what the block that streamed shows.\<close>

definition recorded :: "jstr \<Rightarrow> choices \<times> thinking_block \<Rightarrow> bool" where
  "recorded key s \<longleftrightarrow> tb_streamed (snd s) \<and>
     (fst s key = Some (tb_open (snd s)) \<or> fst s key = None \<and> \<not> tb_open (snd s))"

lemma recorded_toggle: "key \<noteq> [] \<Longrightarrow> recorded key s \<Longrightarrow> recorded key (block_toggle (Some key) s)"
  by (cases s) (auto simp: recorded_def block_toggle_def Let_def)

lemma recorded_toggles: "key \<noteq> [] \<Longrightarrow> recorded key s \<Longrightarrow> recorded key (toggles (Some key) n s)"
  by (induction n) (simp_all add: toggles_def recorded_toggle)

lemma recorded_after_thinking:
  assumes "key \<noteq> []" "tb_streamed b" "tb_wasStreaming b"
  shows "recorded key (block_streaming (Some key) False (choices, b))"
  using assms by (simp add: block_streaming_def recorded_def Let_def)

lemma handoff_keeps_choice:
  assumes "key \<noteq> []" "tb_streamed b" "tb_wasStreaming b"
    and "toggles (Some key) n (block_streaming (Some key) False (choices, b)) = (choices', b')"
  shows "tb_open (snd (block_mount (Some key) False choices')) = tb_open b' \<and>
    fst (block_mount (Some key) False choices') key = None"
  using recorded_toggles [OF assms(1) recorded_after_thinking [OF assms(1-3)], of n choices] assms(1,4)
  by (auto simp: recorded_def block_mount_def Let_def)

subsection \<open>Copy buttons\<close>

text \<open>An answer of the clipboard to an earlier attempt, or after the block is gone, changes nothing.\<close>

lemma stale_copy_ignored:
  "attempt \<le> cb_attempt b \<Longrightarrow> copy_done attempt copied (copy_begin b) = copy_begin b"
  "attempt \<le> cb_attempt b \<Longrightarrow> copy_done attempt copied (copy_unmount b) = copy_unmount b"
  by (simp_all add: copy_done_def copy_begin_def copy_unmount_def)

section \<open>Lemmas on tables\<close>

text \<open>A reader of tab separated values: cells in quotes may hold tabs, line feeds and doubled quotes.\<close>

datatype tsv_mode = AtStart | InPlain | InQuotes | AfterQuote

fun read_tsv :: "tsv_mode \<Rightarrow> jstr \<Rightarrow> jstr list \<Rightarrow> jstr \<Rightarrow> jstr list list" where
  "read_tsv m cell row [] = [row @ [cell]]"
| "read_tsv m cell row (c # s) =
     (if m = InQuotes then (if c = 34 then read_tsv AfterQuote cell row s else read_tsv InQuotes (cell @ [c]) row s)
      else if c = 34 \<and> m = AtStart then read_tsv InQuotes cell row s
      else if c = 34 \<and> m = AfterQuote then read_tsv InQuotes (cell @ [34]) row s
      else if c = 9 then read_tsv AtStart [] (row @ [cell]) s
      else if c = 10 then (row @ [cell]) # read_tsv AtStart [] [] s
      else read_tsv InPlain (cell @ [c]) row s)"

text \<open>What follows a cell: nothing, or a delimiter.\<close>

definition cell_end :: "jstr \<Rightarrow> bool" where
  "cell_end s \<longleftrightarrow> s = [] \<or> hd s = 9 \<or> hd s = 10"

lemma read_plain:
  "list_all (\<lambda>c. c \<notin> set [34, 9, 10]) v \<Longrightarrow> m = AtStart \<or> m = InPlain \<Longrightarrow> cell_end s \<Longrightarrow>
   read_tsv m cell row (v @ s) = read_tsv InPlain (cell @ v) row s"
proof (induction v arbitrary: m cell)
  case Nil
  then show ?case by (cases s) (auto simp: cell_end_def)
qed auto

lemma read_quoted:
  "read_tsv InQuotes cell row (double_quotes v @ 34 # s) = read_tsv AfterQuote (cell @ v) row s"
  by (induction v arbitrary: cell) (simp_all add: double_quotes_def)

lemma read_after_quote: "cell_end s \<Longrightarrow> read_tsv AfterQuote cell row s = read_tsv InPlain cell row s"
  by (cases s) (auto simp: cell_end_def)

lemma read_cell:
  "cell_end s \<Longrightarrow> read_tsv AtStart [] row (encodeTsvCell cell @ s) = read_tsv InPlain (cell_value cell) row s"
  using read_plain [of "cell_value cell" AtStart s "[]" row]
    read_quoted [of "[]" row "cell_value cell" s] read_after_quote [of s "cell_value cell" row]
  by (auto simp: encodeTsvCell_def Let_def list_ex_iff list_all_iff)

lemma read_row:
  "cells \<noteq> [] \<Longrightarrow> s = [] \<or> hd s = 10 \<Longrightarrow>
   read_tsv AtStart [] row (join [9] (map encodeTsvCell cells) @ s) =
     (row @ map cell_value cells) # (if s = [] then [] else read_tsv AtStart [] [] (tl s))"
proof (induction cells arbitrary: row rule: induct_list012)
  case (2 cell)
  then show ?case using read_cell [of s row cell] by (cases s) (auto simp: cell_end_def)
next
  case (3 c d cells)
  have "read_tsv AtStart [] row (encodeTsvCell c @ 9 # join [9] (map encodeTsvCell (d # cells)) @ s) =
      read_tsv AtStart [] (row @ [cell_value c]) (join [9] (map encodeTsvCell (d # cells)) @ s)"
    by (subst read_cell) (simp_all add: cell_end_def)
  then show ?case using 3 by simp
qed simp

lemma read_table:
  "rows \<noteq> [] \<Longrightarrow> \<forall>row \<in> set rows. row \<noteq> [] \<Longrightarrow>
   read_tsv AtStart [] [] (tableToTsv rows) = map (map cell_value) rows"
proof (induction rows rule: induct_list012)
  case (2 row)
  then show ?case using read_row [of row "[]" "[]"] by (simp add: tableToTsv_def)
next
  case (3 r1 r2 rows)
  have "tableToTsv (r1 # r2 # rows) = join [9] (map encodeTsvCell r1) @ 10 # tableToTsv (r2 # rows)"
    by (simp add: tableToTsv_def)
  then show ?case using 3 read_row [of r1 "10 # tableToTsv (r2 # rows)" "[]"] by simp
qed simp

section \<open>Properties\<close>

text \<open>
  Copied tables (C36). A reader of tab separated values gets back the rows and the visible text of every
  cell of a copied table, whatever tabs, quotes and line breaks the cells hold.
\<close>

theorem table_copy_roundtrip:
  assumes "rows \<noteq> []" and "\<forall>row \<in> set rows. row \<noteq> []"
  shows "read_tsv AtStart [] [] (tableToTsv rows) = map (map cell_value) rows"
  using assms by (rule read_table)

theorem table_copy_roundtrip_witness:
  "read_tsv AtStart [] [] (tableToTsv [[DText (js ''a''), DNode [DText [34], DBreak, DText (js ''b'')]], [DNode []]]) =
     [[js ''a'', [34, 10] @ js ''b''], [[]]]"
  using table_copy_roundtrip [of "[[DText (js ''a''), DNode [DText [34], DBreak, DText (js ''b'')]], [DNode []]]"]
  by (simp add: cell_value_def js_trim_def is_space_def js_def)

text \<open>
  The handoff of a thinking block: what the reader chose after the thinking ended, by any number of
  toggles, is what the block of the stored message shows, and the choice is consumed.
\<close>

theorem thinking_choice_survives_handoff:
  assumes "key \<noteq> []" "tb_streamed b" "tb_wasStreaming b"
    and "toggles (Some key) n (block_streaming (Some key) False (choices, b)) = (choices', b')"
  shows "tb_open (snd (block_mount (Some key) False choices')) = tb_open b' \<and>
    fst (block_mount (Some key) False choices') key = None"
  by (rule handoff_keeps_choice [OF assms])

text \<open>
  A raw chain of thought does reach the header: without a summary and without a tool state, a heading in
  the raw reasoning of a streaming run is shown as the title of its thinking block.
\<close>

theorem raw_reasoning_titles_header:
  assumes "ar_status r = Streaming" and "ar_streamPhase r = PhaseReasoning"
    and "js_trim (ar_draftReasoningSummary r) = []" and "reasoningPreview (ar_draftReasoning r) \<noteq> []"
  shows "streaming_header (Some r) = reasoningPreview (ar_draftReasoning r)"
  using assms by (simp add: streaming_header_def streaming_view_def Let_def header_text_def)

theorem raw_heading_is_a_headline: "reasoningPreview (js ''# Plan'') = js ''Plan''"
  by code_simp

text \<open>
  A fence with the name of an inherited property: the lookup finds the property of
  \<open>Object.prototype\<close>, and the block has neither a label nor a highlighter.
\<close>

theorem inherited_language_has_no_label:
  assumes "lower (js ''constructor'') = js ''constructor''"
  shows "resolveCodeLanguage lower (Some (js ''language-constructor'')) =
    \<lparr>cl_label = None, cl_highlighter = None, cl_showHeader = None\<rparr>"
proof -
  have "class_language True (js ''language-constructor'') = Some (js ''constructor'')" by code_simp
  moreover have "language_lookup (js ''constructor'') =
      Some \<lparr>cl_label = None, cl_highlighter = None, cl_showHeader = None\<rparr>"
    by (simp add: language_lookup_def languages_def language_entry_def inherited_names_def)
  ultimately show ?thesis using assms by (simp add: resolveCodeLanguage_def)
qed

text \<open>The other fences: a listed name in any case has its entry, an unlisted one keeps its own label.\<close>

theorem code_language_resolved:
  assumes "class_language True s = Some name" and "lower name \<notin> set inherited_names"
  shows "resolveCodeLanguage lower (Some s) =
    (case map_of languages (lower name) of
       Some l \<Rightarrow> l | None \<Rightarrow> code_language name (js ''plain'') True)"
  using assms by (auto simp: resolveCodeLanguage_def language_lookup_def split: option.splits)

end
