(* ===== verification/Conversation_Search.thy ===== *)
theory Conversation_Search
  imports Local_Storage
begin

text \<open>
  The search dialog (\<open>frontend/src/search/ConversationSearch.tsx\<close>): debounced queries, the cached recent
  conversations, further pages, the choice of a result and the keyboard.

  Requests are numbered by \<open>seq\<close>; the abort controller of a request bears its number. The effects of a
  change of the query, the visibility, the retry and the composition counter are run with the change.
  The async functions are cut at their awaits: a task is a timer or a continuation that waits for an
  answer, and the answers arrive in any order. Scroll positions are left out.
\<close>

section \<open>Definitions\<close>

subsection \<open>Results\<close>

record search_range =
  rg_start :: int
  rg_end :: int

datatype search_field = BodyField | ReplyQuoteField

record search_target = search_range +
  tg_message_id :: jstr
  tg_field :: search_field
  tg_projection_version :: int
  tg_projection_hash :: jstr

record search_snippet =
  sn_text :: jstr
  sn_match :: search_range
  sn_truncated_before :: bool
  sn_truncated_after :: bool

record search_item =
  si_conversation_id :: jstr
  si_title :: "jstr option"
  si_updated_at :: jstr
  si_title_match :: "search_range option"
  si_snippet :: "search_snippet option"
  si_target :: "search_target option"

record search_page =
  sp_items :: "search_item list"
  sp_next_cursor :: "jstr option"

definition empty_page :: search_page where
  "empty_page = \<lparr>sp_items = [], sp_next_cursor = None\<rparr>"

text \<open>The rows of a page that are not listed yet, and a list with a further page.\<close>

definition new_rows :: "search_item list \<Rightarrow> search_item list \<Rightarrow> search_item list" where
  "new_rows listed items =
     filter (\<lambda>row. \<not> list_ex (\<lambda>old. si_conversation_id old = si_conversation_id row) listed) items"

definition append_page :: "search_page \<Rightarrow> search_page \<Rightarrow> search_page" where
  "append_page previous result =
     result\<lparr>sp_items := sp_items previous @ new_rows (sp_items previous) (sp_items result)\<rparr>"

subsection \<open>The state of the dialog\<close>

datatype search_status = SearchLoading | SearchReady | SearchError

datatype active_source = ByKeyboard | ByPointer

datatype search_task =
    SearchTimer nat jstr nat
  | SearchFirst nat jstr nat
  | SearchRest nat jstr nat search_page
  | SearchMore nat jstr jstr
  | SearchChoice nat search_item

record search_state =
  qs_open :: bool
  qs_query :: jstr
  qs_page :: search_page
  qs_status :: search_status
  qs_loadingMore :: bool
  qs_pageError :: bool
  qs_active :: int
  qs_activeSource :: "active_source option"
  qs_opening :: "jstr option"
  qs_moreLock :: bool
  qs_revalidating :: bool
  qs_recentPage :: "search_page option"
  qs_lastQuery :: "jstr option"
  qs_seq :: nat
  qs_abort :: "nat option"
  qs_aborted :: "nat list"
  qs_cleanup :: "nat option"
  qs_composing :: bool
  qs_choices :: nat
  qs_choice :: "nat option"
  qs_choiceAborted :: "nat list"
  qs_stale :: nat
  qs_tasks :: "search_task list"

definition initial_search :: search_state where
  "initial_search =
     \<lparr>qs_open = False, qs_query = [], qs_page = empty_page, qs_status = SearchLoading,
      qs_loadingMore = False, qs_pageError = False, qs_active = - 1, qs_activeSource = None,
      qs_opening = None, qs_moreLock = False, qs_revalidating = False, qs_recentPage = None,
      qs_lastQuery = None, qs_seq = 0, qs_abort = None, qs_aborted = [], qs_cleanup = None,
      qs_composing = False, qs_choices = 0, qs_choice = None, qs_choiceAborted = [], qs_stale = 0,
      qs_tasks = []\<rparr>"

text \<open>\<open>query.replace(/\s+/g, " ").trim()\<close>.\<close>

fun collapse_spaces :: "bool \<Rightarrow> jstr \<Rightarrow> jstr" where
  "collapse_spaces inSpace [] = []"
| "collapse_spaces inSpace (c # s) =
     (if is_space c then (if inSpace then collapse_spaces True s else 32 # collapse_spaces True s)
      else c # collapse_spaces False s)"

definition normalized_query :: "jstr \<Rightarrow> jstr" where
  "normalized_query query = js_trim (collapse_spaces False query)"

definition too_long :: "jstr \<Rightarrow> bool" where
  "too_long query \<longleftrightarrow> code_points query > 200"

definition normalized :: "search_state \<Rightarrow> jstr" where
  "normalized s = normalized_query (qs_query s)"

text \<open>\<open>selectedRow\<close>.\<close>

definition selected_row :: "search_state \<Rightarrow> jstr option" where
  "selected_row s =
     (if 0 \<le> qs_active s \<and> nat (qs_active s) < length (sp_items (qs_page s))
      then Some (si_conversation_id (sp_items (qs_page s) ! nat (qs_active s))) else None)"

subsection \<open>Effects\<close>

definition abort_request :: "nat option \<Rightarrow> search_state \<Rightarrow> search_state" where
  "abort_request r s = (case r of None \<Rightarrow> s | Some n \<Rightarrow> s\<lparr>qs_aborted := add_new n (qs_aborted s)\<rparr>)"

definition abort_choice :: "search_state \<Rightarrow> search_state" where
  "abort_choice s =
     (case qs_choice s of None \<Rightarrow> s | Some n \<Rightarrow> s\<lparr>qs_choiceAborted := add_new n (qs_choiceAborted s)\<rparr>)"

text \<open>The cleanup of the last effect: its timer is cleared and its request aborted.\<close>

definition is_timer_of :: "nat \<Rightarrow> search_task \<Rightarrow> bool" where
  "is_timer_of r task = (case task of SearchTimer n _ _ \<Rightarrow> n = r | _ \<Rightarrow> False)"

definition cleanup_effect :: "search_state \<Rightarrow> search_state" where
  "cleanup_effect s =
     (case qs_cleanup s of
        None \<Rightarrow> s
      | Some r \<Rightarrow> (abort_request (Some r) s)
          \<lparr>qs_tasks := filter (\<lambda>t. \<not> is_timer_of r t) (qs_tasks s), qs_cleanup := None\<rparr>)"

text \<open>The effect that searches.\<close>

definition start_search :: "search_state \<Rightarrow> search_state" where
  "start_search s =
     (let q = normalized s; request = Suc (qs_seq s);
          changed = (qs_lastQuery s \<noteq> Some q);
          recent = (if q = [] then qs_recentPage s else None);
          s1 = (abort_request (qs_abort s) s)
            \<lparr>qs_seq := request, qs_abort := Some request, qs_cleanup := Some request,
             qs_page := (if changed then nullish recent empty_page else qs_page s),
             qs_active := (if changed then - 1 else qs_active s),
             qs_loadingMore := False, qs_moreLock := False, qs_pageError := False,
             qs_status := (if changed then (if recent \<noteq> None then SearchReady else SearchLoading)
                           else qs_status s)\<rparr>
      in if too_long (qs_query s) then s1
         else s1\<lparr>qs_revalidating := True,
                 qs_tasks := qs_tasks s1 @
                   [SearchTimer request q (if changed then 0 else length (sp_items (qs_page s)))]\<rparr>)"

definition search_effect :: "search_state \<Rightarrow> search_state" where
  "search_effect s =
     (let s1 = cleanup_effect s
      in if \<not> qs_open s1 \<or> qs_composing s1 then s1 else start_search s1)"

text \<open>The layout effect of \<open>open\<close> and \<open>normalized\<close>.\<close>

definition reset_active :: "search_state \<Rightarrow> search_state" where
  "reset_active s = (if qs_open s \<and> normalized s = [] then s\<lparr>qs_active := - 1\<rparr> else s)"

definition set_open :: "bool \<Rightarrow> search_state \<Rightarrow> search_state" where
  "set_open b s =
     (if b = qs_open s then s
      else
        let s1 = abort_choice (search_effect (reset_active (s\<lparr>qs_open := b\<rparr>)))
        in if b then s1 else s1\<lparr>qs_opening := None\<rparr>)"

subsection \<open>Answers to a search\<close>

definition request_live :: "nat \<Rightarrow> search_state \<Rightarrow> bool" where
  "request_live r s \<longleftrightarrow> r \<notin> set (qs_aborted s) \<and> r = qs_seq s"

text \<open>The \<open>finally\<close> of a search.\<close>

definition search_settled :: "nat \<Rightarrow> search_state \<Rightarrow> search_state" where
  "search_settled r s = (if r = qs_seq s then s\<lparr>qs_revalidating := False\<rparr> else s)"

definition active_after :: "jstr \<Rightarrow> search_page \<Rightarrow> search_state \<Rightarrow> int" where
  "active_after q result s =
     (if sp_items result = [] then - 1
      else max (if q \<noteq> [] then 0 else - 1)
        (case find_index (\<lambda>row. Some (si_conversation_id row) = selected_row s) (sp_items result) of
           None \<Rightarrow> - 1
         | Some i \<Rightarrow> int i))"

definition search_done :: "nat \<Rightarrow> jstr \<Rightarrow> search_page \<Rightarrow> search_state \<Rightarrow> search_state" where
  "search_done r q result s =
     search_settled r
       (if \<not> request_live r s then s
        else s\<lparr>qs_recentPage := (if q = [] then Some result else qs_recentPage s),
               qs_active := active_after q result s, qs_page := result, qs_lastQuery := Some q,
               qs_status := SearchReady\<rparr>)"

text \<open>The loop that loads as many rows again as were listed before.\<close>

definition search_continue :: "nat \<Rightarrow> jstr \<Rightarrow> nat \<Rightarrow> search_page \<Rightarrow> search_state \<Rightarrow> search_state" where
  "search_continue r q previousCount result s =
     (if request_live r s \<and> truthy (sp_next_cursor result) \<and> length (sp_items result) < previousCount
      then s\<lparr>qs_tasks := qs_tasks s @ [SearchRest r q previousCount result]\<rparr>
      else search_done r q result s)"

definition search_failed :: "nat \<Rightarrow> jstr \<Rightarrow> search_state \<Rightarrow> search_state" where
  "search_failed r q s =
     search_settled r
       (if request_live r s
        then s\<lparr>qs_status := (if q = [] \<and> qs_recentPage s \<noteq> None then SearchReady else SearchError)\<rparr>
        else s)"

subsection \<open>Further pages\<close>

definition more_begin :: "search_state \<Rightarrow> search_state" where
  "more_begin s =
     (if qs_revalidating s \<or> qs_moreLock s \<or> \<not> truthy (sp_next_cursor (qs_page s)) \<or>
         qs_status s \<noteq> SearchReady
      then s
      else s\<lparr>qs_moreLock := True, qs_loadingMore := True, qs_pageError := False,
             qs_tasks := qs_tasks s @
               [SearchMore (qs_seq s) (normalized s) (nullish (sp_next_cursor (qs_page s)) [])]\<rparr>)"

definition more_settled :: "nat \<Rightarrow> search_state \<Rightarrow> search_state" where
  "more_settled r s = (if r = qs_seq s then s\<lparr>qs_moreLock := False, qs_loadingMore := False\<rparr> else s)"

definition more_done :: "nat \<Rightarrow> search_page \<Rightarrow> search_state \<Rightarrow> search_state" where
  "more_done r result s =
     more_settled r (if request_live r s then s\<lparr>qs_page := append_page (qs_page s) result\<rparr> else s)"

text \<open>
  A failed further page. With an invalid cursor the search starts again; the \<open>finally\<close> comes before the
  effect of \<open>setRetry\<close>.
\<close>

definition more_failed :: "nat \<Rightarrow> bool \<Rightarrow> search_state \<Rightarrow> search_state" where
  "more_failed r cursorInvalid s =
     (if \<not> request_live r s then more_settled r s
      else if cursorInvalid then search_effect (more_settled r (s\<lparr>qs_lastQuery := None\<rparr>))
      else more_settled r (s\<lparr>qs_pageError := True\<rparr>))"

subsection \<open>Choosing a result\<close>

definition choose_begin :: "search_item \<Rightarrow> search_state \<Rightarrow> search_state" where
  "choose_begin item s =
     (let s1 = abort_choice s; c = Suc (qs_choices s)
      in s1\<lparr>qs_choices := c, qs_choice := Some c, qs_opening := Some (si_conversation_id item),
            qs_tasks := qs_tasks s @ [SearchChoice c item]\<rparr>)"

definition choose_done :: "nat \<Rightarrow> search_state \<Rightarrow> search_state" where
  "choose_done c s =
     (if c \<in> set (qs_choiceAborted s) then s else set_open False (s\<lparr>qs_opening := None\<rparr>))"

text \<open>\<open>gone\<close>: the error is an \<open>ApiError\<close> with status 403 or 404.\<close>

definition choose_failed :: "nat \<Rightarrow> search_item \<Rightarrow> bool \<Rightarrow> search_state \<Rightarrow> search_state" where
  "choose_failed c item gone s =
     (if c \<in> set (qs_choiceAborted s) then s
      else s\<lparr>qs_stale := Suc (qs_stale s),
             qs_page := (if gone
               then (qs_page s)\<lparr>sp_items := filter (\<lambda>row. si_conversation_id row \<noteq> si_conversation_id item)
                      (sp_items (qs_page s))\<rparr>
               else qs_page s),
             qs_opening := None\<rparr>)"

subsection \<open>The input\<close>

text \<open>\<open>updateQuery\<close>, without the effects of the new query.\<close>

definition take_query :: "jstr \<Rightarrow> search_state \<Rightarrow> search_state" where
  "take_query value s =
     (let s1 = s\<lparr>qs_query := value, qs_active := (if value = [] then - 1 else qs_active s)\<rparr>
      in if normalized_query value = normalized s \<and> too_long value = too_long (qs_query s) then s1
         else
           let s2 = abort_choice (abort_request (qs_abort s) s1);
               recent = (if js_trim value = [] \<and> \<not> too_long value then qs_recentPage s else None);
               s3 = s2\<lparr>qs_opening := None, qs_active := - 1\<rparr>
           in (case recent of
                 Some p \<Rightarrow> s3\<lparr>qs_page := p, qs_loadingMore := False, qs_pageError := False,
                             qs_status := SearchReady\<rparr>
               | None \<Rightarrow> s3\<lparr>qs_status := SearchLoading\<rparr>))"

definition updateQuery :: "jstr \<Rightarrow> search_state \<Rightarrow> search_state" where
  "updateQuery value s =
     (let s1 = take_query value s;
          s2 = (if normalized s1 \<noteq> normalized s then reset_active s1 else s1)
      in if normalized s1 \<noteq> normalized s \<or> too_long value \<noteq> too_long (qs_query s) then search_effect s2
         else s2)"

definition composition_start :: "search_state \<Rightarrow> search_state" where
  "composition_start s = abort_request (qs_abort s) (s\<lparr>qs_composing := True\<rparr>)"

definition composition_end :: "search_state \<Rightarrow> search_state" where
  "composition_end s = search_effect (s\<lparr>qs_composing := False\<rparr>)"

datatype search_key = ArrowDown | ArrowUp | Enter | OtherKey

definition search_key_down :: "bool \<Rightarrow> search_key \<Rightarrow> search_state \<Rightarrow> search_state" where
  "search_key_down isComposing key s =
     (if isComposing \<or> qs_composing s \<or> qs_status s \<noteq> SearchReady then s
      else if key = ArrowDown \<or> key = ArrowUp
      then
        let next = max 0 (min (int (length (sp_items (qs_page s))) - 1)
              (qs_active s + (if key = ArrowDown then 1 else - 1)))
        in s\<lparr>qs_activeSource := Some ByKeyboard, qs_active := next\<rparr>
      else if key = Enter \<and> 0 \<le> qs_active s \<and> nat (qs_active s) < length (sp_items (qs_page s))
      then choose_begin (sp_items (qs_page s) ! nat (qs_active s)) s
      else s)"

definition row_mouse_move :: "nat \<Rightarrow> search_state \<Rightarrow> search_state" where
  "row_mouse_move i s = s\<lparr>qs_activeSource := Some ByPointer, qs_active := int i\<rparr>"

definition row_mouse_leave :: "search_state \<Rightarrow> search_state" where
  "row_mouse_leave s =
     (if qs_activeSource s = Some ByPointer then s\<lparr>qs_activeSource := None, qs_active := - 1\<rparr> else s)"

definition row_focus :: "nat \<Rightarrow> search_state \<Rightarrow> search_state" where
  "row_focus i s = s\<lparr>qs_activeSource := Some ByKeyboard, qs_active := int i\<rparr>"

definition retry_search :: "search_state \<Rightarrow> search_state" where
  "retry_search s = search_effect s"

text \<open>\<open>MatchText\<close>: the text before, in and behind the mark.\<close>

definition match_text :: "jstr \<Rightarrow> nat \<times> nat \<Rightarrow> jstr \<times> jstr \<times> jstr" where
  "match_text text m =
     (take (fst m) text, take (snd m - fst m) (drop (fst m) text), drop (snd m) text)"

subsection \<open>Steps\<close>

text \<open>
  What can happen: the user and the parent act, timers fire, and the server answers the pending requests
  in any order. \<open>srv q cursor page\<close> says that the server may answer the query with this page.
\<close>

type_synonym search_server = "jstr \<Rightarrow> jstr option \<Rightarrow> search_page \<Rightarrow> bool"

definition drop_task :: "search_task \<Rightarrow> search_state \<Rightarrow> search_state" where
  "drop_task t s = s\<lparr>qs_tasks := remove1 t (qs_tasks s)\<rparr>"

definition fire_timer :: "nat \<Rightarrow> jstr \<Rightarrow> nat \<Rightarrow> search_state \<Rightarrow> search_state" where
  "fire_timer r q n s = s\<lparr>qs_tasks := qs_tasks s @ [SearchFirst r q n]\<rparr>"

inductive search_step :: "search_server \<Rightarrow> search_state \<Rightarrow> search_state \<Rightarrow> bool" for srv where
  visible: "search_step srv s (set_open b s)"
| typed: "qs_open s \<Longrightarrow> search_step srv s (updateQuery text s)"
| compose: "qs_open s \<Longrightarrow> search_step srv s (composition_start s)"
| composed: "qs_open s \<Longrightarrow> search_step srv s (composition_end s)"
| again: "qs_open s \<Longrightarrow> qs_status s = SearchError \<Longrightarrow> search_step srv s (retry_search s)"
| key: "qs_open s \<Longrightarrow> search_step srv s (search_key_down isComposing k s)"
| hover: "qs_open s \<Longrightarrow> i < length (sp_items (qs_page s)) \<Longrightarrow> search_step srv s (row_mouse_move i s)"
| leave: "qs_open s \<Longrightarrow> search_step srv s (row_mouse_leave s)"
| focus: "qs_open s \<Longrightarrow> i < length (sp_items (qs_page s)) \<Longrightarrow> search_step srv s (row_focus i s)"
| scroll: "qs_open s \<Longrightarrow> search_step srv s (more_begin s)"
| click: "qs_open s \<Longrightarrow> item \<in> set (sp_items (qs_page s)) \<Longrightarrow> search_step srv s (choose_begin item s)"
| fires: "SearchTimer r q n \<in> set (qs_tasks s) \<Longrightarrow>
    search_step srv s (fire_timer r q n (drop_task (SearchTimer r q n) s))"
| first_page: "SearchFirst r q n \<in> set (qs_tasks s) \<Longrightarrow> srv q None p \<Longrightarrow>
    search_step srv s (search_continue r q n p (drop_task (SearchFirst r q n) s))"
| next_page: "SearchRest r q n acc \<in> set (qs_tasks s) \<Longrightarrow> srv q (sp_next_cursor acc) p \<Longrightarrow>
    search_step srv s (search_continue r q n (append_page acc p) (drop_task (SearchRest r q n acc) s))"
| first_lost: "SearchFirst r q n \<in> set (qs_tasks s) \<Longrightarrow>
    search_step srv s (search_failed r q (drop_task (SearchFirst r q n) s))"
| next_lost: "SearchRest r q n acc \<in> set (qs_tasks s) \<Longrightarrow>
    search_step srv s (search_failed r q (drop_task (SearchRest r q n acc) s))"
| more_page: "SearchMore r q c \<in> set (qs_tasks s) \<Longrightarrow> srv q (Some c) p \<Longrightarrow>
    search_step srv s (more_done r p (drop_task (SearchMore r q c) s))"
| more_lost: "SearchMore r q c \<in> set (qs_tasks s) \<Longrightarrow>
    search_step srv s (more_failed r cursorInvalid (drop_task (SearchMore r q c) s))"
| opened: "SearchChoice c item \<in> set (qs_tasks s) \<Longrightarrow>
    search_step srv s (choose_done c (drop_task (SearchChoice c item) s))"
| not_opened: "SearchChoice c item \<in> set (qs_tasks s) \<Longrightarrow>
    search_step srv s (choose_failed c item gone (drop_task (SearchChoice c item) s))"

abbreviation search_reachable :: "search_server \<Rightarrow> search_state \<Rightarrow> bool" where
  "search_reachable srv s \<equiv> (search_step srv)\<^sup>*\<^sup>* initial_search s"

section \<open>Lemmas\<close>

subsection \<open>What the handlers leave alone\<close>

lemma abort_request_simps [simp]:
  "qs_open (abort_request r s) = qs_open s" "qs_query (abort_request r s) = qs_query s"
  "qs_page (abort_request r s) = qs_page s" "qs_status (abort_request r s) = qs_status s"
  "qs_recentPage (abort_request r s) = qs_recentPage s" "qs_lastQuery (abort_request r s) = qs_lastQuery s"
  "qs_seq (abort_request r s) = qs_seq s" "qs_abort (abort_request r s) = qs_abort s"
  "qs_tasks (abort_request r s) = qs_tasks s" "qs_cleanup (abort_request r s) = qs_cleanup s"
  "qs_composing (abort_request r s) = qs_composing s" "qs_moreLock (abort_request r s) = qs_moreLock s"
  "set (qs_aborted (abort_request r s)) = set_option r \<union> set (qs_aborted s)"
  "normalized (abort_request r s) = normalized s"
  by (simp_all add: abort_request_def normalized_def split: option.split)

lemma abort_choice_simps [simp]:
  "qs_open (abort_choice s) = qs_open s" "qs_query (abort_choice s) = qs_query s"
  "qs_page (abort_choice s) = qs_page s" "qs_status (abort_choice s) = qs_status s"
  "qs_recentPage (abort_choice s) = qs_recentPage s" "qs_lastQuery (abort_choice s) = qs_lastQuery s"
  "qs_seq (abort_choice s) = qs_seq s" "qs_abort (abort_choice s) = qs_abort s"
  "qs_tasks (abort_choice s) = qs_tasks s" "qs_cleanup (abort_choice s) = qs_cleanup s"
  "qs_composing (abort_choice s) = qs_composing s" "qs_moreLock (abort_choice s) = qs_moreLock s"
  "qs_aborted (abort_choice s) = qs_aborted s" "normalized (abort_choice s) = normalized s"
  by (simp_all add: abort_choice_def normalized_def split: option.split)

subsection \<open>The invariant\<close>

definition items_of :: "search_server \<Rightarrow> jstr \<Rightarrow> search_item set" where
  "items_of srv q = {item. \<exists>cursor p. srv q cursor p \<and> item \<in> set (sp_items p)}"

abbreviation rows :: "search_state \<Rightarrow> search_item set" where
  "rows s \<equiv> set (sp_items (qs_page s))"

definition task_request :: "search_task \<Rightarrow> nat option" where
  "task_request t =
     (case t of
        SearchTimer r _ _ \<Rightarrow> Some r
      | SearchFirst r _ _ \<Rightarrow> Some r
      | SearchRest r _ _ _ \<Rightarrow> Some r
      | SearchMore r _ _ \<Rightarrow> Some r
      | SearchChoice _ _ \<Rightarrow> None)"

definition task_query :: "search_task \<Rightarrow> jstr" where
  "task_query t =
     (case t of
        SearchTimer _ q _ \<Rightarrow> q | SearchFirst _ q _ \<Rightarrow> q | SearchRest _ q _ _ \<Rightarrow> q | SearchMore _ q _ \<Rightarrow> q
      | SearchChoice _ _ \<Rightarrow> [])"

text \<open>What is known of a task whatever happens to its request, and while its request is live.\<close>

definition task_sound :: "search_server \<Rightarrow> nat \<Rightarrow> search_task \<Rightarrow> bool" where
  "task_sound srv n t \<longleftrightarrow>
     (\<forall>r. task_request t = Some r \<longrightarrow> 0 < r \<and> r \<le> n) \<and>
     (\<forall>r q k acc. t = SearchRest r q k acc \<longrightarrow> set (sp_items acc) \<subseteq> items_of srv q)"

definition task_current :: "search_state \<Rightarrow> search_task \<Rightarrow> bool" where
  "task_current s t \<longleftrightarrow>
     (\<forall>r. task_request t = Some r \<and> request_live r s \<longrightarrow>
        task_query t = normalized s \<and>
        (\<forall>q c. t = SearchMore r q c \<longrightarrow> qs_lastQuery s = Some q \<or> q = []))"

text \<open>The rows shown belong to the query, or come from the recent conversations.\<close>

definition page_sound :: "search_server \<Rightarrow> search_state \<Rightarrow> bool" where
  "page_sound srv s \<longleftrightarrow>
     rows s \<subseteq> items_of srv [] \<union> (case qs_lastQuery s of None \<Rightarrow> {} | Some l \<Rightarrow> items_of srv l) \<and>
     (qs_status s = SearchReady \<longrightarrow>
        rows s \<subseteq> items_of srv (normalized s) \<and> (qs_lastQuery s = Some (normalized s) \<or> normalized s = []))"

definition recent_sound :: "search_server \<Rightarrow> search_state \<Rightarrow> bool" where
  "recent_sound srv s \<longleftrightarrow> (\<forall>p. qs_recentPage s = Some p \<longrightarrow> set (sp_items p) \<subseteq> items_of srv [])"

definition some_live :: "search_state \<Rightarrow> bool" where
  "some_live s \<longleftrightarrow> 0 < qs_seq s \<and> qs_seq s \<notin> set (qs_aborted s)"

definition search_core :: "search_server \<Rightarrow> search_state \<Rightarrow> bool" where
  "search_core srv s \<longleftrightarrow>
     qs_abort s = (if qs_seq s = 0 then None else Some (qs_seq s)) \<and>
     (\<forall>t \<in> set (qs_tasks s). task_sound srv (qs_seq s) t) \<and> recent_sound srv s \<and>
     (qs_seq s = 0 \<longrightarrow> qs_recentPage s = None \<and> qs_status s \<noteq> SearchReady)"

definition search_invariant :: "search_server \<Rightarrow> search_state \<Rightarrow> bool" where
  "search_invariant srv s \<longleftrightarrow>
     search_core srv s \<and> page_sound srv s \<and>
     (\<forall>t \<in> set (qs_tasks s). task_current s t) \<and>
     (some_live s \<longrightarrow> qs_open s \<and> \<not> qs_composing s \<and> qs_cleanup s = Some (qs_seq s) \<and>
        (normalized s = [] \<longrightarrow> rows s \<subseteq> items_of srv []))"

lemma request_live_some: "request_live r s \<Longrightarrow> 0 < r \<Longrightarrow> some_live s"
  by (auto simp: request_live_def some_live_def)

lemma task_request_simps [simp]:
  "task_request (SearchTimer r q n) = Some r" "task_request (SearchFirst r q n) = Some r"
  "task_request (SearchRest r q n acc) = Some r" "task_request (SearchMore r q c) = Some r"
  "task_request (SearchChoice k item) = None"
  by (simp_all add: task_request_def)

lemma task_query_simps [simp]:
  "task_query (SearchTimer r q n) = q" "task_query (SearchFirst r q n) = q"
  "task_query (SearchRest r q n acc) = q" "task_query (SearchMore r q c) = q"
  by (simp_all add: task_query_def)

lemma choice_task [simp]:
  "task_sound srv n (SearchChoice c item)" "task_current s (SearchChoice c item)"
  by (simp_all add: task_sound_def task_current_def)

lemma new_rows_subset: "set (new_rows listed items) \<subseteq> set items"
  by (auto simp: new_rows_def)

lemma append_page_rows: "set (sp_items (append_page p p')) \<subseteq> set (sp_items p) \<union> set (sp_items p')"
  using new_rows_subset by (auto simp: append_page_def)

text \<open>Changes outside of what the invariant speaks of.\<close>

lemma search_invariant_cong:
  assumes "search_invariant srv s"
    and "qs_open s' = qs_open s" "normalized s' = normalized s" "qs_status s' = qs_status s"
    and "qs_recentPage s' = qs_recentPage s" "qs_lastQuery s' = qs_lastQuery s" "qs_seq s' = qs_seq s"
    and "qs_abort s' = qs_abort s" "qs_aborted s' = qs_aborted s" "qs_cleanup s' = qs_cleanup s"
    and "qs_composing s' = qs_composing s"
    and "rows s' \<subseteq> rows s" and "set (qs_tasks s') \<subseteq> set (qs_tasks s) \<union> {SearchChoice c item |c item. True}"
  shows "search_invariant srv s'"
proof -
  have same: "normalized s' = normalized s" "some_live s' = some_live s" "request_live r s' = request_live r s" for r
    using assms by (simp_all add: some_live_def request_live_def)
  have current: "task_current s' t = task_current s t" for t
    by (simp add: task_current_def same assms)
  have tasks: "task_sound srv (qs_seq s) t \<and> task_current s t" if "t \<in> set (qs_tasks s')" for t
    using that assms(1,13) by (auto simp: search_invariant_def search_core_def)
  have "search_core srv s'"
    using assms(1) tasks by (simp add: search_invariant_def search_core_def recent_sound_def assms(4,5,7,8))
  moreover have "page_sound srv s'"
    using assms(1,12) unfolding search_invariant_def page_sound_def assms(4,6) same by blast
  moreover have "some_live s' \<longrightarrow> qs_open s' \<and> \<not> qs_composing s' \<and> qs_cleanup s' = Some (qs_seq s') \<and>
      (normalized s' = [] \<longrightarrow> rows s' \<subseteq> items_of srv [])"
    using assms(1,12) unfolding search_invariant_def assms(2,7,10,11) same by blast
  ultimately show ?thesis using tasks by (simp add: search_invariant_def current)
qed

text \<open>Aborting more requests only makes tasks dead.\<close>

lemma search_invariant_abort:
  assumes "search_invariant srv s" "set (qs_aborted s) \<subseteq> set (qs_aborted s')"
    and "s' = s\<lparr>qs_aborted := qs_aborted s', qs_tasks := qs_tasks s'\<rparr>" "set (qs_tasks s') \<subseteq> set (qs_tasks s)"
  shows "search_invariant srv s'"
proof -
  have same: "normalized s' = normalized s" "qs_seq s' = qs_seq s" "qs_page s' = qs_page s" "qs_status s' = qs_status s"
    "qs_lastQuery s' = qs_lastQuery s" "qs_recentPage s' = qs_recentPage s" "qs_abort s' = qs_abort s"
    "qs_open s' = qs_open s" "qs_composing s' = qs_composing s" "qs_cleanup s' = qs_cleanup s"
    by (subst assms(3), simp add: normalized_def)+
  have live: "some_live s' \<Longrightarrow> some_live s" "request_live r s' \<Longrightarrow> request_live r s" for r
    using assms(2) same(2) by (auto simp: some_live_def request_live_def)
  have "task_current s' t" if "t \<in> set (qs_tasks s')" for t
    using assms(1,4) that live(2) unfolding search_invariant_def task_current_def same by blast
  then show ?thesis
    using assms(1,4) live(1)
    unfolding search_invariant_def search_core_def page_sound_def recent_sound_def same by blast
qed

subsection \<open>The effect\<close>

lemma start_search_simps [simp]:
  "qs_open (start_search s) = qs_open s" "qs_query (start_search s) = qs_query s"
  "normalized (start_search s) = normalized s" "qs_composing (start_search s) = qs_composing s"
  "qs_seq (start_search s) = Suc (qs_seq s)" "qs_abort (start_search s) = Some (Suc (qs_seq s))"
  "qs_cleanup (start_search s) = Some (Suc (qs_seq s))" "qs_moreLock (start_search s) = False"
  "qs_recentPage (start_search s) = qs_recentPage s" "qs_lastQuery (start_search s) = qs_lastQuery s"
  by (simp_all add: start_search_def Let_def normalized_def)

lemma start_search_page:
  "qs_page (start_search s) =
     (if qs_lastQuery s = Some (normalized s) then qs_page s
      else nullish (if normalized s = [] then qs_recentPage s else None) empty_page)"
  by (simp add: start_search_def Let_def)

lemma start_search_status:
  "qs_status (start_search s) =
     (if qs_lastQuery s = Some (normalized s) then qs_status s
      else if normalized s = [] \<and> qs_recentPage s \<noteq> None then SearchReady else SearchLoading)"
  by (auto simp: start_search_def Let_def)

lemma start_search_tasks:
  "t \<in> set (qs_tasks (start_search s)) \<Longrightarrow>
   t \<in> set (qs_tasks s) \<or> (\<exists>n. t = SearchTimer (Suc (qs_seq s)) (normalized s) n)"
  by (auto simp: start_search_def Let_def split: if_splits)

lemma start_search_page_sound:
  assumes "recent_sound srv s" and "qs_lastQuery s = Some (normalized s) \<Longrightarrow> page_sound srv s"
  shows "page_sound srv (start_search s)"
    and "normalized s = [] \<Longrightarrow> rows (start_search s) \<subseteq> items_of srv []"
proof -
  have fresh: "rows (start_search s) \<subseteq> items_of srv [] \<and> (qs_status (start_search s) = SearchReady \<longrightarrow> normalized s = [])"
    if "qs_lastQuery s \<noteq> Some (normalized s)"
    using that assms(1)
    by (cases "qs_recentPage s")
      (auto simp: start_search_page start_search_status recent_sound_def nullish_def empty_page_def)
  show "page_sound srv (start_search s)"
  proof (cases "qs_lastQuery s = Some (normalized s)")
    case True
    then show ?thesis using assms(2) by (auto simp: page_sound_def start_search_page start_search_status)
  next
    case False
    then show ?thesis using fresh by (auto simp: page_sound_def)
  qed
  show "normalized s = [] \<Longrightarrow> rows (start_search s) \<subseteq> items_of srv []"
    using assms(2) fresh
    by (cases "qs_lastQuery s = Some (normalized s)") (auto simp: page_sound_def start_search_page)
qed

lemma start_search_invariant:
  assumes core: "search_core srv s" and "qs_open s" "\<not> qs_composing s"
    and "qs_lastQuery s = Some (normalized s) \<Longrightarrow> page_sound srv s"
  shows "search_invariant srv (start_search s)"
proof -
  have recent: "recent_sound srv s" using core by (simp add: search_core_def)
  have tasks: "task_sound srv (Suc (qs_seq s)) t \<and> task_current (start_search s) t"
    if "t \<in> set (qs_tasks (start_search s))" for t
    using start_search_tasks [OF that]
  proof
    assume "t \<in> set (qs_tasks s)"
    then have sound: "task_sound srv (qs_seq s) t" using core by (simp add: search_core_def)
    then have "task_sound srv (Suc (qs_seq s)) t" by (auto simp: task_sound_def)
    moreover have "task_current (start_search s) t"
      using sound by (auto simp: task_sound_def task_current_def request_live_def)
    ultimately show ?thesis ..
  qed (auto simp: task_sound_def task_current_def)
  have "recent_sound srv (start_search s)" using recent by (simp add: recent_sound_def)
  then show ?thesis
    using tasks start_search_page_sound [OF recent assms(4)] assms(2,3)
    by (auto simp: search_invariant_def search_core_def)
qed

lemma cleanup_invariant: "search_invariant srv s \<Longrightarrow> search_invariant srv (cleanup_effect s)"
proof (cases "qs_cleanup s")
  case (Some r)
  assume inv: "search_invariant srv s"
  define s1 where "s1 = abort_request (Some r) s\<lparr>qs_tasks := filter (\<lambda>t. \<not> is_timer_of r t) (qs_tasks s)\<rparr>"
  have "search_invariant srv s1"
    by (rule search_invariant_abort [OF inv]) (auto simp: s1_def abort_request_def)
  moreover have "\<not> some_live s1"
  proof
    assume live: "some_live s1"
    then have "some_live s" by (auto simp: s1_def some_live_def abort_request_def)
    then have "r = qs_seq s" using inv Some by (simp add: search_invariant_def)
    then show False using live by (simp add: s1_def some_live_def abort_request_def)
  qed
  moreover have "cleanup_effect s = s1\<lparr>qs_cleanup := None\<rparr>"
    by (simp add: cleanup_effect_def Some s1_def abort_request_def)
  moreover have "search_core srv (s1\<lparr>qs_cleanup := None\<rparr>) = search_core srv s1"
    "page_sound srv (s1\<lparr>qs_cleanup := None\<rparr>) = page_sound srv s1"
    "task_current (s1\<lparr>qs_cleanup := None\<rparr>) = task_current s1"
    "some_live (s1\<lparr>qs_cleanup := None\<rparr>) = some_live s1"
    by (simp_all add: search_core_def page_sound_def task_current_def recent_sound_def normalized_def
        request_live_def some_live_def fun_eq_iff)
  ultimately show ?thesis by (simp add: search_invariant_def)
qed (simp add: cleanup_effect_def)

lemma cleanup_dead:
  assumes "search_invariant srv s"
  shows "\<not> some_live (cleanup_effect s)"
proof
  assume "some_live (cleanup_effect s)"
  then have "some_live s" "qs_cleanup s \<noteq> Some (qs_seq s)"
    by (auto simp: cleanup_effect_def some_live_def split: option.splits)
  then show False using assms by (simp add: search_invariant_def)
qed

lemma cleanup_simps [simp]:
  "qs_open (cleanup_effect s) = qs_open s" "qs_query (cleanup_effect s) = qs_query s"
  "qs_page (cleanup_effect s) = qs_page s" "qs_status (cleanup_effect s) = qs_status s"
  "qs_recentPage (cleanup_effect s) = qs_recentPage s" "qs_lastQuery (cleanup_effect s) = qs_lastQuery s"
  "qs_seq (cleanup_effect s) = qs_seq s" "qs_composing (cleanup_effect s) = qs_composing s"
  "qs_moreLock (cleanup_effect s) = qs_moreLock s" "normalized (cleanup_effect s) = normalized s"
  "set (qs_tasks (cleanup_effect s)) \<subseteq> set (qs_tasks s)"
  by (auto simp: cleanup_effect_def normalized_def split: option.split)

lemma search_effect_invariant:
  assumes "search_invariant srv s"
  shows "search_invariant srv (search_effect s)"
  using cleanup_invariant [OF assms] start_search_invariant [of srv "cleanup_effect s"]
  by (auto simp: search_effect_def Let_def search_invariant_def)

text \<open>Visibility and composition may change while no request is live.\<close>

lemma search_invariant_dead:
  assumes "search_invariant srv s" "\<not> some_live s"
  shows "search_invariant srv (s\<lparr>qs_open := b\<rparr>)" "search_invariant srv (s\<lparr>qs_composing := c\<rparr>)"
proof -
  have same: "search_core srv (s\<lparr>qs_open := b\<rparr>) = search_core srv s" "page_sound srv (s\<lparr>qs_open := b\<rparr>) = page_sound srv s"
    "task_current (s\<lparr>qs_open := b\<rparr>) = task_current s" "some_live (s\<lparr>qs_open := b\<rparr>) = some_live s"
    "search_core srv (s\<lparr>qs_composing := c\<rparr>) = search_core srv s"
    "page_sound srv (s\<lparr>qs_composing := c\<rparr>) = page_sound srv s"
    "task_current (s\<lparr>qs_composing := c\<rparr>) = task_current s" "some_live (s\<lparr>qs_composing := c\<rparr>) = some_live s"
    by (simp_all add: search_core_def page_sound_def task_current_def recent_sound_def normalized_def
        request_live_def some_live_def fun_eq_iff)
  show "search_invariant srv (s\<lparr>qs_open := b\<rparr>)" "search_invariant srv (s\<lparr>qs_composing := c\<rparr>)"
    using assms by (simp_all add: search_invariant_def same)
qed

subsection \<open>Preservation\<close>

lemma initial_invariant: "search_invariant srv initial_search"
  by (simp add: search_invariant_def search_core_def page_sound_def recent_sound_def some_live_def
      initial_search_def empty_page_def)

lemma reset_active_invariant [intro]: "search_invariant srv s \<Longrightarrow> search_invariant srv (reset_active s)"
  by (erule search_invariant_cong) (auto simp: reset_active_def normalized_def)

lemma abort_choice_invariant [intro]: "search_invariant srv s \<Longrightarrow> search_invariant srv (abort_choice s)"
  by (erule search_invariant_cong) auto

lemma opening_invariant [intro]: "search_invariant srv s \<Longrightarrow> search_invariant srv (s\<lparr>qs_opening := x\<rparr>)"
  by (erule search_invariant_cong) (auto simp: normalized_def)

lemma cleanup_open:
  "cleanup_effect (s\<lparr>qs_open := b\<rparr>) = (cleanup_effect s)\<lparr>qs_open := b\<rparr>"
  by (simp add: cleanup_effect_def abort_request_def split: option.split)

lemma set_open_invariant:
  assumes inv: "search_invariant srv s"
  shows "search_invariant srv (set_open b s)"
proof (cases "b = qs_open s")
  case False
  let ?s0 = "reset_active (s\<lparr>qs_open := b\<rparr>)"
  have "search_invariant srv (search_effect ?s0)"
  proof (cases b)
    case True
    then have "\<not> some_live s" using False inv by (auto simp: search_invariant_def)
    then show ?thesis using search_invariant_dead(1) [OF inv] search_effect_invariant by blast
  next
    case b: False
    then have "search_effect ?s0 = (cleanup_effect s)\<lparr>qs_open := False\<rparr>"
      by (simp add: search_effect_def reset_active_def Let_def cleanup_open)
    then show ?thesis
      using search_invariant_dead(1) [OF cleanup_invariant [OF inv] cleanup_dead [OF inv]] by simp
  qed
  then show ?thesis
    using False by (cases b) (simp_all add: set_open_def Let_def abort_choice_invariant opening_invariant)
qed (simp add: set_open_def assms)

text \<open>Aborting the current controller leaves no request live.\<close>

lemma abort_current_invariant:
  assumes "search_invariant srv s"
  shows "search_invariant srv (abort_request (qs_abort s) s)" "\<not> some_live (abort_request (qs_abort s) s)"
proof -
  show "search_invariant srv (abort_request (qs_abort s) s)"
    by (rule search_invariant_abort [OF assms]) (auto simp: abort_request_def split: option.splits)
  show "\<not> some_live (abort_request (qs_abort s) s)"
    using assms by (auto simp: some_live_def search_invariant_def search_core_def)
qed

lemma composition_start_invariant:
  assumes "search_invariant srv s"
  shows "search_invariant srv (composition_start s)"
proof -
  have "composition_start s = (abort_request (qs_abort s) s)\<lparr>qs_composing := True\<rparr>"
    by (simp add: composition_start_def abort_request_def split: option.split)
  then show ?thesis using search_invariant_dead(2) [OF abort_current_invariant [OF assms]] by simp
qed

lemma composition_end_invariant:
  assumes inv: "search_invariant srv s"
  shows "search_invariant srv (composition_end s)"
proof (cases "qs_composing s")
  case True
  then have "\<not> some_live s" using inv by (auto simp: search_invariant_def)
  then show ?thesis
    unfolding composition_end_def by (intro search_effect_invariant search_invariant_dead(2) inv)
next
  case False
  then have "s\<lparr>qs_composing := False\<rparr> = s" by simp
  then show ?thesis unfolding composition_end_def using search_effect_invariant [OF inv] by simp
qed

text \<open>Typing.\<close>

lemma collapse_blank: "list_all is_space s \<Longrightarrow> list_all is_space (collapse_spaces b s)"
  by (induction b s rule: collapse_spaces.induct) (auto simp: is_space_def)

lemma trim_blank: "js_trim s = [] \<longleftrightarrow> list_all is_space s"
  by (simp add: js_trim_def list_all_iff)
    (metis dropWhile_eq_Nil_conv hd_dropWhile list.set_sel(1) set_dropWhileD)

lemma blank_query: "js_trim value = [] \<Longrightarrow> normalized_query value = []"
  by (simp add: normalized_query_def trim_blank collapse_blank)

lemma dead_invariant:
  assumes core: "search_core srv s" and "page_sound srv s" and dead: "\<not> some_live s"
  shows "search_invariant srv s"
proof -
  have "task_current s t" if t: "t \<in> set (qs_tasks s)" for t
  proof -
    have "task_sound srv (qs_seq s) t" using core t by (simp add: search_core_def)
    then show ?thesis
      using dead request_live_some unfolding task_current_def task_sound_def by blast
  qed
  then show ?thesis using assms by (simp add: search_invariant_def)
qed

lemma take_query_invariant:
  assumes inv: "search_invariant srv s"
  shows "search_invariant srv (take_query value s)"
proof (cases "normalized_query value = normalized s \<and> too_long value = too_long (qs_query s)")
  case True
  have same: "normalized (s\<lparr>qs_query := value, qs_active := x\<rparr>) = normalized s" for x
    using True by (simp add: normalized_def)
  show ?thesis
    using inv by (rule search_invariant_cong) (use True same in \<open>simp_all add: take_query_def Let_def\<close>)
next
  case False
  let ?recent = "if js_trim value = [] \<and> \<not> too_long value then qs_recentPage s else None"
  define s' where "s' = take_query value s"
  have fields: "qs_seq s' = qs_seq s" "qs_abort s' = qs_abort s" "qs_tasks s' = qs_tasks s"
    "qs_recentPage s' = qs_recentPage s" "qs_lastQuery s' = qs_lastQuery s"
    "set (qs_aborted s') = set_option (qs_abort s) \<union> set (qs_aborted s)"
    "normalized s' = normalized_query value"
    "qs_page s' = nullish ?recent (qs_page s)"
    "qs_status s' = (if ?recent = None then SearchLoading else SearchReady)"
    using False by (auto simp: s'_def take_query_def Let_def normalized_def split: option.split)
  have parts: "search_core srv s" "page_sound srv s" "recent_sound srv s"
    using inv by (simp_all add: search_invariant_def search_core_def)
  have "\<not> some_live s'"
    using parts(1) by (auto simp: some_live_def fields search_core_def)
  moreover have "search_core srv s'"
    using parts(1) by (auto simp: search_core_def recent_sound_def fields)
  moreover have "page_sound srv s'"
  proof (cases ?recent)
    case None
    then show ?thesis using parts(2) fields by (simp add: page_sound_def)
  next
    case (Some p)
    then have "js_trim value = []" "qs_recentPage s = Some p" by (auto split: if_splits)
    then show ?thesis
      using parts(3) fields Some blank_query [of "value"] by (auto simp: page_sound_def recent_sound_def)
  qed
  ultimately show ?thesis unfolding s'_def by (intro dead_invariant)
qed

lemma updateQuery_invariant: "search_invariant srv s \<Longrightarrow> search_invariant srv (updateQuery value s)"
  unfolding updateQuery_def Let_def
  using take_query_invariant search_effect_invariant reset_active_invariant by auto

text \<open>Tasks come and go.\<close>

lemma drop_task_simps [simp]:
  "qs_open (drop_task t s) = qs_open s" "normalized (drop_task t s) = normalized s"
  "qs_page (drop_task t s) = qs_page s" "qs_status (drop_task t s) = qs_status s"
  "qs_recentPage (drop_task t s) = qs_recentPage s" "qs_lastQuery (drop_task t s) = qs_lastQuery s"
  "qs_seq (drop_task t s) = qs_seq s" "qs_abort (drop_task t s) = qs_abort s"
  "qs_aborted (drop_task t s) = qs_aborted s" "qs_cleanup (drop_task t s) = qs_cleanup s"
  "qs_composing (drop_task t s) = qs_composing s" "qs_moreLock (drop_task t s) = qs_moreLock s"
  "request_live r (drop_task t s) = request_live r s"
  by (simp_all add: drop_task_def normalized_def request_live_def)

lemma drop_task_subset: "set (qs_tasks (drop_task t s)) \<subseteq> set (qs_tasks s)"
  by (simp add: drop_task_def set_remove1_subset)

lemma drop_task_invariant: "search_invariant srv s \<Longrightarrow> search_invariant srv (drop_task t s)"
  using drop_task_subset [of t s] by (rule_tac search_invariant_cong) auto

lemma current_of_task:
  assumes "search_invariant srv s" "t \<in> set (qs_tasks s)"
  shows "task_sound srv (qs_seq s) t" "task_current s t"
  using assms by (simp_all add: search_invariant_def search_core_def)

lemma task_current_drop [simp]: "task_current (drop_task u s) t = task_current s t"
  by (simp add: task_current_def)

lemma add_task_invariant:
  assumes inv: "search_invariant srv s" and "task_sound srv (qs_seq s) t" "task_current s t"
  shows "search_invariant srv (s\<lparr>qs_tasks := qs_tasks s @ [t]\<rparr>)"
proof -
  let ?s = "s\<lparr>qs_tasks := qs_tasks s @ [t]\<rparr>"
  have "task_current ?s u = task_current s u" for u
    by (simp add: task_current_def normalized_def request_live_def)
  then show ?thesis
    using assms
    by (auto simp: search_invariant_def search_core_def page_sound_def recent_sound_def some_live_def normalized_def)
qed

lemma search_settled_invariant [intro]: "search_invariant srv s \<Longrightarrow> search_invariant srv (search_settled r s)"
  by (erule search_invariant_cong) (auto simp: search_settled_def normalized_def)

lemma more_settled_invariant [intro]: "search_invariant srv s \<Longrightarrow> search_invariant srv (more_settled r s)"
  by (erule search_invariant_cong) (auto simp: more_settled_def normalized_def)

lemma search_done_invariant:
  assumes inv: "search_invariant srv s" and items: "set (sp_items result) \<subseteq> items_of srv q"
    and q: "request_live r s \<Longrightarrow> q = normalized s" and r: "0 < r"
  shows "search_invariant srv (search_done r q result s)"
proof (cases "request_live r s")
  case True
  define s' where "s' = s\<lparr>qs_recentPage := (if q = [] then Some result else qs_recentPage s),
      qs_active := active_after q result s, qs_page := result, qs_lastQuery := Some q,
      qs_status := SearchReady\<rparr>"
  have same: "normalized s' = q" "some_live s' = some_live s" "request_live n s' = request_live n s"
    "qs_seq s' = qs_seq s" "qs_abort s' = qs_abort s" "qs_tasks s' = qs_tasks s" "qs_open s' = qs_open s"
    "qs_composing s' = qs_composing s" "qs_cleanup s' = qs_cleanup s" "qs_page s' = result"
    "qs_lastQuery s' = Some q" "qs_recentPage s' = (if q = [] then Some result else qs_recentPage s)" for n
    using q [OF True] by (simp_all add: s'_def normalized_def some_live_def request_live_def)
  have "task_current s' t" if "t \<in> set (qs_tasks s)" for t
    using current_of_task(2) [OF inv that] q [OF True] by (auto simp: task_current_def same)
  moreover have "qs_seq s \<noteq> 0" using True r by (auto simp: request_live_def)
  ultimately have "search_invariant srv s'"
    using inv items
    by (auto simp: search_invariant_def search_core_def page_sound_def recent_sound_def same)
  then show ?thesis using True by (auto simp: search_done_def s'_def)
qed (use inv in \<open>auto simp: search_done_def\<close>)

lemma search_continue_invariant:
  assumes inv: "search_invariant srv s" and "set (sp_items result) \<subseteq> items_of srv q"
    and "request_live r s \<Longrightarrow> q = normalized s" and "0 < r" "r \<le> qs_seq s"
  shows "search_invariant srv (search_continue r q n result s)"
proof -
  have "task_sound srv (qs_seq s) (SearchRest r q n result)" "task_current s (SearchRest r q n result)"
    using assms by (auto simp: task_sound_def task_current_def)
  then show ?thesis
    using add_task_invariant [OF inv] search_done_invariant [OF assms(1-4)]
    by (auto simp: search_continue_def)
qed

lemma search_failed_invariant:
  assumes inv: "search_invariant srv s" and q: "request_live r s \<Longrightarrow> q = normalized s" and r: "0 < r"
  shows "search_invariant srv (search_failed r q s)"
proof (cases "request_live r s")
  case True
  define st where "st = (if q = [] \<and> qs_recentPage s \<noteq> None then SearchReady else SearchError)"
  define s' where "s' = s\<lparr>qs_status := st\<rparr>"
  have same: "normalized s' = normalized s" "some_live s' = some_live s" "task_current s' t = task_current s t"
    "qs_page s' = qs_page s" "qs_lastQuery s' = qs_lastQuery s" "qs_status s' = st" "qs_open s' = qs_open s"
    "qs_composing s' = qs_composing s" "qs_cleanup s' = qs_cleanup s" "qs_seq s' = qs_seq s"
    "qs_tasks s' = qs_tasks s" for t
    by (simp_all add: s'_def normalized_def some_live_def task_current_def request_live_def)
  have ready: "st = SearchReady \<Longrightarrow> normalized s = [] \<and> rows s \<subseteq> items_of srv []"
    using q [OF True] inv request_live_some [OF True r] by (auto simp: st_def search_invariant_def split: if_splits)
  have parts: "search_core srv s" "page_sound srv s" using inv by (simp_all add: search_invariant_def)
  have "search_core srv s'"
    using parts(1) True r by (auto simp: search_core_def recent_sound_def request_live_def s'_def)
  moreover have "page_sound srv s'"
    using parts(2) ready unfolding page_sound_def same by simp
  ultimately have "search_invariant srv s'" using inv unfolding search_invariant_def same by simp
  then show ?thesis using True by (auto simp: search_failed_def st_def s'_def)
qed (use inv in \<open>auto simp: search_failed_def\<close>)

lemma more_begin_invariant:
  assumes inv: "search_invariant srv s"
  shows "search_invariant srv (more_begin s)"
proof (cases "qs_status s = SearchReady")
  case True
  define s1 where "s1 = s\<lparr>qs_moreLock := True, qs_loadingMore := True, qs_pageError := False\<rparr>"
  define t where "t = SearchMore (qs_seq s) (normalized s) (nullish (sp_next_cursor (qs_page s)) [])"
  have s1: "search_invariant srv s1"
    using inv by (rule search_invariant_cong) (auto simp: s1_def normalized_def)
  have "qs_seq s \<noteq> 0" using inv True by (auto simp: search_invariant_def search_core_def)
  then have "task_sound srv (qs_seq s1) t" by (simp add: task_sound_def t_def s1_def)
  moreover have "task_current s1 t"
    using inv True by (auto simp: task_current_def t_def s1_def normalized_def search_invariant_def page_sound_def)
  ultimately have "search_invariant srv (s1\<lparr>qs_tasks := qs_tasks s1 @ [t]\<rparr>)"
    by (rule add_task_invariant [OF s1])
  then show ?thesis using inv by (auto simp: more_begin_def s1_def t_def)
qed (use inv in \<open>simp add: more_begin_def\<close>)

text \<open>A further page belongs to the query that is shown.\<close>

lemma more_done_invariant:
  assumes inv: "search_invariant srv s" and items: "set (sp_items p) \<subseteq> items_of srv q"
    and q: "request_live r s \<Longrightarrow> q = normalized s \<and> (qs_lastQuery s = Some q \<or> q = [])"
  shows "search_invariant srv (more_done r p s)"
proof (cases "request_live r s")
  case True
  define s' where "s' = s\<lparr>qs_page := append_page (qs_page s) p\<rparr>"
  have same: "normalized s' = normalized s" "some_live s' = some_live s" "task_current s' t = task_current s t"
    "search_core srv s' = search_core srv s" "qs_lastQuery s' = qs_lastQuery s" "qs_status s' = qs_status s"
    "qs_open s' = qs_open s" "qs_composing s' = qs_composing s" "qs_cleanup s' = qs_cleanup s"
    "qs_seq s' = qs_seq s" "qs_tasks s' = qs_tasks s" for t
    by (simp_all add: s'_def normalized_def some_live_def task_current_def request_live_def search_core_def
        recent_sound_def)
  have more: "rows s' \<subseteq> rows s \<union> items_of srv q"
    using append_page_rows [of "qs_page s" p] items by (auto simp: s'_def)
  have page: "page_sound srv s" using inv by (simp add: search_invariant_def)
  have last: "items_of srv q \<subseteq> items_of srv [] \<union>
      (case qs_lastQuery s of None \<Rightarrow> {} | Some l \<Rightarrow> items_of srv l)"
    using q [OF True] by auto
  have "page_sound srv s'"
    using page more last q [OF True] unfolding page_sound_def same by blast
  moreover have "normalized s = [] \<Longrightarrow> rows s \<subseteq> items_of srv [] \<Longrightarrow> rows s' \<subseteq> items_of srv []"
    using more q [OF True] by auto
  ultimately have "search_invariant srv s'" using inv unfolding search_invariant_def same by simp
  then show ?thesis using True by (auto simp: more_done_def s'_def)
qed (use inv in \<open>auto simp: more_done_def\<close>)

lemma more_failed_invariant:
  assumes inv: "search_invariant srv s" and r: "0 < r"
  shows "search_invariant srv (more_failed r cursorInvalid s)"
proof (cases "request_live r s \<and> cursorInvalid")
  case True
  define s1 where "s1 = more_settled r (s\<lparr>qs_lastQuery := None\<rparr>)"
  have live: "some_live s" using True r request_live_some by blast
  have s1: "qs_open (cleanup_effect s1)" "\<not> qs_composing (cleanup_effect s1)" "qs_lastQuery (cleanup_effect s1) = None"
    using inv live by (auto simp: s1_def more_settled_def search_invariant_def)
  have "search_core srv (cleanup_effect s1)"
    using inv by (auto simp: s1_def more_settled_def cleanup_effect_def abort_request_def search_invariant_def
        search_core_def recent_sound_def split: option.splits)
  then have "search_invariant srv (search_effect s1)"
    using start_search_invariant [of srv "cleanup_effect s1"] s1 by (simp add: search_effect_def Let_def)
  then show ?thesis using True by (simp add: more_failed_def s1_def)
next
  case False
  have "search_invariant srv (s\<lparr>qs_pageError := True\<rparr>)"
    using inv by (rule search_invariant_cong) (auto simp: normalized_def)
  then show ?thesis using False inv by (auto simp: more_failed_def)
qed

lemma choose_begin_invariant: "search_invariant srv s \<Longrightarrow> search_invariant srv (choose_begin item s)"
  by (erule search_invariant_cong) (auto simp: choose_begin_def Let_def normalized_def)

lemma choose_done_invariant: "search_invariant srv s \<Longrightarrow> search_invariant srv (choose_done c s)"
  by (auto simp: choose_done_def set_open_invariant opening_invariant)

lemma choose_failed_invariant: "search_invariant srv s \<Longrightarrow> search_invariant srv (choose_failed c item gone s)"
  by (erule search_invariant_cong) (auto simp: choose_failed_def normalized_def)

lemma fire_timer_invariant:
  assumes "search_invariant srv s" "SearchTimer r q n \<in> set (qs_tasks s)"
  shows "search_invariant srv (fire_timer r q n (drop_task (SearchTimer r q n) s))"
  using add_task_invariant [OF drop_task_invariant [OF assms(1), of "SearchTimer r q n"], of "SearchFirst r q n"]
    current_of_task [OF assms]
  by (auto simp: fire_timer_def task_sound_def task_current_def)

lemma keyboard_invariant:
  assumes "search_invariant srv s"
  shows "search_invariant srv (search_key_down isComposing k s)" "search_invariant srv (row_mouse_move i s)"
    "search_invariant srv (row_mouse_leave s)" "search_invariant srv (row_focus i s)"
proof -
  have move: "search_invariant srv (s\<lparr>qs_activeSource := a, qs_active := j\<rparr>)" for a j
    using assms by (rule search_invariant_cong) (auto simp: normalized_def)
  show "search_invariant srv (search_key_down isComposing k s)" "search_invariant srv (row_mouse_move i s)"
    "search_invariant srv (row_mouse_leave s)" "search_invariant srv (row_focus i s)"
    using move choose_begin_invariant assms
    by (simp_all add: search_key_down_def row_mouse_move_def row_mouse_leave_def row_focus_def Let_def)
qed

lemma search_step_invariant:
  assumes "search_step srv s s'" and inv: "search_invariant srv s"
  shows "search_invariant srv s'"
  using assms(1)
proof cases
  case (fires r q n)
  then show ?thesis using fire_timer_invariant inv by simp
next
  case (first_page r q n p)
  then show ?thesis
    using search_continue_invariant [OF drop_task_invariant [OF inv, of "SearchFirst r q n"], of p q r n]
      current_of_task [OF inv first_page(2)]
    by (auto simp: task_sound_def task_current_def items_of_def)
next
  case (next_page r q n acc p)
  have "set (sp_items (append_page acc p)) \<subseteq> items_of srv q"
    using append_page_rows [of acc p] current_of_task(1) [OF inv next_page(2)] next_page(3)
    by (fastforce simp: task_sound_def items_of_def)
  then show ?thesis
    using search_continue_invariant [OF drop_task_invariant [OF inv, of "SearchRest r q n acc"], of "append_page acc p" q r n]
      current_of_task [OF inv next_page(2)] next_page(1)
    by (auto simp: task_sound_def task_current_def)
next
  case (first_lost r q n)
  then show ?thesis
    using search_failed_invariant [OF drop_task_invariant [OF inv, of "SearchFirst r q n"], of r q]
      current_of_task [OF inv first_lost(2)] by (auto simp: task_sound_def task_current_def)
next
  case (next_lost r q n acc)
  then show ?thesis
    using search_failed_invariant [OF drop_task_invariant [OF inv, of "SearchRest r q n acc"], of r q]
      current_of_task [OF inv next_lost(2)] by (auto simp: task_sound_def task_current_def)
next
  case (more_page r q c p)
  then show ?thesis
    using more_done_invariant [OF drop_task_invariant [OF inv, of "SearchMore r q c"], of p q r]
      current_of_task [OF inv more_page(2)]
    by (auto simp: task_sound_def task_current_def items_of_def)
next
  case (more_lost r q c cursorInvalid)
  then show ?thesis
    using more_failed_invariant [OF drop_task_invariant [OF inv, of "SearchMore r q c"], of r cursorInvalid]
      current_of_task [OF inv more_lost(2)] by (auto simp: task_sound_def)
qed (use inv in \<open>simp_all add: set_open_invariant updateQuery_invariant composition_start_invariant
    composition_end_invariant search_effect_invariant retry_search_def keyboard_invariant more_begin_invariant
    choose_begin_invariant choose_done_invariant choose_failed_invariant drop_task_invariant\<close>)

lemma search_reachable_invariant:
  assumes "search_reachable srv s"
  shows "search_invariant srv s"
  using assms by induction (auto intro: initial_invariant search_step_invariant)

subsection \<open>Rows are listed once\<close>

definition distinct_rows :: "search_page \<Rightarrow> bool" where
  "distinct_rows p \<longleftrightarrow> distinct (map si_conversation_id (sp_items p))"

definition is_rest :: "search_task \<Rightarrow> bool" where
  "is_rest t = (case t of SearchRest _ _ _ _ \<Rightarrow> True | _ \<Rightarrow> False)"

lemma is_rest_simps [simp]:
  "\<not> is_rest (SearchTimer r q n)" "\<not> is_rest (SearchFirst r q n)" "is_rest (SearchRest r q n acc)"
  "\<not> is_rest (SearchMore r q c)" "\<not> is_rest (SearchChoice k item)"
  by (simp_all add: is_rest_def)

definition rows_once :: "search_state \<Rightarrow> bool" where
  "rows_once s \<longleftrightarrow>
     distinct_rows (qs_page s) \<and> (\<forall>p. qs_recentPage s = Some p \<longrightarrow> distinct_rows p) \<and>
     (\<forall>r q n acc. SearchRest r q n acc \<in> set (qs_tasks s) \<longrightarrow> distinct_rows acc)"

lemma append_page_distinct:
  assumes "distinct_rows p" "distinct_rows p'"
  shows "distinct_rows (append_page p p')"
proof -
  have "distinct (map si_conversation_id (new_rows (sp_items p) (sp_items p')))"
    using assms(2) unfolding new_rows_def distinct_rows_def by (rule distinct_map_filterI)
  then show ?thesis
    using assms(1) by (auto simp: distinct_rows_def append_page_def new_rows_def list_ex_iff)
qed

lemma rows_once_cong:
  assumes "rows_once s"
    and "qs_page s' = qs_page s \<or> Some (qs_page s') = qs_recentPage s \<or> qs_page s' = empty_page"
    and "qs_recentPage s' = qs_recentPage s"
    and "\<And>t. t \<in> set (qs_tasks s') \<Longrightarrow> t \<in> set (qs_tasks s) \<or> \<not> is_rest t"
  shows "rows_once s'"
proof -
  have "distinct_rows (qs_page s')"
    using assms(1,2) by (auto simp: rows_once_def distinct_rows_def empty_page_def)
  moreover have "SearchRest r q n acc \<in> set (qs_tasks s') \<Longrightarrow> SearchRest r q n acc \<in> set (qs_tasks s)"
    for r q n acc using assms(4) [of "SearchRest r q n acc"] by simp
  ultimately show ?thesis using assms(1,3) unfolding rows_once_def by metis
qed

lemma search_effect_rows_once:
  assumes "rows_once s"
  shows "rows_once (search_effect s)"
proof -
  have once: "rows_once (cleanup_effect s)"
    using assms by (rule rows_once_cong) (use cleanup_simps(11) [of s] in \<open>auto simp del: cleanup_simps(11)\<close>)
  have "rows_once (start_search (cleanup_effect s))"
    using once
    by (rule rows_once_cong)
      (auto simp: start_search_page nullish_def split: option.splits dest!: start_search_tasks)
  then show ?thesis using once by (simp add: search_effect_def Let_def)
qed

lemma set_open_rows_once: "rows_once s \<Longrightarrow> rows_once (set_open b s)"
proof -
  assume s: "rows_once s"
  have "rows_once (reset_active (s\<lparr>qs_open := b\<rparr>))"
    using s by (rule rows_once_cong) (auto simp: reset_active_def split: if_splits)
  then have "rows_once (search_effect (reset_active (s\<lparr>qs_open := b\<rparr>)))" by (rule search_effect_rows_once)
  then show ?thesis
    using s by (rule_tac s = "if b = qs_open s then s else search_effect (reset_active (s\<lparr>qs_open := b\<rparr>))" in rows_once_cong)
      (auto simp: set_open_def Let_def)
qed

lemma updateQuery_rows_once: "rows_once s \<Longrightarrow> rows_once (updateQuery value s)"
proof -
  assume "rows_once s"
  then have taken: "rows_once (take_query value s)"
    by (rule rows_once_cong) (auto simp: take_query_def Let_def split: option.splits if_splits)
  then have "rows_once (reset_active (take_query value s))"
    by (rule rows_once_cong) (auto simp: reset_active_def split: if_splits)
  with taken show ?thesis by (auto simp: updateQuery_def Let_def search_effect_rows_once)
qed

lemma search_continue_rows_once:
  "rows_once s \<Longrightarrow> distinct_rows p \<Longrightarrow> rows_once (search_continue r q n p s)"
  by (auto simp: search_continue_def search_done_def search_settled_def rows_once_def split: if_splits)

lemma drop_task_rows_once: "rows_once s \<Longrightarrow> rows_once (drop_task t s)"
  using drop_task_subset [of t s] by (auto simp: rows_once_def)

lemma more_failed_rows_once: "rows_once s \<Longrightarrow> rows_once (more_failed r cursorInvalid s)"
proof -
  assume s: "rows_once s"
  have "rows_once (more_settled r (s\<lparr>qs_lastQuery := None\<rparr>))"
    using s by (rule rows_once_cong) (auto simp: more_settled_def split: if_splits)
  then show ?thesis
    using s by (auto simp: more_failed_def search_effect_rows_once) (auto simp: rows_once_def more_settled_def)
qed

lemma search_step_rows_once:
  assumes "search_step srv s s'" and s: "rows_once s"
    and srv: "\<And>q c p. srv q c p \<Longrightarrow> distinct_rows p"
  shows "rows_once s'"
  using assms(1)
proof cases
  case (first_page r q n p)
  then show ?thesis using search_continue_rows_once drop_task_rows_once s srv by blast
next
  case (next_page r q n acc p)
  have "distinct_rows (append_page acc p)"
    using append_page_distinct s next_page(2,3) srv unfolding rows_once_def by blast
  then show ?thesis using next_page(1) search_continue_rows_once drop_task_rows_once s by blast
next
  case (more_page r q c p)
  then show ?thesis
    using append_page_distinct drop_task_rows_once [OF s, of "SearchMore r q c"] srv
    by (auto simp: more_done_def more_settled_def rows_once_def)
next
  case (more_lost r q c cursorInvalid)
  then show ?thesis using more_failed_rows_once drop_task_rows_once s by blast
next
  case (opened c item)
  have "rows_once ((drop_task (SearchChoice c item) s)\<lparr>qs_opening := None\<rparr>)"
    using drop_task_rows_once [OF s] by (rule rows_once_cong) auto
  then show ?thesis using opened(1) drop_task_rows_once [OF s] by (simp add: choose_done_def set_open_rows_once)
next
  case (not_opened c item gone)
  then show ?thesis
    using drop_task_rows_once [OF s, of "SearchChoice c item"]
    by (auto simp: choose_failed_def rows_once_def distinct_rows_def distinct_map_filterI)
next
  case (key isComposing k)
  then show ?thesis
    using s by (auto simp: search_key_down_def choose_begin_def Let_def rows_once_def)
next
  case (visible b)
  then show ?thesis using set_open_rows_once s by simp
next
  case (typed v)
  then show ?thesis using updateQuery_rows_once s by simp
next
  case again
  then show ?thesis using search_effect_rows_once s by (simp add: retry_search_def)
next
  case composed
  have "rows_once (s\<lparr>qs_composing := False\<rparr>)" using s by (simp add: rows_once_def)
  then show ?thesis using composed by (simp add: composition_end_def search_effect_rows_once)
qed (use s drop_task_rows_once [OF s] in \<open>simp_all add: composition_start_def row_mouse_move_def row_mouse_leave_def row_focus_def more_begin_def
    choose_begin_def fire_timer_def search_failed_def search_settled_def Let_def rows_once_def\<close>)

lemma search_reachable_rows_once:
  assumes "search_reachable srv s" and "\<And>q c p. srv q c p \<Longrightarrow> distinct_rows p"
  shows "rows_once s"
  using assms(1)
proof induction
  case base
  show ?case by (simp add: rows_once_def initial_search_def distinct_rows_def empty_page_def)
next
  case (step s s')
  then show ?case using search_step_rows_once assms(2) by blast
qed

subsection \<open>One further page at a time\<close>

definition is_more :: "nat \<Rightarrow> search_task \<Rightarrow> bool" where
  "is_more n t = (case t of SearchMore r _ _ \<Rightarrow> r = n | _ \<Rightarrow> False)"

lemma is_more_simps [simp]:
  "\<not> is_more m (SearchTimer r q n)" "\<not> is_more m (SearchFirst r q n)" "\<not> is_more m (SearchRest r q n acc)"
  "is_more m (SearchMore r q c) \<longleftrightarrow> r = m" "\<not> is_more m (SearchChoice k item)"
  by (simp_all add: is_more_def)

definition mores :: "search_state \<Rightarrow> search_task list" where
  "mores s = filter (is_more (qs_seq s)) (qs_tasks s)"

definition more_once :: "search_state \<Rightarrow> bool" where
  "more_once s \<longleftrightarrow> length (mores s) \<le> of_bool (qs_moreLock s)"

lemma reset_active_simps [simp]:
  "qs_tasks (reset_active s) = qs_tasks s" "qs_seq (reset_active s) = qs_seq s"
  "qs_moreLock (reset_active s) = qs_moreLock s"
  by (simp_all add: reset_active_def)

lemma more_once_same:
  "more_once s \<Longrightarrow> mores s' = mores s \<Longrightarrow> qs_moreLock s' = qs_moreLock s \<Longrightarrow> more_once s'"
  by (simp add: more_once_def)

lemma mores_drop: "more_once s \<Longrightarrow> more_once (drop_task t s)"
proof -
  have "length (filter p (remove1 t ts)) \<le> length (filter p ts)" for p :: "search_task \<Rightarrow> bool" and ts
    by (induction ts) auto
  then have "length (mores (drop_task t s)) \<le> length (mores s)" by (simp add: mores_def drop_task_def)
  then show "more_once s \<Longrightarrow> more_once (drop_task t s)" by (simp add: more_once_def)
qed

lemma mores_drop_more:
  assumes "more_once s" "SearchMore (qs_seq s) q c \<in> set (qs_tasks s)"
  shows "mores (drop_task (SearchMore (qs_seq s) q c) s) = []"
proof -
  have drop: "p t \<Longrightarrow> t \<in> set ts \<Longrightarrow> Suc (length (filter p (remove1 t ts))) = length (filter p ts)"
    for p :: "search_task \<Rightarrow> bool" and t ts
    by (induction ts) auto
  show ?thesis
    using drop [OF _ assms(2), of "is_more (qs_seq s)"] assms(1)
    by (cases "qs_moreLock s") (auto simp: more_once_def mores_def drop_task_def simp flip: length_0_conv)
qed

lemma no_future_more:
  assumes "\<forall>t \<in> set ts. \<forall>r q c. t = SearchMore r q c \<longrightarrow> r \<le> n"
  shows "filter (is_more (Suc n)) ts = []"
  using assms by (auto simp: filter_empty_conv is_more_def split: search_task.splits)

definition requests_bounded :: "search_state \<Rightarrow> bool" where
  "requests_bounded s \<longleftrightarrow> (\<forall>r q c. SearchMore r q c \<in> set (qs_tasks s) \<longrightarrow> r \<le> qs_seq s)"

lemma invariant_bounded: "search_invariant srv s \<Longrightarrow> requests_bounded s"
  by (auto simp: search_invariant_def search_core_def task_sound_def requests_bounded_def)

lemma search_effect_more_once:
  assumes bounded: "requests_bounded s" and once: "more_once s"
  shows "more_once (search_effect s)"
proof -
  let ?c = "cleanup_effect s"
  have "mores ?c = filter (is_more (qs_seq s)) (qs_tasks ?c)" by (simp add: mores_def)
  also have "\<dots> = mores s"
    by (auto simp: cleanup_effect_def mores_def is_timer_of_def is_more_def split: option.split search_task.splits
        intro!: filter_cong)
  finally have "more_once ?c" by (rule more_once_same [OF once]) simp
  moreover have "mores (start_search ?c) = []"
  proof -
    have "\<forall>t \<in> set (qs_tasks (start_search ?c)). \<forall>r q c. t = SearchMore r q c \<longrightarrow> r \<le> qs_seq s"
      using start_search_tasks [of _ ?c] cleanup_simps(11) [of s] bounded
      unfolding requests_bounded_def by (metis search_task.distinct(5) subsetD)
    then show ?thesis unfolding mores_def by (simp add: no_future_more)
  qed
  then have "more_once (start_search ?c)" by (simp add: more_once_def)
  ultimately show ?thesis by (simp add: search_effect_def Let_def)
qed

lemma set_open_more_once: "requests_bounded s \<Longrightarrow> more_once s \<Longrightarrow> more_once (set_open b s)"
proof -
  assume s: "requests_bounded s" "more_once s"
  let ?s = "reset_active (s\<lparr>qs_open := b\<rparr>)"
  have "requests_bounded ?s" "more_once ?s"
    using s by (simp_all add: requests_bounded_def more_once_def mores_def)
  then have e: "more_once (search_effect ?s)" by (rule search_effect_more_once)
  show ?thesis
  proof (cases "b = qs_open s")
    case False
    show ?thesis by (rule more_once_same [OF e]) (use False in \<open>auto simp: set_open_def Let_def mores_def\<close>)
  qed (use s in \<open>simp add: set_open_def\<close>)
qed

lemma updateQuery_more_once: "requests_bounded s \<Longrightarrow> more_once s \<Longrightarrow> more_once (updateQuery v s)"
proof -
  assume s: "requests_bounded s" "more_once s"
  have taken: "qs_tasks (take_query v s) = qs_tasks s" "qs_seq (take_query v s) = qs_seq s"
    "qs_moreLock (take_query v s) = qs_moreLock s"
    by (auto simp: take_query_def Let_def split: option.split)
  let ?t = "take_query v s"
  have "requests_bounded ?t" "more_once ?t" "requests_bounded (reset_active ?t)" "more_once (reset_active ?t)"
    using s by (simp_all add: requests_bounded_def more_once_def mores_def taken)
  then show ?thesis by (auto simp: updateQuery_def Let_def search_effect_more_once)
qed

lemma more_failed_more_once:
  assumes "requests_bounded s" "more_once s" "r = qs_seq s \<Longrightarrow> mores s = []"
  shows "more_once (more_failed r cursorInvalid s)"
proof -
  have settled: "requests_bounded (more_settled r (s\<lparr>qs_lastQuery := x\<rparr>))" "more_once (more_settled r (s\<lparr>qs_lastQuery := x\<rparr>))"
    "more_once (more_settled r s)" "more_once (more_settled r (s\<lparr>qs_pageError := True\<rparr>))" for x
    using assms by (auto simp: more_settled_def requests_bounded_def more_once_def mores_def)
  show ?thesis using settled search_effect_more_once by (auto simp: more_failed_def)
qed

lemma search_failed_mores:
  "mores (search_failed r q s) = mores s" "qs_moreLock (search_failed r q s) = qs_moreLock s"
  by (auto simp: search_failed_def search_settled_def mores_def)

lemma search_step_more_once:
  assumes step: "search_step srv s s'" and bounded: "requests_bounded s" and once: "more_once s"
  shows "more_once s'"
proof -
  have dropped: "requests_bounded (drop_task t s)" "more_once (drop_task t s)" for t
    using bounded drop_task_subset [of t s] mores_drop [OF once] by (auto simp: requests_bounded_def)
  have none: "r = qs_seq s \<Longrightarrow> SearchMore r q c \<in> set (qs_tasks s) \<Longrightarrow> mores (drop_task (SearchMore r q c) s) = []"
    for r q c using mores_drop_more [OF once] by simp
  from step show ?thesis
  proof cases
    case (visible b)
    then show ?thesis using set_open_more_once bounded once by simp
  next
    case (typed v)
    then show ?thesis using updateQuery_more_once bounded once by simp
  next
    case composed
    have "requests_bounded (s\<lparr>qs_composing := False\<rparr>)" "more_once (s\<lparr>qs_composing := False\<rparr>)"
      using bounded once by (simp_all add: requests_bounded_def more_once_def mores_def)
    then show ?thesis using composed by (simp add: composition_end_def search_effect_more_once)
  next
    case again
    then show ?thesis using search_effect_more_once bounded once by (simp add: retry_search_def)
  next
    case (more_page r q c p)
    then show ?thesis
      using dropped(2) [of "SearchMore r q c"] none [of r q c]
      by (auto simp: more_done_def more_settled_def more_once_def mores_def)
  next
    case (more_lost r q c cursorInvalid)
    then show ?thesis using more_failed_more_once [OF dropped, of r "SearchMore r q c"] none [of r q c]
      by (cases "r = qs_seq s") auto
  next
    case (opened c item)
    let ?s = "(drop_task (SearchChoice c item) s)\<lparr>qs_opening := None\<rparr>"
    have "requests_bounded ?s" "more_once ?s"
      using dropped [of "SearchChoice c item"] by (simp_all add: requests_bounded_def more_once_def mores_def)
    then show ?thesis using opened(1) dropped(2) by (simp add: choose_done_def set_open_more_once)
  next
    case (key isComposing k)
    then show ?thesis
      using once by (auto simp: search_key_down_def choose_begin_def Let_def more_once_def mores_def)
  next
    case (first_page r q n p)
    then show ?thesis using dropped(2) [of "SearchFirst r q n"]
      by (auto simp: search_continue_def search_done_def search_settled_def more_once_def mores_def)
  next
    case (next_page r q n acc p)
    then show ?thesis using dropped(2) [of "SearchRest r q n acc"]
      by (auto simp: search_continue_def search_done_def search_settled_def more_once_def mores_def)
  next
    case (not_opened c item gone)
    then show ?thesis
      using dropped(2) [of "SearchChoice c item"] by (auto simp: choose_failed_def more_once_def mores_def)
  next
    case (fires r q n)
    then show ?thesis using dropped(2) [of "SearchTimer r q n"] by (simp add: fire_timer_def more_once_def mores_def)
  next
    case (first_lost r q n)
    then show ?thesis using more_once_same [OF dropped(2) search_failed_mores] by simp
  next
    case (next_lost r q n acc)
    then show ?thesis using more_once_same [OF dropped(2) search_failed_mores] by simp
  next
    case scroll
    then show ?thesis using once by (cases "qs_moreLock s") (simp_all add: more_begin_def more_once_def mores_def)
  qed (use once in \<open>simp_all add: composition_start_def row_mouse_move_def row_mouse_leave_def row_focus_def
      choose_begin_def Let_def more_once_def mores_def\<close>)
qed

section \<open>Properties\<close>

text \<open>
  Search results (C29). Whatever is typed, scrolled, chosen, closed and reopened, and in whatever order the
  answers arrive: rows that are shown as results were sent by the server for the query that is in the
  field now. Where every page of the server lists a conversation once, so does the dialog.
\<close>

theorem results_answer_the_query:
  assumes "search_reachable srv s"
  shows "(qs_status s = SearchReady \<longrightarrow>
      (\<forall>item \<in> set (sp_items (qs_page s)). \<exists>cursor p. srv (normalized s) cursor p \<and> item \<in> set (sp_items p))) \<and>
    ((\<forall>q c p. srv q c p \<longrightarrow> distinct (map si_conversation_id (sp_items p))) \<longrightarrow>
      distinct (map si_conversation_id (sp_items (qs_page s))))"
proof (intro conjI impI)
  show "qs_status s = SearchReady \<Longrightarrow>
      \<forall>item \<in> set (sp_items (qs_page s)). \<exists>cursor p. srv (normalized s) cursor p \<and> item \<in> set (sp_items p)"
    using search_reachable_invariant [OF assms]
    by (auto simp: search_invariant_def page_sound_def items_of_def)
next
  assume "\<forall>q c p. srv q c p \<longrightarrow> distinct (map si_conversation_id (sp_items p))"
  then show "distinct (map si_conversation_id (sp_items (qs_page s)))"
    using search_reachable_rows_once [OF assms] by (simp add: distinct_rows_def rows_once_def)
qed

text \<open>
  Further pages (C40). In every reachable state at most one request for a further page belongs to the
  current search, and its answer is the only one that extends the list: an answer to an overtaken or
  aborted request leaves the rows alone.
\<close>

theorem further_pages_single_flight:
  assumes "search_reachable srv s"
  shows "length (filter (is_more (qs_seq s)) (qs_tasks s)) \<le> 1 \<and>
    (\<not> request_live r s \<longrightarrow> qs_page (more_done r p s) = qs_page s)"
proof -
  have "more_once s"
    using assms
  proof induction
    case base
    show ?case by (simp add: more_once_def mores_def initial_search_def)
  next
    case (step s s')
    then show ?case
      using search_step_more_once invariant_bounded search_reachable_invariant by blast
  qed
  then have "length (mores s) \<le> 1" by (cases "qs_moreLock s") (auto simp: more_once_def)
  then show ?thesis by (simp add: mores_def more_done_def more_settled_def)
qed

text \<open>A run of the dialog: it opens, the first page arrives, and a further page is asked for.\<close>

definition demo_row :: "string \<Rightarrow> search_item" where
  "demo_row i = \<lparr>si_conversation_id = js i, si_title = None, si_updated_at = [], si_title_match = None,
     si_snippet = None, si_target = None\<rparr>"

definition demo_results :: "string list \<Rightarrow> search_page" where
  "demo_results ids = \<lparr>sp_items = map demo_row ids, sp_next_cursor = Some (js ''c'')\<rparr>"

definition demo_server :: search_server where
  "demo_server q c p \<longleftrightarrow> p = demo_results [''a'', ''b'']"

definition demo_opened :: search_state where
  "demo_opened = set_open True initial_search"

definition demo_loaded :: search_state where
  "demo_loaded = search_continue 1 [] 0 (demo_results [''a'', ''b''])
     (drop_task (SearchFirst 1 [] 0) (fire_timer 1 [] 0 (drop_task (SearchTimer 1 [] 0) demo_opened)))"

lemma demo_reachable: "search_reachable demo_server demo_loaded"
proof -
  let ?s1 = demo_opened
  let ?s2 = "fire_timer 1 [] 0 (drop_task (SearchTimer 1 [] 0) ?s1)"
  have "search_step demo_server initial_search ?s1" unfolding demo_opened_def by (rule search_step.visible)
  moreover have "SearchTimer 1 [] 0 \<in> set (qs_tasks ?s1)" by code_simp
  then have "search_step demo_server ?s1 ?s2" by (rule search_step.fires)
  moreover have "SearchFirst 1 [] 0 \<in> set (qs_tasks ?s2)" by code_simp
  then have "search_step demo_server ?s2 demo_loaded"
    unfolding demo_loaded_def by (rule search_step.first_page) (simp add: demo_server_def)
  ultimately show ?thesis
    by (intro rtranclp.rtrancl_into_rtrancl [OF rtranclp.rtrancl_into_rtrancl [OF r_into_rtranclp]])
qed

theorem results_answer_the_query_witness:
  "qs_status demo_loaded = SearchReady \<and>
   (\<exists>cursor p. demo_server (normalized demo_loaded) cursor p \<and> demo_row ''b'' \<in> set (sp_items p)) \<and>
   distinct (map si_conversation_id (sp_items (qs_page demo_loaded)))"
proof -
  have "qs_status demo_loaded = SearchReady" "sp_items (qs_page demo_loaded) = [demo_row ''a'', demo_row ''b'']"
    by code_simp+
  moreover have "\<forall>q c p. demo_server q c p \<longrightarrow> distinct (map si_conversation_id (sp_items p))"
    by (simp add: demo_server_def demo_results_def demo_row_def)
  ultimately show ?thesis using results_answer_the_query [OF demo_reachable] by simp
qed

theorem further_pages_single_flight_witness:
  "length (filter (is_more (qs_seq demo_loaded)) (qs_tasks demo_loaded)) \<le> 1 \<and>
   qs_page (more_done 0 (demo_results [''z'']) demo_loaded) = qs_page demo_loaded"
proof -
  have "\<not> request_live 0 demo_loaded" by code_simp
  then show ?thesis using further_pages_single_flight [OF demo_reachable] by blast
qed

end
