(* ===== verification/Console_Messages.thy ===== *)
theory Console_Messages
  imports Prelude
begin

text \<open>
  The texts outside ASCII that the model console shows, each as its UTF-16 code units with its meaning
  in English.
\<close>

text \<open>Separator of a key and an adapter.\<close>

definition dot_text :: jstr where
  "dot_text =
     [32, 0x00B7, 32]"

text \<open>From a model to its upstream.\<close>

definition arrow_text :: jstr where
  "arrow_text =
     [32, 0x2192, 32]"

text \<open>The route in use.\<close>

definition current_route_text :: jstr where
  "current_route_text =
     [0x5F53, 0x524D, 0x8DEF, 0x7531]"

text \<open>The route the catalog prefers.\<close>

definition preferred_route_text :: jstr where
  "preferred_route_text =
     [0x76EE, 0x5F55, 0x9996, 0x9009]"

text \<open>The route is offline.\<close>

definition route_offline_text :: jstr where
  "route_offline_text =
     [0x8DEF, 0x7531, 0x4E0B, 0x7EBF]"

text \<open>The upstream is offline.\<close>

definition upstream_offline_text :: jstr where
  "upstream_offline_text =
     [0x4E0A, 0x6E38, 0x4E0B, 0x7EBF]"

text \<open>The model is offline.\<close>

definition model_offline_text :: jstr where
  "model_offline_text =
     [0x6A21, 0x578B, 0x4E0B, 0x7EBF]"

text \<open>A candidate.\<close>

definition candidate_route_text :: jstr where
  "candidate_route_text =
     [0x5019, 0x9009, 0x8DEF, 0x7531]"

text \<open>Archive the model, before its label.\<close>

definition archive_model_open_text :: jstr where
  "archive_model_open_text =
     [0x5F52, 0x6863, 0x6A21, 0x578B, 0x300C]"

text \<open>Archive the upstream, before its label.\<close>

definition archive_upstream_open_text :: jstr where
  "archive_upstream_open_text =
     [0x5F52, 0x6863, 0x4E0A, 0x6E38, 0x300C]"

text \<open>Restore the model, before its label.\<close>

definition restore_model_open_text :: jstr where
  "restore_model_open_text =
     [0x6062, 0x590D, 0x6A21, 0x578B, 0x300C]"

text \<open>Restore, before the title.\<close>

definition restore_open_text :: jstr where
  "restore_open_text =
     [0x6062, 0x590D, 0x300C]"

text \<open>Closes a question.\<close>

definition question_close_text :: jstr where
  "question_close_text =
     [0x300D, 0xFF1F]"

text \<open>Archive this route.\<close>

definition archive_route_question_text :: jstr where
  "archive_route_question_text =
     [0x5F52, 0x6863, 0x8FD9, 0x6761, 0x8DEF, 0x7531, 0xFF1F]"

text \<open>Archive the model.\<close>

definition archive_model_text :: jstr where
  "archive_model_text =
     [0x5F52, 0x6863, 0x6A21, 0x578B]"

text \<open>Archive the upstream.\<close>

definition archive_upstream_text :: jstr where
  "archive_upstream_text =
     [0x5F52, 0x6863, 0x4E0A, 0x6E38]"

text \<open>Archive the route.\<close>

definition archive_route_text :: jstr where
  "archive_route_text =
     [0x5F52, 0x6863, 0x8DEF, 0x7531]"

text \<open>Restore.\<close>

definition restore_text_label :: jstr where
  "restore_text_label =
     [0x6062, 0x590D]"

text \<open>Archived.\<close>

definition archived_tab_text :: jstr where
  "archived_tab_text =
     [0x5DF2, 0x5F52, 0x6863]"

text \<open>The catalog was refreshed.\<close>

definition refreshed_text :: jstr where
  "refreshed_text =
     [0x76EE, 0x5F55, 0x5DF2, 0x5237, 0x65B0, 0x3002]"

text \<open>The model was saved.\<close>

definition model_saved_text :: jstr where
  "model_saved_text =
     [0x6A21, 0x578B, 0x914D, 0x7F6E, 0x5DF2, 0x4FDD, 0x5B58, 0x3002]"

text \<open>The model is online.\<close>

definition model_up_text :: jstr where
  "model_up_text =
     [0x6A21, 0x578B, 0x5DF2, 0x4E0A, 0x7EBF, 0x3002]"

text \<open>The model is offline now.\<close>

definition model_down_text :: jstr where
  "model_down_text =
     [0x6A21, 0x578B, 0x5DF2, 0x4E0B, 0x7EBF, 0x3002]"

text \<open>The upstream was saved.\<close>

definition upstream_saved_text :: jstr where
  "upstream_saved_text =
     [0x4E0A, 0x6E38, 0x914D, 0x7F6E, 0x5DF2, 0x4FDD, 0x5B58, 0x3002]"

text \<open>The upstream is online.\<close>

definition upstream_up_text :: jstr where
  "upstream_up_text =
     [0x4E0A, 0x6E38, 0x5DF2, 0x4E0A, 0x7EBF, 0x3002]"

text \<open>The upstream is offline now.\<close>

definition upstream_down_text :: jstr where
  "upstream_down_text =
     [0x4E0A, 0x6E38, 0x5DF2, 0x4E0B, 0x7EBF, 0x3002]"

text \<open>The route was saved.\<close>

definition route_saved_text :: jstr where
  "route_saved_text =
     [0x6A21, 0x578B, 0x8DEF, 0x7531, 0x5DF2, 0x4FDD, 0x5B58, 0x3002]"

text \<open>The route is online.\<close>

definition route_up_text :: jstr where
  "route_up_text =
     [0x6A21, 0x578B, 0x8DEF, 0x7531, 0x5DF2, 0x4E0A, 0x7EBF, 0x3002]"

text \<open>The route is offline now.\<close>

definition route_down_text :: jstr where
  "route_down_text =
     [0x6A21, 0x578B, 0x8DEF, 0x7531, 0x5DF2, 0x4E0B, 0x7EBF, 0x3002]"

text \<open>The catalog of the database is in use.\<close>

definition database_catalog_text :: jstr where
  "database_catalog_text =
     [0x6570, 0x636E, 0x5E93, 0x6A21, 0x578B, 0x76EE, 0x5F55, 0x5DF2, 0x751F, 0x6548, 0x3002]"

text \<open>The catalog of the environment is in use again.\<close>

definition env_catalog_text :: jstr where
  "env_catalog_text =
     [0x5DF2, 0x5207, 0x56DE, 32, 69, 78, 86, 32, 0x6A21, 0x578B, 0x76EE, 0x5F55, 0x3002]"

text \<open>The environment was imported.\<close>

definition env_imported_text :: jstr where
  "env_imported_text =
     [69, 78, 86, 32, 0x6A21, 0x578B, 0x914D, 0x7F6E, 0x5DF2, 0x5BFC, 0x5165, 0x6570, 0x636E,
     0x5E93, 0x3002]"

text \<open>The model was archived.\<close>

definition model_archived_text :: jstr where
  "model_archived_text =
     [0x6A21, 0x578B, 0x5DF2, 0x5F52, 0x6863, 0x3002]"

text \<open>The upstream was archived.\<close>

definition upstream_archived_text :: jstr where
  "upstream_archived_text =
     [0x4E0A, 0x6E38, 0x5DF2, 0x5F52, 0x6863, 0x3002]"

text \<open>The route was archived.\<close>

definition route_archived_text :: jstr where
  "route_archived_text =
     [0x6A21, 0x578B, 0x8DEF, 0x7531, 0x5DF2, 0x5F52, 0x6863, 0x3002]"

text \<open>Restored.\<close>

definition restored_text :: jstr where
  "restored_text =
     [0x5DF2, 0x6062, 0x590D, 0x3002]"

end
