(* ===== verification/Model_Catalog.thy ===== *)
theory Model_Catalog
  imports Api_Endpoints Console_Messages "HOL-Library.Multiset"
begin

text \<open>
  The catalog of the model console (\<open>frontend/src/api/modelAdmin.ts\<close>) and what the console derives from
  it (\<open>frontend/src/model-admin/catalogView.ts\<close>, \<open>archiveActions.tsx\<close>) and the state of its dashboard
  (\<open>ModelAdminDashboard.tsx\<close>).

  \<open>localeCompare\<close> is the argument \<open>lc\<close>, \<open>toLowerCase\<close> the argument \<open>lower\<close>. The lemmas show that the
  routes of a model are its active ones in the order of their priority, that everything archived can be
  brought back from the list of archived items, and that the detail pane never shows an item that the
  catalog does not hold.
\<close>

section \<open>Definitions\<close>

subsection \<open>The catalog\<close>

datatype model_thinking_level = LevelLow | LevelMedium | LevelHigh | LevelXhigh | LevelMax

datatype token_profile = DefaultTokens | DeepseekTokens | OpenaiTokens

datatype provider_adapter = Deepseek | Openai | Openrouter | Glm

datatype reasoning_output = RawOutput | SummaryOutput

record chat_model =
  am_ref :: jstr
  am_key :: jstr
  am_label :: jstr
  am_thinking_levels :: "model_thinking_level list"
  am_supports_image_input :: bool
  am_image_token_reserve :: "int option"
  am_token_profile :: token_profile
  am_sort_order :: int
  am_enabled :: bool
  am_archived :: bool
  am_archived_at :: "jstr option"

record model_upstream =
  mu_ref :: jstr
  mu_key :: jstr
  mu_label :: jstr
  mu_adapter :: provider_adapter
  mu_base_url :: jstr
  mu_api_key_hint :: jstr
  mu_enabled :: bool
  mu_archived :: bool
  mu_archived_at :: "jstr option"

record model_route =
  rt_ref :: jstr
  rt_model_ref :: jstr
  rt_upstream_ref :: jstr
  rt_model_key :: jstr
  rt_upstream_key :: jstr
  rt_upstream_model :: jstr
  rt_reasoning_outputs :: "reasoning_output list"
  rt_priority :: int
  rt_enabled :: bool
  rt_archived :: bool
  rt_archived_at :: "jstr option"
  rt_selected :: bool

record model_catalog =
  mc_database_enabled :: bool
  mc_models :: "chat_model list"
  mc_upstreams :: "model_upstream list"
  mc_routes :: "model_route list"

definition route_identity_of :: "model_route \<Rightarrow> route_identity" where
  "route_identity_of route =
     \<lparr>ri_model_key = rt_model_key route, ri_upstream_key = rt_upstream_key route,
      ri_upstream_model = rt_upstream_model route\<rparr>"

fun level_name :: "model_thinking_level \<Rightarrow> jstr" where
  "level_name LevelLow = js ''low''"
| "level_name LevelMedium = js ''medium''"
| "level_name LevelHigh = js ''high''"
| "level_name LevelXhigh = js ''xhigh''"
| "level_name LevelMax = js ''max''"

fun profile_name :: "token_profile \<Rightarrow> jstr" where
  "profile_name DefaultTokens = js ''default''"
| "profile_name DeepseekTokens = js ''deepseek''"
| "profile_name OpenaiTokens = js ''openai''"

fun adapter_name :: "provider_adapter \<Rightarrow> jstr" where
  "adapter_name Deepseek = js ''deepseek''"
| "adapter_name Openai = js ''openai''"
| "adapter_name Openrouter = js ''openrouter''"
| "adapter_name Glm = js ''glm''"

fun output_name :: "reasoning_output \<Rightarrow> jstr" where
  "output_name RawOutput = js ''raw''"
| "output_name SummaryOutput = js ''summary''"

subsection \<open>Views of the catalog\<close>

definition compareRoutes :: "(jstr \<Rightarrow> jstr \<Rightarrow> int) \<Rightarrow> model_route \<Rightarrow> model_route \<Rightarrow> int" where
  "compareRoutes lc left right =
     (let byPriority = rt_priority left - rt_priority right;
          byUpstream = lc (rt_upstream_key left) (rt_upstream_key right)
      in if byPriority \<noteq> 0 then byPriority
         else if byUpstream \<noteq> 0 then byUpstream
         else lc (rt_upstream_model left) (rt_upstream_model right))"

text \<open>\<open>Array.prototype.sort\<close> with a comparison: stable.\<close>

fun js_insert :: "('a \<Rightarrow> 'a \<Rightarrow> int) \<Rightarrow> 'a \<Rightarrow> 'a list \<Rightarrow> 'a list" where
  "js_insert cmp x [] = [x]"
| "js_insert cmp x (y # ys) = (if cmp x y \<le> 0 then x # y # ys else y # js_insert cmp x ys)"

definition js_sort :: "('a \<Rightarrow> 'a \<Rightarrow> int) \<Rightarrow> 'a list \<Rightarrow> 'a list" where
  "js_sort cmp xs = foldr (js_insert cmp) xs []"

definition activeCatalog :: "model_catalog \<Rightarrow> model_catalog" where
  "activeCatalog catalog =
     catalog\<lparr>mc_models := filter (\<lambda>model. \<not> am_archived model) (mc_models catalog),
             mc_upstreams := filter (\<lambda>upstream. \<not> mu_archived upstream) (mc_upstreams catalog),
             mc_routes := filter (\<lambda>route. \<not> rt_archived route) (mc_routes catalog)\<rparr>"

definition matchesQuery :: "(jstr \<Rightarrow> jstr) \<Rightarrow> jstr \<Rightarrow> jstr \<Rightarrow> jstr \<Rightarrow> bool" where
  "matchesQuery lower label key query =
     (let needle = lower (js_trim query)
      in if needle = [] then True else index_of needle (lower (label @ js '' '' @ key)) \<noteq> None)"

definition routesOfModel :: "(jstr \<Rightarrow> jstr \<Rightarrow> int) \<Rightarrow> model_catalog \<Rightarrow> chat_model \<Rightarrow> model_route list" where
  "routesOfModel lc catalog model =
     js_sort (compareRoutes lc)
       (filter (\<lambda>route. rt_model_ref route = am_ref model \<and> \<not> rt_archived route) (mc_routes catalog))"

definition routesOfUpstream :: "(jstr \<Rightarrow> jstr \<Rightarrow> int) \<Rightarrow> model_catalog \<Rightarrow> model_upstream \<Rightarrow> model_route list" where
  "routesOfUpstream lc catalog upstream =
     js_sort (compareRoutes lc)
       (filter (\<lambda>route. rt_upstream_ref route = mu_ref upstream \<and> \<not> rt_archived route) (mc_routes catalog))"

datatype archived_entry =
    ModelEntry (entry_ref: jstr) (entry_title: jstr) (entry_detail: jstr) chat_model
  | UpstreamEntry (entry_ref: jstr) (entry_title: jstr) (entry_detail: jstr)
  | RouteEntry (entry_ref: jstr) (entry_title: jstr) (entry_detail: jstr)

text \<open>\<open>models.get(route.model_ref)?.archived_at\<close>: \<open>None\<close> when there is no such model.\<close>

definition parent_archived_at :: "model_catalog \<Rightarrow> model_route \<Rightarrow> jstr option option" where
  "parent_archived_at catalog route =
     map_option am_archived_at (js_map_of (map (\<lambda>model. (am_ref model, model)) (mc_models catalog)) (rt_model_ref route))"

definition model_entry :: "chat_model \<Rightarrow> archived_entry" where
  "model_entry model = ModelEntry (am_ref model) (am_label model) (am_key model) model"

definition upstream_entry :: "model_upstream \<Rightarrow> archived_entry" where
  "upstream_entry upstream =
     UpstreamEntry (mu_ref upstream) (mu_label upstream)
       (mu_key upstream @ dot_text @ adapter_name (mu_adapter upstream))"

definition route_entry :: "model_route \<Rightarrow> archived_entry" where
  "route_entry route =
     RouteEntry (rt_ref route) (rt_upstream_model route) (rt_model_key route @ arrow_text @ rt_upstream_key route)"

definition archivedEntries :: "model_catalog \<Rightarrow> archived_entry list" where
  "archivedEntries catalog =
     map model_entry (filter am_archived (mc_models catalog)) @
     map upstream_entry (filter mu_archived (mc_upstreams catalog)) @
     map route_entry
       (filter (\<lambda>route. rt_archived route \<and> Some (rt_archived_at route) \<noteq> parent_archived_at catalog route)
         (mc_routes catalog))"

definition routes_archived_with :: "model_catalog \<Rightarrow> chat_model \<Rightarrow> model_route list" where
  "routes_archived_with catalog model =
     filter (\<lambda>route. rt_model_ref route = am_ref model \<and> rt_archived_at route = am_archived_at model)
       (mc_routes catalog)"

definition has_active_upstream :: "model_catalog \<Rightarrow> model_route \<Rightarrow> bool" where
  "has_active_upstream catalog route \<longleftrightarrow>
     rt_upstream_ref route \<in> set (map mu_ref (filter (\<lambda>upstream. \<not> mu_archived upstream) (mc_upstreams catalog)))"

text \<open>Restorable and blocked routes.\<close>

definition modelRestorePreview :: "model_catalog \<Rightarrow> chat_model \<Rightarrow> nat \<times> nat" where
  "modelRestorePreview catalog model =
     (let routes = routes_archived_with catalog model;
          restorable = filter (has_active_upstream catalog) routes
      in (length restorable, length routes - length restorable))"

definition routeStatusText :: "model_route \<Rightarrow> chat_model \<Rightarrow> model_upstream option \<Rightarrow> bool \<Rightarrow> jstr" where
  "routeStatusText route model upstream databaseEnabled =
     (if rt_selected route then (if databaseEnabled then current_route_text else preferred_route_text)
      else if \<not> rt_enabled route then route_offline_text
      else if \<not> (case upstream of None \<Rightarrow> False | Some u \<Rightarrow> mu_enabled u) then upstream_offline_text
      else if \<not> am_enabled model then model_offline_text
      else candidate_route_text)"

subsection \<open>Archiving and restoring\<close>

datatype pending_archive =
    PendingModel chat_model
  | PendingUpstream model_upstream
  | PendingRoute model_route
  | PendingRestore archived_entry

record dialog_copy =
  dc_title :: jstr
  dc_body :: jstr
  dc_confirmLabel :: jstr

definition plural :: "nat \<Rightarrow> string \<Rightarrow> string \<Rightarrow> jstr" where
  "plural n one many = js (if n = 1 then one else many)"

definition dialogCopy :: "(jstr \<Rightarrow> jstr \<Rightarrow> int) \<Rightarrow> model_catalog \<Rightarrow> pending_archive \<Rightarrow> dialog_copy" where
  "dialogCopy lc catalog pending =
     (case pending of
        PendingModel model \<Rightarrow>
          (let routes = length (routesOfModel lc catalog model)
           in \<lparr>dc_title = archive_model_open_text @ am_label model @ question_close_text,
               dc_body = js ''The model and its '' @ digits routes @ js '' '' @ plural routes ''route'' ''routes'' @
                 js '' leave the catalog immediately. Running Runs are not affected. Restore it later from '' @
                 archived_tab_text @ js ''.'',
               dc_confirmLabel = archive_model_text\<rparr>)
      | PendingUpstream upstream \<Rightarrow>
          (let routes = length (routesOfUpstream lc catalog upstream)
           in \<lparr>dc_title = archive_upstream_open_text @ mu_label upstream @ question_close_text,
               dc_body =
                 (if routes \<noteq> 0
                  then digits routes @ js '' unarchived '' @ plural routes ''route still uses'' ''routes still use'' @
                    js '' this upstream, so the server will refuse. Archive those routes or their models first.''
                  else js ''The upstream leaves the catalog and its key can be reused. Running Runs keep their saved credentials. Restore it later from '' @
                    archived_tab_text @ js ''.''),
               dc_confirmLabel = archive_upstream_text\<rparr>)
      | PendingRoute route \<Rightarrow>
          \<lparr>dc_title = archive_route_question_text,
           dc_body = rt_model_key route @ arrow_text @ rt_upstream_key route @ arrow_text @ rt_upstream_model route @
             js '' leaves the route track. Running Runs are not affected.'',
           dc_confirmLabel = archive_route_text\<rparr>
      | PendingRestore (ModelEntry ref title detail model) \<Rightarrow>
          (let (restorable, blocked) = modelRestorePreview catalog model;
               taken = list_ex (\<lambda>m. am_key m = am_key model \<and> \<not> am_archived m) (mc_models catalog)
           in \<lparr>dc_title = restore_model_open_text @ title @ question_close_text,
               dc_body =
                 (if taken
                  then js ''An active model already uses the key '' @ am_key model @
                    js '', so the server will refuse. Archive the active model first.''
                  else digits restorable @ js '' '' @ plural restorable ''route'' ''routes'' @
                    js '' archived with it will return.'' @
                    (if blocked \<noteq> 0
                     then js '' '' @ digits blocked @ js '' '' @ plural blocked ''route stays'' ''routes stay'' @
                       js '' archived because its upstream is archived.''
                     else [])),
               dc_confirmLabel = restore_text_label\<rparr>)
      | PendingRestore (UpstreamEntry ref title detail) \<Rightarrow>
          \<lparr>dc_title = restore_open_text @ title @ question_close_text,
           dc_body = js ''Restoring fails if an active upstream already uses this key.'',
           dc_confirmLabel = restore_text_label\<rparr>
      | PendingRestore (RouteEntry ref title detail) \<Rightarrow>
          \<lparr>dc_title = restore_open_text @ title @ question_close_text,
           dc_body = js ''The route returns to its model'' @ [39] @ js ''s track. Its model and upstream must be active.'',
           dc_confirmLabel = restore_text_label\<rparr>)"

text \<open>What \<open>confirm\<close> asks the server for.\<close>

fun archive_endpoint :: "pending_archive \<Rightarrow> admin_endpoint" where
  "archive_endpoint (PendingModel model) = ArchiveModel (am_key model)"
| "archive_endpoint (PendingUpstream upstream) = ArchiveUpstream (mu_key upstream)"
| "archive_endpoint (PendingRoute route) = ArchiveRoute (route_identity_of route)"
| "archive_endpoint (PendingRestore entry) = RestoreArchived (entry_ref entry)"

subsection \<open>The dashboard\<close>

datatype pane = ModelsPane | UpstreamsPane | ArchivedPane

datatype console_editor =
    ModelEditor "chat_model option"
  | UpstreamEditor "model_upstream option"
  | RouteEditor "model_route option" "jstr option"

datatype confirmation = ConfirmCatalog | ConfirmImport

record dashboard =
  db_pane :: pane
  db_query :: jstr
  db_selectedRef :: "jstr option"
  db_showDetailOnMobile :: bool
  db_editor :: "console_editor option"
  db_pending :: "pending_archive option"
  db_confirmation :: "confirmation option"

definition initial_dashboard :: dashboard where
  "initial_dashboard =
     \<lparr>db_pane = ModelsPane, db_query = [], db_selectedRef = None, db_showDetailOnMobile = False,
      db_editor = None, db_pending = None, db_confirmation = None\<rparr>"

text \<open>The rows of the list, of the active catalog.\<close>

definition listed_models :: "(jstr \<Rightarrow> jstr) \<Rightarrow> model_catalog \<Rightarrow> dashboard \<Rightarrow> chat_model list" where
  "listed_models lower catalog d =
     filter (\<lambda>model. matchesQuery lower (am_label model) (am_key model) (db_query d)) (mc_models catalog)"

definition listed_upstreams :: "(jstr \<Rightarrow> jstr) \<Rightarrow> model_catalog \<Rightarrow> dashboard \<Rightarrow> model_upstream list" where
  "listed_upstreams lower catalog d =
     filter (\<lambda>upstream. matchesQuery lower (mu_label upstream) (mu_key upstream) (db_query d)) (mc_upstreams catalog)"

definition first_of :: "'a list \<Rightarrow> 'a option" where
  "first_of xs = (case xs of [] \<Rightarrow> None | x # _ \<Rightarrow> Some x)"

definition selectedModel_console :: "(jstr \<Rightarrow> jstr) \<Rightarrow> model_catalog \<Rightarrow> dashboard \<Rightarrow> chat_model option" where
  "selectedModel_console lower catalog d =
     (if db_pane d = ModelsPane
      then orelse (List.find (\<lambda>model. Some (am_ref model) = db_selectedRef d) (mc_models catalog))
             (first_of (listed_models lower catalog d))
      else None)"

definition selectedUpstream :: "(jstr \<Rightarrow> jstr) \<Rightarrow> model_catalog \<Rightarrow> dashboard \<Rightarrow> model_upstream option" where
  "selectedUpstream lower catalog d =
     (if db_pane d = UpstreamsPane
      then orelse (List.find (\<lambda>upstream. Some (mu_ref upstream) = db_selectedRef d) (mc_upstreams catalog))
             (first_of (listed_upstreams lower catalog d))
      else None)"

definition select_ref :: "jstr \<Rightarrow> dashboard \<Rightarrow> dashboard" where
  "select_ref ref d = d\<lparr>db_selectedRef := Some ref, db_showDetailOnMobile := True\<rparr>"

definition switchPane :: "pane \<Rightarrow> dashboard \<Rightarrow> dashboard" where
  "switchPane next d =
     d\<lparr>db_pane := next, db_query := [], db_selectedRef := None, db_showDetailOnMobile := (next = ArchivedPane)\<rparr>"

definition pick_model :: "chat_model \<Rightarrow> dashboard \<Rightarrow> dashboard" where
  "pick_model model d = select_ref (am_ref model) (d\<lparr>db_pane := ModelsPane\<rparr>)"

definition pick_upstream :: "model_upstream \<Rightarrow> dashboard \<Rightarrow> dashboard" where
  "pick_upstream upstream d = select_ref (mu_ref upstream) d"

definition back_to_list :: "dashboard \<Rightarrow> dashboard" where
  "back_to_list d = d\<lparr>db_showDetailOnMobile := False\<rparr>"

definition add_item :: "dashboard \<Rightarrow> dashboard" where
  "add_item d =
     d\<lparr>db_editor := Some (if db_pane d = UpstreamsPane then UpstreamEditor None else ModelEditor None)\<rparr>"

text \<open>The selection is pinned, so that a reordered catalog keeps showing the item that is edited.\<close>

definition edit_model :: "chat_model \<Rightarrow> dashboard \<Rightarrow> dashboard" where
  "edit_model model d = d\<lparr>db_selectedRef := Some (am_ref model), db_editor := Some (ModelEditor (Some model))\<rparr>"

definition edit_upstream :: "model_upstream \<Rightarrow> dashboard \<Rightarrow> dashboard" where
  "edit_upstream upstream d =
     d\<lparr>db_selectedRef := Some (mu_ref upstream), db_editor := Some (UpstreamEditor (Some upstream))\<rparr>"

definition add_route :: "chat_model \<Rightarrow> dashboard \<Rightarrow> dashboard" where
  "add_route model d = d\<lparr>db_editor := Some (RouteEditor None (Some (am_key model)))\<rparr>"

definition edit_route :: "model_route \<Rightarrow> dashboard \<Rightarrow> dashboard" where
  "edit_route route d = d\<lparr>db_editor := Some (RouteEditor (Some route) None)\<rparr>"

definition close_editor :: "dashboard \<Rightarrow> dashboard" where
  "close_editor d = d\<lparr>db_editor := None\<rparr>"

definition ask_archive :: "pending_archive \<Rightarrow> dashboard \<Rightarrow> dashboard" where
  "ask_archive pending d = d\<lparr>db_pending := Some pending\<rparr>"

definition cancel_archive :: "dashboard \<Rightarrow> dashboard" where
  "cancel_archive d = d\<lparr>db_pending := None\<rparr>"

text \<open>\<open>confirm\<close> and \<open>confirmAction\<close>: the state afterwards, and the request if there is one.\<close>

definition confirm_archive :: "dashboard \<Rightarrow> dashboard \<times> admin_endpoint option" where
  "confirm_archive d = (d\<lparr>db_pending := None\<rparr>, map_option archive_endpoint (db_pending d))"

definition ask_confirmation :: "confirmation \<Rightarrow> dashboard \<Rightarrow> dashboard" where
  "ask_confirmation c d = d\<lparr>db_confirmation := Some c\<rparr>"

definition cancel_confirmation :: "dashboard \<Rightarrow> dashboard" where
  "cancel_confirmation d = d\<lparr>db_confirmation := None\<rparr>"

definition confirmAction :: "model_catalog \<Rightarrow> dashboard \<Rightarrow> dashboard \<times> admin_endpoint option" where
  "confirmAction catalog d =
     (d\<lparr>db_confirmation := None\<rparr>,
      (case db_confirmation d of
         None \<Rightarrow> None
       | Some ConfirmCatalog \<Rightarrow> Some (SetCatalogEnabled (\<not> mc_database_enabled catalog))
       | Some ConfirmImport \<Rightarrow> Some (ImportEnvironment False)))"

text \<open>What the switches of the detail pane ask for, and the counts above the list.\<close>

definition toggle_model :: "chat_model \<Rightarrow> admin_endpoint" where
  "toggle_model model = SetModelEnabled (am_key model) (\<not> am_enabled model)"

definition toggle_upstream :: "model_upstream \<Rightarrow> admin_endpoint" where
  "toggle_upstream upstream = SetUpstreamEnabled (mu_key upstream) (\<not> mu_enabled upstream)"

definition toggle_route :: "model_route \<Rightarrow> admin_endpoint" where
  "toggle_route route = SetRouteEnabled (route_identity_of route) (\<not> rt_enabled route)"

definition catalog_metrics :: "model_catalog \<Rightarrow> nat \<times> nat \<times> nat \<times> nat" where
  "catalog_metrics catalog =
     (length (mc_models catalog), length (mc_upstreams catalog), length (filter rt_enabled (mc_routes catalog)),
      length (filter rt_selected (mc_routes catalog)))"

text \<open>A row of the route track: the upstream, whether the route can serve, and its status.\<close>

definition upstreamByKey :: "model_catalog \<Rightarrow> jstr \<Rightarrow> model_upstream option" where
  "upstreamByKey catalog = js_map_of (map (\<lambda>upstream. (mu_key upstream, upstream)) (mc_upstreams catalog))"

definition route_row :: "model_catalog \<Rightarrow> chat_model \<Rightarrow> model_route \<Rightarrow> jstr \<times> bool \<times> jstr" where
  "route_row catalog model route =
     (let upstream = upstreamByKey catalog (rt_upstream_key route)
      in (case upstream of None \<Rightarrow> rt_upstream_key route | Some u \<Rightarrow> mu_label u,
          am_enabled model \<and> rt_enabled route \<and> (case upstream of None \<Rightarrow> False | Some u \<Rightarrow> mu_enabled u),
          routeStatusText route model upstream (mc_database_enabled catalog)))"

section \<open>Sorting with a comparison\<close>

text \<open>A consistent comparison, as \<open>sort\<close> requires it: opposite signs when swapped, and transitive.\<close>

definition consistent :: "('a \<Rightarrow> 'a \<Rightarrow> int) \<Rightarrow> bool" where
  "consistent cmp \<longleftrightarrow> (\<forall>x y. sgn (cmp y x) = - sgn (cmp x y)) \<and>
     (\<forall>x y z. cmp x y \<le> 0 \<longrightarrow> cmp y z \<le> 0 \<longrightarrow> cmp x z \<le> 0)"

lemma consistent_flip:
  assumes "consistent cmp"
  shows "cmp x y < 0 \<longleftrightarrow> 0 < cmp y x" "cmp x y = 0 \<longleftrightarrow> cmp y x = 0" "cmp x y \<le> 0 \<longleftrightarrow> 0 \<le> cmp y x"
proof -
  have "sgn (cmp y x) = - sgn (cmp x y)" using assms unfolding consistent_def by blast
  then show "cmp x y < 0 \<longleftrightarrow> 0 < cmp y x" "cmp x y = 0 \<longleftrightarrow> cmp y x = 0" "cmp x y \<le> 0 \<longleftrightarrow> 0 \<le> cmp y x"
    by (simp_all add: sgn_if split: if_splits)
qed

lemma consistent_trans: "consistent cmp \<Longrightarrow> cmp x y \<le> 0 \<Longrightarrow> cmp y z \<le> 0 \<Longrightarrow> cmp x z \<le> 0"
  unfolding consistent_def by blast

lemma consistent_trans_less:
  assumes "consistent cmp" "cmp x y < 0" "cmp y z \<le> 0"
  shows "cmp x z < 0"
proof (rule ccontr)
  assume "\<not> cmp x z < 0"
  then have "cmp z x \<le> 0" using consistent_flip(3) [OF assms(1)] by (simp add: not_less)
  then have "cmp y x \<le> 0" using consistent_trans [OF assms(1) assms(3)] by simp
  then show False using assms(2) consistent_flip(1) [OF assms(1), of x y] by simp
qed

lemma consistent_trans_less':
  assumes "consistent cmp" "cmp x y \<le> 0" "cmp y z < 0"
  shows "cmp x z < 0"
proof (rule ccontr)
  assume "\<not> cmp x z < 0"
  then have "cmp z x \<le> 0" using consistent_flip(3) [OF assms(1)] by (simp add: not_less)
  then have "cmp z y \<le> 0" using consistent_trans [OF assms(1) _ assms(2)] by simp
  then show False using assms(3) consistent_flip(1) [OF assms(1), of y z] by simp
qed

lemma mset_js_insert [simp]: "mset (js_insert cmp x ys) = add_mset x (mset ys)"
  by (induction ys) auto

lemma set_js_insert [simp]: "set (js_insert cmp x ys) = insert x (set ys)"
  by (induction ys) auto

lemma mset_js_sort [simp]: "mset (js_sort cmp xs) = mset xs"
  by (induction xs) (auto simp: js_sort_def)

lemma set_js_sort [simp]: "set (js_sort cmp xs) = set xs"
  by (metis mset_js_sort set_mset_mset)

lemma length_js_sort [simp]: "length (js_sort cmp xs) = length xs"
  by (metis mset_js_sort size_mset)

lemma js_insert_sorted:
  assumes "consistent cmp" "sorted_wrt (\<lambda>x y. cmp x y \<le> 0) ys"
  shows "sorted_wrt (\<lambda>x y. cmp x y \<le> 0) (js_insert cmp x ys)"
  using assms(2)
proof (induction ys)
  case Nil
  then show ?case by simp
next
  case (Cons y ys)
  show ?case
  proof (cases "cmp x y \<le> 0")
    case True
    then show ?thesis using Cons.prems consistent_trans [OF assms(1) True] by auto
  next
    case False
    then have "cmp y x \<le> 0" using consistent_flip(1) [OF assms(1), of y x] by simp
    then show ?thesis using False Cons by simp
  qed
qed

lemma js_sort_sorted: "consistent cmp \<Longrightarrow> sorted_wrt (\<lambda>x y. cmp x y \<le> 0) (js_sort cmp xs)"
  by (induction xs) (simp_all add: js_sort_def js_insert_sorted)

text \<open>Comparing by one key after the other.\<close>

definition compare_then :: "('a \<Rightarrow> 'a \<Rightarrow> int) \<Rightarrow> ('a \<Rightarrow> 'a \<Rightarrow> int) \<Rightarrow> 'a \<Rightarrow> 'a \<Rightarrow> int" where
  "compare_then f g x y = (if f x y \<noteq> 0 then f x y else g x y)"

lemma compare_then_consistent:
  assumes f: "consistent f" and g: "consistent g"
  shows "consistent (compare_then f g)"
  unfolding consistent_def
proof (intro conjI allI impI)
  fix x y
  show "sgn (compare_then f g y x) = - sgn (compare_then f g x y)"
  proof (cases "f x y = 0")
    case True
    moreover have "sgn (g y x) = - sgn (g x y)" using g unfolding consistent_def by blast
    ultimately show ?thesis using consistent_flip(2) [OF f, of x y] by (simp add: compare_then_def)
  next
    case False
    moreover have "sgn (f y x) = - sgn (f x y)" using f unfolding consistent_def by blast
    ultimately show ?thesis using consistent_flip(2) [OF f, of x y] by (simp add: compare_then_def)
  qed
next
  fix x y z
  assume xy: "compare_then f g x y \<le> 0" and yz: "compare_then f g y z \<le> 0"
  have le: "f x y \<le> 0" "f y z \<le> 0" using xy yz by (auto simp: compare_then_def split: if_splits)
  show "compare_then f g x z \<le> 0"
  proof (cases "f x y = 0 \<and> f y z = 0")
    case True
    then have "f z y \<le> 0" "f y x \<le> 0" using consistent_flip(2) [OF f] by (metis order_refl)+
    then have "0 \<le> f x z" using consistent_trans [OF f] consistent_flip(3) [OF f] by blast
    then have "f x z = 0" using consistent_trans [OF f le] by simp
    moreover have "g x z \<le> 0" using True xy yz consistent_trans [OF g] by (auto simp: compare_then_def)
    ultimately show ?thesis by (simp add: compare_then_def)
  next
    case False
    then have "f x y < 0 \<or> f y z < 0" using le by auto
    then have "f x z < 0" using consistent_trans_less [OF f _ le(2)] consistent_trans_less' [OF f le(1)] by blast
    then show ?thesis by (simp add: compare_then_def)
  qed
qed

lemma consistent_difference: "consistent (\<lambda>x y. h x - h y :: int)"
proof -
  have "\<forall>x y. sgn (h y - h x) = - sgn (h x - h y)" by (metis minus_diff_eq sgn_minus)
  moreover have "\<forall>x y z. h x - h y \<le> 0 \<longrightarrow> h y - h z \<le> 0 \<longrightarrow> h x - h z \<le> 0" by simp
  ultimately show ?thesis unfolding consistent_def by (rule conjI)
qed

lemma consistent_key: "consistent lc \<Longrightarrow> consistent (\<lambda>x y. lc (h x) (h y))"
  unfolding consistent_def by blast

lemma compareRoutes_consistent: "consistent lc \<Longrightarrow> consistent (compareRoutes lc)"
proof -
  assume lc: "consistent lc"
  have "consistent (compare_then (\<lambda>x y. rt_priority x - rt_priority y)
     (compare_then (\<lambda>x y. lc (rt_upstream_key x) (rt_upstream_key y))
       (\<lambda>x y. lc (rt_upstream_model x) (rt_upstream_model y))))"
    by (rule compare_then_consistent [OF consistent_difference
          compare_then_consistent [OF consistent_key [OF lc] consistent_key [OF lc]]])
  also have "compare_then (\<lambda>x y. rt_priority x - rt_priority y)
     (compare_then (\<lambda>x y. lc (rt_upstream_key x) (rt_upstream_key y))
       (\<lambda>x y. lc (rt_upstream_model x) (rt_upstream_model y))) = compareRoutes lc"
    by (intro ext) (simp add: compare_then_def compareRoutes_def Let_def)
  finally show ?thesis .
qed

lemma compareRoutes_priority: "compareRoutes lc x y \<le> 0 \<Longrightarrow> rt_priority x \<le> rt_priority y"
  by (auto simp: compareRoutes_def Let_def split: if_splits)

text \<open>A small catalog for the instances.\<close>

definition sample_model :: chat_model where
  "sample_model = \<lparr>am_ref = js ''m1'', am_key = js ''k1'', am_label = js ''One'', am_thinking_levels = [LevelLow, LevelHigh],
     am_supports_image_input = True, am_image_token_reserve = Some 8192, am_token_profile = DefaultTokens,
     am_sort_order = 100, am_enabled = False, am_archived = True, am_archived_at = Some (js ''t1'')\<rparr>"

definition sample_other :: chat_model where
  "sample_other = sample_model\<lparr>am_ref := js ''m2'', am_key := js ''k2'', am_archived := False, am_archived_at := None\<rparr>"

definition sample_upstream :: model_upstream where
  "sample_upstream = \<lparr>mu_ref = js ''u1'', mu_key = js ''up'', mu_label = js ''Up'', mu_adapter = Glm,
     mu_base_url = js ''https://api.example.com'', mu_api_key_hint = [], mu_enabled = True, mu_archived = True,
     mu_archived_at = Some (js ''t0'')\<rparr>"

definition sample_route :: model_route where
  "sample_route = \<lparr>rt_ref = js ''r1'', rt_model_ref = js ''m1'', rt_upstream_ref = js ''u1'', rt_model_key = js ''k1'',
     rt_upstream_key = js ''up'', rt_upstream_model = js ''glm'', rt_reasoning_outputs = [RawOutput], rt_priority = 10,
     rt_enabled = True, rt_archived = True, rt_archived_at = Some (js ''t1''), rt_selected = False\<rparr>"

definition sample_catalog :: model_catalog where
  "sample_catalog = \<lparr>mc_database_enabled = True, mc_models = [sample_model, sample_other], mc_upstreams = [sample_upstream],
     mc_routes = [sample_route]\<rparr>"

section \<open>Properties\<close>

text \<open>
  The route track (C0). The track of a model lists the routes of the model that are not archived, each
  once per entry of the catalog, in the order of their priority; the status shown for a route names the
  first reason why it cannot serve, and a row is marked as available exactly when route, model and
  upstream are online.
\<close>

theorem route_track_correct:
  assumes "consistent lc"
  shows "mset (routesOfModel lc catalog model) =
      filter_mset (\<lambda>route. rt_model_ref route = am_ref model \<and> \<not> rt_archived route) (mset (mc_routes catalog)) \<and>
    sorted (map rt_priority (routesOfModel lc catalog model)) \<and>
    (rt_selected route \<or>
      (routeStatusText route model upstream enabled = candidate_route_text \<longleftrightarrow>
        rt_enabled route \<and> am_enabled model \<and> (\<exists>u. upstream = Some u \<and> mu_enabled u)))"
proof (intro conjI)
  show "mset (routesOfModel lc catalog model) =
      filter_mset (\<lambda>route. rt_model_ref route = am_ref model \<and> \<not> rt_archived route) (mset (mc_routes catalog))"
    by (simp add: routesOfModel_def)
  have "sorted_wrt (\<lambda>x y. compareRoutes lc x y \<le> 0) (routesOfModel lc catalog model)"
    unfolding routesOfModel_def by (intro js_sort_sorted compareRoutes_consistent assms)
  then show "sorted (map rt_priority (routesOfModel lc catalog model))"
    unfolding sorted_map by (rule sorted_wrt_mono_rel [rotated]) (auto dest: compareRoutes_priority)
  show "rt_selected route \<or>
      (routeStatusText route model upstream enabled = candidate_route_text \<longleftrightarrow>
        rt_enabled route \<and> am_enabled model \<and> (\<exists>u. upstream = Some u \<and> mu_enabled u))"
    by (auto simp: routeStatusText_def route_offline_text_def upstream_offline_text_def model_offline_text_def
        candidate_route_text_def split: option.splits)
qed

definition sample_track :: model_catalog where
  "sample_track = sample_catalog\<lparr>mc_routes :=
     [sample_route, sample_route\<lparr>rt_archived := False, rt_priority := 20\<rparr>, sample_route\<lparr>rt_archived := False\<rparr>]\<rparr>"

theorem route_track_correct_witness:
  "sorted (map rt_priority (routesOfModel (\<lambda>a b. int (length a) - int (length b)) sample_track sample_model)) \<and>
   map rt_priority (routesOfModel (\<lambda>a b. int (length a) - int (length b)) sample_track sample_model) = [10, 20]"
proof -
  have "consistent (\<lambda>a b :: jstr. int (length a) - int (length b))" by (rule consistent_difference)
  then have "sorted (map rt_priority (routesOfModel (\<lambda>a b. int (length a) - int (length b)) sample_track sample_model))"
    using route_track_correct by blast
  moreover have "map rt_priority (routesOfModel (\<lambda>a b. int (length a) - int (length b)) sample_track sample_model) = [10, 20]"
    by code_simp
  ultimately show ?thesis by blast
qed

lemma archived_model_entry:
  "model \<in> set (mc_models catalog) \<Longrightarrow> am_archived model \<Longrightarrow> model_entry model \<in> set (archivedEntries catalog)"
  by (simp add: archivedEntries_def)

lemma parent_archived_at_model:
  assumes "parent_archived_at catalog route = Some t"
  obtains model where "model \<in> set (mc_models catalog)" "am_ref model = rt_model_ref route" "am_archived_at model = t"
  using assms js_map_of_in unfolding parent_archived_at_def by fastforce

text \<open>
  Nothing archived is lost (C38). Where the server marks exactly the archived rows with a time, every archived
  model, upstream and route can be brought back: it has an entry of its own, or it is a route archived
  together with its model, which has an entry, and the confirmation of that entry counts it. Confirming an
  entry asks for exactly that entry.
\<close>

theorem archived_can_be_restored:
  assumes "\<forall>m \<in> set (mc_models catalog). am_archived m \<longleftrightarrow> am_archived_at m \<noteq> None"
    and "\<forall>r \<in> set (mc_routes catalog). rt_archived r \<longleftrightarrow> rt_archived_at r \<noteq> None"
    and "r \<in> set (mc_routes catalog)" "rt_archived r"
  shows "(route_entry r \<in> set (archivedEntries catalog) \<or>
      (\<exists>m \<in> set (mc_models catalog). am_archived m \<and> model_entry m \<in> set (archivedEntries catalog) \<and>
        r \<in> set (routes_archived_with catalog m) \<and>
        fst (modelRestorePreview catalog m) + snd (modelRestorePreview catalog m) =
          length (routes_archived_with catalog m))) \<and>
    (\<forall>e. snd (confirm_archive (ask_archive (PendingRestore e) d)) = Some (RestoreArchived (entry_ref e)))"
proof (intro conjI allI)
  show "route_entry r \<in> set (archivedEntries catalog) \<or>
      (\<exists>m \<in> set (mc_models catalog). am_archived m \<and> model_entry m \<in> set (archivedEntries catalog) \<and>
        r \<in> set (routes_archived_with catalog m) \<and>
        fst (modelRestorePreview catalog m) + snd (modelRestorePreview catalog m) =
          length (routes_archived_with catalog m))"
  proof (cases "Some (rt_archived_at r) = parent_archived_at catalog r")
    case False
    then show ?thesis using assms(3,4) by (simp add: archivedEntries_def)
  next
    case True
    then obtain m where m: "m \<in> set (mc_models catalog)" "am_ref m = rt_model_ref r"
      "am_archived_at m = rt_archived_at r" by (metis parent_archived_at_model)
    then have "am_archived m" using assms by auto
    moreover have "r \<in> set (routes_archived_with catalog m)" using m assms(3) by (simp add: routes_archived_with_def)
    ultimately show ?thesis using m(1) archived_model_entry [OF m(1)]
      by (auto simp: modelRestorePreview_def Let_def intro!: bexI [of _ m])
  qed
next
  fix e
  show "snd (confirm_archive (ask_archive (PendingRestore e) d)) = Some (RestoreArchived (entry_ref e))"
    by (simp add: confirm_archive_def ask_archive_def)
qed

text \<open>An archived model with its route, and an upstream that was archived on its own.\<close>

theorem archived_can_be_restored_witness:
  "(\<exists>m \<in> set (mc_models sample_catalog). am_archived m \<and> sample_route \<in> set (routes_archived_with sample_catalog m)) \<and>
   route_entry sample_route \<notin> set (archivedEntries sample_catalog) \<and>
   snd (modelRestorePreview sample_catalog sample_model) = 1"
proof -
  have "\<forall>m \<in> set (mc_models sample_catalog). am_archived m \<longleftrightarrow> am_archived_at m \<noteq> None"
    "\<forall>r \<in> set (mc_routes sample_catalog). rt_archived r \<longleftrightarrow> rt_archived_at r \<noteq> None"
    "sample_route \<in> set (mc_routes sample_catalog)" "rt_archived sample_route"
    by (simp_all add: sample_catalog_def sample_model_def sample_other_def sample_route_def)
  note entry = archived_can_be_restored [OF this, of undefined]
  have "route_entry sample_route \<notin> set (archivedEntries sample_catalog)"
    "snd (modelRestorePreview sample_catalog sample_model) = 1" by code_simp+
  with entry show ?thesis by blast
qed

text \<open>
  The edited item stays on show (C0). After a click on edit the detail pane shows the same model, in
  whatever order and however filtered a later catalog comes back, as long as that catalog holds it; and the
  pane only ever shows models of the catalog.
\<close>

theorem edited_model_stays_shown:
  assumes "selectedModel_console lower catalog d = Some m"
    and "distinct (map am_ref (mc_models catalog'))" "m' \<in> set (mc_models catalog')" "am_ref m' = am_ref m"
  shows "m \<in> set (mc_models catalog) \<and>
    selectedModel_console lower catalog' ((close_editor (edit_model m d))\<lparr>db_query := query\<rparr>) = Some m'"
proof
  show "m \<in> set (mc_models catalog)"
    using assms(1) by (auto simp: selectedModel_console_def orelse_def first_of_def listed_models_def
        split: if_splits option.splits list.splits dest!: find_SomeD dest: filter_eq_ConsD)
  have "db_pane d = ModelsPane" using assms(1) by (simp add: selectedModel_console_def split: if_splits)
  moreover have "List.find (\<lambda>model. am_ref model = am_ref m) (mc_models catalog') = Some m'"
    using find_by_key [of am_ref "mc_models catalog'" m'] assms(2-4) by simp
  ultimately show "selectedModel_console lower catalog' ((close_editor (edit_model m d))\<lparr>db_query := query\<rparr>) = Some m'"
    by (simp add: selectedModel_console_def edit_model_def close_editor_def)
qed

theorem edited_model_stays_shown_witness:
  "selectedModel_console id (sample_catalog\<lparr>mc_models := [sample_other, sample_model]\<rparr>)
     ((close_editor (edit_model sample_model initial_dashboard))\<lparr>db_query := js ''z''\<rparr>) = Some sample_model"
proof -
  have "selectedModel_console id sample_catalog initial_dashboard = Some sample_model" by code_simp
  moreover have "distinct (map am_ref (mc_models (sample_catalog\<lparr>mc_models := [sample_other, sample_model]\<rparr>)))"
    by (simp add: sample_other_def sample_model_def)
  moreover have "sample_model \<in> set (mc_models (sample_catalog\<lparr>mc_models := [sample_other, sample_model]\<rparr>))" by simp
  ultimately show ?thesis using edited_model_stays_shown by blast
qed

end
