(* ===== verification/Model_Console.thy ===== *)
theory Model_Console
  imports Model_Catalog File_Rules Local_Storage
begin

text \<open>
  The model console: the page with its access key (\<open>frontend/src/model-admin/ModelAdminPage.tsx\<close>) and the
  three editors (\<open>ModelAdminEditors.tsx\<close>).

  The async functions are cut at their awaits: a task is a request that waits for its answer. The server is
  a relation between an access key, an operation and a catalog it may answer with; a failure is any thrown
  value. A control that is disabled gets no click. The lemmas show which catalog and which key the page
  holds, and that an edit without changes changes nothing.
\<close>

section \<open>Definitions\<close>

subsection \<open>The page\<close>

datatype console_task = Opening jstr bool | Mutating jstr admin_endpoint

record console_page =
  cp_storage :: "storage option"
  cp_accessKey :: jstr
  cp_catalog :: "model_catalog option"
  cp_gateBusy :: bool
  cp_gateError :: "jstr option"
  cp_busyAction :: "jstr option"
  cp_notice :: "(toast_tone \<times> jstr) option"
  cp_tasks :: "console_task list"

definition errorText :: "api_error \<Rightarrow> jstr" where
  "errorText e = (case err_detail e of Some (JStr s) \<Rightarrow> s | _ \<Rightarrow> err_message e)"

definition lock :: "console_page \<Rightarrow> console_page" where
  "lock s =
     s\<lparr>cp_storage := clearAccessKey (cp_storage s), cp_accessKey := [], cp_catalog := None,
       cp_busyAction := None, cp_notice := None\<rparr>"

definition access_denied :: "api_error \<Rightarrow> bool" where
  "access_denied e \<longleftrightarrow> err_status e = 401 \<or> err_status e = 429"

definition rejectAccess :: "thrown \<Rightarrow> console_page \<Rightarrow> console_page" where
  "rejectAccess error s =
     (let apiError = toApiError error; s1 = (if access_denied apiError then lock s else s)
      in s1\<lparr>cp_gateError := Some (errorText apiError)\<rparr>)"

definition openCatalog :: "jstr \<Rightarrow> bool \<Rightarrow> console_page \<Rightarrow> console_page" where
  "openCatalog candidate persist s =
     s\<lparr>cp_gateBusy := True, cp_gateError := None, cp_tasks := cp_tasks s @ [Opening candidate persist]\<rparr>"

definition catalog_opened :: "jstr \<Rightarrow> bool \<Rightarrow> model_catalog \<Rightarrow> console_page \<Rightarrow> console_page" where
  "catalog_opened candidate persist loaded s =
     s\<lparr>cp_accessKey := candidate, cp_catalog := Some loaded,
       cp_storage := (if persist then saveAccessKey candidate (cp_storage s) else cp_storage s),
       cp_gateBusy := False\<rparr>"

definition catalog_refused :: "thrown \<Rightarrow> console_page \<Rightarrow> console_page" where
  "catalog_refused error s = (rejectAccess error s)\<lparr>cp_gateBusy := False\<rparr>"

text \<open>The first render and the effect that opens the catalog with a restored key.\<close>

definition console_start :: "storage option \<Rightarrow> console_page" where
  "console_start area =
     (let restored = readAccessKey area;
          s = \<lparr>cp_storage = area, cp_accessKey = nullish restored [], cp_catalog = None,
               cp_gateBusy = truthy restored, cp_gateError = None, cp_busyAction = None, cp_notice = None,
               cp_tasks = []\<rparr>
      in if truthy restored then openCatalog (nullish restored []) False s else s)"

text \<open>The form of the gate.\<close>

definition change_access_key :: "jstr \<Rightarrow> console_page \<Rightarrow> console_page" where
  "change_access_key value s = s\<lparr>cp_accessKey := value\<rparr>"

definition gate_submit :: "console_page \<Rightarrow> console_page" where
  "gate_submit s = (if cp_accessKey s = [] \<or> cp_gateBusy s then s else openCatalog (cp_accessKey s) True s)"

subsection \<open>Changes of the catalog\<close>

text \<open>The action and the notice of each handler that the page gives to the dashboard.\<close>

fun action_name :: "admin_endpoint \<Rightarrow> jstr" where
  "action_name GetCatalog = js ''refresh''"
| "action_name (UpsertModel _ _) = js ''save-model''"
| "action_name (SetModelEnabled _ _) = js ''toggle-model''"
| "action_name (UpsertUpstream _ _) = js ''save-upstream''"
| "action_name (SetUpstreamEnabled _ _) = js ''toggle-upstream''"
| "action_name (UpsertRoute _) = js ''save-route''"
| "action_name (SetRouteEnabled _ _) = js ''toggle-route''"
| "action_name (SetCatalogEnabled _) = js ''toggle-catalog''"
| "action_name (ImportEnvironment _) = js ''import-environment''"
| "action_name (ArchiveModel _) = js ''archive-model''"
| "action_name (ArchiveUpstream _) = js ''archive-upstream''"
| "action_name (ArchiveRoute _) = js ''archive-route''"
| "action_name (RestoreArchived _) = js ''restore''"

fun success_text :: "admin_endpoint \<Rightarrow> jstr" where
  "success_text GetCatalog = refreshed_text"
| "success_text (UpsertModel _ _) = model_saved_text"
| "success_text (SetModelEnabled _ enabled) = (if enabled then model_up_text else model_down_text)"
| "success_text (UpsertUpstream _ _) = upstream_saved_text"
| "success_text (SetUpstreamEnabled _ enabled) = (if enabled then upstream_up_text else upstream_down_text)"
| "success_text (UpsertRoute _) = route_saved_text"
| "success_text (SetRouteEnabled _ enabled) = (if enabled then route_up_text else route_down_text)"
| "success_text (SetCatalogEnabled enabled) = (if enabled then database_catalog_text else env_catalog_text)"
| "success_text (ImportEnvironment _) = env_imported_text"
| "success_text (ArchiveModel _) = model_archived_text"
| "success_text (ArchiveUpstream _) = upstream_archived_text"
| "success_text (ArchiveRoute _) = route_archived_text"
| "success_text (RestoreArchived _) = restored_text"

definition runMutation :: "admin_endpoint \<Rightarrow> console_page \<Rightarrow> console_page" where
  "runMutation e s =
     s\<lparr>cp_busyAction := Some (action_name e), cp_notice := None,
       cp_tasks := cp_tasks s @ [Mutating (cp_accessKey s) e]\<rparr>"

definition mutation_done :: "admin_endpoint \<Rightarrow> model_catalog \<Rightarrow> console_page \<Rightarrow> console_page" where
  "mutation_done e updated s =
     s\<lparr>cp_catalog := Some updated, cp_notice := Some (ToneSuccess, success_text e), cp_busyAction := None\<rparr>"

definition mutation_failed :: "thrown \<Rightarrow> console_page \<Rightarrow> console_page" where
  "mutation_failed error s =
     (let apiError = toApiError error;
          s1 = (if access_denied apiError then rejectAccess (ThrownApi apiError) s
                else s\<lparr>cp_notice := Some (ToneError, errorText apiError)\<rparr>)
      in s1\<lparr>cp_busyAction := None\<rparr>)"

section \<open>Steps\<close>

type_synonym console_server = "jstr \<Rightarrow> admin_endpoint \<Rightarrow> model_catalog \<Rightarrow> bool"

definition settle :: "console_task \<Rightarrow> console_page \<Rightarrow> console_page" where
  "settle t s = s\<lparr>cp_tasks := remove1 t (cp_tasks s)\<rparr>"

inductive console_step :: "console_server \<Rightarrow> console_page \<Rightarrow> console_page \<Rightarrow> bool" for srv where
  key_typed: "cp_catalog s = None \<Longrightarrow> \<not> cp_gateBusy s \<Longrightarrow> console_step srv s (change_access_key v s)"
| submitted: "cp_catalog s = None \<Longrightarrow> console_step srv s (gate_submit s)"
| opened: "Opening k persist \<in> set (cp_tasks s) \<Longrightarrow> srv k GetCatalog c \<Longrightarrow>
    console_step srv s (catalog_opened k persist c (settle (Opening k persist) s))"
| refused: "Opening k persist \<in> set (cp_tasks s) \<Longrightarrow>
    console_step srv s (catalog_refused error (settle (Opening k persist) s))"
| asked: "cp_catalog s \<noteq> None \<Longrightarrow> cp_busyAction s = None \<Longrightarrow> console_step srv s (runMutation e s)"
| answered: "Mutating k e \<in> set (cp_tasks s) \<Longrightarrow> srv k e c \<Longrightarrow>
    console_step srv s (mutation_done e c (settle (Mutating k e) s))"
| failed: "Mutating k e \<in> set (cp_tasks s) \<Longrightarrow>
    console_step srv s (mutation_failed error (settle (Mutating k e) s))"
| locked: "cp_catalog s \<noteq> None \<Longrightarrow> cp_busyAction s = None \<Longrightarrow> console_step srv s (lock s)"

abbreviation console_reachable :: "console_server \<Rightarrow> storage option \<Rightarrow> console_page \<Rightarrow> bool" where
  "console_reachable srv area \<equiv> (console_step srv)\<^sup>*\<^sup>* (console_start area)"

section \<open>The catalog and the key\<close>

definition key_accepted :: "console_server \<Rightarrow> storage option \<Rightarrow> storage option \<Rightarrow> bool" where
  "key_accepted srv area now \<longleftrightarrow>
     (\<forall>k. readAccessKey now = Some k \<longrightarrow> readAccessKey area = Some k \<or> (\<exists>c. srv k GetCatalog c))"

text \<open>The three situations of the page: the gate, the console, and each with one request under way.\<close>

definition page_idle :: "console_page \<Rightarrow> bool" where
  "page_idle s \<longleftrightarrow> cp_tasks s = [] \<and> \<not> cp_gateBusy s \<and> cp_busyAction s = None"

definition page_opening :: "console_page \<Rightarrow> bool" where
  "page_opening s \<longleftrightarrow> (\<exists>k persist. cp_tasks s = [Opening k persist] \<and> cp_gateBusy s \<and> cp_busyAction s = None \<and>
     cp_catalog s = None \<and> (\<not> persist \<longrightarrow> readAccessKey (cp_storage s) = Some k))"

definition page_mutating :: "console_page \<Rightarrow> bool" where
  "page_mutating s \<longleftrightarrow> (\<exists>e. cp_tasks s = [Mutating (cp_accessKey s) e] \<and> \<not> cp_gateBusy s \<and>
     cp_busyAction s = Some (action_name e) \<and> cp_catalog s \<noteq> None)"

definition shown_sound :: "console_server \<Rightarrow> console_page \<Rightarrow> bool" where
  "shown_sound srv s \<longleftrightarrow> (\<forall>c. cp_catalog s = Some c \<longrightarrow>
     (\<exists>e. srv (cp_accessKey s) e c) \<and>
     (cp_storage s \<noteq> None \<longrightarrow> readAccessKey (cp_storage s) = Some (cp_accessKey s)))"

definition console_invariant :: "console_server \<Rightarrow> storage option \<Rightarrow> console_page \<Rightarrow> bool" where
  "console_invariant srv area s \<longleftrightarrow>
     (page_idle s \<or> page_opening s \<or> page_mutating s) \<and> shown_sound srv s \<and> key_accepted srv area (cp_storage s)"

lemma read_saved: "readAccessKey (saveAccessKey k area) = (if area = None then None else Some k)"
  by (auto simp: readAccessKey_def saveAccessKey_def get_set_item split: option.split)

lemma read_cleared [simp]: "readAccessKey (clearAccessKey area) = None"
  by (auto simp: readAccessKey_def clearAccessKey_def get_remove_item split: option.split)

lemma saved_None [simp]: "saveAccessKey k area = None \<longleftrightarrow> area = None"
  by (simp add: saveAccessKey_def)

lemma lock_simps [simp]:
  "cp_catalog (lock s) = None" "cp_accessKey (lock s) = []" "cp_busyAction (lock s) = None"
  "cp_gateBusy (lock s) = cp_gateBusy s" "cp_tasks (lock s) = cp_tasks s"
  "cp_storage (lock s) = clearAccessKey (cp_storage s)"
  by (simp_all add: lock_def)

lemma rejectAccess_simps [simp]:
  "cp_tasks (rejectAccess error s) = cp_tasks s" "cp_gateBusy (rejectAccess error s) = cp_gateBusy s"
  "cp_gateError (rejectAccess error s) = Some (errorText (toApiError error))"
  "cp_catalog (rejectAccess error s) = (if access_denied (toApiError error) then None else cp_catalog s)"
  "cp_accessKey (rejectAccess error s) = (if access_denied (toApiError error) then [] else cp_accessKey s)"
  "cp_busyAction (rejectAccess error s) = (if access_denied (toApiError error) then None else cp_busyAction s)"
  "cp_storage (rejectAccess error s) =
     (if access_denied (toApiError error) then clearAccessKey (cp_storage s) else cp_storage s)"
  by (simp_all add: rejectAccess_def Let_def)

lemma settle_simps [simp]:
  "cp_storage (settle t s) = cp_storage s" "cp_accessKey (settle t s) = cp_accessKey s"
  "cp_catalog (settle t s) = cp_catalog s" "cp_gateBusy (settle t s) = cp_gateBusy s"
  "cp_busyAction (settle t s) = cp_busyAction s" "cp_tasks (settle t s) = remove1 t (cp_tasks s)"
  "cp_gateError (settle t s) = cp_gateError s" "cp_notice (settle t s) = cp_notice s"
  by (simp_all add: settle_def)

lemma mutation_failed_simps [simp]:
  "cp_tasks (mutation_failed error s) = cp_tasks s" "cp_gateBusy (mutation_failed error s) = cp_gateBusy s"
  "cp_busyAction (mutation_failed error s) = None"
  "cp_catalog (mutation_failed error s) = (if access_denied (toApiError error) then None else cp_catalog s)"
  "cp_accessKey (mutation_failed error s) = (if access_denied (toApiError error) then [] else cp_accessKey s)"
  "cp_storage (mutation_failed error s) =
     (if access_denied (toApiError error) then clearAccessKey (cp_storage s) else cp_storage s)"
  by (simp_all add: mutation_failed_def Let_def)

lemma key_accepted_cleared [simp]: "key_accepted srv area (clearAccessKey now)"
  by (simp add: key_accepted_def)

lemma console_start_invariant: "console_invariant srv area (console_start area)"
proof -
  have "page_idle (console_start area) \<or> page_opening (console_start area)"
    by (auto simp: console_start_def openCatalog_def page_idle_def page_opening_def truthy_def Let_def
        split: option.splits)
  moreover have "cp_catalog (console_start area) = None" "cp_storage (console_start area) = area"
    by (simp_all add: console_start_def openCatalog_def Let_def)
  ultimately show ?thesis by (auto simp: console_invariant_def shown_sound_def key_accepted_def)
qed

text \<open>A task under way tells the situation.\<close>

lemma opening_task:
  assumes "console_invariant srv area s" "Opening k persist \<in> set (cp_tasks s)"
  shows "page_opening s" "cp_tasks s = [Opening k persist]" "\<not> persist \<Longrightarrow> readAccessKey (cp_storage s) = Some k"
  using assms by (auto simp: console_invariant_def page_idle_def page_opening_def page_mutating_def)

lemma mutating_task:
  assumes "console_invariant srv area s" "Mutating k e \<in> set (cp_tasks s)"
  shows "page_mutating s" "cp_tasks s = [Mutating k e]" "cp_accessKey s = k"
  using assms by (auto simp: console_invariant_def page_idle_def page_opening_def page_mutating_def)

lemma key_typed_invariant:
  "console_invariant srv area s \<Longrightarrow> cp_catalog s = None \<Longrightarrow> \<not> cp_gateBusy s \<Longrightarrow>
    console_invariant srv area (change_access_key v s)"
  by (auto simp: console_invariant_def change_access_key_def page_idle_def page_opening_def page_mutating_def
      shown_sound_def)

lemma gate_submit_invariant:
  "console_invariant srv area s \<Longrightarrow> cp_catalog s = None \<Longrightarrow> console_invariant srv area (gate_submit s)"
  by (auto simp: console_invariant_def gate_submit_def openCatalog_def page_idle_def page_opening_def
      page_mutating_def shown_sound_def)

lemma catalog_opened_invariant:
  assumes "console_invariant srv area s" "Opening k persist \<in> set (cp_tasks s)" "srv k GetCatalog c"
  shows "console_invariant srv area (catalog_opened k persist c (settle (Opening k persist) s))"
proof -
  note task = opening_task [OF assms(1,2)]
  have "page_idle (catalog_opened k persist c (settle (Opening k persist) s))"
    using task(1,2) by (auto simp: page_idle_def page_opening_def catalog_opened_def)
  moreover have "shown_sound srv (catalog_opened k persist c (settle (Opening k persist) s))"
    using assms(3) task(3) by (auto simp: shown_sound_def catalog_opened_def read_saved)
  moreover have "key_accepted srv area (cp_storage (catalog_opened k persist c (settle (Opening k persist) s)))"
    using assms(1,3) by (auto simp: catalog_opened_def key_accepted_def console_invariant_def read_saved
        split: if_splits)
  ultimately show ?thesis by (simp add: console_invariant_def)
qed

lemma catalog_refused_invariant:
  assumes "console_invariant srv area s" "Opening k persist \<in> set (cp_tasks s)"
  shows "console_invariant srv area (catalog_refused error (settle (Opening k persist) s))"
proof -
  note task = opening_task [OF assms]
  have "page_idle (catalog_refused error (settle (Opening k persist) s))"
    using task(1,2) by (auto simp: page_idle_def page_opening_def catalog_refused_def)
  moreover have "cp_catalog s = None" using task(1) by (auto simp: page_opening_def)
  moreover have "key_accepted srv area (cp_storage s)" using assms(1) by (simp add: console_invariant_def)
  ultimately show ?thesis by (auto simp: console_invariant_def shown_sound_def catalog_refused_def)
qed

lemma runMutation_invariant:
  assumes "console_invariant srv area s" "cp_catalog s \<noteq> None" "cp_busyAction s = None"
  shows "console_invariant srv area (runMutation e s)"
proof -
  have "page_mutating (runMutation e s)"
    using assms by (auto simp: console_invariant_def page_idle_def page_opening_def page_mutating_def runMutation_def)
  moreover have "shown_sound srv (runMutation e s)" "key_accepted srv area (cp_storage (runMutation e s))"
    using assms(1) by (simp_all add: console_invariant_def shown_sound_def runMutation_def)
  ultimately show ?thesis by (simp add: console_invariant_def)
qed

lemma mutation_done_invariant:
  assumes "console_invariant srv area s" "Mutating k e \<in> set (cp_tasks s)" "srv k e c"
  shows "console_invariant srv area (mutation_done e c (settle (Mutating k e) s))"
proof -
  note task = mutating_task [OF assms(1,2)]
  have "page_idle (mutation_done e c (settle (Mutating k e) s))"
    using task(1,2) by (auto simp: page_idle_def page_mutating_def mutation_done_def)
  moreover have "shown_sound srv s" "cp_catalog s \<noteq> None" "key_accepted srv area (cp_storage s)"
    using assms(1) task(1) by (auto simp: console_invariant_def page_mutating_def)
  ultimately show ?thesis using assms(3) task(3)
    by (auto simp: console_invariant_def shown_sound_def mutation_done_def)
qed

lemma mutation_failed_invariant:
  assumes "console_invariant srv area s" "Mutating k e \<in> set (cp_tasks s)"
  shows "console_invariant srv area (mutation_failed error (settle (Mutating k e) s))"
proof -
  note task = mutating_task [OF assms]
  have "page_idle (mutation_failed error (settle (Mutating k e) s))"
    using task(1,2) by (auto simp: page_idle_def page_mutating_def)
  moreover have "shown_sound srv s" "key_accepted srv area (cp_storage s)"
    using assms(1) by (simp_all add: console_invariant_def)
  ultimately show ?thesis by (auto simp: console_invariant_def shown_sound_def)
qed

lemma lock_invariant:
  assumes "console_invariant srv area s" "cp_catalog s \<noteq> None" "cp_busyAction s = None"
  shows "console_invariant srv area (lock s)"
  using assms by (auto simp: console_invariant_def shown_sound_def page_idle_def page_opening_def page_mutating_def)

lemma console_step_invariant:
  "console_step srv s s' \<Longrightarrow> console_invariant srv area s \<Longrightarrow> console_invariant srv area s'"
  by (induction rule: console_step.induct)
    (blast intro: key_typed_invariant gate_submit_invariant catalog_opened_invariant catalog_refused_invariant
      runMutation_invariant mutation_done_invariant mutation_failed_invariant lock_invariant)+

lemma console_reachable_invariant:
  assumes "console_reachable srv area s"
  shows "console_invariant srv area s"
  using assms by induction (blast intro: console_start_invariant console_step_invariant)+

text \<open>
  The console and its key (C30). Whatever happens on the page and in whatever way the server answers: a
  catalog on show was answered for the key the page holds, which is also the key in the session storage;
  a stored key was there from the beginning or opened the catalog; and at most one request is under way.
  After a refusal with 401 or 429 neither the catalog nor a key is left, on the page or in the storage, and
  the reason is shown.
\<close>

theorem console_holds_accepted_key:
  assumes "console_reachable srv area s"
  shows "(\<forall>c. cp_catalog s = Some c \<longrightarrow> (\<exists>e. srv (cp_accessKey s) e c) \<and>
      (cp_storage s = None \<or> readAccessKey (cp_storage s) = Some (cp_accessKey s))) \<and>
    (\<forall>k. readAccessKey (cp_storage s) = Some k \<longrightarrow> readAccessKey area = Some k \<or> (\<exists>c. srv k GetCatalog c)) \<and>
    length (cp_tasks s) \<le> 1 \<and> (cp_tasks s = [] \<longleftrightarrow> \<not> cp_gateBusy s \<and> cp_busyAction s = None) \<and>
    (Mutating k e \<in> set (cp_tasks s) \<and> access_denied (toApiError error) \<longrightarrow>
      (let s' = mutation_failed error (settle (Mutating k e) s)
       in cp_catalog s' = None \<and> cp_accessKey s' = [] \<and> readAccessKey (cp_storage s') = None \<and>
          cp_gateError s' = Some (errorText (toApiError error)) \<and> page_idle s'))"
proof -
  have inv: "console_invariant srv area s" using assms by (rule console_reachable_invariant)
  then have "page_idle s \<or> page_opening s \<or> page_mutating s" by (simp add: console_invariant_def)
  then have tasks: "length (cp_tasks s) \<le> 1" "cp_tasks s = [] \<longleftrightarrow> \<not> cp_gateBusy s \<and> cp_busyAction s = None"
    by (auto simp: page_idle_def page_opening_def page_mutating_def)
  have "Mutating k e \<in> set (cp_tasks s) \<and> access_denied (toApiError error) \<longrightarrow>
      (let s' = mutation_failed error (settle (Mutating k e) s)
       in cp_catalog s' = None \<and> cp_accessKey s' = [] \<and> readAccessKey (cp_storage s') = None \<and>
          cp_gateError s' = Some (errorText (toApiError error)) \<and> page_idle s')"
  proof
    assume task: "Mutating k e \<in> set (cp_tasks s) \<and> access_denied (toApiError error)"
    then have "cp_tasks s = [Mutating k e]" "\<not> cp_gateBusy s"
      using mutating_task [OF inv, of k e] by (auto simp: page_mutating_def)
    then show "let s' = mutation_failed error (settle (Mutating k e) s)
       in cp_catalog s' = None \<and> cp_accessKey s' = [] \<and> readAccessKey (cp_storage s') = None \<and>
          cp_gateError s' = Some (errorText (toApiError error)) \<and> page_idle s'"
      using task by (simp add: Let_def page_idle_def mutation_failed_def)
  qed
  with inv tasks show ?thesis by (auto simp: console_invariant_def shown_sound_def key_accepted_def)
qed

text \<open>A run: the key is typed, the catalog opens, and a refresh is refused.\<close>

definition console_demo_server :: console_server where
  "console_demo_server k e c \<longleftrightarrow> k = js ''key'' \<and> c = sample_catalog"

definition console_demo_opened :: console_page where
  "console_demo_opened = catalog_opened (js ''key'') True sample_catalog
     (settle (Opening (js ''key'') True) (gate_submit (change_access_key (js ''key'') (console_start (Some [])))))"

definition console_demo_busy :: console_page where
  "console_demo_busy = runMutation GetCatalog console_demo_opened"

definition console_demo_error :: thrown where
  "console_demo_error = ThrownApi ((plain_error 401 [])\<lparr>err_detail := Some (JStr (js ''no''))\<rparr>)"

lemma console_demo_reachable: "console_reachable console_demo_server (Some []) console_demo_busy"
proof -
  let ?s0 = "console_start (Some [])"
  let ?s1 = "change_access_key (js ''key'') ?s0"
  let ?s2 = "gate_submit ?s1"
  have "cp_catalog ?s0 = None" "\<not> cp_gateBusy ?s0" by code_simp+
  then have "console_step console_demo_server ?s0 ?s1" by (rule console_step.key_typed)
  moreover have "cp_catalog ?s1 = None" by code_simp
  then have "console_step console_demo_server ?s1 ?s2" by (rule console_step.submitted)
  moreover have "Opening (js ''key'') True \<in> set (cp_tasks ?s2)" by code_simp
  then have "console_step console_demo_server ?s2 console_demo_opened"
    unfolding console_demo_opened_def by (rule console_step.opened) (simp add: console_demo_server_def)
  moreover have "cp_catalog console_demo_opened \<noteq> None" "cp_busyAction console_demo_opened = None" by code_simp+
  then have "console_step console_demo_server console_demo_opened console_demo_busy"
    unfolding console_demo_busy_def by (rule console_step.asked)
  ultimately show ?thesis by (meson converse_rtranclp_into_rtranclp rtranclp.rtrancl_refl)
qed

theorem console_holds_accepted_key_witness:
  "readAccessKey (cp_storage console_demo_busy) = Some (js ''key'') \<and>
   readAccessKey (cp_storage (mutation_failed console_demo_error
     (settle (Mutating (js ''key'') GetCatalog) console_demo_busy))) = None"
proof -
  have "access_denied (toApiError console_demo_error)" by code_simp
  moreover have "Mutating (js ''key'') GetCatalog \<in> set (cp_tasks console_demo_busy)"
    "cp_catalog console_demo_busy \<noteq> None" "cp_accessKey console_demo_busy = js ''key''"
    by (simp_all add: console_demo_busy_def console_demo_opened_def runMutation_def catalog_opened_def)
  moreover have "cp_storage console_demo_busy \<noteq> None" by code_simp
  ultimately have "Mutating (js ''key'') GetCatalog \<in> set (cp_tasks console_demo_busy)"
    "access_denied (toApiError console_demo_error)" "cp_storage console_demo_busy \<noteq> None"
    "cp_catalog console_demo_busy \<noteq> None" "cp_accessKey console_demo_busy = js ''key''" by blast+
  then show ?thesis
    using console_holds_accepted_key [OF console_demo_reachable, of "js ''key''" GetCatalog console_demo_error]
    unfolding Let_def by (metis option.exhaust)
qed

end
