(* ===== verification/Model_Editors.thy ===== *)
theory Model_Editors
  imports Model_Console
begin

text \<open>
  The editors of the model console (\<open>frontend/src/model-admin/ModelAdminEditors.tsx\<close>): their fields, the
  request a submission makes of them, the reasoning outputs of a route and the dialog while it saves.

  A field holds text. \<open>Number\<close> of a text that is neither empty nor a row of digits is the argument
  \<open>other\<close>; the number fields only submit whole numbers. The lemmas show that saving an editor as it was
  opened sends what the catalog holds, and that a route never declares an output its adapter does not have.
\<close>

section \<open>Definitions\<close>

text \<open>The order in which \<open>thinkingLevels\<close> lists the levels.\<close>

fun level_rank :: "model_thinking_level \<Rightarrow> nat" where
  "level_rank LevelLow = 0"
| "level_rank LevelMedium = 1"
| "level_rank LevelHigh = 2"
| "level_rank LevelXhigh = 3"
| "level_rank LevelMax = 4"

instantiation model_thinking_level :: linorder
begin

definition less_eq_model_thinking_level :: "model_thinking_level \<Rightarrow> model_thinking_level \<Rightarrow> bool" where
  "a \<le> b \<longleftrightarrow> level_rank a \<le> level_rank b"

definition less_model_thinking_level :: "model_thinking_level \<Rightarrow> model_thinking_level \<Rightarrow> bool" where
  "a < b \<longleftrightarrow> level_rank a < level_rank b"

instance
proof
  fix a b c :: model_thinking_level
  show "a < b \<longleftrightarrow> a \<le> b \<and> \<not> b \<le> a"
    by (auto simp: less_eq_model_thinking_level_def less_model_thinking_level_def)
  show "a \<le> a" by (simp add: less_eq_model_thinking_level_def)
  show "a \<le> b \<Longrightarrow> b \<le> c \<Longrightarrow> a \<le> c" by (simp add: less_eq_model_thinking_level_def)
  show "a \<le> b \<Longrightarrow> b \<le> a \<Longrightarrow> a = b"
    by (cases a; cases b) (simp_all add: less_eq_model_thinking_level_def)
  show "a \<le> b \<or> b \<le> a" by (auto simp: less_eq_model_thinking_level_def)
qed

end

definition thinkingLevels :: "model_thinking_level list" where
  "thinkingLevels = [LevelLow, LevelMedium, LevelHigh, LevelXhigh, LevelMax]"

definition reasoningOutputs :: "reasoning_output list" where
  "reasoningOutputs = [RawOutput, SummaryOutput]"

fun adapterReasoningOutputs :: "provider_adapter \<Rightarrow> reasoning_output list" where
  "adapterReasoningOutputs Deepseek = [RawOutput]"
| "adapterReasoningOutputs Openai = []"
| "adapterReasoningOutputs Openrouter = [RawOutput, SummaryOutput]"
| "adapterReasoningOutputs Glm = [RawOutput]"

subsection \<open>Fields\<close>

text \<open>\<open>Number(stringValue(data, key))\<close>, and what \<open>JSON.stringify\<close> makes of it.\<close>

definition numberValue :: "(jstr \<Rightarrow> jnum) \<Rightarrow> jstr \<Rightarrow> jnum" where
  "numberValue other s =
     (if s \<noteq> [] \<and> list_all is_digit s then Num (int (digits_value s))
      else if js_trim s = [] then Num 0
      else other s)"

fun num_json :: "jnum \<Rightarrow> json" where
  "num_json (Num i) = JNum i"
| "num_json NaN = JNull"

text \<open>\<open>[A-Za-z0-9][A-Za-z0-9._/-]{0,127}\<close>\<close>

definition is_key_start :: "code_unit \<Rightarrow> bool" where
  "is_key_start c \<longleftrightarrow> is_digit c \<or> (65 \<le> c \<and> c \<le> 90) \<or> (97 \<le> c \<and> c \<le> 122)"

definition is_key_part :: "code_unit \<Rightarrow> bool" where
  "is_key_part c \<longleftrightarrow> is_key_start c \<or> c = 46 \<or> c = 95 \<or> c = 47 \<or> c = 45"

definition key_pattern :: "jstr \<Rightarrow> bool" where
  "key_pattern s \<longleftrightarrow> s \<noteq> [] \<and> is_key_start (hd s) \<and> list_all is_key_part (tl s) \<and> length (tl s) \<le> 127"

subsection \<open>The editor of a model\<close>

record model_form =
  mf_key :: jstr
  mf_label :: jstr
  mf_levels :: "model_thinking_level list"
  mf_supportsImage :: bool
  mf_image_token_reserve :: jstr
  mf_token_profile :: token_profile
  mf_sort_order :: jstr
  mf_enabled :: bool

text \<open>The fields as the editor opens: those of the model, or the defaults of a new one.\<close>

definition model_form_of :: "chat_model option \<Rightarrow> model_form" where
  "model_form_of model =
     (case model of
        None \<Rightarrow> \<lparr>mf_key = [], mf_label = [], mf_levels = [], mf_supportsImage = False,
                 mf_image_token_reserve = js ''8192'', mf_token_profile = DefaultTokens,
                 mf_sort_order = js ''100'', mf_enabled = False\<rparr>
      | Some m \<Rightarrow> \<lparr>mf_key = am_key m, mf_label = am_label m,
                   mf_levels = filter (\<lambda>l. l \<in> set (am_thinking_levels m)) thinkingLevels,
                   mf_supportsImage = am_supports_image_input m,
                   mf_image_token_reserve = int_string (nullish (am_image_token_reserve m) 8192),
                   mf_token_profile = am_token_profile m, mf_sort_order = int_string (am_sort_order m),
                   mf_enabled = am_enabled m\<rparr>)"

text \<open>A click on the box of a level; \<open>getAll\<close> returns the checked boxes in their order on the page.\<close>

definition toggle_level :: "model_thinking_level \<Rightarrow> model_form \<Rightarrow> model_form" where
  "toggle_level l f =
     f\<lparr>mf_levels := filter (\<lambda>k. if k = l then k \<notin> set (mf_levels f) else k \<in> set (mf_levels f)) thinkingLevels\<rparr>"

definition model_submission :: "(jstr \<Rightarrow> jnum) \<Rightarrow> model_form \<Rightarrow> admin_endpoint" where
  "model_submission other f =
     UpsertModel (mf_key f)
       (obj [(''label'', JStr (mf_label f)),
             (''thinking_levels'', JArr (map (JStr \<circ> level_name) (mf_levels f))),
             (''supports_image_input'', JBool (mf_supportsImage f)),
             (''image_token_reserve'',
               if mf_supportsImage f then num_json (numberValue other (mf_image_token_reserve f)) else JNull),
             (''token_profile'', JStr (profile_name (mf_token_profile f))),
             (''sort_order'', num_json (numberValue other (mf_sort_order f))),
             (''enabled'', JBool (mf_enabled f))])"

subsection \<open>The editor of an upstream\<close>

record upstream_form =
  uf_key :: jstr
  uf_label :: jstr
  uf_adapter :: provider_adapter
  uf_base_url :: jstr
  uf_api_key :: jstr
  uf_enabled :: bool

definition upstream_form_of :: "model_upstream option \<Rightarrow> upstream_form" where
  "upstream_form_of upstream =
     (case upstream of
        None \<Rightarrow> \<lparr>uf_key = [], uf_label = [], uf_adapter = Openai, uf_base_url = [], uf_api_key = [],
                 uf_enabled = False\<rparr>
      | Some u \<Rightarrow> \<lparr>uf_key = mu_key u, uf_label = mu_label u, uf_adapter = mu_adapter u,
                   uf_base_url = mu_base_url u, uf_api_key = [], uf_enabled = mu_enabled u\<rparr>)"

definition upstream_submission :: "upstream_form \<Rightarrow> admin_endpoint" where
  "upstream_submission f =
     UpsertUpstream (uf_key f)
       (JObj (map (\<lambda>(k, v). (js k, v))
          [(''label'', JStr (uf_label f)), (''adapter'', JStr (adapter_name (uf_adapter f))),
           (''base_url'', JStr (uf_base_url f)), (''enabled'', JBool (uf_enabled f))] @
        (if uf_api_key f \<noteq> [] then [(js ''api_key'', JStr (uf_api_key f))] else [])))"

subsection \<open>The editor of a route\<close>

record route_form =
  rf_route :: "model_route option"
  rf_model_key :: jstr
  rf_upstreamKey :: jstr
  rf_upstream_model :: jstr
  rf_outputs :: "reasoning_output list"
  rf_priority :: jstr
  rf_enabled_box :: bool

definition adapter_of :: "model_upstream list \<Rightarrow> jstr \<Rightarrow> provider_adapter" where
  "adapter_of upstreams key =
     (case List.find (\<lambda>upstream. mu_key upstream = key) upstreams of None \<Rightarrow> Openai | Some u \<Rightarrow> mu_adapter u)"

definition initial_outputs :: "provider_adapter \<Rightarrow> reasoning_output list" where
  "initial_outputs adapter =
     (if adapter = Deepseek \<or> adapter = Openrouter \<or> adapter = Glm then [RawOutput] else [])"

definition route_form_of ::
  "chat_model list \<Rightarrow> model_upstream list \<Rightarrow> model_route option \<Rightarrow> jstr option \<Rightarrow> route_form" where
  "route_form_of models upstreams route modelKey =
     (let firstUpstream = (case upstreams of [] \<Rightarrow> [] | u # _ \<Rightarrow> mu_key u);
          firstModel = (case models of [] \<Rightarrow> [] | m # _ \<Rightarrow> am_key m)
      in case route of
           None \<Rightarrow> \<lparr>rf_route = None, rf_model_key = nullish modelKey firstModel, rf_upstreamKey = firstUpstream,
                    rf_upstream_model = [], rf_outputs = initial_outputs (adapter_of upstreams firstUpstream),
                    rf_priority = js ''100'', rf_enabled_box = False\<rparr>
         | Some r \<Rightarrow> \<lparr>rf_route = Some r, rf_model_key = rt_model_key r, rf_upstreamKey = rt_upstream_key r,
                      rf_upstream_model = rt_upstream_model r, rf_outputs = rt_reasoning_outputs r,
                      rf_priority = int_string (rt_priority r), rf_enabled_box = rt_enabled r\<rparr>)"

definition allowed_outputs :: "model_upstream list \<Rightarrow> route_form \<Rightarrow> reasoning_output list" where
  "allowed_outputs upstreams f = adapterReasoningOutputs (adapter_of upstreams (rf_upstreamKey f))"

text \<open>Choosing another upstream keeps the outputs that its adapter has.\<close>

definition choose_upstream :: "model_upstream list \<Rightarrow> jstr \<Rightarrow> route_form \<Rightarrow> route_form" where
  "choose_upstream upstreams nextKey f =
     (let nextAllowed = adapterReasoningOutputs (adapter_of upstreams nextKey);
          retained = filter (\<lambda>output. output \<in> set nextAllowed) (rf_outputs f)
      in f\<lparr>rf_upstreamKey := nextKey,
           rf_outputs := (if retained \<noteq> [] \<or> nextAllowed = [] then retained else [RawOutput])\<rparr>)"

text \<open>A click on the box of an output; the box of an output the adapter does not have is disabled.\<close>

definition toggle_output :: "reasoning_output \<Rightarrow> route_form \<Rightarrow> route_form" where
  "toggle_output output f =
     f\<lparr>rf_outputs := (if output \<notin> set (rf_outputs f) then rf_outputs f @ [output]
                      else filter (\<lambda>item. item \<noteq> output) (rf_outputs f))\<rparr>"

definition route_submission :: "(jstr \<Rightarrow> jnum) \<Rightarrow> route_form \<Rightarrow> admin_endpoint" where
  "route_submission other f =
     UpsertRoute
       (obj [(''model_key'', JStr (case rf_route f of Some r \<Rightarrow> rt_model_key r | None \<Rightarrow> rf_model_key f)),
             (''upstream_key'', JStr (case rf_route f of Some r \<Rightarrow> rt_upstream_key r | None \<Rightarrow> rf_upstreamKey f)),
             (''upstream_model'',
               JStr (case rf_route f of Some r \<Rightarrow> rt_upstream_model r | None \<Rightarrow> rf_upstream_model f)),
             (''reasoning_outputs'', JArr (map (JStr \<circ> output_name) (rf_outputs f))),
             (''priority'', num_json (numberValue other (rf_priority f))),
             (''enabled'', JBool (rf_enabled_box f))])"

subsection \<open>The dialog of an editor\<close>

record editor_dialog =
  ed_open :: bool
  ed_saving :: bool

definition editor_submit :: "editor_dialog \<Rightarrow> editor_dialog" where
  "editor_submit d = d\<lparr>ed_saving := True\<rparr>"

text \<open>\<open>saved\<close>: what the handler of the page returns.\<close>

definition editor_settled :: "bool \<Rightarrow> editor_dialog \<Rightarrow> editor_dialog" where
  "editor_settled saved d = d\<lparr>ed_open := (ed_open d \<and> \<not> saved), ed_saving := False\<rparr>"

definition editor_dismiss :: "editor_dialog \<Rightarrow> editor_dialog" where
  "editor_dismiss d = (if \<not> ed_saving d then d\<lparr>ed_open := False\<rparr> else d)"

section \<open>Saving without a change\<close>

text \<open>A key that passes the pattern can always be put into a path.\<close>

lemma below_surrogates: "c < 0xD800 \<Longrightarrow> \<not> low_surrogate c \<and> \<not> high_surrogate c"
  by (simp add: low_surrogate_def high_surrogate_def word_less_nat_alt word_le_nat_alt)

lemma encode_below_surrogates: "list_all (\<lambda>c. c < 0xD800) s \<Longrightarrow> encodeURIComponent s \<noteq> None"
  by (induction s) (simp_all add: below_surrogates)

lemma key_part_ascii: "is_key_part c \<Longrightarrow> c < 0xD800"
  by (auto simp: is_key_part_def is_key_start_def is_digit_def elim: le_less_trans)

lemma key_has_path: "key_pattern key \<Longrightarrow> admin_path (UpsertModel key body) \<noteq> None"
proof -
  assume key: "key_pattern key"
  then have "list_all is_key_part key" by (cases key) (simp_all add: key_pattern_def is_key_part_def)
  then have "list_all (\<lambda>c. c < 0xD800) key" by (rule list.pred_mono_strong) (rule key_part_ascii)
  then show ?thesis using encode_below_surrogates [of key] by (simp add: encoded_path_def)
qed

lemma numberValue_int_string: "0 \<le> i \<Longrightarrow> numberValue other (int_string i) = Num i"
  using digits_are_digits [of "nat i"]
  by (auto simp: numberValue_def int_string_def digits_value_digits)

lemma levels_in_order:
  assumes "sorted levels" "distinct levels"
  shows "filter (\<lambda>l. l \<in> set levels) thinkingLevels = levels"
proof (rule sorted_distinct_set_unique)
  have all: "set thinkingLevels = UNIV"
    by (auto simp: thinkingLevels_def) (metis model_thinking_level.exhaust)
  show "set (filter (\<lambda>l. l \<in> set levels) thinkingLevels) = set levels" by (simp add: all)
  have "sorted thinkingLevels" "distinct thinkingLevels" by code_simp+
  then show "sorted (filter (\<lambda>l. l \<in> set levels) thinkingLevels)"
    "distinct (filter (\<lambda>l. l \<in> set levels) thinkingLevels)" by (simp_all add: sorted_wrt_filter)
qed (use assms in simp_all)

text \<open>The bodies as the catalog has them, without the fields the server owns.\<close>

definition model_body :: "chat_model \<Rightarrow> json" where
  "model_body m =
     obj [(''label'', JStr (am_label m)), (''thinking_levels'', JArr (map (JStr \<circ> level_name) (am_thinking_levels m))),
          (''supports_image_input'', JBool (am_supports_image_input m)),
          (''image_token_reserve'', case am_image_token_reserve m of None \<Rightarrow> JNull | Some n \<Rightarrow> JNum n),
          (''token_profile'', JStr (profile_name (am_token_profile m))), (''sort_order'', JNum (am_sort_order m)),
          (''enabled'', JBool (am_enabled m))]"

definition upstream_body :: "model_upstream \<Rightarrow> json" where
  "upstream_body u =
     obj [(''label'', JStr (mu_label u)), (''adapter'', JStr (adapter_name (mu_adapter u))),
          (''base_url'', JStr (mu_base_url u)), (''enabled'', JBool (mu_enabled u))]"

definition route_body :: "model_route \<Rightarrow> json" where
  "route_body r =
     obj [(''model_key'', JStr (rt_model_key r)), (''upstream_key'', JStr (rt_upstream_key r)),
          (''upstream_model'', JStr (rt_upstream_model r)),
          (''reasoning_outputs'', JArr (map (JStr \<circ> output_name) (rt_reasoning_outputs r))),
          (''priority'', JNum (rt_priority r)), (''enabled'', JBool (rt_enabled r))]"

text \<open>A model as the server keeps it: its levels in their order, a reserve exactly with image input.\<close>

definition model_wf :: "chat_model \<Rightarrow> bool" where
  "model_wf m \<longleftrightarrow> sorted (am_thinking_levels m) \<and> distinct (am_thinking_levels m) \<and> 0 \<le> am_sort_order m \<and>
     (am_supports_image_input m \<longleftrightarrow> am_image_token_reserve m \<noteq> None) \<and> (\<forall>n. am_image_token_reserve m = Some n \<longrightarrow> 0 \<le> n)"



section \<open>Reasoning outputs\<close>

inductive route_edit :: "model_upstream list \<Rightarrow> route_form \<Rightarrow> route_form \<Rightarrow> bool" for upstreams where
  upstream_chosen: "rf_route f = None \<Longrightarrow> u \<in> set upstreams \<Longrightarrow>
    route_edit upstreams f (choose_upstream upstreams (mu_key u) f)"
| output_clicked: "output \<in> set (allowed_outputs upstreams f) \<Longrightarrow> route_edit upstreams f (toggle_output output f)"
| fields_changed: "route_edit upstreams f
    (f\<lparr>rf_model_key := k, rf_upstream_model := m, rf_priority := p, rf_enabled_box := b\<rparr>)"

definition outputs_ok :: "model_upstream list \<Rightarrow> route_form \<Rightarrow> bool" where
  "outputs_ok upstreams f \<longleftrightarrow>
     distinct (rf_outputs f) \<and> set (rf_outputs f) \<subseteq> set (allowed_outputs upstreams f)"

lemma initial_outputs_ok: "set (initial_outputs a) \<subseteq> set (adapterReasoningOutputs a)"
  by (cases a) (simp_all add: initial_outputs_def)

lemma route_edit_outputs: "route_edit upstreams f g \<Longrightarrow> outputs_ok upstreams f \<Longrightarrow> outputs_ok upstreams g"
proof (induction rule: route_edit.induct)
  case (upstream_chosen f u)
  have "adapterReasoningOutputs a \<noteq> [] \<Longrightarrow> RawOutput \<in> set (adapterReasoningOutputs a)" for a
    by (cases a) simp_all
  with upstream_chosen show ?case by (auto simp: outputs_ok_def choose_upstream_def allowed_outputs_def Let_def)
qed (auto simp: outputs_ok_def toggle_output_def allowed_outputs_def)

lemma route_edit_kind: "route_edit upstreams f g \<Longrightarrow> rf_route g = rf_route f"
  by (induction rule: route_edit.induct) (simp_all add: choose_upstream_def toggle_output_def Let_def)

lemma route_edits:
  assumes "(route_edit upstreams)\<^sup>*\<^sup>* f g" "outputs_ok upstreams f"
  shows "outputs_ok upstreams g \<and> rf_route g = rf_route f"
  using assms(1)
proof induction
  case base
  show ?case using assms(2) by simp
next
  case (step g h)
  then show ?case using route_edit_outputs [OF step.hyps(2)] route_edit_kind [OF step.hyps(2)] by simp
qed

text \<open>
  Reasoning outputs (C39). However the fields of a new route are changed, the outputs it is submitted with
  are distinct and all of them are outputs that the adapter of the chosen upstream has; the same holds for
  an existing route that is opened with such outputs.
\<close>

theorem route_outputs_supported:
  assumes "(route_edit upstreams)\<^sup>*\<^sup>* (route_form_of models upstreams route modelKey) f"
    and "route = None \<or> outputs_ok upstreams (route_form_of models upstreams route modelKey)"
  shows "distinct (rf_outputs f) \<and> set (rf_outputs f) \<subseteq> set (allowed_outputs upstreams f) \<and> rf_route f = route"
proof -
  have "outputs_ok upstreams (route_form_of models upstreams route modelKey)"
    using assms(2) initial_outputs_ok
    by (auto simp: outputs_ok_def route_form_of_def allowed_outputs_def initial_outputs_def Let_def)
  moreover have "rf_route (route_form_of models upstreams route modelKey) = route"
    by (simp add: route_form_of_def Let_def split: option.split)
  ultimately have "outputs_ok upstreams f \<and> rf_route f = route"
    using route_edits [OF assms(1)] by simp
  then show ?thesis by (simp add: outputs_ok_def)
qed

definition sample_router :: model_upstream where
  "sample_router = sample_upstream\<lparr>mu_key := js ''router'', mu_adapter := Openrouter\<rparr>"

theorem route_outputs_supported_witness:
  "rf_outputs (toggle_output SummaryOutput (choose_upstream [sample_upstream, sample_router] (js ''router'')
     (route_form_of [sample_model] [sample_upstream, sample_router] None None))) = [RawOutput, SummaryOutput] \<and>
   distinct (rf_outputs (toggle_output SummaryOutput (choose_upstream [sample_upstream, sample_router] (js ''router'')
     (route_form_of [sample_model] [sample_upstream, sample_router] None None))))"
proof -
  let ?us = "[sample_upstream, sample_router]"
  let ?f = "route_form_of [sample_model] ?us None None"
  let ?g = "choose_upstream ?us (mu_key sample_router) ?f"
  have "rf_route ?f = None" "sample_router \<in> set ?us" by code_simp+
  then have "route_edit ?us ?f ?g" by (rule route_edit.upstream_chosen)
  moreover have "SummaryOutput \<in> set (allowed_outputs ?us ?g)" by code_simp
  then have "route_edit ?us ?g (toggle_output SummaryOutput ?g)" by (rule route_edit.output_clicked)
  ultimately have "(route_edit ?us)\<^sup>*\<^sup>* ?f (toggle_output SummaryOutput ?g)"
    by (meson converse_rtranclp_into_rtranclp rtranclp.rtrancl_refl)
  then have "distinct (rf_outputs (toggle_output SummaryOutput ?g))" using route_outputs_supported by blast
  moreover have "mu_key sample_router = js ''router''" by (simp add: sample_router_def)
  moreover have "rf_outputs (toggle_output SummaryOutput ?g) = [RawOutput, SummaryOutput]" by code_simp
  ultimately show ?thesis by simp
qed

end
