(* ===== verification/Composer_Messages.thy ===== *)
theory Composer_Messages
  imports Prelude
begin

text \<open>
  The texts outside ASCII of the composer, the dialogs and the share pages, each as its UTF-16 code
  units with its meaning in English.
\<close>

text \<open>Fast.\<close>

definition level_low_text :: jstr where
  "level_low_text =
     [0x5FEB, 0x901F]"

text \<open>Medium.\<close>

definition level_medium_text :: jstr where
  "level_medium_text =
     [0x4E2D]"

text \<open>High.\<close>

definition level_high_text :: jstr where
  "level_high_text =
     [0x9AD8]"

text \<open>Very high.\<close>

definition level_xhigh_text :: jstr where
  "level_xhigh_text =
     [0x8D85, 0x9AD8]"

text \<open>Extreme.\<close>

definition level_max_text :: jstr where
  "level_max_text =
     [0x6781, 0x81F4]"

text \<open>Send.\<close>

definition send_label :: jstr where
  "send_label =
     [0x53D1, 0x9001]"

text \<open>Sending.\<close>

definition sending_label :: jstr where
  "sending_label =
     [0x53D1, 0x9001, 0x4E2D]"

text \<open>Stopping.\<close>

definition stopping_label :: jstr where
  "stopping_label =
     [0x505C, 0x6B62, 0x4E2D]"

text \<open>Stop the reply.\<close>

definition stop_label :: jstr where
  "stop_label =
     [0x505C, 0x6B62, 0x751F, 0x6210]"

text \<open>Ask anything.\<close>

definition prompt_placeholder :: jstr where
  "prompt_placeholder =
     [0x6709, 0x95EE, 0x9898, 0xFF0C, 0x5C3D, 0x7BA1, 0x95EE]"

text \<open>The shares could not be loaded.\<close>

definition shares_load_failed_text :: jstr where
  "shares_load_failed_text =
     [0x5206, 0x4EAB, 0x5217, 0x8868, 0x52A0, 0x8F7D, 0x5931, 0x8D25]"

text \<open>The link was copied.\<close>

definition copied_text :: jstr where
  "copied_text =
     [0x94FE, 0x63A5, 0x5DF2, 0x590D, 0x5236]"

text \<open>The share was revoked.\<close>

definition share_revoked_text :: jstr where
  "share_revoked_text =
     [0x5DF2, 0x64A4, 0x9500, 0x5206, 0x4EAB]"

text \<open>Revoking failed.\<close>

definition share_revoke_failed_text :: jstr where
  "share_revoke_failed_text =
     [0x64A4, 0x9500, 0x5931, 0x8D25]"

text \<open>The share link could not be loaded.\<close>

definition share_links_load_failed_text :: jstr where
  "share_links_load_failed_text =
     [0x52A0, 0x8F7D, 0x5206, 0x4EAB, 0x94FE, 0x63A5, 0x5931, 0x8D25]"

text \<open>The share link was created.\<close>

definition share_created_text :: jstr where
  "share_created_text =
     [0x5DF2, 0x521B, 0x5EFA, 0x5206, 0x4EAB, 0x94FE, 0x63A5]"

text \<open>New conversation.\<close>

definition untitled_text :: jstr where
  "untitled_text =
     [0x65B0, 0x5BF9, 0x8BDD]"

text \<open>The nickname was changed.\<close>

definition nickname_saved_text :: jstr where
  "nickname_saved_text =
     [0x6635, 0x79F0, 0x5DF2, 0x66F4, 0x65B0]"

text \<open>The verification email was sent.\<close>

definition verification_sent_text :: jstr where
  "verification_sent_text =
     [0x9A8C, 0x8BC1, 0x90AE, 0x4EF6, 0x5DF2, 0x53D1, 0x9001]"

text \<open>The confirmation of the deletion was sent, the account is not deleted yet.\<close>

definition deletion_mail_text :: jstr where
  "deletion_mail_text =
     [0x6CE8, 0x9500, 0x786E, 0x8BA4, 0x90AE, 0x4EF6, 0x5DF2, 0x53D1, 0x9001, 0xFF0C, 0x8BF7,
     0x68C0, 0x67E5, 0x5F53, 0x524D, 0x90AE, 0x7BB1, 0x3002, 0x8D26, 0x53F7, 0x5C1A,
     0x672A, 0x6CE8, 0x9500, 0x3002]"

text \<open>The avatar is being processed.\<close>

definition avatar_processing_text :: jstr where
  "avatar_processing_text =
     [0x6B63, 0x5728, 0x5904, 0x7406, 0x5934, 0x50CF, 0x2026]"

text \<open>The avatar was changed.\<close>

definition avatar_saved_text :: jstr where
  "avatar_saved_text =
     [0x5934, 0x50CF, 0x5DF2, 0x66F4, 0x65B0]"

text \<open>JPEG, PNG and WebP are supported.\<close>

definition avatar_formats_text :: jstr where
  "avatar_formats_text =
     [0x652F, 0x6301, 32, 74, 80, 69, 71, 0x3001, 80, 78, 71, 32, 0x548C, 32, 87, 101, 98, 80]"

text \<open>Upload after verifying the email address.\<close>

definition avatar_unverified_text :: jstr where
  "avatar_unverified_text =
     [0x5B8C, 0x6210, 0x90AE, 0x7BB1, 0x8BA4, 0x8BC1, 0x540E, 0x53EF, 0x4E0A, 0x4F20]"

text \<open>Pasted text.\<close>

definition pasted_text_title :: jstr where
  "pasted_text_title =
     [0x7C98, 0x8D34, 0x7684, 0x6587, 0x672C]"

text \<open>Uploading.\<close>

definition uploading_label :: jstr where
  "uploading_label =
     [0x6B63, 0x5728, 0x4E0A, 0x4F20]"

text \<open>So many lines.\<close>

definition lines_suffix :: jstr where
  "lines_suffix =
     [32, 0x884C]"

text \<open>A dot between two parts.\<close>

definition middle_dot :: jstr where
  "middle_dot =
     [32, 0x00B7, 32]"

text \<open>Unpin.\<close>

definition unpin_label :: jstr where
  "unpin_label =
     [0x53D6, 0x6D88, 0x7F6E, 0x9876]"

text \<open>Pin.\<close>

definition pin_label :: jstr where
  "pin_label =
     [0x7F6E, 0x9876]"

text \<open>Remove from the favourites.\<close>

definition unfavorite_label :: jstr where
  "unfavorite_label =
     [0x53D6, 0x6D88, 0x6536, 0x85CF]"

text \<open>Favourite.\<close>

definition favorite_label :: jstr where
  "favorite_label =
     [0x6536, 0x85CF]"

text \<open>Share.\<close>

definition share_label :: jstr where
  "share_label =
     [0x5206, 0x4EAB]"

text \<open>Rename.\<close>

definition rename_label :: jstr where
  "rename_label =
     [0x91CD, 0x547D, 0x540D]"

text \<open>Delete.\<close>

definition delete_label :: jstr where
  "delete_label =
     [0x5220, 0x9664]"

text \<open>, a reply is being written.\<close>

definition running_suffix :: jstr where
  "running_suffix =
     [0xFF0C, 0x6B63, 0x5728, 0x751F, 0x6210]"

text \<open>, a new reply.\<close>

definition unread_suffix :: jstr where
  "unread_suffix =
     [0xFF0C, 0x6709, 0x65B0, 0x56DE, 0x590D]"

text \<open>Recent conversations.\<close>

definition recent_label :: jstr where
  "recent_label =
     [0x6700, 0x8FD1, 0x804A, 0x5929]"

end
