(* ===== verification/Guarded_Action.thy ===== *)
theory Guarded_Action
  imports Prelude
begin

text \<open>
  The contract of an action behind a busy flag: a handler that makes a request sets the flag, does nothing
  while the flag is set, and clears it when the answer is in. The dialogs of a share, of an account and of
  the composer are written this way.

  \<open>requests\<close> are the requests under way; \<open>begin_action\<close> is the part of the handler before its \<open>await\<close> (it may
  refuse for a reason of its own), \<open>answer\<close> the part after it. A component may keep the flag set after an
  answer, when it is about to disappear.
\<close>

text \<open>What a click or an answer of the network does, in the order they happen.\<close>

datatype ('a, 'r, 'f) guarded_event = Click 'a | Answer 'f 'r

definition guarded_step ::
  "('s \<Rightarrow> 'f list) \<Rightarrow> ('a \<Rightarrow> 's \<Rightarrow> 's) \<Rightarrow> ('f \<Rightarrow> 'r \<Rightarrow> 's \<Rightarrow> 's) \<Rightarrow> ('a, 'r, 'f) guarded_event \<Rightarrow> 's \<Rightarrow> 's"
where
  "guarded_step requests begin_action answer e s =
     (case e of Click a \<Rightarrow> begin_action a s
      | Answer f r \<Rightarrow> if f \<in> set (requests s) then answer f r s else s)"

definition at_most_one :: "('s \<Rightarrow> bool) \<Rightarrow> ('s \<Rightarrow> 'f list) \<Rightarrow> 's \<Rightarrow> bool" where
  "at_most_one busy requests s \<longleftrightarrow>
     length (requests s) \<le> 1 \<and> (requests s \<noteq> [] \<longrightarrow> busy s)"

lemma at_most_one_idle: "requests s = [] \<Longrightarrow> at_most_one busy requests s"
  by (simp add: at_most_one_def)

lemma at_most_one_frame:
  "at_most_one busy requests s \<Longrightarrow> requests s' = requests s \<Longrightarrow> busy s' = busy s \<Longrightarrow>
   at_most_one busy requests s'"
  by (simp add: at_most_one_def)

lemma at_most_one_only:
  "at_most_one busy requests s \<Longrightarrow> f \<in> set (requests s) \<Longrightarrow> requests s = [f]"
  by (cases "requests s") (auto simp: at_most_one_def)

lemma at_most_one_free: "at_most_one busy requests s \<Longrightarrow> \<not> busy s \<Longrightarrow> requests s = []"
  by (auto simp: at_most_one_def)

locale guarded_action =
  fixes busy :: "'s \<Rightarrow> bool"
    and requests :: "'s \<Rightarrow> 'f list"
    and begin_action :: "'a \<Rightarrow> 's \<Rightarrow> 's"
    and answer :: "'f \<Rightarrow> 'r \<Rightarrow> 's \<Rightarrow> 's"
  assumes begin_busy: "busy s \<Longrightarrow> requests (begin_action a s) = requests s \<and> busy (begin_action a s)"
    and begin_free: "\<not> busy s \<Longrightarrow> requests (begin_action a s) = requests s \<or>
      (\<exists>f. requests (begin_action a s) = requests s @ [f]) \<and> busy (begin_action a s)"
    and answer_removes: "f \<in> set (requests s) \<Longrightarrow> requests (answer f r s) = remove1 f (requests s)"
begin

lemma begin_single:
  assumes "at_most_one busy requests s"
  shows "at_most_one busy requests (begin_action a s)"
proof (cases "busy s")
  case True
  show ?thesis using assms begin_busy [OF True, of a] by (simp add: at_most_one_def)
next
  case False
  then have "requests s = []" using assms by (rule at_most_one_free [rotated])
  then show ?thesis using begin_free [OF False, of a] by (auto simp: at_most_one_def)
qed

lemma answer_idle:
  assumes "at_most_one busy requests s" and "f \<in> set (requests s)"
  shows "requests (answer f r s) = []"
  using at_most_one_only [OF assms] answer_removes [OF assms(2), of r] by simp

lemma answer_single:
  "at_most_one busy requests s \<Longrightarrow> f \<in> set (requests s) \<Longrightarrow> at_most_one busy requests (answer f r s)"
  by (simp add: at_most_one_idle answer_idle)

lemma step_single:
  assumes "at_most_one busy requests s"
  shows "at_most_one busy requests (guarded_step requests begin_action answer e s)"
proof (cases e)
  case (Click a)
  then show ?thesis using begin_single [OF assms, of a] by (simp add: guarded_step_def)
next
  case (Answer f r)
  then show ?thesis using assms answer_single [OF assms, of f r] by (simp add: guarded_step_def)
qed

lemma run_single:
  "at_most_one busy requests s \<Longrightarrow>
   at_most_one busy requests (foldl (\<lambda>s e. guarded_step requests begin_action answer e s) s es)"
  by (induction es arbitrary: s) (simp_all add: step_single)

text \<open>A request goes out only when none is under way.\<close>

lemma begin_requests:
  assumes "at_most_one busy requests s" and "requests (begin_action a s) \<noteq> requests s"
  shows "requests s = []"
  using assms begin_busy [of s a] at_most_one_free [of busy requests s] by blast

end

end
