(* ===== verification/Composer_View.thy ===== *)
theory Composer_View
  imports App_Shell Composer_Messages Guarded_Action Complex_Main
begin

text \<open>
  The composer (\<open>frontend/src/ui/Composer.tsx\<close>): its menus, its send button, the three ways files reach it,
  the dialogs about images, dragging, and the expansion of its prompt.

  A handler takes the properties of the render it belongs to and the state of the component, and returns
  the new state with the calls it makes of its properties, in order. What the browser measures is an
  argument; lengths in pixels are rational.
\<close>

section \<open>Definitions\<close>

subsection \<open>Properties and state\<close>

record composer_props =
  co_value :: jstr
  co_state :: composer_mode
  co_thinkingLevel :: thinking_level
  co_webSearchEnabled :: bool
  co_webSearchAvailable :: bool
  co_models :: "chat_model_capability list"
  co_model :: "jstr option"
  co_imageContext :: "image_context option"
  co_canRemoveImages :: bool
  co_filesEnabled :: bool
  co_fileUploadAllowed :: bool
  co_attachments :: "draft_attachment list"
  co_canSend :: "bool option"
  co_readOnly :: bool
  co_isMobile :: bool
  co_offersPaste :: bool
  co_charLimit :: "nat option"

datatype picker_submenu = ModelSubmenu | LevelSubmenu

record composer_ui =
  cu_toolsOpen :: bool
  cu_dragActive :: bool
  cu_dragDepth :: nat
  cu_promptExpanded :: bool
  cu_compactWidth :: "rat option"
  cu_toolsPosition :: "rat \<times> rat \<times> rat"
  cu_pickerOpen :: bool
  cu_openSubmenu :: "picker_submenu option"
  cu_flyoutRight :: bool
  cu_levelInline :: bool
  cu_blockedFiles :: "source_file list option"
  cu_pendingModelId :: "jstr option"
  cu_removingImages :: bool
  cu_removals :: "jstr list"
  cu_plainPaste :: bool

text \<open>\<open>cu_removals\<close> holds, for each removal of the images that is under way, the model to switch to.\<close>

definition initial_composer :: composer_ui where
  "initial_composer =
     \<lparr>cu_toolsOpen = False, cu_dragActive = False, cu_dragDepth = 0, cu_promptExpanded = False,
      cu_compactWidth = None, cu_toolsPosition = (12, 0, 300), cu_pickerOpen = False, cu_openSubmenu = None,
      cu_flyoutRight = True, cu_levelInline = False, cu_blockedFiles = None, cu_pendingModelId = None,
      cu_removingImages = False, cu_removals = [], cu_plainPaste = False\<rparr>"

datatype composer_call =
    CallChange jstr
  | CallSend
  | CallStop
  | CallSelectFiles "source_file list"
  | CallModel jstr
  | CallLevel thinking_level
  | CallWebSearch bool
  | CallRemoveImages
  | CallPasteText jstr
  | CallConvert

type_synonym composer_result = "composer_ui \<times> composer_call list"

subsection \<open>Derived values\<close>

definition composer_model :: "composer_props \<Rightarrow> chat_model_capability option" where
  "composer_model p = List.find (\<lambda>entry. Some (cm_id entry) = co_model p) (co_models p)"

definition attachment_category :: "draft_attachment \<Rightarrow> jstr" where
  "attachment_category a = (case da_file a of Some f \<Rightarrow> fa_category f | None \<Rightarrow> da_category a)"

definition hasImageAttachments :: "composer_props \<Rightarrow> bool" where
  "hasImageAttachments p \<longleftrightarrow> list_ex (\<lambda>a. attachment_category a = js ''image'') (co_attachments p)"

definition hasNonImageAttachments :: "composer_props \<Rightarrow> bool" where
  "hasNonImageAttachments p \<longleftrightarrow> list_ex (\<lambda>a. attachment_category a \<noteq> js ''image'') (co_attachments p)"

datatype image_layout = SingleImage | MixedImages | ImageCollection

definition imageLayout :: "composer_props \<Rightarrow> draft_attachment \<Rightarrow> image_layout" where
  "imageLayout p a =
     (if length (co_attachments p) = 1 \<and> attachment_category a = js ''image'' then SingleImage
      else if hasImageAttachments p \<and> hasNonImageAttachments p \<and> attachment_category a = js ''image''
      then MixedImages else ImageCollection)"

definition level_label :: "thinking_level \<Rightarrow> jstr" where
  "level_label l =
     (case l of Low \<Rightarrow> level_low_text | Medium \<Rightarrow> level_medium_text | High \<Rightarrow> level_high_text
      | Xhigh \<Rightarrow> level_xhigh_text | Max \<Rightarrow> level_max_text)"

definition allowedLevels :: "composer_props \<Rightarrow> jstr list" where
  "allowedLevels p =
     (case composer_model p of None \<Rightarrow> map level_string thinking_levels | Some m \<Rightarrow> cm_thinking_levels m)"

definition effectiveLevel :: "composer_props \<Rightarrow> thinking_level" where
  "effectiveLevel p = clampThinkingLevel (co_thinkingLevel p) (allowedLevels p)"

definition levelOptions :: "composer_props \<Rightarrow> thinking_level list" where
  "levelOptions p = filter (\<lambda>l. level_string l \<in> set (allowedLevels p)) thinking_levels"

definition pickerLabel :: "composer_props \<Rightarrow> jstr" where
  "pickerLabel p =
     (let levelLabel = level_label (effectiveLevel p);
          modelLabel = map_option cm_label (composer_model p);
          labels = (if co_isMobile p \<and> levelOptions p \<noteq> [] then [Some levelLabel]
                    else [modelLabel, if levelOptions p \<noteq> [] then Some levelLabel else None])
      in join (js '' '') (List.map_filter (\<lambda>l. if truthy l then l else None) labels))"

definition canDropFiles :: "composer_props \<Rightarrow> bool" where
  "canDropFiles p \<longleftrightarrow> co_filesEnabled p \<and> co_fileUploadAllowed p \<and> \<not> co_readOnly p"

definition canSubmit :: "composer_props \<Rightarrow> bool" where
  "canSubmit p \<longleftrightarrow> \<not> co_readOnly p \<and> nullish (co_canSend p) (js_trim (co_value p) \<noteq> [])"

definition promptChars :: "composer_props \<Rightarrow> nat" where
  "promptChars p = (case co_charLimit p of None \<Rightarrow> 0 | Some _ \<Rightarrow> countChars (co_value p))"

text \<open>\<open>COUNTER_VISIBLE_RATIO\<close> is 0.8.\<close>

definition showCounter :: "composer_props \<Rightarrow> bool" where
  "showCounter p \<longleftrightarrow> (case co_charLimit p of None \<Rightarrow> False | Some limit \<Rightarrow> 8 * limit \<le> 10 * promptChars p)"

definition overLimit :: "composer_props \<Rightarrow> bool" where
  "overLimit p \<longleftrightarrow> (case co_charLimit p of None \<Rightarrow> False | Some limit \<Rightarrow> limit < promptChars p)"

definition counter_text :: "composer_props \<Rightarrow> jstr" where
  "counter_text p =
     (case co_charLimit p of None \<Rightarrow> []
      | Some limit \<Rightarrow> formatCount (promptChars p) @
          (if co_isMobile p then [] else js '' / '' @ formatCount limit))"

text \<open>The primary button: its name, whether it is disabled, and what a click calls.\<close>

definition primary_button :: "composer_props \<Rightarrow> jstr \<times> bool \<times> composer_call list" where
  "primary_button p =
     (case co_state p of
        ComposerIdle \<Rightarrow> (send_label, \<not> canSubmit p, if canSubmit p then [CallSend] else [])
      | ComposerSubmitting \<Rightarrow> (sending_label, True, [])
      | ComposerStreaming \<Rightarrow> (stop_label, False, [CallStop])
      | ComposerStopping \<Rightarrow> (stopping_label, True, []))"

text \<open>An entry of the model list.\<close>

definition model_disabled :: "composer_props \<Rightarrow> chat_model_capability \<Rightarrow> bool" where
  "model_disabled p entry \<longleftrightarrow>
     (case co_imageContext p of None \<Rightarrow> False
      | Some c \<Rightarrow> ic_state c = VisionRequired \<and> \<not> cm_supports_image_input entry \<or>
          ic_state c = LegacyUpgradeRequired \<and> cm_supports_image_input entry)"

subsection \<open>Sending\<close>

definition composer_send :: "composer_props \<Rightarrow> composer_ui \<Rightarrow> composer_result" where
  "composer_send p u = (u, if \<not> canSubmit p \<or> co_state p \<noteq> ComposerIdle then [] else [CallSend])"

record key_press =
  kp_key :: jstr
  kp_shift :: bool
  kp_meta :: bool
  kp_ctrl :: bool
  kp_isComposing :: bool

definition prompt_key_down ::
  "(jstr \<Rightarrow> jstr) \<Rightarrow> composer_props \<Rightarrow> key_press \<Rightarrow> composer_ui \<Rightarrow> composer_result" where
  "prompt_key_down lower p k u =
     (let u1 = u\<lparr>cu_plainPaste := kp_shift k \<and> (kp_meta k \<or> kp_ctrl k) \<and> lower (kp_key k) = js ''v''\<rparr>
      in if kp_key k = js ''Enter'' \<and> \<not> kp_shift k \<and> \<not> kp_isComposing k then composer_send p u1 else (u1, []))"

definition prompt_change :: "composer_props \<Rightarrow> jstr \<Rightarrow> composer_ui \<Rightarrow> composer_result" where
  "prompt_change p value u = (u, if co_readOnly p then [] else [CallChange value])"

subsection \<open>Files\<close>

definition handleSelectFiles ::
  "(jstr \<Rightarrow> jstr) \<Rightarrow> composer_props \<Rightarrow> source_file list \<Rightarrow> composer_ui \<Rightarrow> composer_result" where
  "handleSelectFiles lower p files u =
     (if co_readOnly p then (u, [])
      else if list_ex (\<lambda>f. categoryForFileName lower (sf_name f) = js ''image'') files \<and>
          \<not> (case composer_model p of None \<Rightarrow> False | Some m \<Rightarrow> cm_supports_image_input m)
      then (u\<lparr>cu_blockedFiles := Some files\<rparr>, [])
      else (u, [CallSelectFiles files]))"

text \<open>An item of the clipboard: its kind, its media type and the file behind it.\<close>

type_synonym clip_item = "jstr \<times> jstr \<times> source_file option"

definition pasted_images :: "clip_item list \<Rightarrow> source_file list" where
  "pasted_images items =
     List.map_filter (\<lambda>(kind, type, file). if kind = js ''file'' \<and> starts_with (js ''image/'') type then file else None)
       items"

definition handlePromptPaste ::
  "(jstr \<Rightarrow> jstr) \<Rightarrow> composer_props \<Rightarrow> clip_item list \<Rightarrow> jstr \<Rightarrow> composer_ui \<Rightarrow> composer_result" where
  "handlePromptPaste lower p items text u =
     (if co_readOnly p then (u, [])
      else
        let plainPaste = cu_plainPaste u; u1 = u\<lparr>cu_plainPaste := False\<rparr>; images = pasted_images items
        in if canDropFiles p \<and> images \<noteq> [] then handleSelectFiles lower p images u1
           else if \<not> co_offersPaste p \<or> plainPaste then (u1, [])
           else (u1, if text \<noteq> [] then [CallPasteText text] else []))"

text \<open>The input element of the file chooser is enabled under this condition.\<close>

definition files_chosen ::
  "(jstr \<Rightarrow> jstr) \<Rightarrow> composer_props \<Rightarrow> source_file list \<Rightarrow> composer_ui \<Rightarrow> composer_result" where
  "files_chosen lower p files u =
     (if canDropFiles p then handleSelectFiles lower p files u else (u, []))"

definition close_blocked :: "composer_ui \<Rightarrow> composer_ui" where
  "close_blocked u = u\<lparr>cu_blockedFiles := None\<rparr>"

subsection \<open>Dragging\<close>

definition resetDrag :: "composer_ui \<Rightarrow> composer_ui" where
  "resetDrag u = u\<lparr>cu_dragDepth := 0, cu_dragActive := False\<rparr>"

text \<open>The listeners are there while files can be dropped; the effect resets the state when they go.\<close>

definition drag_effect :: "composer_props \<Rightarrow> composer_ui \<Rightarrow> composer_ui" where
  "drag_effect p u = (if \<not> canDropFiles p then resetDrag u else u)"

definition onDragEnter :: "composer_props \<Rightarrow> jstr list \<Rightarrow> composer_ui \<Rightarrow> composer_ui" where
  "onDragEnter p types u =
     (if \<not> canDropFiles p \<or> js ''Files'' \<notin> set types then u
      else u\<lparr>cu_dragDepth := Suc (cu_dragDepth u), cu_dragActive := True\<rparr>)"

definition onDragLeave :: "composer_props \<Rightarrow> jstr list \<Rightarrow> bool \<Rightarrow> composer_ui \<Rightarrow> composer_ui" where
  "onDragLeave p types leftWindow u =
     (if \<not> canDropFiles p \<or> js ''Files'' \<notin> set types then u
      else
        let u1 = u\<lparr>cu_dragDepth := cu_dragDepth u - 1\<rparr>
        in if cu_dragDepth u1 = 0 \<or> leftWindow then resetDrag u1 else u1)"

definition onDrop ::
  "(jstr \<Rightarrow> jstr) \<Rightarrow> composer_props \<Rightarrow> jstr list \<Rightarrow> source_file list \<Rightarrow> composer_ui \<Rightarrow> composer_result" where
  "onDrop lower p types files u =
     (if \<not> canDropFiles p \<or> js ''Files'' \<notin> set types then (u, [])
      else if length files > 0 then handleSelectFiles lower p files (resetDrag u)
      else (resetDrag u, []))"

subsection \<open>Menus\<close>

definition togglePicker :: "composer_ui \<Rightarrow> composer_ui" where
  "togglePicker u = u\<lparr>cu_toolsOpen := False, cu_openSubmenu := None, cu_pickerOpen := \<not> cu_pickerOpen u\<rparr>"

text \<open>The rectangle of the composer (left, top, bottom, width) and the size of the window.\<close>

record composer_rect =
  bx_left :: rat
  bx_top :: rat
  bx_bottom :: rat
  bx_width :: rat

definition tools_menu_height :: rat where "tools_menu_height = 86"

definition tools_position :: "composer_rect \<Rightarrow> rat \<Rightarrow> rat \<Rightarrow> rat \<times> rat \<times> rat" where
  "tools_position box innerWidth innerHeight =
     (let spaceAbove = bx_top box;
          spaceBelow = innerHeight - bx_bottom box;
          opensBelow = (spaceBelow \<ge> tools_menu_height \<or> spaceBelow \<ge> spaceAbove);
          menuWidth = min (if bx_width box \<noteq> 0 then bx_width box else 768) (innerWidth - 12)
      in (max 6 (min (bx_left box) (innerWidth - menuWidth - 6)),
          if opensBelow then bx_bottom box + 8 else max 8 (bx_top box - tools_menu_height - 8),
          menuWidth))"

definition toggleTools :: "(composer_rect \<times> rat \<times> rat) option \<Rightarrow> composer_ui \<Rightarrow> composer_ui" where
  "toggleTools layout u =
     u\<lparr>cu_pickerOpen := False,
       cu_toolsPosition := (case layout of
           Some (box, innerWidth, innerHeight) \<Rightarrow>
             if \<not> cu_toolsOpen u then tools_position box innerWidth innerHeight else cu_toolsPosition u
         | None \<Rightarrow> cu_toolsPosition u),
       cu_toolsOpen := \<not> cu_toolsOpen u\<rparr>"

text \<open>Outside clicks and Escape; the file entry of the menu closes it too.\<close>

definition close_tools :: "composer_ui \<Rightarrow> composer_ui" where
  "close_tools u = u\<lparr>cu_toolsOpen := False\<rparr>"

definition close_picker :: "composer_ui \<Rightarrow> composer_ui" where
  "close_picker u = u\<lparr>cu_pickerOpen := False\<rparr>"

definition toggleSubmenu :: "picker_submenu \<Rightarrow> rat \<Rightarrow> rat option \<Rightarrow> composer_ui \<Rightarrow> composer_ui" where
  "toggleSubmenu menu viewportWidth anchorRight u =
     (let u1 = (if menu = LevelSubmenu
                then u\<lparr>cu_levelInline := viewportWidth \<le> 760,
                       cu_flyoutRight := (case anchorRight of None \<Rightarrow> False | Some r \<Rightarrow> viewportWidth - r \<ge> 200)\<rparr>
                else u)
      in u1\<lparr>cu_openSubmenu := (if cu_openSubmenu u = Some menu then None else Some menu)\<rparr>)"

definition pick_level :: "thinking_level \<Rightarrow> composer_ui \<Rightarrow> composer_result" where
  "pick_level l u = (u\<lparr>cu_openSubmenu := None\<rparr>, [CallLevel l])"

definition pick_web_search :: "composer_props \<Rightarrow> composer_ui \<Rightarrow> composer_result" where
  "pick_web_search p u =
     (u, if co_webSearchAvailable p then [CallWebSearch (\<not> co_webSearchEnabled p)] else [])"

definition pick_composer_model :: "composer_props \<Rightarrow> chat_model_capability \<Rightarrow> composer_ui \<Rightarrow> composer_result" where
  "pick_composer_model p entry u =
     (if hasImageAttachments p \<and> \<not> cm_supports_image_input entry
      then (u\<lparr>cu_pendingModelId := Some (cm_id entry)\<rparr>, [])
      else (u\<lparr>cu_openSubmenu := None\<rparr>, [CallModel (cm_id entry)]))"

subsection \<open>Switching away from images\<close>

definition keep_model :: "composer_ui \<Rightarrow> composer_ui" where
  "keep_model u = u\<lparr>cu_pendingModelId := None\<rparr>"

definition remove_and_switch :: "composer_props \<Rightarrow> composer_ui \<Rightarrow> composer_result" where
  "remove_and_switch p u =
     (case cu_pendingModelId u of
        None \<Rightarrow> (u, [])
      | Some target \<Rightarrow>
          if target = [] \<or> \<not> co_canRemoveImages p \<or> cu_removingImages u then (u, [])
          else (u\<lparr>cu_removingImages := True, cu_removals := cu_removals u @ [target]\<rparr>, [CallRemoveImages]))"

definition images_removed :: "jstr \<Rightarrow> composer_ui \<Rightarrow> composer_result" where
  "images_removed target u =
     (u\<lparr>cu_pendingModelId := None, cu_removingImages := False, cu_removals := remove1 target (cu_removals u)\<rparr>,
      [CallModel target])"

definition images_kept :: "jstr \<Rightarrow> composer_ui \<Rightarrow> composer_result" where
  "images_kept target u =
     (u\<lparr>cu_removingImages := False, cu_removals := remove1 target (cu_removals u)\<rparr>, [])"

subsection \<open>The height of the prompt\<close>

definition promptWrapsPastOneLine :: "rat option \<Rightarrow> rat \<Rightarrow> rat \<Rightarrow> bool" where
  "promptWrapsPastOneLine lineHeight padding scrollHeight \<longleftrightarrow>
     (let line = nullish lineHeight 25 in scrollHeight > padding + line * (3 / 2))"

text \<open>
  \<open>wraps\<close> tells whether the text wraps in a column of a given width, \<open>None\<close> the present one, whose width
  is \<open>clientWidth\<close>.
\<close>

definition prompt_effect :: "(rat option \<Rightarrow> bool) \<Rightarrow> rat \<Rightarrow> jstr \<Rightarrow> composer_ui \<Rightarrow> composer_ui" where
  "prompt_effect wraps clientWidth value u =
     (if value = [] then u\<lparr>cu_promptExpanded := False\<rparr>
      else if \<not> cu_promptExpanded u
      then u\<lparr>cu_compactWidth := Some clientWidth, cu_promptExpanded := wraps None\<rparr>
      else (case cu_compactWidth u of
              Some w \<Rightarrow> u\<lparr>cu_promptExpanded := wraps (Some w)\<rparr>
            | None \<Rightarrow> u\<lparr>cu_promptExpanded := True\<rparr>))"

section \<open>Runs of the composer\<close>

text \<open>
  One step with the properties of the current render and the calls made. The entries that a menu or a
  dialog does not offer, or offers as disabled, get no click.
\<close>

inductive composer_move ::
  "(jstr \<Rightarrow> jstr) \<Rightarrow> composer_ui \<Rightarrow> composer_props \<times> composer_call list \<Rightarrow> composer_ui \<Rightarrow> bool" for lower where
  key: "prompt_key_down lower p k u = (u', cs) \<Longrightarrow> composer_move lower u (p, cs) u'"
| typed: "prompt_change p value u = (u', cs) \<Longrightarrow> composer_move lower u (p, cs) u'"
| primary: "composer_move lower u (p, snd (snd (primary_button p))) u"
| pasted: "handlePromptPaste lower p items text u = (u', cs) \<Longrightarrow> composer_move lower u (p, cs) u'"
| chosen: "files_chosen lower p files u = (u', cs) \<Longrightarrow> composer_move lower u (p, cs) u'"
| dropped: "onDrop lower p types files u = (u', cs) \<Longrightarrow> composer_move lower u (p, cs) u'"
| entered: "composer_move lower u (p, []) (onDragEnter p types u)"
| left: "composer_move lower u (p, []) (onDragLeave p types leftWindow u)"
| blurred: "composer_move lower u (p, []) (if canDropFiles p then resetDrag u else u)"
| rendered: "composer_move lower u (p, []) (prompt_effect wraps clientWidth (co_value p) (drag_effect p u))"
| picker: "composer_move lower u (p, []) (togglePicker u)"
| tools: "composer_move lower u (p, []) (toggleTools layout u)"
| tools_closed: "composer_move lower u (p, []) (close_tools u)"
| picker_closed: "composer_move lower u (p, []) (close_picker u)"
| submenu: "composer_move lower u (p, []) (toggleSubmenu menu viewportWidth anchorRight u)"
| level: "l \<in> set (levelOptions p) \<Longrightarrow> pick_level l u = (u', cs) \<Longrightarrow> composer_move lower u (p, cs) u'"
| web_search: "pick_web_search p u = (u', cs) \<Longrightarrow> composer_move lower u (p, cs) u'"
| model: "entry \<in> set (co_models p) \<Longrightarrow> \<not> model_disabled p entry \<Longrightarrow> pick_composer_model p entry u = (u', cs) \<Longrightarrow>
    composer_move lower u (p, cs) u'"
| kept: "composer_move lower u (p, []) (keep_model u)"
| acknowledged: "composer_move lower u (p, []) (close_blocked u)"
| removal: "remove_and_switch p u = (u', cs) \<Longrightarrow> composer_move lower u (p, cs) u'"
| removed: "target \<in> set (cu_removals u) \<Longrightarrow> images_removed target u = (u', cs) \<Longrightarrow> composer_move lower u (p, cs) u'"
| not_removed: "target \<in> set (cu_removals u) \<Longrightarrow> images_kept target u = (u', cs) \<Longrightarrow> composer_move lower u (p, cs) u'"
| converted: "overLimit p \<Longrightarrow> composer_move lower u (p, [CallConvert]) u"

inductive composer_run ::
  "(jstr \<Rightarrow> jstr) \<Rightarrow> (composer_props \<times> composer_call list) list \<Rightarrow> composer_ui \<Rightarrow> bool" for lower where
  mounted: "composer_run lower [] initial_composer"
| continued: "composer_run lower tr u \<Longrightarrow> composer_move lower u e u' \<Longrightarrow> composer_run lower (tr @ [e]) u'"

text \<open>The question about images: at most one removal is under way, however often the button is clicked.\<close>

interpretation image_removal: guarded_action cu_removingImages cu_removals "\<lambda>p u. fst (remove_and_switch p u)"
  "\<lambda>target ok u. fst (if ok then images_removed target u else images_kept target u)"
  by unfold_locales
    (auto simp: remove_and_switch_def images_removed_def images_kept_def split: option.splits)

section \<open>What the composer may call\<close>

definition images_allowed :: "(jstr \<Rightarrow> jstr) \<Rightarrow> composer_props \<Rightarrow> source_file list \<Rightarrow> bool" where
  "images_allowed lower p files \<longleftrightarrow>
     (\<forall>f \<in> set files. categoryForFileName lower (sf_name f) \<noteq> js ''image'') \<or>
     (\<exists>m. composer_model p = Some m \<and> cm_supports_image_input m)"

definition model_fits :: "composer_props \<Rightarrow> jstr \<Rightarrow> bool" where
  "model_fits p i \<longleftrightarrow> (\<exists>entry \<in> set (co_models p). cm_id entry = i \<and> \<not> model_disabled p entry \<and>
     (hasImageAttachments p \<longrightarrow> cm_supports_image_input entry))"

definition removal_asked :: "(composer_props \<times> composer_call list) list \<Rightarrow> bool" where
  "removal_asked tr \<longleftrightarrow> (\<exists>p cs. (p, cs) \<in> set tr \<and> CallRemoveImages \<in> set cs)"

text \<open>The condition of each call, given the run so far.\<close>

fun call_ok ::
  "(jstr \<Rightarrow> jstr) \<Rightarrow> (composer_props \<times> composer_call list) list \<Rightarrow> composer_props \<Rightarrow> composer_call \<Rightarrow> bool" where
  "call_ok lower tr p (CallChange v) = (\<not> co_readOnly p)"
| "call_ok lower tr p CallSend = (canSubmit p \<and> co_state p = ComposerIdle)"
| "call_ok lower tr p CallStop = (co_state p = ComposerStreaming)"
| "call_ok lower tr p (CallSelectFiles files) = (\<not> co_readOnly p \<and> images_allowed lower p files)"
| "call_ok lower tr p (CallModel i) = (model_fits p i \<or> removal_asked tr)"
| "call_ok lower tr p (CallLevel l) = (level_string l \<in> set (allowedLevels p))"
| "call_ok lower tr p (CallWebSearch b) = (co_webSearchAvailable p \<and> b = (\<not> co_webSearchEnabled p))"
| "call_ok lower tr p CallRemoveImages = co_canRemoveImages p"
| "call_ok lower tr p (CallPasteText text) = (\<not> co_readOnly p \<and> co_offersPaste p \<and> text \<noteq> [])"
| "call_ok lower tr p CallConvert = overLimit p"

definition calls_ok ::
  "(jstr \<Rightarrow> jstr) \<Rightarrow> (composer_props \<times> composer_call list) list \<Rightarrow> composer_props \<times> composer_call list \<Rightarrow> bool" where
  "calls_ok lower tr e \<longleftrightarrow> (\<forall>c \<in> set (snd e). call_ok lower tr (fst e) c)"

lemma calls_okI: "(\<And>c. c \<in> set cs \<Longrightarrow> call_ok lower tr p c) \<Longrightarrow> calls_ok lower tr (p, cs)"
  by (simp add: calls_ok_def)

lemma calls_ok_Nil [simp]: "calls_ok lower tr (p, [])"
  by (simp add: calls_ok_def)

lemma handleSelectFiles_ok:
  assumes "handleSelectFiles lower p files u = (u', cs)"
  shows "calls_ok lower tr (p, cs)"
    "cu_removals u' = cu_removals u" "cu_toolsOpen u' = cu_toolsOpen u" "cu_pickerOpen u' = cu_pickerOpen u"
    "cu_dragActive u' = cu_dragActive u" "cu_dragDepth u' = cu_dragDepth u"
  using assms by (auto simp: handleSelectFiles_def calls_ok_def images_allowed_def list_ex_iff
      split: if_splits option.splits)

lemma handlePromptPaste_ok:
  assumes "handlePromptPaste lower p items text u = (u', cs)"
  shows "calls_ok lower tr (p, cs)"
    "cu_removals u' = cu_removals u" "cu_toolsOpen u' = cu_toolsOpen u" "cu_pickerOpen u' = cu_pickerOpen u"
    "cu_dragActive u' = cu_dragActive u" "cu_dragDepth u' = cu_dragDepth u"
proof -
  let ?u1 = "u\<lparr>cu_plainPaste := False\<rparr>"
  consider (images) "handleSelectFiles lower p (pasted_images items) (u\<lparr>cu_plainPaste := False\<rparr>) = (u', cs)"
    | (plain) "\<not> co_readOnly p" "co_offersPaste p" "u' = u\<lparr>cu_plainPaste := False\<rparr>"
        "cs = (if text \<noteq> [] then [CallPasteText text] else [])"
    | (none) "cs = []" "u' = u \<or> u' = u\<lparr>cu_plainPaste := False\<rparr>"
  proof (cases "co_readOnly p")
    case True
    then have "(u, []) = (u', cs)" using assms by (simp add: handlePromptPaste_def)
    then show ?thesis by (intro none) simp_all
  next
    case writable: False
    show ?thesis
    proof (cases "canDropFiles p \<and> pasted_images items \<noteq> []")
      case True
      then show ?thesis using assms writable by (intro images) (simp add: handlePromptPaste_def Let_def)
    next
      case False
      then have rest: "(if \<not> co_offersPaste p \<or> cu_plainPaste u then (?u1, [])
          else (?u1, if text \<noteq> [] then [CallPasteText text] else [])) = (u', cs)"
        using assms writable unfolding handlePromptPaste_def Let_def by (simp only: if_False)
      show ?thesis
      proof (cases "\<not> co_offersPaste p \<or> cu_plainPaste u")
        case True
        then have "(?u1, []) = (u', cs)" using rest by (simp only: if_True)
        then show ?thesis by (intro none) simp_all
      next
        case False
        then have "(?u1, if text \<noteq> [] then [CallPasteText text] else []) = (u', cs)"
          using rest by (simp only: if_False)
        then show ?thesis using False writable by (intro plain) auto
      qed
    qed
  qed
  then have "calls_ok lower tr (p, cs) \<and> cu_removals u' = cu_removals u \<and> cu_toolsOpen u' = cu_toolsOpen u \<and>
      cu_pickerOpen u' = cu_pickerOpen u \<and> cu_dragActive u' = cu_dragActive u \<and> cu_dragDepth u' = cu_dragDepth u"
  proof cases
    case images
    from handleSelectFiles_ok [OF this] show ?thesis by simp
  next
    case plain
    then show ?thesis by (auto simp: calls_ok_def)
  next
    case none
    then show ?thesis by auto
  qed
  then show "calls_ok lower tr (p, cs)"
    "cu_removals u' = cu_removals u" "cu_toolsOpen u' = cu_toolsOpen u" "cu_pickerOpen u' = cu_pickerOpen u"
    "cu_dragActive u' = cu_dragActive u" "cu_dragDepth u' = cu_dragDepth u" by simp_all
qed

lemma composer_send_ok: "composer_send p u = (u', cs) \<Longrightarrow> u' = u \<and> calls_ok lower tr (p, cs)"
  by (auto simp: composer_send_def calls_ok_def split: if_splits)

lemma primary_button_ok: "calls_ok lower tr (p, snd (snd (primary_button p)))"
  by (cases "co_state p") (auto simp: primary_button_def calls_ok_def)

text \<open>The menus exclude each other, the overlay is there while something is dragged, and a removal under way was asked for.\<close>

definition composer_inv :: "(composer_props \<times> composer_call list) list \<Rightarrow> composer_ui \<Rightarrow> bool" where
  "composer_inv tr u \<longleftrightarrow> \<not> (cu_toolsOpen u \<and> cu_pickerOpen u) \<and> (cu_dragActive u \<longleftrightarrow> 0 < cu_dragDepth u) \<and>
     (cu_removals u \<noteq> [] \<longrightarrow> removal_asked tr)"

lemma removal_asked_append [simp]:
  "removal_asked (tr @ [(p, cs)]) \<longleftrightarrow> removal_asked tr \<or> CallRemoveImages \<in> set cs"
  by (auto simp: removal_asked_def)

lemma prompt_effect_simps [simp]:
  "cu_toolsOpen (prompt_effect wraps w v u) = cu_toolsOpen u" "cu_pickerOpen (prompt_effect wraps w v u) = cu_pickerOpen u"
  "cu_dragActive (prompt_effect wraps w v u) = cu_dragActive u" "cu_dragDepth (prompt_effect wraps w v u) = cu_dragDepth u"
  "cu_removals (prompt_effect wraps w v u) = cu_removals u"
  by (simp_all add: prompt_effect_def split: option.split)

lemma composer_inv_same:
  assumes "composer_inv tr u" "cu_removals u' = cu_removals u" "cu_toolsOpen u' = cu_toolsOpen u"
    "cu_pickerOpen u' = cu_pickerOpen u" "cu_dragActive u' = cu_dragActive u" "cu_dragDepth u' = cu_dragDepth u"
  shows "composer_inv (tr @ [(p, cs)]) u'"
  using assms by (auto simp: composer_inv_def)

lemma composer_move_ok:
  assumes "composer_move lower u e u'" "composer_inv tr u"
  shows "calls_ok lower tr e \<and> composer_inv (tr @ [e]) u'"
  using assms
proof (induction rule: composer_move.induct)
  case (key p k u u' cs)
  let ?u1 = "u\<lparr>cu_plainPaste := kp_shift k \<and> (kp_meta k \<or> kp_ctrl k) \<and> lower (kp_key k) = js ''v''\<rparr>"
  have "composer_send p ?u1 = (u', cs) \<or> (?u1, []) = (u', cs)"
    using key.hyps by (simp add: prompt_key_down_def Let_def split: if_splits)
  then have "u' = ?u1 \<and> calls_ok lower tr (p, cs)" using composer_send_ok by fastforce
  then show ?case using composer_inv_same [OF key.prems, of u'] by simp
next
  case (pasted p items s u u' cs)
  then show ?case using handlePromptPaste_ok [OF pasted.hyps] composer_inv_same by blast
next
  case (chosen p files u u' cs)
  then show ?case
    using handleSelectFiles_ok [of lower p files u u' cs] composer_inv_same [OF chosen.prems]
    by (auto simp: files_chosen_def split: if_splits)
next
  case (dropped p types files u u' cs)
  have reset: "composer_inv tr (resetDrag u)" using dropped.prems by (simp add: composer_inv_def resetDrag_def)
  have "handleSelectFiles lower p files (resetDrag u) = (u', cs) \<or> (resetDrag u, []) = (u', cs) \<or> (u, []) = (u', cs)"
    using dropped.hyps unfolding onDrop_def by (metis (full_types))
  then show ?case
  proof (elim disjE)
    assume "handleSelectFiles lower p files (resetDrag u) = (u', cs)"
    from handleSelectFiles_ok [OF this] show ?thesis using composer_inv_same [OF reset] by blast
  next
    assume "(resetDrag u, []) = (u', cs)"
    then show ?thesis using composer_inv_same [OF reset, of u' p cs] by (elim Pair_inject) simp
  next
    assume "(u, []) = (u', cs)"
    then show ?thesis using composer_inv_same [OF dropped.prems, of u' p cs] by (elim Pair_inject) simp
  qed
next
  case (model entry p u u' cs)
  then show ?case
    by (auto simp: pick_composer_model_def composer_inv_def calls_ok_def model_fits_def split: if_splits)
next
  case (removal p u u' cs)
  then show ?case
    by (auto simp: remove_and_switch_def composer_inv_def calls_ok_def split: option.splits if_splits)
next
  case (removed target u u' cs p)
  then show ?case
    by (auto simp: images_removed_def composer_inv_def calls_ok_def)
next
  case (not_removed target u u' cs p)
  then show ?case by (auto simp: images_kept_def composer_inv_def)
next
  case (primary u p)
  then show ?case using primary_button_ok composer_inv_same by blast
next
  case (left u p types leftWindow)
  then show ?case by (auto simp: onDragLeave_def resetDrag_def composer_inv_def Let_def)
qed (auto simp: composer_inv_def calls_ok_def prompt_change_def onDragEnter_def resetDrag_def drag_effect_def
    togglePicker_def toggleTools_def close_tools_def close_picker_def toggleSubmenu_def pick_level_def
    pick_web_search_def keep_model_def close_blocked_def levelOptions_def Let_def split: if_splits)

lemma composer_run_inv: "composer_run lower tr u \<Longrightarrow> composer_inv tr u"
  by (induction rule: composer_run.induct)
    (auto simp: composer_inv_def initial_composer_def dest: composer_move_ok)

lemma composer_run_calls:
  assumes "composer_run lower tr u" "k < length tr"
  shows "calls_ok lower (take k tr) (tr ! k)"
  using assms
proof (induction arbitrary: k rule: composer_run.induct)
  case mounted
  then show ?case by simp
next
  case (continued tr u e u')
  show ?case
  proof (cases "k < length tr")
    case True
    then show ?thesis using continued.IH by (simp add: nth_append)
  next
    case False
    then have "k = length tr" using continued.prems by simp
    then show ?thesis using composer_move_ok [OF continued.hyps(2) composer_run_inv [OF continued.hyps(1)]] by simp
  qed
qed


text \<open>A run: an image is dropped while the selected model reads images.\<close>

definition sample_vision :: chat_model_capability where
  "sample_vision = \<lparr>cm_id = js ''v'', cm_provider = js ''p'', cm_label = js ''V'', cm_thinking_levels = [js ''high''],
     cm_default = True, cm_supports_image_input = True\<rparr>"

definition sample_props :: composer_props where
  "sample_props = \<lparr>co_value = js ''hi'', co_state = ComposerIdle, co_thinkingLevel = Low, co_webSearchEnabled = False,
     co_webSearchAvailable = True, co_models = [sample_vision, sample_vision\<lparr>cm_id := js ''t'', cm_supports_image_input := False\<rparr>],
     co_model = Some (js ''v''), co_imageContext = None, co_canRemoveImages = True, co_filesEnabled = True,
     co_fileUploadAllowed = True, co_attachments = [], co_canSend = None, co_readOnly = False, co_isMobile = False,
     co_offersPaste = True, co_charLimit = Some 20000\<rparr>"

definition sample_image :: source_file where
  "sample_image = \<lparr>sf_name = js ''a.png'', sf_type = js ''image/png'', sf_size = 3, sf_pasted = None\<rparr>"


section \<open>Where the menu of tools opens\<close>

text \<open>
  The menu of tools never leaves the window at its sides or its top, and above the composer it does not
  cover it where there is room.
\<close>

lemma tools_menu_in_window:
  assumes "tools_position box innerWidth innerHeight = (x, y, w)" "0 \<le> bx_bottom box"
  shows "6 \<le> x" "x + w \<le> innerWidth - 6" "8 \<le> y"
    "innerHeight - bx_bottom box < tools_menu_height \<Longrightarrow> innerHeight - bx_bottom box < bx_top box \<Longrightarrow>
      tools_menu_height + 16 \<le> bx_top box \<Longrightarrow> y + tools_menu_height + 8 = bx_top box"
proof -
  have x: "x = max 6 (min (bx_left box) (innerWidth - w - 6))"
    and w: "w = min (if bx_width box \<noteq> 0 then bx_width box else 768) (innerWidth - 12)"
    and y: "y = (if innerHeight - bx_bottom box \<ge> tools_menu_height \<or> innerHeight - bx_bottom box \<ge> bx_top box
      then bx_bottom box + 8 else max 8 (bx_top box - tools_menu_height - 8))"
    using assms(1) unfolding tools_position_def Let_def by (elim Pair_inject; simp)+
  show "6 \<le> x" by (simp add: x)
  have "w \<le> innerWidth - 12" unfolding w by (rule min.cobounded2)
  then show "x + w \<le> innerWidth - 6" unfolding x by linarith
  show "8 \<le> y" using assms(2) by (simp add: y)
  assume "innerHeight - bx_bottom box < tools_menu_height" "innerHeight - bx_bottom box < bx_top box"
    "tools_menu_height + 16 \<le> bx_top box"
  then have "y = max 8 (bx_top box - tools_menu_height - 8)" "8 \<le> bx_top box - tools_menu_height - 8"
    by (simp_all add: y)
  then show "y + tools_menu_height + 8 = bx_top box" by simp
qed

text \<open>
  Below the composer, the gap of eight pixels is not part of the decision: with just enough room for the
  menu it ends eight pixels below the window.
\<close>

lemma tools_menu_may_overflow:
  assumes "innerHeight - bx_bottom box = tools_menu_height"
  shows "fst (snd (tools_position box innerWidth innerHeight)) + tools_menu_height = innerHeight + 8"
  using assms by (simp add: tools_position_def Let_def)

section \<open>Switching away from images\<close>

text \<open>
  While the images are being removed, cancelling closes the dialog but does not stop the switch: when the
  removal completes, the model is changed all the same.
\<close>

lemma cancelled_switch_still_switches:
  assumes "cu_pendingModelId u = Some target" "target \<noteq> []" "co_canRemoveImages p" "\<not> cu_removingImages u"
  shows "let u1 = fst (remove_and_switch p u); u2 = keep_model u1
    in cu_pendingModelId u2 = None \<and> target \<in> set (cu_removals u2) \<and> snd (images_removed target u2) = [CallModel target]"
  using assms by (simp add: remove_and_switch_def keep_model_def images_removed_def Let_def)

end
