(* ===== verification/Share_Dialogs.thy ===== *)
theory Share_Dialogs
  imports Guarded_Action Api_Endpoints Messages Composer_Messages
begin

text \<open>
  The dialogs about shares and favourites: the share dialog of a conversation
  (\<open>frontend/src/ui/ShareDialog.tsx\<close>), the list of one's shares
  (\<open>frontend/src/conversations/MySharesCard.tsx\<close>) and the browser of favourites
  (\<open>frontend/src/conversations/FavoritesDialog.tsx\<close>).

  An async function is cut at its await: the handler leaves a request under way, and the answer, which may
  come at any time, resumes with a result or a failure. A handler returns the new state with the toasts and
  clipboard writes it makes.
\<close>

section \<open>Definitions\<close>

subsection \<open>Calls of a dialog\<close>

datatype dialog_call = Toast jstr toast_tone | WriteClipboard jstr

definition share_url :: "jstr \<Rightarrow> jstr \<Rightarrow> jstr" where
  "share_url origin token = origin @ js ''/share/'' @ token"

subsection \<open>The share dialog\<close>

record share_link =
  sl_token :: jstr
  sl_expires_at :: "jstr option"
  sl_revoked_at :: "jstr option"
  sl_created_at :: jstr

definition expiry_options :: "int option list" where
  "expiry_options = [Some 7, Some 30, None]"

record share_dialog =
  sh_conversationId :: jstr
  sh_expiryIndex :: nat
  sh_activeLink :: "share_link option"
  sh_creating :: bool
  sh_revoking :: bool
  sh_loading :: bool
  sh_requests :: "share_endpoint list"

text \<open>Mounting runs the effect that lists the links of the conversation.\<close>

definition open_share_dialog :: "jstr \<Rightarrow> share_dialog" where
  "open_share_dialog conversationId =
     \<lparr>sh_conversationId = conversationId, sh_expiryIndex = 0, sh_activeLink = None, sh_creating = False,
      sh_revoking = False, sh_loading = True, sh_requests = [ListShares conversationId]\<rparr>"

definition links_listed :: "share_link list option \<Rightarrow> share_dialog \<Rightarrow> share_dialog \<times> dialog_call list" where
  "links_listed answer d =
     (let d1 = d\<lparr>sh_requests := remove1 (ListShares (sh_conversationId d)) (sh_requests d)\<rparr>
      in case answer of
        Some items \<Rightarrow>
          (d1\<lparr>sh_activeLink := (case items of [] \<Rightarrow> None | link # _ \<Rightarrow> Some link), sh_loading := False\<rparr>, [])
      | None \<Rightarrow> (d1\<lparr>sh_loading := False\<rparr>, [Toast share_links_load_failed_text ToneError]))"

text \<open>\<open>navigator.clipboard?.writeText\<close>: without a clipboard nothing happens.\<close>

definition copy_link :: "jstr \<Rightarrow> bool \<Rightarrow> jstr \<Rightarrow> dialog_call list" where
  "copy_link origin hasClipboard token = (if hasClipboard then [WriteClipboard (share_url origin token)] else [])"

definition copy_settled :: "bool \<Rightarrow> dialog_call list" where
  "copy_settled ok = [if ok then Toast copied_text ToneSuccess else Toast copy_failed_text ToneError]"

definition choose_expiry :: "nat \<Rightarrow> share_dialog \<Rightarrow> share_dialog" where
  "choose_expiry index d = d\<lparr>sh_expiryIndex := index\<rparr>"

definition create_link :: "bool \<Rightarrow> share_dialog \<Rightarrow> share_dialog" where
  "create_link hasAttachments d =
     (if sh_creating d then d
      else
        d\<lparr>sh_creating := True,
          sh_requests := sh_requests d @
            [CreateShare (sh_conversationId d) (expiry_options ! sh_expiryIndex d)
               (if hasAttachments then Some True else None)]\<rparr>)"

definition link_created ::
  "jstr \<Rightarrow> bool \<Rightarrow> share_endpoint \<Rightarrow> share_link option \<Rightarrow> share_dialog \<Rightarrow> share_dialog \<times> dialog_call list"
where
  "link_created origin hasClipboard req answer d =
     (let d1 = d\<lparr>sh_requests := remove1 req (sh_requests d), sh_creating := False\<rparr>
      in case answer of
        Some link \<Rightarrow>
          (d1\<lparr>sh_activeLink := Some link\<rparr>,
           Toast share_created_text ToneSuccess # copy_link origin hasClipboard (sl_token link))
      | None \<Rightarrow> (d1, [Toast share_failed_text ToneError]))"

definition revoke_link :: "jstr \<Rightarrow> share_dialog \<Rightarrow> share_dialog" where
  "revoke_link token d =
     (if sh_revoking d then d
      else d\<lparr>sh_revoking := True, sh_requests := sh_requests d @ [RevokeShare (sh_conversationId d) token]\<rparr>)"

definition link_revoked ::
  "share_endpoint \<Rightarrow> bool \<Rightarrow> share_dialog \<Rightarrow> share_dialog \<times> dialog_call list"
where
  "link_revoked req ok d =
     (let d1 = d\<lparr>sh_requests := remove1 req (sh_requests d), sh_revoking := False\<rparr>
      in if ok then (d1\<lparr>sh_activeLink := None\<rparr>, [Toast share_revoked_text ToneSuccess])
         else (d1, [Toast share_revoke_failed_text ToneError]))"

text \<open>Which of its three faces the dialog shows; only the controls of that face can be used.\<close>

datatype share_face = ShowsLoading | ShowsLink share_link | ShowsForm

definition share_face_of :: "share_dialog \<Rightarrow> share_face" where
  "share_face_of d =
     (if sh_loading d then ShowsLoading
      else case sh_activeLink d of Some link \<Rightarrow> ShowsLink link | None \<Rightarrow> ShowsForm)"

subsection \<open>The list of one's shares\<close>

record user_share =
  us_link :: share_link
  us_conversation_id :: jstr
  us_conversation_title :: "jstr option"

abbreviation us_token :: "user_share \<Rightarrow> jstr" where
  "us_token share \<equiv> sl_token (us_link share)"

datatype list_status = ListLoading | ListReady | ListError

text \<open>
  A load belongs to the mount effect, whose results are dropped once the card is closed, or to the retry
  button.
\<close>

datatype shares_request = LoadShares bool | RevokeMine user_share

record shares_card =
  my_shares :: "user_share list"
  my_status :: list_status
  my_revoking :: "jstr option"
  my_open :: bool
  my_requests :: "shares_request list"

definition load_shares :: "bool \<Rightarrow> shares_card \<Rightarrow> shares_card" where
  "load_shares ofEffect c =
     c\<lparr>my_status := ListLoading, my_requests := my_requests c @ [LoadShares ofEffect]\<rparr>"

definition open_shares_card :: shares_card where
  "open_shares_card =
     load_shares True
       \<lparr>my_shares = [], my_status = ListLoading, my_revoking = None, my_open = True, my_requests = []\<rparr>"

definition close_shares_card :: "shares_card \<Rightarrow> shares_card" where
  "close_shares_card c = c\<lparr>my_open := False\<rparr>"

definition shares_loaded ::
  "bool \<Rightarrow> user_share list option \<Rightarrow> shares_card \<Rightarrow> shares_card \<times> dialog_call list"
where
  "shares_loaded ofEffect answer c =
     (let c1 = c\<lparr>my_requests := remove1 (LoadShares ofEffect) (my_requests c)\<rparr>
      in if ofEffect \<and> \<not> my_open c then (c1, [])
         else case answer of
           Some items \<Rightarrow> (c1\<lparr>my_shares := items, my_status := ListReady\<rparr>, [])
         | None \<Rightarrow> (c1\<lparr>my_status := ListError\<rparr>, [Toast shares_load_failed_text ToneError]))"

definition retry_shares :: "shares_card \<Rightarrow> shares_card" where
  "retry_shares = load_shares False"

text \<open>\<open>if (revoking)\<close> tests a string: an empty token would not count.\<close>

definition revoke_share :: "user_share \<Rightarrow> shares_card \<Rightarrow> shares_card" where
  "revoke_share share c =
     (if truthy (my_revoking c) then c
      else c\<lparr>my_revoking := Some (us_token share), my_requests := my_requests c @ [RevokeMine share]\<rparr>)"

definition share_revoked :: "user_share \<Rightarrow> bool \<Rightarrow> shares_card \<Rightarrow> shares_card \<times> dialog_call list" where
  "share_revoked share ok c =
     (let c1 = c\<lparr>my_requests := remove1 (RevokeMine share) (my_requests c), my_revoking := None\<rparr>
      in if ok
         then (c1\<lparr>my_shares := filter (\<lambda>item. us_token item \<noteq> us_token share) (my_shares c)\<rparr>,
               [Toast share_revoked_text ToneSuccess])
         else (c1, [Toast share_revoke_failed_text ToneError]))"

text \<open>Here a page without a clipboard reports a failure: reading \<open>writeText\<close> of nothing throws.\<close>

definition copy_my_share :: "jstr \<Rightarrow> bool \<Rightarrow> jstr \<Rightarrow> dialog_call list" where
  "copy_my_share origin hasClipboard token =
     (if hasClipboard then [WriteClipboard (share_url origin token)] else [Toast copy_failed_text ToneError])"

definition revoke_disabled :: "shares_card \<Rightarrow> user_share \<Rightarrow> bool" where
  "revoke_disabled c share \<longleftrightarrow> my_revoking c = Some (us_token share)"

subsection \<open>The browser of favourites\<close>

datatype favorites_request = LoadFavorites nat | SaveFavorite jstr "jstr option"

text \<open>\<open>SaveFavorite i previous\<close>: a toggle of row \<open>i\<close> under way, and what the row held before it.\<close>

record favorites_dialog =
  fv_query :: jstr
  fv_rows :: "conversation_response list"
  fv_status :: list_status
  fv_retry :: nat
  fv_requests :: "favorites_request list"

definition open_favorites :: favorites_dialog where
  "open_favorites =
     \<lparr>fv_query = [], fv_rows = [], fv_status = ListLoading, fv_retry = 0, fv_requests = [LoadFavorites 0]\<rparr>"

text \<open>An answer to a load that a retry has overtaken is dropped: the effect's \<open>active\<close> is false.\<close>

definition favorites_loaded ::
  "nat \<Rightarrow> conversation_response list option \<Rightarrow> favorites_dialog \<Rightarrow> favorites_dialog"
where
  "favorites_loaded run answer d =
     (let d1 = d\<lparr>fv_requests := remove1 (LoadFavorites run) (fv_requests d)\<rparr>
      in if run \<noteq> fv_retry d then d1
         else case answer of
           Some items \<Rightarrow> d1\<lparr>fv_rows := items, fv_status := ListReady\<rparr>
         | None \<Rightarrow> d1\<lparr>fv_status := ListError\<rparr>)"

definition retry_favorites :: "favorites_dialog \<Rightarrow> favorites_dialog" where
  "retry_favorites d =
     d\<lparr>fv_retry := Suc (fv_retry d), fv_status := ListLoading,
       fv_requests := fv_requests d @ [LoadFavorites (Suc (fv_retry d))]\<rparr>"

definition setRowFavorite :: "jstr \<Rightarrow> jstr option \<Rightarrow> favorites_dialog \<Rightarrow> favorites_dialog" where
  "setRowFavorite i favoritedAt d =
     d\<lparr>fv_rows := map (\<lambda>c. if conv_id c = i then c\<lparr>conv_favorited_at := favoritedAt\<rparr> else c) (fv_rows d)\<rparr>"

definition toggle_favorite_row :: "jstr \<Rightarrow> conversation_response \<Rightarrow> favorites_dialog \<Rightarrow> favorites_dialog" where
  "toggle_favorite_row now c d =
     (let previous = conv_favorited_at c;
          d1 = setRowFavorite (conv_id c) (if truthy previous then None else Some now) d
      in d1\<lparr>fv_requests := fv_requests d @ [SaveFavorite (conv_id c) previous]\<rparr>)"

text \<open>\<open>onToggleFavorite\<close> resolves to the saved state, or to \<open>null\<close> when the request failed.\<close>

definition favorite_saved :: "jstr \<Rightarrow> jstr option \<Rightarrow> bool option \<Rightarrow> favorites_dialog \<Rightarrow> favorites_dialog" where
  "favorite_saved i previous saved d =
     (let d1 = d\<lparr>fv_requests := remove1 (SaveFavorite i previous) (fv_requests d)\<rparr>
      in if saved = None then setRowFavorite i previous d1 else d1)"

definition set_favorites_query :: "jstr \<Rightarrow> favorites_dialog \<Rightarrow> favorites_dialog" where
  "set_favorites_query query d = d\<lparr>fv_query := query\<rparr>"

definition visible_favorites :: "(jstr \<Rightarrow> jstr) \<Rightarrow> favorites_dialog \<Rightarrow> conversation_response list" where
  "visible_favorites lower d =
     (let normalized = lower (js_trim (fv_query d))
      in filter (\<lambda>c. normalized = [] \<or>
           index_of normalized (lower (if truthy (conv_title c) then the (conv_title c) else untitled_text)) \<noteq> None)
         (fv_rows d))"

section \<open>The share dialog shows the server's link\<close>

text \<open>
  The dialog beside the server's link of the conversation. Only this dialog changes the link while it is
  open; a request that fails has changed nothing. \<open>sw_known\<close> records that some request has been answered.
\<close>

record share_world =
  sw_dialog :: share_dialog
  sw_server :: "share_link option"
  sw_known :: bool

fun share_server :: "share_endpoint \<Rightarrow> share_link \<Rightarrow> share_link option \<Rightarrow> share_link option" where
  "share_server (CreateShare _ _ _) fresh link = Some fresh"
| "share_server (RevokeShare _ token) fresh link =
     (case link of Some l \<Rightarrow> if sl_token l = token then None else link | None \<Rightarrow> None)"
| "share_server _ fresh link = link"

text \<open>What a request resumes with when it succeeds, with the link the server holds after it.\<close>

definition share_answer ::
  "jstr \<Rightarrow> bool \<Rightarrow> share_endpoint \<Rightarrow> bool \<Rightarrow> share_link option \<Rightarrow> share_dialog \<Rightarrow> share_dialog \<times> dialog_call list"
where
  "share_answer origin hasClipboard req ok link d =
     (case req of
        CreateShare _ _ _ \<Rightarrow> link_created origin hasClipboard req (if ok then link else None) d
      | RevokeShare _ _ \<Rightarrow> link_revoked req ok d
      | _ \<Rightarrow> links_listed (if ok then Some (case link of None \<Rightarrow> [] | Some l \<Rightarrow> [l]) else None) d)"

inductive share_step :: "jstr \<Rightarrow> bool \<Rightarrow> share_world \<Rightarrow> share_world \<Rightarrow> bool" for origin hasClipboard where
  expiry: "share_face_of (sw_dialog w) = ShowsForm \<Longrightarrow> index < length expiry_options \<Longrightarrow>
    share_step origin hasClipboard w (w\<lparr>sw_dialog := choose_expiry index (sw_dialog w)\<rparr>)"
| create: "share_face_of (sw_dialog w) = ShowsForm \<Longrightarrow>
    share_step origin hasClipboard w (w\<lparr>sw_dialog := create_link hasAttachments (sw_dialog w)\<rparr>)"
| revoke: "share_face_of (sw_dialog w) = ShowsLink link \<Longrightarrow>
    share_step origin hasClipboard w (w\<lparr>sw_dialog := revoke_link (sl_token link) (sw_dialog w)\<rparr>)"
| answered: "req \<in> set (sh_requests (sw_dialog w)) \<Longrightarrow> link = share_server req fresh (sw_server w) \<Longrightarrow>
    share_step origin hasClipboard w
      (w\<lparr>sw_dialog := fst (share_answer origin hasClipboard req True link (sw_dialog w)),
         sw_server := link, sw_known := True\<rparr>)"
| failed: "req \<in> set (sh_requests (sw_dialog w)) \<Longrightarrow>
    share_step origin hasClipboard w
      (w\<lparr>sw_dialog := fst (share_answer origin hasClipboard req False None (sw_dialog w))\<rparr>)"

inductive share_reach :: "jstr \<Rightarrow> bool \<Rightarrow> share_link option \<Rightarrow> share_world \<Rightarrow> bool"
  for origin hasClipboard link where
  opened: "share_reach origin hasClipboard link
    \<lparr>sw_dialog = open_share_dialog i, sw_server = link, sw_known = False\<rparr>"
| stepped: "share_reach origin hasClipboard link w \<Longrightarrow> share_step origin hasClipboard w w' \<Longrightarrow>
    share_reach origin hasClipboard link w'"

text \<open>Creating and revoking each keep the contract of a guarded action.\<close>

fun is_create :: "share_endpoint \<Rightarrow> bool" where
  "is_create (CreateShare _ _ _) = True"
| "is_create _ = False"

fun is_revoke :: "share_endpoint \<Rightarrow> bool" where
  "is_revoke (RevokeShare _ _) = True"
| "is_revoke _ = False"

interpretation link_creation: guarded_action sh_creating "\<lambda>d. filter is_create (sh_requests d)" create_link
  "\<lambda>req answer d. fst (link_created origin hasClipboard req answer d)" for origin hasClipboard
  by unfold_locales
    (auto simp: create_link_def link_created_def Let_def filter_remove1 split: option.splits)

interpretation link_revocation: guarded_action sh_revoking "\<lambda>d. filter is_revoke (sh_requests d)" revoke_link
  "\<lambda>req ok d. fst (link_revoked req ok d)"
  by unfold_locales (auto simp: revoke_link_def link_revoked_def Let_def filter_remove1)

text \<open>The phases of the dialog: one request at most is under way, and the flags say which.\<close>

definition share_phase :: "share_dialog \<Rightarrow> bool" where
  "share_phase d \<longleftrightarrow>
     (case sh_requests d of
        [] \<Rightarrow> \<not> sh_loading d \<and> \<not> sh_creating d \<and> \<not> sh_revoking d
      | [ListShares i] \<Rightarrow> i = sh_conversationId d \<and> sh_loading d \<and> \<not> sh_creating d \<and> \<not> sh_revoking d
      | [CreateShare i days confirm] \<Rightarrow>
          \<not> sh_loading d \<and> sh_creating d \<and> \<not> sh_revoking d \<and> sh_activeLink d = None
      | [RevokeShare i token] \<Rightarrow>
          \<not> sh_loading d \<and> \<not> sh_creating d \<and> sh_revoking d \<and>
          map_option sl_token (sh_activeLink d) = Some token
      | _ \<Rightarrow> False)"

definition share_inv :: "share_world \<Rightarrow> bool" where
  "share_inv w \<longleftrightarrow> share_phase (sw_dialog w) \<and>
     (sw_known w \<longrightarrow> sw_server w = sh_activeLink (sw_dialog w)) \<and>
     (\<not> sw_known w \<longrightarrow> sh_activeLink (sw_dialog w) = None)"

lemmas share_handlers = choose_expiry_def create_link_def revoke_link_def links_listed_def link_created_def
  link_revoked_def share_answer_def Let_def

lemma share_phase_requests:
  assumes "share_phase d"
  obtains (Idle) "sh_requests d = []" | (Listing) "sh_requests d = [ListShares (sh_conversationId d)]"
  | (Creating) i days confirm where "sh_requests d = [CreateShare i days confirm]"
  | (Revoking) i token where "sh_requests d = [RevokeShare i token]"
  using assms by (auto simp: share_phase_def split: list.splits share_endpoint.splits)

lemma share_inv_step:
  assumes "share_step origin hasClipboard w w'" and "share_inv w"
  shows "share_inv w'"
  using assms
proof (induction rule: share_step.induct)
  case (expiry w index)
  then show ?case
    by (auto simp: share_inv_def share_phase_def share_handlers split: list.splits share_endpoint.splits)
next
  case (create w hasAttachments)
  then show ?case
    by (auto simp: share_inv_def share_phase_def share_face_of_def share_handlers
        split: if_splits option.splits list.splits share_endpoint.splits)
next
  case (revoke w link)
  then have "sh_activeLink (sw_dialog w) = Some link"
    by (auto simp: share_face_of_def split: if_splits option.splits)
  with revoke show ?case
    by (auto simp: share_inv_def share_phase_def share_face_of_def share_handlers
        split: list.splits share_endpoint.splits)
next
  case (answered req w link fresh)
  from answered.prems have phase: "share_phase (sw_dialog w)" by (simp add: share_inv_def)
  then show ?case
    by (rule share_phase_requests)
      (use answered in \<open>auto simp: share_inv_def share_phase_def share_handlers split: option.splits\<close>)
next
  case (failed req w)
  from failed.prems have phase: "share_phase (sw_dialog w)" by (simp add: share_inv_def)
  then show ?case
    by (rule share_phase_requests)
      (use failed in \<open>auto simp: share_inv_def share_phase_def share_handlers split: option.splits\<close>)
qed

lemma share_reach_inv: "share_reach origin hasClipboard link w \<Longrightarrow> share_inv w"
proof (induction rule: share_reach.induct)
  case (opened i)
  show ?case by (simp add: share_inv_def share_phase_def open_share_dialog_def)
next
  case (stepped w w')
  then show ?case by (blast intro: share_inv_step)
qed


definition sample_link :: share_link where
  "sample_link = \<lparr>sl_token = js ''t'', sl_expires_at = None, sl_revoked_at = None, sl_created_at = []\<rparr>"

definition sample_share_start :: share_world where
  "sample_share_start = \<lparr>sw_dialog = open_share_dialog (js ''c''), sw_server = Some sample_link, sw_known = False\<rparr>"

definition sample_share_end :: share_world where
  "sample_share_end = sample_share_start
     \<lparr>sw_dialog := fst (share_answer [] True (ListShares (js ''c'')) True (Some sample_link) (sw_dialog sample_share_start)),
      sw_server := Some sample_link, sw_known := True\<rparr>"

lemma sample_share_reach: "share_reach [] True (Some sample_link) sample_share_end"
proof -
  have "share_reach [] True (Some sample_link) sample_share_start"
    unfolding sample_share_start_def by (rule share_reach.opened)
  moreover have "share_step [] True sample_share_start sample_share_end"
    unfolding sample_share_end_def
    by (rule share_step.answered) (simp_all add: sample_share_start_def open_share_dialog_def)
  ultimately show ?thesis by (rule share_reach.stepped)
qed


section \<open>The list of one's shares is exact\<close>

text \<open>
  The card beside the list it was given and the tokens revoked since. A row has a revoke button only while
  the list is on show, the retry button only after a failed load. Tokens are not empty.
\<close>

record shares_world =
  mw_card :: shares_card
  mw_loaded :: "user_share list"
  mw_revoked :: "jstr list"

inductive shares_step :: "shares_world \<Rightarrow> shares_world \<Rightarrow> bool" where
  loaded: "LoadShares e \<in> set (my_requests (mw_card w)) \<Longrightarrow> \<forall>s \<in> set items. us_token s \<noteq> [] \<Longrightarrow>
    shares_step w (w\<lparr>mw_card := fst (shares_loaded e (Some items) (mw_card w)),
                     mw_loaded := items, mw_revoked := []\<rparr>)"
| not_loaded: "LoadShares e \<in> set (my_requests (mw_card w)) \<Longrightarrow>
    shares_step w (w\<lparr>mw_card := fst (shares_loaded e None (mw_card w))\<rparr>)"
| retried: "my_open (mw_card w) \<Longrightarrow> my_status (mw_card w) = ListError \<Longrightarrow>
    shares_step w (w\<lparr>mw_card := retry_shares (mw_card w)\<rparr>)"
| revoking: "my_open (mw_card w) \<Longrightarrow> my_status (mw_card w) = ListReady \<Longrightarrow>
    share \<in> set (my_shares (mw_card w)) \<Longrightarrow> \<not> revoke_disabled (mw_card w) share \<Longrightarrow>
    shares_step w (w\<lparr>mw_card := revoke_share share (mw_card w)\<rparr>)"
| revoked: "RevokeMine share \<in> set (my_requests (mw_card w)) \<Longrightarrow>
    shares_step w (w\<lparr>mw_card := fst (share_revoked share True (mw_card w)),
                     mw_revoked := us_token share # mw_revoked w\<rparr>)"
| not_revoked: "RevokeMine share \<in> set (my_requests (mw_card w)) \<Longrightarrow>
    shares_step w (w\<lparr>mw_card := fst (share_revoked share False (mw_card w))\<rparr>)"
| closed: "shares_step w (w\<lparr>mw_card := close_shares_card (mw_card w)\<rparr>)"

inductive shares_reach :: "shares_world \<Rightarrow> bool" where
  opened: "shares_reach \<lparr>mw_card = open_shares_card, mw_loaded = [], mw_revoked = []\<rparr>"
| stepped: "shares_reach w \<Longrightarrow> shares_step w w' \<Longrightarrow> shares_reach w'"

fun is_revoke_mine :: "shares_request \<Rightarrow> bool" where
  "is_revoke_mine (RevokeMine _) = True"
| "is_revoke_mine _ = False"

text \<open>Revoking keeps the contract for shares that have a token.\<close>

interpretation share_revocation: guarded_action "\<lambda>c. truthy (my_revoking c)"
  "\<lambda>c. filter is_revoke_mine (my_requests c)"
  "\<lambda>share c. if us_token share = [] then c else revoke_share share c"
  "\<lambda>req ok c. case req of RevokeMine share \<Rightarrow> fst (share_revoked share ok c) | _ \<Rightarrow> c"
  by unfold_locales
    (auto simp: revoke_share_def share_revoked_def truthy_def Let_def filter_remove1
      split: shares_request.splits)

definition shares_inv :: "shares_world \<Rightarrow> bool" where
  "shares_inv w \<longleftrightarrow>
     (case my_status (mw_card w) of
        ListLoading \<Rightarrow> my_revoking (mw_card w) = None \<and>
          (my_requests (mw_card w) = [] \<or> (\<exists>e. my_requests (mw_card w) = [LoadShares e]))
      | ListError \<Rightarrow> my_revoking (mw_card w) = None \<and> my_requests (mw_card w) = []
      | ListReady \<Rightarrow>
          my_shares (mw_card w) = filter (\<lambda>s. us_token s \<notin> set (mw_revoked w)) (mw_loaded w) \<and>
          distinct (mw_revoked w) \<and> (\<forall>s \<in> set (mw_loaded w). us_token s \<noteq> []) \<and>
          (my_requests (mw_card w) = [] \<and> my_revoking (mw_card w) = None \<or>
           (\<exists>share \<in> set (my_shares (mw_card w)). my_requests (mw_card w) = [RevokeMine share] \<and>
              my_revoking (mw_card w) = Some (us_token share))))"

lemmas shares_handlers = load_shares_def retry_shares_def shares_loaded_def revoke_share_def share_revoked_def
  close_shares_card_def open_shares_card_def Let_def

lemma shares_inv_step:
  assumes "shares_step w w'" and "shares_inv w"
  shows "shares_inv w'"
  using assms
proof (induction rule: shares_step.induct)
  case (revoked share w)
  then have "my_status (mw_card w) = ListReady"
    by (auto simp: shares_inv_def split: list_status.splits)
  with revoked show ?case
    by (auto simp: shares_inv_def shares_handlers intro: filter_cong)
qed (auto simp: shares_inv_def shares_handlers truthy_def split: list_status.splits if_splits)

lemma shares_reach_inv: "shares_reach w \<Longrightarrow> shares_inv w"
proof (induction rule: shares_reach.induct)
  case opened
  show ?case by (auto simp: shares_inv_def shares_handlers)
next
  case (stepped w w')
  then show ?case by (blast intro: shares_inv_step)
qed

text \<open>
  One's shares (C0). However clicks and answers interleave, the list on show is the list the server gave
  without the shares revoked since, in its order; no share is revoked twice and at most one request is under
  way.
\<close>

theorem my_shares_exact:
  assumes "shares_reach w" and "my_status (mw_card w) = ListReady"
  shows "my_shares (mw_card w) = filter (\<lambda>s. us_token s \<notin> set (mw_revoked w)) (mw_loaded w) \<and>
    distinct (mw_revoked w) \<and> length (my_requests (mw_card w)) \<le> 1"
  using shares_reach_inv [OF assms(1)] assms(2) by (auto simp: shares_inv_def)

definition sample_share :: user_share where
  "sample_share = \<lparr>us_link = sample_link, us_conversation_id = js ''c'', us_conversation_title = None\<rparr>"

definition sample_shares_start :: shares_world where
  "sample_shares_start = \<lparr>mw_card = open_shares_card, mw_loaded = [], mw_revoked = []\<rparr>"

definition sample_shares_end :: shares_world where
  "sample_shares_end = sample_shares_start
     \<lparr>mw_card := fst (shares_loaded True (Some [sample_share]) (mw_card sample_shares_start)),
      mw_loaded := [sample_share], mw_revoked := []\<rparr>"

lemma sample_shares_reach: "shares_reach sample_shares_end"
proof -
  have "shares_reach sample_shares_start"
    unfolding sample_shares_start_def by (rule shares_reach.opened)
  moreover have "shares_step sample_shares_start sample_shares_end"
    unfolding sample_shares_end_def
    by (rule shares_step.loaded)
      (simp_all add: sample_shares_start_def open_shares_card_def load_shares_def sample_share_def
        sample_link_def js_def)
  ultimately show ?thesis by (rule shares_reach.stepped)
qed

theorem my_shares_exact_witness:
  "my_shares (mw_card sample_shares_end) = [sample_share] \<and> distinct (mw_revoked sample_shares_end) \<and>
   length (my_requests (mw_card sample_shares_end)) \<le> 1"
proof -
  have now: "my_status (mw_card sample_shares_end) = ListReady"
      "filter (\<lambda>s. us_token s \<notin> set (mw_revoked sample_shares_end)) (mw_loaded sample_shares_end) = [sample_share]"
    by (simp_all add: sample_shares_end_def sample_shares_start_def open_shares_card_def load_shares_def
        shares_loaded_def Let_def)
  show ?thesis using my_shares_exact [OF sample_shares_reach now(1)] by (simp only: now)
qed

section \<open>Favourites stay in place\<close>

text \<open>
  The dialog beside the rows it was given and, for each row, whether the server holds it as a favourite
  (\<open>fw_saved\<close>). A star is clicked while its row is on show. While a toggle of a row is under way the user
  does not click its star again; the last lemma shows what happens otherwise.
\<close>

record favorites_world =
  fw_dialog :: favorites_dialog
  fw_loaded :: "conversation_response list"
  fw_saved :: "jstr \<Rightarrow> bool"

fun saves_of :: "jstr \<Rightarrow> favorites_request \<Rightarrow> bool" where
  "saves_of i (SaveFavorite j _) \<longleftrightarrow> i = j"
| "saves_of i (LoadFavorites _) \<longleftrightarrow> False"

definition saves :: "jstr \<Rightarrow> favorites_dialog \<Rightarrow> favorites_request list" where
  "saves i d = filter (saves_of i) (fv_requests d)"

definition unstarred :: "conversation_response \<Rightarrow> conversation_response" where
  "unstarred c = c\<lparr>conv_favorited_at := None\<rparr>"

abbreviation starred :: "conversation_response \<Rightarrow> bool" where
  "starred c \<equiv> truthy (conv_favorited_at c)"

inductive favorites_step :: "favorites_world \<Rightarrow> favorites_world \<Rightarrow> bool" where
  loaded: "LoadFavorites run \<in> set (fv_requests (fw_dialog w)) \<Longrightarrow> distinct (map conv_id items) \<Longrightarrow>
    favorites_step w
      (w\<lparr>fw_dialog := favorites_loaded run (Some items) (fw_dialog w), fw_loaded := items,
         fw_saved := (\<lambda>i. list_ex (\<lambda>c. conv_id c = i \<and> starred c) items)\<rparr>)"
| not_loaded: "LoadFavorites run \<in> set (fv_requests (fw_dialog w)) \<Longrightarrow>
    favorites_step w (w\<lparr>fw_dialog := favorites_loaded run None (fw_dialog w)\<rparr>)"
| retried: "fv_status (fw_dialog w) = ListError \<Longrightarrow>
    favorites_step w (w\<lparr>fw_dialog := retry_favorites (fw_dialog w)\<rparr>)"
| searched: "favorites_step w (w\<lparr>fw_dialog := set_favorites_query query (fw_dialog w)\<rparr>)"
| toggled: "fv_status (fw_dialog w) = ListReady \<Longrightarrow> c \<in> set (visible_favorites lower (fw_dialog w)) \<Longrightarrow>
    saves (conv_id c) (fw_dialog w) = [] \<Longrightarrow> now \<noteq> [] \<Longrightarrow>
    favorites_step w (w\<lparr>fw_dialog := toggle_favorite_row now c (fw_dialog w)\<rparr>)"
| saved: "SaveFavorite i previous \<in> set (fv_requests (fw_dialog w)) \<Longrightarrow>
    favorites_step w
      (w\<lparr>fw_dialog := favorite_saved i previous (Some (\<not> truthy previous)) (fw_dialog w),
         fw_saved := (fw_saved w)(i := \<not> truthy previous)\<rparr>)"
| not_saved: "SaveFavorite i previous \<in> set (fv_requests (fw_dialog w)) \<Longrightarrow>
    favorites_step w (w\<lparr>fw_dialog := favorite_saved i previous None (fw_dialog w)\<rparr>)"

inductive favorites_reach :: "favorites_world \<Rightarrow> bool" where
  opened: "favorites_reach \<lparr>fw_dialog = open_favorites, fw_loaded = [], fw_saved = (\<lambda>_. False)\<rparr>"
| stepped: "favorites_reach w \<Longrightarrow> favorites_step w w' \<Longrightarrow> favorites_reach w'"

text \<open>A row that is at rest shows what is saved, a row under way the opposite.\<close>

definition rows_show :: "jstr \<Rightarrow> bool \<Rightarrow> favorites_dialog \<Rightarrow> bool" where
  "rows_show i b d \<longleftrightarrow> list_all (\<lambda>c. conv_id c = i \<longrightarrow> starred c = b) (fv_rows d)"

lemma unstarred_setRow [simp]: "map unstarred (fv_rows (setRowFavorite i v d)) = map unstarred (fv_rows d)"
proof -
  have "unstarred (c\<lparr>conv_favorited_at := v\<rparr>) = unstarred c" for c
    by (simp add: unstarred_def)
  then show ?thesis by (simp add: setRowFavorite_def if_distrib cong: if_cong)
qed

lemma setRow_simps [simp]:
  "fv_requests (setRowFavorite i v d) = fv_requests d" "fv_status (setRowFavorite i v d) = fv_status d"
  "fv_retry (setRowFavorite i v d) = fv_retry d" "saves j (setRowFavorite i v d) = saves j d"
  by (simp_all add: setRowFavorite_def saves_def)

lemma rows_show_set: "rows_show i (truthy v) (setRowFavorite i v d)"
proof -
  have "list_all (\<lambda>c. conv_id c = i \<longrightarrow> starred c = truthy v)
      (map (\<lambda>c. if conv_id c = i then c\<lparr>conv_favorited_at := v\<rparr> else c) rows)" for rows
    by (induction rows) simp_all
  then show ?thesis by (simp add: rows_show_def setRowFavorite_def)
qed

lemma rows_show_other:
  assumes "i \<noteq> j"
  shows "rows_show j b (setRowFavorite i v d) = rows_show j b d"
proof -
  have "list_all (\<lambda>c. conv_id c = j \<longrightarrow> starred c = b)
      (map (\<lambda>c. if conv_id c = i then c\<lparr>conv_favorited_at := v\<rparr> else c) rows) =
    list_all (\<lambda>c. conv_id c = j \<longrightarrow> starred c = b) rows" for rows
    using assms by (induction rows) simp_all
  then show ?thesis by (simp add: rows_show_def setRowFavorite_def)
qed

lemma rows_show_requests [simp]: "rows_show j b (d\<lparr>fv_requests := rs\<rparr>) = rows_show j b d"
  by (simp add: rows_show_def)

lemma saves_removed:
  "saves j (d\<lparr>fv_requests := remove1 (SaveFavorite i v) (fv_requests d)\<rparr>) =
     (if i = j then remove1 (SaveFavorite i v) (saves i d) else saves j d)"
  by (auto simp: saves_def filter_remove1 remove1_filter_not)

definition row_settled :: "jstr \<Rightarrow> bool \<Rightarrow> favorites_dialog \<Rightarrow> bool" where
  "row_settled i b d \<longleftrightarrow>
     saves i d = [] \<and> rows_show i b d \<or>
     (\<exists>previous. saves i d = [SaveFavorite i previous] \<and> truthy previous = b \<and> rows_show i (\<not> b) d)"

lemma row_settled_under_way:
  assumes "row_settled i b d" and "SaveFavorite i previous \<in> set (fv_requests d)"
  shows "saves i d = [SaveFavorite i previous]" and "truthy previous = b" and "rows_show i (\<not> b) d"
proof -
  have "SaveFavorite i previous \<in> set (saves i d)" using assms(2) by (simp add: saves_def)
  then show "saves i d = [SaveFavorite i previous]" and "truthy previous = b" and "rows_show i (\<not> b) d"
    using assms(1) by (auto simp: row_settled_def)
qed

lemma row_settled_toggle:
  assumes "row_settled j (S j) d" and "c \<in> set (fv_rows d)" and "row_settled (conv_id c) (S (conv_id c)) d"
    and "saves (conv_id c) d = []" and "now \<noteq> []"
  shows "row_settled j (S j) (toggle_favorite_row now c d)"
proof (cases "j = conv_id c")
  case True
  let ?v = "if starred c then None else Some now"
  have "starred c = S j" using assms True by (auto simp: row_settled_def rows_show_def list_all_iff)
  moreover have "rows_show j (truthy ?v) (toggle_favorite_row now c d)"
    using rows_show_set [of j ?v d] True
    by (simp add: toggle_favorite_row_def Let_def rows_show_def)
  moreover have "truthy ?v = (\<not> starred c)" using assms(5) by (simp add: truthy_def)
  moreover have "saves j (toggle_favorite_row now c d) = [SaveFavorite j (conv_favorited_at c)]"
    using assms(4) True by (simp add: toggle_favorite_row_def Let_def saves_def)
  ultimately show ?thesis by (auto simp: row_settled_def)
next
  case False
  then have "saves j (toggle_favorite_row now c d) = saves j d"
    by (simp add: toggle_favorite_row_def Let_def saves_def)
  moreover have "rows_show j b (toggle_favorite_row now c d) = rows_show j b d" for b
    using False by (simp add: toggle_favorite_row_def Let_def rows_show_other)
  ultimately show ?thesis using assms(1) by (simp add: row_settled_def)
qed

lemma row_settled_saved:
  assumes "row_settled j (S j) d" and "row_settled i (S i) d" and "SaveFavorite i previous \<in> set (fv_requests d)"
  shows "row_settled j ((S(i := \<not> truthy previous)) j) (favorite_saved i previous (Some b) d)"
    and "row_settled j (S j) (favorite_saved i previous None d)"
proof -
  note now = row_settled_under_way [OF assms(2,3)]
  show "row_settled j ((S(i := \<not> truthy previous)) j) (favorite_saved i previous (Some b) d)"
    using now assms(1) by (simp add: row_settled_def favorite_saved_def saves_removed)
  show "row_settled j (S j) (favorite_saved i previous None d)"
  proof (cases "j = i")
    case True
    then show ?thesis using now rows_show_set [of i previous "d\<lparr>fv_requests := remove1 (SaveFavorite i previous) (fv_requests d)\<rparr>"]
      by (simp add: row_settled_def favorite_saved_def saves_removed)
  next
    case False
    then show ?thesis using assms(1)
      by (simp add: row_settled_def favorite_saved_def saves_removed rows_show_other)
  qed
qed

definition favorites_inv :: "favorites_world \<Rightarrow> bool" where
  "favorites_inv w \<longleftrightarrow>
     (case fv_status (fw_dialog w) of
        ListLoading \<Rightarrow> fv_requests (fw_dialog w) = [LoadFavorites (fv_retry (fw_dialog w))]
      | ListError \<Rightarrow> fv_requests (fw_dialog w) = []
      | ListReady \<Rightarrow>
          (\<forall>run. LoadFavorites run \<notin> set (fv_requests (fw_dialog w))) \<and>
          map unstarred (fv_rows (fw_dialog w)) = map unstarred (fw_loaded w) \<and>
          (\<forall>i. row_settled i (fw_saved w i) (fw_dialog w)))"

lemma favorites_ready:
  assumes "favorites_inv w" and "SaveFavorite i previous \<in> set (fv_requests (fw_dialog w))"
  shows "fv_status (fw_dialog w) = ListReady"
  using assms by (auto simp: favorites_inv_def split: list_status.splits)

lemma favorites_loading:
  assumes "favorites_inv w" and "LoadFavorites run \<in> set (fv_requests (fw_dialog w))"
  shows "fv_status (fw_dialog w) = ListLoading" and "fv_requests (fw_dialog w) = [LoadFavorites run]"
    and "run = fv_retry (fw_dialog w)"
  using assms by (auto simp: favorites_inv_def split: list_status.splits)

lemma loaded_rows_settled:
  assumes "distinct (map conv_id items)"
  shows "list_all (\<lambda>c. conv_id c = i \<longrightarrow> starred c = list_ex (\<lambda>c. conv_id c = i \<and> starred c) items) items"
proof -
  have "starred c" if "c \<in> set items" "c' \<in> set items" "conv_id c' = conv_id c" "starred c'" for c c'
    using that inj_onD [of conv_id "set items" c' c] assms by (auto simp: distinct_map)
  then show ?thesis by (auto simp: list_all_iff list_ex_iff)
qed

lemma favorites_inv_step:
  assumes "favorites_step w w'" and "favorites_inv w"
  shows "favorites_inv w'"
  using assms
proof (induction rule: favorites_step.induct)
  case (loaded run w items)
  note now = favorites_loading [OF loaded.prems loaded.hyps(1)]
  show ?case using now loaded_rows_settled [OF loaded.hyps(2)]
    by (simp add: favorites_inv_def favorites_loaded_def row_settled_def saves_def rows_show_def Let_def)
next
  case (not_loaded run w)
  note now = favorites_loading [OF not_loaded.prems not_loaded.hyps]
  show ?case using now by (simp add: favorites_inv_def favorites_loaded_def Let_def)
next
  case (retried w)
  then show ?case by (simp add: favorites_inv_def retry_favorites_def)
next
  case (searched w query)
  then show ?case
    by (simp add: favorites_inv_def set_favorites_query_def row_settled_def saves_def rows_show_def
        split: list_status.splits)
next
  case (toggled w c lower now)
  have row: "c \<in> set (fv_rows (fw_dialog w))"
    using toggled.hyps(2) by (simp add: visible_favorites_def Let_def)
  have settled: "row_settled i (fw_saved w i) (fw_dialog w)" for i
    using toggled.prems toggled.hyps(1) by (simp add: favorites_inv_def)
  show ?case using toggled.prems toggled.hyps(1) row_settled_toggle [where S = "fw_saved w", OF settled row settled toggled.hyps(3,4)]
    by (simp add: favorites_inv_def) (simp add: toggle_favorite_row_def Let_def)
next
  case (saved i previous w)
  note ready = favorites_ready [OF saved.prems saved.hyps]
  have settled: "row_settled i (fw_saved w i) (fw_dialog w)" for i
    using saved.prems ready by (simp add: favorites_inv_def)
  show ?case using saved.prems ready row_settled_saved(1) [where S = "fw_saved w", OF settled settled saved.hyps]
    by (auto simp: favorites_inv_def favorite_saved_def dest: notin_set_remove1)
next
  case (not_saved i previous w)
  note ready = favorites_ready [OF not_saved.prems not_saved.hyps]
  have settled: "row_settled i (fw_saved w i) (fw_dialog w)" for i
    using not_saved.prems ready by (simp add: favorites_inv_def)
  show ?case using not_saved.prems ready row_settled_saved(2) [where S = "fw_saved w", OF settled settled not_saved.hyps]
    by (auto simp: favorites_inv_def favorite_saved_def dest: notin_set_remove1)
qed

lemma favorites_reach_inv: "favorites_reach w \<Longrightarrow> favorites_inv w"
proof (induction rule: favorites_reach.induct)
  case opened
  show ?case by (simp add: favorites_inv_def open_favorites_def)
next
  case (stepped w w')
  then show ?case by (blast intro: favorites_inv_step)
qed

text \<open>
  The rows of the favourites never move while the dialog is open, whatever is starred and unstarred, and a
  row without a request under way shows the star the server holds.
\<close>

theorem favorites_rows_fixed:
  assumes "favorites_reach w" and "fv_status (fw_dialog w) = ListReady"
  shows "map unstarred (fv_rows (fw_dialog w)) = map unstarred (fw_loaded w) \<and>
    list_all (\<lambda>c. saves (conv_id c) (fw_dialog w) = [] \<longrightarrow> starred c = fw_saved w (conv_id c)) (fv_rows (fw_dialog w))"
proof -
  have "favorites_inv w" using assms(1) by (rule favorites_reach_inv)
  then have rows: "map unstarred (fv_rows (fw_dialog w)) = map unstarred (fw_loaded w)"
    and settled: "row_settled i (fw_saved w i) (fw_dialog w)" for i
    using assms(2) by (simp_all add: favorites_inv_def)
  have "starred c = fw_saved w (conv_id c)"
    if "c \<in> set (fv_rows (fw_dialog w))" and "saves (conv_id c) (fw_dialog w) = []" for c
    using settled [of "conv_id c"] that by (auto simp: row_settled_def rows_show_def list_all_iff)
  with rows show ?thesis by (auto simp: list_all_iff)
qed

text \<open>
  Two toggles of one row that overlap and both fail leave the row as the first toggle had shown it,
  although nothing was saved: the second one restores what the first had assumed.
\<close>

lemma overlapping_failed_toggles:
  assumes "fv_rows d = [c]" and "conv_favorited_at c = None" and "now \<noteq> []"
  shows "fv_rows (favorite_saved (conv_id c) (Some now) None (favorite_saved (conv_id c) None None
      (toggle_favorite_row later (c\<lparr>conv_favorited_at := Some now\<rparr>) (toggle_favorite_row now c d)))) =
    [c\<lparr>conv_favorited_at := Some now\<rparr>]"
  using assms
  by (simp add: favorite_saved_def toggle_favorite_row_def setRowFavorite_def truthy_def)

end
