(* ===== verification/Avatar_Cropper.thy ===== *)
theory Avatar_Cropper
  imports Guarded_Action Complex_Main "HOL-Library.AList"
begin

text \<open>
  The cropper of avatar pictures (\<open>frontend/src/conversations/AvatarCropper.tsx\<close>): dragging, pinching and
  zooming the picture behind a square window, and the picture it exports.

  Lengths are rational, so rounding of floating point numbers is left out. Each handler runs after the render of
  the changes before it. \<open>Math.hypot\<close> is the argument \<open>hypot\<close>; the encoder of the canvas is given by the blobs
  it answers with.
\<close>

section \<open>Definitions\<close>

definition output_size :: rat where "output_size = 1024"
definition max_output_bytes :: int where "max_output_bytes = 2 * 1024 * 1024"
definition viewport_size :: rat where "viewport_size = 320"
definition min_zoom :: rat where "min_zoom = 1"
definition max_zoom :: rat where "max_zoom = 3"

type_synonym point = "rat \<times> rat"

datatype crop_gesture =
    Drag point point
  | Pinch rat rat

text \<open>\<open>Drag start offset\<close> and \<open>Pinch distance zoom\<close>. The pointers are a map in the order of insertion.\<close>

record cropper =
  cr_dimensions :: "rat \<times> rat"
  cr_zoom :: rat
  cr_offset :: point
  cr_pointers :: "(int \<times> point) list"
  cr_gesture :: "crop_gesture option"
  cr_submitting :: bool
  cr_error :: "jstr option"
  cr_requests :: "unit list"

definition initial_cropper :: cropper where
  "initial_cropper =
     \<lparr>cr_dimensions = (1, 1), cr_zoom = 1, cr_offset = (0, 0), cr_pointers = [], cr_gesture = None,
      cr_submitting = False, cr_error = None, cr_requests = []\<rparr>"

definition baseScale :: "cropper \<Rightarrow> rat" where
  "baseScale v = max (viewport_size / fst (cr_dimensions v)) (viewport_size / snd (cr_dimensions v))"

definition crop_scale :: "cropper \<Rightarrow> rat" where
  "crop_scale v = baseScale v * cr_zoom v"

definition clamp_offset :: "rat \<Rightarrow> rat \<Rightarrow> rat" where
  "clamp_offset v m = max (- m) (min m v)"

definition boundsFor :: "cropper \<Rightarrow> rat \<Rightarrow> point" where
  "boundsFor v nextZoom =
     (let nextScale = baseScale v * nextZoom
      in (max 0 ((fst (cr_dimensions v) * nextScale - viewport_size) / 2),
          max 0 ((snd (cr_dimensions v) * nextScale - viewport_size) / 2)))"

text \<open>\<open>maxX\<close> and \<open>maxY\<close> of a render.\<close>

definition max_offset :: "cropper \<Rightarrow> point" where
  "max_offset v =
     (max 0 ((fst (cr_dimensions v) * crop_scale v - viewport_size) / 2),
      max 0 ((snd (cr_dimensions v) * crop_scale v - viewport_size) / 2))"

definition pinchDistance :: "(rat \<Rightarrow> rat \<Rightarrow> rat) \<Rightarrow> cropper \<Rightarrow> rat" where
  "pinchDistance hypot v =
     (case cr_pointers v of
        (_, first) # (_, second) # _ \<Rightarrow>
          (let d = hypot (fst first - fst second) (snd first - snd second) in if d = 0 then 1 else d)
      | _ \<Rightarrow> 1)"

definition restartGesture :: "(rat \<Rightarrow> rat \<Rightarrow> rat) \<Rightarrow> cropper \<Rightarrow> cropper" where
  "restartGesture hypot v =
     v\<lparr>cr_gesture :=
         (if length (cr_pointers v) \<ge> 2 then Some (Pinch (pinchDistance hypot v) (cr_zoom v))
          else case cr_pointers v of
            [(_, p)] \<Rightarrow> Some (Drag p (cr_offset v))
          | _ \<Rightarrow> None)\<rparr>"

definition pointer_down :: "(rat \<Rightarrow> rat \<Rightarrow> rat) \<Rightarrow> int \<Rightarrow> point \<Rightarrow> cropper \<Rightarrow> cropper" where
  "pointer_down hypot i p v = restartGesture hypot (v\<lparr>cr_pointers := AList.update i p (cr_pointers v)\<rparr>)"

definition pointer_move :: "(rat \<Rightarrow> rat \<Rightarrow> rat) \<Rightarrow> int \<Rightarrow> point \<Rightarrow> cropper \<Rightarrow> cropper" where
  "pointer_move hypot i p v =
     (if i \<notin> fst ` set (cr_pointers v) then v
      else
        let v1 = v\<lparr>cr_pointers := AList.update i p (cr_pointers v)\<rparr>
        in case cr_gesture v of
          None \<Rightarrow> v1
        | Some (Pinch distance zoom) \<Rightarrow>
            if length (cr_pointers v1) \<ge> 2
            then
              let nextZoom = min max_zoom (max min_zoom (zoom * pinchDistance hypot v1 / distance));
                  limit = boundsFor v1 nextZoom
              in v1\<lparr>cr_zoom := nextZoom,
                    cr_offset := (clamp_offset (fst (cr_offset v)) (fst limit),
                                  clamp_offset (snd (cr_offset v)) (snd limit))\<rparr>
            else v1
        | Some (Drag start offset) \<Rightarrow>
            v1\<lparr>cr_offset :=
                (clamp_offset (fst offset + fst p - fst start) (fst (max_offset v)),
                 clamp_offset (snd offset + snd p - snd start) (snd (max_offset v)))\<rparr>)"

definition pointer_up :: "(rat \<Rightarrow> rat \<Rightarrow> rat) \<Rightarrow> int \<Rightarrow> cropper \<Rightarrow> cropper" where
  "pointer_up hypot i v = restartGesture hypot (v\<lparr>cr_pointers := AList.delete i (cr_pointers v)\<rparr>)"

definition image_loaded :: "rat \<Rightarrow> rat \<Rightarrow> cropper \<Rightarrow> cropper" where
  "image_loaded naturalWidth naturalHeight v = v\<lparr>cr_dimensions := (naturalWidth, naturalHeight)\<rparr>"

definition slide_zoom :: "rat \<Rightarrow> cropper \<Rightarrow> cropper" where
  "slide_zoom nextZoom v = v\<lparr>cr_zoom := nextZoom, cr_offset := (0, 0)\<rparr>"

subsection \<open>The exported picture\<close>

text \<open>Where \<open>createBlob\<close> draws the picture on the canvas: left, top, width, height.\<close>

definition draw_rect :: "cropper \<Rightarrow> rat \<times> rat \<times> rat \<times> rat" where
  "draw_rect v =
     (let outputScale = crop_scale v * output_size / viewport_size;
          drawWidth = fst (cr_dimensions v) * outputScale;
          drawHeight = snd (cr_dimensions v) * outputScale
      in ((output_size - drawWidth) / 2 + fst (cr_offset v) * output_size / viewport_size,
          (output_size - drawHeight) / 2 + snd (cr_offset v) * output_size / viewport_size,
          drawWidth, drawHeight))"

record avatar_blob =
  ab_type :: jstr
  ab_size :: int

text \<open>
  The encoder answers with a blob, which may have another type than the one asked for, or with nothing.
  \<open>flattened\<close> is its answer for a JPEG of the picture on white.
\<close>

definition choose_blob ::
  "avatar_blob option \<Rightarrow> avatar_blob option \<Rightarrow> avatar_blob option \<Rightarrow> jstr + avatar_blob"
where
  "choose_blob webp png flattened =
     (let blob = (if (\<exists>b \<in> set_option webp. ab_type b = js ''image/webp'') then webp
                  else if (\<exists>b \<in> set_option png. ab_type b = js ''image/png'' \<and> ab_size b > max_output_bytes)
                  then flattened else png)
      in case blob of
        None \<Rightarrow> Inl (js ''This browser cannot export the avatar image.'')
      | Some b \<Rightarrow>
          if ab_type b \<notin> set [js ''image/webp'', js ''image/png'', js ''image/jpeg'']
          then Inl (js ''This browser cannot export the avatar image.'')
          else if ab_size b > max_output_bytes then Inl (js ''The cropped avatar must not exceed 2 MiB.'')
          else Inr b)"

definition createBlob ::
  "bool \<Rightarrow> bool \<Rightarrow> avatar_blob option \<Rightarrow> avatar_blob option \<Rightarrow> avatar_blob option \<Rightarrow> jstr + avatar_blob"
where
  "createBlob hasImage hasContext webp png flattened =
     (if \<not> hasImage then Inl (js ''Image is not ready'')
      else if \<not> hasContext then Inl (js ''Canvas is unavailable'')
      else choose_blob webp png flattened)"

text \<open>
  The confirm button, disabled while a confirmation is under way. A confirmation makes the blob and hands it to
  \<open>onConfirm\<close>; it ends well, or with the message of what was thrown (\<open>None\<close>: not an \<open>Error\<close>).
\<close>

definition confirm_crop :: "unit \<Rightarrow> cropper \<Rightarrow> cropper" where
  "confirm_crop click v =
     (if cr_submitting v then v
      else v\<lparr>cr_submitting := True, cr_error := None, cr_requests := cr_requests v @ [click]\<rparr>)"

definition crop_error_message :: "jstr option \<Rightarrow> jstr" where
  "crop_error_message reason = (case reason of Some m \<Rightarrow> m | None \<Rightarrow> js ''Avatar processing failed.'')"

definition crop_settled :: "unit \<Rightarrow> jstr option option \<Rightarrow> cropper \<Rightarrow> cropper" where
  "crop_settled req failure v =
     (let v1 = v\<lparr>cr_submitting := False, cr_requests := remove1 req (cr_requests v)\<rparr>
      in case failure of None \<Rightarrow> v1 | Some reason \<Rightarrow> v1\<lparr>cr_error := Some (crop_error_message reason)\<rparr>)"

section \<open>Every crop is covered by the picture\<close>

text \<open>The gestures in any order; the picture is loaded once, the slider offers zooms within its limits.\<close>

inductive crop_reach :: "(rat \<Rightarrow> rat \<Rightarrow> rat) \<Rightarrow> cropper \<Rightarrow> bool" for hypot where
  opened: "crop_reach hypot initial_cropper"
| loaded: "crop_reach hypot v \<Longrightarrow> cr_dimensions v = (1, 1) \<Longrightarrow> 0 < w \<Longrightarrow> 0 < h \<Longrightarrow>
    crop_reach hypot (image_loaded w h v)"
| down: "crop_reach hypot v \<Longrightarrow> crop_reach hypot (pointer_down hypot i p v)"
| moved: "crop_reach hypot v \<Longrightarrow> crop_reach hypot (pointer_move hypot i p v)"
| up: "crop_reach hypot v \<Longrightarrow> crop_reach hypot (pointer_up hypot i v)"
| slid: "crop_reach hypot v \<Longrightarrow> min_zoom \<le> z \<Longrightarrow> z \<le> max_zoom \<Longrightarrow> crop_reach hypot (slide_zoom z v)"
| confirmed: "crop_reach hypot v \<Longrightarrow> crop_reach hypot (confirm_crop () v)"
| settled: "crop_reach hypot v \<Longrightarrow> crop_reach hypot (crop_settled () failure v)"

interpretation crop_confirmation: guarded_action cr_submitting cr_requests confirm_crop crop_settled
  by unfold_locales (auto simp: confirm_crop_def crop_settled_def Let_def split: option.splits)

definition bounded_by :: "rat \<Rightarrow> rat \<Rightarrow> bool" where
  "bounded_by m x \<longleftrightarrow> - m \<le> x \<and> x \<le> m"

definition crop_inv :: "cropper \<Rightarrow> bool" where
  "crop_inv v \<longleftrightarrow>
     0 < fst (cr_dimensions v) \<and> 0 < snd (cr_dimensions v) \<and> 1 \<le> cr_zoom v \<and> cr_zoom v \<le> 3 \<and>
     bounded_by (fst (boundsFor v (cr_zoom v))) (fst (cr_offset v)) \<and>
     bounded_by (snd (boundsFor v (cr_zoom v))) (snd (cr_offset v))"

lemma bounded_clamp: "0 \<le> m \<Longrightarrow> bounded_by m (clamp_offset x m)"
  by (auto simp: bounded_by_def clamp_offset_def)

lemma bounded_mono: "bounded_by m x \<Longrightarrow> m \<le> n \<Longrightarrow> bounded_by n x"
  by (auto simp: bounded_by_def)

lemma bounds_nonneg: "0 \<le> fst (boundsFor v z)" "0 \<le> snd (boundsFor v z)"
  by (simp_all add: boundsFor_def Let_def)

lemma max_offset_bounds: "max_offset v = boundsFor v (cr_zoom v)"
  by (simp add: max_offset_def boundsFor_def crop_scale_def Let_def)

lemma base_covers:
  assumes "0 < fst (cr_dimensions v)" and "0 < snd (cr_dimensions v)"
  shows "320 \<le> fst (cr_dimensions v) * baseScale v" and "320 \<le> snd (cr_dimensions v) * baseScale v"
proof -
  have cover: "320 \<le> w * max a b" if "0 < w" "320 / w = a \<or> 320 / w = b" for w a b :: rat
  proof -
    have "320 / w \<le> max a b" using that(2) by auto
    then have "w * (320 / w) \<le> w * max a b" using that(1) by (intro mult_left_mono) auto
    then show ?thesis using that(1) by simp
  qed
  show "320 \<le> fst (cr_dimensions v) * baseScale v" and "320 \<le> snd (cr_dimensions v) * baseScale v"
    unfolding baseScale_def viewport_size_def by (rule cover; use assms in simp)+
qed

text \<open>The smallest bounds a picture can have are those of a square one.\<close>

lemma bounds_least:
  assumes "0 < fst (cr_dimensions v)" and "0 < snd (cr_dimensions v)" and "1 \<le> z"
  shows "160 * (z - 1) \<le> fst (boundsFor v z)" and "160 * (z - 1) \<le> snd (boundsFor v z)"
proof -
  have "320 * z \<le> fst (cr_dimensions v) * baseScale v * z"
    and "320 * z \<le> snd (cr_dimensions v) * baseScale v * z"
    using base_covers [OF assms(1,2)] assms(3) by (auto intro: mult_right_mono)
  then show "160 * (z - 1) \<le> fst (boundsFor v z)" and "160 * (z - 1) \<le> snd (boundsFor v z)"
    by (simp_all add: boundsFor_def Let_def viewport_size_def mult.assoc [symmetric] le_max_iff_disj)
qed

lemma bounds_square: "cr_dimensions v = (1, 1) \<Longrightarrow> 1 \<le> z \<Longrightarrow> boundsFor v z = (160 * (z - 1), 160 * (z - 1))"
  by (simp add: boundsFor_def baseScale_def viewport_size_def Let_def)

lemma crop_inv_frame:
  assumes "crop_inv v" and "cr_dimensions v' = cr_dimensions v" and "cr_zoom v' = cr_zoom v"
    and "cr_offset v' = cr_offset v"
  shows "crop_inv v'"
  using assms by (simp add: crop_inv_def boundsFor_def baseScale_def)

lemma crop_inv_offset:
  assumes "crop_inv v" and "1 \<le> z" and "z \<le> 3" and "cr_dimensions v' = cr_dimensions v" and "cr_zoom v' = z"
    and "bounded_by (fst (boundsFor v z)) (fst (cr_offset v'))"
    and "bounded_by (snd (boundsFor v z)) (snd (cr_offset v'))"
  shows "crop_inv v'"
  using assms by (simp add: crop_inv_def boundsFor_def baseScale_def)

lemma crop_inv_loaded:
  assumes "crop_inv v" and "cr_dimensions v = (1, 1)" and "0 < w" and "0 < h"
  shows "crop_inv (image_loaded w h v)"
proof -
  let ?v = "image_loaded w h v"
  have least: "160 * (cr_zoom v - 1) \<le> fst (boundsFor ?v (cr_zoom v))"
      "160 * (cr_zoom v - 1) \<le> snd (boundsFor ?v (cr_zoom v))"
    using assms bounds_least [of ?v "cr_zoom v"] by (simp_all add: image_loaded_def crop_inv_def)
  have now: "bounded_by (160 * (cr_zoom v - 1)) (fst (cr_offset v))" "bounded_by (160 * (cr_zoom v - 1)) (snd (cr_offset v))"
    using assms bounds_square [OF assms(2), of "cr_zoom v"] by (simp_all add: crop_inv_def)
  have "bounded_by (fst (boundsFor ?v (cr_zoom v))) (fst (cr_offset v))"
      "bounded_by (snd (boundsFor ?v (cr_zoom v))) (snd (cr_offset v))"
    using now least by (blast intro: bounded_mono)+
  then show ?thesis using assms by (simp add: crop_inv_def image_loaded_def)
qed

lemma crop_inv_move:
  assumes "crop_inv v"
  shows "crop_inv (pointer_move hypot i p v)"
proof (cases "i \<notin> fst ` set (cr_pointers v) \<or> cr_gesture v = None")
  case True
  show ?thesis using assms
    by (rule crop_inv_frame) (use True in \<open>auto simp: pointer_move_def Let_def\<close>)
next
  case False
  then obtain g where known: "i \<in> fst ` set (cr_pointers v)" and g: "cr_gesture v = Some g" by auto
  let ?v1 = "v\<lparr>cr_pointers := AList.update i p (cr_pointers v)\<rparr>"
  have same: "boundsFor ?v1 z = boundsFor v z" for z by (simp add: boundsFor_def baseScale_def)
  show ?thesis
  proof (cases g)
    case (Drag start off)
    show ?thesis
      by (rule crop_inv_offset [OF assms, where z = "cr_zoom v"])
        (use assms known g Drag in \<open>simp_all add: pointer_move_def Let_def max_offset_bounds bounded_clamp bounds_nonneg crop_inv_def\<close>)
  next
    case (Pinch distance zoom)
    let ?z = "min max_zoom (max min_zoom (zoom * pinchDistance hypot ?v1 / distance))"
    have z: "1 \<le> ?z" "?z \<le> 3" by (simp_all add: max_zoom_def min_zoom_def)
    show ?thesis
    proof (cases "length (cr_pointers ?v1) \<ge> 2")
      case True
      show ?thesis
        by (rule crop_inv_offset [OF assms z])
          (use known g Pinch True same in \<open>simp_all add: pointer_move_def Let_def bounded_clamp bounds_nonneg\<close>)
    next
      case False
      show ?thesis using assms
        by (rule crop_inv_frame) (use known g Pinch False in \<open>simp_all add: pointer_move_def Let_def\<close>)
    qed
  qed
qed

lemma crop_reach_inv: "crop_reach hypot v \<Longrightarrow> crop_inv v"
proof (induction rule: crop_reach.induct)
  case opened
  show ?case
    by (simp add: crop_inv_def initial_cropper_def boundsFor_def baseScale_def viewport_size_def bounded_by_def Let_def)
next
  case (loaded v w h)
  then show ?case by (blast intro: crop_inv_loaded)
next
  case (down v i p)
  from down.IH show ?case by (rule crop_inv_frame) (simp_all add: pointer_down_def restartGesture_def)
next
  case (moved v i p)
  then show ?case by (blast intro: crop_inv_move)
next
  case (up v i)
  from up.IH show ?case by (rule crop_inv_frame) (simp_all add: pointer_up_def restartGesture_def)
next
  case (slid v z)
  show ?case
    by (rule crop_inv_offset [OF slid.IH, of z])
      (use slid.hyps in \<open>simp_all add: slide_zoom_def min_zoom_def max_zoom_def bounded_by_def bounds_nonneg\<close>)
next
  case (confirmed v)
  from confirmed.IH show ?case by (rule crop_inv_frame) (simp_all add: confirm_crop_def)
next
  case (settled v failure)
  from settled.IH show ?case
    by (rule crop_inv_frame) (simp_all add: crop_settled_def Let_def split: option.splits)
qed

text \<open>On one axis: an offset within the bounds leaves no gap at either end.\<close>

lemma axis_covered:
  fixes x d m :: rat
  assumes "bounded_by (max 0 ((d - 320) / 2)) x" and "320 \<le> d"
  shows "(1024 - d * (1024 / 320)) / 2 + x * 1024 / 320 \<le> 0"
    and "1024 \<le> (1024 - d * (1024 / 320)) / 2 + x * 1024 / 320 + d * (1024 / 320)"
  using assms by (simp_all add: bounded_by_def field_simps)

text \<open>
  The exported avatar (C34). After any gestures, zooms and the loading of the picture, in any order, the picture
  is drawn over the whole canvas, so an avatar has no empty edge.
\<close>

theorem crop_is_covered:
  assumes "crop_reach hypot v" and "draw_rect v = (left, top_edge, width, height)"
  shows "left \<le> 0 \<and> top_edge \<le> 0 \<and> output_size \<le> left + width \<and> output_size \<le> top_edge + height"
proof -
  have inv: "crop_inv v" using assms(1) by (rule crop_reach_inv)
  let ?w = "fst (cr_dimensions v) * crop_scale v" and ?h = "snd (cr_dimensions v) * crop_scale v"
  have pos: "0 < fst (cr_dimensions v)" "0 < snd (cr_dimensions v)" "1 \<le> cr_zoom v"
    using inv by (simp_all add: crop_inv_def)
  note base = base_covers [OF pos(1,2)]
  have grow: "320 \<le> x * cr_zoom v" if "320 \<le> x" for x
    using mult_mono [of 320 x 1 "cr_zoom v"] that pos(3) by simp
  have "320 \<le> fst (cr_dimensions v) * baseScale v * cr_zoom v"
    "320 \<le> snd (cr_dimensions v) * baseScale v * cr_zoom v"
    using base grow by blast+
  then have wide: "320 \<le> ?w" and high: "320 \<le> ?h" by (simp_all add: crop_scale_def mult.assoc)
  have "bounded_by (max 0 ((?w - 320) / 2)) (fst (cr_offset v))" "bounded_by (max 0 ((?h - 320) / 2)) (snd (cr_offset v))"
    using inv by (simp_all add: crop_inv_def boundsFor_def crop_scale_def viewport_size_def Let_def)
  note x = axis_covered [OF this(1) wide] and y = axis_covered [OF this(2) high]
  show ?thesis using assms(2) x y
    by (simp add: draw_rect_def output_size_def viewport_size_def Let_def) (simp add: field_simps)
qed

lemma exported_blob_fits:
  assumes "createBlob hasImage hasContext webp png flattened = Inr b"
  shows "ab_size b \<le> max_output_bytes \<and> ab_type b \<in> set [js ''image/webp'', js ''image/png'', js ''image/jpeg'']"
  using assms by (auto simp: createBlob_def choose_blob_def Let_def split: if_splits option.splits)

definition sample_crop :: cropper where
  "sample_crop = pointer_move (\<lambda>_ _. 0) 1 (500, 0)
     (pointer_down (\<lambda>_ _. 0) 1 (0, 0) (image_loaded 640 320 initial_cropper))"

lemma sample_crop_reach: "crop_reach (\<lambda>_ _. 0) sample_crop"
  unfolding sample_crop_def
  by (intro crop_reach.moved crop_reach.down crop_reach.loaded crop_reach.opened)
    (simp_all add: initial_cropper_def)

lemma sample_crop_rect: "draw_rect sample_crop = (0, 0, 2048, 1024)"
  by (simp add: sample_crop_def pointer_move_def pointer_down_def restartGesture_def image_loaded_def
      initial_cropper_def draw_rect_def crop_scale_def baseScale_def max_offset_def clamp_offset_def
      viewport_size_def output_size_def Let_def)

theorem crop_is_covered_witness:
  "draw_rect sample_crop = (0, 0, 2048, 1024) \<and> (0::rat) \<le> 0 \<and> (0::rat) \<le> 0 \<and> output_size \<le> 0 + 2048 \<and> output_size \<le> 0 + 1024"
  using sample_crop_rect crop_is_covered [OF sample_crop_reach sample_crop_rect] by (rule conjI)

end
