(* ===== verification/Account_Card.thy ===== *)
theory Account_Card
  imports Avatar_Cropper Attachments Auth_Session Composer_Messages
begin

text \<open>
  The account of the user: the account card (\<open>frontend/src/conversations/AccountCard.tsx\<close>), the user menu that
  opens it (\<open>UserMenu.tsx\<close>), the reminder to verify the address (\<open>frontend/src/ui/VerifyEmailBanner.tsx\<close>),
  and what the page does with a new nickname or avatar (\<open>frontend/src/app/AppShell.tsx\<close>).

  An async function is cut at its awaits. A request under way is kept in the state of its component; the
  answer comes at any time and is a result or a thrown value.
\<close>

section \<open>Definitions\<close>

subsection \<open>The account card\<close>

datatype account_view = Overview | PasswordView | DeletionView

record password_errors =
  pe_current :: "jstr option"
  pe_newPassword :: "jstr option"
  pe_form :: "jstr option"

definition no_password_errors :: password_errors where
  "no_password_errors = \<lparr>pe_current = None, pe_newPassword = None, pe_form = None\<rparr>"

datatype account_request =
    UpdateNickname jstr
  | ResendVerification
  | ChangePassword jstr jstr
  | RequestDeletion jstr
  | UploadAvatar

text \<open>\<open>ReadFile\<close> waits for the bytes of a WebP file, \<open>DecodeFile\<close> for its bitmap.\<close>

datatype avatar_check = ReadFile source_file | DecodeFile source_file

record account_card =
  ac_emailVerified :: bool
  ac_avatarUrl :: "jstr option"
  ac_cropFile :: "source_file option"
  ac_avatarStatus :: "jstr option"
  ac_view :: account_view
  ac_nickname :: jstr
  ac_savedNickname :: jstr
  ac_currentPassword :: jstr
  ac_newPassword :: jstr
  ac_deletionPassword :: jstr
  ac_sending :: bool
  ac_submitting :: bool
  ac_notice :: "jstr option"
  ac_avatarError :: "jstr option"
  ac_nicknameError :: "jstr option"
  ac_passwordErrors :: password_errors
  ac_deletionError :: "jstr option"
  ac_requests :: "account_request list"
  ac_checks :: "avatar_check list"

type_synonym account_toasts = "(jstr \<times> toast_tone) list"

definition open_account_card :: "auth_user_response \<Rightarrow> account_card" where
  "open_account_card user =
     \<lparr>ac_emailVerified = user_email_verified user, ac_avatarUrl = user_avatar_url user, ac_cropFile = None,
      ac_avatarStatus = None, ac_view = Overview, ac_nickname = user_nickname user,
      ac_savedNickname = user_nickname user, ac_currentPassword = [], ac_newPassword = [],
      ac_deletionPassword = [], ac_sending = False, ac_submitting = False, ac_notice = None,
      ac_avatarError = None, ac_nicknameError = None, ac_passwordErrors = no_password_errors,
      ac_deletionError = None, ac_requests = [], ac_checks = []\<rparr>"

definition add_request :: "account_request \<Rightarrow> account_card \<Rightarrow> account_card" where
  "add_request r c = c\<lparr>ac_requests := ac_requests c @ [r]\<rparr>"

definition request_done :: "account_request \<Rightarrow> account_card \<Rightarrow> account_card" where
  "request_done r c = c\<lparr>ac_requests := remove1 r (ac_requests c)\<rparr>"

text \<open>\<open>error instanceof ApiError && error.status === n\<close>.\<close>

definition api_status_is :: "int \<Rightarrow> thrown \<Rightarrow> bool" where
  "api_status_is n e = (case e of ThrownApi err \<Rightarrow> err_status err = n | _ \<Rightarrow> False)"

subsubsection \<open>The avatar\<close>

text \<open>The second component tells whether the file input is clicked.\<close>

definition chooseAvatar :: "account_card \<Rightarrow> account_toasts \<times> bool" where
  "chooseAvatar c =
     (if \<not> ac_emailVerified c then ([(js ''Verify your email before uploading an avatar.'', ToneWarning)], False)
      else ([], True))"

definition decode_avatar :: "bool \<Rightarrow> source_file \<Rightarrow> account_card \<Rightarrow> account_card" where
  "decode_avatar hasBitmap file c =
     (if \<not> hasBitmap then c\<lparr>ac_cropFile := Some file\<rparr>
      else c\<lparr>ac_checks := ac_checks c @ [DecodeFile file]\<rparr>)"

definition onFileChange :: "bool \<Rightarrow> source_file option \<Rightarrow> account_card \<Rightarrow> account_card" where
  "onFileChange hasBitmap chosen c =
     (case chosen of
        None \<Rightarrow> c
      | Some file \<Rightarrow>
          let c1 = c\<lparr>ac_avatarError := None\<rparr>
          in if sf_type file \<notin> set [js ''image/jpeg'', js ''image/png'', js ''image/webp'']
             then c1\<lparr>ac_avatarError := Some (js ''Only JPEG, PNG, and static WebP images are supported.'')\<rparr>
             else if sf_size file > 10 * 1024 * 1024
             then c1\<lparr>ac_avatarError := Some (js ''The source image must not exceed 10 MiB.'')\<rparr>
             else if sf_type file = js ''image/webp''
             then c1\<lparr>ac_checks := ac_checks c1 @ [ReadFile file]\<rparr>
             else decode_avatar hasBitmap file c1)"

text \<open>
  The bytes of the file as text, or \<open>None\<close> when it could not be read: that rejection is outside the \<open>try\<close> and
  ends the handler.
\<close>

definition animated :: "jstr \<Rightarrow> bool" where
  "animated signature \<longleftrightarrow>
     index_of (js ''ANIM'') signature \<noteq> None \<or> index_of (js ''ANMF'') signature \<noteq> None"

definition file_read :: "bool \<Rightarrow> source_file \<Rightarrow> jstr option \<Rightarrow> account_card \<Rightarrow> account_card" where
  "file_read hasBitmap file answer c =
     (let c1 = c\<lparr>ac_checks := remove1 (ReadFile file) (ac_checks c)\<rparr>
      in case answer of
        None \<Rightarrow> c1
      | Some signature \<Rightarrow>
          if animated signature
          then c1\<lparr>ac_avatarError := Some (js ''Animated WebP images are not supported.'')\<rparr>
          else decode_avatar hasBitmap file c1)"

definition too_small_message :: jstr where
  "too_small_message = js ''The image must be at least 128'' @ [0xD7] @ js ''128 pixels.''"

definition too_large_message :: jstr where
  "too_large_message = js ''The image must be at most 8192 pixels per side and 20 million pixels total.''"

text \<open>The size of the bitmap, or what decoding threw (\<open>None\<close>: not an \<open>Error\<close>).\<close>

definition file_decoded :: "source_file \<Rightarrow> jstr option + int \<times> int \<Rightarrow> account_card \<Rightarrow> account_card" where
  "file_decoded file answer c =
     (let c1 = c\<lparr>ac_checks := remove1 (DecodeFile file) (ac_checks c)\<rparr>;
          failed = (\<lambda>m. c1\<lparr>ac_avatarError := Some m\<rparr>)
      in case answer of
        Inl (Some m) \<Rightarrow> failed m
      | Inl None \<Rightarrow> failed (js ''The image could not be decoded.'')
      | Inr (width, height) \<Rightarrow>
          if width < 128 \<or> height < 128 then failed too_small_message
          else if width > 8192 \<or> height > 8192 \<or> width * height > 20000000 then failed too_large_message
          else c1\<lparr>ac_cropFile := Some file\<rparr>)"

definition cancel_crop :: "account_card \<Rightarrow> account_card" where
  "cancel_crop c = c\<lparr>ac_cropFile := None\<rparr>"

text \<open>\<open>onConfirm\<close> of the cropper; the second component is what it throws at once.\<close>

definition upload_avatar :: "bool \<Rightarrow> account_card \<Rightarrow> account_card \<times> jstr option" where
  "upload_avatar offersUpload c =
     (if \<not> offersUpload then (c, Some (js ''Avatar upload is unavailable.''))
      else (add_request UploadAvatar (c\<lparr>ac_avatarStatus := Some avatar_processing_text\<rparr>), None))"

definition avatar_uploaded ::
  "jstr option \<Rightarrow> account_card \<Rightarrow> account_card \<times> account_toasts \<times> jstr option"
where
  "avatar_uploaded answer c =
     (case answer of
        None \<Rightarrow> (request_done UploadAvatar c, [], Some (js ''Avatar upload failed. Please try again.''))
      | Some url \<Rightarrow>
          (request_done UploadAvatar
             (c\<lparr>ac_avatarUrl := Some url, ac_avatarStatus := Some avatar_saved_text, ac_cropFile := None\<rparr>),
           [(avatar_saved_text, ToneSuccess)], None))"

definition avatar_hint :: "account_card \<Rightarrow> jstr" where
  "avatar_hint c =
     nullish (ac_avatarStatus c) (if ac_emailVerified c then avatar_formats_text else avatar_unverified_text)"

subsubsection \<open>Views and fields\<close>

definition account_back :: "account_card \<Rightarrow> account_card" where
  "account_back c =
     c\<lparr>ac_view := Overview, ac_avatarError := None, ac_passwordErrors := no_password_errors,
       ac_deletionError := None\<rparr>"

definition show_password_view :: "account_card \<Rightarrow> account_card" where
  "show_password_view c =
     c\<lparr>ac_avatarError := None, ac_passwordErrors := no_password_errors, ac_view := PasswordView\<rparr>"

definition show_deletion_view :: "account_card \<Rightarrow> account_card" where
  "show_deletion_view c = c\<lparr>ac_avatarError := None, ac_deletionError := None, ac_view := DeletionView\<rparr>"

definition type_nickname :: "jstr \<Rightarrow> account_card \<Rightarrow> account_card" where
  "type_nickname v c = c\<lparr>ac_nickname := v, ac_nicknameError := None\<rparr>"

definition type_current_password :: "jstr \<Rightarrow> account_card \<Rightarrow> account_card" where
  "type_current_password v c =
     c\<lparr>ac_currentPassword := v, ac_passwordErrors := (ac_passwordErrors c)\<lparr>pe_current := None\<rparr>\<rparr>"

definition type_new_password :: "jstr \<Rightarrow> account_card \<Rightarrow> account_card" where
  "type_new_password v c =
     c\<lparr>ac_newPassword := v, ac_passwordErrors := (ac_passwordErrors c)\<lparr>pe_newPassword := None\<rparr>\<rparr>"

definition type_deletion_password :: "jstr \<Rightarrow> account_card \<Rightarrow> account_card" where
  "type_deletion_password v c = c\<lparr>ac_deletionPassword := v, ac_deletionError := None\<rparr>"

subsubsection \<open>The forms\<close>

definition saveNickname :: "account_card \<Rightarrow> account_card" where
  "saveNickname c =
     (let normalized = js_trim (ac_nickname c)
      in if length normalized < 1 \<or> length normalized > 50
         then c\<lparr>ac_nicknameError := Some (js ''Nickname must be between 1 and 50 characters.'')\<rparr>
         else if normalized = ac_savedNickname c then c
         else add_request (UpdateNickname normalized) (c\<lparr>ac_submitting := True, ac_nicknameError := None\<rparr>))"

definition nickname_failed_message :: jstr where
  "nickname_failed_message = js ''Failed to save nickname. Please try again.''"

definition nickname_saved :: "jstr \<Rightarrow> bool \<Rightarrow> account_card \<Rightarrow> account_card \<times> account_toasts" where
  "nickname_saved normalized ok c =
     (let c1 = request_done (UpdateNickname normalized) (c\<lparr>ac_submitting := False\<rparr>)
      in if ok
         then (c1\<lparr>ac_nickname := normalized, ac_savedNickname := normalized\<rparr>,
               [(nickname_saved_text, ToneSuccess)])
         else (c1\<lparr>ac_nicknameError := Some nickname_failed_message\<rparr>, [(nickname_failed_message, ToneError)]))"

definition resend_verification :: "unit \<Rightarrow> account_card \<Rightarrow> account_card" where
  "resend_verification click c =
     (if ac_sending c then c else add_request ResendVerification (c\<lparr>ac_sending := True\<rparr>))"

definition verification_resent :: "thrown option \<Rightarrow> account_card \<Rightarrow> account_card \<times> account_toasts" where
  "verification_resent failure c =
     (request_done ResendVerification (c\<lparr>ac_sending := False\<rparr>),
      [case failure of
         None \<Rightarrow> (verification_sent_text, ToneSuccess)
       | Some e \<Rightarrow>
           (if api_status_is 429 e then js ''Too many requests. Please try again later.''
            else js ''Failed to send the verification email. Please try again.'', ToneError)])"

definition changePassword :: "account_card \<Rightarrow> account_card" where
  "changePassword c =
     (if length (ac_newPassword c) < 8 \<or> length (ac_newPassword c) > 128
      then c\<lparr>ac_passwordErrors := no_password_errors
               \<lparr>pe_newPassword := Some (js ''New password must be between 8 and 128 characters.'')\<rparr>\<rparr>
      else
        add_request (ChangePassword (ac_currentPassword c) (ac_newPassword c))
          (c\<lparr>ac_submitting := True, ac_passwordErrors := no_password_errors\<rparr>))"

text \<open>After a success the page signs out; the card leaves its button disabled.\<close>

definition password_changed :: "account_request \<Rightarrow> thrown option \<Rightarrow> account_card \<Rightarrow> account_card" where
  "password_changed r failure c =
     (let c1 = request_done r c
      in case failure of
        None \<Rightarrow> c1
      | Some e \<Rightarrow>
          c1\<lparr>ac_submitting := False,
            ac_passwordErrors :=
              (if api_status_is 400 e
               then no_password_errors\<lparr>pe_current := Some (js ''Current password is incorrect.'')\<rparr>
               else no_password_errors
                 \<lparr>pe_form := Some (if api_status_is 429 e then js ''Too many attempts. Please try again later.''
                    else js ''Failed to change password. Please try again.'')\<rparr>)\<rparr>)"

definition requestDeletion :: "account_card \<Rightarrow> account_card" where
  "requestDeletion c =
     add_request (RequestDeletion (ac_deletionPassword c)) (c\<lparr>ac_submitting := True, ac_deletionError := None\<rparr>)"

definition deletion_requested :: "account_request \<Rightarrow> thrown option \<Rightarrow> account_card \<Rightarrow> account_card" where
  "deletion_requested r failure c =
     (let c1 = request_done r (c\<lparr>ac_submitting := False\<rparr>)
      in case failure of
        None \<Rightarrow> c1\<lparr>ac_deletionPassword := [], ac_notice := Some deletion_mail_text, ac_view := Overview\<rparr>
      | Some e \<Rightarrow>
          c1\<lparr>ac_deletionError := Some
              (if api_status_is 429 e then js ''Too many requests. Please try again later.''
               else if api_status_is 400 e then js ''Current password is incorrect.''
               else js ''Failed to send the confirmation email. Please try again.'')\<rparr>)"

text \<open>
  Submitting the form on show. A form whose submit button is disabled is not submitted, by the Enter key
  neither.
\<close>

definition form_disabled :: "account_card \<Rightarrow> bool" where
  "form_disabled c =
     (case ac_view c of
        Overview \<Rightarrow> ac_submitting c \<or> js_trim (ac_nickname c) = ac_savedNickname c
      | PasswordView \<Rightarrow> ac_submitting c
      | DeletionView \<Rightarrow> ac_submitting c \<or> length (ac_deletionPassword c) < 8)"

definition submit_form :: "unit \<Rightarrow> account_card \<Rightarrow> account_card" where
  "submit_form click c =
     (if form_disabled c then c
      else case ac_view c of
        Overview \<Rightarrow> saveNickname c | PasswordView \<Rightarrow> changePassword c | DeletionView \<Rightarrow> requestDeletion c)"

definition form_answered :: "account_request \<Rightarrow> thrown option \<Rightarrow> account_card \<Rightarrow> account_card" where
  "form_answered r failure c =
     (case r of
        UpdateNickname n \<Rightarrow> fst (nickname_saved n (failure = None) c)
      | ChangePassword _ _ \<Rightarrow> password_changed r failure c
      | RequestDeletion _ \<Rightarrow> deletion_requested r failure c
      | _ \<Rightarrow> c)"

subsection \<open>The user menu\<close>

record user_menu =
  um_open :: bool
  um_accountOpen :: bool
  um_sharesOpen :: bool
  um_logoutOpen :: bool
  um_position :: "(rat \<times> rat \<times> rat) option"

definition initial_user_menu :: user_menu where
  "initial_user_menu =
     \<lparr>um_open = False, um_accountOpen = False, um_sharesOpen = False, um_logoutOpen = False, um_position = None\<rparr>"

definition closeLogout :: "user_menu \<Rightarrow> user_menu" where
  "closeLogout m = m\<lparr>um_logoutOpen := False\<rparr>"

definition dismiss_menu :: "bool \<Rightarrow> user_menu \<Rightarrow> user_menu" where
  "dismiss_menu isMobile m = (if isMobile then m else m\<lparr>um_open := False\<rparr>)"

definition menu_escape :: "user_menu \<Rightarrow> user_menu" where
  "menu_escape m =
     (if \<not> um_open m \<and> \<not> um_logoutOpen m \<and> \<not> um_accountOpen m \<and> \<not> um_sharesOpen m then m
      else if um_logoutOpen m then closeLogout m
      else if um_accountOpen m then m\<lparr>um_accountOpen := False\<rparr>
      else if um_sharesOpen m then m\<lparr>um_sharesOpen := False\<rparr>
      else m\<lparr>um_open := False\<rparr>)"

text \<open>Left edge, distance from the lower edge of the window, and width, from the rectangle of the trigger.\<close>

definition user_menu_position :: "bool \<Rightarrow> rat \<Rightarrow> rat \<Rightarrow> rat \<Rightarrow> rat \<Rightarrow> rat \<Rightarrow> rat \<times> rat \<times> rat" where
  "user_menu_position rail rectLeft rectTop rectWidth innerWidth innerHeight =
     (let width = min (if rail then 260 else rectWidth) (innerWidth - 16)
      in (max 8 (min rectLeft (innerWidth - width - 8)), max 8 (innerHeight - rectTop + 8), width))"

definition toggleMenu :: "bool \<Rightarrow> (rat \<times> rat \<times> rat) option \<Rightarrow> user_menu \<Rightarrow> user_menu" where
  "toggleMenu isMobile position m =
     (if um_open m then m\<lparr>um_open := False\<rparr>
      else
        (if \<not> isMobile \<and> position \<noteq> None then m\<lparr>um_position := position\<rparr> else m)\<lparr>um_open := True\<rparr>)"

definition openAccount :: "user_menu \<Rightarrow> user_menu" where
  "openAccount m = m\<lparr>um_open := False, um_accountOpen := True\<rparr>"

definition openShares :: "user_menu \<Rightarrow> user_menu" where
  "openShares m = m\<lparr>um_open := False, um_sharesOpen := True\<rparr>"

definition openLogout :: "user_menu \<Rightarrow> user_menu" where
  "openLogout m = m\<lparr>um_open := False, um_logoutOpen := True\<rparr>"

subsection \<open>The reminder to verify the address\<close>

definition cooldown_seconds :: int where "cooldown_seconds = 60"

record verify_banner =
  vb_sending :: bool
  vb_sent :: bool
  vb_cooldown :: int
  vb_requests :: "unit list"

definition initial_banner :: verify_banner where
  "initial_banner = \<lparr>vb_sending = False, vb_sent = False, vb_cooldown = 0, vb_requests = []\<rparr>"

definition banner_shown :: "auth_user_response option \<Rightarrow> bool" where
  "banner_shown user = (case user of None \<Rightarrow> False | Some u \<Rightarrow> \<not> user_email_verified u)"

definition banner_disabled :: "verify_banner \<Rightarrow> bool" where
  "banner_disabled b \<longleftrightarrow> vb_sending b \<or> vb_cooldown b > 0"

text \<open>The timer runs while the count is positive.\<close>

definition banner_tick :: "verify_banner \<Rightarrow> verify_banner" where
  "banner_tick b = (if vb_cooldown b \<le> 0 then b else b\<lparr>vb_cooldown := vb_cooldown b - 1\<rparr>)"

definition banner_send :: "unit \<Rightarrow> verify_banner \<Rightarrow> verify_banner" where
  "banner_send click b =
     (if banner_disabled b then b
      else b\<lparr>vb_sending := True, vb_requests := vb_requests b @ [click]\<rparr>)"

definition banner_sent :: "unit \<Rightarrow> thrown option \<Rightarrow> verify_banner \<Rightarrow> verify_banner \<times> account_toasts" where
  "banner_sent req failure b =
     (let b1 = b\<lparr>vb_sending := False, vb_requests := remove1 req (vb_requests b)\<rparr>
      in case failure of
        None \<Rightarrow>
          (b1\<lparr>vb_sent := True, vb_cooldown := cooldown_seconds\<rparr>,
           [(js ''Verification email sent. Check your inbox.'', ToneSuccess)])
      | Some e \<Rightarrow>
          (b1, [(if api_status_is 429 e then js ''Please try again later.''
                 else js ''Could not send the email. Try again.'', ToneError)]))"

definition banner_label :: "verify_banner \<Rightarrow> jstr" where
  "banner_label b =
     (if vb_sending b then js ''Sending'' @ [0x2026]
      else if vb_cooldown b > 0 then js ''Resend in '' @ int_string (vb_cooldown b) @ js ''s''
      else if vb_sent b then js ''Resend verification email'' else js ''Send verification email'')"

subsection \<open>What the page does with a new nickname or avatar\<close>

definition user_updated ::
  "date_parse \<Rightarrow> (jstr \<Rightarrow> auth_session option) \<Rightarrow> (auth_session \<Rightarrow> jstr) \<Rightarrow> auth_user_response \<Rightarrow> tab \<Rightarrow> tab"
where
  "user_updated dp parse stringify updated t =
     dispatch_tab dp (AuthA (Auth_userUpdated updated)) (on_storage (updateUser parse stringify updated) t)"

text \<open>\<open>user\<close> is the one of the render in which the picture was confirmed.\<close>

definition page_avatar_uploaded ::
  "date_parse \<Rightarrow> (jstr \<Rightarrow> auth_session option) \<Rightarrow> (auth_session \<Rightarrow> jstr) \<Rightarrow> auth_user_response \<Rightarrow> jstr \<Rightarrow>
   tab \<Rightarrow> tab"
where
  "page_avatar_uploaded dp parse stringify user url t =
     user_updated dp parse stringify (user\<lparr>user_avatar_url := Some url\<rparr>) t"

section \<open>The mails sent\<close>

text \<open>The banner, the mails the server accepted, and the seconds of countdown that passed.\<close>

inductive banner_reach :: "verify_banner \<Rightarrow> nat \<Rightarrow> nat \<Rightarrow> bool" where
  mounted: "banner_reach initial_banner 0 0"
| clicked: "banner_reach b mails seconds \<Longrightarrow> banner_reach (banner_send () b) mails seconds"
| accepted: "banner_reach b mails seconds \<Longrightarrow> vb_requests b \<noteq> [] \<Longrightarrow>
    banner_reach (fst (banner_sent () None b)) (Suc mails) seconds"
| refused: "banner_reach b mails seconds \<Longrightarrow> vb_requests b \<noteq> [] \<Longrightarrow>
    banner_reach (fst (banner_sent () (Some e) b)) mails seconds"
| ticked: "banner_reach b mails seconds \<Longrightarrow> vb_cooldown b > 0 \<Longrightarrow> banner_reach (banner_tick b) mails (Suc seconds)"

interpretation banner_action: guarded_action vb_sending vb_requests banner_send
  "\<lambda>req failure b. fst (banner_sent req failure b)"
  by unfold_locales
    (auto simp: banner_send_def banner_sent_def banner_disabled_def Let_def split: option.splits)

definition banner_inv :: "verify_banner \<Rightarrow> nat \<Rightarrow> nat \<Rightarrow> bool" where
  "banner_inv b mails seconds \<longleftrightarrow>
     at_most_one vb_sending vb_requests b \<and> vb_cooldown b \<ge> 0 \<and>
     (vb_requests b \<noteq> [] \<longrightarrow> vb_cooldown b = 0) \<and> 60 * int mails = int seconds + vb_cooldown b"

lemma banner_reach_inv: "banner_reach b mails seconds \<Longrightarrow> banner_inv b mails seconds"
proof (induction rule: banner_reach.induct)
  case mounted
  show ?case by (simp add: banner_inv_def initial_banner_def at_most_one_idle)
next
  case (clicked b mails seconds)
  then show ?case using banner_action.begin_single [of b "()"]
    by (auto simp: banner_inv_def) (auto simp: banner_send_def banner_disabled_def split: if_splits)
next
  case (accepted b mails seconds)
  then have req: "() \<in> set (vb_requests b)" by (cases "vb_requests b") auto
  show ?case using accepted banner_action.answer_idle [OF _ req, of None] banner_action.answer_single [OF _ req, of None]
    by (simp add: banner_inv_def) (simp add: banner_sent_def cooldown_seconds_def)
next
  case (refused b mails seconds e)
  then have req: "() \<in> set (vb_requests b)" by (cases "vb_requests b") auto
  show ?case using refused banner_action.answer_idle [OF _ req, of "Some e"] banner_action.answer_single [OF _ req, of "Some e"]
    by (simp add: banner_inv_def) (simp add: banner_sent_def)
next
  case (ticked b mails seconds)
  then show ?case by (auto simp: banner_inv_def banner_tick_def at_most_one_def)
qed

text \<open>
  Verification mails (C0). However often the button is clicked and whatever the server answers, the mails it
  accepted are a minute apart: \<open>n\<close> mails take at least \<open>n - 1\<close> minutes of countdown.
\<close>

theorem verification_mails_spaced:
  assumes "banner_reach b mails seconds"
  shows "60 * mails \<le> seconds + 60 \<and> 0 \<le> vb_cooldown b \<and> vb_cooldown b \<le> 60 * int mails"
proof -
  have "banner_inv b mails seconds" using assms by (rule banner_reach_inv)
  moreover have "vb_cooldown b \<le> 60" using assms
    by induction (auto simp: initial_banner_def banner_send_def banner_sent_def banner_tick_def cooldown_seconds_def)
  ultimately show ?thesis by (simp add: banner_inv_def)
qed

definition sample_banner :: verify_banner where
  "sample_banner = fst (banner_sent () None (banner_send () initial_banner))"

theorem verification_mails_spaced_witness:
  "vb_cooldown sample_banner = 60 \<and> 60 * (1::nat) \<le> 0 + 60 \<and> 0 \<le> vb_cooldown sample_banner \<and>
   vb_cooldown sample_banner \<le> 60 * int 1"
proof -
  have "banner_reach sample_banner (Suc 0) 0"
    unfolding sample_banner_def
    by (intro banner_reach.accepted banner_reach.clicked banner_reach.mounted)
      (simp add: banner_send_def initial_banner_def banner_disabled_def)
  from verification_mails_spaced [OF this]
  have spaced: "60 * (1::nat) \<le> 0 + 60 \<and> 0 \<le> vb_cooldown sample_banner \<and> vb_cooldown sample_banner \<le> 60 * int 1"
    by (simp only: One_nat_def)
  have "vb_cooldown sample_banner = 60"
    by (simp add: sample_banner_def banner_sent_def banner_send_def initial_banner_def banner_disabled_def
        cooldown_seconds_def)
  then show ?thesis using spaced by (rule conjI)
qed

section \<open>The requests of the account card\<close>

inductive account_step :: "account_card \<Rightarrow> account_card \<Rightarrow> bool" where
  submitted: "account_step c (submit_form () c)"
| form_settled: "r \<in> set (ac_requests c) \<Longrightarrow> account_step c (form_answered r failure c)"
| resent: "\<not> ac_emailVerified c \<Longrightarrow> account_step c (resend_verification () c)"
| resend_settled: "ResendVerification \<in> set (ac_requests c) \<Longrightarrow>
    account_step c (fst (verification_resent failure c))"
| typed_nickname: "account_step c (type_nickname v c)"
| typed_current: "account_step c (type_current_password v c)"
| typed_new: "account_step c (type_new_password v c)"
| typed_deletion: "account_step c (type_deletion_password v c)"
| went_back: "account_step c (account_back c)"
| to_password: "account_step c (show_password_view c)"
| to_deletion: "account_step c (show_deletion_view c)"
| chosen: "ac_emailVerified c \<Longrightarrow> account_step c (onFileChange hasBitmap file c)"
| was_read: "ReadFile f \<in> set (ac_checks c) \<Longrightarrow> account_step c (file_read hasBitmap f signature c)"
| decoded: "DecodeFile f \<in> set (ac_checks c) \<Longrightarrow> account_step c (file_decoded f size_read c)"
| crop_cancelled: "account_step c (cancel_crop c)"
| uploading: "ac_cropFile c \<noteq> None \<Longrightarrow> account_step c (fst (upload_avatar offersUpload c))"
| uploaded: "UploadAvatar \<in> set (ac_requests c) \<Longrightarrow> account_step c (fst (avatar_uploaded url c))"

inductive account_reach :: "account_card \<Rightarrow> bool" where
  opened: "account_reach (open_account_card user)"
| stepped: "account_reach c \<Longrightarrow> account_step c c' \<Longrightarrow> account_reach c'"

fun is_form_request :: "account_request \<Rightarrow> bool" where
  "is_form_request (UpdateNickname _) = True"
| "is_form_request (ChangePassword _ _) = True"
| "is_form_request (RequestDeletion _) = True"
| "is_form_request _ = False"

fun is_resend :: "account_request \<Rightarrow> bool" where
  "is_resend ResendVerification = True"
| "is_resend _ = False"

abbreviation form_requests :: "account_card \<Rightarrow> account_request list" where
  "form_requests c \<equiv> filter is_form_request (ac_requests c)"

abbreviation resends :: "account_card \<Rightarrow> account_request list" where
  "resends c \<equiv> filter is_resend (ac_requests c)"

lemmas form_handlers = submit_form_def saveNickname_def changePassword_def requestDeletion_def add_request_def
  form_answered_def nickname_saved_def password_changed_def deletion_requested_def request_done_def

text \<open>The three forms share one flag; the mails have their own.\<close>

interpretation account_forms: guarded_action ac_submitting form_requests submit_form form_answered
proof
  show "form_requests (submit_form a s) = form_requests s \<and> ac_submitting (submit_form a s)"
    if "ac_submitting s" for a s
    using that by (simp add: submit_form_def form_disabled_def split: account_view.splits)
  show "form_requests (submit_form a s) = form_requests s \<or>
      (\<exists>f. form_requests (submit_form a s) = form_requests s @ [f]) \<and> ac_submitting (submit_form a s)"
    if "\<not> ac_submitting s" for a s
    by (simp add: form_handlers Let_def split: account_view.splits)
  show "form_requests (form_answered f r s) = remove1 f (form_requests s)"
    if "f \<in> set (form_requests s)" for f s r
    by (insert that, cases f) (auto simp: form_handlers Let_def filter_remove1 split: option.splits)
qed

interpretation account_mails: guarded_action ac_sending resends resend_verification
  "\<lambda>req failure c. fst (verification_resent failure c)"
proof
  show "resends (resend_verification a s) = resends s \<and> ac_sending (resend_verification a s)"
    if "ac_sending s" for a s
    using that by (simp add: resend_verification_def)
  show "resends (resend_verification a s) = resends s \<or>
      (\<exists>f. resends (resend_verification a s) = resends s @ [f]) \<and> ac_sending (resend_verification a s)"
    if "\<not> ac_sending s" for a s
    using that by (simp add: resend_verification_def add_request_def)
  show "resends (fst (verification_resent r s)) = remove1 f (resends s)"
    if "f \<in> set (resends s)" for f s r
    by (insert that, cases f) (auto simp: verification_resent_def request_done_def filter_remove1)
qed

text \<open>What the card may ask the server for.\<close>

fun request_valid :: "account_request \<Rightarrow> bool" where
  "request_valid (UpdateNickname n) \<longleftrightarrow> 1 \<le> length n \<and> length n \<le> 50 \<and> js_trim n = n"
| "request_valid (ChangePassword _ p) \<longleftrightarrow> 8 \<le> length p \<and> length p \<le> 128"
| "request_valid (RequestDeletion p) \<longleftrightarrow> 8 \<le> length p"
| "request_valid _ \<longleftrightarrow> True"

definition avatar_source_ok :: "source_file \<Rightarrow> bool" where
  "avatar_source_ok f \<longleftrightarrow>
     sf_type f \<in> set [js ''image/jpeg'', js ''image/png'', js ''image/webp''] \<and> sf_size f \<le> 10 * 1024 * 1024"

fun check_file :: "avatar_check \<Rightarrow> source_file" where
  "check_file (ReadFile f) = f"
| "check_file (DecodeFile f) = f"

definition account_inv :: "account_card \<Rightarrow> bool" where
  "account_inv c \<longleftrightarrow>
     list_all request_valid (ac_requests c) \<and>
     at_most_one ac_submitting form_requests c \<and> at_most_one ac_sending resends c \<and>
     list_all (\<lambda>k. avatar_source_ok (check_file k)) (ac_checks c) \<and>
     pred_option avatar_source_ok (ac_cropFile c)"

lemma checks_removed: "list_all P xs \<Longrightarrow> list_all P (remove1 x xs)"
  by (auto simp: list_all_iff dest: notin_set_remove1)

lemma account_inv_frame:
  assumes "account_inv c" and "ac_requests c' = ac_requests c" and "ac_submitting c' = ac_submitting c"
    and "ac_sending c' = ac_sending c" and "ac_checks c' = ac_checks c" and "ac_cropFile c' = ac_cropFile c"
  shows "account_inv c'"
  using assms by (simp add: account_inv_def at_most_one_def)

lemma submit_requests:
  assumes "list_all request_valid (ac_requests c)"
  shows "list_all request_valid (ac_requests (submit_form () c))"
proof (cases "form_disabled c")
  case False
  then show ?thesis
  proof (cases "ac_view c")
    case Overview
    have "list_all request_valid (ac_requests (saveNickname c))"
      using assms unfolding saveNickname_def Let_def by (simp add: add_request_def not_less js_trim_again Suc_le_eq)
    then show ?thesis using False Overview by (simp add: submit_form_def)
  next
    case PasswordView
    have "list_all request_valid (ac_requests (changePassword c))"
      using assms unfolding changePassword_def by (simp add: add_request_def not_less)
    then show ?thesis using False PasswordView by (simp add: submit_form_def)
  next
    case DeletionView
    then show ?thesis
      using assms False by (simp add: submit_form_def requestDeletion_def add_request_def form_disabled_def)
  qed
qed (use assms in \<open>simp add: submit_form_def\<close>)

lemma submit_frame:
  "resends (submit_form () c) = resends c" "ac_sending (submit_form () c) = ac_sending c"
  "ac_checks (submit_form () c) = ac_checks c" "ac_cropFile (submit_form () c) = ac_cropFile c"
  by (cases "ac_view c"; simp add: submit_form_def saveNickname_def changePassword_def requestDeletion_def add_request_def
      Let_def)+

lemma account_inv_submit:
  assumes "account_inv c"
  shows "account_inv (submit_form () c)"
proof -
  have "at_most_one ac_submitting form_requests (submit_form () c)"
    using assms by (intro account_forms.begin_single) (simp add: account_inv_def)
  moreover have "list_all request_valid (ac_requests (submit_form () c))"
    using assms submit_requests by (simp add: account_inv_def)
  ultimately show ?thesis using assms submit_frame [of c] by (simp add: account_inv_def at_most_one_def)
qed

lemma account_inv_answered:
  assumes "account_inv c" and "r \<in> set (ac_requests c)"
  shows "account_inv (form_answered r failure c)"
proof (cases "is_form_request r")
  case True
  then have "r \<in> set (form_requests c)" using assms(2) by simp
  then have "at_most_one ac_submitting form_requests (form_answered r failure c)"
    using assms(1) by (intro account_forms.answer_single) (simp_all add: account_inv_def)
  moreover have same: "ac_requests (form_answered r failure c) = remove1 r (ac_requests c)"
      "ac_sending (form_answered r failure c) = ac_sending c"
      "ac_checks (form_answered r failure c) = ac_checks c" "ac_cropFile (form_answered r failure c) = ac_cropFile c"
    using True by (cases r; simp add: form_handlers Let_def split: option.splits)+
  moreover have "resends (form_answered r failure c) = resends c"
    using True same(1) by (cases r) (simp_all add: filter_remove1 remove1_filter_not)
  ultimately show ?thesis using assms(1) by (simp add: account_inv_def at_most_one_def checks_removed)
next
  case False
  then have "form_answered r failure c = c" by (cases r) (simp_all add: form_answered_def)
  then show ?thesis using assms(1) by simp
qed

lemma account_inv_resent:
  assumes "account_inv c"
  shows "account_inv (resend_verification () c)"
proof -
  have "at_most_one ac_sending resends (resend_verification () c)"
    using assms by (intro account_mails.begin_single) (simp add: account_inv_def)
  then show ?thesis
    using assms by (auto simp: account_inv_def at_most_one_def resend_verification_def add_request_def)
qed

lemma account_inv_mailed:
  assumes "account_inv c" and "ResendVerification \<in> set (ac_requests c)"
  shows "account_inv (fst (verification_resent failure c))"
proof -
  have mem: "ResendVerification \<in> set (resends c)" using assms(2) by simp
  have "at_most_one ac_sending resends (fst (verification_resent failure c))"
    using assms(1) by (intro account_mails.answer_single [OF _ mem]) (simp add: account_inv_def)
  then show ?thesis
    using assms by (auto simp: account_inv_def at_most_one_def verification_resent_def request_done_def
        filter_remove1 remove1_filter_not checks_removed)
qed

lemma account_inv_avatar:
  assumes "account_inv c"
  shows "account_inv (onFileChange hasBitmap file c)"
    and "ReadFile f \<in> set (ac_checks c) \<Longrightarrow> account_inv (file_read hasBitmap f signature c)"
    and "DecodeFile f \<in> set (ac_checks c) \<Longrightarrow> account_inv (file_decoded f size_read c)"
proof -
  have from_check: "avatar_source_ok (check_file k)" if "k \<in> set (ac_checks c)" for k
    using assms that by (simp add: account_inv_def list_all_iff)
  show "account_inv (onFileChange hasBitmap file c)"
  proof (cases "file")
    case None
    then show ?thesis using assms by (simp add: onFileChange_def)
  next
    case (Some f)
    have ignored: "account_inv (c\<lparr>ac_avatarError := e\<rparr>)" for e
      using assms by (rule account_inv_frame) simp_all
    show ?thesis
    proof (cases "avatar_source_ok f")
      case True
      then have "account_inv (c\<lparr>ac_avatarError := None, ac_checks := ac_checks c @ [k]\<rparr>)" if "check_file k = f" for k
        using assms that by (simp add: account_inv_def at_most_one_def)
      moreover have "account_inv (c\<lparr>ac_avatarError := None, ac_cropFile := Some f\<rparr>)"
        using assms True by (simp add: account_inv_def at_most_one_def)
      ultimately show ?thesis
        using ignored unfolding onFileChange_def decode_avatar_def Let_def Some by simp
    next
      case False
      then have "sf_type f \<notin> set [js ''image/jpeg'', js ''image/png'', js ''image/webp''] \<or> sf_size f > 10 * 1024 * 1024"
        unfolding avatar_source_ok_def by linarith
      then show ?thesis using ignored unfolding onFileChange_def Let_def Some by auto
    qed
  qed
  show "account_inv (file_read hasBitmap f signature c)" if "ReadFile f \<in> set (ac_checks c)"
    using assms from_check [OF that]
    by (auto simp: account_inv_def at_most_one_def file_read_def decode_avatar_def Let_def checks_removed
        split: option.splits)
  show "account_inv (file_decoded f size_read c)" if "DecodeFile f \<in> set (ac_checks c)"
    using assms from_check [OF that]
    by (auto simp: account_inv_def at_most_one_def file_decoded_def Let_def checks_removed
        split: option.splits sum.splits)
qed

lemma account_inv_upload:
  assumes "account_inv c"
  shows "account_inv (fst (upload_avatar offersUpload c))"
    and "UploadAvatar \<in> set (ac_requests c) \<Longrightarrow> account_inv (fst (avatar_uploaded url c))"
  using assms
  by (auto simp: account_inv_def at_most_one_def upload_avatar_def avatar_uploaded_def add_request_def
      request_done_def filter_remove1 remove1_filter_not checks_removed split: option.splits)

lemma account_inv_step:
  assumes "account_step c c'" and "account_inv c"
  shows "account_inv c'"
  using assms
proof (induction rule: account_step.induct)
  case (submitted c)
  then show ?case by (rule account_inv_submit)
next
  case (form_settled r c failure)
  then show ?case by (blast intro: account_inv_answered)
next
  case (resent c)
  then show ?case by (blast intro: account_inv_resent)
next
  case (resend_settled c failure)
  then show ?case by (blast intro: account_inv_mailed)
next
  case (crop_cancelled c)
  then show ?case by (simp add: cancel_crop_def account_inv_def at_most_one_def)
qed (auto intro: account_inv_avatar account_inv_upload elim: account_inv_frame
    simp: type_nickname_def type_current_password_def type_new_password_def type_deletion_password_def
      account_back_def show_password_view_def show_deletion_view_def)

lemma account_reach_inv: "account_reach c \<Longrightarrow> account_inv c"
proof (induction rule: account_reach.induct)
  case (opened user)
  show ?case by (simp add: open_account_card_def account_inv_def at_most_one_def)
next
  case (stepped c c')
  then show ?case by (blast intro: account_inv_step)
qed


text \<open>The smallest window inside which the user menu is placed is 16 pixels wide.\<close>

lemma user_menu_in_window:
  assumes "user_menu_position rail rectLeft rectTop rectWidth innerWidth innerHeight = (l, b, width)"
  shows "8 \<le> l" and "l + width \<le> innerWidth - 8" and "8 \<le> b"
proof -
  define width' where "width' = min (if rail then 260 else rectWidth) (innerWidth - 16)"
  have w: "width' \<le> innerWidth - 16" by (simp add: width'_def)
  have l: "l = max 8 (min rectLeft (innerWidth - width' - 8))" and b: "b = max 8 (innerHeight - rectTop + 8)"
    and width: "width = width'"
    using assms unfolding user_menu_position_def Let_def width'_def by (metis Pair_inject)+
  show "8 \<le> l" and "8 \<le> b" unfolding l b by (rule max.cobounded1)+
  have "l \<le> innerWidth - width' - 8" unfolding l using w by (intro max.boundedI min.cobounded2) simp
  then show "l + width \<le> innerWidth - 8" unfolding width by simp
qed

definition surfaces :: "user_menu \<Rightarrow> bool list" where
  "surfaces m = filter id [um_open m, um_accountOpen m, um_sharesOpen m, um_logoutOpen m]"

lemma escape_closes_one: "length (surfaces (menu_escape m)) = length (surfaces m) - 1"
  by (auto simp: surfaces_def menu_escape_def closeLogout_def)

text \<open>
  A nickname saved while a picture is being uploaded is lost on the page: the upload writes back the user it saw
  when it began.
\<close>

lemma avatar_upload_undoes_nickname:
  assumes "as_session (app_auth (tab_app t)) = Some s"
  shows "map_option (\<lambda>s. user_nickname (ses_user s))
      (as_session (app_auth (tab_app (page_avatar_uploaded dp parse stringify user url
        (user_updated dp parse stringify updated t))))) = Some (user_nickname user)"
  using assms by (simp add: page_avatar_uploaded_def user_updated_def dispatch_tab_def on_storage_def)

text \<open>
  What is typed into the nickname field while a nickname is being saved is replaced by the saved one when the answer
  comes.
\<close>

lemma saved_nickname_overwrites_typing:
  "ac_nickname (fst (nickname_saved normalized True (type_nickname v c))) = normalized"
  by (simp add: nickname_saved_def request_done_def type_nickname_def Let_def)

text \<open>A failed upload leaves the hint at "processing", with no request under way.\<close>

lemma failed_avatar_upload_keeps_processing:
  "ac_avatarStatus (fst (avatar_uploaded None (fst (upload_avatar True c)))) = Some avatar_processing_text"
  by (simp add: avatar_uploaded_def upload_avatar_def add_request_def request_done_def)

definition sample_account :: account_card where
  "sample_account = submit_form () (type_nickname (js '' ab '') (open_account_card
     \<lparr>user_id = 1, user_username = js ''u'', user_nickname = js ''n'', user_email = js ''e'',
      user_email_verified = True, user_avatar_url = None\<rparr>))"


end
