(* ===== verification/Attachment_Card.thy ===== *)
theory Attachment_Card
  imports Guarded_Action Attachments Messages Composer_Messages Complex_Main
begin

text \<open>
  The cards of attachments (\<open>frontend/src/files/AttachmentCard.tsx\<close>, \<open>PastedTextCard.tsx\<close>): what a card says
  about its file, the size of a picture's frame, the cache of signed addresses shared by all cards, the preview
  and download of one card, and the text of a pasted file.

  A promise is a number. Continuations of a promise run when it settles, in any order with the user's clicks.
\<close>

section \<open>Definitions\<close>

subsection \<open>What a card shows\<close>

record shared_placeholder =
  sp_name :: jstr
  sp_media_type :: jstr
  sp_size_bytes :: int
  sp_category :: jstr
  sp_warning :: "jstr list option"
  sp_warnings :: "jstr list option"
  sp_model_input_kind :: "input_kind option option"
  sp_preview_available :: "bool option"
  sp_ref :: "jstr option"
  sp_origin :: "attachment_origin option"
  sp_position :: "int option"
  sp_stats :: "(jstr \<times> json) list option"

datatype card_file = OwnFile file_attachment | SharedFile shared_placeholder

datatype attachment_display = StaticCard card_file | DraftCard draft_attachment

definition readHandle :: "card_file option \<Rightarrow> jstr option" where
  "readHandle attachment =
     (case attachment of None \<Rightarrow> None | Some (OwnFile f) \<Rightarrow> Some (fa_id f) | Some (SharedFile p) \<Rightarrow> sp_ref p)"

definition display_draft :: "attachment_display \<Rightarrow> draft_attachment option" where
  "display_draft a = (case a of DraftCard d \<Rightarrow> Some d | StaticCard _ \<Rightarrow> None)"

definition display_file :: "attachment_display \<Rightarrow> card_file option" where
  "display_file a = (case a of DraftCard d \<Rightarrow> map_option OwnFile (da_file d) | StaticCard f \<Rightarrow> Some f)"

definition card_preview_available :: "card_file option \<Rightarrow> bool" where
  "card_preview_available f =
     (case f of None \<Rightarrow> False | Some (OwnFile a) \<Rightarrow> fa_preview_available a
      | Some (SharedFile p) \<Rightarrow> sp_preview_available p = Some True)"

fun card_file_category :: "card_file \<Rightarrow> jstr" where
  "card_file_category (OwnFile a) = fa_category a"
| "card_file_category (SharedFile p) = sp_category p"

fun card_file_name :: "card_file \<Rightarrow> jstr" where
  "card_file_name (OwnFile a) = fa_name a"
| "card_file_name (SharedFile p) = sp_name p"

fun card_file_origin :: "card_file \<Rightarrow> attachment_origin option" where
  "card_file_origin (OwnFile a) = fa_origin a"
| "card_file_origin (SharedFile p) = sp_origin p"

definition display_category :: "attachment_display \<Rightarrow> jstr option" where
  "display_category a =
     orelse (map_option card_file_category (display_file a)) (map_option da_category (display_draft a))"

definition display_name :: "attachment_display \<Rightarrow> jstr option" where
  "display_name a = orelse (map_option card_file_name (display_file a)) (map_option da_name (display_draft a))"

definition display_is_image :: "attachment_display \<Rightarrow> bool" where
  "display_is_image a \<longleftrightarrow> display_category a = Some (js ''image'')"

text \<open>\<open>AttachmentCard\<close> chooses the card of a pasted text or of a file.\<close>

definition shows_pasted_card :: "attachment_display \<Rightarrow> bool" where
  "shows_pasted_card a \<longleftrightarrow>
     (case a of
        DraftCard d \<Rightarrow> orelse (da_origin d) (Option.bind (da_file d) fa_origin)
      | StaticCard f \<Rightarrow> card_file_origin f) = Some Paste"

definition positiveDimension :: "rat option \<Rightarrow> rat option" where
  "positiveDimension v = (case v of None \<Rightarrow> None | Some d \<Rightarrow> if d > 0 then Some d else None)"

definition fittedImageFrame ::
  "rat option \<Rightarrow> rat option \<Rightarrow> rat \<Rightarrow> rat \<Rightarrow> (rat \<times> rat) option"
where
  "fittedImageFrame width height maxWidth maxHeight =
     (case (width, height) of
        (Some w, Some h) \<Rightarrow>
          (let scale = min 1 (min (maxWidth / w) (maxHeight / h)) in Some (max 1 (w * scale), max 1 (h * scale)))
      | _ \<Rightarrow> None)"

text \<open>\<open>toFixed(1)\<close> of \<open>bytes / unit\<close>: tenths, halves rounded up.\<close>

definition to_fixed1 :: "int \<Rightarrow> int \<Rightarrow> jstr" where
  "to_fixed1 bytes unit =
     (let tenths = (20 * bytes + unit) div (2 * unit)
      in int_string (tenths div 10) @ js ''.'' @ int_string (tenths mod 10))"

definition formatBytes :: "int \<Rightarrow> jstr" where
  "formatBytes bytes =
     (if bytes < 1024 then int_string bytes @ js '' B''
      else if bytes < 1024 * 1024 then to_fixed1 bytes 1024 @ js '' KiB''
      else to_fixed1 bytes (1024 * 1024) @ js '' MiB'')"

definition uploadIndicatorProgress :: "draft_attachment option \<Rightarrow> int option" where
  "uploadIndicatorProgress draft =
     (case draft of
        Some d \<Rightarrow> if da_status d = Uploading then Some (nullish (da_progress d) 0) else None
      | None \<Rightarrow> None)"

subsection \<open>The cache of signed addresses\<close>

definition read_url_ttl :: int where "read_url_ttl = 4 * 60 * 1000"
definition read_url_limit :: nat where "read_url_limit = 200"

text \<open>
  The cache of one resolver: for a key the time of the request and its promise, in the order of insertion.
  \<open>rc_sent\<close> holds the requests under way: promise and key.
\<close>

record read_cache =
  rc_entries :: "(jstr \<times> int \<times> nat) list"
  rc_sent :: "(nat \<times> jstr) list"
  rc_next :: nat

definition empty_read_cache :: read_cache where
  "empty_read_cache = \<lparr>rc_entries = [], rc_sent = [], rc_next = 0\<rparr>"

definition read_key :: "jstr \<Rightarrow> read_role \<Rightarrow> jstr" where
  "read_key fileId role = fileId @ js '':'' @ role_text role"

definition drop_stale :: "int \<Rightarrow> (jstr \<times> int \<times> nat) list \<Rightarrow> (jstr \<times> int \<times> nat) list" where
  "drop_stale now entries = filter (\<lambda>(k, createdAt, r). \<not> now - createdAt \<ge> read_url_ttl) entries"

definition cachedReadUrl :: "int \<Rightarrow> jstr \<Rightarrow> read_role \<Rightarrow> read_cache \<Rightarrow> nat \<times> read_cache" where
  "cachedReadUrl now fileId role c =
     (let entries = drop_stale now (rc_entries c);
          cacheKey = read_key fileId role
      in case map_of entries cacheKey of
        Some (_, req) \<Rightarrow> (req, c\<lparr>rc_entries := entries\<rparr>)
      | None \<Rightarrow>
          let req = rc_next c;
              added = entries @ [(cacheKey, now, req)]
          in (req,
              c\<lparr>rc_entries := (if length added > read_url_limit then tl added else added),
                rc_sent := rc_sent c @ [(req, cacheKey)], rc_next := Suc req\<rparr>))"

text \<open>A request settles; a rejected one deletes the entry of its key, whichever request that holds by now.\<close>

definition read_request_settled :: "nat \<Rightarrow> jstr \<Rightarrow> bool \<Rightarrow> read_cache \<Rightarrow> read_cache" where
  "read_request_settled r key ok c =
     c\<lparr>rc_sent := remove1 (r, key) (rc_sent c),
       rc_entries := (if ok then rc_entries c else AList.delete key (rc_entries c))\<rparr>"

subsection \<open>Preview and download\<close>

record file_card =
  fc_previewUrl :: "jstr option"
  fc_previewOpen :: bool
  fc_loadingRole :: "read_role option"
  fc_readError :: "jstr option"
  fc_previewRequest :: "nat option"
  fc_waiting :: nat
  fc_downloads :: "nat list"

text \<open>
  \<open>fc_waiting\<close> counts the clicks that open the preview when the request under way is answered;
  \<open>fc_downloads\<close> holds the downloads under way.
\<close>

definition initial_file_card :: file_card where
  "initial_file_card =
     \<lparr>fc_previewUrl = None, fc_previewOpen = False, fc_loadingRole = None, fc_readError = None,
      fc_previewRequest = None, fc_waiting = 0, fc_downloads = []\<rparr>"

text \<open>The values of the render: local pictures, the handle, whether there is a resolver and a preview.\<close>

record card_props =
  cp_local :: "jstr option"
  cp_localPreviewUrl :: "jstr option"
  cp_fileId :: "jstr option"
  cp_hasReader :: bool
  cp_previewAvailable :: bool
  cp_isImage :: bool
  cp_downloadName :: "jstr option"

datatype preview_source = ReadyPreview jstr | NoPreview | PreviewPending

definition resolvePreviewUrl :: "card_props \<Rightarrow> nat \<Rightarrow> file_card \<Rightarrow> preview_source \<times> file_card" where
  "resolvePreviewUrl p req c =
     (if truthy (cp_local p) then (ReadyPreview (the (cp_local p)), c)
      else if truthy (cp_localPreviewUrl p) then (ReadyPreview (the (cp_localPreviewUrl p)), c)
      else if truthy (fc_previewUrl c) then (ReadyPreview (the (fc_previewUrl c)), c)
      else if \<not> truthy (cp_fileId p) \<or> \<not> cp_hasReader p \<or> \<not> cp_previewAvailable p then (NoPreview, c)
      else
        (PreviewPending,
         case fc_previewRequest c of
           Some _ \<Rightarrow> c
         | None \<Rightarrow>
             c\<lparr>fc_loadingRole := Some Preview, fc_readError := None, fc_previewRequest := Some req\<rparr>))"

text \<open>The effect that loads the thumbnail of a picture.\<close>

definition thumbnail_effect :: "card_props \<Rightarrow> nat \<Rightarrow> file_card \<Rightarrow> file_card" where
  "thumbnail_effect p req c =
     (if \<not> cp_isImage p \<or> truthy (cp_local p) \<or> truthy (cp_localPreviewUrl p) \<or> truthy (fc_previewUrl c) \<or>
         \<not> cp_previewAvailable p
      then c else snd (resolvePreviewUrl p req c))"

definition read_preview :: "card_props \<Rightarrow> nat \<Rightarrow> file_card \<Rightarrow> file_card" where
  "read_preview p req c =
     (case resolvePreviewUrl p req c of
        (ReadyPreview url, c1) \<Rightarrow> if url \<noteq> [] then c1\<lparr>fc_previewOpen := True\<rparr> else c1
      | (NoPreview, c1) \<Rightarrow> c1
      | (PreviewPending, c1) \<Rightarrow> c1\<lparr>fc_waiting := Suc (fc_waiting c1)\<rparr>)"

definition preview_settled :: "jstr option \<Rightarrow> file_card \<Rightarrow> file_card" where
  "preview_settled answer c =
     (let c1 = c\<lparr>fc_previewRequest := None, fc_waiting := 0,
                 fc_loadingRole := (if fc_loadingRole c = Some Preview then None else fc_loadingRole c)\<rparr>
      in case answer of
        Some url \<Rightarrow>
          c1\<lparr>fc_previewUrl := Some url, fc_previewOpen := (fc_previewOpen c \<or> fc_waiting c > 0 \<and> url \<noteq> [])\<rparr>
      | None \<Rightarrow> c1\<lparr>fc_readError := Some (js ''The image could not be opened. Please try again.'')\<rparr>)"

definition read_download :: "card_props \<Rightarrow> nat \<Rightarrow> file_card \<Rightarrow> file_card" where
  "read_download p req c =
     (if \<not> truthy (cp_fileId p) \<or> \<not> cp_hasReader p \<or> fc_loadingRole c \<noteq> None then c
      else c\<lparr>fc_loadingRole := Some Download, fc_readError := None, fc_downloads := fc_downloads c @ [req]\<rparr>)"

text \<open>The address and the name given to the link that is clicked, if the download has an address.\<close>

definition download_settled ::
  "card_props \<Rightarrow> nat \<Rightarrow> jstr option \<Rightarrow> file_card \<Rightarrow> file_card \<times> (jstr \<times> jstr) option"
where
  "download_settled p req answer c =
     (let c1 = c\<lparr>fc_loadingRole := None, fc_downloads := remove1 req (fc_downloads c)\<rparr>
      in case answer of
        Some url \<Rightarrow> (c1, Some (url, nullish (cp_downloadName p) (js ''download'')))
      | None \<Rightarrow> (c1\<lparr>fc_readError := Some (js ''The file could not be opened. Please try again.'')\<rparr>, None))"

definition close_preview :: "file_card \<Rightarrow> file_card" where
  "close_preview c = c\<lparr>fc_previewOpen := False\<rparr>"

definition card_image_url :: "card_props \<Rightarrow> file_card \<Rightarrow> jstr option" where
  "card_image_url p c = orelse (orelse (cp_local p) (cp_localPreviewUrl p)) (fc_previewUrl c)"

definition preview_dialog_shown :: "card_props \<Rightarrow> file_card \<Rightarrow> bool" where
  "preview_dialog_shown p c \<longleftrightarrow> fc_previewOpen c \<and> truthy (card_image_url p c)"

section \<open>Signed addresses are fresh\<close>

text \<open>
  The cache beside a clock, the requests made (promise, key, time), the promises handed out (time, key, promise)
  and the promises that were rejected.
\<close>

record read_world =
  rw_cache :: read_cache
  rw_now :: int
  rw_made :: "(nat \<times> jstr \<times> int) list"
  rw_handed :: "(int \<times> jstr \<times> nat) list"
  rw_rejected :: "nat list"

inductive read_step :: "read_world \<Rightarrow> read_world \<Rightarrow> bool" where
  passed: "0 \<le> d \<Longrightarrow> read_step w (w\<lparr>rw_now := rw_now w + d\<rparr>)"
| asked: "cachedReadUrl (rw_now w) fileId role (rw_cache w) = (r, c) \<Longrightarrow>
    read_step w
      (w\<lparr>rw_cache := c,
         rw_made := (if rc_next c = rc_next (rw_cache w) then rw_made w
                     else rw_made w @ [(r, read_key fileId role, rw_now w)]),
         rw_handed := rw_handed w @ [(rw_now w, read_key fileId role, r)]\<rparr>)"
| settled: "(r, key) \<in> set (rc_sent (rw_cache w)) \<Longrightarrow>
    read_step w
      (w\<lparr>rw_cache := read_request_settled r key ok (rw_cache w),
         rw_rejected := (if ok then rw_rejected w else r # rw_rejected w)\<rparr>)"

inductive read_reach :: "read_world \<Rightarrow> bool" where
  started: "read_reach \<lparr>rw_cache = empty_read_cache, rw_now = t, rw_made = [], rw_handed = [], rw_rejected = []\<rparr>"
| stepped: "read_reach w \<Longrightarrow> read_step w w' \<Longrightarrow> read_reach w'"

definition entry_ok :: "read_world \<Rightarrow> jstr \<times> int \<times> nat \<Rightarrow> bool" where
  "entry_ok w e \<longleftrightarrow>
     (case e of (key, t, r) \<Rightarrow>
        (r, key, t) \<in> set (rw_made w) \<and> t \<le> rw_now w \<and> r < rc_next (rw_cache w) \<and> r \<notin> set (rw_rejected w))"

definition handed_fresh :: "(nat \<times> jstr \<times> int) list \<Rightarrow> int \<times> jstr \<times> nat \<Rightarrow> bool" where
  "handed_fresh made h \<longleftrightarrow>
     (case h of (now, key, r) \<Rightarrow> list_ex (\<lambda>(r', key', t). r' = r \<and> key' = key \<and> t \<le> now \<and> now - t < read_url_ttl) made)"

definition read_inv :: "read_world \<Rightarrow> bool" where
  "read_inv w \<longleftrightarrow>
     length (rc_entries (rw_cache w)) \<le> read_url_limit \<and> distinct (map fst (rc_entries (rw_cache w))) \<and>
     (\<forall>e \<in> set (rc_entries (rw_cache w)). entry_ok w e) \<and>
     (\<forall>s \<in> set (rc_sent (rw_cache w)). fst s < rc_next (rw_cache w) \<and> fst s \<notin> set (rw_rejected w) \<and>
        (\<forall>m \<in> set (rw_made w). fst m = fst s \<longrightarrow> fst (snd m) = snd s)) \<and>
     distinct (map fst (rc_sent (rw_cache w))) \<and>
     (\<forall>m \<in> set (rw_made w). fst m < rc_next (rw_cache w)) \<and> (\<forall>r \<in> set (rw_rejected w). r < rc_next (rw_cache w)) \<and>
     (\<forall>h \<in> set (rw_handed w). handed_fresh (rw_made w) h)"

lemma drop_stale_subset: "set (drop_stale now es) \<subseteq> set es" "length (drop_stale now es) \<le> length es"
  by (auto simp: drop_stale_def length_filter_le)

lemma drop_stale_distinct: "distinct (map fst es) \<Longrightarrow> distinct (map fst (drop_stale now es))"
  by (simp add: drop_stale_def distinct_map_filter)

lemma handed_fresh_mono: "handed_fresh made h \<Longrightarrow> handed_fresh (made @ ms) h"
  by (auto simp: handed_fresh_def)

lemma read_inv_hit:
  assumes "read_inv w" and "map_of (drop_stale (rw_now w) (rc_entries (rw_cache w))) key = Some (t, r)"
  shows "read_inv (w\<lparr>rw_cache := (rw_cache w)\<lparr>rc_entries := drop_stale (rw_now w) (rc_entries (rw_cache w))\<rparr>,
    rw_handed := rw_handed w @ [(rw_now w, key, r)]\<rparr>)"
proof -
  let ?es = "drop_stale (rw_now w) (rc_entries (rw_cache w))"
  have mem: "(key, t, r) \<in> set ?es" using assms(2) by (rule map_of_SomeD)
  then have "entry_ok w (key, t, r)" and "rw_now w - t < read_url_ttl"
    using assms(1) drop_stale_subset(1) by (auto simp: read_inv_def drop_stale_def)
  then have "handed_fresh (rw_made w) (rw_now w, key, r)"
    by (auto simp: handed_fresh_def entry_ok_def list_ex_iff)
  moreover have "\<forall>e \<in> set ?es. entry_ok w e" and "length ?es \<le> read_url_limit" and "distinct (map fst ?es)"
    using assms(1) drop_stale_subset [of "rw_now w" "rc_entries (rw_cache w)"] drop_stale_distinct
    by (auto simp: read_inv_def)
  ultimately show ?thesis using assms(1) by (simp add: read_inv_def entry_ok_def)
qed

lemma read_inv_miss:
  assumes "read_inv w" and "map_of (drop_stale (rw_now w) (rc_entries (rw_cache w))) key = None"
  defines "added \<equiv> drop_stale (rw_now w) (rc_entries (rw_cache w)) @ [(key, rw_now w, rc_next (rw_cache w))]"
  shows "read_inv (w\<lparr>rw_cache := (rw_cache w)
      \<lparr>rc_entries := (if length added > read_url_limit then tl added else added),
       rc_sent := rc_sent (rw_cache w) @ [(rc_next (rw_cache w), key)], rc_next := Suc (rc_next (rw_cache w))\<rparr>,
    rw_made := rw_made w @ [(rc_next (rw_cache w), key, rw_now w)],
    rw_handed := rw_handed w @ [(rw_now w, key, rc_next (rw_cache w))]\<rparr>)" (is "read_inv ?w")
proof -
  let ?es = "drop_stale (rw_now w) (rc_entries (rw_cache w))"
  have old: "\<forall>e \<in> set ?es. entry_ok w e" "length ?es \<le> read_url_limit" "distinct (map fst ?es)" "key \<notin> fst ` set ?es"
    using assms(1,2) drop_stale_subset [of "rw_now w" "rc_entries (rw_cache w)"] drop_stale_distinct
    by (auto simp: read_inv_def map_of_eq_None_iff)
  have kept: "entry_ok ?w e" if "entry_ok w e" for e
    using that by (auto simp: entry_ok_def split: prod.splits)
  have new: "entry_ok ?w (key, rw_now w, rc_next (rw_cache w))"
    using assms(1) by (auto simp: entry_ok_def read_inv_def)
  have added: "\<forall>e \<in> set added. entry_ok ?w e" "distinct (map fst added)" "length added \<le> Suc read_url_limit"
    using old kept new by (auto simp: assms(3))
  moreover have "set (tl added) \<subseteq> set added" by (cases added) auto
  ultimately have "\<forall>e \<in> set (tl added). entry_ok ?w e" "distinct (map fst (tl added))"
    by (auto simp only: map_tl distinct_tl subsetD)
  with added have entries: "\<forall>e \<in> set (rc_entries (rw_cache ?w)). entry_ok ?w e"
      "distinct (map fst (rc_entries (rw_cache ?w)))" "length (rc_entries (rw_cache ?w)) \<le> read_url_limit"
    by auto
  have "handed_fresh (rw_made ?w) (rw_now w, key, rc_next (rw_cache w))"
    by (simp add: handed_fresh_def read_url_ttl_def)
  then have "\<forall>h \<in> set (rw_handed ?w). handed_fresh (rw_made ?w) h"
    using assms(1) by (auto simp: read_inv_def intro: handed_fresh_mono)
  then show ?thesis
    using assms(1) entries by (auto simp: read_inv_def)
qed

lemma read_inv_settled:
  assumes "read_inv w" and "(r, key) \<in> set (rc_sent (rw_cache w))"
  shows "read_inv (w\<lparr>rw_cache := read_request_settled r key ok (rw_cache w),
    rw_rejected := (if ok then rw_rejected w else r # rw_rejected w)\<rparr>)" (is "read_inv ?w")
proof -
  have sent: "r < rc_next (rw_cache w)" "\<forall>m \<in> set (rw_made w). fst m = r \<longrightarrow> fst (snd m) = key"
    using assms by (auto simp: read_inv_def)
  have others: "\<forall>s \<in> set (remove1 (r, key) (rc_sent (rw_cache w))). fst s \<noteq> r"
  proof -
    have "distinct (map fst (rc_sent (rw_cache w)))" using assms(1) by (simp add: read_inv_def)
    moreover from this have "distinct (rc_sent (rw_cache w))" by (simp add: distinct_map)
    ultimately show ?thesis using assms(2) by (auto simp: set_remove1_eq dest: eq_key_imp_eq_value)
  qed
  have "entry_ok ?w e" if "entry_ok w e" "ok \<or> fst e \<noteq> key" for e
    using that sent(2) by (auto simp: entry_ok_def read_request_settled_def split: prod.splits)
  then have "\<forall>e \<in> set (rc_entries (rw_cache ?w)). entry_ok ?w e"
    using assms(1) by (auto simp: read_inv_def read_request_settled_def AList.delete_eq)
  moreover have "length (rc_entries (rw_cache ?w)) \<le> read_url_limit" "distinct (map fst (rc_entries (rw_cache ?w)))"
    using assms(1) length_delete_le [of key "rc_entries (rw_cache w)"]
    by (auto simp: read_inv_def read_request_settled_def distinct_delete)
  moreover have "distinct (map fst (remove1 (r, key) (rc_sent (rw_cache w))))"
    using assms(1) by (auto simp: read_inv_def distinct_map distinct_remove1 set_remove1_eq intro: inj_on_subset)
  ultimately show ?thesis
    using assms(1) sent(1) others
    by (auto simp: read_inv_def read_request_settled_def dest: notin_set_remove1 in_set_remove1 [THEN iffD1, rotated])
qed

lemma read_inv_step:
  assumes "read_step w w'" and "read_inv w"
  shows "read_inv w'"
  using assms
proof (induction rule: read_step.induct)
  case (passed d w)
  then show ?case by (auto simp: read_inv_def entry_ok_def)
next
  case (asked w fileId role r c)
  let ?key = "read_key fileId role"
  show ?case
  proof (cases "map_of (drop_stale (rw_now w) (rc_entries (rw_cache w))) ?key")
    case None
    then show ?thesis using read_inv_miss [OF asked.prems None] asked.hyps
      by (auto simp: cachedReadUrl_def Let_def)
  next
    case (Some e)
    then obtain t where hit: "map_of (drop_stale (rw_now w) (rc_entries (rw_cache w))) ?key = Some (t, r)"
      using asked.hyps by (cases e) (auto simp: cachedReadUrl_def)
    then have "c = (rw_cache w)\<lparr>rc_entries := drop_stale (rw_now w) (rc_entries (rw_cache w))\<rparr>"
      using asked.hyps by (auto simp: cachedReadUrl_def)
    then show ?thesis using read_inv_hit [OF asked.prems hit] by simp
  qed
next
  case (settled r key w ok)
  then show ?case by (intro read_inv_settled)
qed

lemma read_reach_inv: "read_reach w \<Longrightarrow> read_inv w"
proof (induction rule: read_reach.induct)
  case (started t)
  show ?case by (simp add: read_inv_def empty_read_cache_def)
next
  case (stepped w w')
  then show ?case by (blast intro: read_inv_step)
qed

text \<open>
  Signed addresses (C40). The cache of signed addresses never holds more than 200 entries, nor two for one file
  and role, nor a request that has failed; and every request a card is given was made, for its own file and role,
  less than four minutes before, so an address is not used after it has expired.
\<close>

theorem read_urls_fresh:
  assumes "read_reach w"
  shows "length (rc_entries (rw_cache w)) \<le> 200 \<and> distinct (map fst (rc_entries (rw_cache w))) \<and>
    list_all (\<lambda>(key, t, r). r \<notin> set (rw_rejected w)) (rc_entries (rw_cache w)) \<and>
    list_all (\<lambda>(now, key, r). list_ex (\<lambda>(r', key', t). r' = r \<and> key' = key \<and> t \<le> now \<and> now - t < 240000) (rw_made w))
      (rw_handed w)"
  using read_reach_inv [OF assms]
  by (auto simp: read_inv_def list_all_iff entry_ok_def handed_fresh_def read_url_limit_def read_url_ttl_def)

section \<open>One preview at a time\<close>

fun set_option_list :: "'a option \<Rightarrow> 'a list" where
  "set_option_list None = []"
| "set_option_list (Some x) = [x]"

lemma set_option_list_remove: "f \<in> set (set_option_list x) \<Longrightarrow> remove1 f (set_option_list x) = []"
  by (cases x) auto

text \<open>However often a card is clicked or rendered, its preview is requested once until the answer is in.\<close>

interpretation preview_action: guarded_action "\<lambda>c. fc_previewRequest c \<noteq> None"
  "\<lambda>c. set_option_list (fc_previewRequest c)" "\<lambda>(p, req) c. snd (resolvePreviewUrl p req c)"
  "\<lambda>req answer c. preview_settled answer c"
  by unfold_locales
    (auto simp: resolvePreviewUrl_def preview_settled_def Let_def set_option_list_remove
      split: option.splits if_splits)

lemma frame_fits:
  assumes "fittedImageFrame (Some w) (Some h) maxWidth maxHeight = Some (x, y)"
    and "0 < w" and "0 < h" and "1 \<le> maxWidth" and "1 \<le> maxHeight"
  shows "1 \<le> x" and "x \<le> maxWidth" and "1 \<le> y" and "y \<le> maxHeight" and "x \<le> max 1 w" and "y \<le> max 1 h"
proof -
  let ?s = "min 1 (min (maxWidth / w) (maxHeight / h))"
  have xy: "x = max 1 (w * ?s)" "y = max 1 (h * ?s)" using assms(1) by (simp_all add: fittedImageFrame_def Let_def)
  have small: "?s \<le> 1" "?s \<le> maxWidth / w" "?s \<le> maxHeight / h" by auto
  have "w * ?s \<le> w * 1" "h * ?s \<le> h * 1" "w * ?s \<le> w * (maxWidth / w)" "h * ?s \<le> h * (maxHeight / h)"
    using small assms(2,3) by (simp_all only: mult_le_cancel_left_pos)
  then have "w * ?s \<le> w" "h * ?s \<le> h" "w * ?s \<le> maxWidth" "h * ?s \<le> maxHeight"
    using assms(2,3) by simp_all
  with xy assms(4,5) show "1 \<le> x" and "x \<le> maxWidth" and "1 \<le> y" and "y \<le> maxHeight" and "x \<le> max 1 w" and "y \<le> max 1 h"
    by (simp_all only: max.cobounded1 max.bounded_iff max.coboundedI2 order_refl simp_thms)
qed

definition sample_reads :: read_world where
  "sample_reads =
     (case cachedReadUrl 5 (js ''f'') Preview empty_read_cache of (r, c) \<Rightarrow>
        \<lparr>rw_cache = c, rw_now = 5, rw_made = [(r, read_key (js ''f'') Preview, 5)],
         rw_handed = [(5, read_key (js ''f'') Preview, r)], rw_rejected = []\<rparr>)"

theorem read_urls_fresh_witness:
  "rw_handed sample_reads = [(5, js ''f:preview'', 0)] \<and> length (rc_entries (rw_cache sample_reads)) \<le> 200 \<and>
   distinct (map fst (rc_entries (rw_cache sample_reads))) \<and>
   list_all (\<lambda>(key, t, r). r \<notin> set (rw_rejected sample_reads)) (rc_entries (rw_cache sample_reads)) \<and>
   list_all (\<lambda>(now, key, r). list_ex (\<lambda>(r', key', t). r' = r \<and> key' = key \<and> t \<le> now \<and> now - t < 240000)
      (rw_made sample_reads)) (rw_handed sample_reads)"
proof -
  let ?w = "\<lparr>rw_cache = empty_read_cache, rw_now = 5, rw_made = [], rw_handed = [], rw_rejected = []\<rparr>"
  obtain r c where rc: "cachedReadUrl (rw_now ?w) (js ''f'') Preview (rw_cache ?w) = (r, c)"
    by (cases "cachedReadUrl (rw_now ?w) (js ''f'') Preview (rw_cache ?w)") auto
  then have "rc_next c \<noteq> rc_next (rw_cache ?w)"
    by (auto simp: cachedReadUrl_def empty_read_cache_def drop_stale_def Let_def)
  then have "read_reach sample_reads"
    using read_reach.stepped [OF read_reach.started read_step.asked [OF rc]] rc by (simp add: sample_reads_def)
  note fresh = read_urls_fresh [OF this]
  have "rw_handed sample_reads = [(5, js ''f:preview'', 0)]" by code_simp
  then show ?thesis using fresh by (rule conjI)
qed

section \<open>Pasted text\<close>

text \<open>
  The card of a pasted text. The texts of the pastes made in this tab are the map \<open>m\<close>; otherwise the text is read
  from the server when it is first needed, by the dialog or by \<open>expand\<close>, which moves it into the prompt.
\<close>

record pasted_props =
  pp_composer :: bool
  pp_draft :: "draft_attachment option"
  pp_file :: "card_file option"
  pp_readHandle :: "jstr option"
  pp_hasReader :: bool
  pp_promptChars :: "nat option"

record pasted_card =
  pc_open :: bool
  pc_loadedText :: "jstr option"
  pc_loading :: bool
  pc_readError :: "jstr option"
  pc_reads :: "bool list"

text \<open>\<open>pc_reads\<close>: the reads under way, and whether each ends in an expansion.\<close>

definition initial_pasted_card :: pasted_card where
  "initial_pasted_card =
     \<lparr>pc_open = False, pc_loadedText = None, pc_loading = False, pc_readError = None, pc_reads = []\<rparr>"

definition read_text_error :: jstr where
  "read_text_error = js ''The pasted text could not be loaded. Please try again.''"

definition statValue :: "(jstr \<times> json) list option \<Rightarrow> jstr \<Rightarrow> json option" where
  "statValue stats key = Option.bind stats (\<lambda>s. js_map_of s key)"

fun card_file_stats :: "card_file \<Rightarrow> (jstr \<times> json) list option" where
  "card_file_stats (OwnFile a) = fa_stats a"
| "card_file_stats (SharedFile p) = sp_stats p"

definition pasted_card_text :: "pasted_props \<Rightarrow> (jstr \<rightharpoonup> jstr) \<Rightarrow> pasted_card \<Rightarrow> jstr option" where
  "pasted_card_text p m c =
     orelse (pc_loadedText c)
       (pastedText m (map (\<lambda>h. nullish h []) [map_option da_client_id (pp_draft p), pp_readHandle p]))"

text \<open>\<open>String(x ?? "")\<close> of a statistic that is a string or a number.\<close>

fun stat_string :: "json option \<Rightarrow> jstr" where
  "stat_string (Some (JStr s)) = s"
| "stat_string (Some (JNum n)) = int_string n"
| "stat_string _ = []"

definition pasted_title :: "pasted_props \<Rightarrow> (jstr \<rightharpoonup> jstr) \<Rightarrow> pasted_card \<Rightarrow> jstr" where
  "pasted_title p m c =
     (let line = (case pasted_card_text p m c of
                    Some t \<Rightarrow> firstLine t
                  | None \<Rightarrow> stat_string (statValue (Option.bind (pp_file p) card_file_stats) (js ''first_line'')))
      in if line = [] then pasted_text_title else line)"

definition pasted_line_count :: "pasted_props \<Rightarrow> (jstr \<rightharpoonup> jstr) \<Rightarrow> pasted_card \<Rightarrow> nat option" where
  "pasted_line_count p m c =
     (case pasted_card_text p m c of
        Some t \<Rightarrow> Some (countLines t)
      | None \<Rightarrow>
          (case statValue (Option.bind (pp_file p) card_file_stats) (js ''line_count'') of
             Some (JNum n) \<Rightarrow> Some (nat n) | _ \<Rightarrow> None))"

definition pasted_status :: "pasted_props \<Rightarrow> (jstr \<rightharpoonup> jstr) \<Rightarrow> pasted_card \<Rightarrow> jstr" where
  "pasted_status p m c =
     (case pp_draft p of
        Some d \<Rightarrow>
          if isUploadFailed (da_status d) then nullish (da_error_message d) file_upload_failure_text
          else if isUploadInProgress (da_status d) then uploading_label
          else (case pasted_line_count p m c of
                  Some n \<Rightarrow> pasted_text_title @ middle_dot @ formatCount n @ lines_suffix
                | None \<Rightarrow> pasted_text_title)
      | None \<Rightarrow>
          (case pasted_line_count p m c of
             Some n \<Rightarrow> pasted_text_title @ middle_dot @ formatCount n @ lines_suffix
           | None \<Rightarrow> pasted_text_title))"

definition fits_prompt :: "jstr \<Rightarrow> nat \<Rightarrow> bool" where
  "fits_prompt t promptChars \<longleftrightarrow> int (countChars t) \<le> int message_char_limit - int promptChars"

definition canExpand :: "pasted_props \<Rightarrow> (jstr \<rightharpoonup> jstr) \<Rightarrow> pasted_card \<Rightarrow> bool" where
  "canExpand p m c \<longleftrightarrow>
     pp_composer p \<and> (\<exists>d \<in> set_option (pp_draft p). da_status d = Durable FSucceeded) \<and>
     (case pp_promptChars p of
        None \<Rightarrow> False
      | Some n \<Rightarrow> (case pasted_card_text p m c of None \<Rightarrow> True | Some t \<Rightarrow> fits_prompt t n))"

text \<open>\<open>loadText\<close> up to its await: the text at once, a failure at once, or a read under way.\<close>

datatype load_result = TextKnown jstr | TextMissing | TextReading

definition loadText :: "pasted_props \<Rightarrow> (jstr \<rightharpoonup> jstr) \<Rightarrow> bool \<Rightarrow> pasted_card \<Rightarrow> load_result \<times> pasted_card" where
  "loadText p m expanding c =
     (case pasted_card_text p m c of
        Some t \<Rightarrow> (TextKnown t, c)
      | None \<Rightarrow>
          if \<not> truthy (pp_readHandle p) \<or> \<not> pp_hasReader p
          then (TextMissing, c\<lparr>pc_readError := Some read_text_error\<rparr>)
          else (TextReading, c\<lparr>pc_loading := True, pc_readError := None, pc_reads := pc_reads c @ [expanding]\<rparr>))"

text \<open>The call of \<open>onExpand\<close>: the client id and the text.\<close>

definition expand_text :: "pasted_props \<Rightarrow> jstr \<Rightarrow> (jstr \<times> jstr) option" where
  "expand_text p t =
     (case (pp_draft p, pp_promptChars p) of
        (Some d, Some n) \<Rightarrow> if fits_prompt t n then Some (da_client_id d, t) else None
      | _ \<Rightarrow> None)"

definition openDialog :: "pasted_props \<Rightarrow> (jstr \<rightharpoonup> jstr) \<Rightarrow> pasted_card \<Rightarrow> pasted_card" where
  "openDialog p m c = snd (loadText p m False (c\<lparr>pc_open := True\<rparr>))"

definition expand_pasted_card ::
  "pasted_props \<Rightarrow> (jstr \<rightharpoonup> jstr) \<Rightarrow> pasted_card \<Rightarrow> pasted_card \<times> (jstr \<times> jstr) option"
where
  "expand_pasted_card p m c =
     (if pp_draft p = None \<or> pp_promptChars p = None then (c, None)
      else case loadText p m True c of
        (TextKnown t, c1) \<Rightarrow> (c1, expand_text p t)
      | (_, c1) \<Rightarrow> (c1, None))"

text \<open>
  A read is answered: the text is remembered under its handle. \<open>p\<close> is the render the read began in, whose count of
  the prompt's characters the expansion still uses.
\<close>

definition pasted_text_read ::
  "pasted_props \<Rightarrow> bool \<Rightarrow> jstr option \<Rightarrow> (jstr \<rightharpoonup> jstr) \<Rightarrow> pasted_card \<Rightarrow>
   pasted_card \<times> (jstr \<rightharpoonup> jstr) \<times> (jstr \<times> jstr) option"
where
  "pasted_text_read p expanding answer m c =
     (let c1 = c\<lparr>pc_loading := False, pc_reads := remove1 expanding (pc_reads c)\<rparr>
      in case answer of
        None \<Rightarrow> (c1\<lparr>pc_readError := Some read_text_error\<rparr>, m, None)
      | Some t \<Rightarrow>
          (c1\<lparr>pc_loadedText := Some t\<rparr>, m(nullish (pp_readHandle p) [] \<mapsto> t),
           if expanding then expand_text p t else None))"

definition close_pasted :: "pasted_card \<Rightarrow> pasted_card" where
  "close_pasted c = c\<lparr>pc_open := False\<rparr>"

datatype pasted_dialog = DialogError jstr | DialogLoading | DialogText jstr

definition pasted_dialog_of :: "pasted_props \<Rightarrow> (jstr \<rightharpoonup> jstr) \<Rightarrow> pasted_card \<Rightarrow> pasted_dialog" where
  "pasted_dialog_of p m c =
     (if truthy (pc_readError c) then DialogError (the (pc_readError c))
      else case pasted_card_text p m c of
        None \<Rightarrow> DialogLoading
      | Some t \<Rightarrow> if pc_loading c then DialogLoading else DialogText t)"

text \<open>
  What a card moves into the prompt fits beside the characters that were in it at the render the click belongs to.
\<close>

lemma expansion_fits:
  "snd (expand_pasted_card p m c) = Some (i, t) \<Longrightarrow>
     \<exists>n. pp_promptChars p = Some n \<and> countChars t + n \<le> message_char_limit"
  "snd (snd (pasted_text_read p expanding answer m c)) = Some (i, t) \<Longrightarrow>
     \<exists>n. pp_promptChars p = Some n \<and> countChars t + n \<le> message_char_limit"
  by (auto simp: expand_pasted_card_def pasted_text_read_def expand_text_def fits_prompt_def Let_def
      split: if_splits option.splits prod.splits load_result.splits)

text \<open>An error of an earlier read hides the text although it is known by now.\<close>

lemma stale_read_error:
  assumes "pasted_card_text p m c = Some t"
  shows "pasted_dialog_of p m (openDialog p m (c\<lparr>pc_readError := Some read_text_error\<rparr>)) = DialogError read_text_error"
proof -
  have "pasted_card_text p m (c\<lparr>pc_readError := e, pc_open := b\<rparr>) = Some t" for e b
    using assms by (simp add: pasted_card_text_def)
  moreover have "read_text_error \<noteq> []" by (simp add: read_text_error_def js_def)
  ultimately show ?thesis by (simp add: pasted_dialog_of_def openDialog_def loadText_def truthy_def)
qed

end
