(* ===== verification/Sidebar_View.thy ===== *)
theory Sidebar_View
  imports Api_Types Messages Composer_Messages Complex_Main
begin

text \<open>
  The sidebar (\<open>frontend/src/conversations/Sidebar.tsx\<close>): the menus of its rows, renaming, its two sections, the
  flyout of the collapsed rail, and the requests for further pages of the list.

  A handler takes the values of the render it belongs to and returns the new state with the calls it makes of its
  properties. Positions are rational pixels.
\<close>

section \<open>Definitions\<close>

datatype row_run_status = RowRunning | RowUnread

record sidebar_props =
  sb_items :: "conversation_response list"
  sb_pinnedItems :: "conversation_response list"
  sb_selectedId :: "jstr option"
  sb_isMobile :: bool
  sb_collapsed :: bool
  sb_mobileOpen :: bool
  sb_pendingTitleIds :: "jstr list"
  sb_rowStatus :: "(jstr \<times> row_run_status) list"
  sb_isLoadingList :: bool
  sb_hasMore :: bool
  sb_isLoadingMore :: bool

record sidebar_menu =
  mn_conversationId :: jstr
  mn_left :: rat
  mn_top :: rat

record sidebar =
  si_renameId :: "jstr option"
  si_menu :: "sidebar_menu option"
  si_recent :: "(rat \<times> rat) option"
  si_foldedPinned :: bool
  si_foldedRecent :: bool
  si_lastAutoLoad :: "nat option"

definition initial_sidebar :: sidebar where
  "initial_sidebar =
     \<lparr>si_renameId = None, si_menu = None, si_recent = None, si_foldedPinned = False, si_foldedRecent = False,
      si_lastAutoLoad = None\<rparr>"

datatype sidebar_call =
    SelectRow jstr
  | NewConversation
  | LoadMore
  | RenameRow jstr jstr
  | ShareRow jstr
  | DeleteRow jstr
  | PinRow jstr
  | FavoriteRow jstr
  | CloseMobile
  | ToggleCollapsed

type_synonym sidebar_result = "sidebar \<times> sidebar_call list"

definition desktopMenuWidth :: rat where "desktopMenuWidth = 156"
definition desktopMenuItemHeight :: rat where "desktopMenuItemHeight = 38"
definition desktopMenuPadding :: rat where "desktopMenuPadding = 12"
definition desktopMenuOverlap :: rat where "desktopMenuOverlap = 44"
definition viewportInset :: rat where "viewportInset = 8"
definition railRecentLimit :: nat where "railRecentLimit = 10"
definition railRecentWidth :: rat where "railRecentWidth = 260"

datatype row_action = PinAction | FavoriteAction | ShareAction | RenameAction | DeleteAction

definition rowActionOrder :: "row_action list" where
  "rowActionOrder = [PinAction, FavoriteAction, ShareAction, RenameAction, DeleteAction]"

definition desktopMenuHeight :: rat where
  "desktopMenuHeight = desktopMenuPadding + of_nat (length rowActionOrder) * desktopMenuItemHeight"

subsection \<open>Menus and rows\<close>

text \<open>A click elsewhere, Escape and a change of the window's size close the menu of a row, and the flyout.\<close>

definition close_menu :: "sidebar \<Rightarrow> sidebar" where
  "close_menu s = s\<lparr>si_menu := None\<rparr>"

definition close_recent :: "sidebar \<Rightarrow> sidebar" where
  "close_recent s = s\<lparr>si_recent := None\<rparr>"

text \<open>After a render without the rail the flyout is closed.\<close>

definition rail_effect :: "sidebar_props \<Rightarrow> sidebar \<Rightarrow> sidebar" where
  "rail_effect p s = (if \<not> sb_collapsed p \<or> sb_isMobile p then s\<lparr>si_recent := None\<rparr> else s)"

definition recent_position :: "(rat \<times> rat) option \<Rightarrow> rat \<Rightarrow> rat \<Rightarrow> rat \<times> rat" where
  "recent_position rect innerWidth innerHeight =
     (let left = (case rect of
                    Some (rectRight, _) \<Rightarrow> min (rectRight + 8) (innerWidth - railRecentWidth - viewportInset)
                  | None \<Rightarrow> viewportInset);
          top_edge = (case rect of
                   Some (_, rectTop) \<Rightarrow>
                     min (max viewportInset (rectTop - 6)) (max viewportInset (innerHeight - 360))
                 | None \<Rightarrow> viewportInset)
      in (max viewportInset left, top_edge))"

definition toggleRecent :: "(rat \<times> rat) option \<Rightarrow> rat \<Rightarrow> rat \<Rightarrow> sidebar \<Rightarrow> sidebar" where
  "toggleRecent rect innerWidth innerHeight s =
     (if si_recent s \<noteq> None then s\<lparr>si_recent := None\<rparr>
      else s\<lparr>si_recent := Some (recent_position rect innerWidth innerHeight)\<rparr>)"

definition menu_open :: "sidebar \<Rightarrow> jstr \<Rightarrow> bool" where
  "menu_open s i \<longleftrightarrow> map_option mn_conversationId (si_menu s) = Some i"

definition row_menu_position :: "rat \<Rightarrow> rat \<Rightarrow> rat \<Rightarrow> rat \<Rightarrow> rat \<times> rat" where
  "row_menu_position rectRight rectBottom innerWidth innerHeight =
     (max viewportInset (min (rectRight - desktopMenuOverlap) (innerWidth - desktopMenuWidth - viewportInset)),
      max viewportInset (min (rectBottom - 4) (innerHeight - desktopMenuHeight - viewportInset)))"

text \<open>The button of a row's menu; \<open>rect\<close> is the lower right corner of the row, if there is one.\<close>

definition click_more ::
  "sidebar_props \<Rightarrow> (rat \<times> rat) option \<Rightarrow> rat \<Rightarrow> rat \<Rightarrow> jstr \<Rightarrow> sidebar \<Rightarrow> sidebar"
where
  "click_more p rect innerWidth innerHeight i s =
     (if menu_open s i then s\<lparr>si_menu := None\<rparr>
      else if sb_isMobile p then s\<lparr>si_menu := Some \<lparr>mn_conversationId = i, mn_left = 0, mn_top = 0\<rparr>\<rparr>
      else case rect of
        None \<Rightarrow> s
      | Some (rectRight, rectBottom) \<Rightarrow>
          (case row_menu_position rectRight rectBottom innerWidth innerHeight of (l, t) \<Rightarrow>
             s\<lparr>si_menu := Some \<lparr>mn_conversationId = i, mn_left = l, mn_top = t\<rparr>\<rparr>))"

fun action_label :: "conversation_response \<Rightarrow> row_action \<Rightarrow> jstr" where
  "action_label c PinAction = (if truthy (conv_pinned_at c) then unpin_label else pin_label)"
| "action_label c FavoriteAction = (if truthy (conv_favorited_at c) then unfavorite_label else favorite_label)"
| "action_label c ShareAction = share_label"
| "action_label c RenameAction = rename_label"
| "action_label c DeleteAction = delete_label"

fun run_action :: "row_action \<Rightarrow> jstr \<Rightarrow> sidebar \<Rightarrow> sidebar_result" where
  "run_action PinAction i s = (s\<lparr>si_menu := None\<rparr>, [PinRow i])"
| "run_action FavoriteAction i s = (s\<lparr>si_menu := None\<rparr>, [FavoriteRow i])"
| "run_action ShareAction i s = (s\<lparr>si_menu := None\<rparr>, [ShareRow i])"
| "run_action RenameAction i s = (s\<lparr>si_renameId := Some i, si_menu := None\<rparr>, [])"
| "run_action DeleteAction i s = (s\<lparr>si_menu := None\<rparr>, [DeleteRow i])"

definition blur_rename :: "jstr \<Rightarrow> jstr \<Rightarrow> sidebar \<Rightarrow> sidebar_result" where
  "blur_rename i value_typed s = (s\<lparr>si_renameId := None\<rparr>, [RenameRow i value_typed])"

definition escape_rename :: "sidebar \<Rightarrow> sidebar" where
  "escape_rename s = s\<lparr>si_renameId := None\<rparr>"

text \<open>\<open>fromRail\<close>: the row stands in the flyout, which closes with the choice.\<close>

definition click_row :: "sidebar_props \<Rightarrow> bool \<Rightarrow> jstr \<Rightarrow> sidebar \<Rightarrow> sidebar_result" where
  "click_row p fromRail i s =
     (if fromRail then s\<lparr>si_recent := None\<rparr> else s,
      SelectRow i # (if sb_isMobile p then [CloseMobile] else []))"

definition click_pin :: "jstr \<Rightarrow> sidebar \<Rightarrow> sidebar_result" where
  "click_pin i s = (s, [PinRow i])"

definition click_new :: "sidebar_props \<Rightarrow> bool \<Rightarrow> sidebar \<Rightarrow> sidebar_result" where
  "click_new p onRail s = (s, NewConversation # (if \<not> onRail \<and> sb_isMobile p then [CloseMobile] else []))"

definition toggle_section :: "bool \<Rightarrow> sidebar \<Rightarrow> sidebar" where
  "toggle_section pinned s =
     (if pinned then s\<lparr>si_foldedPinned := \<not> si_foldedPinned s\<rparr> else s\<lparr>si_foldedRecent := \<not> si_foldedRecent s\<rparr>)"

subsection \<open>Further pages\<close>

text \<open>\<open>distance\<close> is how far the list is from its end.\<close>

definition requestNextPageIfNeeded :: "sidebar_props \<Rightarrow> rat \<Rightarrow> bool \<Rightarrow> sidebar \<Rightarrow> sidebar_result" where
  "requestNextPageIfNeeded p distance automatic s =
     (if sb_items p = [] \<or> \<not> sb_hasMore p \<or> sb_isLoadingMore p \<or> si_foldedRecent s then (s, [])
      else if distance \<le> 48
      then
        if automatic \<and> si_lastAutoLoad s = Some (length (sb_items p)) then (s, [])
        else ((if automatic then s\<lparr>si_lastAutoLoad := Some (length (sb_items p))\<rparr> else s), [LoadMore])
      else (s, []))"

definition handleHistoryScroll :: "sidebar_props \<Rightarrow> rat \<Rightarrow> sidebar \<Rightarrow> sidebar_result" where
  "handleHistoryScroll p distance s = requestNextPageIfNeeded p distance False (s\<lparr>si_menu := None\<rparr>)"

definition sidebar_visible :: "sidebar_props \<Rightarrow> bool" where
  "sidebar_visible p = (if sb_isMobile p then sb_mobileOpen p else \<not> sb_collapsed p)"

definition measure_effect :: "sidebar_props \<Rightarrow> rat \<Rightarrow> sidebar \<Rightarrow> sidebar_result" where
  "measure_effect p distance s =
     (if \<not> sidebar_visible p then (s, []) else requestNextPageIfNeeded p distance True s)"

subsection \<open>What is listed\<close>

definition railCollapsed :: "sidebar_props \<Rightarrow> bool" where
  "railCollapsed p \<longleftrightarrow> sb_collapsed p \<and> \<not> sb_isMobile p"

definition hasUnread :: "sidebar_props \<Rightarrow> bool" where
  "hasUnread p \<longleftrightarrow> RowUnread \<in> snd ` set (sb_rowStatus p)"

text \<open>The rows of the history and of the flyout, in their order.\<close>

definition history_rows :: "sidebar_props \<Rightarrow> sidebar \<Rightarrow> conversation_response list" where
  "history_rows p s =
     (if si_foldedPinned s then [] else sb_pinnedItems p) @ (if si_foldedRecent s then [] else sb_items p)"

definition rail_rows :: "sidebar_props \<Rightarrow> conversation_response list" where
  "rail_rows p = sb_pinnedItems p @ take railRecentLimit (sb_items p)"

definition row_title :: "sidebar_props \<Rightarrow> conversation_response \<Rightarrow> jstr option" where
  "row_title p c =
     (if conv_id c \<in> set (sb_pendingTitleIds p) then None
      else Some (if truthy (conv_title c) then the (conv_title c) else untitled_text))"

definition row_suffix :: "sidebar_props \<Rightarrow> conversation_response \<Rightarrow> jstr" where
  "row_suffix p c =
     (case map_of (sb_rowStatus p) (conv_id c) of
        None \<Rightarrow> [] | Some RowRunning \<Rightarrow> running_suffix | Some RowUnread \<Rightarrow> unread_suffix)"

definition recent_header_shown :: "sidebar_props \<Rightarrow> bool" where
  "recent_header_shown p \<longleftrightarrow> sb_items p \<noteq> [] \<or> sb_pinnedItems p = []"

definition skeleton_rows :: "sidebar_props \<Rightarrow> sidebar \<Rightarrow> nat list" where
  "skeleton_rows p s =
     (if sb_items p = [] \<and> sb_pinnedItems p = [] \<and> \<not> si_foldedRecent s \<and> sb_isLoadingList p then [8] else []) @
     (if sb_isLoadingMore p \<and> \<not> si_foldedRecent s then [3] else [])"

definition skeleton_opacity :: "nat \<Rightarrow> nat \<Rightarrow> rat" where
  "skeleton_opacity rows index = 1 - (of_nat index / of_nat rows) * (7 / 10)"

section \<open>Requests for further pages\<close>

text \<open>
  A session of the sidebar: the events in any order, each with the values of the render it meets. The trace records,
  newest first, the render and kind of each request (\<open>True\<close>: automatic).
\<close>

datatype sidebar_event =
    Scrolled rat
  | Measured rat
  | Folded bool
  | MoreClicked jstr "(rat \<times> rat) option" rat rat
  | ActionClicked row_action jstr
  | RailToggled "(rat \<times> rat) option" rat rat
  | RowClicked bool jstr
  | RenameBlurred jstr jstr
  | RenameEscaped
  | ClickedElsewhere
  | Rerendered

definition sidebar_handle :: "sidebar_props \<Rightarrow> sidebar_event \<Rightarrow> sidebar \<Rightarrow> sidebar_result" where
  "sidebar_handle p e s =
     (case e of
        Scrolled d \<Rightarrow> handleHistoryScroll p d s
      | Measured d \<Rightarrow> measure_effect p d s
      | Folded pinned \<Rightarrow> (toggle_section pinned s, [])
      | MoreClicked i rect w h \<Rightarrow> (click_more p rect w h i s, [])
      | ActionClicked a i \<Rightarrow> if menu_open s i then run_action a i s else (s, [])
      | RailToggled rect w h \<Rightarrow> (toggleRecent rect w h s, [])
      | RowClicked fromRail i \<Rightarrow> click_row p fromRail i s
      | RenameBlurred i v \<Rightarrow> if si_renameId s = Some i then blur_rename i v s else (s, [])
      | RenameEscaped \<Rightarrow> (escape_rename s, [])
      | ClickedElsewhere \<Rightarrow> (close_recent (close_menu s), [])
      | Rerendered \<Rightarrow> (rail_effect p s, []))"

definition automatic_event :: "sidebar_event \<Rightarrow> bool" where
  "automatic_event e \<longleftrightarrow> (case e of Measured _ \<Rightarrow> True | _ \<Rightarrow> False)"

fun sidebar_run ::
  "(sidebar_props \<times> sidebar_event) list \<Rightarrow> sidebar \<Rightarrow> (sidebar_props \<times> bool) list \<times> sidebar"
where
  "sidebar_run [] s = ([], s)"
| "sidebar_run ((p, e) # es) s =
     (case sidebar_handle p e s of (s1, calls) \<Rightarrow>
        (case sidebar_run es s1 of (pages, s2) \<Rightarrow>
           ((if LoadMore \<in> set calls then (p, automatic_event e) # pages else pages), s2)))"

lemmas sidebar_handlers = sidebar_handle_def handleHistoryScroll_def measure_effect_def requestNextPageIfNeeded_def
  toggle_section_def click_more_def toggleRecent_def click_row_def blur_rename_def escape_rename_def
  close_recent_def close_menu_def rail_effect_def

text \<open>A handler requests a page only when there is one to request.\<close>

lemma load_more_allowed:
  assumes "sidebar_handle p e s = (s', calls)" and "LoadMore \<in> set calls"
  shows "sb_items p \<noteq> [] \<and> sb_hasMore p \<and> \<not> sb_isLoadingMore p"
  using assms
  by (cases e) (auto simp: sidebar_handlers split: if_splits option.splits elim!: run_action.elims)

text \<open>Only an automatic request changes the mark, and it sets it to the number of rows it saw.\<close>

lemma auto_mark:
  assumes "sidebar_handle p e s = (s', calls)"
  shows "si_lastAutoLoad s' =
    (if LoadMore \<in> set calls \<and> automatic_event e then Some (length (sb_items p)) else si_lastAutoLoad s)"
    and "LoadMore \<in> set calls \<Longrightarrow> automatic_event e \<Longrightarrow> si_lastAutoLoad s \<noteq> Some (length (sb_items p))"
  using assms
  by (cases e; auto simp: sidebar_handlers automatic_event_def split: if_splits option.splits prod.splits
      elim!: run_action.elims)+

text \<open>Consecutive automatic requests, whatever happens between them, saw different numbers of rows.\<close>

fun auto_counts :: "(sidebar_props \<times> bool) list \<Rightarrow> nat list" where
  "auto_counts [] = []"
| "auto_counts ((p, automatic) # pages) =
     (if automatic then length (sb_items p) # auto_counts pages else auto_counts pages)"

lemma auto_counts_progress:
  "successively (\<noteq>) (case si_lastAutoLoad s of None \<Rightarrow> auto_counts (fst (sidebar_run es s))
     | Some n \<Rightarrow> n # auto_counts (fst (sidebar_run es s)))"
proof (induction es arbitrary: s)
  case Nil
  show ?case by (simp split: option.splits)
next
  case (Cons x es)
  obtain p e s1 calls where x: "x = (p, e)" and h: "sidebar_handle p e s = (s1, calls)"
    by (cases x; cases "sidebar_handle (fst x) (snd x) s") auto
  show ?case
    using Cons.IH [of s1] auto_mark [OF h] x h
    by (cases "LoadMore \<in> set calls \<and> automatic_event e")
      (auto simp: successively_Cons split: option.splits prod.splits)
qed

lemma requests_allowed:
  "list_all (\<lambda>q. sb_items (fst q) \<noteq> [] \<and> sb_hasMore (fst q) \<and> \<not> sb_isLoadingMore (fst q)) (fst (sidebar_run es s))"
proof (induction es arbitrary: s)
  case (Cons x es)
  obtain p e s1 calls where x: "x = (p, e)" and h: "sidebar_handle p e s = (s1, calls)"
    by (cases x; cases "sidebar_handle (fst x) (snd x) s") auto
  show ?case using Cons.IH [of s1] load_more_allowed [OF h] x h by (auto split: prod.splits)
qed simp

text \<open>
  Further pages (C42). In any session of the sidebar a further page is asked for only when rows are there, more
  exist, and none is being loaded; and the sidebar never asks by itself twice in a row for the same list, so a page
  that fails or brings nothing is not asked for again and again.
\<close>

theorem pages_requested_with_progress:
  "list_all (\<lambda>q. sb_items (fst q) \<noteq> [] \<and> sb_hasMore (fst q) \<and> \<not> sb_isLoadingMore (fst q))
     (fst (sidebar_run es initial_sidebar)) \<and>
   successively (\<noteq>) (auto_counts (fst (sidebar_run es initial_sidebar)))"
  using requests_allowed [where es = es and s = initial_sidebar] auto_counts_progress [where s = initial_sidebar and es = es]
  by (simp add: initial_sidebar_def)

text \<open>The menus stay in a window that has room for them.\<close>

lemma row_menu_in_window:
  assumes "row_menu_position r b innerWidth innerHeight = (l, t)"
    and "172 \<le> innerWidth" and "218 \<le> innerHeight"
  shows "8 \<le> l" and "l + desktopMenuWidth \<le> innerWidth - 8" and "8 \<le> t" and "t + desktopMenuHeight \<le> innerHeight - 8"
  using assms
  by (auto simp: row_menu_position_def viewportInset_def desktopMenuWidth_def desktopMenuHeight_def
      desktopMenuPadding_def desktopMenuItemHeight_def rowActionOrder_def)

lemma recent_in_window:
  assumes "recent_position rect innerWidth innerHeight = (l, t)" and "276 \<le> innerWidth"
  shows "8 \<le> l" and "l + railRecentWidth \<le> innerWidth - 8" and "8 \<le> t"
  using assms
  by (auto simp: recent_position_def viewportInset_def railRecentWidth_def Let_def split: option.splits)

text \<open>A conversation has one row in each list when the sections do not overlap.\<close>

lemma one_row_each:
  assumes "distinct (map conv_id (sb_pinnedItems p @ sb_items p))"
  shows "distinct (map conv_id (history_rows p s))" and "distinct (map conv_id (rail_rows p))"
proof -
  show "distinct (map conv_id (history_rows p s))" using assms by (auto simp: history_rows_def)
  have "distinct (map conv_id (sb_pinnedItems p) @ take railRecentLimit (map conv_id (sb_items p)))"
    using assms set_take_subset [of railRecentLimit "map conv_id (sb_items p)"] by auto
  then show "distinct (map conv_id (rail_rows p))" by (simp add: rail_rows_def take_map)
qed

end
