(* ===== verification/Code_Highlight.thy ===== *)
theory Code_Highlight
  imports Prelude
begin

text \<open>
  Syntax highlighting (\<open>frontend/src/messages/markdown/codeHighlight.ts\<close>) and the text a code block shows
  (\<open>frontend/src/messages/markdown/CodeBlock.tsx\<close>). The two patterns of the source, for SQL and for shell commands, are
  matchers that give the length of the match at a position, as a backtracking engine finds it; the parsers of the
  other languages are libraries and arguments of \<open>highlightSource\<close>: what \<open>highlightCode\<close> of \<open>@lezer/highlight\<close> reports
  and the tokens of \<open>prism-react-renderer\<close>.
\<close>

section \<open>Chunks\<close>

record code_chunk =
  ck_content :: jstr
  ck_type :: "jstr option"

definition chunk_text :: "code_chunk list \<Rightarrow> jstr" where
  "chunk_text chunks = concat (map ck_content chunks)"

definition appendChunk :: "code_chunk list \<Rightarrow> jstr \<Rightarrow> jstr option \<Rightarrow> code_chunk list" where
  "appendChunk chunks content type =
     (if chunks \<noteq> [] \<and> ck_type (last chunks) = type
      then butlast chunks @ [(last chunks)\<lparr>ck_content := ck_content (last chunks) @ content\<rparr>]
      else chunks @ [\<lparr>ck_content = content, ck_type = type\<rparr>])"

section \<open>Token types\<close>

text \<open>The tags of \<open>@lezer/highlight\<close> the source names; a tag of a token is given by its set, itself and its parents.\<close>

datatype code_tag =
    TComment | TLineComment | TBlockComment | TDocComment
  | TString | TDocString | TCharacter | TAttributeValue | TRegexp | TEscape
  | TNumber | TInteger | TFloat | TBool | TNull | TAtom
  | TKeyword | TModifier | TOperatorKeyword | TControlKeyword | TDefinitionKeyword | TModuleKeyword | TOperator
  | TVariableName | TTypeName | TClassName | TNamespace | TMacroName
  | TAnnotation | TMeta | TPropertyName | TAttributeName | TTagName | TPunctuation
  | TOther nat

definition includesTag :: "code_tag list list \<Rightarrow> code_tag \<Rightarrow> bool" where
  "includesTag received expected \<longleftrightarrow> list_ex (\<lambda>tag_set. expected \<in> set tag_set) received"

definition includesAnyTag :: "code_tag list list \<Rightarrow> code_tag list \<Rightarrow> bool" where
  "includesAnyTag received expected \<longleftrightarrow> list_ex (includesTag received) expected"

definition commentTags :: "code_tag list" where
  "commentTags = [TComment, TLineComment, TBlockComment, TDocComment]"

definition stringTags :: "code_tag list" where
  "stringTags = [TString, TDocString, TCharacter, TAttributeValue, TRegexp, TEscape]"

definition numberTags :: "code_tag list" where
  "numberTags = [TNumber, TInteger, TFloat, TBool, TNull, TAtom]"

definition keywordTags :: "code_tag list" where
  "keywordTags = [TKeyword, TModifier, TOperatorKeyword, TControlKeyword, TDefinitionKeyword, TModuleKeyword, TOperator]"

definition variableTags :: "code_tag list" where
  "variableTags = [TVariableName, TTypeName, TClassName, TNamespace, TMacroName]"

definition commonTokenType :: "code_tag list list \<Rightarrow> jstr option" where
  "commonTokenType received =
     (if includesAnyTag received commentTags then Some (js ''comment'')
      else if includesAnyTag received stringTags then Some (js ''string'')
      else if includesAnyTag received numberTags then Some (js ''number'')
      else if includesAnyTag received keywordTags then Some (js ''keyword'')
      else if includesAnyTag received variableTags then Some (js ''variable'')
      else if includesAnyTag received [TAnnotation, TMeta] then Some (js ''tag'')
      else None)"

definition codeHighlighter :: "code_tag list list \<Rightarrow> jstr option" where
  "codeHighlighter received = (if includesTag received TPropertyName then None else commonTokenType received)"

definition dataHighlighter :: "code_tag list list \<Rightarrow> jstr option" where
  "dataHighlighter received = (if includesTag received TPropertyName then None else commonTokenType received)"

definition markupHighlighter :: "code_tag list list \<Rightarrow> jstr option" where
  "markupHighlighter received =
     (if includesTag received TAttributeName then Some (js ''attribute'')
      else if includesTag received TOperator then Some (js ''keyword'')
      else if includesAnyTag received [TTagName, TTypeName, TPunctuation] then Some (js ''tag'')
      else commonTokenType received)"

definition cssHighlighter :: "code_tag list list \<Rightarrow> jstr option" where
  "cssHighlighter received =
     (if includesTag received TPropertyName then None
      else if includesTag received TClassName then Some (js ''number'')
      else if includesAnyTag received [TTagName, TTypeName] then Some (js ''tag'')
      else commonTokenType received)"

section \<open>Parsers\<close>

datatype code_parser =
    PythonParser | JavascriptParser | JavascriptDialect jstr | JsonParser | YamlParser | MarkupParser | CssParser

text \<open>The parser of a script inside markup, by its \<open>type\<close> and \<open>lang\<close> attributes: the rules in their order.\<close>

definition script_rules :: "((jstr option \<Rightarrow> jstr option \<Rightarrow> bool) \<times> code_parser) list" where
  "script_rules =
     [(\<lambda>type lang. type = Some (js ''text/typescript'') \<or> lang = Some (js ''ts''), JavascriptDialect (js ''ts'')),
      (\<lambda>type lang. type = Some (js ''text/babel'') \<or> type = Some (js ''text/jsx''), JavascriptDialect (js ''jsx'')),
      (\<lambda>type lang. type = Some (js ''text/typescript-jsx''), JavascriptDialect (js ''jsx ts'')),
      (\<lambda>type lang. True, JavascriptParser)]"

type_synonym parser_config = "(code_tag list list \<Rightarrow> jstr option) \<times> code_parser"

definition loadParser :: "jstr \<Rightarrow> parser_config option" where
  "loadParser language =
     (if language = js ''python'' then Some (codeHighlighter, PythonParser)
      else if language \<in> set [js ''javascript'', js ''jsx'', js ''typescript'', js ''tsx''] then
        let dialect = (if language = js ''jsx'' then js ''jsx''
                       else if language = js ''typescript'' then js ''ts'' else js ''jsx ts'')
        in Some (codeHighlighter, if language = js ''javascript'' then JavascriptParser else JavascriptDialect dialect)
      else if language = js ''json'' then Some (dataHighlighter, JsonParser)
      else if language = js ''yaml'' then Some (dataHighlighter, YamlParser)
      else if language = js ''markup'' then Some (markupHighlighter, MarkupParser)
      else if language = js ''css'' then Some (cssHighlighter, CssParser)
      else None)"

text \<open>
  The cache of loading parsers. \<open>outcome\<close> is what the load started by this call comes to, \<open>None\<close> when the import of the
  language fails; the promise that is kept stands for that outcome.
\<close>

type_synonym parser_cache = "jstr \<rightharpoonup> parser_config option option"

definition parserForLanguage ::
  "parser_config option option \<Rightarrow> parser_cache \<Rightarrow> jstr \<Rightarrow> parser_config option option \<times> parser_cache" where
  "parserForLanguage outcome cache language =
     (case cache language of Some existing \<Rightarrow> (existing, cache) | None \<Rightarrow> (outcome, cache(language \<mapsto> outcome)))"

section \<open>Matching\<close>

definition code_digit :: "code_unit \<Rightarrow> bool" where "code_digit c \<longleftrightarrow> 48 \<le> c \<and> c \<le> 57"

definition is_letter :: "code_unit \<Rightarrow> bool" where
  "is_letter c \<longleftrightarrow> (65 \<le> c \<and> c \<le> 90) \<or> (97 \<le> c \<and> c \<le> 122)"

definition is_word :: "code_unit \<Rightarrow> bool" where
  "is_word c \<longleftrightarrow> is_letter c \<or> code_digit c \<or> c = 95"

text \<open>\<open>\b\<close> between two code units, where \<open>None\<close> is an end of the text.\<close>

definition boundary :: "code_unit option \<Rightarrow> code_unit option \<Rightarrow> bool" where
  "boundary a b \<longleftrightarrow> (case a of None \<Rightarrow> False | Some c \<Rightarrow> is_word c) \<noteq> (case b of None \<Rightarrow> False | Some c \<Rightarrow> is_word c)"

definition next_unit :: "jstr \<Rightarrow> code_unit option" where
  "next_unit s = (case s of [] \<Rightarrow> None | c # _ \<Rightarrow> Some c)"

text \<open>
  A matcher takes the code unit in front of the position and the text from it on, and gives the length of the match and
  its second capture group. \<open>match_all\<close> lists index, match and group of the successive matches.
\<close>

type_synonym matcher = "code_unit option \<Rightarrow> jstr \<Rightarrow> (nat \<times> jstr option) option"

function match_all :: "matcher \<Rightarrow> code_unit option \<Rightarrow> nat \<Rightarrow> jstr \<Rightarrow> (nat \<times> jstr \<times> jstr option) list" where
  "match_all m prev i [] = []"
| "match_all m prev i (c # s) = (case m prev (c # s) of
      Some (Suc n, g) \<Rightarrow>
        (i, take (Suc n) (c # s), g) # match_all m (Some ((c # s) ! n)) (i + Suc n) (drop n s)
    | _ \<Rightarrow> match_all m (Some c) (Suc i) s)"
  by pat_completeness auto
termination by (relation "measure (\<lambda>(m, prev, i, s). length s)") auto

definition js_slice :: "nat \<Rightarrow> nat \<Rightarrow> jstr \<Rightarrow> jstr" where
  "js_slice a b s = take (b - a) (drop a s)"

subsection \<open>Shell\<close>

definition line_start :: "code_unit option \<Rightarrow> bool" where
  "line_start prev \<longleftrightarrow> (case prev of None \<Rightarrow> True | Some c \<Rightarrow> c \<in> set [10, 13, 0x2028, 0x2029])"

text \<open>\<open>-{1,2}[\w-]+\<close>: a run of word characters and dashes that begins with a dash and is not only that.\<close>

definition option_run :: "jstr \<Rightarrow> nat option" where
  "option_run s =
     (let n = length (takeWhile (\<lambda>c. is_word c \<or> c = 45) s)
      in if s \<noteq> [] \<and> hd s = 45 \<and> 2 \<le> n then Some n else None)"

definition bash_match :: matcher where
  "bash_match prev s = (case (if line_start prev then option_run s else None) of
      Some n \<Rightarrow> Some (n, Some (take n s))
    | None \<Rightarrow> (case (if s \<noteq> [] \<and> is_space (hd s) then option_run (tl s) else None) of
        Some n \<Rightarrow> Some (Suc n, Some (take n (tl s)))
      | None \<Rightarrow>
          if starts_with (js ''ps'') s \<and> boundary prev (next_unit s) \<and> boundary (Some 115) (next_unit (drop 2 s))
          then Some (2, None) else None))"

text \<open>
  The loop over the matches. The token is the group or the whole match, and it ends the match, so that its last
  occurrence there is at its end.
\<close>

fun bash_loop :: "jstr \<Rightarrow> (nat \<times> jstr \<times> jstr option) list \<Rightarrow> nat \<Rightarrow> code_chunk list \<Rightarrow> code_chunk list" where
  "bash_loop source [] cursor chunks =
     (if cursor < length source then appendChunk chunks (drop cursor source) None else chunks)"
| "bash_loop source ((index, matched, g) # ms) cursor chunks =
     (let token = (case g of Some t \<Rightarrow> t | None \<Rightarrow> js ''ps'');
          tokenStart = index + (length matched - length token);
          chunks1 = (if cursor < tokenStart then appendChunk chunks (js_slice cursor tokenStart source) None else chunks);
          chunks2 = appendChunk chunks1 token (Some (if token = js ''ps'' then js ''number'' else js ''attribute''))
      in bash_loop source ms (tokenStart + length token) chunks2)"

definition bashChunks :: "jstr \<Rightarrow> code_chunk list" where
  "bashChunks source = bash_loop source (match_all bash_match None 0 source) 0 []"

subsection \<open>SQL\<close>

definition sqlKeywords :: "jstr list" where
  "sqlKeywords = split_on 32 (js (''ADD ALL ALTER AND ANY AS ASC BETWEEN BY CASE CHECK COLUMN CONSTRAINT '' @
     ''CREATE DATABASE DEFAULT DELETE DESC DISTINCT DROP ELSE END EXISTS FOREIGN '' @
     ''FROM FULL GROUP HAVING IN INDEX INNER INSERT INTO IS JOIN KEY LEFT LIKE '' @
     ''LIMIT NOT NULL ON OR ORDER OUTER PRIMARY REFERENCES RIGHT SELECT SET TABLE '' @
     ''THEN TOP UNION UNIQUE UPDATE VALUES VIEW WHEN WHERE WITH''))"

definition sqlFunctions :: "jstr list" where
  "sqlFunctions = split_on 32
     (js ''AVG COALESCE COUNT CURRENT_DATE CURRENT_TIME CURRENT_TIMESTAMP LOWER MAX MIN NOW ROUND SUM UPPER'')"

text \<open>What follows the opening quote \<open>q\<close>, up to and with the closing one; a doubled quote is part of the text.\<close>

fun quoted_rest :: "code_unit \<Rightarrow> jstr \<Rightarrow> nat option" where
  "quoted_rest q [] = None"
| "quoted_rest q [c] = (if c = q then Some 1 else None)"
| "quoted_rest q (c # d # s) =
     (if c \<noteq> q then map_option Suc (quoted_rest q (d # s))
      else if d \<noteq> q then Some 1
      else (case quoted_rest q s of Some n \<Rightarrow> Some (n + 2) | None \<Rightarrow> Some 1))"

definition quoted_match :: "code_unit \<Rightarrow> jstr \<Rightarrow> nat option" where
  "quoted_match q s = (if s \<noteq> [] \<and> hd s = q then map_option Suc (quoted_rest q (tl s)) else None)"

definition line_comment_match :: "jstr \<Rightarrow> nat option" where
  "line_comment_match s =
     (if starts_with (js ''--'') s then Some (2 + length (takeWhile (\<lambda>c. c \<noteq> 10) (drop 2 s))) else None)"

definition block_comment_match :: "jstr \<Rightarrow> nat option" where
  "block_comment_match s =
     (if starts_with (js ''/*'') s then map_option (\<lambda>n. n + 4) (index_of (js ''*/'') (drop 2 s)) else None)"

definition number_match :: "code_unit option \<Rightarrow> jstr \<Rightarrow> nat option" where
  "number_match prev s =
     (let n = length (takeWhile code_digit s);
          rest = drop n s;
          k = length (takeWhile code_digit (drop 1 rest))
      in if n = 0 \<or> \<not> boundary prev (next_unit s) then None
         else if rest \<noteq> [] \<and> hd rest = 46 \<and> 0 < k \<and> boundary (Some 48) (next_unit (drop (Suc k) rest)) then Some (n + 1 + k)
         else if boundary (Some 48) (next_unit rest) then Some n
         else None)"

text \<open>\<open>\b[A-Za-z_][\w$]*\b\<close>: the run without the dollar signs it may end with.\<close>

definition name_match :: "code_unit option \<Rightarrow> jstr \<Rightarrow> nat option" where
  "name_match prev s =
     (if s \<noteq> [] \<and> (is_letter (hd s) \<or> hd s = 95) \<and> boundary prev (next_unit s)
      then Some (length (dropWhile (\<lambda>c. c = 36) (rev (takeWhile (\<lambda>c. is_word c \<or> c = 36) s))))
      else None)"

definition operators2 :: "jstr list" where
  "operators2 = [js ''::'', js ''<>'', js ''!='', js ''<='', js ''>='']"

definition operator_match :: "jstr \<Rightarrow> nat option" where
  "operator_match s =
     (if take 2 s \<in> set operators2 then Some 2
      else if s \<noteq> [] \<and> hd s \<in> set (js ''-+*/%=<>'') then Some 1
      else None)"

definition sql_match :: matcher where
  "sql_match prev s = map_option (\<lambda>n. (n, None))
     (orelse (line_comment_match s) (orelse (block_comment_match s)
       (orelse (quoted_match 39 s) (orelse (quoted_match 34 s) (orelse (quoted_match 96 s)
         (orelse (number_match prev s) (orelse (name_match prev s) (operator_match s))))))))"

definition sql_type :: "(jstr \<Rightarrow> jstr) \<Rightarrow> jstr \<Rightarrow> jstr option" where
  "sql_type toUpper token =
     (let upper = toUpper token
      in if starts_with (js ''--'') token \<or> starts_with (js ''/*'') token then Some (js ''comment'')
         else if starts_with [39] token then Some (js ''string'')
         else if token \<noteq> [] \<and> code_digit (hd token) \<or> upper = js ''TRUE'' \<or> upper = js ''FALSE'' then Some (js ''number'')
         else if upper = js ''NULL'' then Some (js ''number'')
         else if upper \<in> set sqlKeywords \<or> upper \<in> set sqlFunctions then Some (js ''keyword'')
         else if token \<in> set operators2 \<or> (length token = 1 \<and> hd token \<in> set (js ''-+*/%=<>'')) then Some (js ''keyword'')
         else None)"

fun sql_loop :: "(jstr \<Rightarrow> jstr) \<Rightarrow> jstr \<Rightarrow> (nat \<times> jstr \<times> jstr option) list \<Rightarrow> nat \<Rightarrow> code_chunk list \<Rightarrow> code_chunk list" where
  "sql_loop toUpper source [] cursor chunks =
     (if cursor < length source then appendChunk chunks (drop cursor source) None else chunks)"
| "sql_loop toUpper source ((start, token, _) # ms) cursor chunks =
     (let chunks1 = (if cursor < start then appendChunk chunks (js_slice cursor start source) None else chunks)
      in sql_loop toUpper source ms (start + length token) (appendChunk chunks1 token (sql_type toUpper token)))"

definition sqlChunks :: "(jstr \<Rightarrow> jstr) \<Rightarrow> jstr \<Rightarrow> code_chunk list" where
  "sqlChunks toUpper source = sql_loop toUpper source (match_all sql_match None 0 source) 0 []"

subsection \<open>The libraries\<close>

text \<open>\<open>highlightCode\<close> calls one function for a piece of text and one for a line break.\<close>

datatype code_event = PutText jstr jstr | PutBreak

fun event_chunk :: "code_chunk list \<Rightarrow> code_event \<Rightarrow> code_chunk list" where
  "event_chunk chunks (PutText content type) = appendChunk chunks content (if type = [] then None else Some type)"
| "event_chunk chunks PutBreak = appendChunk chunks [10] None"

definition lezerChunks :: "code_event list \<Rightarrow> code_chunk list" where
  "lezerChunks events = foldl event_chunk [] events"

record prism_token =
  pt_empty :: bool
  pt_content :: jstr
  pt_types :: "jstr list"

definition prism_token_chunk :: "code_chunk list \<Rightarrow> prism_token \<Rightarrow> code_chunk list" where
  "prism_token_chunk chunks token =
     appendChunk chunks (if pt_empty token then [] else pt_content token) (Some (join (js '' '') (pt_types token)))"

fun prism_lines :: "code_chunk list \<Rightarrow> prism_token list list \<Rightarrow> code_chunk list" where
  "prism_lines chunks [] = chunks"
| "prism_lines chunks (line # lines) =
     (let chunks1 = foldl prism_token_chunk chunks line
      in prism_lines (if lines \<noteq> [] then appendChunk chunks1 [10] None else chunks1) lines)"

definition prismChunks :: "prism_token list list option \<Rightarrow> code_chunk list option" where
  "prismChunks lines = map_option (prism_lines []) lines"

text \<open>
  \<open>run_lezer config source\<close> are the calls \<open>highlightCode\<close> makes, \<open>run_prism source language\<close> the token lines, \<open>None\<close>
  without a grammar; \<open>parser\<close> is what \<open>parserForLanguage\<close> resolves to.
\<close>

definition highlightSource ::
  "(jstr \<Rightarrow> jstr) \<Rightarrow> (parser_config \<Rightarrow> jstr \<Rightarrow> code_event list) \<Rightarrow> (jstr \<Rightarrow> jstr \<Rightarrow> prism_token list list option) \<Rightarrow>
   parser_config option \<Rightarrow> jstr \<Rightarrow> jstr \<Rightarrow> code_chunk list option" where
  "highlightSource toUpper run_lezer run_prism parser source language =
     (if language = js ''plain'' then None
      else if language = js ''bash'' then Some (bashChunks source)
      else if language = js ''sql'' then Some (sqlChunks toUpper source)
      else case parser of
          Some lezer \<Rightarrow> Some (lezerChunks (run_lezer lezer source))
        | None \<Rightarrow> prismChunks (run_prism source language))"

section \<open>The chunks read the source\<close>

lemma append_chunk_text [simp]: "chunk_text (appendChunk chunks content type) = chunk_text chunks @ content"
proof (cases "chunks \<noteq> [] \<and> ck_type (last chunks) = type")
  case True
  then obtain cs c where "chunks = cs @ [c]" by (cases chunks rule: rev_cases) auto
  then show ?thesis using True by (simp add: appendChunk_def chunk_text_def)
next
  case False
  then show ?thesis unfolding appendChunk_def by (simp only: if_False) (simp add: chunk_text_def)
qed

text \<open>The matches lie one behind the other in the text.\<close>

fun matches_from :: "jstr \<Rightarrow> nat \<Rightarrow> (nat \<times> jstr \<times> jstr option) list \<Rightarrow> bool" where
  "matches_from source i [] \<longleftrightarrow> True"
| "matches_from source i ((j, w, g) # ms) \<longleftrightarrow>
     i \<le> j \<and> (\<exists>rest. drop j source = w @ rest) \<and> j + length w \<le> length source \<and> matches_from source (j + length w) ms"

lemma matches_from_mono: "matches_from source j ms \<Longrightarrow> i \<le> j \<Longrightarrow> matches_from source i ms"
  by (cases ms) auto

definition fits :: "matcher \<Rightarrow> bool" where
  "fits m \<longleftrightarrow> (\<forall>prev s n g. m prev s = Some (n, g) \<longrightarrow> n \<le> length s)"

lemma match_all_from:
  assumes "fits m"
  shows "matches_from (pre @ s) (length pre) (match_all m prev (length pre) s)"
proof (induction s arbitrary: pre prev rule: length_induct)
  case (1 s)
  show ?case
  proof (cases s)
    case (Cons c t)
    have step: "matches_from (pre @ s) (length pre) (match_all m (Some c) (Suc (length pre)) t)"
      using 1 [rule_format, of t "pre @ [c]" "Some c"] Cons by (auto intro: matches_from_mono)
    have hit: "matches_from (pre @ s) (length pre)
        ((length pre, take (Suc n) s, g) # match_all m p (length pre + Suc n) (drop n t))"
      if "m prev s = Some (Suc n, g)" for n g p
    proof -
      have n: "Suc n \<le> length s" using assms that unfolding fits_def by blast
      then have "matches_from (pre @ s) (length pre + Suc n) (match_all m p (length pre + Suc n) (drop n t))"
        using 1 [rule_format, of "drop n t" "pre @ take (Suc n) s" p] Cons by simp
      moreover have "drop (length pre) (pre @ s) = take (Suc n) s @ drop (Suc n) s" by simp
      ultimately show ?thesis using n by (auto simp: min_def simp del: append_take_drop_id)
    qed
    show ?thesis
    proof (cases "m prev s")
      case None
      then show ?thesis using step Cons by simp
    next
      case (Some r)
      then obtain n g where r: "m prev s = Some (n, g)" by (cases r) auto
      show ?thesis
      proof (cases n)
        case 0
        then show ?thesis using step r Cons by simp
      next
        case (Suc k)
        then show ?thesis using hit [of k g] r Cons by simp
      qed
    qed
  qed simp
qed

lemma take_extend: "cursor \<le> j \<Longrightarrow> j \<le> length s \<Longrightarrow> take cursor s @ js_slice cursor j s = take j s"
  by (metis js_slice_def le_add_diff_inverse take_add)

lemma take_word: "drop j s = w @ rest \<Longrightarrow> take (j + length w) s = take j s @ w"
  by (simp add: take_add)

lemma sql_loop_text:
  "matches_from source cursor ms \<Longrightarrow> cursor \<le> length source \<Longrightarrow> chunk_text chunks = take cursor source \<Longrightarrow>
   chunk_text (sql_loop toUpper source ms cursor chunks) = source"
proof (induction toUpper source ms cursor chunks rule: sql_loop.induct)
  case (2 toUpper source start token g ms cursor chunks)
  then obtain rest where w: "drop start source = token @ rest" by auto
  have "chunk_text (if cursor < start then appendChunk chunks (js_slice cursor start source) None else chunks) =
      take start source"
    using 2(2,4) take_extend [of cursor start source] by auto
  then show ?case using 2 take_word [OF w] by (simp add: Let_def)
qed simp


text \<open>A shell match ends with its token.\<close>

definition token_last :: "(nat \<times> jstr \<times> jstr option) \<Rightarrow> bool" where
  "token_last match = (case match of (j, w, g) \<Rightarrow> (\<exists>pre. w = pre @ (case g of Some t \<Rightarrow> t | None \<Rightarrow> js ''ps'')))"

lemma bash_loop_text:
  "matches_from source cursor ms \<Longrightarrow> list_all token_last ms \<Longrightarrow> cursor \<le> length source \<Longrightarrow>
   chunk_text chunks = take cursor source \<Longrightarrow> chunk_text (bash_loop source ms cursor chunks) = source"
proof (induction source ms cursor chunks rule: bash_loop.induct)
  case (2 source j w g ms cursor chunks)
  let ?token = "case g of Some t \<Rightarrow> t | None \<Rightarrow> js ''ps''"
  obtain rest where rest: "drop j source = w @ rest" using 2(2) by auto
  obtain pre where w: "w = pre @ ?token" using 2(3) by (auto simp: token_last_def)
  have lens: "length w = length pre + length ?token" using w by (metis length_append)
  let ?start = "j + (length w - length ?token)"
  have at_token: "drop ?start source = ?token @ rest"
  proof -
    have "drop ?start source = drop (length pre) (drop j source)" using lens by (simp add: add.commute)
    also have "\<dots> = drop (length pre) (pre @ ?token @ rest)" using rest w by (metis append.assoc)
    finally show ?thesis by simp
  qed
  have bounds: "cursor \<le> ?start" "?start + length ?token = j + length w" "j + length w \<le> length source"
    using 2(2) lens by simp_all
  have c: "chunk_text (if cursor < ?start then appendChunk chunks (js_slice cursor ?start source) None else chunks) =
      take ?start source"
    using 2(5) bounds take_extend [of cursor ?start source] by auto
  have "matches_from source (?start + length ?token) ms" using 2(2) bounds(2) by simp
  moreover have "chunk_text (if cursor < ?start then appendChunk chunks (js_slice cursor ?start source) None else chunks) @ ?token =
      take (?start + length ?token) source"
    unfolding c by (rule take_word [OF at_token, symmetric])
  ultimately show ?case using 2(1) [OF refl refl refl refl] 2(3) bounds
    by (simp add: Let_def del: take_append)
qed simp

lemma quoted_rest_le: "quoted_rest q s = Some n \<Longrightarrow> n \<le> length s"
  by (induction q s arbitrary: n rule: quoted_rest.induct) (auto split: if_splits option.splits)

lemma index_of_le: "index_of p s = Some n \<Longrightarrow> n + length p \<le> length s"
proof (induction p s arbitrary: n rule: index_of.induct)
  case (2 p x xs)
  have "length p \<le> Suc (length xs)" if "starts_with p (x # xs)"
    using that unfolding starts_with_def by (metis length_Cons length_take min.cobounded1 min.cobounded2)
  with 2 show ?case by (auto split: if_splits)
qed (auto split: if_splits)

lemma starts_with_le: "starts_with p s \<Longrightarrow> length p \<le> length s"
  unfolding starts_with_def by (metis length_take min.cobounded1)

lemma digits_le: "length (takeWhile P s) \<le> length s"
  by (rule length_takeWhile_le)

lemma number_match_le: "number_match prev s = Some n \<Longrightarrow> n \<le> length s"
  using length_takeWhile_le [of code_digit s]
    length_takeWhile_le [of code_digit "drop 1 (drop (length (takeWhile code_digit s)) s)"]
  by (auto simp: number_match_def Let_def split: if_splits)

lemma name_match_le: "name_match prev s = Some n \<Longrightarrow> n \<le> length s"
  using length_takeWhile_le [of "\<lambda>c. is_word c \<or> c = 36" s]
    length_dropWhile_le [of "\<lambda>c. c = 36" "rev (takeWhile (\<lambda>c. is_word c \<or> c = 36) s)"]
  by (auto simp: name_match_def split: if_splits)

lemma operator_match_le: "operator_match s = Some n \<Longrightarrow> n \<le> length s"
  by (cases s; cases "tl s") (auto simp: operator_match_def operators2_def js_def split: if_splits)

lemma comment_match_le:
  "line_comment_match s = Some n \<Longrightarrow> n \<le> length s" "block_comment_match s = Some n \<Longrightarrow> n \<le> length s"
proof -
  assume "line_comment_match s = Some n"
  then show "n \<le> length s" using length_takeWhile_le [of "\<lambda>c. c \<noteq> 10" "drop 2 s"] starts_with_le [of "js ''--''" s]
    by (auto simp: line_comment_match_def js_def split: if_splits)
next
  assume "block_comment_match s = Some n"
  then show "n \<le> length s" using starts_with_le [of "js ''/*''" s]
    by (auto simp: block_comment_match_def js_def dest!: index_of_le split: if_splits)
qed

lemma quoted_match_le: "quoted_match q s = Some n \<Longrightarrow> n \<le> length s"
  by (cases s) (auto simp: quoted_match_def dest!: quoted_rest_le split: if_splits)

lemma orelse_Some: "orelse x y = Some v \<Longrightarrow> x = Some v \<or> y = Some v"
  by (cases x) auto

lemma fits_sql: "fits sql_match"
proof (unfold fits_def, intro allI impI)
  fix prev s n g
  assume "sql_match prev s = Some (n, g)"
  then show "n \<le> length s"
    by (auto simp: sql_match_def dest!: orelse_Some
        intro: comment_match_le quoted_match_le number_match_le name_match_le operator_match_le)
qed

lemma option_run_le: "option_run s = Some n \<Longrightarrow> n \<le> length s"
  using length_takeWhile_le [of "\<lambda>c. is_word c \<or> c = 45" s] by (auto simp: option_run_def Let_def split: if_splits)

lemma bash_match_shape:
  assumes "bash_match prev s = Some (n, g)"
  shows "n \<le> length s \<and> (\<exists>pre. take n s = pre @ (case g of Some t \<Rightarrow> t | None \<Rightarrow> js ''ps''))"
proof (cases "if line_start prev then option_run s else None")
  case (Some k)
  then have "n = k" "g = Some (take k s)" "option_run s = Some k" using assms by (auto simp: bash_match_def split: if_splits)
  then show ?thesis using option_run_le by auto
next
  case None
  show ?thesis
  proof (cases "if s \<noteq> [] \<and> is_space (hd s) then option_run (tl s) else None")
    case (Some k)
    then have n: "n = Suc k" "g = Some (take k (tl s))" "s \<noteq> []" "option_run (tl s) = Some k"
      using assms None by (auto simp: bash_match_def split: if_splits)
    then show ?thesis using option_run_le [of "tl s" k] by (cases s) auto
  next
    case none2: None
    have n: "n = 2" "g = None" "starts_with (js ''ps'') s"
      using assms unfolding bash_match_def None none2 by (auto split: if_splits)
    then show ?thesis using starts_with_le [of "js ''ps''" s] by (auto simp: starts_with_def js_def numeral_2_eq_2)
  qed
qed

lemma fits_bash: "fits bash_match"
  using bash_match_shape by (auto simp: fits_def)

lemma bash_tokens_last: "list_all token_last (match_all bash_match prev i s)"
proof (induction s arbitrary: prev i rule: length_induct)
  case (1 s)
  show ?case
  proof (cases s)
    case (Cons c t)
    have step: "list_all token_last (match_all bash_match p j t)" for p j using 1 Cons by simp
    show ?thesis
    proof (cases "bash_match prev s")
      case None
      then show ?thesis using step Cons by simp
    next
      case (Some r)
      obtain n g where r: "r = (n, g)" by (cases r)
      show ?thesis
      proof (cases n)
        case 0
        then show ?thesis using step Some r Cons by simp
      next
        case (Suc k)
        have "list_all token_last (match_all bash_match p j (drop k t))" for p j using 1 Cons by simp
        moreover have "token_last (i, take n s, g)"
          using bash_match_shape [of prev s n g] Some r by (auto simp: token_last_def)
        ultimately show ?thesis using Some r Suc Cons by simp
      qed
    qed
  qed simp
qed

lemma bash_chunks_text: "chunk_text (bashChunks source) = source"
  unfolding bashChunks_def
  by (rule bash_loop_text [OF match_all_from [OF fits_bash, of "[]", simplified] bash_tokens_last])
    (simp_all add: chunk_text_def)

lemma sql_chunks_text: "chunk_text (sqlChunks toUpper source) = source"
  unfolding sqlChunks_def
  by (rule sql_loop_text [OF match_all_from [OF fits_sql, of "[]", simplified]]) (simp_all add: chunk_text_def)


fun event_text :: "code_event \<Rightarrow> jstr" where
  "event_text (PutText content type) = content"
| "event_text PutBreak = [10]"

lemma event_chunk_text: "chunk_text (event_chunk chunks e) = chunk_text chunks @ event_text e"
  by (cases e) simp_all

lemma lezer_chunks_text: "chunk_text (lezerChunks events) = concat (map event_text events)"
proof -
  have "chunk_text (foldl event_chunk chunks events) = chunk_text chunks @ concat (map event_text events)" for chunks
    by (induction events arbitrary: chunks) (simp_all add: event_chunk_text)
  then show ?thesis by (simp add: lezerChunks_def chunk_text_def)
qed

definition prism_line_text :: "prism_token list \<Rightarrow> jstr" where
  "prism_line_text line = concat (map (\<lambda>t. if pt_empty t then [] else pt_content t) line)"

lemma prism_line_chunks: "chunk_text (foldl prism_token_chunk chunks line) = chunk_text chunks @ prism_line_text line"
  by (induction line arbitrary: chunks) (simp_all add: prism_token_chunk_def prism_line_text_def)

lemma prism_lines_text: "chunk_text (prism_lines chunks ls) = chunk_text chunks @ join [10] (map prism_line_text ls)"
proof (induction chunks ls rule: prism_lines.induct)
  case (2 chunks line ls)
  show ?case
  proof (cases ls)
    case Nil
    then show ?thesis by (simp add: prism_line_chunks)
  next
    case (Cons l ls')
    then show ?thesis using 2 by (simp add: Let_def prism_line_chunks)
  qed
qed simp

text \<open>What the libraries promise: their pieces spell the source.\<close>

definition lezer_spells :: "(parser_config \<Rightarrow> jstr \<Rightarrow> code_event list) \<Rightarrow> bool" where
  "lezer_spells run_lezer \<longleftrightarrow> (\<forall>config source. concat (map event_text (run_lezer config source)) = source)"

definition prism_spells :: "(jstr \<Rightarrow> jstr \<Rightarrow> prism_token list list option) \<Rightarrow> bool" where
  "prism_spells run_prism \<longleftrightarrow>
     (\<forall>source language ls. run_prism source language = Some ls \<longrightarrow> join [10] (map prism_line_text ls) = source)"

lemma highlighted_text:
  assumes "lezer_spells run_lezer" and "prism_spells run_prism"
    and "highlightSource toUpper run_lezer run_prism parser source language = Some chunks"
  shows "chunk_text chunks = source"
  using assms prism_lines_text [of "[]"]
  by (auto simp: highlightSource_def bash_chunks_text sql_chunks_text lezer_chunks_text lezer_spells_def prism_spells_def
      prismChunks_def chunk_text_def [of "[]"] split: if_splits option.splits)

subsection \<open>Neighbouring chunks have different types\<close>

abbreviation chunk_types :: "code_chunk list \<Rightarrow> jstr option list" where
  "chunk_types chunks \<equiv> map ck_type chunks"

lemma append_chunk_distinct:
  "distinct_adj (chunk_types chunks) \<Longrightarrow> distinct_adj (chunk_types (appendChunk chunks content type))"
proof (cases chunks rule: rev_cases)
  case (snoc cs c)
  moreover assume "distinct_adj (chunk_types chunks)"
  ultimately show ?thesis by (auto simp: appendChunk_def distinct_adj_append_iff)
qed (simp add: appendChunk_def)

lemma sql_loop_distinct:
  "distinct_adj (chunk_types chunks) \<Longrightarrow> distinct_adj (chunk_types (sql_loop toUpper source ms cursor chunks))"
  by (induction toUpper source ms cursor chunks rule: sql_loop.induct) (auto simp: Let_def append_chunk_distinct)

lemma bash_loop_distinct:
  "distinct_adj (chunk_types chunks) \<Longrightarrow> distinct_adj (chunk_types (bash_loop source ms cursor chunks))"
  by (induction source ms cursor chunks rule: bash_loop.induct) (auto simp: Let_def append_chunk_distinct)

section \<open>The code block\<close>

record highlight_result =
  hr_chunks :: "code_chunk list option"
  hr_language :: jstr
  hr_source :: jstr

text \<open>The pieces the block shows: the class of a piece, if it has one, and its text.\<close>

definition highlightedSource :: "jstr \<Rightarrow> jstr \<Rightarrow> highlight_result option \<Rightarrow> (jstr option \<times> jstr) list" where
  "highlightedSource source language result =
     (case result of
        Some r \<Rightarrow>
          (case hr_chunks r of
             Some chunks \<Rightarrow>
               if hr_language r = language \<and> starts_with (hr_source r) source
               then map (\<lambda>c. (if truthy (ck_type c) then Some (js ''token '' @ the (ck_type c)) else None, ck_content c)) chunks @
                 [(None, drop (length (hr_source r)) source)]
               else [(None, source)]
           | None \<Rightarrow> [(None, source)])
      | None \<Rightarrow> [(None, source)])"

definition sourceFromChild :: "jstr option option \<Rightarrow> jstr" where
  "sourceFromChild child = (case child of
      None \<Rightarrow> []
    | Some children \<Rightarrow> (let s = nullish children [] in if s \<noteq> [] \<and> last s = 10 then butlast s else s))"

text \<open>
  The highlighting of a mounted block: the request of the effect that is active, numbered, and the last result. A
  request settles with what \<open>highlightSource\<close> gives for the source and language it was started with, or fails when
  something it imports does not load.
\<close>

record block_state =
  bk_source :: jstr
  bk_language :: jstr
  bk_active :: "nat option"
  bk_requests :: "(jstr \<times> jstr) list"
  bk_result :: "highlight_result option"

datatype block_event =
    BlockRendered jstr jstr
  | HighlightSettled nat "code_chunk list option option"
  | BlockUnmounted

definition block_mounted :: "jstr \<Rightarrow> jstr \<Rightarrow> block_state" where
  "block_mounted source language =
     \<lparr>bk_source = source, bk_language = language, bk_active = Some 0, bk_requests = [(source, language)], bk_result = None\<rparr>"

fun block_step :: "block_event \<Rightarrow> block_state \<Rightarrow> block_state" where
  "block_step (BlockRendered source language) st =
     (if source = bk_source st \<and> language = bk_language st then st
      else st\<lparr>bk_source := source, bk_language := language, bk_active := Some (length (bk_requests st)),
              bk_requests := bk_requests st @ [(source, language)]\<rparr>)"
| "block_step (HighlightSettled i outcome) st =
     (case outcome of
        None \<Rightarrow> st
      | Some chunks \<Rightarrow>
          if bk_active st = Some i \<and> i < length (bk_requests st)
          then st\<lparr>bk_result := Some \<lparr>hr_chunks = chunks, hr_language = snd (bk_requests st ! i),
                                     hr_source = fst (bk_requests st ! i)\<rparr>\<rparr>
          else st)"
| "block_step BlockUnmounted st = st\<lparr>bk_active := None\<rparr>"

definition block_shows :: "block_state \<Rightarrow> jstr" where
  "block_shows st = concat (map snd (highlightedSource (bk_source st) (bk_language st) (bk_result st)))"

text \<open>The runs of a block whose requests settle with what \<open>hl\<close> gives for them, at any time and in any order.\<close>

inductive block_run :: "(jstr \<Rightarrow> jstr \<Rightarrow> code_chunk list option) \<Rightarrow> block_state \<Rightarrow> bool"
  for hl where
  Mounted: "block_run hl (block_mounted source language)"
| Rendered: "block_run hl st \<Longrightarrow> block_run hl (block_step (BlockRendered source language) st)"
| Settled: "block_run hl st \<Longrightarrow> i < length (bk_requests st) \<Longrightarrow>
    outcome = None \<or> outcome = Some (hl (fst (bk_requests st ! i)) (snd (bk_requests st ! i))) \<Longrightarrow>
    block_run hl (block_step (HighlightSettled i outcome) st)"
| Unmounted: "block_run hl st \<Longrightarrow> block_run hl (block_step BlockUnmounted st)"

definition result_reads :: "highlight_result \<Rightarrow> bool" where
  "result_reads r \<longleftrightarrow> (\<forall>chunks. hr_chunks r = Some chunks \<longrightarrow> chunk_text chunks = hr_source r)"

lemma block_result_reads:
  assumes "block_run hl st" and "\<And>source language chunks. hl source language = Some chunks \<Longrightarrow> chunk_text chunks = source"
  shows "pred_option result_reads (bk_result st)"
  using assms
  by (induction rule: block_run.induct) (auto simp: block_mounted_def result_reads_def split: option.splits)

lemma highlighted_shows:
  assumes "pred_option result_reads result"
  shows "concat (map snd (highlightedSource source language result)) = source"
  using assms
  by (auto simp: highlightedSource_def result_reads_def chunk_text_def starts_with_def comp_def split: option.splits)
    (metis append_take_drop_id)



end
