(* ===== verification/Search_Text.thy ===== *)
theory Search_Text
  imports Prelude
begin

text \<open>
  The text of a message that a search result refers to (\<open>frontend/src/search/searchText.ts\<close>): the visible text of a
  part of the page with white space collapsed, and for each of its code units the place in the page it comes from.

  The page is a tree; a text node carries its identity and its data, an element its tag, whether the selector of
  excluded elements matches it, and its children.
\<close>

section \<open>Definitions\<close>

datatype page_node =
    PageText nat jstr
  | PageElement jstr bool "page_node list"
  | PageOther

type_synonym text_point = "nat \<times> nat"

record search_text =
  st_text :: jstr
  st_starts :: "text_point option list"
  st_ends :: "text_point option list"

definition blocks :: "jstr list" where
  "blocks = [js ''P'', js ''DIV'', js ''PRE'', js ''BLOCKQUOTE'', js ''LI'', js ''UL'', js ''OL'', js ''TABLE'',
     js ''TR'', js ''TD'', js ''TH'', js ''H1'', js ''H2'', js ''H3'', js ''H4'', js ''H5'', js ''H6'', js ''HR'']"

text \<open>The characters \<open>for (const char of data)\<close> yields: a surrogate pair is one.\<close>

fun js_chars :: "jstr \<Rightarrow> jstr list" where
  "js_chars [] = []"
| "js_chars [c] = [[c]]"
| "js_chars (c # d # s) =
     (if 0xD800 \<le> c \<and> c \<le> 0xDBFF \<and> 0xDC00 \<le> d \<and> d \<le> 0xDFFF then [c, d] # js_chars s
      else [c] # js_chars (d # s))"

abbreviation space_unit :: code_unit where "space_unit \<equiv> 32"

definition ends_blank :: "jstr \<Rightarrow> bool" where
  "ends_blank s \<longleftrightarrow> s \<noteq> [] \<and> last s = space_unit"

definition push_char :: "jstr \<Rightarrow> text_point option \<Rightarrow> text_point option \<Rightarrow> search_text \<Rightarrow> search_text" where
  "push_char char start end_point out =
     out\<lparr>st_text := st_text out @ char,
         st_starts := st_starts out @
           map (\<lambda>i. map_option (\<lambda>(n, off). (n, off + i)) start) [0..<length char],
         st_ends := st_ends out @
           map (\<lambda>i. map_option (\<lambda>(n, off). (n, off + i + 1 - length char)) end_point) [0..<length char]\<rparr>"

definition append_char :: "jstr \<Rightarrow> text_point option \<Rightarrow> text_point option \<Rightarrow> search_text \<Rightarrow> search_text" where
  "append_char char start end_point out =
     (if list_ex is_space char
      then
        if st_text out = [] \<or> ends_blank (st_text out)
        then
          if ends_blank (st_text out) \<and> end_point \<noteq> None
          then out\<lparr>st_ends := (st_ends out)[length (st_ends out) - 1 := end_point]\<rparr>
          else out
        else push_char [space_unit] start end_point out
      else push_char char start end_point out)"

fun append_chars :: "nat \<Rightarrow> nat \<Rightarrow> jstr list \<Rightarrow> search_text \<Rightarrow> search_text" where
  "append_chars n off [] out = out"
| "append_chars n off (char # chars) out =
     append_chars n (off + length char) chars
       (append_char char (Some (n, off)) (Some (n, off + length char)) out)"

fun walk :: "bool \<Rightarrow> page_node \<Rightarrow> search_text \<Rightarrow> search_text"
  and walk_all :: "page_node list \<Rightarrow> search_text \<Rightarrow> search_text"
where
  "walk isRoot (PageText n data) out = append_chars n 0 (js_chars data) out"
| "walk isRoot (PageElement tag excluded children) out =
     (if excluded then append_char [space_unit] None None out
      else
        let block = (tag \<in> set blocks \<and> \<not> isRoot);
            out1 = (if block \<or> tag = js ''BR'' then append_char [space_unit] None None out else out);
            out2 = walk_all children out1
        in if block then append_char [space_unit] None None out2 else out2)"
| "walk isRoot PageOther out = out"
| "walk_all [] out = out"
| "walk_all (node # nodes) out = walk_all nodes (walk False node out)"

definition empty_search_text :: search_text where
  "empty_search_text = \<lparr>st_text = [], st_starts = [], st_ends = []\<rparr>"

definition buildVisibleSearchText :: "page_node \<Rightarrow> search_text" where
  "buildVisibleSearchText root =
     (let output = walk True root empty_search_text
      in if ends_blank (st_text output)
         then \<lparr>st_text = butlast (st_text output), st_starts = butlast (st_starts output),
               st_ends = butlast (st_ends output)\<rparr>
         else output)"

text \<open>The two ends of the range for a match; reading outside the arrays gives \<open>undefined\<close>.\<close>

definition rangeForMatch :: "search_text \<Rightarrow> int \<Rightarrow> int \<Rightarrow> (text_point \<times> text_point) option" where
  "rangeForMatch projection start end_index =
     (let at = (\<lambda>xs i. if 0 \<le> i \<and> i < int (length xs) then xs ! nat i else None)
      in case (at (st_starts projection) start, at (st_ends projection) (end_index - 1)) of
        (Some from_point, Some to_point) \<Rightarrow> if end_index \<le> start then None else Some (from_point, to_point)
      | _ \<Rightarrow> None)"

section \<open>The reference reading\<close>

text \<open>
  The visible text of a node: the data of its text nodes, with a blank in place of every excluded element, at a line
  break, and at both ends of a block.
\<close>

fun visible :: "bool \<Rightarrow> page_node \<Rightarrow> jstr" and visible_all :: "page_node list \<Rightarrow> jstr" where
  "visible isRoot (PageText n data) = data"
| "visible isRoot (PageElement tag excluded children) =
     (if excluded then [space_unit]
      else if tag \<in> set blocks \<and> \<not> isRoot then [space_unit] @ visible_all children @ [space_unit]
      else if tag = js ''BR'' then [space_unit] @ visible_all children
      else visible_all children)"
| "visible isRoot PageOther = []"
| "visible_all [] = []"
| "visible_all (node # nodes) = visible False node @ visible_all nodes"

fun split_at :: "('a \<Rightarrow> bool) \<Rightarrow> 'a list \<Rightarrow> 'a list list" where
  "split_at P [] = [[]]"
| "split_at P (x # xs) =
     (if P x then [] # split_at P xs else (x # hd (split_at P xs)) # tl (split_at P xs))"

definition words_of :: "jstr \<Rightarrow> jstr list" where
  "words_of s = filter (\<lambda>w. w \<noteq> []) (split_at is_space s)"

section \<open>The text is the words of the visible text\<close>

lemma split_at_not_Nil [simp]: "split_at P xs \<noteq> []"
  by (cases xs) auto

lemma split_at_snoc:
  "split_at P (xs @ [x]) =
     (if P x then split_at P xs @ [[]] else butlast (split_at P xs) @ [last (split_at P xs) @ [x]])"
proof (induction xs)
  case (Cons y ys)
  then show ?case by (cases "split_at P ys") (auto simp: neq_Nil_conv)
qed simp

lemma split_at_extend:
  "list_all (\<lambda>x. \<not> P x) w \<Longrightarrow> split_at P (xs @ w) = butlast (split_at P xs) @ [last (split_at P xs) @ w]"
proof (induction w rule: rev_induct)
  case (snoc x w)
  then show ?case using split_at_snoc [of P "xs @ w" x] by simp
qed simp

lemma split_at_clean: "w \<in> set (split_at P xs) \<Longrightarrow> x \<in> set w \<Longrightarrow> \<not> P x"
proof (induction xs arbitrary: w)
  case (Cons y ys)
  then show ?case by (cases "split_at P ys") (fastforce split: if_splits)+
qed simp

lemma words_of_blank: "is_space x \<Longrightarrow> words_of (s @ [x]) = words_of s"
  by (simp add: words_of_def split_at_snoc)

lemma words_of_split:
  "words_of s = filter (\<lambda>w. w \<noteq> []) (butlast (split_at is_space s)) @
     (if last (split_at is_space s) = [] then [] else [last (split_at is_space s)])"
proof -
  have "split_at is_space s = butlast (split_at is_space s) @ [last (split_at is_space s)]" by simp
  from arg_cong [OF this, of "filter (\<lambda>w. w \<noteq> [])"] show ?thesis
    unfolding words_of_def filter_append by (simp split: if_splits)
qed

lemma words_of_extend:
  assumes "list_all (\<lambda>x. \<not> is_space x) w" and "w \<noteq> []"
  shows "words_of (s @ w) =
    (if last (split_at is_space s) = [] then words_of s @ [w]
     else butlast (words_of s) @ [last (words_of s) @ w])"
proof -
  have "words_of (s @ w) = filter (\<lambda>w. w \<noteq> []) (butlast (split_at is_space s)) @ [last (split_at is_space s) @ w]"
    using assms by (simp add: words_of_def split_at_extend)
  then show ?thesis by (simp add: words_of_split [of s])
qed

lemma join_snoc: "join sep (ws @ [w]) = (if ws = [] then w else join sep ws @ sep @ w)"
  by (induction sep ws rule: join.induct) auto

lemma join_extend: "ws \<noteq> [] \<Longrightarrow> join sep (butlast ws @ [last ws @ w]) = join sep ws @ w"
proof -
  assume "ws \<noteq> []"
  then obtain vs v where "ws = vs @ [v]" by (cases ws rule: rev_cases) auto
  then show ?thesis by (simp add: join_snoc)
qed

lemma words_last:
  "last (split_at is_space s) \<noteq> [] \<Longrightarrow> words_of s \<noteq> [] \<and> last (words_of s) = last (split_at is_space s)"
  by (simp add: words_of_split [of s])

text \<open>What has been written after the visible text \<open>u\<close>: its words, and a blank if the last one is over.\<close>

definition written :: "jstr \<Rightarrow> jstr" where
  "written u = join [space_unit] (words_of u) @ (if words_of u \<noteq> [] \<and> last (split_at is_space u) = [] then [space_unit] else [])"

lemma is_space_blank [simp]: "is_space space_unit"
  by (simp add: is_space_def)

lemma join_words_end:
  assumes "words_of u \<noteq> []"
  shows "join [space_unit] (words_of u) \<noteq> []" and "last (join [space_unit] (words_of u)) \<noteq> space_unit"
proof -
  obtain vs v where ws: "words_of u = vs @ [v]" using assms by (cases "words_of u" rule: rev_cases) auto
  then have "v \<in> set (words_of u)" by simp
  then have v: "v \<in> set (split_at is_space u)" "v \<noteq> []" by (simp_all add: words_of_def)
  then have "last v \<noteq> space_unit" using split_at_clean [of v is_space u "last v"] by auto
  then show "join [space_unit] (words_of u) \<noteq> []" and "last (join [space_unit] (words_of u)) \<noteq> space_unit"
    using ws v(2) by (simp_all add: join_snoc)
qed

lemma written_ends_blank:
  "ends_blank (written u) \<longleftrightarrow> words_of u \<noteq> [] \<and> last (split_at is_space u) = []"
  "written u = [] \<longleftrightarrow> words_of u = []"
proof -
  have "ends_blank (written u) = (words_of u \<noteq> [] \<and> last (split_at is_space u) = []) \<and>
    (written u = [] \<longleftrightarrow> words_of u = [])"
  proof (cases "words_of u = []")
    case True
    then show ?thesis by (simp add: ends_blank_def written_def)
  next
    case False
    then show ?thesis using join_words_end [OF False] by (simp add: ends_blank_def written_def)
  qed
  then show "ends_blank (written u) \<longleftrightarrow> words_of u \<noteq> [] \<and> last (split_at is_space u) = []"
    and "written u = [] \<longleftrightarrow> words_of u = []" by simp_all
qed

lemma written_blank:
  assumes "is_space x"
  shows "written (u @ [x]) = (if written u = [] \<or> ends_blank (written u) then written u else written u @ [space_unit])"
  using assms written_ends_blank [of u]
  by (auto simp: written_def words_of_blank split_at_snoc)

lemma written_word:
  assumes "list_all (\<lambda>x. \<not> is_space x) w" and "w \<noteq> []"
  shows "written (u @ w) = written u @ w"
proof (cases "last (split_at is_space u) = []")
  case True
  then show ?thesis using assms
    by (simp add: written_def words_of_extend split_at_extend join_snoc)
next
  case False
  then have ws: "words_of (u @ w) = butlast (words_of u) @ [last (words_of u) @ w]"
    using assms by (simp add: words_of_extend)
  have "words_of u \<noteq> []" using words_last [OF False] by simp
  then have "join [space_unit] (words_of (u @ w)) = join [space_unit] (words_of u) @ w" unfolding ws by (rule join_extend)
  then show ?thesis using assms False by (simp add: written_def split_at_extend)
qed

text \<open>A character is one blank or has none.\<close>

lemma surrogate_not_space: "0xD800 \<le> c \<Longrightarrow> c \<le> 0xDFFF \<Longrightarrow> \<not> is_space c"
  by (auto simp: is_space_def word_le_nat_alt)

lemma js_chars_shape:
  "ch \<in> set (js_chars s) \<Longrightarrow> ch \<noteq> [] \<and> (list_all (\<lambda>x. \<not> is_space x) ch \<or> (\<exists>x. ch = [x] \<and> is_space x))"
proof (induction s rule: js_chars.induct)
  case (3 c d s)
  have "\<not> is_space c \<and> \<not> is_space d" if "0xD800 \<le> c" "c \<le> 0xDBFF" "0xDC00 \<le> d" "d \<le> 0xDFFF"
    using surrogate_not_space [of c] surrogate_not_space [of d] that by (simp add: word_le_nat_alt)
  with 3 show ?case by (auto split: if_splits)
qed auto

lemma concat_js_chars: "concat (js_chars s) = s"
  by (induction s rule: js_chars.induct) auto

lemma append_char_text:
  assumes "st_text out = written u" and "ch \<noteq> []"
    and "list_all (\<lambda>x. \<not> is_space x) ch \<or> (\<exists>x. ch = [x] \<and> is_space x)"
  shows "st_text (append_char ch a b out) = written (u @ ch)"
  using assms(3)
proof
  assume w: "list_all (\<lambda>x. \<not> is_space x) ch"
  then have "\<not> list_ex is_space ch" by (auto simp: list_all_iff list_ex_iff)
  then show ?thesis using assms w by (simp add: append_char_def push_char_def written_word)
next
  assume "\<exists>x. ch = [x] \<and> is_space x"
  then show ?thesis using assms by (auto simp: append_char_def push_char_def written_blank)
qed

lemma append_chars_text:
  "st_text out = written u \<Longrightarrow> set chars \<subseteq> set (js_chars s) \<Longrightarrow>
   st_text (append_chars n off chars out) = written (u @ concat chars)"
proof (induction chars arbitrary: u off out)
  case (Cons ch chars)
  then show ?case using js_chars_shape [of ch s] append_char_text [of out u ch] by simp
qed simp

lemma blank_text: "st_text out = written u \<Longrightarrow> st_text (append_char [space_unit] None None out) = written (u @ [space_unit])"
  by (rule append_char_text) simp_all

lemma walk_text:
  "st_text out = written u \<Longrightarrow> st_text (walk isRoot node out) = written (u @ visible isRoot node)"
  "st_text out = written u \<Longrightarrow> st_text (walk_all nodes out) = written (u @ visible_all nodes)"
proof (induction isRoot node out and nodes out arbitrary: u and u rule: walk_walk_all.induct)
  case (1 isRoot n data out)
  then show ?case using append_chars_text [of out u "js_chars data" data n 0] by (simp add: concat_js_chars)
next
  case (2 isRoot tag excluded children out)
  show ?case
  proof (cases excluded)
    case True
    then show ?thesis using blank_text [OF 2(2)] by simp
  next
    case False
    let ?block = "tag \<in> set blocks \<and> \<not> isRoot"
    let ?out = "if ?block \<or> tag = js ''BR'' then append_char [space_unit] None None out else out"
    let ?u = "u @ (if ?block \<or> tag = js ''BR'' then [space_unit] else [])"
    have "st_text ?out = written ?u" using blank_text [OF 2(2)] 2(2) by simp
    then have w: "st_text (walk_all children ?out) = written (?u @ visible_all children)"
      using 2(1) [OF False refl refl] by blast
    show ?thesis
    proof (cases ?block)
      case True
      then show ?thesis using False w blank_text [OF w] by (simp add: Let_def)
    next
      case NB: False
      then have nb: "?block = False" by simp
      show ?thesis using w unfolding walk.simps visible.simps Let_def nb
        by (cases "tag = js ''BR''") (simp_all only: False if_False if_True simp_thms append_Cons append_Nil append_assoc)
    qed
  qed
next
  case (5 node nodes out)
  then show ?case by (metis append.assoc visible_all.simps(2) walk_all.simps(2))
qed simp_all

text \<open>
  The text searched. The text a search result is matched against is the sequence of words of the visible text,
  one blank between two of them and none at the ends, whatever the mark-up, the blanks and the excluded elements of
  the page are.
\<close>

theorem search_text_is_words:
  "st_text (buildVisibleSearchText root) = join (js '' '') (words_of (visible True root))"
proof -
  have "st_text empty_search_text = written []" by (simp add: empty_search_text_def written_def words_of_def)
  then have w: "st_text (walk True root empty_search_text) = written (visible True root)"
    using walk_text(1) [of empty_search_text "[]" True root] by simp
  have bl: "js '' '' = [space_unit]" by (simp add: js_def)
  show ?thesis unfolding buildVisibleSearchText_def Let_def w bl using written_ends_blank [of "visible True root"]
    by (auto simp: w written_def)
qed

section \<open>The points refer to the characters they stand for\<close>

text \<open>
  \<open>doc n\<close> is the data of the text node \<open>n\<close>. A start point of a character is the offset in front of it, an end point
  the offset behind it; a blank may stand for any white space.
\<close>

definition reads :: "code_unit \<Rightarrow> code_unit \<Rightarrow> bool" where
  "reads c d \<longleftrightarrow> d = c \<or> c = space_unit \<and> is_space d"

definition start_reads :: "(nat \<Rightarrow> jstr) \<Rightarrow> code_unit \<Rightarrow> text_point option \<Rightarrow> bool" where
  "start_reads doc c point = (case point of
      None \<Rightarrow> True
    | Some (n, off) \<Rightarrow> off < length (doc n) \<and> reads c (doc n ! off))"

definition end_reads :: "(nat \<Rightarrow> jstr) \<Rightarrow> code_unit \<Rightarrow> text_point option \<Rightarrow> bool" where
  "end_reads doc c point = (case point of
      None \<Rightarrow> True
    | Some (n, off) \<Rightarrow> 0 < off \<and> off \<le> length (doc n) \<and> reads c (doc n ! (off - 1)))"

definition points_ok :: "(nat \<Rightarrow> jstr) \<Rightarrow> search_text \<Rightarrow> bool" where
  "points_ok doc out \<longleftrightarrow>
     list_all2 (start_reads doc) (st_text out) (st_starts out) \<and>
     list_all2 (end_reads doc) (st_text out) (st_ends out)"

fun text_nodes :: "page_node \<Rightarrow> (nat \<times> jstr) list" and text_nodes_all :: "page_node list \<Rightarrow> (nat \<times> jstr) list" where
  "text_nodes (PageText n data) = [(n, data)]"
| "text_nodes (PageElement tag excluded children) = text_nodes_all children"
| "text_nodes PageOther = []"
| "text_nodes_all [] = []"
| "text_nodes_all (node # nodes) = text_nodes node @ text_nodes_all nodes"

definition page_data :: "(nat \<Rightarrow> jstr) \<Rightarrow> (nat \<times> jstr) list \<Rightarrow> bool" where
  "page_data doc nodes \<longleftrightarrow> (\<forall>(n, data) \<in> set nodes. doc n = data)"

lemma page_data_append [simp]: "page_data doc (xs @ ys) \<longleftrightarrow> page_data doc xs \<and> page_data doc ys"
  by (simp add: page_data_def ball_Un)

lemma push_nowhere: "points_ok doc out \<Longrightarrow> points_ok doc (push_char char None None out)"
  by (auto simp: points_ok_def push_char_def start_reads_def end_reads_def list_all2_conv_all_nth nth_append)

lemma push_points:
  assumes "points_ok doc out" and "doc n = pre @ ch @ post" and "list_all2 reads char ch"
  shows "points_ok doc (push_char char (Some (n, length pre)) (Some (n, length pre + length ch)) out)"
proof -
  have len: "length char = length ch" and each: "\<And>i. i < length ch \<Longrightarrow> reads (char ! i) (ch ! i)"
    using assms(3) by (simp_all add: list_all2_conv_all_nth)
  have "list_all2 (start_reads doc) char (map (\<lambda>i. Some (n, length pre + i)) [0..<length char])"
    using assms(2) len each by (simp add: list_all2_conv_all_nth start_reads_def nth_append)
  moreover have "list_all2 (end_reads doc) char (map (\<lambda>i. Some (n, length pre + length ch + i + 1 - length char)) [0..<length char])"
    using assms(2) len each by (simp add: list_all2_conv_all_nth end_reads_def nth_append)
  ultimately show ?thesis using assms(1) by (simp add: points_ok_def push_char_def list_all2_appendI)
qed

lemma reads_refl: "list_all2 reads ch ch"
  by (simp add: list_all2_same reads_def)

lemma move_end:
  assumes "points_ok doc out" and "st_text out \<noteq> []" and "end_reads doc (last (st_text out)) point"
  shows "points_ok doc (out\<lparr>st_ends := (st_ends out)[length (st_ends out) - 1 := point]\<rparr>)"
proof -
  let ?i = "length (st_ends out) - 1"
  have e: "list_all2 (end_reads doc) (st_text out) (st_ends out)" using assms(1) by (simp add: points_ok_def)
  have "length (st_text out) = length (st_ends out)" using list_all2_lengthD [OF e] .
  then have "(st_text out)[?i := last (st_text out)] = st_text out"
    using assms(2) by (simp add: last_conv_nth)
  then show ?thesis using assms(1) list_all2_update_cong [OF e assms(3), of ?i] by (simp add: points_ok_def)
qed

lemma append_char_points:
  assumes "points_ok doc out" and "doc n = pre @ ch @ post" and "ch \<noteq> []"
    and "list_all (\<lambda>x. \<not> is_space x) ch \<or> (\<exists>x. ch = [x] \<and> is_space x)"
  shows "points_ok doc (append_char ch (Some (n, length pre)) (Some (n, length pre + length ch)) out)"
  using assms(4)
proof
  assume "list_all (\<lambda>x. \<not> is_space x) ch"
  then have "\<not> list_ex is_space ch" by (auto simp: list_all_iff list_ex_iff)
  then show ?thesis using push_points [OF assms(1,2) reads_refl] by (simp add: append_char_def)
next
  assume "\<exists>x. ch = [x] \<and> is_space x"
  then obtain x where x: "ch = [x]" "is_space x" by blast
  have "points_ok doc (push_char [space_unit] (Some (n, length pre)) (Some (n, length pre + length ch)) out)"
    by (rule push_points [OF assms(1,2)]) (simp add: x reads_def)
  moreover have "end_reads doc space_unit (Some (n, length pre + 1))"
    using assms(2) x by (simp add: end_reads_def reads_def)
  then have "ends_blank (st_text out) \<Longrightarrow>
      points_ok doc (out\<lparr>st_ends := (st_ends out)[length (st_ends out) - 1 := Some (n, length pre + 1)]\<rparr>)"
    using move_end [OF assms(1)] by (simp add: ends_blank_def)
  ultimately show ?thesis using assms(1) x by (simp add: append_char_def)
qed

lemma append_chars_points:
  assumes "points_ok doc out" and "doc n = pre @ concat chars @ post" and "set chars \<subseteq> set (js_chars s)"
  shows "points_ok doc (append_chars n (length pre) chars out)"
  using assms
proof (induction chars arbitrary: pre out)
  case (Cons ch chars)
  have ch: "ch \<noteq> []" "list_all (\<lambda>x. \<not> is_space x) ch \<or> (\<exists>x. ch = [x] \<and> is_space x)"
    using Cons.prems(3) js_chars_shape [of ch s] by simp_all
  have "points_ok doc (append_char ch (Some (n, length pre)) (Some (n, length pre + length ch)) out)"
    using append_char_points [OF Cons.prems(1) _ ch, of n pre "concat chars @ post"] Cons.prems(2) by simp
  then show ?case using Cons.IH [of _ "pre @ ch"] Cons.prems(2,3) by simp
qed simp

lemma blank_points: "points_ok doc out \<Longrightarrow> points_ok doc (append_char [space_unit] None None out)"
  by (simp add: append_char_def push_nowhere)

lemma walk_points:
  "points_ok doc out \<Longrightarrow> page_data doc (text_nodes node) \<Longrightarrow> points_ok doc (walk isRoot node out)"
  "points_ok doc out \<Longrightarrow> page_data doc (text_nodes_all nodes) \<Longrightarrow> points_ok doc (walk_all nodes out)"
proof (induction isRoot node out and nodes out rule: walk_walk_all.induct)
  case (1 isRoot n data out)
  then show ?case using append_chars_points [of doc out n "[]" "js_chars data" "[]" data]
    by (simp add: concat_js_chars page_data_def)
next
  case (2 isRoot tag excluded children out)
  show ?case
  proof (cases excluded)
    case False
    let ?block = "tag \<in> set blocks \<and> \<not> isRoot"
    let ?out = "if ?block \<or> tag = js ''BR'' then append_char [space_unit] None None out else out"
    have "points_ok doc ?out" using blank_points 2(2) by simp
    then have "points_ok doc (walk_all children ?out)"
      using 2(1) [OF False refl refl] 2(3) by simp
    then show ?thesis using False blank_points by (simp only: walk.simps Let_def if_False split: if_split) blast
  qed (simp add: 2 blank_points)
qed simp_all

lemma search_points:
  assumes "page_data doc (text_nodes root)"
  shows "points_ok doc (buildVisibleSearchText root)"
proof -
  have "points_ok doc empty_search_text" by (simp add: points_ok_def empty_search_text_def)
  then have w: "points_ok doc (walk True root empty_search_text)" using walk_points(1) assms by blast
  have "list_all2 P (butlast xs) (butlast ys)" if "list_all2 P xs ys" for P :: "code_unit \<Rightarrow> text_point option \<Rightarrow> bool" and xs ys
    using that by (simp add: butlast_conv_take list_all2_takeI list_all2_lengthD [OF that])
  then show ?thesis using w by (simp add: buildVisibleSearchText_def Let_def points_ok_def)
qed

text \<open>
  The range of a match. A range for a match runs from in front of the character of the page that the first code
  unit of the match stands for to behind the one its last code unit stands for; a match outside the text, an empty
  match, or one that begins or ends at a blank of the layout has none.
\<close>

theorem match_range_reads_match:
  assumes "page_data doc (text_nodes root)"
    and "rangeForMatch (buildVisibleSearchText root) i j = Some ((n, off), (n', off'))"
  shows "0 \<le> i \<and> i < j \<and> j \<le> int (length (st_text (buildVisibleSearchText root))) \<and>
    off < length (doc n) \<and> reads (st_text (buildVisibleSearchText root) ! nat i) (doc n ! off) \<and>
    0 < off' \<and> off' \<le> length (doc n') \<and>
    reads (st_text (buildVisibleSearchText root) ! nat (j - 1)) (doc n' ! (off' - 1))"
proof -
  let ?p = "buildVisibleSearchText root"
  have ok: "list_all2 (start_reads doc) (st_text ?p) (st_starts ?p)" "list_all2 (end_reads doc) (st_text ?p) (st_ends ?p)"
    using search_points [OF assms(1)] by (simp_all add: points_ok_def)
  have ij: "0 \<le> i" "i < int (length (st_starts ?p))" "0 \<le> j - 1" "j - 1 < int (length (st_ends ?p))" "i < j"
    and s: "st_starts ?p ! nat i = Some (n, off)" and e: "st_ends ?p ! nat (j - 1) = Some (n', off')"
    using assms(2) by (simp_all add: rangeForMatch_def Let_def split: option.splits if_splits)
  have "start_reads doc (st_text ?p ! nat i) (Some (n, off))"
    using list_all2_nthD2 [OF ok(1), of "nat i"] ij s by (simp add: nat_less_iff)
  moreover have "end_reads doc (st_text ?p ! nat (j - 1)) (Some (n', off'))"
    using list_all2_nthD2 [OF ok(2), of "nat (j - 1)"] ij e by (simp add: nat_less_iff)
  ultimately show ?thesis using ij list_all2_lengthD [OF ok(2)] by (simp add: start_reads_def end_reads_def)
qed

theorem match_range_reads_match_witness:
  "reads (st_text (buildVisibleSearchText (PageElement (js ''DIV'') False [PageText 0 (js '' ab'')])) ! 0)
     (js '' ab'' ! 1)"
proof -
  let ?root = "PageElement (js ''DIV'') False [PageText 0 (js '' ab'')]"
  have "page_data (\<lambda>_. js '' ab'') (text_nodes ?root)" by (simp add: page_data_def)
  moreover have "rangeForMatch (buildVisibleSearchText ?root) 0 2 = Some ((0, 1), (0, 3))"
    by code_simp
  ultimately show ?thesis using match_range_reads_match [of "\<lambda>_. js '' ab''" ?root 0 2 0 1 0 3] by simp
qed

end
