(* ===== verification/Reply_Quote_Source.thy ===== *)
theory Reply_Quote_Source
  imports Search_Text Api_Types File_Rules "HOL-Library.Sublist" Complex_Main
begin

text \<open>
  Quoting a passage of a reply and finding it again: the anchors the renderer writes onto the page
  (\<open>frontend/src/messages/markdown/rehypeReplyQuoteAnchors.ts\<close>, \<open>replyQuoteAnchorProps.ts\<close>), the choice of a passage by
  selecting it (\<open>useReplyQuoteSelection.ts\<close>, \<open>MessageThread.tsx\<close>), and the way back to the passage with its highlight
  (\<open>replyQuoteSourceNavigation.ts\<close>). \<open>num\<close> is \<open>Number\<close> of an attribute's value, \<open>None\<close> when that is no integer.
\<close>

section \<open>Anchors\<close>

datatype prop_value = PropNumber int | PropString jstr | PropNull | PropOther

type_synonym props = "(jstr \<times> prop_value) list"

datatype hast_node = HastNode
  (h_element: bool) (h_tagName: "jstr option") (h_start: "int option") (h_end: "int option")
  (h_properties: "props option") (h_children: "hast_node list")

definition anchored_tags :: "jstr list" where
  "anchored_tags = [js ''a'', js ''blockquote'', js ''code'', js ''del'', js ''em'', js ''h1'', js ''h2'', js ''h3'',
     js ''h4'', js ''h5'', js ''h6'', js ''li'', js ''p'', js ''pre'', js ''strong'', js ''table'', js ''td'', js ''th'']"

definition start_attribute :: jstr where "start_attribute = js ''data-reply-quote-start''"
definition end_attribute :: jstr where "end_attribute = js ''data-reply-quote-end''"

definition is_safe_integer :: "int \<Rightarrow> bool" where
  "is_safe_integer n \<longleftrightarrow> \<bar>n\<bar> \<le> 2 ^ 53 - 1"

definition set_prop :: "jstr \<Rightarrow> prop_value \<Rightarrow> props \<Rightarrow> props" where
  "set_prop k v ps = AList.update k v ps"

fun addAnchors :: "hast_node \<Rightarrow> hast_node" where
  "addAnchors (HastNode element tagName start end_offset properties children) =
     (let properties1 =
        (if element \<and> tagName \<noteq> None \<and> the tagName \<in> set anchored_tags then
           (case (start, end_offset) of
              (Some s, Some e) \<Rightarrow>
                if is_safe_integer s \<and> is_safe_integer e \<and> 0 \<le> s \<and> s < e
                then Some (set_prop end_attribute (PropNumber e)
                       (set_prop start_attribute (PropNumber s) (nullish properties [])))
                else properties
            | _ \<Rightarrow> properties)
         else properties)
      in HastNode element tagName start end_offset properties1 (map addAnchors children))"

text \<open>\<open>a ?? b\<close> on property values: a missing value and \<open>null\<close> fall through.\<close>

definition prop_at :: "jstr \<Rightarrow> props \<Rightarrow> prop_value option" where
  "prop_at k ps = (case map_of ps k of Some PropNull \<Rightarrow> None | v \<Rightarrow> v)"

definition anchorValue :: "prop_value option \<Rightarrow> prop_value option" where
  "anchorValue v = (case v of Some (PropNumber n) \<Rightarrow> v | Some (PropString s) \<Rightarrow> v | _ \<Rightarrow> None)"

definition anchor_prop :: "jstr \<Rightarrow> jstr \<Rightarrow> props option \<Rightarrow> props \<Rightarrow> prop_value option" where
  "anchor_prop attribute camel node_props component_props =
     anchorValue (orelse (prop_at attribute component_props)
       (orelse (prop_at attribute (nullish node_props [])) (prop_at camel (nullish node_props []))))"

definition replyQuoteAnchorProps :: "props option \<Rightarrow> props \<Rightarrow> (prop_value \<times> prop_value) option" where
  "replyQuoteAnchorProps node_props component_props =
     (case (anchor_prop start_attribute (js ''dataReplyQuoteStart'') node_props component_props,
            anchor_prop end_attribute (js ''dataReplyQuoteEnd'') node_props component_props) of
        (Some s, Some e) \<Rightarrow> Some (s, e)
      | _ \<Rightarrow> None)"

text \<open>The attribute React writes for a number or a string.\<close>

definition attribute_text :: "prop_value \<Rightarrow> jstr" where
  "attribute_text v = (case v of PropNumber n \<Rightarrow> digits (nat n) | PropString s \<Rightarrow> s | _ \<Rightarrow> [])"

section \<open>The page\<close>

text \<open>
  An element with its identity, its two attributes, and whether it is a button or marked as excluded from quotes.
  \<open>\<open>SOURCE_SELECTOR\<close>\<close> matches an element that has both attributes.
\<close>

record quote_element =
  qe_id :: nat
  qe_start :: "jstr option"
  qe_end :: "jstr option"
  qe_excluded :: bool

datatype quote_node = QuoteText nat jstr | QuoteElement quote_element "quote_node list"

definition is_source :: "quote_element \<Rightarrow> bool" where
  "is_source e \<longleftrightarrow> qe_start e \<noteq> None \<and> qe_end e \<noteq> None"

definition parseAnchor :: "(jstr \<Rightarrow> int option) \<Rightarrow> quote_element \<Rightarrow> source_anchor option" where
  "parseAnchor num e =
     (let number_of = (\<lambda>v. case v of None \<Rightarrow> Some 0 | Some s \<Rightarrow> num s)
      in case (number_of (qe_start e), number_of (qe_end e)) of
        (Some s, Some t) \<Rightarrow>
          if is_safe_integer s \<and> is_safe_integer t \<and> 0 \<le> s \<and> s < t
          then Some \<lparr>anchor_version = 1, anchor_start = s, anchor_end = t\<rparr> else None
      | _ \<Rightarrow> None)"

text \<open>
  The start of a selection is given by the elements around it, innermost first, those inside the message's root (with
  the root) in \<open>inner\<close>; \<open>closest\<close> looks through all of them, and \<open>contains\<close> accepts those inside.
\<close>

definition captureReplyQuoteSourceAnchor ::
  "(jstr \<Rightarrow> int option) \<Rightarrow> quote_element list \<Rightarrow> quote_element list \<Rightarrow> source_anchor option" where
  "captureReplyQuoteSourceAnchor num inner outer =
     (case List.find is_source (inner @ outer) of
        None \<Rightarrow> None
      | Some e \<Rightarrow> if qe_id e \<in> qe_id ` set inner then parseAnchor num e else None)"

text \<open>\<open>querySelectorAll\<close> below the root, in document order.\<close>

fun elements_of :: "quote_node \<Rightarrow> quote_element list" where
  "elements_of (QuoteText n data) = []"
| "elements_of (QuoteElement e children) = e # concat (map elements_of children)"

definition descendants :: "quote_node \<Rightarrow> quote_element list" where
  "descendants base = (case base of QuoteText n data \<Rightarrow> [] | QuoteElement e children \<Rightarrow> concat (map elements_of children))"

definition exactTarget :: "(jstr \<Rightarrow> int option) \<Rightarrow> quote_node \<Rightarrow> source_anchor \<Rightarrow> quote_element option" where
  "exactTarget num base anchor =
     List.find (\<lambda>e. case parseAnchor num e of
         Some parsed \<Rightarrow> anchor_start parsed = anchor_start anchor \<and> anchor_end parsed = anchor_end anchor
       | None \<Rightarrow> False)
       (filter is_source (descendants base))"

section \<open>The text of a quote\<close>

text \<open>\<open>value.replace(/\s+/gu, " ").trim()\<close>: first the runs of white space, then the ends.\<close>

fun squeeze :: "bool \<Rightarrow> jstr \<Rightarrow> jstr" where
  "squeeze in_run [] = []"
| "squeeze in_run (c # s) =
     (if is_space c then (if in_run then squeeze True s else space_unit # squeeze True s)
      else c # squeeze False s)"

definition collapseWhitespace :: "jstr \<Rightarrow> jstr" where
  "collapseWhitespace value = js_trim (squeeze False value)"

text \<open>The text nodes below a node in document order, each with the elements around it below and with the root.\<close>

fun text_leaves :: "quote_element list \<Rightarrow> quote_node \<Rightarrow> (nat \<times> jstr \<times> quote_element list) list" where
  "text_leaves around (QuoteText n data) = [(n, data, around)]"
| "text_leaves around (QuoteElement e children) = concat (map (text_leaves (e # around)) children)"

record text_map =
  tm_text :: jstr
  tm_nodes :: "nat list"
  tm_pending :: "nat option"

definition selectable :: "quote_element list \<Rightarrow> quote_element list \<Rightarrow> bool" where
  "selectable outer around \<longleftrightarrow>
     (case List.find is_source (around @ outer) of None \<Rightarrow> False | Some e \<Rightarrow> qe_id e \<in> qe_id ` set around) \<and>
     \<not> list_ex qe_excluded (around @ outer)"

fun read_characters :: "nat \<Rightarrow> jstr list \<Rightarrow> text_map \<Rightarrow> text_map" where
  "read_characters current [] m = m"
| "read_characters current (character # characters) m =
     read_characters current characters
       (if list_ex is_space character
        then if tm_text m \<noteq> [] \<and> tm_pending m = None then m\<lparr>tm_pending := Some current\<rparr> else m
        else
          let m1 = (case tm_pending m of
                None \<Rightarrow> m
              | Some n \<Rightarrow> m\<lparr>tm_text := tm_text m @ [space_unit], tm_nodes := tm_nodes m @ [n], tm_pending := None\<rparr>)
          in m1\<lparr>tm_text := tm_text m1 @ character, tm_nodes := tm_nodes m1 @ replicate (length character) current\<rparr>)"

fun read_leaves :: "quote_element list \<Rightarrow> (nat \<times> jstr \<times> quote_element list) list \<Rightarrow> text_map \<Rightarrow> text_map" where
  "read_leaves outer [] m = m"
| "read_leaves outer ((n, data, around) # leaves) m =
     read_leaves outer leaves (if selectable outer around then read_characters n (js_chars data) m else m)"

definition normalizedSelectableText :: "quote_element list \<Rightarrow> quote_node \<Rightarrow> text_map" where
  "normalizedSelectableText outer base =
     read_leaves outer (text_leaves [] base) \<lparr>tm_text = [], tm_nodes = [], tm_pending = None\<rparr>"

definition uniqueOccurrence :: "jstr \<Rightarrow> jstr \<Rightarrow> nat option" where
  "uniqueOccurrence haystack needle =
     (if needle = [] then None
      else case index_of needle haystack of
          None \<Rightarrow> None
        | Some first \<Rightarrow> if index_of needle (drop (first + 1) haystack) \<noteq> None then None else Some first)"

definition legacyTarget :: "quote_element list \<Rightarrow> quote_node \<Rightarrow> jstr \<Rightarrow> quote_element option" where
  "legacyTarget outer base excerpt =
     (let source = normalizedSelectableText outer base
      in case uniqueOccurrence (tm_text source) (collapseWhitespace excerpt) of
          None \<Rightarrow> None
        | Some i \<Rightarrow>
            (case List.find (\<lambda>(n, data, around). n = tm_nodes source ! i) (text_leaves [] base) of
               None \<Rightarrow> None
             | Some (n, data, around) \<Rightarrow>
                 (case List.find is_source (around @ outer) of
                    None \<Rightarrow> None
                  | Some e \<Rightarrow> if qe_id e \<in> qe_id ` set around then Some e else None)))"

section \<open>Lemmas on anchors\<close>

lemma prop_at_update [simp]: "prop_at k (set_prop k (PropNumber n) ps) = Some (PropNumber n)"
  by (simp add: prop_at_def set_prop_def update_conv)

lemma prop_at_other [simp]: "k \<noteq> l \<Longrightarrow> prop_at k (set_prop l v ps) = prop_at k ps"
  by (simp add: prop_at_def set_prop_def update_conv)

lemma attributes_differ [simp]: "start_attribute \<noteq> end_attribute" "end_attribute \<noteq> start_attribute"
  by (simp_all add: start_attribute_def end_attribute_def)

text \<open>
  The anchors of a rendered reply. An element of the reply with a known place in the source is found again on the
  page: the attributes its component passes on read back as that place, whatever else it was given, provided it gives
  the attributes no values of its own.
\<close>

theorem anchor_roundtrip:
  assumes "\<And>n. num (digits n) = Some (int n)"
    and "tag \<in> set anchored_tags" and "is_safe_integer s" and "is_safe_integer e" and "0 \<le> s" and "s < e"
    and "prop_at start_attribute component_props = None" and "prop_at end_attribute component_props = None"
  shows "\<exists>v w. replyQuoteAnchorProps
        (h_properties (addAnchors (HastNode True (Some tag) (Some s) (Some e) properties children))) component_props = Some (v, w) \<and>
      parseAnchor num \<lparr>qe_id = i, qe_start = Some (attribute_text v), qe_end = Some (attribute_text w), qe_excluded = x\<rparr> =
        Some \<lparr>anchor_version = 1, anchor_start = s, anchor_end = e\<rparr>"
proof -
  have "replyQuoteAnchorProps
        (h_properties (addAnchors (HastNode True (Some tag) (Some s) (Some e) properties children))) component_props =
      Some (PropNumber s, PropNumber e)"
    using assms by (simp add: replyQuoteAnchorProps_def anchor_prop_def anchorValue_def)
  moreover have "num (digits (nat s)) = Some s" "num (digits (nat e)) = Some e" using assms by simp_all
  ultimately show ?thesis using assms by (simp add: parseAnchor_def attribute_text_def Let_def)
qed

theorem anchor_roundtrip_witness:
  "\<exists>v w. replyQuoteAnchorProps
        (h_properties (addAnchors (HastNode True (Some (js ''p'')) (Some 3) (Some 12) None []))) [] = Some (v, w) \<and>
      parseAnchor (\<lambda>s. Some (int (digits_value s)))
        \<lparr>qe_id = 0, qe_start = Some (attribute_text v), qe_end = Some (attribute_text w), qe_excluded = False\<rparr> =
        Some \<lparr>anchor_version = 1, anchor_start = 3, anchor_end = 12\<rparr>"
  by (rule anchor_roundtrip)
    (simp_all add: digits_value_digits anchored_tags_def is_safe_integer_def prop_at_def)

section \<open>Lemmas on the text\<close>

lemma last_split_empty: "last (split_at P v) = [] \<longleftrightarrow> v = [] \<or> P (last v)"
  by (cases v rule: rev_cases) (auto simp: split_at_snoc)

lemma words_none: "words_of v = [] \<Longrightarrow> last (split_at is_space v) = []"
  using words_last [of v] by blast

lemma squeeze_snoc:
  "squeeze b (v @ [x]) = squeeze b v @
     (if is_space x then (if (if v = [] then b else is_space (last v)) then [] else [space_unit]) else [x])"
proof (induction v arbitrary: b)
  case (Cons c v)
  then show ?case by (cases v) auto
qed simp

lemma squeeze_written: "squeeze True v = written v"
proof (induction v rule: rev_induct)
  case Nil
  show ?case by (simp add: written_def words_of_def)
next
  case (snoc x v)
  show ?case
  proof (cases "is_space x")
    case True
    have "(v = [] \<or> is_space (last v)) = (written v = [] \<or> ends_blank (written v))"
      using last_split_empty [of is_space v] words_none [of v] written_ends_blank [of v] by metis
    then show ?thesis using snoc True written_blank [OF True, of v] by (auto simp: squeeze_snoc)
  next
    case False
    then show ?thesis using snoc written_word [of "[x]" v] by (simp add: squeeze_snoc)
  qed
qed

lemma squeeze_start:
  "squeeze False v = (if v \<noteq> [] \<and> is_space (hd v) then [space_unit] else []) @ squeeze True v"
  by (cases v) auto

lemma word_ends:
  assumes "words_of v \<noteq> []"
  shows "join [space_unit] (words_of v) \<noteq> []" and "\<not> is_space (hd (join [space_unit] (words_of v)))"
    and "\<not> is_space (last (join [space_unit] (words_of v)))"
proof -
  have clean: "w \<noteq> [] \<and> (\<forall>x \<in> set w. \<not> is_space x)" if "w \<in> set (words_of v)" for w
    using that split_at_clean [of w is_space v] by (auto simp: words_of_def)
  obtain w ws where ws: "words_of v = w # ws" using assms by (cases "words_of v") auto
  have w: "w \<noteq> []" "\<not> is_space (hd w)" using clean [of w] ws by auto
  show "join [space_unit] (words_of v) \<noteq> []" "\<not> is_space (hd (join [space_unit] (words_of v)))"
    unfolding ws using w by (cases ws; simp)+
  obtain us u where us: "words_of v = us @ [u]" using assms by (cases "words_of v" rule: rev_cases) auto
  have "u \<noteq> []" "\<not> is_space (last u)" using clean [of u] us by auto
  then show "\<not> is_space (last (join [space_unit] (words_of v)))" unfolding us by (simp add: join_snoc)
qed

lemma trim_around:
  assumes "list_all is_space pre" and "list_all is_space post"
    and "m \<noteq> [] \<Longrightarrow> \<not> is_space (hd m) \<and> \<not> is_space (last m)"
  shows "js_trim (pre @ m @ post) = m"
proof -
  have pre: "dropWhile is_space pre = []" and post: "dropWhile is_space (rev post) = []"
    using assms(1,2) by (simp_all add: list_all_iff)
  show ?thesis
  proof (cases m)
    case Nil
    have "\<forall>x \<in> set (pre @ post). is_space x" using assms(1,2) by (auto simp: list_all_iff)
    then have d: "dropWhile is_space (pre @ post) = []" by (simp only: dropWhile_eq_Nil_conv)
    show ?thesis unfolding js_trim_def Nil append_Nil d by simp
  next
    case (Cons c cs)
    then have "dropWhile is_space (pre @ m @ post) = m @ post"
      using assms(1,3) by (simp add: list_all_iff dropWhile_append)
    moreover have d: "m = butlast m @ [last m]" using Cons by simp
    then obtain ds d where d: "m = ds @ [d]" by blast
    then have "\<not> is_space d" using assms(3) by simp
    then have "dropWhile is_space (rev (m @ post)) = rev m"
      using d assms(2) by (simp add: list_all_iff dropWhile_append)
    ultimately show ?thesis by (simp add: js_trim_def)
  qed
qed

lemma collapse_words: "collapseWhitespace v = join [space_unit] (words_of v)"
proof -
  let ?pre = "if v \<noteq> [] \<and> is_space (hd v) then [space_unit] else []"
  let ?post = "if words_of v \<noteq> [] \<and> last (split_at is_space v) = [] then [space_unit] else []"
  have "collapseWhitespace v = js_trim (?pre @ join [space_unit] (words_of v) @ ?post)"
    unfolding collapseWhitespace_def squeeze_start squeeze_written written_def by simp
  also have "\<dots> = join [space_unit] (words_of v)"
  proof (rule trim_around)
    assume "join [space_unit] (words_of v) \<noteq> []"
    then have "words_of v \<noteq> []" by auto
    then show "\<not> is_space (hd (join [space_unit] (words_of v))) \<and> \<not> is_space (last (join [space_unit] (words_of v)))"
      using word_ends(2,3) by blast
  qed simp_all
  finally show ?thesis .
qed

definition reads_text :: "text_map \<Rightarrow> jstr \<Rightarrow> bool" where
  "reads_text m u \<longleftrightarrow> tm_text m = join [space_unit] (words_of u) \<and>
     (tm_pending m \<noteq> None \<longleftrightarrow> words_of u \<noteq> [] \<and> last (split_at is_space u) = [])"

lemma join_words_Nil: "join [space_unit] (words_of u) = [] \<longleftrightarrow> words_of u = []"
  using word_ends(1) [of u] by auto

lemma read_character_text:
  assumes "reads_text m u" and "ch \<noteq> []"
    and "list_all (\<lambda>x. \<not> is_space x) ch \<or> (\<exists>x. ch = [x] \<and> is_space x)"
  shows "reads_text (read_characters n [ch] m) (u @ ch)"
  using assms(3)
proof
  assume w: "list_all (\<lambda>x. \<not> is_space x) ch"
  then have no: "\<not> list_ex is_space ch" by (auto simp: list_all_iff list_ex_iff)
  have "written (u @ ch) = written u @ ch" using written_word [OF w assms(2)] .
  moreover have split: "last (split_at is_space (u @ ch)) \<noteq> []"
    using split_at_extend [OF w, of u] assms(2) by simp
  ultimately have "join [space_unit] (words_of (u @ ch)) = written u @ ch" by (simp add: written_def)
  then show ?thesis using assms(1) no split
    by (auto simp: reads_text_def written_def split: option.splits)
next
  assume "\<exists>x. ch = [x] \<and> is_space x"
  then show ?thesis using assms(1)
    by (auto simp: reads_text_def words_of_blank split_at_snoc join_words_Nil)
qed

lemma read_characters_Cons: "read_characters n (ch # chs) m = read_characters n chs (read_characters n [ch] m)"
  by simp

lemma read_characters_text:
  "reads_text m u \<Longrightarrow> set chs \<subseteq> set (js_chars s) \<Longrightarrow> reads_text (read_characters n chs m) (u @ concat chs)"
proof (induction chs arbitrary: m u)
  case (Cons ch chs)
  have "reads_text (read_characters n [ch] m) (u @ ch)"
    by (rule read_character_text) (use Cons.prems js_chars_shape [of ch s] in auto)
  then have "reads_text (read_characters n chs (read_characters n [ch] m)) ((u @ ch) @ concat chs)"
    by (rule Cons.IH) (use Cons.prems(2) in simp)
  then show ?case unfolding read_characters_Cons [of n ch chs m] by simp
qed simp

definition selectable_text :: "quote_element list \<Rightarrow> quote_node \<Rightarrow> jstr" where
  "selectable_text outer base =
     concat (map (\<lambda>(n, data, around). if selectable outer around then data else []) (text_leaves [] base))"

lemma read_leaves_text:
  "reads_text m u \<Longrightarrow>
   reads_text (read_leaves outer leaves m)
     (u @ concat (map (\<lambda>(n, data, around). if selectable outer around then data else []) leaves))"
proof (induction outer leaves m arbitrary: u rule: read_leaves.induct)
  case (2 outer n data around leaves m)
  show ?case
  proof (cases "selectable outer around")
    case True
    have "reads_text (read_characters n (js_chars data) m) (u @ data)"
      using read_characters_text [OF 2(2) subset_refl, of n data] by (simp add: concat_js_chars)
    then show ?thesis using 2(1) [of "u @ data"] True by simp
  next
    case False
    then show ?thesis using 2 by simp
  qed
qed simp

text \<open>
  Looking for an old quote. A quote kept without a place is looked for by its text, and the two sides of the
  search are brought to the same form: the text of the reply that is searched is its selectable text with the white
  space treated exactly as the excerpt's is, by a pass over the page that also keeps the node of every code unit.
\<close>

theorem quote_text_normalised_alike:
  "tm_text (normalizedSelectableText outer base) = collapseWhitespace (selectable_text outer base)"
proof -
  have "reads_text \<lparr>tm_text = [], tm_nodes = [], tm_pending = None\<rparr> []"
    by (simp add: reads_text_def words_of_def)
  then have "reads_text (normalizedSelectableText outer base) ([] @ selectable_text outer base)"
    unfolding normalizedSelectableText_def selectable_text_def by (rule read_leaves_text)
  then show ?thesis by (simp add: reads_text_def collapse_words)
qed

lemma read_characters_nodes:
  "length (tm_nodes m) = length (tm_text m) \<Longrightarrow>
   length (tm_nodes (read_characters n chs m)) = length (tm_text (read_characters n chs m))"
  by (induction n chs m rule: read_characters.induct) (auto simp: Let_def split: option.splits)

lemma normalized_nodes:
  "length (tm_nodes (normalizedSelectableText outer base)) = length (tm_text (normalizedSelectableText outer base))"
proof -
  have "length (tm_nodes (read_leaves outer leaves m)) = length (tm_text (read_leaves outer leaves m))"
    if "length (tm_nodes m) = length (tm_text m)" for leaves m
    using that by (induction outer leaves m rule: read_leaves.induct) (auto simp: read_characters_nodes)
  then show ?thesis by (simp add: normalizedSelectableText_def)
qed

lemma unique_occurrence:
  assumes "uniqueOccurrence haystack needle = Some i"
  shows "needle \<noteq> [] \<and> (\<forall>j. j \<le> length haystack \<and> starts_with needle (drop j haystack) \<longleftrightarrow> j = i)"
proof -
  have n: "needle \<noteq> []" and i: "index_of needle haystack = Some i"
    and no: "index_of needle (drop (i + 1) haystack) = None"
    using assms by (auto simp: uniqueOccurrence_def split: if_splits option.splits)
  have le: "i \<le> length haystack" "starts_with needle (drop i haystack)"
    and before: "\<And>j. j < i \<Longrightarrow> \<not> starts_with needle (drop j haystack)"
    using i by (simp_all add: index_of_Some)
  have after: "\<not> starts_with needle (drop j haystack)" if "i < j" "j \<le> length haystack" for j
  proof -
    from less_imp_Suc_add [OF that(1)] obtain k where "j = Suc (i + k)" by auto
    then show ?thesis using no that(2) unfolding index_of_None by (auto simp: add.commute dest: spec [of _ k])
  qed
  show ?thesis using n le before after by (metis linorder_neqE_nat)
qed

section \<open>Selecting a passage\<close>

text \<open>An element around an end of the selection: whether it is a message's root, and whether it carries the mark that excludes it.\<close>

record page_element =
  pe_element :: quote_element
  pe_messageId :: "jstr option"
  pe_marked :: bool

record client_rect =
  rc_top :: rat
  rc_right :: rat
  rc_bottom :: rat
  rc_left :: rat
  rc_width :: rat
  rc_height :: rat

text \<open>
  The browser's selection: the elements around its anchor and its focus and around the start of its range, innermost
  first, its text, and the rectangles of its range.
\<close>

record page_selection =
  ps_rangeCount :: nat
  ps_isCollapsed :: bool
  ps_anchor :: "page_element list"
  ps_focus :: "page_element list"
  ps_start :: "page_element list"
  ps_text :: jstr
  ps_rects :: "client_rect list"
  ps_bounding :: client_rect

record quote_candidate =
  qc_sourceMessageId :: jstr
  qc_excerpt :: jstr
  qc_sourceAnchor :: "source_anchor option"
  qc_rect :: client_rect

fun lf_newlines :: "jstr \<Rightarrow> jstr" where
  "lf_newlines [] = []"
| "lf_newlines (c # s) =
     (if c = 13 then 10 # (case s of [] \<Rightarrow> [] | d # t \<Rightarrow> if d = 10 then lf_newlines t else lf_newlines s)
      else c # lf_newlines s)"

definition normalizeSelectionText :: "jstr \<Rightarrow> jstr" where
  "normalizeSelectionText value = js_trim (lf_newlines value)"

definition message_root :: "page_element list \<Rightarrow> page_element option" where
  "message_root around = List.find (\<lambda>e. pe_messageId e \<noteq> None) around"

text \<open>The elements around the start that lie inside the root, with the root, and the others.\<close>

definition inside_root :: "page_element \<Rightarrow> page_element list \<Rightarrow> quote_element list \<times> quote_element list" where
  "inside_root base around =
     (let outside = dropWhile (\<lambda>e. qe_id (pe_element e) \<noteq> qe_id (pe_element base)) around
      in if outside = [] then ([], map pe_element around)
         else (map pe_element (takeWhile (\<lambda>e. qe_id (pe_element e) \<noteq> qe_id (pe_element base)) around @ [hd outside]),
               map pe_element (tl outside)))"

definition visible_rect :: "client_rect \<Rightarrow> bool" where
  "visible_rect r \<longleftrightarrow> 0 < rc_width r \<or> 0 < rc_height r"

definition range_rect :: "page_selection \<Rightarrow> client_rect" where
  "range_rect sel =
     (if visible_rect (ps_bounding sel) then ps_bounding sel
      else case filter visible_rect (ps_rects sel) of [] \<Rightarrow> ps_bounding sel | r # _ \<Rightarrow> r)"

definition evaluate_selection :: "(jstr \<Rightarrow> int option) \<Rightarrow> page_selection option \<Rightarrow> quote_candidate option" where
  "evaluate_selection num selection =
     (case selection of
        None \<Rightarrow> None
      | Some sel \<Rightarrow>
          if ps_rangeCount sel = 0 \<or> ps_isCollapsed sel then None
          else (case message_root (ps_anchor sel) of
              None \<Rightarrow> None
            | Some base \<Rightarrow>
                if map_option (\<lambda>r. qe_id (pe_element r)) (message_root (ps_focus sel)) \<noteq> Some (qe_id (pe_element base)) \<or>
                   list_ex pe_marked (ps_anchor sel) \<or> list_ex pe_marked (ps_focus sel)
                then None
                else
                  let sourceMessageId = nullish (pe_messageId base) [];
                      excerpt = normalizeSelectionText (ps_text sel);
                      rect = range_rect sel;
                      sides = inside_root base (ps_start sel)
                  in if sourceMessageId = [] \<or> excerpt = [] then None
                     else if rc_width rect \<le> 0 \<and> rc_height rect \<le> 0 then None
                     else Some \<lparr>qc_sourceMessageId = sourceMessageId, qc_excerpt = excerpt,
                         qc_sourceAnchor = captureReplyQuoteSourceAnchor num (fst sides) (snd sides), qc_rect = rect\<rparr>))"

text \<open>The hook for an open conversation: the timer, whether a pointer is selecting, the queued microtasks, the candidate.\<close>

record quoting =
  qt_timer :: bool
  qt_pointerSelecting :: bool
  qt_queued :: nat
  qt_candidate :: "quote_candidate option"

datatype quoting_event =
    SelectionChanged
  | PointerUp
  | PointerCancelled
  | PointerDown bool bool
  | PageMoved
  | KeyDown bool
  | MicrotaskRun
  | TimerFired "page_selection option"
  | CandidateDismissed
  | ConversationSwitched

definition quoting_start :: quoting where
  "quoting_start = \<lparr>qt_timer = False, qt_pointerSelecting = False, qt_queued = 0, qt_candidate = None\<rparr>"

definition scheduleEvaluate :: "quoting \<Rightarrow> quoting" where
  "scheduleEvaluate st = (if qt_pointerSelecting st then st\<lparr>qt_timer := False\<rparr> else st\<lparr>qt_timer := True\<rparr>)"

definition dismissPending :: "quoting \<Rightarrow> quoting" where
  "dismissPending st = st\<lparr>qt_timer := False, qt_candidate := None\<rparr>"

text \<open>
  \<open>PointerDown on_action in_message\<close> is a press on the quote button or not, inside a message or not; \<open>PageMoved\<close> a
  scroll or a resize; \<open>KeyDown escape\<close> a key. A switch removes the listeners and starts the hook's variables anew; the
  microtask of a released pointer has run by then, because it runs before the next event.
\<close>

fun quoting_step :: "(jstr \<Rightarrow> int option) \<Rightarrow> quoting_event \<Rightarrow> quoting \<Rightarrow> quoting" where
  "quoting_step num SelectionChanged st = scheduleEvaluate st"
| "quoting_step num PointerUp st =
     st\<lparr>qt_pointerSelecting := False, qt_queued := qt_queued st + (if qt_pointerSelecting st then 1 else 0)\<rparr>"
| "quoting_step num PointerCancelled st = st\<lparr>qt_pointerSelecting := False, qt_timer := False\<rparr>"
| "quoting_step num (PointerDown on_action in_message) st =
     (if on_action then st else dismissPending (st\<lparr>qt_pointerSelecting := in_message\<rparr>))"
| "quoting_step num PageMoved st = dismissPending st"
| "quoting_step num (KeyDown escape) st = (if escape then dismissPending st else st)"
| "quoting_step num MicrotaskRun st =
     (if 0 < qt_queued st then scheduleEvaluate (st\<lparr>qt_queued := qt_queued st - 1\<rparr>) else st)"
| "quoting_step num (TimerFired selection) st =
     (if qt_timer st then st\<lparr>qt_timer := False, qt_candidate := evaluate_selection num selection\<rparr> else st)"
| "quoting_step num CandidateDismissed st = st\<lparr>qt_candidate := None\<rparr>"
| "quoting_step num ConversationSwitched st = quoting_start"

text \<open>The quote button: too long a passage is refused with a message.\<close>

definition too_long_message :: jstr where
  "too_long_message = js ''Select no more than 4,000 characters to quote.''"

definition quote_selected :: "quote_candidate \<Rightarrow> jstr + reply_quote_draft" where
  "quote_selected selected =
     (if 4000 < length (js_chars (qc_excerpt selected)) then Inl too_long_message
      else Inr \<lparr>rqd_source_message_id = qc_sourceMessageId selected, rqd_excerpt = qc_excerpt selected,
                rqd_source_anchor = qc_sourceAnchor selected\<rparr>)"

definition candidate_ok :: "quote_candidate \<Rightarrow> bool" where
  "candidate_ok c \<longleftrightarrow> qc_sourceMessageId c \<noteq> [] \<and> qc_excerpt c \<noteq> [] \<and> 13 \<notin> set (qc_excerpt c) \<and>
     js_trim (qc_excerpt c) = qc_excerpt c \<and> visible_rect (qc_rect c)"

lemma lf_newlines_no_cr: "13 \<notin> set (lf_newlines s)"
  by (induction s rule: lf_newlines.induct) (auto split: list.splits)

lemma js_trim_subset: "set (js_trim s) \<subseteq> set s"
  unfolding js_trim_def by (auto dest!: set_dropWhileD)

lemma evaluated_ok: "evaluate_selection num selection = Some c \<Longrightarrow> candidate_ok c"
  using lf_newlines_no_cr js_trim_subset
  by (fastforce simp: evaluate_selection_def candidate_ok_def normalizeSelectionText_def js_trim_again Let_def visible_rect_def
      split: option.splits if_splits)

inductive quoting_reachable :: "(jstr \<Rightarrow> int option) \<Rightarrow> quoting \<Rightarrow> bool" for num where
  Start: "quoting_reachable num quoting_start"
| Step: "quoting_reachable num st \<Longrightarrow> quoting_reachable num (quoting_step num event st)"

lemma quoting_invariant:
  assumes "quoting_reachable num st"
  shows "pred_option candidate_ok (qt_candidate st) \<and> (qt_pointerSelecting st \<longrightarrow> \<not> qt_timer st \<and> qt_candidate st = None)"
  using assms
proof induction
  case (Step st event)
  then show ?case
    by (cases event) (auto simp: scheduleEvaluate_def dismissPending_def quoting_start_def option.pred_set dest: evaluated_ok)
qed (simp add: quoting_start_def)

end
