(* ===== verification/Quote_Reveal.thy ===== *)
theory Quote_Reveal
  imports Reply_Quote_Source
begin

text \<open>
  Scrolling to a quoted passage and highlighting it (\<open>revealReplyQuoteSource\<close> of
  \<open>frontend/src/messages/replyQuoteSourceNavigation.ts\<close>): one handle per call, the element's entry in
  \<open>activeHighlights\<close>, the timers and frames a handle waits for, and the two style properties it borrows.
\<close>

section \<open>Definitions\<close>

definition highlight_background :: jstr where "highlight_background = js ''rgba(255, 235, 140, 0.6)''"

text \<open>An element's own values of \<open>background-color\<close> and \<open>transition\<close>; an empty one is removed.\<close>

type_synonym element_style = "jstr \<times> jstr"

record reveal_handle =
  rh_target :: "nat option"
  rh_reduced :: bool
  rh_original :: element_style
  rh_goal :: rat
  rh_revealed :: bool
  rh_cancelled :: bool
  rh_highlighted :: bool
  rh_scrollFinished :: bool
  rh_scrollTimeout :: bool
  rh_holdTimeout :: bool
  rh_fadeTimeout :: bool
  rh_frame :: bool
  rh_stableFrames :: nat
  rh_observedMovement :: bool
  rh_previousTop :: rat

record reveal_world =
  rw_handles :: "reveal_handle list"
  rw_active :: "nat \<rightharpoonup> nat"
  rw_style :: "nat \<Rightarrow> element_style"

record scroll_geometry =
  sg_scrollTop :: rat
  sg_scrollHeight :: rat
  sg_clientHeight :: rat
  sg_rootTop :: rat
  sg_targetTop :: rat

definition context_offset :: "scroll_geometry \<Rightarrow> rat" where
  "context_offset g = min 200 (max 70 (sg_clientHeight g / 5))"

definition max_scroll_top :: "scroll_geometry \<Rightarrow> rat" where
  "max_scroll_top g = max 0 (sg_scrollHeight g - sg_clientHeight g)"

definition target_scroll_top :: "scroll_geometry \<Rightarrow> rat" where
  "target_scroll_top g =
     min (max_scroll_top g) (max 0 (sg_scrollTop g + sg_targetTop g - sg_rootTop g - context_offset g))"

definition update_handle :: "nat \<Rightarrow> (reveal_handle \<Rightarrow> reveal_handle) \<Rightarrow> reveal_world \<Rightarrow> reveal_world" where
  "update_handle i f w = w\<lparr>rw_handles := (rw_handles w)[i := f (rw_handles w ! i)]\<rparr>"

definition restore_style :: "nat option \<Rightarrow> element_style \<Rightarrow> reveal_world \<Rightarrow> reveal_world" where
  "restore_style target style w = (case target of None \<Rightarrow> w | Some t \<Rightarrow> w\<lparr>rw_style := (rw_style w)(t := style)\<rparr>)"

definition delete_active :: "nat option \<Rightarrow> reveal_world \<Rightarrow> reveal_world" where
  "delete_active target w = (case target of None \<Rightarrow> w | Some t \<Rightarrow> w\<lparr>rw_active := (rw_active w)(t := None)\<rparr>)"

definition cancel_handle :: "nat \<Rightarrow> reveal_world \<Rightarrow> reveal_world" where
  "cancel_handle i w =
     (let h = rw_handles w ! i
      in if rh_cancelled h then w
         else
           let w1 = update_handle i (\<lambda>h. h\<lparr>rh_cancelled := True, rh_scrollTimeout := False, rh_holdTimeout := False,
                 rh_fadeTimeout := False, rh_frame := False\<rparr>) w;
               w2 = (if rh_highlighted h then restore_style (rh_target h) (rh_original h) w1 else w1)
           in if rh_target h \<noteq> None \<and> rw_active w2 (the (rh_target h)) = Some i
              then delete_active (rh_target h) w2 else w2)"

text \<open>\<open>previous?.cancel()\<close>: cancelling the entry of a target, if it has one.\<close>

definition cancel_entry :: "nat option \<Rightarrow> reveal_world \<Rightarrow> reveal_world" where
  "cancel_entry target w = (case target of
      None \<Rightarrow> w
    | Some t \<Rightarrow> (case rw_active w t of None \<Rightarrow> w | Some previous \<Rightarrow> cancel_handle previous w))"

definition reveal_target :: "nat \<Rightarrow> reveal_world \<Rightarrow> reveal_world" where
  "reveal_target i w =
     (let h = rw_handles w ! i
      in if rh_cancelled h \<or> rh_target h = None then w
         else update_handle i (\<lambda>h. h\<lparr>rh_highlighted := True, rh_revealed := True, rh_holdTimeout := True\<rparr>)
           (restore_style (rh_target h) (highlight_background, js ''none'') w))"

definition finish_scroll :: "nat \<Rightarrow> reveal_world \<Rightarrow> reveal_world" where
  "finish_scroll i w =
     (let h = rw_handles w ! i
      in if rh_scrollFinished h \<or> rh_cancelled h then w
         else reveal_target i
           (update_handle i (\<lambda>h. h\<lparr>rh_scrollFinished := True, rh_scrollTimeout := False, rh_frame := False\<rparr>) w))"

definition new_handle :: "nat option \<Rightarrow> bool \<Rightarrow> rat \<Rightarrow> rat \<Rightarrow> reveal_world \<Rightarrow> reveal_handle" where
  "new_handle target reduced goal top_after w =
     \<lparr>rh_target = target, rh_reduced = reduced,
      rh_original = (case target of None \<Rightarrow> ([], []) | Some t \<Rightarrow> rw_style w t),
      rh_goal = goal, rh_revealed = False, rh_cancelled = False, rh_highlighted = False,
      rh_scrollFinished = False, rh_scrollTimeout = False, rh_holdTimeout = False, rh_fadeTimeout = False,
      rh_frame = False, rh_stableFrames = 0, rh_observedMovement = False, rh_previousTop = top_after\<rparr>"

text \<open>\<open>revealReplyQuoteSource\<close>; \<open>top_after\<close> is where the scroll position is when \<open>scrollTo\<close> returns.\<close>

definition reveal_start :: "nat option \<Rightarrow> bool \<Rightarrow> scroll_geometry \<Rightarrow> rat \<Rightarrow> reveal_world \<Rightarrow> reveal_world" where
  "reveal_start target reduced g top_after w =
     (let w1 = cancel_entry target w;
          i = length (rw_handles w1);
          goal = target_scroll_top g;
          w2 = w1\<lparr>rw_handles := rw_handles w1 @ [new_handle target reduced goal top_after w1],
                  rw_active := (case target of None \<Rightarrow> rw_active w1 | Some t \<Rightarrow> (rw_active w1)(t \<mapsto> i))\<rparr>
      in if reduced \<or> \<bar>sg_scrollTop g - goal\<bar> < 1 then finish_scroll i w2
         else update_handle i (\<lambda>h. h\<lparr>rh_frame := True, rh_scrollTimeout := True\<rparr>) w2)"

text \<open>\<open>waitForStableScroll\<close>, with the scroll position at this frame: what it notes, and what follows.\<close>

definition observe_frame :: "rat \<Rightarrow> reveal_handle \<Rightarrow> reveal_handle" where
  "observe_frame top_now h =
     (let moving = 1 / 2 \<le> \<bar>top_now - rh_previousTop h\<bar>
      in h\<lparr>rh_frame := False,
           rh_stableFrames :=
             (if moving then 0
              else if rh_observedMovement h \<or> \<bar>top_now - rh_goal h\<bar> < 1 then rh_stableFrames h + 1
              else rh_stableFrames h),
           rh_observedMovement := (rh_observedMovement h \<or> moving),
           rh_previousTop := top_now\<rparr>)"

definition scroll_frame :: "nat \<Rightarrow> rat \<Rightarrow> reveal_world \<Rightarrow> reveal_world" where
  "scroll_frame i top_now w =
     (let h = rw_handles w ! i
      in if rh_cancelled h \<or> rh_scrollFinished h then update_handle i (\<lambda>h. h\<lparr>rh_frame := False\<rparr>) w
         else
           let w1 = update_handle i (observe_frame top_now) w
           in if 3 \<le> rh_stableFrames (rw_handles w1 ! i) then finish_scroll i w1
              else update_handle i (\<lambda>h. h\<lparr>rh_frame := True\<rparr>) w1)"

text \<open>The end of the time a highlight holds, and of the time it fades.\<close>

definition hold_ended :: "nat \<Rightarrow> reveal_world \<Rightarrow> reveal_world" where
  "hold_ended i w =
     (let h = rw_handles w ! i; w1 = update_handle i (\<lambda>h. h\<lparr>rh_holdTimeout := False\<rparr>) w
      in if rh_cancelled h then w1
         else if rh_reduced h
         then delete_active (rh_target h)
           (update_handle i (\<lambda>h. h\<lparr>rh_highlighted := False\<rparr>) (restore_style (rh_target h) (rh_original h) w1))
         else update_handle i (\<lambda>h. h\<lparr>rh_fadeTimeout := True\<rparr>)
           (restore_style (rh_target h) (fst (rh_original h), js ''background-color 1s'') w1))"

definition fade_ended :: "nat \<Rightarrow> reveal_world \<Rightarrow> reveal_world" where
  "fade_ended i w =
     (let h = rw_handles w ! i; w1 = update_handle i (\<lambda>h. h\<lparr>rh_fadeTimeout := False\<rparr>) w
      in if rh_cancelled h then w1
         else delete_active (rh_target h)
           (update_handle i (\<lambda>h. h\<lparr>rh_highlighted := False\<rparr>) (restore_style (rh_target h) (rh_original h) w1)))"

datatype reveal_event =
    RevealStarted "nat option" bool scroll_geometry rat
  | ScrollEnded nat
  | ScrollTimedOut nat
  | FrameRan nat rat
  | HoldEnded nat
  | FadeEnded nat
  | RevealCancelled nat

text \<open>An event of a handle that does not exist, or of a timer that is not running, does not happen.\<close>

fun reveal_step :: "reveal_event \<Rightarrow> reveal_world \<Rightarrow> reveal_world" where
  "reveal_step (RevealStarted target reduced g top_after) w = reveal_start target reduced g top_after w"
| "reveal_step (ScrollEnded i) w = (if i < length (rw_handles w) then finish_scroll i w else w)"
| "reveal_step (ScrollTimedOut i) w =
     (if i < length (rw_handles w) \<and> rh_scrollTimeout (rw_handles w ! i) then finish_scroll i w else w)"
| "reveal_step (FrameRan i top_now) w =
     (if i < length (rw_handles w) \<and> rh_frame (rw_handles w ! i) then scroll_frame i top_now w else w)"
| "reveal_step (HoldEnded i) w =
     (if i < length (rw_handles w) \<and> rh_holdTimeout (rw_handles w ! i) then hold_ended i w else w)"
| "reveal_step (FadeEnded i) w =
     (if i < length (rw_handles w) \<and> rh_fadeTimeout (rw_handles w ! i) then fade_ended i w else w)"
| "reveal_step (RevealCancelled i) w = (if i < length (rw_handles w) then cancel_handle i w else w)"

definition reveal_initial :: "(nat \<Rightarrow> element_style) \<Rightarrow> reveal_world" where
  "reveal_initial own = \<lparr>rw_handles = [], rw_active = Map.empty, rw_style = own\<rparr>"

inductive reveal_reachable :: "(nat \<Rightarrow> element_style) \<Rightarrow> reveal_world \<Rightarrow> bool" for own where
  Initially: "reveal_reachable own (reveal_initial own)"
| Further: "reveal_reachable own w \<Longrightarrow> reveal_reachable own (reveal_step event w)"

section \<open>The invariant\<close>

text \<open>
  A handle is busy from its start to the end of its highlight or its cancellation; a busy handle with a target is the
  target's entry, and waits for a timer.
\<close>

definition busy :: "reveal_handle \<Rightarrow> bool" where
  "busy h \<longleftrightarrow> \<not> rh_cancelled h \<and> (\<not> rh_scrollFinished h \<or> rh_highlighted h)"

definition waiting :: "reveal_handle \<Rightarrow> bool" where
  "waiting h \<longleftrightarrow>
     (rh_scrollTimeout h \<longrightarrow> busy h \<and> \<not> rh_scrollFinished h) \<and>
     (rh_holdTimeout h \<or> rh_fadeTimeout h \<longrightarrow> busy h \<and> rh_highlighted h) \<and>
     (busy h \<and> \<not> rh_scrollFinished h \<longrightarrow> rh_scrollTimeout h \<and> \<not> rh_highlighted h) \<and>
     (rh_highlighted h \<and> \<not> rh_cancelled h \<longrightarrow> rh_target h \<noteq> None \<and> rh_scrollFinished h \<and> (rh_holdTimeout h \<or> rh_fadeTimeout h)) \<and>
     (rh_fadeTimeout h \<longrightarrow> \<not> rh_holdTimeout h)"

definition reveal_ok :: "(nat \<Rightarrow> element_style) \<Rightarrow> reveal_world \<Rightarrow> bool" where
  "reveal_ok own w \<longleftrightarrow>
     (\<forall>i < length (rw_handles w). \<forall>t. rh_target (rw_handles w ! i) = Some t \<longrightarrow>
        rh_original (rw_handles w ! i) = own t \<and> (busy (rw_handles w ! i) \<longrightarrow> rw_active w t = Some i)) \<and>
     (\<forall>t i. rw_active w t = Some i \<longrightarrow>
        i < length (rw_handles w) \<and> rh_target (rw_handles w ! i) = Some t \<and> busy (rw_handles w ! i)) \<and>
     (\<forall>t. rw_style w t \<noteq> own t \<longrightarrow> (\<exists>i. rw_active w t = Some i \<and> rh_highlighted (rw_handles w ! i)))"

definition all_waiting :: "reveal_world \<Rightarrow> bool" where
  "all_waiting w \<longleftrightarrow> (\<forall>i < length (rw_handles w). waiting (rw_handles w ! i))"


section \<open>Preservation\<close>

lemma observe_frame_simps [simp]:
  "rh_target (observe_frame x h) = rh_target h" "rh_original (observe_frame x h) = rh_original h"
  "rh_cancelled (observe_frame x h) = rh_cancelled h" "rh_highlighted (observe_frame x h) = rh_highlighted h"
  "rh_scrollFinished (observe_frame x h) = rh_scrollFinished h" "rh_scrollTimeout (observe_frame x h) = rh_scrollTimeout h"
  "rh_holdTimeout (observe_frame x h) = rh_holdTimeout h" "rh_fadeTimeout (observe_frame x h) = rh_fadeTimeout h"
  by (simp_all add: observe_frame_def Let_def)

lemma world_projections [simp]:
  "rw_handles (update_handle i f w) = (rw_handles w)[i := f (rw_handles w ! i)]"
  "rw_active (update_handle i f w) = rw_active w"
  "rw_style (update_handle i f w) = rw_style w"
  "rw_handles (restore_style target style w) = rw_handles w"
  "rw_active (restore_style target style w) = rw_active w"
  "rw_style (restore_style target style w) t = (if target = Some t then style else rw_style w t)"
  "rw_handles (delete_active target w) = rw_handles w"
  "rw_active (delete_active target w) t = (if target = Some t then None else rw_active w t)"
  "rw_style (delete_active target w) = rw_style w"
  by (simp_all add: update_handle_def restore_style_def delete_active_def split: option.splits)

lemma ok_own: "reveal_ok own w \<Longrightarrow> i < length (rw_handles w) \<Longrightarrow> rh_target (rw_handles w ! i) = Some t \<Longrightarrow>
    rh_original (rw_handles w ! i) = own t"
  unfolding reveal_ok_def by blast

lemma ok_busy: "reveal_ok own w \<Longrightarrow> i < length (rw_handles w) \<Longrightarrow> rh_target (rw_handles w ! i) = Some t \<Longrightarrow>
    busy (rw_handles w ! i) \<Longrightarrow> rw_active w t = Some i"
  unfolding reveal_ok_def by blast

lemma ok_entry: "reveal_ok own w \<Longrightarrow> rw_active w t = Some i \<Longrightarrow>
    i < length (rw_handles w) \<and> rh_target (rw_handles w ! i) = Some t \<and> busy (rw_handles w ! i)"
  unfolding reveal_ok_def by blast

lemma ok_style: "reveal_ok own w \<Longrightarrow> rw_style w t \<noteq> own t \<Longrightarrow>
    \<exists>i. rw_active w t = Some i \<and> rh_highlighted (rw_handles w ! i)"
  unfolding reveal_ok_def by blast

lemma reveal_okI:
  assumes "\<And>i t. i < length (rw_handles w) \<Longrightarrow> rh_target (rw_handles w ! i) = Some t \<Longrightarrow> rh_original (rw_handles w ! i) = own t"
    and "\<And>i t. i < length (rw_handles w) \<Longrightarrow> rh_target (rw_handles w ! i) = Some t \<Longrightarrow> busy (rw_handles w ! i) \<Longrightarrow> rw_active w t = Some i"
    and "\<And>i t. rw_active w t = Some i \<Longrightarrow> i < length (rw_handles w) \<and> rh_target (rw_handles w ! i) = Some t \<and> busy (rw_handles w ! i)"
    and "\<And>t. rw_style w t \<noteq> own t \<Longrightarrow> \<exists>i. rw_active w t = Some i \<and> rh_highlighted (rw_handles w ! i)"
  shows "reveal_ok own w"
  unfolding reveal_ok_def using assms by blast

lemma handle_at [simp]:
  "i < length hs \<Longrightarrow> (hs[i := h]) ! j = (if j = i then h else hs ! j)"
  by (simp add: nth_list_update)

text \<open>A change of one handle that stays as busy as it was, with at most its target's style.\<close>

lemma ok_keep:
  assumes ok: "reveal_ok own w" and i: "i < length (rw_handles w)"
    and w': "rw_handles w' = (rw_handles w)[i := h']" "\<And>t. rw_active w' t = rw_active w t"
    and h': "rh_target h' = rh_target (rw_handles w ! i)" "rh_original h' = rh_original (rw_handles w ! i)"
      "busy h' = busy (rw_handles w ! i)"
    and at_target: "\<And>t. rh_target (rw_handles w ! i) = Some t \<Longrightarrow> rw_style w' t \<noteq> own t \<Longrightarrow>
        busy h' \<and> rh_highlighted h' \<or> rw_style w' t = rw_style w t \<and> (rh_highlighted (rw_handles w ! i) \<longrightarrow> rh_highlighted h')"
    and elsewhere: "\<And>t. rh_target (rw_handles w ! i) \<noteq> Some t \<Longrightarrow> rw_style w' t = rw_style w t"
  shows "reveal_ok own w'"
proof -
  let ?h = "rw_handles w ! i"
  have "\<exists>j. rw_active w t = Some j \<and> rh_highlighted (rw_handles w' ! j)" if s: "rw_style w' t \<noteq> own t" for t
  proof (cases "rh_target ?h = Some t \<and> busy h' \<and> rh_highlighted h'")
    case True
    then have "rw_active w t = Some i" using ok i h'(3) unfolding reveal_ok_def by blast
    then show ?thesis using True i w'(1) by simp
  next
    case False
    then have "rw_style w' t = rw_style w t \<and> (rh_target ?h = Some t \<longrightarrow> rh_highlighted ?h \<longrightarrow> rh_highlighted h')"
      using elsewhere at_target s by blast
    then obtain j where j: "rw_active w t = Some j" "rh_highlighted (rw_handles w ! j)"
        "rh_target ?h = Some t \<longrightarrow> rh_highlighted ?h \<longrightarrow> rh_highlighted h'"
      using ok s unfolding reveal_ok_def by metis
    then have "rh_target (rw_handles w ! j) = Some t" using ok unfolding reveal_ok_def by blast
    then have "rh_highlighted (rw_handles w' ! j)" using j i w'(1) by (cases "j = i") auto
    then show ?thesis using j(1) by blast
  qed
  note style = this
  show ?thesis
  proof (rule reveal_okI)
    fix j t
    assume j: "j < length (rw_handles w')" "rh_target (rw_handles w' ! j) = Some t"
    then have j': "j < length (rw_handles w)" "rh_target (rw_handles w ! j) = Some t"
      using w'(1) i h'(1) by (simp_all split: if_splits)
    show "rh_original (rw_handles w' ! j) = own t" using ok_own [OF ok j'] w'(1) i h'(2) by (cases "j = i") simp_all
    show "rw_active w' t = Some j" if "busy (rw_handles w' ! j)"
      using ok_busy [OF ok j'] that w' i h'(3) by (simp split: if_splits)
  next
    fix j t
    assume "rw_active w' t = Some j"
    then show "j < length (rw_handles w') \<and> rh_target (rw_handles w' ! j) = Some t \<and> busy (rw_handles w' ! j)"
      using ok_entry [OF ok, of t j] w' i h' by (cases "j = i") simp_all
  qed (simp add: style w'(2))
qed

text \<open>The end of a busy handle: its target has its style back and no entry.\<close>

lemma ok_release:
  assumes ok: "reveal_ok own w" and i: "i < length (rw_handles w)"
    and w': "rw_handles w' = (rw_handles w)[i := h']"
      "\<And>t. rw_active w' t = (if rh_target (rw_handles w ! i) = Some t then None else rw_active w t)"
    and h': "rh_target h' = rh_target (rw_handles w ! i)" "rh_original h' = rh_original (rw_handles w ! i)"
      "busy (rw_handles w ! i)" "\<not> busy h'"
    and at_target: "\<And>t. rh_target (rw_handles w ! i) = Some t \<Longrightarrow> rw_style w' t = own t"
    and elsewhere: "\<And>t. rh_target (rw_handles w ! i) \<noteq> Some t \<Longrightarrow> rw_style w' t = rw_style w t"
  shows "reveal_ok own w'"
proof -
  let ?h = "rw_handles w ! i"
  have act: "rw_active w' t = (if rh_target ?h = Some t then None else rw_active w t)" for t
    by (rule w'(2))
  have mine: "rw_active w t = Some i" if "rh_target ?h = Some t" for t
    using ok i h'(3) that unfolding reveal_ok_def by blast
  have others: "rh_target ?h \<noteq> Some t" if "j \<noteq> i" "rw_active w t = Some j" for j t
    using mine that by auto
  have "\<exists>j. rw_active w' t = Some j \<and> rh_highlighted (rw_handles w' ! j)" if s: "rw_style w' t \<noteq> own t" for t
  proof -
    have no: "rh_target ?h \<noteq> Some t" using at_target s by blast
    then have "rw_style w t \<noteq> own t" using elsewhere s by simp
    then obtain j where j: "rw_active w t = Some j" "rh_highlighted (rw_handles w ! j)" "rh_target (rw_handles w ! j) = Some t"
      using ok unfolding reveal_ok_def by blast
    then have "j \<noteq> i" using no by auto
    then show ?thesis using j no w'(1) by (auto simp: act)
  qed
  moreover have "rh_original (rw_handles w' ! j) = own t \<and> (busy (rw_handles w' ! j) \<longrightarrow> rw_active w' t = Some j)"
    if j: "j < length (rw_handles w')" "rh_target (rw_handles w' ! j) = Some t" for j t
  proof -
    have j': "j < length (rw_handles w)" "rh_target (rw_handles w ! j) = Some t"
      using j w'(1) i h'(1) by (simp_all split: if_splits)
    show ?thesis
      using ok_own [OF ok j'] ok_busy [OF ok j'] others [of j t] i h'(2,4) by (auto simp: act w'(1))
  qed
  moreover have "j < length (rw_handles w') \<and> rh_target (rw_handles w' ! j) = Some t \<and> busy (rw_handles w' ! j)"
    if "rw_active w' t = Some j" for j t
  proof -
    have a: "rw_active w t = Some j" "rh_target ?h \<noteq> Some t" using that by (auto simp: act split: if_splits)
    then have "j < length (rw_handles w)" "rh_target (rw_handles w ! j) = Some t" "busy (rw_handles w ! j)"
      using ok unfolding reveal_ok_def by blast+
    moreover have "j \<noteq> i" using a(2) calculation(2) by auto
    ultimately show ?thesis by (simp add: w'(1))
  qed
  ultimately show ?thesis unfolding reveal_ok_def by blast
qed

lemma own_when_plain:
  assumes "reveal_ok own w" and "i < length (rw_handles w)" and "rh_target (rw_handles w ! i) = Some t"
    and "rw_style w t \<noteq> own t" and "busy (rw_handles w ! i)"
  shows "rh_highlighted (rw_handles w ! i)"
proof -
  obtain j where "rw_active w t = Some j" "rh_highlighted (rw_handles w ! j)"
    using assms(1,4) unfolding reveal_ok_def by blast
  moreover have "rw_active w t = Some i" using assms unfolding reveal_ok_def by blast
  ultimately show ?thesis by simp
qed

lemma cancel_ok:
  assumes ok: "reveal_ok own w" and i: "i < length (rw_handles w)" and wait: "waiting (rw_handles w ! i)"
  shows "reveal_ok own (cancel_handle i w)"
proof (cases "rh_cancelled (rw_handles w ! i)")
  case True
  then show ?thesis using ok by (simp add: cancel_handle_def)
next
  case False
  let ?h = "rw_handles w ! i"
  let ?h' = "?h\<lparr>rh_cancelled := True, rh_scrollTimeout := False, rh_holdTimeout := False, rh_fadeTimeout := False, rh_frame := False\<rparr>"
  have hs: "rw_handles (cancel_handle i w) = (rw_handles w)[i := ?h']"
    using False by (simp add: cancel_handle_def Let_def)
  have style: "rw_style (cancel_handle i w) t = (if rh_highlighted ?h \<and> rh_target ?h = Some t then rh_original ?h else rw_style w t)" for t
    using False by (simp add: cancel_handle_def Let_def)
  have act: "rw_active (cancel_handle i w) t =
      (if rw_active w t = Some i \<and> rh_target ?h = Some t then None else rw_active w t)" for t
    using False by (auto simp: cancel_handle_def Let_def)
  have no_busy: "\<not> busy ?h'" by (simp add: busy_def)
  show ?thesis
  proof (cases "busy ?h")
    case True
    have mine: "rw_active w t = Some i" if "rh_target ?h = Some t" for t
      using ok i True that unfolding reveal_ok_def by blast
    show ?thesis
    proof (rule ok_release [OF ok i hs])
      show "rw_active (cancel_handle i w) t = (if rh_target ?h = Some t then None else rw_active w t)" for t
        unfolding act using mine by auto
      show "rw_style (cancel_handle i w) t = own t" if "rh_target ?h = Some t" for t
        unfolding style using that ok_own [OF ok i that] own_when_plain [OF ok i that _ True] by auto
      show "rw_style (cancel_handle i w) t = rw_style w t" if "rh_target ?h \<noteq> Some t" for t
        unfolding style using that by simp
    qed (use True no_busy in simp_all)
  next
    case NB: False
    then have plain: "\<not> rh_highlighted ?h" using False by (simp add: busy_def)
    have none: "rw_active w t \<noteq> Some i" for t using ok NB unfolding reveal_ok_def by blast
    show ?thesis
      by (rule ok_keep [OF ok i hs]) (use none plain NB no_busy in \<open>simp_all add: act style\<close>)
  qed
qed

lemma finish_ok:
  assumes ok: "reveal_ok own w" and i: "i < length (rw_handles w)" and plain: "\<not> rh_highlighted (rw_handles w ! i) \<or> rh_scrollFinished (rw_handles w ! i)"
  shows "reveal_ok own (finish_scroll i w)"
proof (cases "rh_scrollFinished (rw_handles w ! i) \<or> rh_cancelled (rw_handles w ! i)")
  case True
  then show ?thesis using ok by (simp add: finish_scroll_def)
next
  case False
  let ?h = "rw_handles w ! i"
  have b: "busy ?h" using False by (simp add: busy_def)
  show ?thesis
  proof (cases "rh_target ?h")
    case None
    let ?h' = "?h\<lparr>rh_scrollFinished := True, rh_scrollTimeout := False, rh_frame := False\<rparr>"
    show ?thesis
      by (rule ok_release [OF ok i, of _ ?h'])
        (use None False b plain i in \<open>simp_all add: finish_scroll_def reveal_target_def Let_def busy_def\<close>)
  next
    case (Some t)
    let ?h' = "?h\<lparr>rh_scrollFinished := True, rh_scrollTimeout := False, rh_frame := False, rh_highlighted := True,
        rh_revealed := True, rh_holdTimeout := True\<rparr>"
    show ?thesis
      by (rule ok_keep [OF ok i, of _ ?h'])
        (use Some False b i in \<open>simp_all add: finish_scroll_def reveal_target_def Let_def busy_def\<close>)
  qed
qed

lemma quiet_ok:
  assumes ok: "reveal_ok own w" and i: "i < length (rw_handles w)"
    and f: "rh_target (f (rw_handles w ! i)) = rh_target (rw_handles w ! i)"
      "rh_original (f (rw_handles w ! i)) = rh_original (rw_handles w ! i)"
      "busy (f (rw_handles w ! i)) = busy (rw_handles w ! i)"
      "rh_highlighted (f (rw_handles w ! i)) = rh_highlighted (rw_handles w ! i)"
  shows "reveal_ok own (update_handle i f w)"
  by (rule ok_keep [OF ok i, of _ "f (rw_handles w ! i)"]) (use f in simp_all)

lemma frame_ok:
  assumes ok: "reveal_ok own w" and i: "i < length (rw_handles w)" and wait: "waiting (rw_handles w ! i)"
  shows "reveal_ok own (scroll_frame i x w)"
proof -
  let ?h = "rw_handles w ! i"
  have plain: "\<not> rh_highlighted ?h \<or> rh_scrollFinished ?h \<or> rh_cancelled ?h" using wait unfolding waiting_def busy_def by blast
  show ?thesis
  proof (cases "rh_cancelled ?h \<or> rh_scrollFinished ?h")
    case True
    then show ?thesis using quiet_ok [OF ok i] by (simp add: scroll_frame_def Let_def busy_def)
  next
    case False
    let ?w = "update_handle i (observe_frame x) w"
    have q: "reveal_ok own ?w"
      by (rule quiet_ok [OF ok i]) (simp_all add: busy_def)
    have "reveal_ok own (finish_scroll i ?w)"
      by (rule finish_ok [OF q]) (use i plain False in simp_all)
    moreover have "reveal_ok own (update_handle i (\<lambda>h. h\<lparr>rh_frame := True\<rparr>) ?w)"
      by (rule quiet_ok [OF q]) (use i in \<open>simp_all add: busy_def\<close>)
    ultimately show ?thesis using False unfolding scroll_frame_def Let_def by (simp only: if_False split: if_split) blast
  qed
qed


lemma hold_ok:
  assumes ok: "reveal_ok own w" and i: "i < length (rw_handles w)" and wait: "waiting (rw_handles w ! i)"
    and hold: "rh_holdTimeout (rw_handles w ! i)"
  shows "reveal_ok own (hold_ended i w)"
proof -
  let ?h = "rw_handles w ! i"
  have b: "busy ?h" "rh_highlighted ?h" "\<not> rh_cancelled ?h" "rh_scrollFinished ?h"
    using wait hold unfolding waiting_def busy_def by blast+
  have mine: "rh_original ?h = own t" if "rh_target ?h = Some t" for t using ok_own [OF ok i that] .
  show ?thesis
  proof (cases "rh_reduced ?h")
    case True
    show ?thesis
      by (rule ok_release [OF ok i, of _ "?h\<lparr>rh_holdTimeout := False, rh_highlighted := False\<rparr>"])
        (use True b mine i in \<open>simp_all add: hold_ended_def Let_def busy_def\<close>)
  next
    case False
    show ?thesis
      by (rule ok_keep [OF ok i, of _ "?h\<lparr>rh_holdTimeout := False, rh_fadeTimeout := True\<rparr>"])
        (use False b i in \<open>simp_all add: hold_ended_def Let_def busy_def\<close>)
  qed
qed

lemma fade_ok:
  assumes ok: "reveal_ok own w" and i: "i < length (rw_handles w)" and wait: "waiting (rw_handles w ! i)"
    and fade: "rh_fadeTimeout (rw_handles w ! i)"
  shows "reveal_ok own (fade_ended i w)"
proof -
  let ?h = "rw_handles w ! i"
  have b: "busy ?h" "rh_highlighted ?h" "\<not> rh_cancelled ?h" "rh_scrollFinished ?h"
    using wait fade unfolding waiting_def busy_def by blast+
  have mine: "rh_original ?h = own t" if "rh_target ?h = Some t" for t using ok_own [OF ok i that] .
  show ?thesis
    by (rule ok_release [OF ok i, of _ "?h\<lparr>rh_fadeTimeout := False, rh_highlighted := False\<rparr>"])
      (use b mine i in \<open>simp_all add: fade_ended_def Let_def busy_def\<close>)
qed

text \<open>A new handle on a target without an entry.\<close>

lemma ok_append:
  assumes ok: "reveal_ok own w" and h: "rh_target h = target" "busy h"
    and free: "\<And>t. target = Some t \<Longrightarrow> rw_active w t = None \<and> rh_original h = rw_style w t"
    and w': "rw_handles w' = rw_handles w @ [h]" "rw_style w' = rw_style w"
      "rw_active w' = (case target of None \<Rightarrow> rw_active w | Some t \<Rightarrow> (rw_active w)(t \<mapsto> length (rw_handles w)))"
  shows "reveal_ok own w'"
proof (rule reveal_okI)
  have plain: "rw_style w t = own t" if "target = Some t" for t
    using ok_style [OF ok, of t] free [OF that] by fastforce
  fix j t
  assume j: "j < length (rw_handles w')" "rh_target (rw_handles w' ! j) = Some t"
  show "rh_original (rw_handles w' ! j) = own t"
    using j ok_own [OF ok, of j t] free [of t] plain [of t] h(1) by (cases "j < length (rw_handles w)") (auto simp: w'(1) nth_append)
  show "rw_active w' t = Some j" if "busy (rw_handles w' ! j)"
  proof (cases "j < length (rw_handles w)")
    case True
    then have "rw_active w t = Some j" using j that ok_busy [OF ok, of j t] by (simp add: w'(1) nth_append)
    then have "target \<noteq> Some t" using free [of t] by auto
    then show ?thesis using \<open>rw_active w t = Some j\<close> by (simp add: w'(3) split: option.splits)
  next
    case False
    then show ?thesis using j h(1) by (auto simp: w'(1,3) nth_append)
  qed
next
  fix j t
  assume "rw_active w' t = Some j"
  then show "j < length (rw_handles w') \<and> rh_target (rw_handles w' ! j) = Some t \<and> busy (rw_handles w' ! j)"
    using ok_entry [OF ok, of t j] h by (auto simp: w'(1,3) nth_append split: option.splits if_splits)
next
  fix t
  assume "rw_style w' t \<noteq> own t"
  then obtain j where j: "rw_active w t = Some j" "rh_highlighted (rw_handles w ! j)"
    using ok_style [OF ok, of t] w'(2) by auto
  then have "target \<noteq> Some t" "j < length (rw_handles w)" using free [of t] ok_entry [OF ok j(1)] by auto
  then show "\<exists>i. rw_active w' t = Some i \<and> rh_highlighted (rw_handles w' ! i)"
    using j by (auto simp: w'(1,3) nth_append split: option.splits)
qed

lemma cancel_frees:
  assumes "reveal_ok own w" and "rw_active w t = Some i"
  shows "rw_active (cancel_handle i w) t = None"
proof -
  have "rh_target (rw_handles w ! i) = Some t" "\<not> rh_cancelled (rw_handles w ! i)"
    using ok_entry [OF assms] by (simp_all add: busy_def)
  then show ?thesis using assms(2) by (auto simp: cancel_handle_def Let_def)
qed

lemma cancel_length: "length (rw_handles (cancel_handle i w)) = length (rw_handles w)"
  by (simp add: cancel_handle_def Let_def)

lemma all_waitingD: "all_waiting w \<Longrightarrow> i < length (rw_handles w) \<Longrightarrow> waiting (rw_handles w ! i)"
  unfolding all_waiting_def by blast

lemma waiting_update:
  assumes "all_waiting w" and "i < length (rw_handles w)" and "rw_handles w' = (rw_handles w)[i := h']" and "waiting h'"
  shows "all_waiting w'"
  using assms unfolding all_waiting_def by (simp split: if_splits)

lemma cancel_waiting:
  assumes "all_waiting w" and "i < length (rw_handles w)"
  shows "all_waiting (cancel_handle i w)"
proof (cases "rh_cancelled (rw_handles w ! i)")
  case True
  then show ?thesis using assms by (simp add: cancel_handle_def)
next
  case False
  show ?thesis
    by (rule waiting_update [OF assms, of _ "(rw_handles w ! i)\<lparr>rh_cancelled := True, rh_scrollTimeout := False,
        rh_holdTimeout := False, rh_fadeTimeout := False, rh_frame := False\<rparr>"])
      (use False in \<open>simp_all add: cancel_handle_def Let_def waiting_def busy_def\<close>)
qed

lemma cancel_entry_ok:
  assumes "reveal_ok own w" and "all_waiting w"
  shows "reveal_ok own (cancel_entry target w)" and "all_waiting (cancel_entry target w)"
    and "target = Some t \<Longrightarrow> rw_active (cancel_entry target w) t = None"
  using assms ok_entry [OF assms(1)]
  by (auto simp: cancel_entry_def all_waitingD cancel_ok cancel_waiting cancel_frees split: option.splits)

text \<open>All handles but one, which has just started or has been seen at rest.\<close>

lemma finish_waiting:
  assumes "\<And>j. j < length (rw_handles w) \<Longrightarrow> j \<noteq> i \<Longrightarrow> waiting (rw_handles w ! j)"
    and "i < length (rw_handles w)"
    and "waiting (rw_handles w ! i) \<or> \<not> rh_scrollFinished (rw_handles w ! i) \<and> \<not> rh_cancelled (rw_handles w ! i)"
    and "\<not> rh_scrollFinished (rw_handles w ! i) \<Longrightarrow> \<not> rh_cancelled (rw_handles w ! i) \<Longrightarrow>
      \<not> rh_highlighted (rw_handles w ! i) \<and> \<not> rh_holdTimeout (rw_handles w ! i) \<and> \<not> rh_fadeTimeout (rw_handles w ! i)"
  shows "all_waiting (finish_scroll i w)"
proof -
  have "waiting (rw_handles (finish_scroll i w) ! i)"
    using assms(2-4) by (auto simp: finish_scroll_def reveal_target_def Let_def waiting_def busy_def)
  moreover have "rw_handles (finish_scroll i w) ! j = rw_handles w ! j" if "j \<noteq> i" for j
    using that assms(2) by (simp add: finish_scroll_def reveal_target_def Let_def)
  moreover have "length (rw_handles (finish_scroll i w)) = length (rw_handles w)"
    by (simp add: finish_scroll_def reveal_target_def Let_def)
  ultimately show ?thesis using assms(1) unfolding all_waiting_def by metis
qed

lemma waiting_unfinished:
  "waiting h \<Longrightarrow> \<not> rh_scrollFinished h \<Longrightarrow> \<not> rh_cancelled h \<Longrightarrow>
   \<not> rh_highlighted h \<and> \<not> rh_holdTimeout h \<and> \<not> rh_fadeTimeout h \<and> rh_scrollTimeout h"
  unfolding waiting_def busy_def by blast

lemma start_ok:
  assumes "reveal_ok own w" and "all_waiting w"
  shows "reveal_ok own (reveal_start target reduced g top_after w) \<and> all_waiting (reveal_start target reduced g top_after w)"
proof -
  define w1 where "w1 = cancel_entry target w"
  let ?i = "length (rw_handles w1)"
  let ?h = "new_handle target reduced (target_scroll_top g) top_after w1"
  define w2 where "w2 = w1\<lparr>rw_handles := rw_handles w1 @ [?h],
      rw_active := (case target of None \<Rightarrow> rw_active w1 | Some t \<Rightarrow> (rw_active w1)(t \<mapsto> ?i))\<rparr>"
  have w1: "reveal_ok own w1" "all_waiting w1" "\<And>t. target = Some t \<Longrightarrow> rw_active w1 t = None"
    unfolding w1_def using cancel_entry_ok [OF assms] by simp_all
  have h: "busy ?h" "rh_target ?h = target" "\<not> rh_highlighted ?h" "\<not> rh_scrollFinished ?h" "\<not> rh_cancelled ?h"
    "\<not> rh_holdTimeout ?h" "\<not> rh_fadeTimeout ?h"
    by (simp_all add: new_handle_def busy_def)
  have ok2: "reveal_ok own w2"
    by (rule ok_append [OF w1(1) h(2,1)]) (use w1(3) in \<open>simp_all add: w2_def new_handle_def\<close>)
  have at: "rw_handles w2 ! ?i = ?h" "?i < length (rw_handles w2)" by (simp_all add: w2_def)
  have others: "waiting (rw_handles w2 ! j)" if "j < length (rw_handles w2)" "j \<noteq> ?i" for j
    using that all_waitingD [OF w1(2), of j] by (simp add: w2_def nth_append)
  have "reveal_ok own (finish_scroll ?i w2)" by (rule finish_ok [OF ok2]) (use at h in simp_all)
  moreover have "all_waiting (finish_scroll ?i w2)" by (rule finish_waiting) (use at h others in simp_all)
  moreover have "reveal_ok own (update_handle ?i (\<lambda>h. h\<lparr>rh_frame := True, rh_scrollTimeout := True\<rparr>) w2)"
    by (rule quiet_ok [OF ok2 at(2)]) (simp_all add: at busy_def)
  moreover have "all_waiting (update_handle ?i (\<lambda>h. h\<lparr>rh_frame := True, rh_scrollTimeout := True\<rparr>) w2)"
    unfolding all_waiting_def
  proof (intro allI impI)
    fix j
    assume j: "j < length (rw_handles (update_handle ?i (\<lambda>h. h\<lparr>rh_frame := True, rh_scrollTimeout := True\<rparr>) w2))"
    have "waiting (?h\<lparr>rh_frame := True, rh_scrollTimeout := True\<rparr>)"
      by (simp add: new_handle_def waiting_def busy_def)
    then show "waiting (rw_handles (update_handle ?i (\<lambda>h. h\<lparr>rh_frame := True, rh_scrollTimeout := True\<rparr>) w2) ! j)"
      using j others [of j] at by simp
  qed
  ultimately show ?thesis
    unfolding reveal_start_def Let_def w1_def [symmetric] w2_def [symmetric] by simp
qed

lemma waiting_frame [simp]:
  "waiting (h\<lparr>rh_frame := b\<rparr>) = waiting h" "waiting (observe_frame x h) = waiting h"
  by (simp_all add: waiting_def busy_def)

lemma frame_waiting:
  assumes "all_waiting w" and i: "i < length (rw_handles w)"
  shows "all_waiting (scroll_frame i x w)"
proof -
  let ?h = "rw_handles w ! i"
  have wait: "waiting ?h" using all_waitingD assms by blast
  show ?thesis
  proof (cases "rh_cancelled ?h \<or> rh_scrollFinished ?h")
    case True
    have "all_waiting (update_handle i (\<lambda>h. h\<lparr>rh_frame := False\<rparr>) w)"
      by (rule waiting_update [OF assms, of _ "?h\<lparr>rh_frame := False\<rparr>"]) (use wait in simp_all)
    then show ?thesis using True by (simp add: scroll_frame_def)
  next
    case False
    let ?w = "update_handle i (observe_frame x) w"
    have w: "all_waiting ?w"
      by (rule waiting_update [OF assms, of _ "observe_frame x ?h"]) (use wait in simp_all)
    have "all_waiting (finish_scroll i ?w)"
      by (rule finish_waiting) (use all_waitingD [OF assms(1)] wait i waiting_unfinished [OF wait] False in simp_all)
    moreover have "all_waiting (update_handle i (\<lambda>h. h\<lparr>rh_frame := True\<rparr>) ?w)"
      by (rule waiting_update [OF w, of i _ "(observe_frame x ?h)\<lparr>rh_frame := True\<rparr>"]) (use i wait in simp_all)
    ultimately show ?thesis using False unfolding scroll_frame_def Let_def by (simp only: if_False split: if_split) blast
  qed
qed

lemma hold_waiting:
  assumes "all_waiting w" and i: "i < length (rw_handles w)" and hold: "rh_holdTimeout (rw_handles w ! i)"
  shows "all_waiting (hold_ended i w)"
proof -
  let ?h = "rw_handles w ! i"
  have wait: "waiting ?h" using all_waitingD assms by blast
  have h: "\<not> rh_cancelled ?h" "rh_scrollFinished ?h" "\<not> rh_scrollTimeout ?h" "\<not> rh_fadeTimeout ?h" "rh_highlighted ?h"
      "rh_target ?h \<noteq> None"
    using wait hold unfolding waiting_def busy_def by blast+
  let ?h' = "if rh_reduced ?h then ?h\<lparr>rh_holdTimeout := False, rh_highlighted := False\<rparr>
      else ?h\<lparr>rh_holdTimeout := False, rh_fadeTimeout := True\<rparr>"
  show ?thesis
    by (rule waiting_update [OF assms(1) i, of _ ?h']) (use h i in \<open>simp_all add: hold_ended_def Let_def waiting_def busy_def\<close>)
qed

lemma fade_waiting:
  assumes "all_waiting w" and i: "i < length (rw_handles w)" and fade: "rh_fadeTimeout (rw_handles w ! i)"
  shows "all_waiting (fade_ended i w)"
proof -
  let ?h = "rw_handles w ! i"
  have wait: "waiting ?h" using all_waitingD assms by blast
  have h: "\<not> rh_cancelled ?h" "rh_scrollFinished ?h" "\<not> rh_scrollTimeout ?h" "\<not> rh_holdTimeout ?h"
    using wait fade unfolding waiting_def busy_def by blast+
  show ?thesis
    by (rule waiting_update [OF assms(1) i, of _ "?h\<lparr>rh_fadeTimeout := False, rh_highlighted := False\<rparr>"])
      (use h i in \<open>simp_all add: fade_ended_def Let_def waiting_def busy_def\<close>)
qed

lemma finish_keeps:
  assumes "reveal_ok own w" and "all_waiting w" and "i < length (rw_handles w)"
  shows "reveal_ok own (finish_scroll i w) \<and> all_waiting (finish_scroll i w)"
proof -
  have wait: "waiting (rw_handles w ! i)" using all_waitingD assms by blast
  show ?thesis
  proof (cases "rh_cancelled (rw_handles w ! i)")
    case True
    then show ?thesis using assms by (simp add: finish_scroll_def)
  next
    case False
    have "reveal_ok own (finish_scroll i w)"
      by (rule finish_ok [OF assms(1,3)]) (use waiting_unfinished [OF wait] False in blast)
    moreover have "all_waiting (finish_scroll i w)"
      by (rule finish_waiting [OF _ assms(3)]) (use all_waitingD [OF assms(2)] wait waiting_unfinished [OF wait] in blast)+
    ultimately show ?thesis by blast
  qed
qed

lemma reveal_step_ok:
  assumes "reveal_ok own w" and "all_waiting w"
  shows "reveal_ok own (reveal_step event w) \<and> all_waiting (reveal_step event w)"
  using assms all_waitingD [OF assms(2)]
  by (cases event)
    (simp_all add: start_ok finish_keeps frame_ok frame_waiting hold_ok hold_waiting fade_ok fade_waiting cancel_ok cancel_waiting)

lemma reveal_invariant:
  assumes "reveal_reachable own w"
  shows "reveal_ok own w \<and> all_waiting w"
  using assms
proof induction
  case Initially
  show ?case by (simp add: reveal_initial_def reveal_ok_def all_waiting_def)
next
  case (Further w event)
  then show ?case using reveal_step_ok by blast
qed

lemma plain_when_free:
  assumes "reveal_reachable own w" and "rw_active w t = None"
  shows "rw_style w t = own t"
  using reveal_invariant [OF assms(1)] ok_style [of own w t] assms(2) by fastforce

text \<open>The three timers, one after the other.\<close>

lemma scroll_timer_moves_on:
  assumes "reveal_reachable own w" and "rw_active w t = Some i"
  shows "let w' = reveal_step (ScrollTimedOut i) w in
    rw_active w' t = Some i \<and> (rh_holdTimeout (rw_handles w' ! i) \<or> rh_fadeTimeout (rw_handles w' ! i))"
proof -
  have i: "i < length (rw_handles w)" "rh_target (rw_handles w ! i) = Some t" "busy (rw_handles w ! i)" "waiting (rw_handles w ! i)"
    using reveal_invariant [OF assms(1)] ok_entry [of own w t i] all_waitingD [of w i] assms(2) by blast+
  show ?thesis
  proof (cases "rh_scrollFinished (rw_handles w ! i)")
    case True
    then have "\<not> rh_scrollTimeout (rw_handles w ! i)" "rh_holdTimeout (rw_handles w ! i) \<or> rh_fadeTimeout (rw_handles w ! i)"
      using i(3,4) unfolding waiting_def busy_def by blast+
    then show ?thesis using assms(2) by simp
  next
    case False
    then have "rh_scrollTimeout (rw_handles w ! i)" "\<not> rh_cancelled (rw_handles w ! i)"
      using i(3,4) unfolding waiting_def busy_def by blast+
    then show ?thesis using i assms(2) False by (simp add: finish_scroll_def reveal_target_def Let_def)
  qed
qed

lemma hold_timer_moves_on:
  assumes "reveal_reachable own w" and "rw_active w t = Some i"
    and "rh_holdTimeout (rw_handles w ! i) \<or> rh_fadeTimeout (rw_handles w ! i)"
  shows "let w' = reveal_step (HoldEnded i) w in
    rw_active w' t = None \<or> rw_active w' t = Some i \<and> rh_fadeTimeout (rw_handles w' ! i)"
proof -
  have i: "i < length (rw_handles w)" "rh_target (rw_handles w ! i) = Some t" "\<not> rh_cancelled (rw_handles w ! i)"
    using reveal_invariant [OF assms(1)] ok_entry [of own w t i] assms(2) by (auto simp: busy_def)
  then show ?thesis using assms(2,3) by (auto simp: hold_ended_def Let_def)
qed

lemma fade_timer_moves_on:
  assumes "reveal_reachable own w" and "rw_active w t = None \<or> rw_active w t = Some i \<and> rh_fadeTimeout (rw_handles w ! i)"
  shows "rw_active (reveal_step (FadeEnded i) w) t = None"
proof (cases "rw_active w t")
  case None
  then show ?thesis by (simp add: fade_ended_def Let_def)
next
  case (Some j)
  then have "i < length (rw_handles w)" "rh_target (rw_handles w ! i) = Some t" "\<not> rh_cancelled (rw_handles w ! i)"
    using reveal_invariant [OF assms(1)] ok_entry [of own w t i] assms(2) by (auto simp: busy_def)
  then show ?thesis using Some assms(2) by (simp add: fade_ended_def Let_def)
qed

text \<open>
  A highlight leaves no trace (C39). Whatever the order in which passages are revealed, scrolled to, cancelled and
  revealed again: an element without a highlight under way has the style it had at first; of one under way,
  cancelling gives the style back at once, and left alone it ends by its own timers, at the latest one after the other.
\<close>

theorem highlight_leaves_no_trace:
  assumes "reveal_reachable own w"
  shows "case rw_active w t of
      None \<Rightarrow> rw_style w t = own t
    | Some i \<Rightarrow>
        rw_style (reveal_step (RevealCancelled i) w) t = own t \<and>
        rw_style (reveal_step (FadeEnded i) (reveal_step (HoldEnded i) (reveal_step (ScrollTimedOut i) w))) t = own t"
proof (cases "rw_active w t")
  case None
  then show ?thesis using plain_when_free [OF assms None] by simp
next
  case (Some i)
  have "i < length (rw_handles w)" using reveal_invariant [OF assms] ok_entry Some by blast
  then have "rw_active (reveal_step (RevealCancelled i) w) t = None"
    using cancel_frees [of own w t i] reveal_invariant [OF assms] Some by simp
  then have c: "rw_style (reveal_step (RevealCancelled i) w) t = own t"
    using plain_when_free reveal_reachable.Further [OF assms] by blast
  define w1 where "w1 = reveal_step (ScrollTimedOut i) w"
  define w2 where "w2 = reveal_step (HoldEnded i) w1"
  have r1: "reveal_reachable own w1" and r2: "reveal_reachable own w2"
    unfolding w1_def w2_def using assms by (blast intro: reveal_reachable.Further)+
  have "rw_active w1 t = Some i \<and> (rh_holdTimeout (rw_handles w1 ! i) \<or> rh_fadeTimeout (rw_handles w1 ! i))"
    using scroll_timer_moves_on [OF assms Some] unfolding w1_def by (simp only: Let_def)
  then have "rw_active w2 t = None \<or> rw_active w2 t = Some i \<and> rh_fadeTimeout (rw_handles w2 ! i)"
    using hold_timer_moves_on [OF r1] unfolding w2_def by (simp only: Let_def)
  then have "rw_active (reveal_step (FadeEnded i) w2) t = None" by (rule fade_timer_moves_on [OF r2])
  then have "rw_style (reveal_step (FadeEnded i) w2) t = own t"
    by (rule plain_when_free [OF reveal_reachable.Further [OF r2]])
  then show ?thesis using Some c unfolding w1_def w2_def by simp
qed

theorem highlight_leaves_no_trace_witness:
  "let g = \<lparr>sg_scrollTop = 500, sg_scrollHeight = 2000, sg_clientHeight = 600, sg_rootTop = 0, sg_targetTop = 0\<rparr>;
       w = reveal_step (ScrollEnded 0) (reveal_step (RevealStarted (Some 7) False g 500) (reveal_initial (\<lambda>_. ([], []))))
   in rw_style w 7 = (highlight_background, js ''none'') \<and> rw_style (reveal_step (RevealCancelled 0) w) 7 = ([], [])"
proof -
  let ?g = "\<lparr>sg_scrollTop = 500, sg_scrollHeight = 2000, sg_clientHeight = 600, sg_rootTop = 0, sg_targetTop = 0\<rparr>"
  let ?w = "reveal_step (ScrollEnded 0) (reveal_step (RevealStarted (Some 7) False ?g 500) (reveal_initial (\<lambda>_. ([], []))))"
  have r: "reveal_reachable (\<lambda>_. ([], [])) ?w" by (intro reveal_reachable.intros)
  have w: "rw_active ?w 7 = Some 0" "rw_style ?w 7 = (highlight_background, js ''none'')"
    by (simp_all add: reveal_start_def reveal_initial_def cancel_entry_def new_handle_def target_scroll_top_def context_offset_def
        max_scroll_top_def finish_scroll_def reveal_target_def Let_def)
  show ?thesis using highlight_leaves_no_trace [OF r, of 7] unfolding Let_def w by simp
qed

text \<open>Where the page is scrolled to: within what can be scrolled, with 70 to 200 pixels of context where they fit.\<close>

lemma scroll_target_bounds:
  "0 \<le> target_scroll_top g \<and> target_scroll_top g \<le> max_scroll_top g \<and> 70 \<le> context_offset g \<and> context_offset g \<le> 200"
  by (simp add: target_scroll_top_def max_scroll_top_def context_offset_def)

end
