(* ===== verification/Stick_To_Bottom.thy ===== *)
theory Stick_To_Bottom
  imports Prelude Complex_Main
begin

text \<open>
  Scrolling of the thread (\<open>frontend/src/messages/useStickToBottom.ts\<close>): following the newest content, holding the
  newest turn near the top while its reply streams, or leaving the reader alone. The page's layout is an argument of
  every operation: what the hook measures, in the coordinates of the scrolled content and without the displacement of a
  running lift, and the height of the content for a given reserve. The scroll position is kept within the content, as a
  browser keeps it. The elements the hook refers to are mounted.
\<close>

section \<open>Definitions\<close>

datatype scroll_mode = FollowBottom | Anchored | ReaderFree

record turn_anchor =
  ta_target :: nat
  ta_tail :: rat

record lift =
  lf_id :: nat
  lf_start :: rat
  lf_duration :: rat

record thread_layout =
  ly_scrollHeight :: "rat option \<Rightarrow> rat"
  ly_clientHeight :: rat
  ly_footerHeight :: rat
  ly_stageTop :: rat
  ly_contentEnd :: "rat option"
  ly_userMessages :: "nat list"
  ly_targetTop :: "nat \<Rightarrow> rat"
  ly_targetBottom :: "nat \<Rightarrow> rat"
  ly_mobile :: bool
  ly_reducedMotion :: bool
  ly_canAnimate :: bool
  ly_hasScrollTo :: bool
  ly_translateY :: rat
  ly_now :: rat

record stick =
  sk_scrollTop :: rat
  sk_mode :: scroll_mode
  sk_anchor :: "turn_anchor option"
  sk_armedFrom :: "jstr option option"
  sk_reserve :: "rat option"
  sk_animatingTo :: "rat option"
  sk_lift :: "lift option"
  sk_lifts :: nat
  sk_searchPaused :: bool
  sk_scrollingToBottom :: bool
  sk_showScrollToBottom :: bool
  sk_lastSetTop :: rat
  sk_prevTop :: rat
  sk_lastForceKey :: "jstr option"

definition scroll_to_bottom_threshold :: rat where "scroll_to_bottom_threshold = 136"
definition near_threshold :: rat where "near_threshold = 80"
definition reply_peek :: rat where "reply_peek = 120"
definition anchor_animation_ms :: rat where "anchor_animation_ms = 440"

definition anchorGap :: "thread_layout \<Rightarrow> rat" where
  "anchorGap ly = (if ly_mobile ly then 60 else 40)"

subsection \<open>Metrics\<close>

definition distanceFromBottom :: "rat \<Rightarrow> rat \<Rightarrow> rat \<Rightarrow> rat" where
  "distanceFromBottom scrollHeight scrollTop clientHeight = scrollHeight - scrollTop - clientHeight"

definition isNearBottom :: "rat \<Rightarrow> rat \<Rightarrow> rat \<Rightarrow> bool" where
  "isNearBottom scrollHeight scrollTop clientHeight \<longleftrightarrow> distanceFromBottom scrollHeight scrollTop clientHeight < near_threshold"

definition isScrolledFromBottom :: "rat \<Rightarrow> rat \<Rightarrow> rat \<Rightarrow> bool" where
  "isScrolledFromBottom scrollHeight scrollTop clientHeight \<longleftrightarrow>
     scroll_to_bottom_threshold < distanceFromBottom scrollHeight scrollTop clientHeight"

definition real_height :: "thread_layout \<Rightarrow> stick \<Rightarrow> rat" where
  "real_height ly st = ly_scrollHeight ly (sk_reserve st)"

definition effective_height :: "thread_layout \<Rightarrow> stick \<Rightarrow> rat" where
  "effective_height ly st = (case ly_contentEnd ly of
      None \<Rightarrow> real_height ly st
    | Some content_end \<Rightarrow>
        min (real_height ly st) (max (ly_clientHeight ly) (content_end + ly_footerHeight ly)))"

definition syncScrollFromBottom :: "thread_layout \<Rightarrow> stick \<Rightarrow> stick" where
  "syncScrollFromBottom ly st =
     st\<lparr>sk_showScrollToBottom := isScrolledFromBottom (effective_height ly st) (sk_scrollTop st) (ly_clientHeight ly)\<rparr>"

subsection \<open>Position and reserve\<close>

definition clamp_top :: "thread_layout \<Rightarrow> rat option \<Rightarrow> rat \<Rightarrow> rat" where
  "clamp_top ly reserve x = max 0 (min x (ly_scrollHeight ly reserve - ly_clientHeight ly))"

definition setReserve :: "thread_layout \<Rightarrow> rat option \<Rightarrow> stick \<Rightarrow> stick" where
  "setReserve ly reserve st = st\<lparr>sk_reserve := reserve, sk_scrollTop := clamp_top ly reserve (sk_scrollTop st)\<rparr>"

definition releaseReserve :: "thread_layout \<Rightarrow> stick \<Rightarrow> stick" where
  "releaseReserve ly st = (case sk_reserve st of
      None \<Rightarrow> st
    | Some reserve \<Rightarrow>
        let needed = sk_scrollTop st + ly_clientHeight ly - ly_footerHeight ly - ly_stageTop ly;
            smaller = min reserve needed
        in setReserve ly
             (case ly_contentEnd ly of
                None \<Rightarrow> Some smaller
              | Some content_end \<Rightarrow> if smaller \<le> content_end - ly_stageTop ly + 1 / 2 then None else Some smaller) st)"

definition setTop :: "thread_layout \<Rightarrow> rat \<Rightarrow> stick \<Rightarrow> stick" where
  "setTop ly x st =
     (let y = clamp_top ly (sk_reserve st) x in st\<lparr>sk_scrollTop := y, sk_lastSetTop := y, sk_prevTop := y\<rparr>)"

definition anchorTop :: "thread_layout \<Rightarrow> turn_anchor \<Rightarrow> rat" where
  "anchorTop ly current =
     (let visible = ly_clientHeight ly - ly_footerHeight ly;
          target_top = ly_targetTop ly (ta_target current);
          target_bottom = ly_targetBottom ly (ta_target current);
          naturalTop = max 0 (target_bottom + ta_tail current + ly_footerHeight ly - ly_clientHeight ly);
          natural = target_top - naturalTop \<le> ly_clientHeight ly / 3
      in max (max 0 (if natural then naturalTop else target_top - anchorGap ly)) (target_bottom - (visible - reply_peek)))"

definition reserveFor :: "thread_layout \<Rightarrow> rat \<Rightarrow> rat" where
  "reserveFor ly x = max 0 (x + ly_clientHeight ly - ly_footerHeight ly - ly_stageTop ly)"

subsection \<open>The anchor\<close>

definition startLift :: "thread_layout \<Rightarrow> rat \<Rightarrow> rat \<Rightarrow> stick \<Rightarrow> stick" where
  "startLift ly to duration st =
     (let st1 = setTop ly to (st\<lparr>sk_animatingTo := Some to\<rparr>)
      in st1\<lparr>sk_lift := Some \<lparr>lf_id = sk_lifts st1, lf_start = ly_now ly, lf_duration = duration\<rparr>,
             sk_lifts := sk_lifts st1 + 1\<rparr>)"

definition holdAnchor :: "thread_layout \<Rightarrow> stick \<Rightarrow> stick" where
  "holdAnchor ly st = (case sk_anchor st of
      None \<Rightarrow> st
    | Some current \<Rightarrow>
        if ly_clientHeight ly = 0 then st
        else
          let x = anchorTop ly current;
              st1 = setReserve ly (Some (reserveFor ly x)) st
          in (case (sk_lift st1, sk_animatingTo st1) of
               (Some running, Some target) \<Rightarrow>
                 if 1 \<le> \<bar>target - x\<bar>
                 then startLift ly x (max 1 (anchor_animation_ms - (ly_now ly - lf_start running))) st1
                 else st1
             | _ \<Rightarrow> if 1 \<le> \<bar>sk_scrollTop st1 - x\<bar> then setTop ly x st1 else st1))"

text \<open>\<open>stopAnimation(el)\<close> and \<open>stopAnimation()\<close>: with the scrollport, what is on screen becomes the scroll position.\<close>

definition stopAnimation :: "thread_layout \<Rightarrow> bool \<Rightarrow> stick \<Rightarrow> stick" where
  "stopAnimation ly with_el st =
     (let st1 = (case sk_lift st of
            None \<Rightarrow> st
          | Some running \<Rightarrow>
              let st0 = st\<lparr>sk_lift := None\<rparr>
              in if with_el \<and> 1 / 2 \<le> \<bar>ly_translateY ly\<bar> then setTop ly (sk_scrollTop st0 - ly_translateY ly) st0 else st0)
      in st1\<lparr>sk_animatingTo := None\<rparr>)"

definition clearAnchor :: "thread_layout \<Rightarrow> bool \<Rightarrow> stick \<Rightarrow> stick" where
  "clearAnchor ly with_el st = (stopAnimation ly with_el st)\<lparr>sk_anchor := None\<rparr>"

definition leaveAnchor :: "thread_layout \<Rightarrow> scroll_mode \<Rightarrow> stick \<Rightarrow> stick" where
  "leaveAnchor ly mode st =
     (let st1 = (if sk_mode st = Anchored then clearAnchor ly True st else st);
          st2 = st1\<lparr>sk_mode := mode\<rparr>
      in if mode \<noteq> Anchored then releaseReserve ly st2 else st2)"

definition anchorNewestTurn :: "thread_layout \<Rightarrow> stick \<Rightarrow> stick" where
  "anchorNewestTurn ly st =
     (if ly_userMessages ly = [] then leaveAnchor ly FollowBottom st
      else
        let target = last (ly_userMessages ly);
            st1 = (clearAnchor ly True st)\<lparr>sk_mode := Anchored, sk_scrollingToBottom := False, sk_showScrollToBottom := False\<rparr>
        in if ly_clientHeight ly = 0 then setReserve ly None st1
           else
             let content_end = effective_height ly st1 - ly_footerHeight ly;
                 anchor = \<lparr>ta_target = target, ta_tail = content_end - ly_targetBottom ly target\<rparr>;
                 x = anchorTop ly anchor;
                 st2 = setReserve ly (Some (reserveFor ly x)) (st1\<lparr>sk_anchor := Some anchor\<rparr>)
             in if \<not> ly_reducedMotion ly \<and> ly_canAnimate ly \<and> 1 \<le> \<bar>sk_scrollTop st2 - x\<bar>
                then startLift ly x anchor_animation_ms st2
                else setTop ly x st2)"

subsection \<open>Events\<close>

text \<open>\<open>animation.onfinish\<close> of the lift with number \<open>i\<close>.\<close>

definition liftFinished :: "thread_layout \<Rightarrow> nat \<Rightarrow> stick \<Rightarrow> stick" where
  "liftFinished ly i st =
     (if map_option lf_id (sk_lift st) \<noteq> Some i then st
      else
        let st1 = st\<lparr>sk_lift := None, sk_animatingTo := None\<rparr>
        in syncScrollFromBottom ly (if sk_mode st1 = Anchored then holdAnchor ly st1 else st1))"

text \<open>\<open>onScroll\<close>, when the position has become \<open>x\<close>.\<close>

definition readerScrolled :: "thread_layout \<Rightarrow> stick \<Rightarrow> stick" where
  "readerScrolled ly st =
     (let x = sk_scrollTop st;
          near = isNearBottom (effective_height ly st) x (ly_clientHeight ly)
      in if sk_scrollingToBottom st
         then
           if x < sk_prevTop st then leaveAnchor ly ReaderFree (st\<lparr>sk_scrollingToBottom := False\<rparr>)
           else if near then leaveAnchor ly FollowBottom (st\<lparr>sk_scrollingToBottom := False\<rparr>)
           else st
         else leaveAnchor ly (if x < sk_prevTop st \<or> \<not> near then ReaderFree else FollowBottom) st)"

definition clamped_by_layout :: "thread_layout \<Rightarrow> stick \<Rightarrow> bool" where
  "clamped_by_layout ly st \<longleftrightarrow> sk_mode st = Anchored \<and> sk_scrollTop st < sk_lastSetTop st \<and>
     real_height ly st - ly_clientHeight ly - 1 \<le> sk_scrollTop st"

definition onScroll :: "thread_layout \<Rightarrow> rat \<Rightarrow> stick \<Rightarrow> stick" where
  "onScroll ly x st0 =
     (let st = st0\<lparr>sk_scrollTop := x\<rparr>
      in if clamped_by_layout ly st
         then let st1 = holdAnchor ly st
              in if sk_animatingTo st1 = None then syncScrollFromBottom ly st1 else st1
         else
           let st1 = (if sk_animatingTo st = None \<and> \<not> sk_searchPaused st \<and> x \<noteq> sk_lastSetTop st
                      then readerScrolled ly st else st);
               st2 = (if sk_mode st1 \<noteq> Anchored \<and> sk_animatingTo st1 = None then releaseReserve ly st1 else st1);
               st3 = (if sk_scrollingToBottom st2 \<or> sk_animatingTo st2 \<noteq> None
                      then st2\<lparr>sk_showScrollToBottom := False\<rparr> else syncScrollFromBottom ly st2)
           in st3\<lparr>sk_prevTop := x\<rparr>)"

definition onUserIntent :: "stick \<Rightarrow> stick" where
  "onUserIntent st = st\<lparr>sk_searchPaused := False\<rparr>"

definition onGesture :: "thread_layout \<Rightarrow> stick \<Rightarrow> stick" where
  "onGesture ly st =
     (let st1 = onUserIntent st
      in if sk_animatingTo st1 = None then st1 else leaveAnchor ly ReaderFree (stopAnimation ly True st1))"

definition onResize :: "thread_layout \<Rightarrow> stick \<Rightarrow> stick" where
  "onResize ly st = (if sk_mode st = Anchored then holdAnchor ly st else st)"

text \<open>The layout effect after a render with \<open>forceKey\<close> and \<open>turnKey\<close>: entering a conversation, a new turn, the position.\<close>

definition enterConversation :: "thread_layout \<Rightarrow> jstr option \<Rightarrow> stick \<Rightarrow> stick" where
  "enterConversation ly forceKey st =
     (let previous = sk_lastForceKey st;
          st1 = st\<lparr>sk_lastForceKey := forceKey\<rparr>
      in if forceKey \<noteq> previous \<and> \<not> (previous = None \<and> sk_mode st1 = Anchored)
         then
           let st2 = setReserve ly None (clearAnchor ly False (st1\<lparr>sk_armedFrom := None\<rparr>))
           in if \<not> sk_searchPaused st2 then st2\<lparr>sk_mode := FollowBottom, sk_scrollingToBottom := False\<rparr>
              else if sk_mode st2 = Anchored then st2\<lparr>sk_mode := ReaderFree\<rparr>
              else st2
         else st1)"

definition startTurn :: "thread_layout \<Rightarrow> jstr option \<Rightarrow> stick \<Rightarrow> stick" where
  "startTurn ly turnKey st = (case sk_armedFrom st of
      Some key \<Rightarrow>
        if turnKey \<noteq> None \<and> turnKey \<noteq> key
        then let st1 = st\<lparr>sk_armedFrom := None\<rparr> in if sk_searchPaused st1 then st1 else anchorNewestTurn ly st1
        else st
    | None \<Rightarrow> st)"

definition settlePosition :: "thread_layout \<Rightarrow> stick \<Rightarrow> stick" where
  "settlePosition ly st =
     (if sk_mode st = Anchored
      then let st1 = holdAnchor ly st in if sk_animatingTo st1 = None then syncScrollFromBottom ly st1 else st1
      else if sk_mode st = FollowBottom
      then (releaseReserve ly (setTop ly (effective_height ly st) st))\<lparr>sk_showScrollToBottom := False\<rparr>
      else if \<not> sk_scrollingToBottom st then syncScrollFromBottom ly st
      else st)"

definition rendered :: "thread_layout \<Rightarrow> jstr option \<Rightarrow> jstr option \<Rightarrow> stick \<Rightarrow> stick" where
  "rendered ly forceKey turnKey st =
     settlePosition ly (startTurn ly turnKey (enterConversation ly forceKey st))"

definition anchorNextTurn :: "jstr option \<Rightarrow> stick \<Rightarrow> stick" where
  "anchorNextTurn turnKey st = st\<lparr>sk_armedFrom := Some turnKey\<rparr>"

text \<open>
  \<open>scrollToBottom\<close>. A smooth scroll is started by a timer, if the request still stands then, and its progress comes
  back as scroll events.
\<close>

definition scrollToBottom :: "thread_layout \<Rightarrow> stick \<Rightarrow> stick" where
  "scrollToBottom ly st =
     (let st1 = st\<lparr>sk_searchPaused := False\<rparr>;
          st2 = (if sk_mode st1 = Anchored then clearAnchor ly False st1 else st1);
          st3 = st2\<lparr>sk_mode := FollowBottom, sk_showScrollToBottom := False\<rparr>;
          x = effective_height ly st3
      in if ly_hasScrollTo ly \<and> \<not> ly_reducedMotion ly then st3\<lparr>sk_scrollingToBottom := True\<rparr>
         else releaseReserve ly (setTop ly x (st3\<lparr>sk_scrollingToBottom := False\<rparr>)))"

definition pauseFollowing :: "thread_layout \<Rightarrow> bool \<Rightarrow> stick \<Rightarrow> stick" where
  "pauseFollowing ly paused st =
     (let st1 = st\<lparr>sk_searchPaused := paused\<rparr>
      in if \<not> paused then st1
         else
           let st2 = st1\<lparr>sk_scrollingToBottom := False\<rparr>;
               st3 = (if sk_mode st2 = Anchored then clearAnchor ly False st2 else st2)
           in st3\<lparr>sk_mode := ReaderFree\<rparr>)"

definition stick_start :: "jstr option \<Rightarrow> stick" where
  "stick_start forceKey =
     \<lparr>sk_scrollTop = 0, sk_mode = FollowBottom, sk_anchor = None, sk_armedFrom = None, sk_reserve = None,
      sk_animatingTo = None, sk_lift = None, sk_lifts = 0, sk_searchPaused = False, sk_scrollingToBottom = False,
      sk_showScrollToBottom = False, sk_lastSetTop = -1, sk_prevTop = 0, sk_lastForceKey = forceKey\<rparr>"

datatype stick_event =
    Scrolled rat
  | UserIntent
  | Gesture
  | Resized
  | Rendered "jstr option" "jstr option"
  | NextTurnArmed "jstr option"
  | BottomRequested
  | FollowingPaused bool
  | LiftFinished nat

fun stick_step :: "thread_layout \<Rightarrow> stick_event \<Rightarrow> stick \<Rightarrow> stick" where
  "stick_step ly (Scrolled x) st = onScroll ly x st"
| "stick_step ly UserIntent st = onUserIntent st"
| "stick_step ly Gesture st = onGesture ly st"
| "stick_step ly Resized st = onResize ly st"
| "stick_step ly (Rendered forceKey turnKey) st = rendered ly forceKey turnKey st"
| "stick_step ly (NextTurnArmed turnKey) st = anchorNextTurn turnKey st"
| "stick_step ly BottomRequested st = scrollToBottom ly st"
| "stick_step ly (FollowingPaused paused) st = pauseFollowing ly paused st"
| "stick_step ly (LiftFinished i) st = liftFinished ly i st"

inductive stick_reachable :: "stick \<Rightarrow> bool" where
  Start: "stick_reachable (stick_start forceKey)"
| Step: "stick_reachable st \<Longrightarrow> stick_reachable (stick_step ly event st)"

section \<open>The modes\<close>

definition stick_ok :: "stick \<Rightarrow> bool" where
  "stick_ok st \<longleftrightarrow>
     (sk_mode st \<noteq> Anchored \<longrightarrow> sk_anchor st = None \<and> sk_animatingTo st = None) \<and>
     (sk_lift st = None \<longleftrightarrow> sk_animatingTo st = None) \<and>
     (sk_scrollingToBottom st \<longrightarrow> sk_mode st = FollowBottom)"

lemma setReserve_simps [simp]:
  "sk_mode (setReserve ly r st) = sk_mode st"
  "sk_anchor (setReserve ly r st) = sk_anchor st"
  "sk_animatingTo (setReserve ly r st) = sk_animatingTo st"
  "sk_lift (setReserve ly r st) = sk_lift st"
  "sk_scrollingToBottom (setReserve ly r st) = sk_scrollingToBottom st"
  "sk_searchPaused (setReserve ly r st) = sk_searchPaused st"
  "sk_armedFrom (setReserve ly r st) = sk_armedFrom st"
  "sk_lastForceKey (setReserve ly r st) = sk_lastForceKey st"
  by (simp_all add: setReserve_def)

lemma releaseReserve_simps [simp]:
  "sk_mode (releaseReserve ly st) = sk_mode st"
  "sk_anchor (releaseReserve ly st) = sk_anchor st"
  "sk_animatingTo (releaseReserve ly st) = sk_animatingTo st"
  "sk_lift (releaseReserve ly st) = sk_lift st"
  "sk_scrollingToBottom (releaseReserve ly st) = sk_scrollingToBottom st"
  "sk_searchPaused (releaseReserve ly st) = sk_searchPaused st"
  "sk_armedFrom (releaseReserve ly st) = sk_armedFrom st"
  "sk_lastForceKey (releaseReserve ly st) = sk_lastForceKey st"
  by (simp_all add: releaseReserve_def Let_def split: option.splits)

lemma setTop_simps [simp]:
  "sk_mode (setTop ly x st) = sk_mode st"
  "sk_anchor (setTop ly x st) = sk_anchor st"
  "sk_animatingTo (setTop ly x st) = sk_animatingTo st"
  "sk_lift (setTop ly x st) = sk_lift st"
  "sk_scrollingToBottom (setTop ly x st) = sk_scrollingToBottom st"
  "sk_searchPaused (setTop ly x st) = sk_searchPaused st"
  "sk_armedFrom (setTop ly x st) = sk_armedFrom st"
  "sk_lastForceKey (setTop ly x st) = sk_lastForceKey st"
  "sk_reserve (setTop ly x st) = sk_reserve st"
  by (simp_all add: setTop_def Let_def)

lemma sync_simps [simp]:
  "sk_mode (syncScrollFromBottom ly st) = sk_mode st"
  "sk_anchor (syncScrollFromBottom ly st) = sk_anchor st"
  "sk_animatingTo (syncScrollFromBottom ly st) = sk_animatingTo st"
  "sk_lift (syncScrollFromBottom ly st) = sk_lift st"
  "sk_scrollingToBottom (syncScrollFromBottom ly st) = sk_scrollingToBottom st"
  "sk_searchPaused (syncScrollFromBottom ly st) = sk_searchPaused st"
  "sk_armedFrom (syncScrollFromBottom ly st) = sk_armedFrom st"
  "sk_lastForceKey (syncScrollFromBottom ly st) = sk_lastForceKey st"
  "sk_reserve (syncScrollFromBottom ly st) = sk_reserve st"
  "sk_scrollTop (syncScrollFromBottom ly st) = sk_scrollTop st"
  by (simp_all add: syncScrollFromBottom_def)

lemma stopAnimation_simps [simp]:
  "sk_mode (stopAnimation ly e st) = sk_mode st" "sk_anchor (stopAnimation ly e st) = sk_anchor st"
  "sk_animatingTo (stopAnimation ly e st) = None" "sk_lift (stopAnimation ly e st) = None"
  "sk_scrollingToBottom (stopAnimation ly e st) = sk_scrollingToBottom st"
  "sk_searchPaused (stopAnimation ly e st) = sk_searchPaused st" "sk_reserve (stopAnimation ly e st) = sk_reserve st"
  by (simp_all add: stopAnimation_def Let_def split: option.splits)

lemma clearAnchor_simps [simp]:
  "sk_mode (clearAnchor ly e st) = sk_mode st" "sk_anchor (clearAnchor ly e st) = None"
  "sk_animatingTo (clearAnchor ly e st) = None" "sk_lift (clearAnchor ly e st) = None"
  "sk_scrollingToBottom (clearAnchor ly e st) = sk_scrollingToBottom st"
  "sk_searchPaused (clearAnchor ly e st) = sk_searchPaused st" "sk_reserve (clearAnchor ly e st) = sk_reserve st"
  by (simp_all add: clearAnchor_def)

lemma startLift_simps [simp]:
  "sk_mode (startLift ly x d st) = sk_mode st" "sk_anchor (startLift ly x d st) = sk_anchor st"
  "sk_animatingTo (startLift ly x d st) = Some x" "sk_lift (startLift ly x d st) \<noteq> None"
  "sk_scrollingToBottom (startLift ly x d st) = sk_scrollingToBottom st" "sk_reserve (startLift ly x d st) = sk_reserve st"
  by (simp_all add: startLift_def Let_def)

lemma leaveAnchor_ok:
  assumes "mode \<noteq> Anchored" and "stick_ok st" and "mode = FollowBottom \<or> \<not> sk_scrollingToBottom st"
  shows "stick_ok (leaveAnchor ly mode st)" and "sk_mode (leaveAnchor ly mode st) = mode"
  using assms by (auto simp: leaveAnchor_def stick_ok_def Let_def)

lemma holdAnchor_simps [simp]:
  "sk_mode (holdAnchor ly st) = sk_mode st" "sk_scrollingToBottom (holdAnchor ly st) = sk_scrollingToBottom st"
  "sk_anchor (holdAnchor ly st) = sk_anchor st"
  by (simp_all add: holdAnchor_def Let_def split: option.splits)

lemma holdAnchor_ok: "stick_ok st \<Longrightarrow> sk_mode st = Anchored \<Longrightarrow> stick_ok (holdAnchor ly st)"
  by (auto simp: holdAnchor_def stick_ok_def Let_def split: option.splits)

lemma sync_ok [simp]: "stick_ok (syncScrollFromBottom ly st) = stick_ok st"
  by (simp add: stick_ok_def)

lemma release_ok [simp]: "stick_ok (releaseReserve ly st) = stick_ok st"
  by (simp add: stick_ok_def)

lemma anchorNewestTurn_ok: "stick_ok st \<Longrightarrow> stick_ok (anchorNewestTurn ly st)"
  using leaveAnchor_ok(1) [of FollowBottom st ly] by (simp add: anchorNewestTurn_def Let_def) (simp add: stick_ok_def)

lemma readerScrolled_ok: "stick_ok st \<Longrightarrow> stick_ok (readerScrolled ly st)"
  by (auto simp: readerScrolled_def Let_def intro!: leaveAnchor_ok(1)) (simp_all add: stick_ok_def)

lemma quiet_fields_ok [simp]:
  "stick_ok (st\<lparr>sk_scrollTop := x\<rparr>) = stick_ok st" "stick_ok (st\<lparr>sk_prevTop := x\<rparr>) = stick_ok st"
  "stick_ok (st\<lparr>sk_showScrollToBottom := b\<rparr>) = stick_ok st" "stick_ok (st\<lparr>sk_searchPaused := b\<rparr>) = stick_ok st"
  "stick_ok (st\<lparr>sk_armedFrom := k\<rparr>) = stick_ok st" "stick_ok (st\<lparr>sk_lastForceKey := f\<rparr>) = stick_ok st"
  "stick_ok (setTop ly x st) = stick_ok st" "stick_ok (setReserve ly r st) = stick_ok st"
  by (simp_all add: stick_ok_def)

lemma onScroll_ok: "stick_ok st \<Longrightarrow> stick_ok (onScroll ly x st)"
  by (auto simp: onScroll_def Let_def clamped_by_layout_def intro!: holdAnchor_ok readerScrolled_ok)

lemma onGesture_ok: "stick_ok st \<Longrightarrow> stick_ok (onGesture ly st)"
  unfolding onGesture_def Let_def onUserIntent_def
  by (auto intro!: leaveAnchor_ok(1)) (auto simp: stick_ok_def)

lemma enterConversation_ok: "stick_ok st \<Longrightarrow> stick_ok (enterConversation ly forceKey st)"
  by (auto simp: enterConversation_def Let_def) (auto simp: stick_ok_def)

lemma startTurn_ok: "stick_ok st \<Longrightarrow> stick_ok (startTurn ly turnKey st)"
  by (simp add: startTurn_def Let_def anchorNewestTurn_ok split: option.split)

lemma settlePosition_ok: "stick_ok st \<Longrightarrow> stick_ok (settlePosition ly st)"
  by (simp add: settlePosition_def Let_def holdAnchor_ok)

lemma scrollToBottom_ok: "stick_ok st \<Longrightarrow> stick_ok (scrollToBottom ly st)"
  by (auto simp: scrollToBottom_def Let_def) (auto simp: stick_ok_def)

lemma pauseFollowing_ok: "stick_ok st \<Longrightarrow> stick_ok (pauseFollowing ly paused st)"
  by (auto simp: pauseFollowing_def Let_def) (auto simp: stick_ok_def)

lemma liftFinished_ok: "stick_ok st \<Longrightarrow> stick_ok (liftFinished ly i st)"
  by (auto simp: liftFinished_def Let_def intro!: holdAnchor_ok) (auto simp: stick_ok_def)

lemma stick_step_ok: "stick_ok st \<Longrightarrow> stick_ok (stick_step ly event st)"
  by (cases event)
    (simp_all add: onScroll_ok onGesture_ok onUserIntent_def onResize_def holdAnchor_ok rendered_def enterConversation_ok
      startTurn_ok settlePosition_ok anchorNextTurn_def scrollToBottom_ok pauseFollowing_ok liftFinished_ok)

lemma stick_invariant: "stick_reachable st \<Longrightarrow> stick_ok st"
  by (induction rule: stick_reachable.induct) (simp add: stick_start_def stick_ok_def, simp add: stick_step_ok)

section \<open>The reader is left alone\<close>

text \<open>Renders of the same conversation while no new turn is armed.\<close>

fun renders :: "(thread_layout \<times> jstr option) list \<Rightarrow> stick \<Rightarrow> stick" where
  "renders [] st = st"
| "renders ((ly, turnKey) # rs) st = renders rs (rendered ly (sk_lastForceKey st) turnKey st)"

lemma free_render:
  assumes "sk_mode st = ReaderFree" and "sk_armedFrom st = None"
  shows "sk_mode (rendered ly (sk_lastForceKey st) turnKey st) = ReaderFree \<and>
    sk_armedFrom (rendered ly (sk_lastForceKey st) turnKey st) = None \<and>
    sk_scrollTop (rendered ly (sk_lastForceKey st) turnKey st) = sk_scrollTop st"
  using assms by (simp add: rendered_def enterConversation_def startTurn_def settlePosition_def Let_def)

lemma free_renders:
  "sk_mode st = ReaderFree \<Longrightarrow> sk_armedFrom st = None \<Longrightarrow>
   sk_mode (renders rs st) = ReaderFree \<and> sk_scrollTop (renders rs st) = sk_scrollTop st"
  by (induction rs st rule: renders.induct) (simp_all add: free_render)

lemma leaveAnchor_armed [simp]: "sk_armedFrom (leaveAnchor ly mode st) = sk_armedFrom st"
  by (simp add: leaveAnchor_def Let_def clearAnchor_def stopAnimation_def split: option.splits)


definition tall_layout :: thread_layout where
  "tall_layout = \<lparr>ly_scrollHeight = (\<lambda>_. 2000), ly_clientHeight = 600, ly_footerHeight = 100, ly_stageTop = 0,
     ly_contentEnd = Some 1900, ly_userMessages = [], ly_targetTop = (\<lambda>_. 0), ly_targetBottom = (\<lambda>_. 0),
     ly_mobile = False, ly_reducedMotion = False, ly_canAnimate = True, ly_hasScrollTo = True, ly_translateY = 0, ly_now = 0\<rparr>"


section \<open>Following and holding\<close>

text \<open>
  What the browser does with the reserve: the content is as tall as without it, or tall enough for the stage and the
  footer.
\<close>

definition reserve_respected :: "thread_layout \<Rightarrow> bool" where
  "reserve_respected ly \<longleftrightarrow> (\<forall>r. ly_scrollHeight ly (Some r) =
     max (ly_scrollHeight ly None) (ly_stageTop ly + r + ly_footerHeight ly))"

lemma effective_le: "effective_height ly st \<le> real_height ly st"
  by (simp add: effective_height_def split: option.splits)

definition end_in_view :: "thread_layout \<Rightarrow> stick \<Rightarrow> bool" where
  "end_in_view ly st \<longleftrightarrow> effective_height ly st \<le> sk_scrollTop st + ly_clientHeight ly"

lemma setTop_end:
  assumes "0 \<le> ly_clientHeight ly"
  shows "end_in_view ly (setTop ly (effective_height ly st) st)"
proof -
  have "effective_height ly (setTop ly x st) = effective_height ly st" for x
    by (simp add: effective_height_def real_height_def split: option.splits)
  then show ?thesis using assms effective_le [of ly st]
    by (auto simp: end_in_view_def setTop_def Let_def clamp_top_def real_height_def max_def min_def)
qed

definition smaller_reserve :: "rat option \<Rightarrow> rat option \<Rightarrow> bool" where
  "smaller_reserve new old \<longleftrightarrow> (case new of None \<Rightarrow> True | Some r \<Rightarrow> (case old of None \<Rightarrow> False | Some r' \<Rightarrow> r \<le> r'))"

lemma smaller_refl [simp]: "smaller_reserve r r" "smaller_reserve None r"
  by (simp_all add: smaller_reserve_def split: option.splits)

lemma smaller_trans: "smaller_reserve a b \<Longrightarrow> smaller_reserve b c \<Longrightarrow> smaller_reserve a c"
  by (auto simp: smaller_reserve_def split: option.splits)

lemma releaseReserve_smaller: "smaller_reserve (sk_reserve (releaseReserve ly st)) (sk_reserve st)"
  by (auto simp: releaseReserve_def setReserve_def Let_def smaller_reserve_def split: option.splits)

lemma smaller_height:
  "reserve_respected ly \<Longrightarrow> smaller_reserve new old \<Longrightarrow> ly_scrollHeight ly new \<le> ly_scrollHeight ly old"
  unfolding reserve_respected_def smaller_reserve_def by (cases new; cases old) auto

lemma setReserve_end:
  assumes "reserve_respected ly" and "0 \<le> ly_clientHeight ly" and "end_in_view ly st" and "smaller_reserve r (sk_reserve st)"
  shows "end_in_view ly (setReserve ly r st)"
proof -
  have h: "ly_scrollHeight ly r \<le> ly_scrollHeight ly (sk_reserve st)" using smaller_height [OF assms(1,4)] .
  have e: "effective_height ly (setReserve ly r st) \<le> effective_height ly st"
    using h by (auto simp: effective_height_def real_height_def setReserve_def split: option.splits)
  have b: "effective_height ly (setReserve ly r st) \<le> ly_scrollHeight ly r"
    using effective_le [of ly "setReserve ly r st"] by (simp add: real_height_def setReserve_def)
  have "sk_scrollTop (setReserve ly r st) = max 0 (min (sk_scrollTop st) (ly_scrollHeight ly r - ly_clientHeight ly))"
    by (simp add: setReserve_def clamp_top_def)
  then show ?thesis using e b assms(3) unfolding end_in_view_def by linarith
qed

lemma releaseReserve_end:
  assumes "reserve_respected ly" and "0 \<le> ly_clientHeight ly" and "end_in_view ly st"
  shows "end_in_view ly (releaseReserve ly st)"
proof (cases "sk_reserve st")
  case None
  then show ?thesis using assms by (simp add: releaseReserve_def)
next
  case (Some reserve)
  obtain r where r: "releaseReserve ly st = setReserve ly r st" using Some by (simp add: releaseReserve_def Let_def)
  have "sk_reserve (setReserve ly r st) = r" by (simp add: setReserve_def)
  then have "smaller_reserve r (sk_reserve st)" using releaseReserve_smaller [of ly st] r by metis
  then show ?thesis unfolding r by (rule setReserve_end [OF assms])
qed

text \<open>
  Following. As long as the view follows, every render brings the end of the content into view: the thread, and
  nothing of the blank space reserved for an earlier turn.
\<close>

theorem following_shows_latest:
  assumes "reserve_respected ly" and "0 \<le> ly_clientHeight ly"
    and "sk_mode (rendered ly forceKey turnKey st) = FollowBottom"
  shows "end_in_view ly (rendered ly forceKey turnKey st) \<and> \<not> sk_showScrollToBottom (rendered ly forceKey turnKey st)"
proof -
  let ?st = "startTurn ly turnKey (enterConversation ly forceKey st)"
  have mode: "sk_mode (settlePosition ly ?st) = sk_mode ?st"
    by (simp add: settlePosition_def Let_def)
  have "sk_mode ?st = FollowBottom" using assms(3) unfolding rendered_def mode .
  then have r: "rendered ly forceKey turnKey st =
      (releaseReserve ly (setTop ly (effective_height ly ?st) ?st))\<lparr>sk_showScrollToBottom := False\<rparr>"
    by (simp add: rendered_def settlePosition_def)
  have "end_in_view ly (releaseReserve ly (setTop ly (effective_height ly ?st) ?st))"
    by (rule releaseReserve_end [OF assms(1,2) setTop_end [OF assms(2)]])
  then show ?thesis unfolding r by (simp add: end_in_view_def effective_height_def real_height_def split: option.splits)
qed

theorem following_shows_latest_witness:
  "end_in_view (tall_layout\<lparr>ly_scrollHeight := (\<lambda>r. case r of None \<Rightarrow> 2000 | Some x \<Rightarrow> max 2000 (x + 100))\<rparr>)
     (rendered (tall_layout\<lparr>ly_scrollHeight := (\<lambda>r. case r of None \<Rightarrow> 2000 | Some x \<Rightarrow> max 2000 (x + 100))\<rparr>) None None (stick_start None))"
proof -
  let ?ly = "tall_layout\<lparr>ly_scrollHeight := (\<lambda>r. case r of None \<Rightarrow> 2000 | Some x \<Rightarrow> max 2000 (x + 100))\<rparr>"
  have "reserve_respected ?ly" by (simp add: reserve_respected_def tall_layout_def)
  moreover have "sk_mode (rendered ?ly None None (stick_start None)) = FollowBottom"
    by (simp add: rendered_def enterConversation_def startTurn_def settlePosition_def Let_def stick_start_def)
  ultimately show ?thesis using following_shows_latest [of ?ly None None "stick_start None"] by (simp add: tall_layout_def)
qed

text \<open>The reserve for an anchor is enough for its position.\<close>

lemma anchorTop_nonneg: "0 \<le> anchorTop ly a"
  by (simp add: anchorTop_def Let_def)

lemma anchorTop_peek:
  "ly_targetBottom ly (ta_target a) + reply_peek \<le> anchorTop ly a + ly_clientHeight ly - ly_footerHeight ly"
  by (simp add: anchorTop_def Let_def)

lemma reserve_enough:
  assumes "reserve_respected ly" and "0 \<le> x"
  shows "clamp_top ly (Some (reserveFor ly x)) x = x"
  using assms by (simp add: clamp_top_def reserve_respected_def reserveFor_def)

lemma startLift_top:
  "clamp_top ly (sk_reserve st) x = x \<Longrightarrow> sk_scrollTop (startLift ly x d st) = x"
  by (simp add: startLift_def setTop_def Let_def)



text \<open>While a turn is held and no lift runs, a render leaves the view within a pixel of the anchor's position.\<close>

theorem anchor_is_held:
  assumes "reserve_respected ly" and "sk_anchor st = Some a" and "ly_clientHeight ly \<noteq> 0" and "sk_lift st = None"
  shows "\<bar>sk_scrollTop (holdAnchor ly st) - anchorTop ly a\<bar> < 1 \<and>
    sk_reserve (holdAnchor ly st) = Some (reserveFor ly (anchorTop ly a))"
proof -
  define st1 where "st1 = setReserve ly (Some (reserveFor ly (anchorTop ly a))) st"
  have r: "sk_reserve st1 = Some (reserveFor ly (anchorTop ly a))" by (simp add: st1_def setReserve_def)
  have "clamp_top ly (sk_reserve st1) (anchorTop ly a) = anchorTop ly a"
    unfolding r by (rule reserve_enough [OF assms(1) anchorTop_nonneg])
  then have "sk_scrollTop (setTop ly (anchorTop ly a) st1) = anchorTop ly a" by (simp add: setTop_def Let_def)
  moreover have "holdAnchor ly st =
      (if 1 \<le> \<bar>sk_scrollTop st1 - anchorTop ly a\<bar> then setTop ly (anchorTop ly a) st1 else st1)"
    using assms(2-4) by (simp add: holdAnchor_def Let_def st1_def split: option.splits)
  ultimately show ?thesis using r by simp
qed

section \<open>The reserve\<close>

lemma releaseReserve_smaller_than:
  "sk_reserve st' = sk_reserve st \<Longrightarrow> smaller_reserve (sk_reserve (releaseReserve ly st')) (sk_reserve st)"
  using releaseReserve_smaller [of ly st'] by simp

lemma leaveAnchor_smaller: "smaller_reserve (sk_reserve (leaveAnchor ly mode st)) (sk_reserve st)"
  by (simp add: leaveAnchor_def Let_def releaseReserve_smaller_than)

lemma readerScrolled_smaller: "smaller_reserve (sk_reserve (readerScrolled ly st)) (sk_reserve st)"
  using leaveAnchor_smaller [of ly _ "st\<lparr>sk_scrollingToBottom := False\<rparr>"] by (simp add: readerScrolled_def Let_def leaveAnchor_smaller)

lemma onScroll_smaller:
  assumes "sk_mode st \<noteq> Anchored"
  shows "smaller_reserve (sk_reserve (onScroll ly x st)) (sk_reserve st)"
proof -
  define st0 where "st0 = st\<lparr>sk_scrollTop := x\<rparr>"
  define st1 where "st1 = (if sk_animatingTo st0 = None \<and> \<not> sk_searchPaused st0 \<and> x \<noteq> sk_lastSetTop st0
      then readerScrolled ly st0 else st0)"
  have "smaller_reserve (sk_reserve st1) (sk_reserve st)"
    using readerScrolled_smaller [of ly st0] by (simp add: st1_def st0_def)
  moreover have "smaller_reserve
      (sk_reserve (if sk_mode st1 \<noteq> Anchored \<and> sk_animatingTo st1 = None then releaseReserve ly st1 else st1)) (sk_reserve st1)"
    by (simp add: releaseReserve_smaller)
  moreover have "\<not> clamped_by_layout ly st0" using assms by (simp add: clamped_by_layout_def st0_def)
  ultimately show ?thesis
    unfolding onScroll_def Let_def st0_def [symmetric] st1_def [symmetric] by (auto intro: smaller_trans)
qed

lemma settlePosition_smaller:
  "sk_mode st \<noteq> Anchored \<Longrightarrow> smaller_reserve (sk_reserve (settlePosition ly st)) (sk_reserve st)"
  by (simp add: settlePosition_def releaseReserve_smaller_than)

lemma enterConversation_smaller: "smaller_reserve (sk_reserve (enterConversation ly forceKey st)) (sk_reserve st)"
  by (simp add: enterConversation_def Let_def setReserve_def)

lemma startTurn_smaller:
  "sk_mode (startTurn ly turnKey st) \<noteq> Anchored \<Longrightarrow> smaller_reserve (sk_reserve (startTurn ly turnKey st)) (sk_reserve st)"
  using leaveAnchor_smaller [of ly FollowBottom "st\<lparr>sk_armedFrom := None\<rparr>"]
  by (auto simp: startTurn_def anchorNewestTurn_def Let_def split: option.splits if_splits)

text \<open>
  The reserved space. Blank space below the thread is made only for an anchored turn: as soon as the reader has
  left it, whatever happens makes the reserve smaller or removes it, until a new turn is anchored.
\<close>

theorem reserve_only_shrinks:
  assumes "sk_mode st \<noteq> Anchored" and "sk_mode (stick_step ly event st) \<noteq> Anchored"
  shows "smaller_reserve (sk_reserve (stick_step ly event st)) (sk_reserve st)"
proof (cases event)
  case (Scrolled x)
  then show ?thesis using onScroll_smaller assms(1) by simp
next
  case UserIntent
  then show ?thesis by (simp add: onUserIntent_def)
next
  case Gesture
  then show ?thesis
    using leaveAnchor_smaller [of ly ReaderFree "stopAnimation ly True (onUserIntent st)"]
    by (simp add: onGesture_def Let_def) (simp add: onUserIntent_def)
next
  case Resized
  then show ?thesis using assms(1) by (simp add: onResize_def)
next
  case (Rendered forceKey turnKey)
  let ?st = "startTurn ly turnKey (enterConversation ly forceKey st)"
  have "sk_mode ?st \<noteq> Anchored" using assms(2) Rendered by (simp add: rendered_def settlePosition_def Let_def split: if_splits)
  then show ?thesis
    using settlePosition_smaller [of ?st ly] startTurn_smaller [of ly turnKey "enterConversation ly forceKey st"]
      enterConversation_smaller [of ly forceKey st] Rendered
    by (auto simp: rendered_def intro: smaller_trans)
next
  case (NextTurnArmed turnKey)
  then show ?thesis by (simp add: anchorNextTurn_def)
next
  case BottomRequested
  then show ?thesis using assms(1) by (simp add: scrollToBottom_def Let_def releaseReserve_smaller_than)
next
  case (FollowingPaused paused)
  then show ?thesis using assms(1) by (simp add: pauseFollowing_def Let_def)
next
  case (LiftFinished i)
  then show ?thesis using assms(1) by (simp add: liftFinished_def Let_def)
qed

theorem reserve_only_shrinks_witness:
  "smaller_reserve (sk_reserve (stick_step tall_layout (Scrolled 900) ((stick_start None)\<lparr>sk_reserve := Some 1500\<rparr>))) (Some 1500)"
proof -
  let ?st = "(stick_start None)\<lparr>sk_reserve := Some 1500\<rparr>"
  have "sk_mode (stick_step tall_layout (Scrolled 900) ?st) \<noteq> Anchored"
    by (simp add: stick_start_def onScroll_def readerScrolled_def clamped_by_layout_def leaveAnchor_def Let_def)
  then show ?thesis using reserve_only_shrinks [of ?st tall_layout "Scrolled 900"] by (simp add: stick_start_def)
qed

end
