(* ===== verification/Search_Reveal.thy ===== *)
theory Search_Reveal
  imports Search_Text Conversation_Search Complex_Main
begin

text \<open>
  Showing a search result in the opened conversation (\<open>frontend/src/search/revealSearchResult.ts\<close>): the text of the
  message is read and compared with the text the search saw, the match is scrolled to, painted once the page is at
  rest, and fades. The digest of a text is the argument \<open>hash\<close>; it comes back later, while the page may change. A frame
  gives the clock and the scroll position and height of the thread.
\<close>

section \<open>Definitions\<close>

type_synonym page_range = "text_point \<times> text_point"

record search_reveal =
  sr_cancelled :: bool
  sr_range :: "page_range option"
  sr_readyAt :: "rat option"
  sr_stableAt :: rat
  sr_previousTop :: rat
  sr_previousHeight :: rat
  sr_startedAt :: "rat option"
  sr_rebuilding :: bool
  sr_hashing :: "search_text list"
  sr_painted :: "page_range option"
  sr_alpha :: "rat option"
  sr_missing :: nat
  sr_userCancelled :: bool
  sr_positions :: nat

text \<open>\<open>let readyAt = 0\<close>: zero is the absence of a time, as the code tests it; a frame's clock is positive.\<close>

definition reveal_begun :: search_reveal where
  "reveal_begun =
     \<lparr>sr_cancelled = False, sr_range = None, sr_readyAt = None, sr_stableAt = 0, sr_previousTop = -1,
      sr_previousHeight = -1, sr_startedAt = None, sr_rebuilding = False, sr_hashing = [], sr_painted = None,
      sr_alpha = None, sr_missing = 0, sr_userCancelled = False, sr_positions = 0\<rparr>"

definition cleanup :: "search_reveal \<Rightarrow> search_reveal" where
  "cleanup st = st\<lparr>sr_cancelled := True, sr_painted := None, sr_alpha := None\<rparr>"

definition missing :: "search_reveal \<Rightarrow> search_reveal" where
  "missing st = (cleanup st)\<lparr>sr_missing := sr_missing st + 1\<rparr>"

definition paint :: "page_range \<Rightarrow> search_reveal \<Rightarrow> search_reveal" where
  "paint hit st = st\<lparr>sr_painted := Some hit\<rparr>"

text \<open>\<open>rebuild\<close> up to the digest, and from it on; a target of another version is missing without asking for the digest.\<close>

definition rebuild_begin :: "search_target \<Rightarrow> page_node \<Rightarrow> search_reveal \<Rightarrow> search_reveal" where
  "rebuild_begin target source st =
     (if sr_cancelled st \<or> sr_rebuilding st then st
      else if tg_projection_version target \<noteq> 1 then missing st
      else st\<lparr>sr_rebuilding := True, sr_hashing := sr_hashing st @ [buildVisibleSearchText source]\<rparr>)"

definition rebuild_end :: "search_target \<Rightarrow> (jstr \<Rightarrow> jstr) \<Rightarrow> search_reveal \<Rightarrow> search_reveal" where
  "rebuild_end target hash st = (case sr_hashing st of
      [] \<Rightarrow> st
    | projection # rest \<Rightarrow>
        let st1 = st\<lparr>sr_hashing := rest, sr_rebuilding := False\<rparr>
        in if sr_cancelled st1 then st1
           else if hash (st_text projection) \<noteq> tg_projection_hash target then missing st1
           else (case rangeForMatch projection (rg_start target) (rg_end target) of
               None \<Rightarrow> missing st1
             | Some hit \<Rightarrow>
                 let st2 = st1\<lparr>sr_range := Some hit\<rparr>
                 in if sr_startedAt st2 \<noteq> None then paint hit st2 else st2))"

text \<open>A frame: the first with a range scrolls to it; at rest for long enough the match is painted; then it fades.\<close>

definition frame_ready :: "rat \<Rightarrow> search_reveal \<Rightarrow> search_reveal" where
  "frame_ready now st =
     (if sr_range st \<noteq> None \<and> sr_readyAt st = None
      then st\<lparr>sr_readyAt := Some now, sr_positions := sr_positions st + 1\<rparr> else st)"

definition frame_stable :: "rat \<Rightarrow> rat \<Rightarrow> rat \<Rightarrow> search_reveal \<Rightarrow> search_reveal" where
  "frame_stable now x height st = (case sr_range st of
      Some hit \<Rightarrow>
        if sr_startedAt st \<noteq> None then st
        else
          let st1 = st\<lparr>sr_stableAt := (if 1 / 2 < \<bar>x - sr_previousTop st\<bar> \<or> height \<noteq> sr_previousHeight st then now
                                      else sr_stableAt st),
                       sr_previousTop := x, sr_previousHeight := height\<rparr>
          in if 160 < now - sr_stableAt st1 \<and> 180 < now - (case sr_readyAt st1 of None \<Rightarrow> 0 | Some t \<Rightarrow> t)
             then paint hit (st1\<lparr>sr_startedAt := Some now\<rparr>) else st1
    | None \<Rightarrow> st)"

definition frame_fade :: "bool \<Rightarrow> rat \<Rightarrow> search_reveal \<Rightarrow> search_reveal" where
  "frame_fade reduce now st = (case sr_startedAt st of
      None \<Rightarrow> st
    | Some started \<Rightarrow>
        let elapsed = now - started
        in if (if reduce then 2000 else 3000) \<le> elapsed then cleanup st
           else st\<lparr>sr_alpha := Some (3 / 5 * (if reduce then 1 else min 1 ((3000 - elapsed) / 1000)))\<rparr>)"

definition tick :: "bool \<Rightarrow> rat \<Rightarrow> rat \<Rightarrow> rat \<Rightarrow> search_reveal \<Rightarrow> search_reveal" where
  "tick reduce now x height st =
     (if sr_cancelled st then st else frame_fade reduce now (frame_stable now x height (frame_ready now st)))"

text \<open>\<open>position\<close> when the content is resized before the match is painted.\<close>

definition content_resized :: "search_reveal \<Rightarrow> search_reveal" where
  "content_resized st =
     (if \<not> sr_cancelled st \<and> sr_readyAt st \<noteq> None \<and> sr_startedAt st = None
      then st\<lparr>sr_positions := sr_positions st + 1\<rparr> else st)"

definition cancel_by_user :: "search_reveal \<Rightarrow> search_reveal" where
  "cancel_by_user st = (if sr_cancelled st then st else (cleanup st)\<lparr>sr_userCancelled := True\<rparr>)"

text \<open>The call; \<open>source\<close> is the message's element, if it is on the page.\<close>

definition revealSearchResult :: "search_target \<Rightarrow> page_node option \<Rightarrow> search_reveal" where
  "revealSearchResult target source = (case source of
      None \<Rightarrow> missing reveal_begun
    | Some node \<Rightarrow> rebuild_begin target node reveal_begun)"

datatype search_reveal_event =
    SourceChanged page_node
  | DigestReady
  | Frame rat rat rat
  | ContentResized
  | UserActed
  | RevealClosed

fun search_reveal_step ::
  "search_target \<Rightarrow> (jstr \<Rightarrow> jstr) \<Rightarrow> bool \<Rightarrow> search_reveal_event \<Rightarrow> search_reveal \<Rightarrow> search_reveal" where
  "search_reveal_step target hash reduce (SourceChanged node) st = rebuild_begin target node st"
| "search_reveal_step target hash reduce DigestReady st = rebuild_end target hash st"
| "search_reveal_step target hash reduce (Frame now x height) st = tick reduce now x height st"
| "search_reveal_step target hash reduce ContentResized st = content_resized st"
| "search_reveal_step target hash reduce UserActed st = cancel_by_user st"
| "search_reveal_step target hash reduce RevealClosed st = cleanup st"

inductive search_reveal_reachable ::
  "search_target \<Rightarrow> (jstr \<Rightarrow> jstr) \<Rightarrow> bool \<Rightarrow> search_reveal \<Rightarrow> bool" for target hash reduce where
  Called: "search_reveal_reachable target hash reduce (revealSearchResult target source)"
| Happened: "search_reveal_reachable target hash reduce st \<Longrightarrow>
    search_reveal_reachable target hash reduce (search_reveal_step target hash reduce event st)"

section \<open>What is painted\<close>

text \<open>A range found in a text of the page with the digest the search gave, for the place it gave.\<close>

definition found_range :: "search_target \<Rightarrow> (jstr \<Rightarrow> jstr) \<Rightarrow> page_range \<Rightarrow> bool" where
  "found_range target hash hit \<longleftrightarrow> (\<exists>source.
     hash (st_text (buildVisibleSearchText source)) = tg_projection_hash target \<and>
     rangeForMatch (buildVisibleSearchText source) (rg_start target) (rg_end target) = Some hit)"

definition reveal_inv :: "search_target \<Rightarrow> (jstr \<Rightarrow> jstr) \<Rightarrow> search_reveal \<Rightarrow> bool" where
  "reveal_inv target hash st \<longleftrightarrow>
     (\<forall>projection \<in> set (sr_hashing st). \<exists>source. projection = buildVisibleSearchText source) \<and>
     pred_option (found_range target hash) (sr_range st) \<and>
     pred_option (found_range target hash) (sr_painted st) \<and>
     pred_option (\<lambda>alpha. 0 < alpha \<and> alpha \<le> 3 / 5) (sr_alpha st) \<and>
     (sr_cancelled st \<longrightarrow> sr_painted st = None \<and> sr_alpha st = None) \<and>
     (sr_missing st \<noteq> 0 \<longrightarrow> sr_cancelled st)"

lemma cleanup_inv: "reveal_inv target hash st \<Longrightarrow> reveal_inv target hash (cleanup st)"
  by (simp add: reveal_inv_def cleanup_def)

lemma missing_inv: "reveal_inv target hash st \<Longrightarrow> reveal_inv target hash (missing st)"
  by (simp add: reveal_inv_def missing_def cleanup_def)

lemma rebuild_begin_inv: "reveal_inv target hash st \<Longrightarrow> reveal_inv target hash (rebuild_begin target source st)"
  by (auto simp: rebuild_begin_def missing_inv) (auto simp: reveal_inv_def)

lemma rebuild_end_inv:
  assumes "reveal_inv target hash st"
  shows "reveal_inv target hash (rebuild_end target hash st)"
proof (cases "sr_hashing st")
  case Nil
  then show ?thesis using assms by (simp add: rebuild_end_def)
next
  case (Cons projection rest)
  let ?st = "st\<lparr>sr_hashing := rest, sr_rebuilding := False\<rparr>"
  have st: "reveal_inv target hash ?st" using assms Cons by (simp add: reveal_inv_def)
  obtain source where source: "projection = buildVisibleSearchText source"
    using assms Cons by (auto simp: reveal_inv_def)
  show ?thesis
  proof (cases "sr_cancelled ?st \<or> hash (st_text projection) \<noteq> tg_projection_hash target \<or>
      rangeForMatch projection (rg_start target) (rg_end target) = None")
    case True
    then show ?thesis using st missing_inv [OF st] Cons by (auto simp: rebuild_end_def Let_def)
  next
    case False
    then obtain hit where hit: "rangeForMatch projection (rg_start target) (rg_end target) = Some hit" by auto
    then have "found_range target hash hit" using False source by (auto simp: found_range_def)
    then show ?thesis using st Cons hit False
      by (simp add: rebuild_end_def Let_def paint_def reveal_inv_def)
  qed
qed

lemma frame_ready_inv: "reveal_inv target hash st \<Longrightarrow> reveal_inv target hash (frame_ready now st)"
  by (simp add: frame_ready_def reveal_inv_def)

lemma frame_stable_inv:
  "reveal_inv target hash st \<Longrightarrow> \<not> sr_cancelled st \<Longrightarrow> reveal_inv target hash (frame_stable now x height st)"
  by (auto simp: frame_stable_def Let_def paint_def reveal_inv_def split: option.splits)

lemma frame_fade_inv:
  assumes "reveal_inv target hash st" and "\<not> sr_cancelled st"
  shows "reveal_inv target hash (frame_fade reduce now st)"
proof (cases "sr_startedAt st")
  case None
  then show ?thesis using assms by (simp add: frame_fade_def)
next
  case (Some started)
  let ?a = "3 / 5 * (if reduce then 1 else min 1 ((3000 - (now - started)) / 1000)) :: rat"
  have "0 < ?a \<and> ?a \<le> 3 / 5" if "\<not> (if reduce then 2000 else 3000) \<le> now - started"
    using that by (auto simp: min_def split: if_splits)
  then show ?thesis using Some assms cleanup_inv [OF assms(1)]
    by (simp add: frame_fade_def Let_def) (simp add: reveal_inv_def)
qed

lemma tick_cancelled: "sr_cancelled (frame_stable now x height (frame_ready now st)) = sr_cancelled st"
  by (simp add: frame_stable_def frame_ready_def Let_def paint_def split: option.splits)

lemma tick_inv: "reveal_inv target hash st \<Longrightarrow> reveal_inv target hash (tick reduce now x height st)"
  using frame_fade_inv [of target hash "frame_stable now x height (frame_ready now st)"]
    frame_stable_inv [OF frame_ready_inv, of target hash st] tick_cancelled [of now x height st]
  by (auto simp: tick_def frame_ready_def)

lemma search_reveal_invariant:
  assumes "search_reveal_reachable target hash reduce st"
  shows "reveal_inv target hash st"
  using assms
proof induction
  case (Called source)
  have "reveal_inv target hash reveal_begun" by (simp add: reveal_inv_def reveal_begun_def)
  then show ?case by (simp add: revealSearchResult_def missing_inv rebuild_begin_inv split: option.split)
next
  case (Happened st event)
  then show ?case
    by (cases event)
      (simp_all add: rebuild_begin_inv rebuild_end_inv tick_inv cleanup_inv content_resized_def cancel_by_user_def,
       auto simp: reveal_inv_def cleanup_def)
qed

lemma cancelled_stays: "sr_cancelled st \<Longrightarrow> sr_cancelled (search_reveal_step target hash reduce event st)"
  by (cases event)
    (auto simp: rebuild_begin_def rebuild_end_def tick_def cancel_by_user_def content_resized_def cleanup_def Let_def
      split: list.splits)

lemma fade_ends:
  "sr_startedAt st = Some started \<Longrightarrow> started + 3000 \<le> now \<Longrightarrow> sr_cancelled (tick reduce now x height st)"
  by (auto simp: tick_def frame_ready_def frame_stable_def frame_fade_def Let_def cleanup_def split: option.splits)



end
