(* ===== verification/Message_Actions.thy ===== *)
theory Message_Actions
  imports Attachment_Card "HOL-Library.Multiset"
begin

text \<open>
  A message of the thread and what can be done with it (\<open>frontend/src/messages/Message.tsx\<close>), the layout of its
  attachments (\<open>MessageAttachments.tsx\<close>), the controls over the thread (\<open>conversations/ThreadActions.tsx\<close>) and the page
  of a shared conversation (\<open>messages/SharePage.tsx\<close>). A button is pressed only where it is rendered and enabled.
\<close>

section \<open>A message\<close>

record message_props =
  mp_message :: message_response
  mp_isMobile :: bool
  mp_disabledReason :: "jstr option"
  mp_pending :: bool
  mp_legacyUpgrade :: bool
  mp_hasEditUpgrade :: bool
  mp_hasNewConversation :: bool
  mp_canReveal :: bool
  mp_searchMessage :: "jstr option"

text \<open>
  \<open>mv_longPress\<close>: the timer the reference holds is running; \<open>mv_strayPresses\<close>: the timers that run without one, since a
  second finger overwrites the reference.
\<close>

record message_view =
  mv_editing :: bool
  mv_draft :: jstr
  mv_sheetOpen :: bool
  mv_copied :: bool
  mv_copiedTimer :: bool
  mv_longPress :: bool
  mv_strayPresses :: nat
  mv_expanded :: bool
  mv_overflowing :: bool

datatype message_call =
    CopyText jstr
  | EditAndRegenerate jstr jstr
  | Regenerate jstr
  | UpgradeLegacy jstr
  | EditUpgradeLegacy jstr
  | StartNewConversation
  | RevealReplyQuote reply_quote
  | ShowSources "message_source list"

definition initial_message_view :: "message_props \<Rightarrow> message_view" where
  "initial_message_view p =
     \<lparr>mv_editing = False, mv_draft = msg_content (mp_message p), mv_sheetOpen = False, mv_copied = False,
      mv_copiedTimer = False, mv_longPress = False, mv_strayPresses = 0, mv_expanded = False, mv_overflowing = False\<rparr>"

definition is_user :: "message_props \<Rightarrow> bool" where
  "is_user p \<longleftrightarrow> msg_role (mp_message p) = User"

definition mutate_disabled :: "message_props \<Rightarrow> bool" where
  "mutate_disabled p \<longleftrightarrow> mp_disabledReason p \<noteq> None"

definition message_attachments :: "message_props \<Rightarrow> file_attachment list" where
  "message_attachments p = nullish (msg_attachments (mp_message p)) []"

definition hasMessageModelInput :: "message_props \<Rightarrow> bool" where
  "hasMessageModelInput p \<longleftrightarrow> msg_reply_quote (mp_message p) \<noteq> None \<or>
     list_ex (\<lambda>a. fa_model_input_kind a \<noteq> None) (message_attachments p)"

definition hasVisibleContent :: "message_props \<Rightarrow> bool" where
  "hasVisibleContent p \<longleftrightarrow> js_trim (msg_content (mp_message p)) \<noteq> []"

definition copySource :: "message_props \<Rightarrow> jstr" where
  "copySource p =
     (if hasVisibleContent p then msg_content (mp_message p)
      else case msg_reply_quote (mp_message p) of None \<Rightarrow> [] | Some q \<Rightarrow> rq_excerpt q)"

definition collapse_max_height :: int where "collapse_max_height = 320"

definition search_expanded :: "message_props \<Rightarrow> bool" where
  "search_expanded p \<longleftrightarrow> mp_searchMessage p = Some (msg_id (mp_message p))"

definition message_clipped :: "message_props \<Rightarrow> message_view \<Rightarrow> bool" where
  "message_clipped p v \<longleftrightarrow> \<not> mv_expanded v \<and> \<not> search_expanded p"

definition message_collapsed :: "message_props \<Rightarrow> message_view \<Rightarrow> bool" where
  "message_collapsed p v \<longleftrightarrow> mv_overflowing v \<and> message_clipped p v"

definition startEditing :: "message_props \<Rightarrow> message_view \<Rightarrow> message_view" where
  "startEditing p v = v\<lparr>mv_draft := msg_content (mp_message p), mv_editing := True\<rparr>"

definition mutate_message :: "message_props \<Rightarrow> message_view \<Rightarrow> message_view \<times> message_call list" where
  "mutate_message p v =
     (if is_user p then (startEditing p v, []) else (v, [Regenerate (msg_id (mp_message p))]))"

definition handleCopy :: "message_props \<Rightarrow> message_view \<Rightarrow> message_view \<times> message_call list" where
  "handleCopy p v = (v\<lparr>mv_copied := True, mv_copiedTimer := True\<rparr>, [CopyText (copySource p)])"

definition save_disabled :: "message_props \<Rightarrow> message_view \<Rightarrow> bool" where
  "save_disabled p v \<longleftrightarrow> js_trim (mv_draft v) = [] \<and> \<not> hasMessageModelInput p"

definition save_edit :: "message_props \<Rightarrow> message_view \<Rightarrow> message_view \<times> message_call list" where
  "save_edit p v =
     (let trimmed = js_trim (mv_draft v)
      in if trimmed = [] \<and> \<not> hasMessageModelInput p then (v, [])
         else (v\<lparr>mv_editing := False\<rparr>, [EditAndRegenerate (msg_id (mp_message p)) trimmed]))"

definition cancel_edit :: "message_props \<Rightarrow> message_view \<Rightarrow> message_view" where
  "cancel_edit p v = v\<lparr>mv_draft := msg_content (mp_message p), mv_editing := False\<rparr>"

text \<open>What is rendered: the editor, or the message with its bar, or with the sheet a long press opens.\<close>

definition editor_shown :: "message_props \<Rightarrow> message_view \<Rightarrow> bool" where
  "editor_shown p v \<longleftrightarrow> is_user p \<and> mv_editing v"

definition sheet_surface :: "message_props \<Rightarrow> message_view \<Rightarrow> bool" where
  "sheet_surface p v \<longleftrightarrow> \<not> editor_shown p v \<and> \<not> mp_pending p \<and> mp_isMobile p \<and> is_user p"

definition bar_surface :: "message_props \<Rightarrow> message_view \<Rightarrow> bool" where
  "bar_surface p v \<longleftrightarrow> \<not> editor_shown p v \<and> \<not> mp_pending p \<and> \<not> (mp_isMobile p \<and> is_user p)"

definition bubble_shown :: "message_props \<Rightarrow> message_view \<Rightarrow> bool" where
  "bubble_shown p v \<longleftrightarrow> is_user p \<and> \<not> editor_shown p v \<and> hasVisibleContent p"

definition upgrade_shown :: "message_props \<Rightarrow> message_view \<Rightarrow> bool" where
  "upgrade_shown p v \<longleftrightarrow> is_user p \<and> \<not> editor_shown p v \<and> mp_legacyUpgrade p"

definition quote_to_reveal :: "message_props \<Rightarrow> reply_quote option" where
  "quote_to_reveal p = (case msg_reply_quote (mp_message p) of
      None \<Rightarrow> None
    | Some q \<Rightarrow> if truthy (rq_source_message_id q) \<and> mp_canReveal p then Some q else None)"

definition own_sources :: "message_props \<Rightarrow> message_source list" where
  "own_sources p = (case msg_metadata (mp_message p) of Some (Some sources) \<Rightarrow> sources | _ \<Rightarrow> [])"

definition displayedReasoning :: "message_props \<Rightarrow> jstr option" where
  "displayedReasoning p =
     (if truthy_trim (msg_reasoning_summary (mp_message p)) then msg_reasoning_summary (mp_message p)
      else msg_reasoning (mp_message p))"

datatype message_event =
    TouchStarted
  | TouchMovedOrEnded
  | LongPressFired
  | StrayPressFired
  | HeightMeasured int
  | ExpandPressed
  | CopyPressed
  | CopiedTimeout
  | MutatePressed
  | SheetCopyPressed
  | SheetMutatePressed
  | SheetClosed
  | UpgradePressed
  | EditUpgradePressed "bool option"
  | EditUpgradeAnswered bool
  | NewConversationPressed
  | DraftTyped jstr
  | EnterPressed
  | EscapePressed
  | SavePressed
  | CancelPressed
  | QuotePressed
  | SourcesPressed

text \<open>
  \<open>EditUpgradePressed (Some allowed)\<close> is a handler that answers at once, \<open>None\<close> one that returns a promise, which
  settles with \<open>EditUpgradeAnswered\<close>.
\<close>

fun message_step :: "message_props \<Rightarrow> message_event \<Rightarrow> message_view \<Rightarrow> message_view \<times> message_call list" where
  "message_step p TouchStarted v =
     (if bubble_shown p v \<and> mp_isMobile p \<and> \<not> mp_pending p
      then (v\<lparr>mv_longPress := True, mv_strayPresses := mv_strayPresses v + (if mv_longPress v then 1 else 0)\<rparr>, [])
      else (v, []))"
| "message_step p TouchMovedOrEnded v =
     (if bubble_shown p v \<and> mp_isMobile p \<and> \<not> mp_pending p then (v\<lparr>mv_longPress := False\<rparr>, []) else (v, []))"
| "message_step p LongPressFired v =
     (if mv_longPress v then (v\<lparr>mv_longPress := False, mv_sheetOpen := True\<rparr>, []) else (v, []))"
| "message_step p StrayPressFired v =
     (if 0 < mv_strayPresses v then (v\<lparr>mv_strayPresses := mv_strayPresses v - 1, mv_sheetOpen := True\<rparr>, []) else (v, []))"
| "message_step p (HeightMeasured height) v =
     (if \<not> bubble_shown p v then (v, []) else (v\<lparr>mv_overflowing := (collapse_max_height < height)\<rparr>, []))"
| "message_step p ExpandPressed v =
     (if bubble_shown p v \<and> mv_overflowing v then (v\<lparr>mv_expanded := \<not> mv_expanded v\<rparr>, []) else (v, []))"
| "message_step p CopyPressed v = (if bar_surface p v then handleCopy p v else (v, []))"
| "message_step p CopiedTimeout v =
     (if mv_copiedTimer v then (v\<lparr>mv_copied := False, mv_copiedTimer := False\<rparr>, []) else (v, []))"
| "message_step p MutatePressed v =
     (if bar_surface p v \<and> \<not> mutate_disabled p then mutate_message p v else (v, []))"
| "message_step p SheetCopyPressed v =
     (if sheet_surface p v \<and> mv_sheetOpen v then (v\<lparr>mv_sheetOpen := False\<rparr>, [CopyText (copySource p)]) else (v, []))"
| "message_step p SheetMutatePressed v =
     (if sheet_surface p v \<and> mv_sheetOpen v \<and> \<not> mutate_disabled p
      then (let (v1, calls) = mutate_message p v in (v1\<lparr>mv_sheetOpen := False\<rparr>, calls)) else (v, []))"
| "message_step p SheetClosed v = (if sheet_surface p v then (v\<lparr>mv_sheetOpen := False\<rparr>, []) else (v, []))"
| "message_step p UpgradePressed v =
     (if upgrade_shown p v then (v, [UpgradeLegacy (msg_id (mp_message p))]) else (v, []))"
| "message_step p (EditUpgradePressed answer) v =
     (if upgrade_shown p v \<and> mp_hasEditUpgrade p
      then (if answer = Some True then startEditing p v else v, [EditUpgradeLegacy (msg_id (mp_message p))])
      else (v, []))"
| "message_step p (EditUpgradeAnswered allowed) v = (if allowed then startEditing p v else v, [])"
| "message_step p NewConversationPressed v =
     (if upgrade_shown p v \<and> mp_hasNewConversation p then (v, [StartNewConversation]) else (v, []))"
| "message_step p (DraftTyped s) v = (if editor_shown p v then (v\<lparr>mv_draft := s\<rparr>, []) else (v, []))"
| "message_step p EnterPressed v = (if editor_shown p v then save_edit p v else (v, []))"
| "message_step p EscapePressed v = (if editor_shown p v then (cancel_edit p v, []) else (v, []))"
| "message_step p SavePressed v =
     (if editor_shown p v \<and> \<not> save_disabled p v then save_edit p v else (v, []))"
| "message_step p CancelPressed v = (if editor_shown p v then (cancel_edit p v, []) else (v, []))"
| "message_step p QuotePressed v =
     (case quote_to_reveal p of
        Some q \<Rightarrow> if is_user p \<and> \<not> editor_shown p v then (v, [RevealReplyQuote q]) else (v, [])
      | None \<Rightarrow> (v, []))"
| "message_step p SourcesPressed v =
     (if \<not> is_user p \<and> own_sources p \<noteq> [] then (v, [ShowSources (own_sources p)]) else (v, []))"

section \<open>Attachments of a message\<close>

definition card_category :: "card_file \<Rightarrow> jstr" where
  "card_category f = (case f of OwnFile a \<Rightarrow> fa_category a | SharedFile p \<Rightarrow> sp_category p)"

definition card_position :: "card_file \<Rightarrow> int option" where
  "card_position f = (case f of OwnFile a \<Rightarrow> fa_position a | SharedFile p \<Rightarrow> sp_position p)"

definition card_is_image :: "card_file \<Rightarrow> bool" where
  "card_is_image f \<longleftrightarrow> card_category f = js ''image''"

definition attachmentKey :: "card_file \<Rightarrow> nat \<Rightarrow> jstr" where
  "attachmentKey attachment index = (case attachment of
      OwnFile a \<Rightarrow> fa_id a
    | SharedFile p \<Rightarrow> nullish (sp_ref p) (sp_name p @ js ''-'' @ digits index))"

definition orderedAttachments :: "card_file list \<Rightarrow> card_file list" where
  "orderedAttachments attachments =
     map fst (sort_key (\<lambda>(a, i). nullish (card_position a) (int i)) (zip attachments [0..<length attachments]))"

definition localImageFileIds :: "(jstr \<rightharpoonup> jstr) \<Rightarrow> card_file list \<Rightarrow> jstr list" where
  "localImageFileIds previews attachments =
     filter (\<lambda>i. i \<noteq> [])
       (map (\<lambda>f. case f of OwnFile a \<Rightarrow> fa_id a | SharedFile _ \<Rightarrow> [])
         (filter (\<lambda>f. card_is_image f \<and> (case f of OwnFile a \<Rightarrow> previews (fa_id a) \<noteq> None | SharedFile _ \<Rightarrow> False))
           (orderedAttachments attachments)))"

definition singleImage :: "card_file list \<Rightarrow> bool" where
  "singleImage attachments \<longleftrightarrow>
     length (filter card_is_image (orderedAttachments attachments)) = 1 \<and> length (orderedAttachments attachments) = 1"

text \<open>The groups: whether a group is of images, and its items.\<close>

fun group_into :: "(bool \<times> card_file list) list \<Rightarrow> card_file list \<Rightarrow> (bool \<times> card_file list) list" where
  "group_into groups [] = groups"
| "group_into groups (a # as) =
     group_into
       (if groups \<noteq> [] \<and> fst (last groups) = card_is_image a
        then butlast groups @ [(fst (last groups), snd (last groups) @ [a])]
        else groups @ [(card_is_image a, [a])]) as"

definition attachment_groups :: "card_file list \<Rightarrow> (bool \<times> card_file list) list" where
  "attachment_groups attachments = group_into [] (orderedAttachments attachments)"

text \<open>The effect that gives back the local previews: run on mounting and when the callback changes, undone before.\<close>

record preview_release =
  pr_ids :: "jstr list"
  pr_timer :: "jstr list option"
  pr_consumed :: "jstr list"

definition previews_effect :: "preview_release \<Rightarrow> preview_release" where
  "previews_effect st = st\<lparr>pr_timer := None\<rparr>"

definition previews_cleanup :: "bool \<Rightarrow> preview_release \<Rightarrow> preview_release" where
  "previews_cleanup has_callback st =
     (if \<not> has_callback \<or> pr_ids st = [] then st else st\<lparr>pr_timer := Some (pr_ids st)\<rparr>)"

definition previews_timer :: "preview_release \<Rightarrow> preview_release" where
  "previews_timer st = (case pr_timer st of
      None \<Rightarrow> st
    | Some ids \<Rightarrow> st\<lparr>pr_timer := None, pr_consumed := pr_consumed st @ ids\<rparr>)"

section \<open>Controls over the thread\<close>

record thread_controls =
  tc_isMobile :: bool
  tc_hasConversation :: bool
  tc_menuOpen :: bool

datatype thread_call = OpenMobileSidebar | NewConversation | ShareThread | DeleteThread | TogglePin | ToggleFavorite

datatype thread_event =
    PropsChanged bool bool
  | HistoryPressed
  | NewPressed
  | SharePressed
  | MorePressed
  | PointerOutside
  | EscapeKey
  | MenuItemPressed thread_call

definition thread_menu_items :: "thread_controls \<Rightarrow> thread_call list" where
  "thread_menu_items c = [TogglePin, ToggleFavorite] @ (if tc_isMobile c then [ShareThread] else []) @ [DeleteThread]"

fun thread_step :: "thread_event \<Rightarrow> thread_controls \<Rightarrow> thread_controls \<times> thread_call list" where
  "thread_step (PropsChanged isMobile hasConversation) c =
     (c\<lparr>tc_isMobile := isMobile, tc_hasConversation := hasConversation,
        tc_menuOpen := (tc_menuOpen c \<and> hasConversation)\<rparr>, [])"
| "thread_step HistoryPressed c = (c, if tc_isMobile c then [OpenMobileSidebar] else [])"
| "thread_step NewPressed c = (c, if tc_isMobile c then [NewConversation] else [])"
| "thread_step SharePressed c = (c, if \<not> tc_isMobile c \<and> tc_hasConversation c then [ShareThread] else [])"
| "thread_step MorePressed c = (if tc_hasConversation c then c\<lparr>tc_menuOpen := \<not> tc_menuOpen c\<rparr> else c, [])"
| "thread_step PointerOutside c = (c\<lparr>tc_menuOpen := False\<rparr>, [])"
| "thread_step EscapeKey c = (c\<lparr>tc_menuOpen := False\<rparr>, [])"
| "thread_step (MenuItemPressed item) c =
     (if tc_hasConversation c \<and> tc_menuOpen c \<and> item \<in> set (thread_menu_items c)
      then (c\<lparr>tc_menuOpen := False\<rparr>, [item]) else (c, []))"

section \<open>The page of a shared conversation\<close>

text \<open>\<open>'share\<close> is the answer of the public endpoint. A load is numbered; the one of the effect that stands is active.\<close>

datatype 'share share_load = ShareLoading | ShareError | ShareReady 'share

record 'share share_page =
  sg_token :: "jstr option"
  sg_state :: "'share share_load"
  sg_loads :: "jstr list"
  sg_active :: "nat option"

definition share_effect :: "jstr option \<Rightarrow> 'share share_page \<Rightarrow> 'share share_page" where
  "share_effect token st =
     (case token of
        Some t \<Rightarrow>
          if t = [] then st\<lparr>sg_token := token, sg_state := ShareError, sg_active := None\<rparr>
          else st\<lparr>sg_token := token, sg_state := ShareLoading, sg_active := Some (length (sg_loads st)), sg_loads := sg_loads st @ [t]\<rparr>
      | None \<Rightarrow> st\<lparr>sg_token := token, sg_state := ShareError, sg_active := None\<rparr>)"

definition share_page_answer :: "nat \<Rightarrow> 'share option \<Rightarrow> 'share share_page \<Rightarrow> 'share share_page" where
  "share_page_answer i answer st =
     (if sg_active st = Some i
      then st\<lparr>sg_state := (case answer of Some share \<Rightarrow> ShareReady share | None \<Rightarrow> ShareError)\<rparr> else st)"

definition open_share_page :: "jstr option \<Rightarrow> 'share share_page" where
  "open_share_page token = share_effect token \<lparr>sg_token = token, sg_state = ShareLoading, sg_loads = [], sg_active = None\<rparr>"

text \<open>Reading an attachment of the share: only with a token, and with the reference of the snapshot.\<close>

definition readAttachment :: "'share share_page \<Rightarrow> jstr \<Rightarrow> (jstr \<times> jstr) option" where
  "readAttachment st ref = (if truthy (sg_token st) then Some (the (sg_token st), ref) else None)"

section \<open>What a message may ask for\<close>

definition message_call_ok :: "message_props \<Rightarrow> message_call \<Rightarrow> bool" where
  "message_call_ok p call = (case call of
      CopyText s \<Rightarrow> s = copySource p \<and> \<not> mp_pending p
    | EditAndRegenerate i content \<Rightarrow>
        is_user p \<and> i = msg_id (mp_message p) \<and> js_trim content = content \<and> (content \<noteq> [] \<or> hasMessageModelInput p)
    | Regenerate i \<Rightarrow> \<not> is_user p \<and> i = msg_id (mp_message p) \<and> \<not> mutate_disabled p \<and> \<not> mp_pending p
    | UpgradeLegacy i \<Rightarrow> is_user p \<and> mp_legacyUpgrade p \<and> i = msg_id (mp_message p)
    | EditUpgradeLegacy i \<Rightarrow> is_user p \<and> mp_legacyUpgrade p \<and> i = msg_id (mp_message p)
    | StartNewConversation \<Rightarrow> mp_legacyUpgrade p
    | RevealReplyQuote q \<Rightarrow> msg_reply_quote (mp_message p) = Some q \<and> truthy (rq_source_message_id q)
    | ShowSources sources \<Rightarrow> \<not> is_user p \<and> sources \<noteq> [] \<and> sources = own_sources p)"

text \<open>
  What a message asks for. Whatever is pressed, typed or answered: only an own message is edited, with a trimmed
  text that is not empty unless there is something else for the model to read; only a reply is regenerated, and not
  while that is barred; what is copied, revealed and shown is the message's.
\<close>

theorem message_calls_allowed:
  "list_all (message_call_ok p) (snd (message_step p event v))"
  by (cases event)
    (auto simp: message_call_ok_def handleCopy_def mutate_message_def save_edit_def js_trim_again bar_surface_def sheet_surface_def
      editor_shown_def upgrade_shown_def quote_to_reveal_def Let_def split: option.splits prod.splits if_splits)

text \<open>An editor that was opened before a run began still sends.\<close>

lemma edit_saved_while_barred:
  "is_user p \<Longrightarrow> mv_editing v \<Longrightarrow> js_trim (mv_draft v) \<noteq> [] \<Longrightarrow>
   snd (message_step (p\<lparr>mp_disabledReason := Some reason\<rparr>) SavePressed v) =
     [EditAndRegenerate (msg_id (mp_message p)) (js_trim (mv_draft v))]"
  by (simp add: editor_shown_def is_user_def save_disabled_def save_edit_def Let_def)

text \<open>
  A touch with two fingers leaves a timer behind: although the gesture has moved or ended, the sheet opens under it.
\<close>

lemma pinch_opens_the_sheet:
  assumes "bubble_shown p v" and "mp_isMobile p" and "\<not> mp_pending p"
  shows "mv_sheetOpen (fst (message_step p StrayPressFired (fst (message_step p TouchMovedOrEnded
    (fst (message_step p TouchStarted (fst (message_step p TouchStarted v))))))))"
proof -
  have "bubble_shown p (v\<lparr>mv_longPress := True, mv_strayPresses := n\<rparr>)" for n
    using assms(1) by (simp add: bubble_shown_def editor_shown_def)
  then show ?thesis using assms by simp
qed

section \<open>The groups of attachments\<close>

definition group_ok :: "(bool \<times> card_file list) \<Rightarrow> bool" where
  "group_ok g \<longleftrightarrow> snd g \<noteq> [] \<and> list_all (\<lambda>a. card_is_image a = fst g) (snd g)"

lemma group_ok_pair [simp]: "group_ok (k, items) \<longleftrightarrow> items \<noteq> [] \<and> list_all (\<lambda>a. card_is_image a = k) items"
  by (simp add: group_ok_def)

lemma group_into_correct:
  "list_all group_ok groups \<Longrightarrow> distinct_adj (map fst groups) \<Longrightarrow>
   concat (map snd (group_into groups as)) = concat (map snd groups) @ as \<and>
   list_all group_ok (group_into groups as) \<and> distinct_adj (map fst (group_into groups as))"
proof (induction groups as rule: group_into.induct)
  case (2 groups a as)
  let ?next = "if groups \<noteq> [] \<and> fst (last groups) = card_is_image a
      then butlast groups @ [(fst (last groups), snd (last groups) @ [a])]
      else groups @ [(card_is_image a, [a])]"
  have "list_all group_ok ?next \<and> distinct_adj (map fst ?next) \<and> concat (map snd ?next) = concat (map snd groups) @ [a]"
  proof (cases groups rule: rev_cases)
    case Nil
    then show ?thesis by simp
  next
    case (snoc gs g)
    then show ?thesis using 2(2,3) by (cases g) (auto simp: distinct_adj_append_iff)
  qed
  then show ?case using 2(1) by simp
qed simp

lemma ordered_mset: "mset (orderedAttachments attachments) = mset attachments"
  unfolding orderedAttachments_def mset_map mset_sort by (simp flip: mset_map)

text \<open>
  The attachments on show. The groups show every attachment once, in the order of their positions (those without
  one where they are listed), images with images and files with files, and no group is split.
\<close>

theorem attachments_grouped:
  "concat (map snd (attachment_groups attachments)) = orderedAttachments attachments \<and>
   mset (orderedAttachments attachments) = mset attachments \<and>
   list_all group_ok (attachment_groups attachments) \<and> distinct_adj (map fst (attachment_groups attachments))"
  using group_into_correct [of "[]" "orderedAttachments attachments"] ordered_mset
  by (simp add: attachment_groups_def)

section \<open>The shared page\<close>

inductive share_page_reachable :: "(jstr \<times> 'a) share_page \<Rightarrow> bool" where
  Opened: "share_page_reachable (open_share_page token)"
| TokenChanged: "share_page_reachable st \<Longrightarrow> share_page_reachable (share_effect token st)"
| Answered: "share_page_reachable st \<Longrightarrow> i < length (sg_loads st) \<Longrightarrow>
    answer = None \<or> answer = Some (sg_loads st ! i, share) \<Longrightarrow> share_page_reachable (share_page_answer i answer st)"

lemma share_page_invariant:
  assumes "share_page_reachable st"
  shows "(\<forall>i. sg_active st = Some i \<longrightarrow> i < length (sg_loads st) \<and> sg_token st = Some (sg_loads st ! i)) \<and>
    (\<forall>t s. sg_state st = ShareReady (t, s) \<longrightarrow> sg_token st = Some t)"
  using assms
  by induction (auto simp: open_share_page_def share_effect_def share_page_answer_def nth_append split: option.splits if_splits)

text \<open>
  The share on show. The page of a share shows the snapshot of the token in its address: an answer that comes
  after the token has changed is not shown.
\<close>

theorem shared_page_of_its_token:
  assumes "share_page_reachable st" and "sg_state st = ShareReady (t, share)"
  shows "sg_token st = Some t"
  using share_page_invariant [OF assms(1)] assms(2) by blast

theorem shared_page_of_its_token_witness:
  "sg_token (share_page_answer 0 (Some (js ''t'', 5 :: nat)) (open_share_page (Some (js ''t'')))) = Some (js ''t'')"
proof -
  let ?p = "open_share_page (Some (js ''t'')) :: (jstr \<times> nat) share_page"
  have "share_page_reachable (share_page_answer 0 (Some (js ''t'', 5)) ?p)"
    by (intro share_page_reachable.Answered share_page_reachable.Opened)
      (simp_all add: open_share_page_def share_effect_def)
  moreover have "sg_state (share_page_answer 0 (Some (js ''t'', 5)) ?p) = ShareReady (js ''t'', 5)"
    by (simp add: open_share_page_def share_effect_def share_page_answer_def)
  ultimately show ?thesis by (rule shared_page_of_its_token)
qed

section \<open>The controls\<close>

lemma thread_menu_needs_conversation:
  "tc_menuOpen c \<longrightarrow> tc_hasConversation c \<Longrightarrow>
   tc_menuOpen (fst (thread_step event c)) \<longrightarrow> tc_hasConversation (fst (thread_step event c))"
  by (cases event) auto

lemma thread_calls_need_conversation:
  "\<not> tc_hasConversation c \<Longrightarrow>
   list_all (\<lambda>call. call \<in> {OpenMobileSidebar, NewConversation}) (snd (thread_step event c))"
  by (cases event) auto

end
