(* ===== verification/Overlays.thy ===== *)
theory Overlays
  imports Message_Text Complex_Main
begin

text \<open>
  What floats over the page: the card of a citation (\<open>frontend/src/messages/Citation.tsx\<close>), favicons
  (\<open>messages/SourcesPanel.tsx\<close>), the button that quotes a selection (\<open>messages/ReplyQuoteSelectionAction.tsx\<close>), toasts
  (\<open>ui/Toast.tsx\<close>), and the keyboard in dialogs and sheets (\<open>ui/ModalDialog.tsx\<close>, \<open>ui/BottomSheet.tsx\<close>); also the
  links of a message (\<open>messages/markdown/MarkdownLink.tsx\<close>). Rectangles and the size of the window are arguments.
\<close>

section \<open>The card of a citation\<close>

record card_coords =
  co_left :: rat
  co_top :: "rat option"
  co_bottom :: "rat option"

record citation_card =
  cc_open :: bool
  cc_page :: nat
  cc_coords :: card_coords
  cc_closeTimer :: bool

record chip_rect =
  ch_left :: rat
  ch_top :: rat
  ch_bottom :: rat

definition card_width :: rat where "card_width = 320"
definition card_margin :: rat where "card_margin = 8"
definition card_est_height :: rat where "card_est_height = 200"

definition initial_citation_card :: citation_card where
  "initial_citation_card =
     \<lparr>cc_open = False, cc_page = 0, cc_coords = \<lparr>co_left = 0, co_top = None, co_bottom = None\<rparr>, cc_closeTimer = False\<rparr>"

definition place_card :: "rat \<Rightarrow> rat \<Rightarrow> chip_rect \<Rightarrow> card_coords" where
  "place_card innerWidth innerHeight r =
     (let left = min (max (ch_left r) card_margin) (innerWidth - card_width - card_margin);
          above = (innerHeight < ch_bottom r + card_est_height \<and> card_est_height < ch_top r)
      in if above then \<lparr>co_left = left, co_top = None, co_bottom = Some (innerHeight - ch_top r + 6)\<rparr>
         else \<lparr>co_left = left, co_top = Some (ch_bottom r + 6), co_bottom = None\<rparr>)"

definition open_card :: "rat \<Rightarrow> rat \<Rightarrow> chip_rect \<Rightarrow> citation_card \<Rightarrow> citation_card" where
  "open_card innerWidth innerHeight r st =
     st\<lparr>cc_page := 0, cc_coords := place_card innerWidth innerHeight r, cc_open := True\<rparr>"

datatype card_event =
    ChipEntered rat rat chip_rect
  | ChipLeft
  | ChipClicked rat rat chip_rect
  | CardEntered
  | CardLeft
  | CloseTimerFired
  | PressedOutside
  | PageScrolled
  | PreviousSource
  | NextSource

text \<open>\<open>total\<close> is the number of sources cited; the listeners of the card are there while it is open.\<close>

fun card_step :: "bool \<Rightarrow> nat \<Rightarrow> card_event \<Rightarrow> citation_card \<Rightarrow> citation_card" where
  "card_step isMobile pages (ChipEntered w h r) st =
     (if isMobile then st else open_card w h r (st\<lparr>cc_closeTimer := False\<rparr>))"
| "card_step isMobile pages ChipLeft st = (if isMobile then st else st\<lparr>cc_closeTimer := True\<rparr>)"
| "card_step isMobile pages (ChipClicked w h r) st = (if cc_open st then st\<lparr>cc_open := False\<rparr> else open_card w h r st)"
| "card_step isMobile pages CardEntered st = (if isMobile \<or> \<not> cc_open st then st else st\<lparr>cc_closeTimer := False\<rparr>)"
| "card_step isMobile pages CardLeft st = (if isMobile \<or> \<not> cc_open st then st else st\<lparr>cc_closeTimer := True\<rparr>)"
| "card_step isMobile pages CloseTimerFired st =
     (if cc_closeTimer st then st\<lparr>cc_open := False, cc_closeTimer := False\<rparr> else st)"
| "card_step isMobile pages PressedOutside st = (if cc_open st then st\<lparr>cc_open := False\<rparr> else st)"
| "card_step isMobile pages PageScrolled st = (if cc_open st then st\<lparr>cc_open := False\<rparr> else st)"
| "card_step isMobile pages PreviousSource st =
     (if cc_open st \<and> 1 < pages \<and> cc_page st \<noteq> 0 then st\<lparr>cc_page := cc_page st - 1\<rparr> else st)"
| "card_step isMobile pages NextSource st =
     (if cc_open st \<and> 1 < pages \<and> cc_page st + 1 < pages then st\<lparr>cc_page := min (pages - 1) (cc_page st + 1)\<rparr> else st)"

definition card_source :: "message_source list \<Rightarrow> citation_card \<Rightarrow> message_source" where
  "card_source sources st = sources ! min (cc_page st) (length sources - 1)"

text \<open>The text of a citation without sources, and the date of a source.\<close>

definition unresolved_citation :: "jstr list \<Rightarrow> jstr" where
  "unresolved_citation ids = js ''['' @ join (js '']['') ids @ js '']''"

definition card_date :: "message_source \<Rightarrow> jstr option" where
  "card_date s = (if truthy (src_published_at s) then map_option (take 10) (src_published_at s) else None)"

section \<open>Domains and favicons\<close>

text \<open>\<open>hostname\<close> is \<open>new URL(url).hostname\<close>, \<open>None\<close> where that throws.\<close>

definition domainOf :: "(jstr \<Rightarrow> jstr option) \<Rightarrow> jstr \<Rightarrow> jstr" where
  "domainOf hostname url = (case hostname url of
      None \<Rightarrow> []
    | Some host \<Rightarrow> if starts_with (js ''www.'') host then drop 4 host else host)"

definition multi_tlds :: "jstr list" where
  "multi_tlds = [js ''com.cn'', js ''net.cn'', js ''org.cn'', js ''gov.cn'', js ''edu.cn'',
     js ''co.uk'', js ''org.uk'', js ''ac.uk'', js ''gov.uk'',
     js ''com.tw'', js ''com.hk'', js ''com.au'', js ''co.jp'', js ''co.kr'', js ''com.br'', js ''co.in'', js ''com.sg'']"

definition siteName :: "(jstr \<Rightarrow> jstr option) \<Rightarrow> jstr \<Rightarrow> jstr" where
  "siteName hostname url =
     (let domain = domainOf hostname url; parts = split_on 46 domain; n = length parts
      in if domain = [] then []
         else if n \<le> 2 then parts ! 0
         else
           let tldParts = (if join (js ''.'') (drop (n - 2) parts) \<in> set multi_tlds then 2 else 1)
           in parts ! (n - 1 - tldParts))"

record favicon =
  fv_failed :: bool
  fv_url :: jstr

definition favicon_source :: "(jstr \<Rightarrow> jstr) \<Rightarrow> favicon \<Rightarrow> jstr option" where
  "favicon_source domain st =
     (if fv_failed st \<or> domain (fv_url st) = [] then None
      else Some (js ''https://www.google.com/s2/favicons?domain='' @ domain (fv_url st) @ js ''&sz=64''))"

definition favicon_error :: "favicon \<Rightarrow> favicon" where
  "favicon_error st = st\<lparr>fv_failed := True\<rparr>"

definition favicon_props :: "jstr \<Rightarrow> favicon \<Rightarrow> favicon" where
  "favicon_props url st = st\<lparr>fv_url := url\<rparr>"

section \<open>The quote button\<close>

definition viewport_gap :: rat where "viewport_gap = 4"
definition selection_gap :: rat where "selection_gap = 4"

text \<open>The place of the button of a size in a window, for a selection with these edges.\<close>

definition quote_action_place :: "rat \<Rightarrow> rat \<Rightarrow> rat \<times> rat \<Rightarrow> rat \<Rightarrow> rat \<Rightarrow> rat \<Rightarrow> rat \<times> rat" where
  "quote_action_place innerWidth innerHeight extent sel_left sel_top sel_bottom =
     (let left = min (innerWidth - viewport_gap - fst extent) (max viewport_gap (sel_left - selection_gap));
          preferred = sel_top - selection_gap - snd extent
      in (left,
          if viewport_gap \<le> preferred then preferred
          else max viewport_gap (min (innerHeight - viewport_gap - snd extent) (sel_bottom + selection_gap))))"

definition measured_size :: "(rat \<times> rat) option \<Rightarrow> rat \<times> rat \<Rightarrow> rat \<times> rat" where
  "measured_size rect extent = (case rect of
      None \<Rightarrow> extent
    | Some (w, h) \<Rightarrow> if w \<noteq> 0 \<and> h \<noteq> 0 then (w, h) else extent)"

section \<open>Toasts\<close>

text \<open>The toast on show, by its id, and the id whose timer runs.\<close>

record toast_view =
  tv_toast :: "int option"
  tv_timer :: "int option"
  tv_dismissed :: "int list"

text \<open>A render with another toast clears the timer of the one before and starts its own.\<close>

definition toast_rendered :: "int option \<Rightarrow> toast_view \<Rightarrow> toast_view" where
  "toast_rendered toast st = (if toast = tv_toast st then st else st\<lparr>tv_toast := toast, tv_timer := toast\<rparr>)"

definition toast_timer :: "toast_view \<Rightarrow> toast_view" where
  "toast_timer st = (case tv_timer st of
      None \<Rightarrow> st
    | Some i \<Rightarrow> st\<lparr>tv_timer := None, tv_dismissed := tv_dismissed st @ (case tv_toast st of None \<Rightarrow> [] | Some t \<Rightarrow> [t])\<rparr>)"

section \<open>The keyboard in dialogs and sheets\<close>

text \<open>Where the focus is: on an element that can take it, by its number, on the panel itself, or elsewhere.\<close>

datatype focus_place = OnItem nat | OnPanel | Elsewhere

text \<open>What a key does: close, move the focus, or what the browser does by itself.\<close>

datatype key_effect = CloseIt | FocusItem nat | FocusPanel | BrowserDefault

definition modal_key :: "bool \<Rightarrow> bool \<Rightarrow> bool \<Rightarrow> nat \<Rightarrow> focus_place \<Rightarrow> key_effect" where
  "modal_key escape tab shift count focus =
     (if escape then CloseIt
      else if \<not> tab then BrowserDefault
      else if count = 0 then FocusPanel
      else if shift \<and> focus = OnItem 0 then FocusItem (count - 1)
      else if \<not> shift \<and> focus = OnItem (count - 1) then FocusItem 0
      else BrowserDefault)"

definition sheet_key :: "bool \<Rightarrow> bool \<Rightarrow> bool \<Rightarrow> nat \<Rightarrow> focus_place \<Rightarrow> key_effect" where
  "sheet_key escape tab shift count focus =
     (if escape then CloseIt
      else if \<not> tab then BrowserDefault
      else if count = 0 then FocusPanel
      else if shift \<and> (focus = OnItem 0 \<or> focus = OnPanel \<or> focus = Elsewhere) then FocusItem (count - 1)
      else if \<not> shift \<and> (focus = OnItem (count - 1) \<or> focus = OnPanel \<or> focus = Elsewhere) then FocusItem 0
      else BrowserDefault)"

definition modal_initial_focus :: "nat option \<Rightarrow> nat \<Rightarrow> focus_place" where
  "modal_initial_focus marked count = (case marked of Some i \<Rightarrow> OnItem i | None \<Rightarrow> if 0 < count then OnItem 0 else OnPanel)"

text \<open>
  What a browser does with Tab by itself: the neighbour in the document, which for the elements of a panel is the
  neighbour in the panel, and beyond its ends something elsewhere. From the panel, the next is its first element, and
  the previous one is in front of the panel.
\<close>

definition browser_tab :: "bool \<Rightarrow> nat \<Rightarrow> focus_place \<Rightarrow> focus_place" where
  "browser_tab shift count focus = (case focus of
      OnItem i \<Rightarrow> if shift then (if i = 0 then Elsewhere else OnItem (i - 1))
                else (if i + 1 < count then OnItem (i + 1) else Elsewhere)
    | OnPanel \<Rightarrow> if shift then Elsewhere else if 0 < count then OnItem 0 else Elsewhere
    | Elsewhere \<Rightarrow> Elsewhere)"

definition after_tab :: "(bool \<Rightarrow> bool \<Rightarrow> bool \<Rightarrow> nat \<Rightarrow> focus_place \<Rightarrow> key_effect) \<Rightarrow> bool \<Rightarrow> nat \<Rightarrow> focus_place \<Rightarrow> focus_place" where
  "after_tab key shift count focus = (case key False True shift count focus of
      FocusItem i \<Rightarrow> OnItem i
    | FocusPanel \<Rightarrow> OnPanel
    | _ \<Rightarrow> browser_tab shift count focus)"

section \<open>Links, tips and deferred copies\<close>

text \<open>
  \<open>parse\<close> is \<open>new URL(href, location)\<close> read as protocol and origin, \<open>None\<close> where it throws; \<open>origin\<close> is the page's.
  The attributes of a link are its class, target and \<open>rel\<close>.
\<close>

definition isExternalHttpHref :: "(jstr \<Rightarrow> (jstr \<times> jstr) option) \<Rightarrow> jstr \<Rightarrow> jstr option \<Rightarrow> bool" where
  "isExternalHttpHref parse origin href =
     (if \<not> truthy href then False
      else case parse (the href) of
        None \<Rightarrow> False
      | Some (protocol, target) \<Rightarrow> (protocol = js ''http:'' \<or> protocol = js ''https:'') \<and> target \<noteq> origin)"

definition markdown_link :: "(jstr \<Rightarrow> (jstr \<times> jstr) option) \<Rightarrow> jstr \<Rightarrow> jstr option \<Rightarrow> (jstr \<times> jstr \<times> jstr) option" where
  "markdown_link parse origin href =
     (if isExternalHttpHref parse origin href then Some (js ''decorated-link'', js ''_new'', js ''noopener'') else None)"

text \<open>The tip under a button of a message (\<open>messages/MessageAction.tsx\<close>): its text, and whether it is on show.\<close>

definition action_tip :: "jstr \<Rightarrow> bool \<Rightarrow> jstr option \<Rightarrow> jstr" where
  "action_tip label disabled reason = (if disabled then nullish reason label else label)"

datatype action_event = ActionEntered | ActionLeft | ActionClicked

fun action_step :: "bool \<Rightarrow> action_event \<Rightarrow> bool \<Rightarrow> bool \<times> bool" where
  "action_step disabled ActionEntered tip = (True, False)"
| "action_step disabled ActionLeft tip = (False, False)"
| "action_step disabled ActionClicked tip = (if disabled then (tip, False) else (False, True))"

text \<open>
  \<open>startDeferredTextCopy\<close> (\<open>ui/clipboard.ts\<close>): \<open>None\<close> where the browser cannot, or throws at once; otherwise what the
  write resolves with, which fails when the text does.
\<close>

definition startDeferredTextCopy :: "bool \<Rightarrow> bool \<Rightarrow> bool option \<Rightarrow> bool option" where
  "startDeferredTextCopy canWrite hasItem written = (if \<not> canWrite \<or> \<not> hasItem then None else written)"

section \<open>Properties\<close>

inductive card_reachable :: "bool \<Rightarrow> nat \<Rightarrow> citation_card \<Rightarrow> bool" for isMobile pages where
  Initial: "card_reachable isMobile pages initial_citation_card"
| Event: "card_reachable isMobile pages st \<Longrightarrow> card_reachable isMobile pages (card_step isMobile pages event st)"

lemma card_page_in_range:
  assumes "card_reachable isMobile pages st" and "0 < pages"
  shows "cc_page st < pages"
  using assms
proof (induction rule: card_reachable.induct)
  case (Event st event)
  then show ?case by (cases event) (auto simp: open_card_def)
qed (simp add: initial_citation_card_def)

text \<open>The page shown is the source it says, and the card lies within the window where that is wide enough.\<close>

lemma card_shows_its_page:
  "card_reachable isMobile (length sources) st \<Longrightarrow> sources \<noteq> [] \<Longrightarrow> card_source sources st = sources ! cc_page st"
  using card_page_in_range [of isMobile "length sources" st] by (simp add: card_source_def min_def)

lemma card_within_window:
  "card_width + 2 * card_margin \<le> innerWidth \<Longrightarrow>
   card_margin \<le> co_left (place_card innerWidth innerHeight r) \<and>
   co_left (place_card innerWidth innerHeight r) + card_width + card_margin \<le> innerWidth"
  by (auto simp: place_card_def Let_def)

lemma quote_action_within_window:
  assumes "fst extent + 2 * viewport_gap \<le> innerWidth" and "snd extent + 2 * viewport_gap \<le> innerHeight"
    and "sel_top - selection_gap \<le> innerHeight - viewport_gap"
  shows "viewport_gap \<le> fst (quote_action_place innerWidth innerHeight extent l sel_top b) \<and>
    fst (quote_action_place innerWidth innerHeight extent l sel_top b) + fst extent \<le> innerWidth - viewport_gap \<and>
    viewport_gap \<le> snd (quote_action_place innerWidth innerHeight extent l sel_top b) \<and>
    snd (quote_action_place innerWidth innerHeight extent l sel_top b) + snd extent \<le> innerHeight - viewport_gap"
  using assms by (auto simp: quote_action_place_def Let_def min_def max_def)

text \<open>A chip is labelled with one of the labels of the domain.\<close>

lemma site_name_is_label:
  "domainOf hostname url \<noteq> [] \<Longrightarrow> siteName hostname url \<in> set (split_on 46 (domainOf hostname url))"
proof -
  have ne: "split_on (46 :: code_unit) d \<noteq> []" for d by (cases d) (auto split: list.splits)
  assume "domainOf hostname url \<noteq> []"
  then show ?thesis using ne [of "domainOf hostname url"] by (auto simp: siteName_def Let_def intro!: nth_mem)
qed

lemma site_name_examples:
  "siteName Some (js ''ja.wikipedia.org'') = js ''wikipedia''"
  "siteName Some (js ''finance.sina.com.cn'') = js ''sina''"
  "siteName Some (js ''www.instagram.com'') = js ''instagram''"
  by code_simp+

text \<open>A favicon that failed to load hides those of all sources shown in its place afterwards.\<close>

lemma favicon_failure_sticks: "favicon_source domain (favicon_props url (favicon_error st)) = None"
  by (simp add: favicon_source_def favicon_props_def favicon_error_def)

text \<open>A timer dismisses the toast it was started for, and no other.\<close>

inductive toast_reachable :: "toast_view \<Rightarrow> bool" where
  NoToast: "toast_reachable \<lparr>tv_toast = None, tv_timer = None, tv_dismissed = []\<rparr>"
| ToastRendered: "toast_reachable st \<Longrightarrow> toast_reachable (toast_rendered toast st)"
| ToastTimer: "toast_reachable st \<Longrightarrow> toast_reachable (toast_timer st)"

lemma toast_timer_is_its_own: "toast_reachable st \<Longrightarrow> tv_timer st = None \<or> tv_timer st = tv_toast st"
  by (induction rule: toast_reachable.induct) (auto simp: toast_rendered_def toast_timer_def split: option.splits)

text \<open>
  The keyboard stays in a sheet. In an open sheet Tab and Shift+Tab go around its controls, wherever the focus
  was; in a dialog they do so from every control, but not from the dialog's own surface, where Shift+Tab leaves it.
\<close>

theorem focus_stays_in_sheet:
  "(\<exists>i < count. after_tab sheet_key shift count focus = OnItem i) \<or> (count = 0 \<and> after_tab sheet_key shift count focus = OnPanel) \<or>
   (\<exists>i \<ge> count. focus = OnItem i)"
  by (cases focus) (auto simp: after_tab_def sheet_key_def browser_tab_def)

lemma focus_goes_around:
  assumes "i < count"
  shows "after_tab modal_key False count (OnItem i) = OnItem ((i + 1) mod count)"
    and "after_tab modal_key True count (OnItem i) = OnItem ((i + count - 1) mod count)"
  using assms by (auto simp: after_tab_def modal_key_def browser_tab_def mod_if)

lemma focus_leaves_dialog: "0 < count \<Longrightarrow> after_tab modal_key True count OnPanel = Elsewhere"
  by (simp add: after_tab_def modal_key_def browser_tab_def)

end
