(* ===== verification/Avatar_Upload.thy ===== *)
theory Avatar_Upload
  imports Multipart_Upload
begin

text \<open>
  Uploading an avatar (\<open>uploadAvatar\<close> of \<open>frontend/src/api/avatars.ts\<close>): the session, the upload to storage, the
  confirmation with the tag storage gave, and the wait for the picture to be processed. The function is cut at its
  \<open>await\<close>s; the answers of backend and storage and the clock are arbitrary, except that a timer of a second does not
  fire earlier.
\<close>

section \<open>Definitions\<close>

text \<open>The upload failed: check the network and try again.\<close>

definition avatar_network_text :: jstr where
  "avatar_network_text =
          [0x5934, 0x50CF, 0x4E0A, 0x4F20, 0x5931, 0x8D25, 0xFF0C, 0x8BF7, 0x68C0, 0x67E5, 0x7F51, 0x7EDC,
      0x8FDE, 0x63A5, 0x540E, 0x91CD, 0x8BD5, 0x3002]"

text \<open>The upload failed: try again later.\<close>

definition avatar_upload_failed_text :: jstr where
  "avatar_upload_failed_text =
          [0x5934, 0x50CF, 0x4E0A, 0x4F20, 0x5931, 0x8D25, 0xFF0C, 0x8BF7, 0x7A0D, 0x540E, 0x91CD, 0x8BD5,
      0x3002]"

text \<open>Processing took too long: try again later.\<close>

definition avatar_timeout_text :: jstr where
  "avatar_timeout_text =
          [0x5934, 0x50CF, 0x5904, 0x7406, 0x8D85, 0x65F6, 0xFF0C, 0x8BF7, 0x7A0D, 0x540E, 0x91CD, 0x8BD5,
      0x3002]"

text \<open>Processing failed: try again.\<close>

definition avatar_processing_failed_text :: jstr where
  "avatar_processing_failed_text =
          [0x5934, 0x50CF, 0x5904, 0x7406, 0x5931, 0x8D25, 0xFF0C, 0x8BF7, 0x91CD, 0x8BD5, 0x3002]"

datatype avatar_status = AvatarPending | AvatarQueued | AvatarProcessing | AvatarSucceeded | AvatarRejected | AvatarExpired

record avatar_session =
  as_upload_id :: jstr
  as_upload_url :: jstr
  as_upload_headers :: "(jstr \<times> jstr) list"

record avatar_response =
  av_status :: avatar_status
  av_message :: "jstr option"
  av_avatar_url :: "jstr option"

text \<open>What the promise is rejected with: the error of a request to the backend, or one of this function.\<close>

datatype avatar_failure = BackendFailure | AvatarFailure jstr

datatype upload_phase =
    CreatingSession
  | PuttingBlob avatar_session
  | ConfirmingUpload avatar_session
  | WaitingSecond avatar_session int int
  | AskingStatus avatar_session int
  | AvatarReady jstr
  | AvatarFailed avatar_failure

record avatar_upload =
  au_phase :: upload_phase
  au_now :: int
  au_requests :: "(jstr \<times> api_request_options) list"
  au_puts :: "put_request list"

subsection \<open>The requests\<close>

definition create_avatar_request :: "blob \<Rightarrow> jstr \<Rightarrow> jstr \<times> api_request_options" where
  "create_avatar_request file content_type =
     (js ''/auth/me/avatar-uploads'', with_body ''POST''
        (obj [(''size_bytes'', JNum (int (length file))), (''content_type'', JStr content_type)]))"

definition put_avatar_request :: "avatar_session \<Rightarrow> blob \<Rightarrow> put_request" where
  "put_avatar_request session file =
     \<lparr>pr_url = as_upload_url session, pr_headers = as_upload_headers session, pr_body = file\<rparr>"

definition confirm_avatar_request :: "avatar_session \<Rightarrow> jstr \<Rightarrow> jstr \<times> api_request_options" where
  "confirm_avatar_request session etag =
     (js ''/auth/me/avatar-uploads/'' @ as_upload_id session @ js ''/confirm'', with_body ''POST'' (obj [(''etag'', JStr etag)]))"

definition avatar_status_request :: "avatar_session \<Rightarrow> jstr \<times> api_request_options" where
  "avatar_status_request session = (js ''/auth/me/avatar-uploads/'' @ as_upload_id session, default_options)"

subsection \<open>The pieces\<close>

definition avatar_working :: "avatar_status \<Rightarrow> bool" where
  "avatar_working status \<longleftrightarrow> status = AvatarPending \<or> status = AvatarQueued \<or> status = AvatarProcessing"

definition avatar_poll_limit :: int where "avatar_poll_limit = 120000"

definition start_avatar_upload :: "int \<Rightarrow> blob \<Rightarrow> jstr \<Rightarrow> avatar_upload" where
  "start_avatar_upload now file content_type =
     \<lparr>au_phase = CreatingSession, au_now = now, au_requests = [create_avatar_request file content_type], au_puts = []\<rparr>"

definition avatar_created :: "blob \<Rightarrow> avatar_session option \<Rightarrow> avatar_upload \<Rightarrow> avatar_upload" where
  "avatar_created file answer u = (case answer of
      None \<Rightarrow> u\<lparr>au_phase := AvatarFailed BackendFailure\<rparr>
    | Some session \<Rightarrow> u\<lparr>au_phase := PuttingBlob session, au_puts := au_puts u @ [put_avatar_request session file]\<rparr>)"

text \<open>\<open>fetch\<close> of this function takes no signal, so an abort is one of the things it may throw.\<close>

definition avatar_put_done :: "avatar_session \<Rightarrow> put_outcome \<Rightarrow> avatar_upload \<Rightarrow> avatar_upload" where
  "avatar_put_done session outcome u = (case outcome of
      PutResponse ok etag \<Rightarrow>
        if \<not> ok then u\<lparr>au_phase := AvatarFailed (AvatarFailure avatar_upload_failed_text)\<rparr>
        else if \<not> truthy etag then u\<lparr>au_phase := AvatarFailed (AvatarFailure avatar_upload_failed_text)\<rparr>
        else u\<lparr>au_phase := ConfirmingUpload session,
               au_requests := au_requests u @ [confirm_avatar_request session (the etag)]\<rparr>
    | _ \<Rightarrow> u\<lparr>au_phase := AvatarFailed (AvatarFailure avatar_network_text)\<rparr>)"

text \<open>The head of the loop, and what follows it.\<close>

definition avatar_loop :: "avatar_session \<Rightarrow> int \<Rightarrow> avatar_response \<Rightarrow> avatar_upload \<Rightarrow> avatar_upload" where
  "avatar_loop session deadline state u =
     (if avatar_working (av_status state)
      then if deadline \<le> au_now u then u\<lparr>au_phase := AvatarFailed (AvatarFailure avatar_timeout_text)\<rparr>
           else u\<lparr>au_phase := WaitingSecond session deadline (au_now u)\<rparr>
      else if av_status state \<noteq> AvatarSucceeded \<or> \<not> truthy (av_avatar_url state)
      then u\<lparr>au_phase := AvatarFailed (AvatarFailure
             (if truthy (av_message state) then the (av_message state) else avatar_processing_failed_text))\<rparr>
      else u\<lparr>au_phase := AvatarReady (the (av_avatar_url state))\<rparr>)"

definition avatar_confirmed :: "avatar_session \<Rightarrow> avatar_response option \<Rightarrow> avatar_upload \<Rightarrow> avatar_upload" where
  "avatar_confirmed session answer u = (case answer of
      None \<Rightarrow> u\<lparr>au_phase := AvatarFailed BackendFailure\<rparr>
    | Some state \<Rightarrow> avatar_loop session (au_now u + avatar_poll_limit) state u)"

definition avatar_waited :: "avatar_session \<Rightarrow> int \<Rightarrow> avatar_upload \<Rightarrow> avatar_upload" where
  "avatar_waited session deadline u =
     u\<lparr>au_phase := AskingStatus session deadline, au_requests := au_requests u @ [avatar_status_request session]\<rparr>"

definition avatar_asked :: "avatar_session \<Rightarrow> int \<Rightarrow> avatar_response option \<Rightarrow> avatar_upload \<Rightarrow> avatar_upload" where
  "avatar_asked session deadline answer u = (case answer of
      None \<Rightarrow> u\<lparr>au_phase := AvatarFailed BackendFailure\<rparr>
    | Some state \<Rightarrow> avatar_loop session deadline state u)"

subsection \<open>Its runs\<close>

inductive avatar_step :: "blob \<Rightarrow> avatar_upload \<Rightarrow> avatar_upload \<Rightarrow> bool" for picture where
  Created: "au_phase u = CreatingSession \<Longrightarrow> avatar_step picture u (avatar_created picture answer u)"
| PutDone: "au_phase u = PuttingBlob session \<Longrightarrow> avatar_step picture u (avatar_put_done session outcome u)"
| Confirmed: "au_phase u = ConfirmingUpload session \<Longrightarrow> avatar_step picture u (avatar_confirmed session answer' u)"
| Waited: "au_phase u = WaitingSecond session deadline since \<Longrightarrow> since + 1000 \<le> au_now u \<Longrightarrow>
    avatar_step picture u (avatar_waited session deadline u)"
| Asked: "au_phase u = AskingStatus session deadline \<Longrightarrow> avatar_step picture u (avatar_asked session deadline answer' u)"
| TimePassed: "0 \<le> dt \<Longrightarrow> avatar_step picture u (u\<lparr>au_now := au_now u + dt\<rparr>)"

inductive avatar_run :: "blob \<Rightarrow> jstr \<Rightarrow> avatar_upload \<Rightarrow> bool" for picture content_type where
  Started: "avatar_run picture content_type (start_avatar_upload now picture content_type)"
| Stepped: "avatar_run picture content_type u \<Longrightarrow> avatar_step picture u u' \<Longrightarrow> avatar_run picture content_type u'"

section \<open>Properties\<close>

text \<open>
  What has been asked at each phase. \<open>polls\<close> counts the questions for the status; each but the first follows the one
  before by a second at least.
\<close>

definition avatar_polls :: "avatar_upload \<Rightarrow> int" where
  "avatar_polls u = int (length (au_requests u)) - 2"

definition asked_in_order :: "blob \<Rightarrow> jstr \<Rightarrow> avatar_session \<Rightarrow> avatar_upload \<Rightarrow> bool" where
  "asked_in_order file content_type session u \<longleftrightarrow> au_puts u = [put_avatar_request session file] \<and>
     (\<exists>etag n. etag \<noteq> [] \<and> au_requests u =
        create_avatar_request file content_type # confirm_avatar_request session etag #
        replicate n (avatar_status_request session))"

definition avatar_inv :: "blob \<Rightarrow> jstr \<Rightarrow> avatar_upload \<Rightarrow> bool" where
  "avatar_inv file content_type u \<longleftrightarrow> avatar_polls u \<le> 120 \<and> (case au_phase u of
      CreatingSession \<Rightarrow> au_requests u = [create_avatar_request file content_type] \<and> au_puts u = []
    | PuttingBlob session \<Rightarrow>
        au_requests u = [create_avatar_request file content_type] \<and> au_puts u = [put_avatar_request session file]
    | ConfirmingUpload session \<Rightarrow> asked_in_order file content_type session u \<and> avatar_polls u = 0
    | WaitingSecond session deadline since \<Rightarrow> asked_in_order file content_type session u \<and> since \<le> au_now u \<and>
        since < deadline \<and> deadline - avatar_poll_limit + 1000 * avatar_polls u \<le> since
    | AskingStatus session deadline \<Rightarrow> asked_in_order file content_type session u \<and>
        deadline - avatar_poll_limit + 1000 * avatar_polls u \<le> au_now u
    | AvatarReady url \<Rightarrow> url \<noteq> [] \<and> (\<exists>session. asked_in_order file content_type session u)
    | AvatarFailed _ \<Rightarrow> True)"

lemma polls_simps [simp]:
  "avatar_polls (u\<lparr>au_phase := p\<rparr>) = avatar_polls u"
  "avatar_polls (u\<lparr>au_now := t\<rparr>) = avatar_polls u"
  "avatar_polls (avatar_waited session deadline u) = avatar_polls u + 1"
  by (simp_all add: avatar_polls_def avatar_waited_def)

lemma asked_simps [simp]:
  "asked_in_order file c session (u\<lparr>au_phase := p\<rparr>) = asked_in_order file c session u"
  "asked_in_order file c session (u\<lparr>au_now := t\<rparr>) = asked_in_order file c session u"
  by (simp_all add: asked_in_order_def)

lemma asked_again: "asked_in_order file c session u \<Longrightarrow> asked_in_order file c session (avatar_waited session deadline u)"
proof -
  assume "asked_in_order file c session u"
  then obtain etag n where made: "au_puts u = [put_avatar_request session file]" "etag \<noteq> []" "au_requests u =
      create_avatar_request file c # confirm_avatar_request session etag # replicate n (avatar_status_request session)"
    unfolding asked_in_order_def by blast
  then have "au_requests (avatar_waited session deadline u) = create_avatar_request file c #
      confirm_avatar_request session etag # replicate (Suc n) (avatar_status_request session)"
    by (simp add: avatar_waited_def replicate_append_same)
  moreover have "au_puts (avatar_waited session deadline u) = au_puts u" by (simp add: avatar_waited_def)
  ultimately show ?thesis unfolding asked_in_order_def using made(1,2) by metis
qed

lemma truthy_the: "truthy x \<Longrightarrow> the x \<noteq> []"
  by (cases x) (auto simp: truthy_def)

lemma loop_keeps_inv:
  assumes "asked_in_order file c session u" and "avatar_polls u \<le> 120"
    and "deadline - avatar_poll_limit + 1000 * avatar_polls u \<le> au_now u"
  shows "avatar_inv file c (avatar_loop session deadline state u)"
  using assms by (auto simp: avatar_loop_def avatar_inv_def dest: truthy_the)

lemma step_keeps_inv: "avatar_step file u u' \<Longrightarrow> avatar_inv file c u \<Longrightarrow> avatar_inv file c u'"
proof (induction rule: avatar_step.induct)
  case (PutDone u session outcome)
  then show ?case
    by (auto simp: avatar_inv_def avatar_put_done_def avatar_polls_def asked_in_order_def split: put_outcome.splits)
      (blast dest: truthy_the)
next
  case (Confirmed u session answer)
  then have "asked_in_order file c session u" "avatar_polls u = 0" by (simp_all add: avatar_inv_def)
  then show ?case
    by (cases answer) (simp add: avatar_confirmed_def avatar_inv_def, simp add: avatar_confirmed_def loop_keeps_inv)
next
  case (Waited u session deadline since)
  then have "asked_in_order file c session (avatar_waited session deadline u)"
    by (intro asked_again) (simp add: avatar_inv_def)
  moreover have "au_phase (avatar_waited session deadline u) = AskingStatus session deadline"
    "au_now (avatar_waited session deadline u) = au_now u" by (simp_all add: avatar_waited_def)
  ultimately show ?case using Waited by (simp add: avatar_inv_def avatar_poll_limit_def)
next
  case (Asked u session deadline answer)
  then have "asked_in_order file c session u" "avatar_polls u \<le> 120"
    "deadline - avatar_poll_limit + 1000 * avatar_polls u \<le> au_now u" by (simp_all add: avatar_inv_def)
  then show ?case
    by (cases answer) (simp add: avatar_asked_def avatar_inv_def, simp add: avatar_asked_def loop_keeps_inv)
next
  case (TimePassed dt u)
  then show ?case by (auto simp: avatar_inv_def split: upload_phase.splits)
qed (auto simp: avatar_inv_def avatar_created_def avatar_polls_def split: option.splits)

lemma run_inv: "avatar_run file c u \<Longrightarrow> avatar_inv file c u"
proof (induction rule: avatar_run.induct)
  case (Started now)
  show ?case by (simp add: start_avatar_upload_def avatar_inv_def avatar_polls_def)
qed (rule step_keeps_inv)

text \<open>
  An avatar upload ends. It asks for the status at most 120 times, whatever the backend answers, and sends the picture
  to storage at most once.
\<close>

theorem avatar_upload_bounded:
  assumes "avatar_run file content_type u"
  shows "length (au_requests u) \<le> 122"
  using run_inv [OF assms] by (simp add: avatar_inv_def avatar_polls_def)

theorem avatar_upload_bounded_witness:
  "length (au_requests (avatar_created [] None (start_avatar_upload 0 [] (js ''image/png'')))) \<le> 122"
proof (rule avatar_upload_bounded [of "[]" "js ''image/png''"])
  show "avatar_run [] (js ''image/png'') (avatar_created [] None (start_avatar_upload 0 [] (js ''image/png'')))"
    by (rule avatar_run.Stepped [OF avatar_run.Started]) (rule avatar_step.Created, simp add: start_avatar_upload_def)
qed

text \<open>
  The address it resolves with is that of an upload that went through all of it: the picture was put where the session
  says, confirmed under the session's identifier with the tag storage gave.
\<close>

theorem avatar_ready_after_confirmation:
  assumes "avatar_run file content_type u" and "au_phase u = AvatarReady url"
  shows "url \<noteq> [] \<and> (\<exists>session etag n. etag \<noteq> [] \<and> n \<le> 120 \<and> au_puts u = [put_avatar_request session file] \<and>
    au_requests u = create_avatar_request file content_type # confirm_avatar_request session etag #
      replicate n (avatar_status_request session))"
proof -
  obtain session etag n where made: "url \<noteq> []" "avatar_polls u \<le> 120" "au_puts u = [put_avatar_request session file]"
    "etag \<noteq> []" "au_requests u = create_avatar_request file content_type # confirm_avatar_request session etag #
      replicate n (avatar_status_request session)"
    using run_inv [OF assms(1)] assms(2) by (auto simp: avatar_inv_def asked_in_order_def)
  then have "n \<le> 120" by (simp add: avatar_polls_def)
  with made show ?thesis by blast
qed

end
