(* ===== verification/Spec2Isabelle.thy ===== *)
theory Spec2Isabelle
  imports Attachment_Previews Attachment_Drafts Auth_Forms App_Routing Message_View Conversation_Search Model_Editors Composer_View Share_Dialogs Account_Card Attachment_Card Sidebar_View Code_Highlight Quote_Reveal Stick_To_Bottom Search_Reveal Message_Actions Overlays Avatar_Upload
begin

text \<open>
  A verification library for the web client of iChat, a chat application that streams the replies of
  language models (\<open>frontend/src\<close>, TypeScript with React). Paths below are relative to \<open>src/\<close>.

  \<^bold>\<open>The program.\<close> One page holds a store (\<open>frontend/src/app/store.ts\<close>): a reducer per slice (session, list of
  conversations, open thread, active run, pending submission, composer, surface), combined by
  \<open>rootReducer\<close> and kept in React state by \<open>AppProvider\<close>, which mirrors it in \<open>stateRef\<close> so that a
  continuation that resumes after an \<open>await\<close> sees the newest state. Hooks are the program's processes:
  \<open>useAuthSession\<close> signs in, restores and ends a session; \<open>useConversationLoader\<close>,
  \<open>useConversationMarkers\<close> and \<open>useConversationListSync\<close> keep the sidebar; \<open>useSendMessage\<close> and
  \<open>useRegenerate\<close> start runs; \<open>useRunStream\<close> and \<open>useRunRecovery\<close> read the events of a run from the SSE
  decoder; \<open>useAttachmentUploads\<close> uploads files. They call the backend through \<open>ApiClient\<close>, which
  refreshes an expired session once for all waiting calls, and keep drafts, tokens and preferences in
  browser storage. \<open>AppShell\<close> is the page that puts hooks, address bar, composer and thread together. The
  model console (\<open>frontend/src/model-admin\<close>) is a second page with an access key of its own.

  \<^bold>\<open>How code becomes definitions.\<close> A pure function is a function of the same name. A \<open>useState\<close> or \<open>useRef\<close>
  variable is a field of a record, a handler is a function from that record to the next one together
  with what it calls or dispatches. An \<open>async\<close> function is cut at its \<open>await\<close>s: one definition for each
  piece between two of them. The interleavings are an inductive step relation over a state that holds the
  pieces still to run, in any order, so a theorem about its reachable states holds for every timing. A
  thrown value is an \<open>Inl\<close> or an explicit failure branch. Strings are lists of UTF-16 code units
  (\<open>jstr\<close>), because the code counts, slices and compares code units. \<open>undefined\<close>, a missing key and
  \<open>null\<close> are told apart where the code tells them apart.

  \<^bold>\<open>Parameters.\<close> What is not under \<open>src/\<close> is an argument: the network (\<open>net\<close>, or the answer a piece resumes
  with), \<open>JSON.parse\<close> and \<open>JSON.stringify\<close>, \<open>Date.parse\<close>, \<open>toLowerCase\<close>, \<open>localeCompare\<close>, clocks, random
  identifiers, object URLs, and lengths the browser measures. Where a result needs a fact about one, the
  fact is a hypothesis of the theorem (for instance that reading back a written draft gives the
  draft), and the witness of the theorem supplies a concrete function.

  \<^bold>\<open>Termination and bounds.\<close> All definitions are total. Loops whose recursion is not structural carry a
  measure: the SSE decoder's buffer, the splitters of citations and formulas, and
  \<open>fetchRawInternal\<close>, whose only recursive call turns the retry flag off. There is no fuel: a protocol that
  ends is shown to end by a measure on its reachable states (\<open>Multipart_Upload\<close>), one that may not is a step
  relation. Numbers are \<open>int\<close>, \<open>nat\<close> or \<open>rat\<close>, exact where JavaScript's are; the two places that rely on
  values below \<open>2 ^ 53\<close> say so.
\<close>

section \<open>The theories\<close>

text \<open>
  \<^bold>\<open>Foundation.\<close>
  \<^item> \<open>Prelude\<close>: strings, trimming, splitting, UTF-16 and array operations with their lemmas. \<open>Messages\<close>,
    \<open>Composer_Messages\<close>, \<open>Console_Messages\<close>: the texts outside ASCII.
  \<^item> \<open>Api_Types\<close>: \<open>api/types.ts\<close>, \<open>files/types.ts\<close> and the actions of the store.

  \<^bold>\<open>The store.\<close>
  \<^item> \<open>Slices\<close>: the locales \<open>slice\<close> and \<open>total_slice\<close>, what a reducer promises (an invariant kept by each
    admissible action, and a blank state after \<open>app/reset\<close>) and what follows for sequences of actions.
    Each reducer interprets one of them in its own theory.
  \<^item> \<open>Run_State\<close> (\<open>runs/state.ts\<close>), \<open>Conversation_Index\<close> and \<open>Conversation_Detail\<close>
    (\<open>conversations/state.ts\<close>): deltas, sequence numbers and cancellation of a run; sorting, merging,
    paging, pins and searches of the list; messages and reply versions of the thread.
  \<^item> \<open>Store\<close>: the other slices, \<open>rootReducer\<close>, and \<open>dispatch\<close> of \<open>app/AppProvider.tsx\<close>; \<open>stateRef\<close> refines
    the state React commits.

  \<^bold>\<open>Talking to the backend.\<close>
  \<^item> \<open>Sse\<close> (\<open>api/sse.ts\<close>): the decoder is equal to a reference reading of the whole stream whatever the chunks
    are, and reads back what the backend's writer (\<open>app/api/v1/runs.py\<close>) prints.
  \<^item> \<open>Api_Client\<close> (\<open>api/client.ts\<close>, \<open>errors.ts\<close>, \<open>env.ts\<close>) and \<open>Api_Endpoints\<close> (the \<open>create...Api\<close> functions):
    retries, the refresh shared by concurrent calls, paths, bodies and who sends credentials.
  \<^item> \<open>Run_Stream\<close> (\<open>runs/useRunStream.ts\<close>, \<open>useRunRecovery.ts\<close>, \<open>pendingRun.ts\<close>, \<open>api/runs.ts\<close>): every
    interleaving of streams, aborts, refetches and foreign actions; the text on show is the text streamed.
  \<^item> \<open>Multipart_Upload\<close> (\<open>api/files.ts\<close>): the workers of a multipart upload; parts are uploaded once, in
    order of their numbers at completion, and every execution ends.

  \<^bold>\<open>Browser storage.\<close>
  \<^item> \<open>Local_Storage\<close> (\<open>tokenStore.ts\<close>, \<open>selectionStore.ts\<close>, \<open>draftStore.ts\<close>, \<open>replyQuoteDraftStore.ts\<close>): the
    locale \<open>draft_keys\<close> states what a family of keys promises and is interpreted for both draft stores.
  \<^item> \<open>Preferences\<close> (\<open>thinkingLevel.ts\<close>, \<open>modelPreference.ts\<close>, \<open>webSearchPreference.ts\<close>, \<open>runOptions.ts\<close>).

  \<^bold>\<open>Conversations.\<close>
  \<^item> \<open>Send_Message\<close> (\<open>useSendMessage.ts\<close>, \<open>useRegenerate.ts\<close>): one submission at a time.
  \<^item> \<open>Conversation_Loader\<close> (\<open>useConversationLoader.ts\<close>, \<open>useConversationMarkers.ts\<close>,
    \<open>useConversationListSync.ts\<close>): selection, paging, renaming, deletion, optimistic markers and rollback.
  \<^item> \<open>Conversation_Search\<close> (\<open>search/ConversationSearch.tsx\<close>): the results on show answer the query on show.

  \<^bold>\<open>Files.\<close>
  \<^item> \<open>File_Rules\<close> (\<open>files/utils.ts\<close>, \<open>pastedText.ts\<close>); \<open>Attachments\<close>, \<open>Attachment_Previews\<close> and
    \<open>Attachment_Drafts\<close> (\<open>files/useAttachmentUploads.ts\<close>): the operations of the hook, who owns an object
    URL, and what a reload restores. \<open>Attachment_Card\<close> (\<open>AttachmentCard.tsx\<close>, \<open>PastedTextCard.tsx\<close>): signed
    addresses that are fresh, one preview at a time, texts that fit the prompt.

  \<^bold>\<open>Accounts.\<close>
  \<^item> \<open>Auth_Session\<close> (\<open>useAuthSession.ts\<close>, \<open>authExpiry.ts\<close>, start-up of \<open>AppProvider\<close>, \<open>authErrorMessages.ts\<close>):
    signing in, out, expiry and several tabs' storage.
  \<^item> \<open>Auth_Forms\<close> (\<open>AuthScreen.tsx\<close> and the pages behind mailed links).
  \<^item> \<open>Guarded_Action\<close>: the locale \<open>guarded_action\<close>, the contract of a handler behind a busy flag: at most one
    request under way in any order of clicks and answers. It is interpreted for every handler of the program that
    is written this way (links of a share, revocations, forms and mails of the account, the cropper, the banner, the
    composer's removal of images).
  \<^item> \<open>Share_Dialogs\<close> (\<open>ui/ShareDialog.tsx\<close>, \<open>MySharesCard.tsx\<close>, \<open>FavoritesDialog.tsx\<close>), \<open>Avatar_Cropper\<close>
    (\<open>AvatarCropper.tsx\<close>) and \<open>Account_Card\<close> (\<open>AccountCard.tsx\<close>, \<open>UserMenu.tsx\<close>, \<open>ui/VerifyEmailBanner.tsx\<close>): each
    dialog beside what the server holds; the picture exported; the requests a card may make.
  \<^item> \<open>Avatar_Upload\<close> (\<open>api/avatars.ts\<close>): the upload of that picture, which asks for its state at most 120 times and
    resolves only after a confirmed upload.

  \<^bold>\<open>The page.\<close>
  \<^item> \<open>App_Shell\<close> (\<open>app/AppShell.tsx\<close>): values derived from the state, sending with its continuation, quotes and
    pastes; \<open>App_Routing\<close>: address bar, selection, preferences, sharing and clipboard.
  \<^item> \<open>Sidebar_View\<close> (\<open>conversations/Sidebar.tsx\<close>): menus, sections and the requests for further pages.
  \<^item> \<open>Composer_View\<close> (\<open>ui/Composer.tsx\<close>): every handler of the composer and the calls it may make.
  \<^item> \<open>Message_Text\<close> (\<open>citations.ts\<close>, \<open>sourceUtils.ts\<close>, \<open>Citation.tsx\<close>), \<open>Message_Format\<close>
    (\<open>mathDelimiters.ts\<close>), \<open>Message_View\<close> (\<open>reasoningPreview.ts\<close>, \<open>ThinkingBlock.tsx\<close>, \<open>StreamingMessage.tsx\<close>,
    \<open>tableTsv.ts\<close>, \<open>codeLanguage.ts\<close>): recognisers equal to declarative readings, streaming formulas that are
    always closed, tables that read back.
  \<^item> \<open>Code_Highlight\<close> (\<open>markdown/codeHighlight.ts\<close>, \<open>CodeBlock.tsx\<close>): the two patterns as matchers that
    measure a match the way a backtracking engine finds it; the chunks of every highlighter spell the source, and so
    does what a block shows at any moment of a streaming reply.
  \<^item> \<open>Stick_To_Bottom\<close> (\<open>useStickToBottom.ts\<close>): the modes of the thread's view over a layout that is an argument;
    an invariant of the modes, the reader who is left alone, the end that stays in view, the turn that is held, the
    reserve that only shrinks.
  \<^item> \<open>Search_Text\<close> and \<open>Search_Reveal\<close> (\<open>search/searchText.ts\<close>, \<open>revealSearchResult.ts\<close>): the text of a part of
    the page is the words of its visible text, and each of its places refers to the character it stands for; a hit is
    painted only in the text the search saw.
  \<^item> \<open>Reply_Quote_Source\<close> and \<open>Quote_Reveal\<close> (\<open>rehypeReplyQuoteAnchors.ts\<close>, \<open>replyQuoteAnchorProps.ts\<close>,
    \<open>useReplyQuoteSelection.ts\<close>, \<open>replyQuoteSourceNavigation.ts\<close>): places written onto the page and read back,
    quotes looked for by their text, selections that may be quoted, and highlights that leave no trace.
  \<^item> \<open>Message_Actions\<close> (\<open>messages/Message.tsx\<close>, \<open>MessageAttachments.tsx\<close>, \<open>SharePage.tsx\<close>,
    \<open>conversations/ThreadActions.tsx\<close>): what a message may ask for whatever is pressed, the groups of its
    attachments, the page of a share. \<open>Overlays\<close> (\<open>Citation.tsx\<close>, \<open>SourcesPanel.tsx\<close>, \<open>ui/Toast.tsx\<close>,
    \<open>ModalDialog.tsx\<close>, \<open>BottomSheet.tsx\<close> and others): places in the window, and where the keyboard goes.

  \<^bold>\<open>The model console.\<close>
  \<^item> \<open>Model_Catalog\<close> (\<open>catalogView.ts\<close>, \<open>archiveActions.tsx\<close>, \<open>ModelAdminDashboard.tsx\<close>), \<open>Model_Console\<close>
    (\<open>ModelAdminPage.tsx\<close>), \<open>Model_Editors\<close> (\<open>ModelAdminEditors.tsx\<close>): what is listed, archived and restored;
    the catalog on show and the key it came with; forms and the requests they make.
\<close>

section \<open>Not modelled\<close>

text \<open>
  \<^item> Markup, styles, animation and focus of the components; a component is modelled by its state and its
    handlers.
  \<^item> What the browser and foreign libraries do: layout and smooth scrolling, canvas and clipboard, the digest of
    a text, markdown rendering, the parsers of the highlighted languages. What the code reads of them is an argument.
  \<^item> The backend (\<open>app/\<close>, Python), except the writer of event streams that the decoder is proved against; it
    is a parameter.
  \<^item> \<open>design/\<close>, a sandbox with copies of the components and invented data, and the tests.

  What each definition models is recorded line by line beside this library, and every operation left out of
  a component is named there.
\<close>

end
